(* ===== verification/Refusals.thy ===== *)
theory Refusals
  imports Main
begin

section \<open>Refusal reasons (kernel/refusals.py)\<close>

text \<open>
  The enumeration \<open>RefusalReason\<close> is a \<open>StrEnum\<close>: a member is its value string, and two
  members are equal exactly when their values are. A member is modelled as
  \<open>RefusalReason\<close> applied to its value, one abbreviation per member under the member's own
  name, in the order of the source. The list \<open>refusal_reasons\<close> is the class body: iterating
  over the enumeration yields exactly these members.
\<close>

datatype refusal_reason = RefusalReason string

fun reason_value :: "refusal_reason \<Rightarrow> string" where
  "reason_value (RefusalReason v) = v"

lemma reason_eq_iff: "r = s \<longleftrightarrow> reason_value r = reason_value s"
  by (cases r; cases s) simp

abbreviation MALFORMED_DIGEST :: refusal_reason where
  "MALFORMED_DIGEST \<equiv> RefusalReason ''malformed.digest''"

abbreviation MALFORMED_IDENTIFIER :: refusal_reason where
  "MALFORMED_IDENTIFIER \<equiv> RefusalReason ''malformed.identifier''"

abbreviation MALFORMED_PACKAGE_COORDINATE :: refusal_reason where
  "MALFORMED_PACKAGE_COORDINATE \<equiv> RefusalReason ''malformed.package-coordinate''"

abbreviation MALFORMED_VERDICT :: refusal_reason where
  "MALFORMED_VERDICT \<equiv> RefusalReason ''malformed.verdict''"

abbreviation MALFORMED_DEVICE_NUMBER :: refusal_reason where
  "MALFORMED_DEVICE_NUMBER \<equiv> RefusalReason ''malformed.device-number''"

abbreviation MALFORMED_STORE_MARK :: refusal_reason where
  "MALFORMED_STORE_MARK \<equiv> RefusalReason ''malformed.store-mark''"

abbreviation MALFORMED_TREE_ROW :: refusal_reason where
  "MALFORMED_TREE_ROW \<equiv> RefusalReason ''malformed.tree-row''"

abbreviation MALFORMED_PROOF_REFERENCE :: refusal_reason where
  "MALFORMED_PROOF_REFERENCE \<equiv> RefusalReason ''malformed.proof-reference''"

abbreviation MALFORMED_ARTIFACT_MANIFEST :: refusal_reason where
  "MALFORMED_ARTIFACT_MANIFEST \<equiv> RefusalReason ''malformed.artifact-manifest''"

abbreviation MALFORMED_IMAGE_DOCUMENT :: refusal_reason where
  "MALFORMED_IMAGE_DOCUMENT \<equiv> RefusalReason ''malformed.image-document''"

abbreviation MALFORMED_OCI_MANIFEST :: refusal_reason where
  "MALFORMED_OCI_MANIFEST \<equiv> RefusalReason ''malformed.oci-manifest''"

abbreviation MALFORMED_SCREEN_FRAME :: refusal_reason where
  "MALFORMED_SCREEN_FRAME \<equiv> RefusalReason ''malformed.screen-frame''"

abbreviation URL_NOT_HTTPS :: refusal_reason where
  "URL_NOT_HTTPS \<equiv> RefusalReason ''locator.url-not-https''"

abbreviation FILENAME_NOT_PLAIN :: refusal_reason where
  "FILENAME_NOT_PLAIN \<equiv> RefusalReason ''locator.filename-not-plain''"

abbreviation DOWNLOAD_CHECKSUM_MISMATCH :: refusal_reason where
  "DOWNLOAD_CHECKSUM_MISMATCH \<equiv> RefusalReason ''download.checksum-mismatch''"

abbreviation NETWORK_NOT_PERMITTED :: refusal_reason where
  "NETWORK_NOT_PERMITTED \<equiv> RefusalReason ''download.network-not-permitted''"

abbreviation TRUST_ANCHOR_FROM_BUNDLE :: refusal_reason where
  "TRUST_ANCHOR_FROM_BUNDLE \<equiv> RefusalReason ''trust.anchor-from-bundle''"

abbreviation SIGNATURE_REJECTED :: refusal_reason where
  "SIGNATURE_REJECTED \<equiv> RefusalReason ''trust.signature-rejected''"

abbreviation BUNDLE_CONTENT_UNSIGNED :: refusal_reason where
  "BUNDLE_CONTENT_UNSIGNED \<equiv> RefusalReason ''trust.bundle-content-unsigned''"

abbreviation ARTIFACT_CHECKSUM_MISMATCH :: refusal_reason where
  "ARTIFACT_CHECKSUM_MISMATCH \<equiv> RefusalReason ''trust.artifact-checksum-mismatch''"

abbreviation SIGNED_DIGEST_MISMATCH :: refusal_reason where
  "SIGNED_DIGEST_MISMATCH \<equiv> RefusalReason ''trust.signed-digest-mismatch''"

abbreviation IMAGE_METADATA_MISMATCH :: refusal_reason where
  "IMAGE_METADATA_MISMATCH \<equiv> RefusalReason ''trust.image-metadata-mismatch''"

abbreviation NEGATIVE_ACCEPTED :: refusal_reason where
  "NEGATIVE_ACCEPTED \<equiv> RefusalReason ''trust.negative-accepted''"

abbreviation NEGATIVE_WRONG_REASON :: refusal_reason where
  "NEGATIVE_WRONG_REASON \<equiv> RefusalReason ''trust.negative-wrong-reason''"

abbreviation PAYLOAD_CONTRACT_INVALID :: refusal_reason where
  "PAYLOAD_CONTRACT_INVALID \<equiv> RefusalReason ''trust.payload-contract-invalid''"

abbreviation LOCK_MISSING :: refusal_reason where
  "LOCK_MISSING \<equiv> RefusalReason ''lock.missing''"

abbreviation LOCK_UNREADABLE :: refusal_reason where
  "LOCK_UNREADABLE \<equiv> RefusalReason ''lock.unreadable''"

abbreviation LOCK_SCHEMA_UNSUPPORTED :: refusal_reason where
  "LOCK_SCHEMA_UNSUPPORTED \<equiv> RefusalReason ''lock.schema-unsupported''"

abbreviation LOCK_IMAGE_MISSING :: refusal_reason where
  "LOCK_IMAGE_MISSING \<equiv> RefusalReason ''lock.image-missing''"

abbreviation LOCK_IMAGE_DIGEST_MALFORMED :: refusal_reason where
  "LOCK_IMAGE_DIGEST_MALFORMED \<equiv> RefusalReason ''lock.image-digest-malformed''"

abbreviation LOCK_IMAGE_REFERENCE_MUTABLE :: refusal_reason where
  "LOCK_IMAGE_REFERENCE_MUTABLE \<equiv> RefusalReason ''lock.image-reference-mutable''"

abbreviation LOCK_SOURCES_EMPTY :: refusal_reason where
  "LOCK_SOURCES_EMPTY \<equiv> RefusalReason ''lock.sources-empty''"

abbreviation LOCK_ENTRY_MALFORMED :: refusal_reason where
  "LOCK_ENTRY_MALFORMED \<equiv> RefusalReason ''lock.entry-malformed''"

abbreviation LOCK_CHECKSUM_MALFORMED :: refusal_reason where
  "LOCK_CHECKSUM_MALFORMED \<equiv> RefusalReason ''lock.checksum-malformed''"

abbreviation LOCK_COMMIT_NOT_OBJECT_ID :: refusal_reason where
  "LOCK_COMMIT_NOT_OBJECT_ID \<equiv> RefusalReason ''lock.commit-not-object-id''"

abbreviation LOCK_FILENAME_DUPLICATE :: refusal_reason where
  "LOCK_FILENAME_DUPLICATE \<equiv> RefusalReason ''lock.filename-duplicate''"

abbreviation NEGATIVE_QUANTITY :: refusal_reason where
  "NEGATIVE_QUANTITY \<equiv> RefusalReason ''quantity.negative''"

abbreviation PORT_OUT_OF_RANGE :: refusal_reason where
  "PORT_OUT_OF_RANGE \<equiv> RefusalReason ''quantity.port-out-of-range''"

abbreviation MODE_OUT_OF_RANGE :: refusal_reason where
  "MODE_OUT_OF_RANGE \<equiv> RefusalReason ''quantity.mode-out-of-range''"

abbreviation LIMIT_NOT_POSITIVE :: refusal_reason where
  "LIMIT_NOT_POSITIVE \<equiv> RefusalReason ''quantity.limit-not-positive''"

abbreviation PATH_OUTSIDE_RUNTIME_ROOT :: refusal_reason where
  "PATH_OUTSIDE_RUNTIME_ROOT \<equiv> RefusalReason ''path.outside-runtime-root''"

abbreviation PATH_NOT_A_REGULAR_FILE :: refusal_reason where
  "PATH_NOT_A_REGULAR_FILE \<equiv> RefusalReason ''path.not-a-regular-file''"

abbreviation PATH_NOT_A_DIRECTORY :: refusal_reason where
  "PATH_NOT_A_DIRECTORY \<equiv> RefusalReason ''path.not-a-directory''"

abbreviation PATH_IS_A_SYMLINK :: refusal_reason where
  "PATH_IS_A_SYMLINK \<equiv> RefusalReason ''path.is-a-symlink''"

abbreviation PATH_CONTAINS_OPTION_SEPARATOR :: refusal_reason where
  "PATH_CONTAINS_OPTION_SEPARATOR \<equiv> RefusalReason ''path.contains-option-separator''"

abbreviation RUNTIME_ROOT_NOT_PERMITTED :: refusal_reason where
  "RUNTIME_ROOT_NOT_PERMITTED \<equiv> RefusalReason ''path.runtime-root-not-permitted''"

abbreviation RUNTIME_ROOT_NOT_PRIVATE :: refusal_reason where
  "RUNTIME_ROOT_NOT_PRIVATE \<equiv> RefusalReason ''path.runtime-root-not-private''"

abbreviation LINE_EXCEEDS_LIMIT :: refusal_reason where
  "LINE_EXCEEDS_LIMIT \<equiv> RefusalReason ''bounded.line-exceeds-limit''"

abbreviation FRAME_MALFORMED :: refusal_reason where
  "FRAME_MALFORMED \<equiv> RefusalReason ''frame.malformed''"

abbreviation FRAME_OUT_OF_ORDER :: refusal_reason where
  "FRAME_OUT_OF_ORDER \<equiv> RefusalReason ''frame.out-of-order''"

abbreviation FRAME_LIMIT_EXCEEDED :: refusal_reason where
  "FRAME_LIMIT_EXCEEDED \<equiv> RefusalReason ''frame.limit-exceeded''"

abbreviation FRAME_CHECKSUM_MISMATCH :: refusal_reason where
  "FRAME_CHECKSUM_MISMATCH \<equiv> RefusalReason ''frame.checksum-mismatch''"

abbreviation FRAME_INCOMPLETE :: refusal_reason where
  "FRAME_INCOMPLETE \<equiv> RefusalReason ''frame.incomplete''"

abbreviation REQUEST_MALFORMED :: refusal_reason where
  "REQUEST_MALFORMED \<equiv> RefusalReason ''agent.request-malformed''"

abbreviation PROTOCOL_MISMATCH :: refusal_reason where
  "PROTOCOL_MISMATCH \<equiv> RefusalReason ''agent.protocol-mismatch''"

abbreviation UNIT_UNKNOWN :: refusal_reason where
  "UNIT_UNKNOWN \<equiv> RefusalReason ''agent.unit-unknown''"

abbreviation AGENT_REFUSED :: refusal_reason where
  "AGENT_REFUSED \<equiv> RefusalReason ''agent.refused''"

abbreviation PROBE_ENVIRONMENT_UNEXPECTED :: refusal_reason where
  "PROBE_ENVIRONMENT_UNEXPECTED \<equiv> RefusalReason ''probe.environment-unexpected''"

abbreviation SYSFS_ATTRIBUTE_MALFORMED :: refusal_reason where
  "SYSFS_ATTRIBUTE_MALFORMED \<equiv> RefusalReason ''probe.sysfs-attribute-malformed''"

abbreviation PROBE_DESTINATION_TAKEN :: refusal_reason where
  "PROBE_DESTINATION_TAKEN \<equiv> RefusalReason ''probe.destination-taken''"

abbreviation DEVICE_NOT_PERMITTED_FOR_ROLE :: refusal_reason where
  "DEVICE_NOT_PERMITTED_FOR_ROLE \<equiv> RefusalReason ''machine.device-not-permitted-for-role''"

abbreviation DUPLICATE_DEVICE :: refusal_reason where
  "DUPLICATE_DEVICE \<equiv> RefusalReason ''machine.duplicate-device''"

abbreviation TOO_MANY_DEVICES :: refusal_reason where
  "TOO_MANY_DEVICES \<equiv> RefusalReason ''machine.too-many-devices''"

abbreviation NOT_A_DISPOSABLE_MACHINE :: refusal_reason where
  "NOT_A_DISPOSABLE_MACHINE \<equiv> RefusalReason ''machine.not-disposable''"

abbreviation TOPOLOGY_INCONSISTENT :: refusal_reason where
  "TOPOLOGY_INCONSISTENT \<equiv> RefusalReason ''machine.topology-inconsistent''"

abbreviation SOCKET_PATH_TOO_LONG :: refusal_reason where
  "SOCKET_PATH_TOO_LONG \<equiv> RefusalReason ''machine.socket-path-too-long''"

abbreviation MACHINE_NOT_RUNNING :: refusal_reason where
  "MACHINE_NOT_RUNNING \<equiv> RefusalReason ''machine.not-running''"

abbreviation SERIAL_CONSOLE_ABSENT :: refusal_reason where
  "SERIAL_CONSOLE_ABSENT \<equiv> RefusalReason ''machine.serial-console-absent''"

abbreviation FAULT_ALREADY_ATTEMPTED :: refusal_reason where
  "FAULT_ALREADY_ATTEMPTED \<equiv> RefusalReason ''fault.already-attempted''"

abbreviation FAULT_NOT_CONFIRMED :: refusal_reason where
  "FAULT_NOT_CONFIRMED \<equiv> RefusalReason ''fault.not-confirmed''"

abbreviation FAULT_DISK_CHANGED :: refusal_reason where
  "FAULT_DISK_CHANGED \<equiv> RefusalReason ''fault.disk-changed''"

abbreviation SOURCE_IMAGE_CHANGED :: refusal_reason where
  "SOURCE_IMAGE_CHANGED \<equiv> RefusalReason ''fault.source-image-changed''"

abbreviation MACHINE_ROLE_MISMATCH :: refusal_reason where
  "MACHINE_ROLE_MISMATCH \<equiv> RefusalReason ''machine.role-mismatch''"

abbreviation COMMAND_RETIRED :: refusal_reason where
  "COMMAND_RETIRED \<equiv> RefusalReason ''command.retired''"

abbreviation COMMAND_UNKNOWN :: refusal_reason where
  "COMMAND_UNKNOWN \<equiv> RefusalReason ''command.unknown''"

abbreviation TEST_ACCESS_NOT_QCOW2 :: refusal_reason where
  "TEST_ACCESS_NOT_QCOW2 \<equiv> RefusalReason ''build.test-access-not-qcow2''"

abbreviation DEVELOPMENT_KEY_CHANGED :: refusal_reason where
  "DEVELOPMENT_KEY_CHANGED \<equiv> RefusalReason ''trust.development-key-changed''"

abbreviation PUBLIC_KEY_MALFORMED :: refusal_reason where
  "PUBLIC_KEY_MALFORMED \<equiv> RefusalReason ''trust.public-key-malformed''"

abbreviation MACHINE_IDENTITY_CHANGED :: refusal_reason where
  "MACHINE_IDENTITY_CHANGED \<equiv> RefusalReason ''machine.identity-changed''"

abbreviation MACHINE_IDENTITY_UNCHECKABLE :: refusal_reason where
  "MACHINE_IDENTITY_UNCHECKABLE \<equiv> RefusalReason ''machine.identity-uncheckable''"

abbreviation MACHINE_RUNNING :: refusal_reason where
  "MACHINE_RUNNING \<equiv> RefusalReason ''machine.running''"

abbreviation HOST_CAPACITY_INSUFFICIENT :: refusal_reason where
  "HOST_CAPACITY_INSUFFICIENT \<equiv> RefusalReason ''machine.host-capacity-insufficient''"

abbreviation HOST_TOOL_MISSING :: refusal_reason where
  "HOST_TOOL_MISSING \<equiv> RefusalReason ''machine.host-tool-missing''"

abbreviation FIRMWARE_ABSENT :: refusal_reason where
  "FIRMWARE_ABSENT \<equiv> RefusalReason ''machine.firmware-absent''"

abbreviation LEASE_MALFORMED :: refusal_reason where
  "LEASE_MALFORMED \<equiv> RefusalReason ''machine.lease-malformed''"

abbreviation LEASE_MISMATCH :: refusal_reason where
  "LEASE_MISMATCH \<equiv> RefusalReason ''machine.lease-mismatch''"

abbreviation SCREEN_SIZE_CHANGED :: refusal_reason where
  "SCREEN_SIZE_CHANGED \<equiv> RefusalReason ''screen.size-changed''"

abbreviation CONSOLE_TEXT_UNSUPPORTED :: refusal_reason where
  "CONSOLE_TEXT_UNSUPPORTED \<equiv> RefusalReason ''console.text-unsupported''"

abbreviation SESSION_ALREADY_OPEN :: refusal_reason where
  "SESSION_ALREADY_OPEN \<equiv> RefusalReason ''desktop.session-already-open''"

abbreviation CREDENTIALS_MALFORMED :: refusal_reason where
  "CREDENTIALS_MALFORMED \<equiv> RefusalReason ''access.credentials-malformed''"

abbreviation DISK_NOT_QCOW2 :: refusal_reason where
  "DISK_NOT_QCOW2 \<equiv> RefusalReason ''disk.not-qcow2''"

abbreviation DISK_CHAIN_CYCLE :: refusal_reason where
  "DISK_CHAIN_CYCLE \<equiv> RefusalReason ''disk.chain-cycle''"

abbreviation DISK_NOT_STANDALONE :: refusal_reason where
  "DISK_NOT_STANDALONE \<equiv> RefusalReason ''disk.not-standalone''"

abbreviation DISK_OVERLAY_EXISTS :: refusal_reason where
  "DISK_OVERLAY_EXISTS \<equiv> RefusalReason ''disk.overlay-exists''"

abbreviation DEVICE_IDENTITY_MISMATCH :: refusal_reason where
  "DEVICE_IDENTITY_MISMATCH \<equiv> RefusalReason ''device.identity-mismatch''"

abbreviation FIXTURE_ENTRY_MALFORMED :: refusal_reason where
  "FIXTURE_ENTRY_MALFORMED \<equiv> RefusalReason ''fixture.entry-malformed''"

abbreviation FIXTURE_PATH_NOT_ISOLATED :: refusal_reason where
  "FIXTURE_PATH_NOT_ISOLATED \<equiv> RefusalReason ''fixture.path-not-isolated''"

abbreviation FIXTURE_REQUEST_MALFORMED :: refusal_reason where
  "FIXTURE_REQUEST_MALFORMED \<equiv> RefusalReason ''fixture.request-malformed''"

abbreviation FIXTURE_REPORT_MALFORMED :: refusal_reason where
  "FIXTURE_REPORT_MALFORMED \<equiv> RefusalReason ''fixture.report-malformed''"

abbreviation FIXTURE_STATE_UNEXPECTED :: refusal_reason where
  "FIXTURE_STATE_UNEXPECTED \<equiv> RefusalReason ''fixture.state-unexpected''"

abbreviation UPDATE_STATE_UNEXPECTED :: refusal_reason where
  "UPDATE_STATE_UNEXPECTED \<equiv> RefusalReason ''update.state-unexpected''"

abbreviation UPDATE_REJECTION_NOT_OBSERVED :: refusal_reason where
  "UPDATE_REJECTION_NOT_OBSERVED \<equiv> RefusalReason ''update.rejection-not-observed''"

abbreviation GUEST_NOT_READY :: refusal_reason where
  "GUEST_NOT_READY \<equiv> RefusalReason ''guest.not-ready''"

abbreviation INSPECTION_MISMATCH :: refusal_reason where
  "INSPECTION_MISMATCH \<equiv> RefusalReason ''initramfs.inspection-mismatch''"

abbreviation LOCK_HELD :: refusal_reason where
  "LOCK_HELD \<equiv> RefusalReason ''lock.held''"

abbreviation ARCHIVE_ENTRY_NOT_REGULAR :: refusal_reason where
  "ARCHIVE_ENTRY_NOT_REGULAR \<equiv> RefusalReason ''archive.entry-not-regular''"

abbreviation STAGE_FAILED :: refusal_reason where
  "STAGE_FAILED \<equiv> RefusalReason ''stage.failed''"

abbreviation BUILD_PROFILE_NOT_REVIEWED :: refusal_reason where
  "BUILD_PROFILE_NOT_REVIEWED \<equiv> RefusalReason ''build.profile-not-reviewed''"

abbreviation BUILD_PARENT_REQUIRED :: refusal_reason where
  "BUILD_PARENT_REQUIRED \<equiv> RefusalReason ''build.parent-required''"

abbreviation BUILD_PARENT_NOT_COMPLETE :: refusal_reason where
  "BUILD_PARENT_NOT_COMPLETE \<equiv> RefusalReason ''build.parent-not-complete''"

abbreviation BUILD_RECORD_MALFORMED :: refusal_reason where
  "BUILD_RECORD_MALFORMED \<equiv> RefusalReason ''build.record-malformed''"

abbreviation NVIDIA_LOCK_MALFORMED :: refusal_reason where
  "NVIDIA_LOCK_MALFORMED \<equiv> RefusalReason ''build.nvidia-lock-malformed''"

abbreviation NVIDIA_COMPILER_MISMATCH :: refusal_reason where
  "NVIDIA_COMPILER_MISMATCH \<equiv> RefusalReason ''build.nvidia-compiler-mismatch''"

abbreviation NVIDIA_REPORT_UNBOUND :: refusal_reason where
  "NVIDIA_REPORT_UNBOUND \<equiv> RefusalReason ''build.nvidia-report-unbound''"

abbreviation NVIDIA_PACKAGES_INCOMPLETE :: refusal_reason where
  "NVIDIA_PACKAGES_INCOMPLETE \<equiv> RefusalReason ''build.nvidia-packages-incomplete''"

abbreviation FINGERPRINT_LOCK_MALFORMED :: refusal_reason where
  "FINGERPRINT_LOCK_MALFORMED \<equiv> RefusalReason ''build.fingerprint-lock-malformed''"

abbreviation FINGERPRINT_REPORT_UNBOUND :: refusal_reason where
  "FINGERPRINT_REPORT_UNBOUND \<equiv> RefusalReason ''build.fingerprint-report-unbound''"

abbreviation FINGERPRINT_INPUT_MISMATCH :: refusal_reason where
  "FINGERPRINT_INPUT_MISMATCH \<equiv> RefusalReason ''build.fingerprint-input-mismatch''"

abbreviation VENTOY_LOCK_MALFORMED :: refusal_reason where
  "VENTOY_LOCK_MALFORMED \<equiv> RefusalReason ''build.ventoy-lock-malformed''"

abbreviation UBUNTU_SIGNER_UNKNOWN :: refusal_reason where
  "UBUNTU_SIGNER_UNKNOWN \<equiv> RefusalReason ''trust.ubuntu-signer-unknown''"

abbreviation FROZEN_IMAGE_MISMATCH :: refusal_reason where
  "FROZEN_IMAGE_MISMATCH \<equiv> RefusalReason ''build.frozen-image-mismatch''"

abbreviation BUILDER_NOT_ISOLATED :: refusal_reason where
  "BUILDER_NOT_ISOLATED \<equiv> RefusalReason ''build.builder-not-isolated''"

abbreviation HOST_RUNS_AS_ROOT :: refusal_reason where
  "HOST_RUNS_AS_ROOT \<equiv> RefusalReason ''host.runs-as-root''"

abbreviation COMPACTION_INPUT_UNSAFE :: refusal_reason where
  "COMPACTION_INPUT_UNSAFE \<equiv> RefusalReason ''compaction.input-unsafe''"

abbreviation COMPACTION_VALIDATION_FAILED :: refusal_reason where
  "COMPACTION_VALIDATION_FAILED \<equiv> RefusalReason ''compaction.validation-failed''"

abbreviation COMPACTION_SPACE_INSUFFICIENT :: refusal_reason where
  "COMPACTION_SPACE_INSUFFICIENT \<equiv> RefusalReason ''compaction.space-insufficient''"

abbreviation COMPACTION_STATE_CHANGED :: refusal_reason where
  "COMPACTION_STATE_CHANGED \<equiv> RefusalReason ''compaction.state-changed''"

abbreviation COMPACTION_RETAINED_INELIGIBLE :: refusal_reason where
  "COMPACTION_RETAINED_INELIGIBLE \<equiv> RefusalReason ''compaction.retained-ineligible''"

abbreviation PATCH_SOURCE_NOT_REVIEWED :: refusal_reason where
  "PATCH_SOURCE_NOT_REVIEWED \<equiv> RefusalReason ''patch.source-not-reviewed''"

abbreviation PATCH_SOURCE_UNEXPECTED :: refusal_reason where
  "PATCH_SOURCE_UNEXPECTED \<equiv> RefusalReason ''patch.source-unexpected''"

abbreviation UNKNOWN_SETTING :: refusal_reason where
  "UNKNOWN_SETTING \<equiv> RefusalReason ''settings.unknown''"

abbreviation INCONSISTENT_SETTINGS :: refusal_reason where
  "INCONSISTENT_SETTINGS \<equiv> RefusalReason ''settings.inconsistent''"

abbreviation NO_VERIFIED_RESULT :: refusal_reason where
  "NO_VERIFIED_RESULT \<equiv> RefusalReason ''evidence.no-verified-result''"

abbreviation HARDWARE_REQUIRES_PHYSICAL :: refusal_reason where
  "HARDWARE_REQUIRES_PHYSICAL \<equiv> RefusalReason ''evidence.hardware-requires-physical''"

abbreviation PASS_REQUIRES_PROOF :: refusal_reason where
  "PASS_REQUIRES_PROOF \<equiv> RefusalReason ''evidence.pass-requires-proof''"

abbreviation UNKNOWN_CHECK :: refusal_reason where
  "UNKNOWN_CHECK \<equiv> RefusalReason ''evidence.unknown-check''"

abbreviation DUPLICATE_EVIDENCE :: refusal_reason where
  "DUPLICATE_EVIDENCE \<equiv> RefusalReason ''evidence.duplicate''"

abbreviation STALE_EVIDENCE :: refusal_reason where
  "STALE_EVIDENCE \<equiv> RefusalReason ''evidence.stale-or-unbound''"

abbreviation PROOF_KIND_NOT_ACCEPTED :: refusal_reason where
  "PROOF_KIND_NOT_ACCEPTED \<equiv> RefusalReason ''evidence.proof-kind-not-accepted''"

abbreviation SIMULATED_ENVIRONMENT :: refusal_reason where
  "SIMULATED_ENVIRONMENT \<equiv> RefusalReason ''evidence.simulated-environment''"

abbreviation ENVIRONMENT_NOT_WITNESSED :: refusal_reason where
  "ENVIRONMENT_NOT_WITNESSED \<equiv> RefusalReason ''evidence.environment-not-witnessed''"

abbreviation RETRACTED_BY_OPERATOR :: refusal_reason where
  "RETRACTED_BY_OPERATOR \<equiv> RefusalReason ''evidence.retracted-by-operator''"

abbreviation PROOF_ALTERED :: refusal_reason where
  "PROOF_ALTERED \<equiv> RefusalReason ''evidence.proof-altered''"

abbreviation PROOF_IS_EMPTY :: refusal_reason where
  "PROOF_IS_EMPTY \<equiv> RefusalReason ''evidence.proof-is-empty''"

abbreviation STORE_AREA_NOT_PERMITTED :: refusal_reason where
  "STORE_AREA_NOT_PERMITTED \<equiv> RefusalReason ''evidence.store-area-not-permitted''"

abbreviation STORE_VERSION_NOT_SUPPORTED :: refusal_reason where
  "STORE_VERSION_NOT_SUPPORTED \<equiv> RefusalReason ''evidence.store-version-not-supported''"

abbreviation LEGACY_IMPORT_NOT_REPROVEN :: refusal_reason where
  "LEGACY_IMPORT_NOT_REPROVEN \<equiv> RefusalReason ''evidence.legacy-import-not-reproven''"

abbreviation RECORD_NOT_BOUND_TO_CANDIDATE :: refusal_reason where
  "RECORD_NOT_BOUND_TO_CANDIDATE \<equiv> RefusalReason ''evidence.record-not-bound-to-candidate''"

abbreviation SHELL_STRING_NOT_ACCEPTED :: refusal_reason where
  "SHELL_STRING_NOT_ACCEPTED \<equiv> RefusalReason ''command.shell-string-not-accepted''"

abbreviation SECRET_NOT_RENDERABLE :: refusal_reason where
  "SECRET_NOT_RENDERABLE \<equiv> RefusalReason ''secret.not-renderable''"

abbreviation VENDOR_ATTRIBUTION_PRESENT :: refusal_reason where
  "VENDOR_ATTRIBUTION_PRESENT \<equiv> RefusalReason ''style.vendor-attribution-present''"

abbreviation REPOSITORY_ABSOLUTE_PATH :: refusal_reason where
  "REPOSITORY_ABSOLUTE_PATH \<equiv> RefusalReason ''repository.absolute-path''"

abbreviation REPOSITORY_PATH_ESCAPES :: refusal_reason where
  "REPOSITORY_PATH_ESCAPES \<equiv> RefusalReason ''repository.path-escapes''"

abbreviation REPOSITORY_PRIVATE_DOCUMENT :: refusal_reason where
  "REPOSITORY_PRIVATE_DOCUMENT \<equiv> RefusalReason ''repository.private-document''"

abbreviation REPOSITORY_ENVIRONMENT_FILE :: refusal_reason where
  "REPOSITORY_ENVIRONMENT_FILE \<equiv> RefusalReason ''repository.environment-file''"

abbreviation REPOSITORY_PRIVATE_DIRECTORY :: refusal_reason where
  "REPOSITORY_PRIVATE_DIRECTORY \<equiv> RefusalReason ''repository.private-directory''"

abbreviation REPOSITORY_PRIVATE_ARTIFACT :: refusal_reason where
  "REPOSITORY_PRIVATE_ARTIFACT \<equiv> RefusalReason ''repository.private-artifact''"

abbreviation REPOSITORY_CREDENTIAL_DOCUMENT :: refusal_reason where
  "REPOSITORY_CREDENTIAL_DOCUMENT \<equiv> RefusalReason ''repository.credential-document''"

abbreviation REPOSITORY_PASSPHRASE_FILE :: refusal_reason where
  "REPOSITORY_PASSPHRASE_FILE \<equiv> RefusalReason ''repository.passphrase-file''"

abbreviation REPOSITORY_PRIVATE_KEY_NAME :: refusal_reason where
  "REPOSITORY_PRIVATE_KEY_NAME \<equiv> RefusalReason ''repository.private-key-name''"

abbreviation REPOSITORY_TOKEN_DOCUMENT :: refusal_reason where
  "REPOSITORY_TOKEN_DOCUMENT \<equiv> RefusalReason ''repository.token-document''"

abbreviation REPOSITORY_BLOB_TOO_LARGE :: refusal_reason where
  "REPOSITORY_BLOB_TOO_LARGE \<equiv> RefusalReason ''repository.blob-too-large''"

abbreviation REPOSITORY_BLOB_NOT_UTF8 :: refusal_reason where
  "REPOSITORY_BLOB_NOT_UTF8 \<equiv> RefusalReason ''repository.blob-not-utf8''"

abbreviation REPOSITORY_BLOB_CONTAINS_NUL :: refusal_reason where
  "REPOSITORY_BLOB_CONTAINS_NUL \<equiv> RefusalReason ''repository.blob-contains-nul''"

abbreviation REPOSITORY_SECRET_MATERIAL :: refusal_reason where
  "REPOSITORY_SECRET_MATERIAL \<equiv> RefusalReason ''repository.secret-material''"

abbreviation REPOSITORY_LOCAL_ONLY_CONTENT :: refusal_reason where
  "REPOSITORY_LOCAL_ONLY_CONTENT \<equiv> RefusalReason ''repository.local-only-content''"

abbreviation REPOSITORY_INDEX_UNMERGED :: refusal_reason where
  "REPOSITORY_INDEX_UNMERGED \<equiv> RefusalReason ''repository.index-unmerged''"

abbreviation REPOSITORY_HISTORY_NOT_FETCHED :: refusal_reason where
  "REPOSITORY_HISTORY_NOT_FETCHED \<equiv> RefusalReason ''repository.history-not-fetched''"

abbreviation REPOSITORY_UPDATE_LINE_MALFORMED :: refusal_reason where
  "REPOSITORY_UPDATE_LINE_MALFORMED \<equiv> RefusalReason ''repository.update-line-malformed''"

abbreviation HOOK_ARGUMENT_MISSING :: refusal_reason where
  "HOOK_ARGUMENT_MISSING \<equiv> RefusalReason ''hook.argument-missing''"

abbreviation HOOK_RULES_NOT_LOADED :: refusal_reason where
  "HOOK_RULES_NOT_LOADED \<equiv> RefusalReason ''hook.rules-not-loaded''"

abbreviation HOOK_KIND_UNKNOWN :: refusal_reason where
  "HOOK_KIND_UNKNOWN \<equiv> RefusalReason ''hook.kind-unknown''"

abbreviation HOOK_GIT_FAILED :: refusal_reason where
  "HOOK_GIT_FAILED \<equiv> RefusalReason ''hook.git-failed''"

abbreviation HOOK_CONTENT_UNREAD :: refusal_reason where
  "HOOK_CONTENT_UNREAD \<equiv> RefusalReason ''hook.content-unread''"

abbreviation HOOK_FOREIGN :: refusal_reason where
  "HOOK_FOREIGN \<equiv> RefusalReason ''hook.foreign-hook''"

abbreviation HOOK_NO_REPOSITORY :: refusal_reason where
  "HOOK_NO_REPOSITORY \<equiv> RefusalReason ''hook.no-repository''"

abbreviation HOOK_PORTS_UNWIRED :: refusal_reason where
  "HOOK_PORTS_UNWIRED \<equiv> RefusalReason ''hook.ports-unwired''"

abbreviation COMMIT_SUBJECT_MALFORMED :: refusal_reason where
  "COMMIT_SUBJECT_MALFORMED \<equiv> RefusalReason ''commit.subject-malformed''"

abbreviation COMMIT_SUBJECT_TOO_LONG :: refusal_reason where
  "COMMIT_SUBJECT_TOO_LONG \<equiv> RefusalReason ''commit.subject-too-long''"

abbreviation COMMIT_HAS_BODY :: refusal_reason where
  "COMMIT_HAS_BODY \<equiv> RefusalReason ''commit.has-body''"

abbreviation COMMIT_CARRIAGE_RETURN :: refusal_reason where
  "COMMIT_CARRIAGE_RETURN \<equiv> RefusalReason ''commit.carriage-return''"

abbreviation PROFILE_NOT_REVIEWED :: refusal_reason where
  "PROFILE_NOT_REVIEWED \<equiv> RefusalReason ''target.profile-not-reviewed''"

definition refusal_reasons :: "refusal_reason list" where
  "refusal_reasons = [
    MALFORMED_DIGEST, MALFORMED_IDENTIFIER, MALFORMED_PACKAGE_COORDINATE, MALFORMED_VERDICT,
    MALFORMED_DEVICE_NUMBER, MALFORMED_STORE_MARK, MALFORMED_TREE_ROW,
    MALFORMED_PROOF_REFERENCE, MALFORMED_ARTIFACT_MANIFEST, MALFORMED_IMAGE_DOCUMENT,
    MALFORMED_OCI_MANIFEST, MALFORMED_SCREEN_FRAME, URL_NOT_HTTPS, FILENAME_NOT_PLAIN,
    DOWNLOAD_CHECKSUM_MISMATCH, NETWORK_NOT_PERMITTED, TRUST_ANCHOR_FROM_BUNDLE,
    SIGNATURE_REJECTED, BUNDLE_CONTENT_UNSIGNED, ARTIFACT_CHECKSUM_MISMATCH,
    SIGNED_DIGEST_MISMATCH, IMAGE_METADATA_MISMATCH, NEGATIVE_ACCEPTED, NEGATIVE_WRONG_REASON,
    PAYLOAD_CONTRACT_INVALID, LOCK_MISSING, LOCK_UNREADABLE, LOCK_SCHEMA_UNSUPPORTED,
    LOCK_IMAGE_MISSING, LOCK_IMAGE_DIGEST_MALFORMED, LOCK_IMAGE_REFERENCE_MUTABLE,
    LOCK_SOURCES_EMPTY, LOCK_ENTRY_MALFORMED, LOCK_CHECKSUM_MALFORMED,
    LOCK_COMMIT_NOT_OBJECT_ID, LOCK_FILENAME_DUPLICATE, NEGATIVE_QUANTITY, PORT_OUT_OF_RANGE,
    MODE_OUT_OF_RANGE, LIMIT_NOT_POSITIVE, PATH_OUTSIDE_RUNTIME_ROOT, PATH_NOT_A_REGULAR_FILE,
    PATH_NOT_A_DIRECTORY, PATH_IS_A_SYMLINK, PATH_CONTAINS_OPTION_SEPARATOR,
    RUNTIME_ROOT_NOT_PERMITTED, RUNTIME_ROOT_NOT_PRIVATE, LINE_EXCEEDS_LIMIT, FRAME_MALFORMED,
    FRAME_OUT_OF_ORDER, FRAME_LIMIT_EXCEEDED, FRAME_CHECKSUM_MISMATCH, FRAME_INCOMPLETE,
    REQUEST_MALFORMED, PROTOCOL_MISMATCH, UNIT_UNKNOWN, AGENT_REFUSED,
    PROBE_ENVIRONMENT_UNEXPECTED, SYSFS_ATTRIBUTE_MALFORMED, PROBE_DESTINATION_TAKEN,
    DEVICE_NOT_PERMITTED_FOR_ROLE, DUPLICATE_DEVICE, TOO_MANY_DEVICES,
    NOT_A_DISPOSABLE_MACHINE, TOPOLOGY_INCONSISTENT, SOCKET_PATH_TOO_LONG, MACHINE_NOT_RUNNING,
    SERIAL_CONSOLE_ABSENT, FAULT_ALREADY_ATTEMPTED, FAULT_NOT_CONFIRMED, FAULT_DISK_CHANGED,
    SOURCE_IMAGE_CHANGED, MACHINE_ROLE_MISMATCH, COMMAND_RETIRED, COMMAND_UNKNOWN,
    TEST_ACCESS_NOT_QCOW2, DEVELOPMENT_KEY_CHANGED, PUBLIC_KEY_MALFORMED,
    MACHINE_IDENTITY_CHANGED, MACHINE_IDENTITY_UNCHECKABLE, MACHINE_RUNNING,
    HOST_CAPACITY_INSUFFICIENT, HOST_TOOL_MISSING, FIRMWARE_ABSENT, LEASE_MALFORMED,
    LEASE_MISMATCH, SCREEN_SIZE_CHANGED, CONSOLE_TEXT_UNSUPPORTED, SESSION_ALREADY_OPEN,
    CREDENTIALS_MALFORMED, DISK_NOT_QCOW2, DISK_CHAIN_CYCLE, DISK_NOT_STANDALONE,
    DISK_OVERLAY_EXISTS, DEVICE_IDENTITY_MISMATCH, FIXTURE_ENTRY_MALFORMED,
    FIXTURE_PATH_NOT_ISOLATED, FIXTURE_REQUEST_MALFORMED, FIXTURE_REPORT_MALFORMED,
    FIXTURE_STATE_UNEXPECTED, UPDATE_STATE_UNEXPECTED, UPDATE_REJECTION_NOT_OBSERVED,
    GUEST_NOT_READY, INSPECTION_MISMATCH, LOCK_HELD, ARCHIVE_ENTRY_NOT_REGULAR, STAGE_FAILED,
    BUILD_PROFILE_NOT_REVIEWED, BUILD_PARENT_REQUIRED, BUILD_PARENT_NOT_COMPLETE,
    BUILD_RECORD_MALFORMED, NVIDIA_LOCK_MALFORMED, NVIDIA_COMPILER_MISMATCH,
    NVIDIA_REPORT_UNBOUND, NVIDIA_PACKAGES_INCOMPLETE, FINGERPRINT_LOCK_MALFORMED,
    FINGERPRINT_REPORT_UNBOUND, FINGERPRINT_INPUT_MISMATCH, VENTOY_LOCK_MALFORMED,
    UBUNTU_SIGNER_UNKNOWN, FROZEN_IMAGE_MISMATCH, BUILDER_NOT_ISOLATED, HOST_RUNS_AS_ROOT,
    COMPACTION_INPUT_UNSAFE, COMPACTION_VALIDATION_FAILED, COMPACTION_SPACE_INSUFFICIENT,
    COMPACTION_STATE_CHANGED, COMPACTION_RETAINED_INELIGIBLE, PATCH_SOURCE_NOT_REVIEWED,
    PATCH_SOURCE_UNEXPECTED, UNKNOWN_SETTING, INCONSISTENT_SETTINGS, NO_VERIFIED_RESULT,
    HARDWARE_REQUIRES_PHYSICAL, PASS_REQUIRES_PROOF, UNKNOWN_CHECK, DUPLICATE_EVIDENCE,
    STALE_EVIDENCE, PROOF_KIND_NOT_ACCEPTED, SIMULATED_ENVIRONMENT, ENVIRONMENT_NOT_WITNESSED,
    RETRACTED_BY_OPERATOR, PROOF_ALTERED, PROOF_IS_EMPTY, STORE_AREA_NOT_PERMITTED,
    STORE_VERSION_NOT_SUPPORTED, LEGACY_IMPORT_NOT_REPROVEN, RECORD_NOT_BOUND_TO_CANDIDATE,
    SHELL_STRING_NOT_ACCEPTED, SECRET_NOT_RENDERABLE, VENDOR_ATTRIBUTION_PRESENT,
    REPOSITORY_ABSOLUTE_PATH, REPOSITORY_PATH_ESCAPES, REPOSITORY_PRIVATE_DOCUMENT,
    REPOSITORY_ENVIRONMENT_FILE, REPOSITORY_PRIVATE_DIRECTORY, REPOSITORY_PRIVATE_ARTIFACT,
    REPOSITORY_CREDENTIAL_DOCUMENT, REPOSITORY_PASSPHRASE_FILE, REPOSITORY_PRIVATE_KEY_NAME,
    REPOSITORY_TOKEN_DOCUMENT, REPOSITORY_BLOB_TOO_LARGE, REPOSITORY_BLOB_NOT_UTF8,
    REPOSITORY_BLOB_CONTAINS_NUL, REPOSITORY_SECRET_MATERIAL, REPOSITORY_LOCAL_ONLY_CONTENT,
    REPOSITORY_INDEX_UNMERGED, REPOSITORY_HISTORY_NOT_FETCHED,
    REPOSITORY_UPDATE_LINE_MALFORMED, HOOK_ARGUMENT_MISSING, HOOK_RULES_NOT_LOADED,
    HOOK_KIND_UNKNOWN, HOOK_GIT_FAILED, HOOK_CONTENT_UNREAD, HOOK_FOREIGN, HOOK_NO_REPOSITORY,
    HOOK_PORTS_UNWIRED, COMMIT_SUBJECT_MALFORMED, COMMIT_SUBJECT_TOO_LONG, COMMIT_HAS_BODY,
    COMMIT_CARRIAGE_RETURN, PROFILE_NOT_REVIEWED]"

end
