(* ===== verification/Errors.thy ===== *)
theory Errors
  imports ApexPrelude Refusals
begin

section \<open>Exceptions (kernel/errors.py) and the ones Python itself raises\<close>

text \<open>
  One constructor per exception class the program raises, and one per built-in exception that
  the operations it calls can raise. A \<open>Refusal\<close> and a \<open>PreconditionUnmet\<close> keep their reason,
  the identity the program's own tests match on; the subject and the remedy are prose for the
  operator and are not part of the model. \<open>exit_code\<close> is the class attribute of that name.
\<close>

datatype exn =
    Refusal refusal_reason
  | PreconditionUnmet refusal_reason
  | VerificationFailed
  | PortFailure
  | RegistrationError
  | InternalDefect
  | ValueError
  | JSONDecodeError
  | UnicodeDecodeError
  | OverflowError
  | KeyError
  | TypeError
  | AttributeError
  | IndexError
  | StructError
  | OSError

type_synonym 'a res = "exn + 'a"

definition INTERNAL_DEFECT_EXIT_CODE :: nat where
  "INTERNAL_DEFECT_EXIT_CODE = 70"

text \<open>\<open>ApexError\<close> is the base class of the deliberate conditions; an \<open>InternalDefect\<close> is not one.\<close>

fun is_apex_error :: "exn \<Rightarrow> bool" where
  "is_apex_error (Refusal r) = True"
| "is_apex_error (PreconditionUnmet r) = True"
| "is_apex_error VerificationFailed = True"
| "is_apex_error PortFailure = True"
| "is_apex_error RegistrationError = True"
| "is_apex_error e = False"

fun exit_code :: "exn \<Rightarrow> nat option" where
  "exit_code (Refusal r) = Some 2"
| "exit_code (PreconditionUnmet r) = Some 3"
| "exit_code VerificationFailed = Some 4"
| "exit_code PortFailure = Some 5"
| "exit_code RegistrationError = Some 6"
| "exit_code e = None"

fun is_refusal :: "exn \<Rightarrow> bool" where
  "is_refusal (Refusal r) = True"
| "is_refusal e = False"

text \<open>The built-in hierarchy: decoding errors are value errors, an overflow is not.\<close>

fun is_value_error :: "exn \<Rightarrow> bool" where
  "is_value_error ValueError = True"
| "is_value_error JSONDecodeError = True"
| "is_value_error UnicodeDecodeError = True"
| "is_value_error e = False"

lemma exit_code_apex: "is_apex_error e \<longleftrightarrow> exit_code e \<noteq> None"
  by (cases e) simp_all

end
