(* ===== verification/PyRegex.thy ===== *)
theory PyRegex
  imports PyText
begin

section \<open>Regular expressions: fullmatch and search\<close>

text \<open>
  The part of the \<open>re\<close> module the program uses: patterns built from character classes,
  sequence, alternative and repetition, matched with \<open>fullmatch\<close> or \<open>search\<close>. Matching is by
  derivatives, so a match on a concrete string evaluates; \<open>fullmatch_lang\<close> shows it decides
  membership in the language of the pattern, and the lemmas below give the patterns that occur
  a direct reading (a class repeated \<open>n\<close> times, a class repeated at least once, a literal).
\<close>

datatype pattern =
    RNone
  | REmpty
  | RClass "char \<Rightarrow> bool"
  | RSeq pattern pattern
  | RAlt pattern pattern
  | RStar pattern

fun nullable :: "pattern \<Rightarrow> bool" where
  "nullable RNone = False"
| "nullable REmpty = True"
| "nullable (RClass p) = False"
| "nullable (RSeq r s) = (nullable r \<and> nullable s)"
| "nullable (RAlt r s) = (nullable r \<or> nullable s)"
| "nullable (RStar r) = True"

fun deriv :: "char \<Rightarrow> pattern \<Rightarrow> pattern" where
  "deriv c RNone = RNone"
| "deriv c REmpty = RNone"
| "deriv c (RClass p) = (if p c then REmpty else RNone)"
| "deriv c (RSeq r s) =
     (if nullable r then RAlt (RSeq (deriv c r) s) (deriv c s) else RSeq (deriv c r) s)"
| "deriv c (RAlt r s) = RAlt (deriv c r) (deriv c s)"
| "deriv c (RStar r) = RSeq (deriv c r) (RStar r)"

fun fullmatch :: "pattern \<Rightarrow> str \<Rightarrow> bool" where
  "fullmatch r [] = nullable r"
| "fullmatch r (c # s) = fullmatch (deriv c r) s"

fun rep :: "nat \<Rightarrow> pattern \<Rightarrow> pattern" where
  "rep 0 r = REmpty"
| "rep (Suc n) r = RSeq r (rep n r)"

fun lit :: "str \<Rightarrow> pattern" where
  "lit [] = REmpty"
| "lit (c # s) = RSeq (RClass (\<lambda>d. d = c)) (lit s)"

definition plus :: "pattern \<Rightarrow> pattern" where
  "plus r = RSeq r (RStar r)"

fun up_to :: "nat \<Rightarrow> pattern \<Rightarrow> pattern" where
  "up_to 0 r = REmpty"
| "up_to (Suc n) r = RAlt REmpty (RSeq r (up_to n r))"

definition any_star :: pattern where
  "any_star = RStar (RClass (\<lambda>_. True))"

definition research :: "pattern \<Rightarrow> str \<Rightarrow> bool" where
  "research r s = fullmatch (RSeq any_star (RSeq r any_star)) s"

subsection \<open>The language of a pattern\<close>

inductive in_lang :: "pattern \<Rightarrow> str \<Rightarrow> bool" where
  in_empty: "in_lang REmpty []"
| in_class: "p c \<Longrightarrow> in_lang (RClass p) [c]"
| in_seq: "in_lang r a \<Longrightarrow> in_lang s b \<Longrightarrow> in_lang (RSeq r s) (a @ b)"
| in_alt1: "in_lang r a \<Longrightarrow> in_lang (RAlt r s) a"
| in_alt2: "in_lang s a \<Longrightarrow> in_lang (RAlt r s) a"
| in_star0: "in_lang (RStar r) []"
| in_starS: "in_lang r (c # a) \<Longrightarrow> in_lang (RStar r) b \<Longrightarrow> in_lang (RStar r) (c # a @ b)"

inductive_simps in_lang_simps [simp]:
  "in_lang RNone s"
  "in_lang REmpty s"
  "in_lang (RClass p) s"
  "in_lang (RAlt q r) s"

inductive_simps in_lang_seq: "in_lang (RSeq q r) s"

inductive_cases in_lang_starE: "in_lang (RStar r) s"

lemma nullable_lang: "nullable r \<longleftrightarrow> in_lang r []"
proof (induction r)
  case (RSeq r s)
  then show ?case by (auto simp: in_lang_seq intro: in_seq [of _ "[]" _ "[]", simplified])
qed (auto intro: in_star0)

lemma deriv_lang: "in_lang (deriv c r) s \<longleftrightarrow> in_lang r (c # s)"
proof (induction r arbitrary: s)
  case (RSeq q r)
  show ?case
  proof
    assume "in_lang (deriv c (RSeq q r)) s"
    then consider a b where "s = a @ b" "in_lang q (c # a)" "in_lang r b"
      | "nullable q" "in_lang r (c # s)"
      by (auto simp: in_lang_seq RSeq split: if_splits)
    then show "in_lang (RSeq q r) (c # s)"
    proof cases
      case 1
      then show ?thesis using in_seq [of q "c # a" r b] by simp
    next
      case 2
      then show ?thesis using in_seq [of q "[]" r "c # s"] by (simp add: nullable_lang)
    qed
  next
    assume "in_lang (RSeq q r) (c # s)"
    then obtain a b where ab: "c # s = a @ b" "in_lang q a" "in_lang r b"
      by (auto simp: in_lang_seq)
    then show "in_lang (deriv c (RSeq q r)) s"
    proof (cases a)
      case Nil
      with ab show ?thesis by (simp add: RSeq nullable_lang)
    next
      case (Cons d a')
      with ab have a': "s = a' @ b" "in_lang q (c # a')" by simp_all
      then have "in_lang (deriv c q) a'" by (simp only: RSeq)
      with ab a' show ?thesis by (auto intro: in_seq)
    qed
  qed
next
  case (RStar r)
  show ?case
  proof
    assume "in_lang (deriv c (RStar r)) s"
    then obtain a b where "s = a @ b" "in_lang r (c # a)" "in_lang (RStar r) b"
      by (auto simp: in_lang_seq RStar)
    then show "in_lang (RStar r) (c # s)" by (auto intro: in_starS)
  next
    assume "in_lang (RStar r) (c # s)"
    then obtain a b where "s = a @ b" "in_lang r (c # a)" "in_lang (RStar r) b"
      by (rule in_lang_starE) auto
    then have "in_lang (deriv c r) a" "s = a @ b" "in_lang (RStar r) b"
      by (simp_all only: RStar)
    then show "in_lang (deriv c (RStar r)) s" by (auto intro: in_seq)
  qed
qed auto

theorem fullmatch_lang: "fullmatch r s \<longleftrightarrow> in_lang r s"
  by (induction s arbitrary: r) (simp_all add: nullable_lang deriv_lang)

declare fullmatch.simps [simp del]

subsection \<open>Reading the patterns that occur\<close>

text \<open>When every class of a pattern stays within \<open>P\<close>, so does every match of it.\<close>

fun within :: "(char \<Rightarrow> bool) \<Rightarrow> pattern \<Rightarrow> bool" where
  "within P (RClass p) = (\<forall>c. p c \<longrightarrow> P c)"
| "within P (RSeq a b) = (within P a \<and> within P b)"
| "within P (RAlt a b) = (within P a \<and> within P b)"
| "within P (RStar a) = within P a"
| "within P r = True"

lemma in_lang_within: "in_lang r x \<Longrightarrow> within P r \<Longrightarrow> list_all P x"
  by (induction r x rule: in_lang.induct) auto

lemma fullmatch_within: "fullmatch r x \<Longrightarrow> within P r \<Longrightarrow> list_all P x"
  by (simp add: fullmatch_lang in_lang_within)

lemma fullmatch_seq: "fullmatch (RSeq r s) x \<longleftrightarrow> (\<exists>a b. x = a @ b \<and> fullmatch r a \<and> fullmatch s b)"
  by (simp add: fullmatch_lang in_lang_seq)

lemma fullmatch_alt [simp]: "fullmatch (RAlt r s) x \<longleftrightarrow> fullmatch r x \<or> fullmatch s x"
  by (simp add: fullmatch_lang)

lemma fullmatch_class: "fullmatch (RClass p) x \<longleftrightarrow> (\<exists>c. x = [c] \<and> p c)"
  by (simp add: fullmatch_lang)

lemma fullmatch_empty [simp]: "fullmatch REmpty x \<longleftrightarrow> x = []"
  by (simp add: fullmatch_lang)

lemma fullmatch_none [simp]: "\<not> fullmatch RNone x"
  by (simp add: fullmatch_lang)

lemma fullmatch_class_seq:
  "fullmatch (RSeq (RClass p) r) x \<longleftrightarrow> (\<exists>c y. x = c # y \<and> p c \<and> fullmatch r y)"
  by (simp add: fullmatch_seq fullmatch_class) (metis append_Cons append_Nil)

lemma fullmatch_class_seq_Cons [simp]:
  "fullmatch (RSeq (RClass p) r) (c # x) \<longleftrightarrow> p c \<and> fullmatch r x"
  by (simp only: fullmatch_class_seq) simp

lemma fullmatch_class_seq_Nil [simp]: "\<not> fullmatch (RSeq (RClass p) r) []"
  by (simp only: fullmatch_class_seq) simp

lemma fullmatch_rep_class:
  "fullmatch (rep n (RClass p)) x \<longleftrightarrow> length x = n \<and> list_all p x"
proof (induction n arbitrary: x)
  case 0
  then show ?case by auto
next
  case (Suc n)
  show ?case
  proof (cases x)
    case (Cons c y)
    then show ?thesis using Suc.IH [of y] by auto
  qed simp
qed

lemma fullmatch_star_class: "fullmatch (RStar (RClass p)) x \<longleftrightarrow> list_all p x"
proof
  assume "fullmatch (RStar (RClass p)) x"
  then show "list_all p x" by (rule fullmatch_within) simp
next
  assume "list_all p x"
  then have "in_lang (RStar (RClass p)) x"
  proof (induction x)
    case Nil
    then show ?case by (simp add: in_star0)
  next
    case (Cons c x)
    then show ?case using in_starS [of "RClass p" c "[]" x] by simp
  qed
  then show "fullmatch (RStar (RClass p)) x" by (simp add: fullmatch_lang)
qed

lemma fullmatch_plus_class: "fullmatch (plus (RClass p)) x \<longleftrightarrow> x \<noteq> [] \<and> list_all p x"
  by (cases x) (simp_all add: plus_def fullmatch_star_class)

lemma fullmatch_lit [simp]: "fullmatch (lit w) x \<longleftrightarrow> x = w"
proof (induction w arbitrary: x)
  case (Cons d w)
  then show ?case by (cases x) auto
qed simp

lemma fullmatch_lit_seq:
  "fullmatch (RSeq (lit w) r) x \<longleftrightarrow> (\<exists>y. x = w @ y \<and> fullmatch r y)"
  by (auto simp: fullmatch_seq)

lemma fullmatch_any_star [simp]: "fullmatch any_star x"
  by (simp add: any_star_def fullmatch_star_class list_all_iff)

lemma research_iff: "research r x \<longleftrightarrow> (\<exists>a b c. x = a @ b @ c \<and> fullmatch r b)"
  by (auto simp: research_def fullmatch_seq)

end
