(* ===== verification/KernelValues.thy ===== *)
theory KernelValues
  imports Complex_Main Errors PyRegex
begin

section \<open>Values checked at construction\<close>

text \<open>
  The modules quantities, bounded, timing, locators and commands of src/apex/kernel. A class
  whose \<open>__post_init__\<close> checks its fields is a datatype or record with a constructor function
  \<open>mk_...\<close> that returns the value or the exception; a \<open>valid_...\<close> predicate states what
  the check establishes. Seconds are rationals: the binary rounding of floats is not modelled.
\<close>

subsection \<open>quantities.py\<close>

definition BYTES_PER_MEBIBYTE :: int where "BYTES_PER_MEBIBYTE = 1024 ^ 2"

definition BYTES_PER_GIBIBYTE :: int where "BYTES_PER_GIBIBYTE = 1024 ^ 3"

definition HIGHEST_TCP_PORT :: int where "HIGHEST_TCP_PORT = 65535"

definition PERMISSION_BITS :: int where "PERMISSION_BITS = 511"

datatype byte_count = ByteCount (bytes_value: int)

datatype mib = Mib (mib_value: int)

datatype gib = Gib (gib_value: int)

definition mk_byte_count :: "int \<Rightarrow> byte_count res" where
  "mk_byte_count v = (if v < 0 then Inl (Refusal NEGATIVE_QUANTITY) else Inr (ByteCount v))"

definition mk_mib :: "int \<Rightarrow> mib res" where
  "mk_mib v = (if v < 0 then Inl (Refusal NEGATIVE_QUANTITY) else Inr (Mib v))"

definition mk_gib :: "int \<Rightarrow> gib res" where
  "mk_gib v = (if v < 0 then Inl (Refusal NEGATIVE_QUANTITY) else Inr (Gib v))"

definition byte_count_add :: "byte_count \<Rightarrow> byte_count \<Rightarrow> byte_count res" where
  "byte_count_add a b = mk_byte_count (bytes_value a + bytes_value b)"

definition mib_bytes :: "mib \<Rightarrow> int" where
  "mib_bytes m = mib_value m * BYTES_PER_MEBIBYTE"

definition mib_as_bytes :: "mib \<Rightarrow> byte_count res" where
  "mib_as_bytes m = mk_byte_count (mib_bytes m)"

definition gib_bytes :: "gib \<Rightarrow> int" where
  "gib_bytes g = gib_value g * BYTES_PER_GIBIBYTE"

definition gib_as_bytes :: "gib \<Rightarrow> byte_count res" where
  "gib_as_bytes g = mk_byte_count (gib_bytes g)"

datatype tcp_port = TcpPort (port_value: int)

definition mk_tcp_port :: "int \<Rightarrow> tcp_port res" where
  "mk_tcp_port v =
     (if \<not> (1 \<le> v \<and> v \<le> HIGHEST_TCP_PORT) then Inl (Refusal PORT_OUT_OF_RANGE) else Inr (TcpPort v))"

definition tcp_port_str :: "tcp_port \<Rightarrow> str" where
  "tcp_port_str p = str_of_int (port_value p)"

datatype file_mode = FileMode (mode_value: int)

definition mk_file_mode :: "int \<Rightarrow> file_mode res" where
  "mk_file_mode v =
     (if \<not> (0 \<le> v \<and> v \<le> PERMISSION_BITS) then Inl (Refusal MODE_OUT_OF_RANGE) else Inr (FileMode v))"

fun octal :: "nat \<Rightarrow> str" where
  "octal n = (if n < 8 then [digit_char n] else octal (n div 8) @ [digit_char (n mod 8)])"

declare octal.simps [simp del]

definition zfill :: "nat \<Rightarrow> str \<Rightarrow> str" where
  "zfill w s = replicate (w - length s) CHR ''0'' @ s"

text \<open>\<open>f"{value:04o}"\<close> for a value that is not negative.\<close>

definition file_mode_str :: "file_mode \<Rightarrow> str" where
  "file_mode_str m = zfill 4 (octal (nat (mode_value m)))"

definition octal_val :: "str \<Rightarrow> nat" where
  "octal_val s = foldl (\<lambda>n c. 8 * n + digit_val c) 0 s"

lemma octal_val_octal [simp]: "octal_val (octal n) = n"
proof (induction n rule: octal.induct)
  case (1 n)
  then show ?case by (subst octal.simps) (auto simp: octal_val_def)
qed

lemma octal_val_zeros: "octal_val (replicate k CHR ''0'' @ s) = octal_val s"
  by (induction k) (simp_all add: octal_val_def digit_val_def)

lemma length_octal: "n < 8 ^ Suc k \<Longrightarrow> length (octal n) \<le> Suc k"
proof (induction k arbitrary: n)
  case 0
  then show ?case by (subst octal.simps) simp
next
  case (Suc k)
  show ?case
  proof (cases "n < 8")
    case True
    then show ?thesis by (subst octal.simps) simp
  next
    case False
    from Suc.prems have "n div 8 < 8 ^ Suc k" by (simp add: less_mult_imp_div_less)
    with Suc.IH have "length (octal (n div 8)) \<le> Suc k" by simp
    with False show ?thesis by (subst octal.simps) simp
  qed
qed

lemma file_mode_str_value:
  assumes "mk_file_mode v = Inr m"
  shows "length (file_mode_str m) = 4 \<and> int (octal_val (file_mode_str m)) = v"
proof -
  from assms have v: "0 \<le> v" "v \<le> 511" "m = FileMode v"
    by (auto simp: mk_file_mode_def PERMISSION_BITS_def split: if_splits)
  then have "length (octal (nat v)) \<le> Suc 2" by (intro length_octal) simp
  with v show ?thesis
    by (simp add: file_mode_str_def zfill_def octal_val_zeros)
qed

subsection \<open>bounded.py\<close>

datatype limit = Limit (limit_value: int)

definition mk_limit :: "int \<Rightarrow> limit res" where
  "mk_limit v = (if v \<le> 0 then Inl (Refusal LIMIT_NOT_POSITIVE) else Inr (Limit v))"

definition CAPTURE_LIMIT :: limit where "CAPTURE_LIMIT = Limit 262144"

definition SERIAL_CHUNK :: limit where "SERIAL_CHUNK = Limit 768"

definition limit_nat :: "limit \<Rightarrow> nat" where
  "limit_nat l = nat (limit_value l)"

record bounded =
  bounded_data :: bytes
  bounded_truncated :: bool

definition bounded_take :: "bytes \<Rightarrow> limit \<Rightarrow> bounded" where
  "bounded_take data l =
     \<lparr>bounded_data = take (limit_nat l) data, bounded_truncated = limit_value l < int (length data)\<rparr>"

record ring_buffer =
  ring_limit :: limit
  ring_data :: bytes
  ring_dropped :: nat

definition ring_new :: "limit \<Rightarrow> ring_buffer" where
  "ring_new l = \<lparr>ring_limit = l, ring_data = [], ring_dropped = 0\<rparr>"

definition ring_append :: "ring_buffer \<Rightarrow> bytes \<Rightarrow> ring_buffer" where
  "ring_append b chunk =
     (let data = ring_data b @ chunk;
          excess = int (length data) - limit_value (ring_limit b)
      in if excess > 0
         then b\<lparr>ring_data := drop (nat excess) data, ring_dropped := ring_dropped b + nat excess\<rparr>
         else b\<lparr>ring_data := data\<rparr>)"

definition ring_tail :: "ring_buffer \<Rightarrow> bytes" where
  "ring_tail b = ring_data b"

text \<open>
  \<open>bytes.splitlines()\<close>: lines end at a line feed, a carriage return or the pair of them, and a
  final line break opens no further line.
\<close>

fun splitlines :: "bytes \<Rightarrow> bytes list" where
  "splitlines [] = []"
| "splitlines (c # s) =
     (if c = CHR 0x0A then [] # splitlines s
      else if c = CHR 0x0D
        then [] # (case s of [] \<Rightarrow> [] | d # t \<Rightarrow> if d = CHR 0x0A then splitlines t else splitlines s)
      else (case splitlines s of
              [] \<Rightarrow> [[c]]
            | l # ls \<Rightarrow> (c # l) # ls))"

text \<open>The generator as the lines it yields and, when it raises, the exception that follows them.\<close>

fun bounded_lines_from :: "nat \<Rightarrow> bytes list \<Rightarrow> limit \<Rightarrow> nat \<Rightarrow> bytes list \<times> exn option" where
  "bounded_lines_from index [] l m = ([], None)"
| "bounded_lines_from index (line # rest) l m =
     (if index \<ge> m then ([], None)
      else if int (length line) > limit_value l then ([], Some (Refusal LINE_EXCEEDS_LIMIT))
      else (case bounded_lines_from (Suc index) rest l m of (ys, e) \<Rightarrow> (line # ys, e)))"

definition bounded_lines :: "bytes \<Rightarrow> limit \<Rightarrow> nat \<Rightarrow> bytes list \<times> exn option" where
  "bounded_lines data l m = bounded_lines_from 0 (splitlines data) l m"

lemma mk_limit_Inr: "mk_limit v = Inr l \<longleftrightarrow> l = Limit v \<and> 0 < v"
  by (auto simp: mk_limit_def)

lemma length_bounded_take: "0 < limit_value l \<Longrightarrow> length (bounded_data (bounded_take d l)) \<le> limit_nat l"
  by (simp add: bounded_take_def)

definition ring_ok :: "ring_buffer \<Rightarrow> bytes \<Rightarrow> bool" where
  "ring_ok b stream \<longleftrightarrow>
     0 < limit_value (ring_limit b) \<and> ring_dropped b \<le> length stream
   \<and> ring_data b = drop (ring_dropped b) stream
   \<and> length (ring_data b) \<le> limit_nat (ring_limit b)
   \<and> (0 < ring_dropped b \<longrightarrow> length (ring_data b) = limit_nat (ring_limit b))"

lemma ring_new_ok: "0 < limit_value l \<Longrightarrow> ring_ok (ring_new l) []"
  by (simp add: ring_ok_def ring_new_def)

lemma ring_append_limit [simp]: "ring_limit (ring_append b c) = ring_limit b"
  by (simp add: ring_append_def Let_def)

lemma ring_append_ok:
  assumes "ring_ok b stream"
  shows "ring_ok (ring_append b chunk) (stream @ chunk)"
proof -
  define data where "data = ring_data b @ chunk"
  from assms have data: "data = drop (ring_dropped b) (stream @ chunk)"
    and len: "ring_dropped b + length (ring_data b) = length stream"
    and pos: "0 < limit_value (ring_limit b)"
    and le: "ring_dropped b \<le> length stream"
    and lim: "length (ring_data b) \<le> limit_nat (ring_limit b)"
    and full: "0 < ring_dropped b \<Longrightarrow> length (ring_data b) = limit_nat (ring_limit b)"
    by (auto simp: ring_ok_def data_def)
  show ?thesis
  proof (cases "int (length data) - limit_value (ring_limit b) > 0")
    case True
    define k where "k = nat (int (length data) - limit_value (ring_limit b))"
    have k: "length data = k + limit_nat (ring_limit b)" "0 < k"
      using True pos by (simp_all add: k_def limit_nat_def)
    have "ring_append b chunk = b\<lparr>ring_data := drop k data, ring_dropped := ring_dropped b + k\<rparr>"
      using True by (simp add: ring_append_def Let_def data_def k_def)
    moreover have "length data = length (stream @ chunk) - ring_dropped b"
      by (simp add: data)
    ultimately show ?thesis
      using k pos le by (auto simp: ring_ok_def data add.commute)
  next
    case False
    then have "ring_append b chunk = b\<lparr>ring_data := data\<rparr>"
      by (simp add: ring_append_def Let_def data_def)
    moreover have "length data \<le> limit_nat (ring_limit b)"
      using False pos by (simp add: limit_nat_def)
    moreover have "length data = limit_nat (ring_limit b)" if "0 < ring_dropped b"
      using full [OF that] \<open>length data \<le> limit_nat (ring_limit b)\<close> by (simp add: data_def)
    ultimately show ?thesis
      using pos le data by (simp add: ring_ok_def)
  qed
qed

lemma bounded_lines_from_spec:
  "bounded_lines_from i ls l m = (ys, e) \<Longrightarrow>
     ys = take (length ys) ls \<and> length ys \<le> m - i
   \<and> (\<forall>y \<in> set ys. int (length y) \<le> limit_value l)
   \<and> (e \<noteq> None \<longrightarrow> length ys < length ls \<and> int (length (ls ! length ys)) > limit_value l)
   \<and> (e = None \<longrightarrow> length ys = min (length ls) (m - i))"
proof (induction i ls l m arbitrary: ys e rule: bounded_lines_from.induct)
  case (1 i l m)
  then show ?case by simp
next
  case (2 i line rest l m)
  show ?case
  proof (cases "i \<ge> m \<or> int (length line) > limit_value l")
    case True
    with "2.prems" show ?thesis by (auto split: if_splits)
  next
    case False
    obtain zs e' where zs: "bounded_lines_from (Suc i) rest l m = (zs, e')"
      by (cases "bounded_lines_from (Suc i) rest l m") auto
    with False "2.prems" have "ys = line # zs" "e = e'" by auto
    with "2.IH" [OF _ _ zs] False show ?thesis by auto
  qed
qed

subsection \<open>timing.py\<close>

type_synonym seconds = rat

datatype elapsed = Elapsed (elapsed_seconds: seconds)

datatype instant = Instant (instant_seconds: seconds)

definition mk_elapsed :: "seconds \<Rightarrow> elapsed res" where
  "mk_elapsed s = (if s < 0 then Inl (Refusal NEGATIVE_QUANTITY) else Inr (Elapsed s))"

record deadline =
  deadline_budget :: elapsed
  deadline_started :: instant

definition expired_at :: "deadline \<Rightarrow> instant \<Rightarrow> bool" where
  "expired_at d now \<longleftrightarrow>
     instant_seconds now - instant_seconds (deadline_started d) > elapsed_seconds (deadline_budget d)"

record backoff =
  backoff_first :: elapsed
  backoff_ceiling :: elapsed
  backoff_factor :: rat

definition exponential :: "elapsed \<Rightarrow> elapsed \<Rightarrow> rat \<Rightarrow> backoff" where
  "exponential f c k = \<lparr>backoff_first = f, backoff_ceiling = c, backoff_factor = k\<rparr>"

definition delay :: "backoff \<Rightarrow> nat \<Rightarrow> elapsed res" where
  "delay b attempt =
     (let grown = elapsed_seconds (backoff_first b) * backoff_factor b ^ attempt
      in mk_elapsed (min grown (elapsed_seconds (backoff_ceiling b))))"

record wait_policy =
  policy_deadline :: deadline
  policy_backoff :: backoff
  policy_description :: str

definition mk_wait_policy :: "deadline \<Rightarrow> backoff \<Rightarrow> str \<Rightarrow> wait_policy res" where
  "mk_wait_policy d b description =
     (if description = [] then Inl RegistrationError
      else Inr \<lparr>policy_deadline = d, policy_backoff = b, policy_description = description\<rparr>)"

text \<open>What the constructors establish of a backoff: its two spans are not negative.\<close>

definition backoff_ok :: "backoff \<Rightarrow> bool" where
  "backoff_ok b \<longleftrightarrow>
     0 \<le> elapsed_seconds (backoff_first b) \<and> 0 \<le> elapsed_seconds (backoff_ceiling b)
   \<and> 0 \<le> backoff_factor b"

lemma delay_ok:
  "backoff_ok b \<Longrightarrow>
     \<exists>e. delay b n = Inr e \<and> 0 \<le> elapsed_seconds e \<and> elapsed_seconds e \<le> elapsed_seconds (backoff_ceiling b)"
  by (auto simp: delay_def Let_def mk_elapsed_def backoff_ok_def min_def not_less)

lemma delay_lower:
  assumes "backoff_ok b" "1 \<le> backoff_factor b" "delay b n = Inr e"
  shows "min (elapsed_seconds (backoff_first b)) (elapsed_seconds (backoff_ceiling b)) \<le> elapsed_seconds e"
proof -
  from assms(1) have "elapsed_seconds (backoff_first b)
      \<le> elapsed_seconds (backoff_first b) * backoff_factor b ^ n"
    using one_le_power [OF assms(2)] by (simp add: backoff_ok_def mult_le_cancel_left1)
  with assms show ?thesis
    by (auto simp: delay_def Let_def mk_elapsed_def split: if_splits)
qed

lemma delay_mono:
  assumes "backoff_ok b" "1 \<le> backoff_factor b" "delay b n = Inr d" "delay b (Suc n) = Inr e"
  shows "elapsed_seconds d \<le> elapsed_seconds e"
proof -
  from assms(1) have "0 \<le> elapsed_seconds (backoff_first b) * backoff_factor b ^ n"
    by (simp add: backoff_ok_def)
  then have "elapsed_seconds (backoff_first b) * backoff_factor b ^ n
      \<le> elapsed_seconds (backoff_first b) * backoff_factor b ^ Suc n"
    using assms(2) by (simp add: mult.left_commute mult_le_cancel_right1)
  with assms(3,4) show ?thesis
    by (auto simp: delay_def Let_def mk_elapsed_def split: if_splits)
qed

subsection \<open>locators.py\<close>

definition HTTPS_SCHEME :: str where "HTTPS_SCHEME = ''https://''"

definition PLAIN_NAME :: pattern where
  "PLAIN_NAME = plus (RClass (\<lambda>c. is_upper c \<or> is_lower c \<or> is_digit c \<or> c \<in> {CHR ''_'', CHR ''.'', CHR ''-''}))"

definition RELATIVE_SELF :: "str set" where "RELATIVE_SELF = {''.'', ''..''}"

datatype https_url = HttpsUrl (url_value: str)

definition mk_https_url :: "str \<Rightarrow> https_url res" where
  "mk_https_url v =
     (if \<not> starts_with v HTTPS_SCHEME \<or> length v = length HTTPS_SCHEME
      then Inl (Refusal URL_NOT_HTTPS) else Inr (HttpsUrl v))"

datatype basename = Basename (basename_value: str)

definition mk_basename :: "str \<Rightarrow> basename res" where
  "mk_basename v =
     (if \<not> fullmatch PLAIN_NAME v \<or> v \<in> RELATIVE_SELF
      then Inl (Refusal FILENAME_NOT_PLAIN) else Inr (Basename v))"

lemma mk_basename_plain:
  assumes "mk_basename v = Inr b"
  shows "b = Basename v \<and> v \<noteq> [] \<and> CHR ''/'' \<notin> set v \<and> v \<noteq> ''.'' \<and> v \<noteq> ''..''"
proof -
  from assms have "fullmatch PLAIN_NAME v" "v \<notin> RELATIVE_SELF" "b = Basename v"
    by (auto simp: mk_basename_def split: if_splits)
  then show ?thesis
    by (auto simp: PLAIN_NAME_def fullmatch_plus_class list_all_iff char_class_defs RELATIVE_SELF_def)
qed

lemma mk_https_url_Inr:
  "mk_https_url v = Inr u \<longleftrightarrow> u = HttpsUrl v \<and> (\<exists>rest. rest \<noteq> [] \<and> v = HTTPS_SCHEME @ rest)"
  by (auto simp: mk_https_url_def starts_with_def prefix_def)

subsection \<open>commands.py\<close>

datatype capability = SYS_ADMIN

definition capability_number :: "capability \<Rightarrow> int" where
  "capability_number c = (case c of SYS_ADMIN \<Rightarrow> 21)"

datatype output_limit = OutputLimit (output_limit_value: int)

definition output_limit_default :: output_limit where
  "output_limit_default = OutputLimit (limit_value CAPTURE_LIMIT)"

datatype argv = Argv (argv_arguments: "str list")

definition argv_of :: "str list \<Rightarrow> argv res" where
  "argv_of arguments =
     (if arguments = [] then Inl (Refusal SHELL_STRING_NOT_ACCEPTED) else Inr (Argv arguments))"

definition argv_len :: "argv \<Rightarrow> nat" where
  "argv_len a = length (argv_arguments a)"

definition argv_extended :: "argv \<Rightarrow> str list \<Rightarrow> argv" where
  "argv_extended a arguments = Argv (argv_arguments a @ arguments)"

record guest_command =
  guest_argv :: argv
  guest_deadline :: deadline
  guest_limit :: output_limit

record planned_command =
  planned_argv :: argv
  planned_redacted :: "str list"

definition planned_rendered :: "planned_command \<Rightarrow> str" where
  "planned_rendered p =
     (let hidden = set (planned_redacted p)
      in join '' '' (map (\<lambda>item. if item \<in> hidden then ''<redacted>'' else item)
                       (argv_arguments (planned_argv p))))"

record completed_run =
  run_exit_code :: int
  run_stdout :: bytes
  run_stderr :: bytes
  run_truncated :: bool

definition succeeded :: "completed_run \<Rightarrow> bool" where
  "succeeded r \<longleftrightarrow> run_exit_code r = 0"

end
