(* ===== verification/Verdicts.thy ===== *)
theory Verdicts
  imports Errors
begin

section \<open>Verdicts (kernel/verdicts.py)\<close>

text \<open>
  The four outcomes of a check, the combination of two of them (\<open>meet\<close>, here \<open>meet_verdict\<close>),
  the order of how much each claims, and the rule that a set of results permits installation.
  The locale \<open>combination\<close> states what the combination of verdicts promises to the code that
  folds with it; the interpretation \<open>mv\<close> discharges it for the code's own \<open>meet\<close>.
\<close>

datatype verdict = Passed | Failed | Blocked | NotTested refusal_reason

fun stored_name :: "verdict \<Rightarrow> str" where
  "stored_name Passed = ''PASS''"
| "stored_name Failed = ''FAIL''"
| "stored_name Blocked = ''BLOCKED''"
| "stored_name (NotTested r) = ''NOT TESTED''"

fun permits_installation :: "verdict \<Rightarrow> bool" where
  "permits_installation Passed = True"
| "permits_installation Failed = False"
| "permits_installation Blocked = False"
| "permits_installation (NotTested r) = False"

text \<open>The dictionary \<open>_SEVERITY\<close>, read at a verdict's stored name.\<close>

definition SEVERITY :: "(str, nat) dict" where
  "SEVERITY = [(''NOT TESTED'', 0), (''PASS'', 1), (''BLOCKED'', 2), (''FAIL'', 3)]"

definition severity :: "verdict \<Rightarrow> nat" where
  "severity v = the (map_of SEVERITY (stored_name v))"

definition parse_verdict :: "str \<Rightarrow> refusal_reason \<Rightarrow> verdict res" where
  "parse_verdict name reason =
     (if name = stored_name Passed then Inr Passed
      else if name = stored_name Failed then Inr Failed
      else if name = stored_name Blocked then Inr Blocked
      else if name = ''NOT TESTED'' then Inr (NotTested reason)
      else Inl (Refusal MALFORMED_VERDICT))"

fun is_not_tested :: "verdict \<Rightarrow> bool" where
  "is_not_tested (NotTested r) = True"
| "is_not_tested v = False"

definition meet_verdict :: "verdict \<Rightarrow> verdict \<Rightarrow> verdict" where
  "meet_verdict left right =
     (if is_not_tested left then right
      else if is_not_tested right then left
      else if severity left \<ge> severity right then left else right)"

definition CLAIMED :: "(str, nat) dict" where
  "CLAIMED = [(''NOT TESTED'', 0), (''BLOCKED'', 1), (''FAIL'', 1), (''PASS'', 3)]"

definition claimed :: "verdict \<Rightarrow> nat" where
  "claimed v = the (map_of CLAIMED (stored_name v))"

definition claims_less :: "verdict \<Rightarrow> verdict \<Rightarrow> bool" where
  "claims_less old new \<longleftrightarrow> claimed new < claimed old"

definition require_all :: "verdict list \<Rightarrow> bool" where
  "require_all vs \<longleftrightarrow> vs \<noteq> [] \<and> list_all permits_installation vs"

definition fold_verdicts :: "verdict list \<Rightarrow> refusal_reason \<Rightarrow> verdict" where
  "fold_verdicts vs reason = foldl meet_verdict (NotTested reason) vs"

lemma severity_simps [simp]:
  "severity Passed = 1" "severity Failed = 3" "severity Blocked = 2" "severity (NotTested r) = 0"
  by (simp_all add: severity_def SEVERITY_def)

lemma claimed_simps [simp]:
  "claimed Passed = 3" "claimed Failed = 1" "claimed Blocked = 1" "claimed (NotTested r) = 0"
  by (simp_all add: claimed_def CLAIMED_def)

lemma permits_installation_iff [simp]: "permits_installation v \<longleftrightarrow> v = Passed"
  by (cases v) simp_all

lemma parse_stored_name:
  "parse_verdict (stored_name v) reason = Inr (if is_not_tested v then NotTested reason else v)"
  by (cases v) (simp_all add: parse_verdict_def)

lemma parse_verdict_Inr: "parse_verdict s r = Inr v \<Longrightarrow> stored_name v = s"
  by (auto simp: parse_verdict_def split: if_splits)

lemma parse_verdict_Inl: "parse_verdict s r = Inl e \<Longrightarrow> e = Refusal MALFORMED_VERDICT"
  by (auto simp: parse_verdict_def split: if_splits)

subsection \<open>What a combination promises\<close>

locale combination =
  fixes combine :: "'a \<Rightarrow> 'a \<Rightarrow> 'a" and neutral :: "'a \<Rightarrow> bool" and rank :: "'a \<Rightarrow> nat"
  assumes neutral_left: "neutral x \<Longrightarrow> combine x y = y"
    and neutral_right: "\<not> neutral x \<Longrightarrow> neutral y \<Longrightarrow> combine x y = x"
    and picks: "combine x y = x \<or> combine x y = y"
    and rank_combine: "rank (combine x y) = max (rank x) (rank y)"
    and rank_neutral: "neutral x \<longleftrightarrow> rank x = 0"
begin

lemma rank_fold: "rank (foldl combine s xs) = foldl max (rank s) (map rank xs)"
  by (induction xs arbitrary: s) (simp_all add: rank_combine)

lemma fold_mem: "foldl combine s xs \<in> insert s (set xs)"
proof (induction xs arbitrary: s)
  case Nil
  then show ?case by simp
next
  case (Cons x xs)
  have "foldl combine (combine s x) xs \<in> insert (combine s x) (set xs)" by (rule Cons)
  with picks [of s x] show ?case by auto
qed

lemma fold_mem_list:
  "neutral s \<Longrightarrow> xs \<noteq> [] \<Longrightarrow> foldl combine s xs \<in> set xs"
  using fold_mem [of "hd xs" "tl xs"] by (cases xs) (auto simp: neutral_left)

lemma fold_neutral: "neutral (foldl combine s xs) \<longleftrightarrow> neutral s \<and> list_all neutral xs"
proof (induction xs arbitrary: s)
  case Nil
  then show ?case by simp
next
  case (Cons x xs)
  have "neutral (combine s x) \<longleftrightarrow> neutral s \<and> neutral x"
    using rank_combine [of s x] by (simp add: rank_neutral max_def split: if_splits) linarith
  with Cons show ?case by auto
qed

lemma foldl_max: "foldl max (a::nat) ns = Max (set (a # ns))"
proof -
  have "(\<lambda>x s. max s x) = (max :: nat \<Rightarrow> nat \<Rightarrow> nat)" by (intro ext) (rule max.commute)
  then show ?thesis by (simp only: Max.set_eq_fold foldl_conv_fold)
qed

lemma rank_fold_mono:
  assumes "set xs \<subseteq> set ys"
  shows "rank (foldl combine s xs) \<le> rank (foldl combine s ys)"
  unfolding rank_fold foldl_max using assms by (intro Max_mono) auto

end

interpretation mv: combination meet_verdict is_not_tested severity
proof
  fix x y :: verdict
  show "is_not_tested x \<Longrightarrow> meet_verdict x y = y" by (simp add: meet_verdict_def)
  show "\<not> is_not_tested x \<Longrightarrow> is_not_tested y \<Longrightarrow> meet_verdict x y = x"
    by (simp add: meet_verdict_def)
  show "meet_verdict x y = x \<or> meet_verdict x y = y" by (simp add: meet_verdict_def)
  show "severity (meet_verdict x y) = max (severity x) (severity y)"
    by (cases x; cases y) (simp_all add: meet_verdict_def)
  show "is_not_tested x \<longleftrightarrow> severity x = 0" by (cases x) simp_all
qed

lemma severity_inject:
  "severity v = severity w \<Longrightarrow> stored_name v = stored_name w"
  by (cases v; cases w) simp_all

lemma fold_verdicts_passed:
  "fold_verdicts vs reason = Passed \<Longrightarrow> Passed \<in> set vs"
  using mv.fold_mem [of "NotTested reason" vs] by (auto simp: fold_verdicts_def)

lemma require_all_iff: "require_all vs \<longleftrightarrow> vs \<noteq> [] \<and> set vs = {Passed}"
  by (cases vs) (auto simp: require_all_def list_all_iff)

end
