(* ===== verification/Claims.thy ===== *)
theory Claims
  imports Verdicts
begin

section \<open>Environments and scope (kernel/claims.py)\<close>

text \<open>
  Where a result was witnessed. \<open>satisfies\<close> is the order between a witness and a requirement,
  \<open>meet_environments\<close> the environment of a bundle of adapters, \<open>require_attestable\<close> the gate in
  front of every recorded result. Iterating over the enumeration gives its members in order.
\<close>

datatype environment_kind =
    BUILD
  | BUILD_CONTAINER
  | VM
  | LIVE_VM
  | INSTALLER_VM
  | PHYSICAL
  | OPERATOR
  | SIMULATED

fun environment_value :: "environment_kind \<Rightarrow> str" where
  "environment_value BUILD = ''build''"
| "environment_value BUILD_CONTAINER = ''build-container''"
| "environment_value VM = ''vm''"
| "environment_value LIVE_VM = ''live-vm''"
| "environment_value INSTALLER_VM = ''installer-vm''"
| "environment_value PHYSICAL = ''physical''"
| "environment_value OPERATOR = ''operator''"
| "environment_value SIMULATED = ''simulated''"

definition environment_kinds :: "environment_kind list" where
  "environment_kinds =
     [BUILD, BUILD_CONTAINER, VM, LIVE_VM, INSTALLER_VM, PHYSICAL, OPERATOR, SIMULATED]"

text \<open>\<open>EnvironmentKind(value)\<close>: the member with that value, a \<open>ValueError\<close> when there is none.\<close>

definition enum_of :: "('a \<Rightarrow> str) \<Rightarrow> 'a list \<Rightarrow> str \<Rightarrow> 'a res" where
  "enum_of val members s = of_option ValueError (find (\<lambda>m. val m = s) members)"

definition environment_of :: "str \<Rightarrow> environment_kind res" where
  "environment_of = enum_of environment_value environment_kinds"

definition VIRTUAL_MACHINES :: "environment_kind set" where
  "VIRTUAL_MACHINES = {LIVE_VM, INSTALLER_VM}"

definition satisfies :: "environment_kind \<Rightarrow> environment_kind \<Rightarrow> bool" where
  "satisfies self required =
     (if self = SIMULATED then False
      else if self = required then True
      else required = VM \<and> self \<in> VIRTUAL_MACHINES)"

definition meet_environments :: "environment_kind list \<Rightarrow> environment_kind res" where
  "meet_environments observed =
     (case observed of
        [] \<Rightarrow> Inr SIMULATED
      | first # rest \<Rightarrow>
          if SIMULATED \<in> set observed then Inr SIMULATED
          else if \<exists>kind \<in> set observed. kind \<noteq> first then Inl InternalDefect
          else Inr first)"

definition witnessed_through :: "environment_kind \<Rightarrow> environment_kind \<Rightarrow> environment_kind" where
  "witnessed_through bundle guest =
     (if bundle = SIMULATED \<or> guest = SIMULATED then SIMULATED else guest)"

definition ATTESTABLE :: "environment_kind set" where
  "ATTESTABLE = set (filter (\<lambda>k. k \<noteq> SIMULATED) environment_kinds)"

definition require_attestable ::
    "environment_kind \<Rightarrow> environment_kind option \<Rightarrow> environment_kind res" where
  "require_attestable kind expected =
     (if kind \<notin> ATTESTABLE then Inl (Refusal SIMULATED_ENVIRONMENT)
      else case expected of
             None \<Rightarrow> Inr kind
           | Some e \<Rightarrow> if kind \<noteq> e then Inl (Refusal ENVIRONMENT_NOT_WITNESSED) else Inr kind)"

datatype scope_limit =
    PHYSICAL_HARDWARE
  | FAILED_DEPLOYMENT_RECOVERY
  | SECURE_BOOT
  | UPSTREAM_PROSE_UNVERIFIED
  | LEGACY_NO_PORT_PROOF
  | LEGACY_NO_CANDIDATE_READBACK

fun scope_limit_value :: "scope_limit \<Rightarrow> str" where
  "scope_limit_value PHYSICAL_HARDWARE = ''physical-hardware''"
| "scope_limit_value FAILED_DEPLOYMENT_RECOVERY = ''failed-deployment-recovery''"
| "scope_limit_value SECURE_BOOT = ''secure-boot''"
| "scope_limit_value UPSTREAM_PROSE_UNVERIFIED = ''upstream-prose-unverified''"
| "scope_limit_value LEGACY_NO_PORT_PROOF = ''legacy-no-port-proof''"
| "scope_limit_value LEGACY_NO_CANDIDATE_READBACK = ''legacy-no-candidate-readback''"

definition scope_limits_all :: "scope_limit list" where
  "scope_limits_all =
     [PHYSICAL_HARDWARE, FAILED_DEPLOYMENT_RECOVERY, SECURE_BOOT, UPSTREAM_PROSE_UNVERIFIED,
      LEGACY_NO_PORT_PROOF, LEGACY_NO_CANDIDATE_READBACK]"

definition scope_limit_of :: "str \<Rightarrow> scope_limit res" where
  "scope_limit_of = enum_of scope_limit_value scope_limits_all"

record claim_scope =
  scope_proven :: "str set"
  scope_not_tested :: "scope_limit set"

definition mk_claim_scope :: "str set \<Rightarrow> scope_limit set \<Rightarrow> claim_scope res" where
  "mk_claim_scope proven not_tested =
     (if proven = {} \<and> not_tested = {} then Inl (Refusal NO_VERIFIED_RESULT)
      else Inr \<lparr>scope_proven = proven, scope_not_tested = not_tested\<rparr>)"

record claim =
  claim_statement :: str
  claim_environment :: environment_kind
  claim_scope_of :: claim_scope

lemma enum_of_value:
  assumes "m \<in> set members" and "inj_on val (set members)"
  shows "enum_of val members (val m) = Inr m"
proof -
  from assms(1) obtain m' where "find (\<lambda>x. val x = val m) members = Some m'"
    by (cases "find (\<lambda>x. val x = val m) members") (auto simp: find_None_iff)
  then have "m' \<in> set members \<and> val m' = val m" by (auto simp: find_Some_iff)
  with assms have "m' = m" by (auto dest: inj_onD)
  with \<open>find _ _ = Some m'\<close> show ?thesis by (simp add: enum_of_def)
qed

lemma enum_of_Inr: "enum_of val members s = Inr m \<Longrightarrow> m \<in> set members \<and> val m = s"
  by (auto simp: enum_of_def of_option_eq_Inr find_Some_iff)

lemma enum_of_Inl: "enum_of val members s = Inl e \<Longrightarrow> e = ValueError"
  by (auto simp: enum_of_def of_option_def split: option.splits)

lemma set_environment_kinds [simp]: "set environment_kinds = UNIV"
  using environment_kind.exhaust by (auto simp: environment_kinds_def)

lemma environment_value_inj: "inj environment_value"
proof (rule injI)
  fix a b assume "environment_value a = environment_value b"
  then show "a = b" by (cases a; cases b) simp_all
qed

lemma environment_of_value [simp]: "environment_of (environment_value k) = Inr k"
  by (simp add: environment_of_def enum_of_value environment_value_inj)

lemma set_scope_limits_all [simp]: "set scope_limits_all = UNIV"
  using scope_limit.exhaust by (auto simp: scope_limits_all_def)

lemma scope_limit_value_inj: "inj scope_limit_value"
proof (rule injI)
  fix a b assume "scope_limit_value a = scope_limit_value b"
  then show "a = b" by (cases a; cases b) simp_all
qed

lemma scope_limit_of_value [simp]: "scope_limit_of (scope_limit_value k) = Inr k"
  by (simp add: scope_limit_of_def enum_of_value scope_limit_value_inj)

lemma ATTESTABLE_iff [simp]: "k \<in> ATTESTABLE \<longleftrightarrow> k \<noteq> SIMULATED"
  by (simp add: ATTESTABLE_def)

lemma require_attestable_Inr:
  "require_attestable k e = Inr k' \<longleftrightarrow> k' = k \<and> k \<noteq> SIMULATED \<and> (e = None \<or> e = Some k)"
  by (auto simp: require_attestable_def split: option.splits if_splits)

lemma satisfies_trans: "satisfies a b \<Longrightarrow> satisfies b c \<Longrightarrow> satisfies a c"
  by (auto simp: satisfies_def VIRTUAL_MACHINES_def split: if_splits)

lemma satisfies_refl: "satisfies a a \<longleftrightarrow> a \<noteq> SIMULATED"
  by (simp add: satisfies_def)

lemma meet_environments_Inr:
  "meet_environments ks = Inr k \<longleftrightarrow>
     (if ks = [] \<or> SIMULATED \<in> set ks then k = SIMULATED else set ks = {k})"
  by (cases ks) (auto simp: meet_environments_def split: if_splits)

end
