(* ===== verification/Sha256.thy ===== *)
theory Sha256
  imports PyText "HOL-Library.Word"
begin

unbundle bit_operations_syntax

section \<open>SHA-256 and HMAC (hashlib, hmac)\<close>

text \<open>
  The two functions of Python's library the program's evidence rests on, as FIPS 180-4 and
  RFC 2104 define them, over byte strings. What the proofs use of them is only the shape of a
  digest, \<open>sha256_hex_shape\<close>: 64 lower-case hexadecimal digits. No theorem assumes that two
  different messages have different digests; where a claim depends on that, its statement
  names the two messages that would collide.
\<close>

type_synonym u32 = "32 word"

definition SHA_K :: "u32 list" where
  "SHA_K =
    [1116352408, 1899447441, 3049323471, 3921009573, 961987163, 1508970993, 2453635748, 2870763221,
     3624381080, 310598401, 607225278, 1426881987, 1925078388, 2162078206, 2614888103, 3248222580,
     3835390401, 4022224774, 264347078, 604807628, 770255983, 1249150122, 1555081692, 1996064986,
     2554220882, 2821834349, 2952996808, 3210313671, 3336571891, 3584528711, 113926993, 338241895,
     666307205, 773529912, 1294757372, 1396182291, 1695183700, 1986661051, 2177026350, 2456956037,
     2730485921, 2820302411, 3259730800, 3345764771, 3516065817, 3600352804, 4094571909, 275423344,
     430227734, 506948616, 659060556, 883997877, 958139571, 1322822218, 1537002063, 1747873779,
     1955562222, 2024104815, 2227730452, 2361852424, 2428436474, 2756734187, 3204031479, 3329325298]"

definition SHA_H0 :: "u32 list" where
  "SHA_H0 = [1779033703, 3144134277, 1013904242, 2773480762, 1359893119, 2600822924, 528734635, 1541459225]"

definition rotr :: "nat \<Rightarrow> u32 \<Rightarrow> u32" where
  "rotr n x = (drop_bit n x OR push_bit (32 - n) x)"

definition byte_of :: "char \<Rightarrow> nat" where
  "byte_of c = of_char c"

definition be_bytes :: "nat \<Rightarrow> nat \<Rightarrow> bytes" where
  "be_bytes width n = rev (map (\<lambda>i. char_of (n div 256 ^ i)) [0..<width])"

definition sha_pad :: "bytes \<Rightarrow> bytes" where
  "sha_pad m =
     (let zeros = (119 - length m mod 64) mod 64
      in m @ CHR 0x80 # replicate zeros CHR 0x00 @ be_bytes 8 (8 * length m))"

fun sha_words :: "bytes \<Rightarrow> u32 list" where
  "sha_words (a # b # c # d # rest) =
     of_nat (((byte_of a * 256 + byte_of b) * 256 + byte_of c) * 256 + byte_of d) # sha_words rest"
| "sha_words _ = []"

text \<open>The message schedule, newest word first: sixteen words of the block, then 48 more.\<close>

fun sha_extend :: "nat \<Rightarrow> u32 list \<Rightarrow> u32 list" where
  "sha_extend 0 ws = ws"
| "sha_extend (Suc n) ws =
     (let w2 = ws ! 1; w15 = ws ! 14;
          s0 = rotr 7 w15 XOR rotr 18 w15 XOR drop_bit 3 w15;
          s1 = rotr 17 w2 XOR rotr 19 w2 XOR drop_bit 10 w2
      in sha_extend n ((ws ! 15 + s0 + ws ! 6 + s1) # ws))"

fun sha_round :: "u32 list \<Rightarrow> u32 \<times> u32 \<Rightarrow> u32 list" where
  "sha_round [a, b, c, d, e, f, g, h] (k, w) =
     (let s1 = rotr 6 e XOR rotr 11 e XOR rotr 25 e;
          ch = (e AND f) XOR (NOT e AND g);
          t1 = h + s1 + ch + k + w;
          s0 = rotr 2 a XOR rotr 13 a XOR rotr 22 a;
          maj = (a AND b) XOR (a AND c) XOR (b AND c);
          t2 = s0 + maj
      in [t1 + t2, a, b, c, d + t1, e, f, g])"
| "sha_round st kw = st"

definition sha_block :: "u32 list \<Rightarrow> u32 list \<Rightarrow> u32 list" where
  "sha_block st block =
     map2 (+) st (foldl sha_round st (zip SHA_K (rev (sha_extend 48 (rev block)))))"

fun sha_blocks :: "nat \<Rightarrow> u32 list \<Rightarrow> u32 list \<Rightarrow> u32 list" where
  "sha_blocks 0 st ws = st"
| "sha_blocks (Suc n) st ws = sha_blocks n (sha_block st (take 16 ws)) (drop 16 ws)"

definition word_bytes :: "u32 \<Rightarrow> bytes" where
  "word_bytes w = be_bytes 4 (unat w)"

definition sha256 :: "bytes \<Rightarrow> bytes" where
  "sha256 m =
     (let ws = sha_words (sha_pad m)
      in concat (map word_bytes (sha_blocks (length ws div 16) SHA_H0 ws)))"

definition hex_digit :: "nat \<Rightarrow> char" where
  "hex_digit n = (if n < 10 then char_of (48 + n) else char_of (87 + n))"

definition hex_of :: "bytes \<Rightarrow> str" where
  "hex_of b = concat (map (\<lambda>c. [hex_digit (byte_of c div 16), hex_digit (byte_of c mod 16)]) b)"

definition sha256_hex :: "bytes \<Rightarrow> str" where
  "sha256_hex m = hex_of (sha256 m)"

definition xor_bytes :: "nat \<Rightarrow> bytes \<Rightarrow> bytes" where
  "xor_bytes n b = map (\<lambda>c. char_of (byte_of c XOR n)) b"

definition hmac_block :: "bytes \<Rightarrow> bytes" where
  "hmac_block key =
     (let k = (if length key > 64 then sha256 key else key)
      in k @ replicate (64 - length k) CHR 0x00)"

definition hmac_sha256_hex :: "bytes \<Rightarrow> bytes \<Rightarrow> str" where
  "hmac_sha256_hex key msg =
     (let k = hmac_block key
      in sha256_hex (xor_bytes 0x5c k @ sha256 (xor_bytes 0x36 k @ msg)))"

subsection \<open>The shape of a digest\<close>

lemma length_be_bytes [simp]: "length (be_bytes w n) = w"
  by (simp add: be_bytes_def)

lemma length_sha_round [simp]: "length (sha_round st kw) = length st"
  by (induction st kw rule: sha_round.induct) (simp_all add: Let_def)

lemma length_sha_block [simp]: "length (sha_block st b) = length st"
proof -
  have "length (foldl sha_round st xs) = length st" for xs
    by (induction xs arbitrary: st) simp_all
  then show ?thesis by (simp add: sha_block_def)
qed

lemma length_sha_blocks [simp]: "length (sha_blocks n st ws) = length st"
  by (induction n arbitrary: st ws) simp_all

lemma length_sha256 [simp]: "length (sha256 m) = 32"
proof -
  have "length (concat (map word_bytes ws)) = 4 * length ws" for ws
    by (induction ws) (simp_all add: word_bytes_def)
  then show ?thesis by (simp add: sha256_def Let_def SHA_H0_def)
qed

lemma hex_digit_is_hex: "n < 16 \<Longrightarrow> is_hex (hex_digit n)"
  by (auto simp: is_hex_def is_digit_def hex_digit_def less_eq_char_def)

lemma length_hex_of: "length (hex_of b) = 2 * length b"
  by (induction b) (simp_all add: hex_of_def)

lemma hex_of_is_hex: "list_all is_hex (hex_of b)"
proof (induction b)
  case (Cons c b)
  have "byte_of c < 256" by (simp add: byte_of_def)
  then have "byte_of c div 16 < 16" by (simp add: less_mult_imp_div_less)
  with Cons show ?case by (simp add: hex_of_def hex_digit_is_hex)
qed (simp add: hex_of_def)

lemma sha256_hex_shape: "length (sha256_hex m) = 64 \<and> list_all is_hex (sha256_hex m)"
  by (simp add: sha256_hex_def length_hex_of hex_of_is_hex)

lemma length_hmac_hex [simp]: "length (hmac_sha256_hex k m) = 64"
  by (simp add: hmac_sha256_hex_def Let_def sha256_hex_shape)

end
