(* ===== verification/Identifiers.thy ===== *)
theory Identifiers
  imports Errors PyRegex Sha256
begin

section \<open>Identity values and digests (kernel/identifiers.py, kernel/hashing.py)\<close>

text \<open>
  A digest, an identifier and a dotted name are checked against one pattern each when they are
  constructed; \<open>mk_...\<close> is the constructor with its check and \<open>..._ok\<close> is what a value that
  came out of it satisfies. \<open>ImageId\<close> and \<open>MerkleRoot\<close> are digests, and \<open>BuildId\<close>, \<open>RunId\<close>
  and \<open>Token\<close> hexadecimal identifiers, under another class name; the model uses a type synonym
  for each, since no comparison of the program mixes two of them. The same holds for the six
  subclasses of \<open>_DottedName\<close>.
\<close>

subsection \<open>Patterns\<close>

definition HEX_64 :: pattern where "HEX_64 = rep 64 (RClass is_hex)"

definition HEX_32 :: pattern where "HEX_32 = rep 32 (RClass is_hex)"

definition is_alnum :: "char \<Rightarrow> bool" where
  "is_alnum c \<longleftrightarrow> is_lower c \<or> is_digit c"

definition DOTTED_NAME :: pattern where
  "DOTTED_NAME =
     RSeq (plus (RClass is_alnum))
          (RStar (RSeq (RClass (\<lambda>c. c \<in> {CHR ''.'', CHR ''-''})) (plus (RClass is_alnum))))"

lemma HEX_64_iff [simp]: "fullmatch HEX_64 s \<longleftrightarrow> length s = 64 \<and> list_all is_hex s"
  unfolding HEX_64_def by (rule fullmatch_rep_class)

lemma HEX_32_iff [simp]: "fullmatch HEX_32 s \<longleftrightarrow> length s = 32 \<and> list_all is_hex s"
  unfolding HEX_32_def by (rule fullmatch_rep_class)

subsection \<open>Digests\<close>

datatype digest = Digest (digest_hex: str)

type_synonym image_id = digest
type_synonym merkle_root_id = digest

definition DIGEST_ALGORITHM :: str where "DIGEST_ALGORITHM = ''sha256''"

definition mk_digest :: "str \<Rightarrow> digest res" where
  "mk_digest hex =
     (if \<not> fullmatch HEX_64 hex then Inl (Refusal MALFORMED_DIGEST) else Inr (Digest hex))"

definition parse_digest :: "str \<Rightarrow> digest res" where
  "parse_digest v =
     (case partition_on CHR '':'' v of (prefx, separator, remainder) \<Rightarrow>
        if separator \<and> prefx \<noteq> DIGEST_ALGORITHM then Inl (Refusal MALFORMED_DIGEST)
        else mk_digest (if separator then remainder else v))"

definition digest_str :: "digest \<Rightarrow> str" where
  "digest_str d = DIGEST_ALGORITHM @ '':'' @ digest_hex d"

definition digest_ok :: "digest \<Rightarrow> bool" where
  "digest_ok d \<longleftrightarrow> length (digest_hex d) = 64 \<and> list_all is_hex (digest_hex d)"

lemma mk_digest_Inr [simp]: "mk_digest s = Inr d \<longleftrightarrow> d = Digest s \<and> digest_ok d"
  by (auto simp: mk_digest_def digest_ok_def)

lemma mk_digest_hex: "digest_ok d \<Longrightarrow> mk_digest (digest_hex d) = Inr d"
  by (cases d) simp

lemma mk_digest_Inl: "mk_digest s = Inl e \<Longrightarrow> e = Refusal MALFORMED_DIGEST"
  by (auto simp: mk_digest_def split: if_splits)

lemma parse_digest_Inl: "parse_digest s = Inl e \<Longrightarrow> e = Refusal MALFORMED_DIGEST"
  by (auto simp: parse_digest_def split: prod.splits if_splits dest: mk_digest_Inl)

lemma parse_digest_ok: "parse_digest s = Inr d \<Longrightarrow> digest_ok d"
  by (auto simp: parse_digest_def split: prod.splits if_splits)

lemma colon_not_hex: "list_all is_hex s \<Longrightarrow> CHR '':'' \<notin> set s"
  by (auto simp: list_all_iff char_class_defs)

lemma digest_str_roundtrip: "digest_ok d \<Longrightarrow> parse_digest (digest_str d) = Inr d"
proof -
  assume ok: "digest_ok d"
  have "partition_on CHR '':'' (DIGEST_ALGORITHM @ CHR '':'' # digest_hex d)
      = (DIGEST_ALGORITHM, True, digest_hex d)"
    by (rule partition_on_append) (simp add: DIGEST_ALGORITHM_def)
  with ok show ?thesis by (simp add: parse_digest_def digest_str_def)
qed

lemma digest_hex_roundtrip: "digest_ok d \<Longrightarrow> parse_digest (digest_hex d) = Inr d"
proof -
  assume ok: "digest_ok d"
  then have "CHR '':'' \<notin> set (digest_hex d)" by (simp add: digest_ok_def colon_not_hex)
  then have "partition_on CHR '':'' (digest_hex d) = (digest_hex d, False, [])"
    by (rule partition_on_absent)
  with ok show ?thesis by (simp add: parse_digest_def)
qed

lemma parse_digest_Inr:
  "parse_digest s = Inr d \<longleftrightarrow> digest_ok d \<and> (s = digest_hex d \<or> s = digest_str d)"
proof
  assume p: "parse_digest s = Inr d"
  obtain h f t where hft: "partition_on CHR '':'' s = (h, f, t)"
    by (cases "partition_on CHR '':'' s") auto
  show "digest_ok d \<and> (s = digest_hex d \<or> s = digest_str d)"
  proof (cases f)
    case True
    with hft have "s = h @ CHR '':'' # t" by (auto dest: partition_on_found)
    with True p hft show ?thesis by (auto simp: parse_digest_def digest_str_def split: if_splits)
  next
    case False
    with p hft show ?thesis by (auto simp: parse_digest_def)
  qed
next
  assume "digest_ok d \<and> (s = digest_hex d \<or> s = digest_str d)"
  then show "parse_digest s = Inr d"
    by (auto simp: digest_str_roundtrip digest_hex_roundtrip)
qed

subsection \<open>Hexadecimal identifiers and dotted names\<close>

datatype hex_identifier = HexIdentifier (identifier_value: str)

type_synonym build_id = hex_identifier
type_synonym run_id = hex_identifier
type_synonym token = hex_identifier

definition mk_hex_identifier :: "str \<Rightarrow> hex_identifier res" where
  "mk_hex_identifier v =
     (if \<not> fullmatch HEX_32 v then Inl (Refusal MALFORMED_IDENTIFIER) else Inr (HexIdentifier v))"

definition parse_hex_identifier :: "str \<Rightarrow> hex_identifier res" where
  "parse_hex_identifier v = mk_hex_identifier v"

datatype dotted_name = DottedName (name_value: str)

type_synonym check_id = dotted_name
type_synonym rule_id = dotted_name
type_synonym stage_id = dotted_name
type_synonym probe_id = dotted_name
type_synonym fault_id = dotted_name
type_synonym profile_id = dotted_name

definition mk_dotted_name :: "str \<Rightarrow> dotted_name res" where
  "mk_dotted_name v =
     (if \<not> fullmatch DOTTED_NAME v then Inl (Refusal MALFORMED_IDENTIFIER) else Inr (DottedName v))"

definition hex_identifier_ok :: "hex_identifier \<Rightarrow> bool" where
  "hex_identifier_ok i \<longleftrightarrow> length (identifier_value i) = 32 \<and> list_all is_hex (identifier_value i)"

definition dotted_name_ok :: "dotted_name \<Rightarrow> bool" where
  "dotted_name_ok n \<longleftrightarrow> fullmatch DOTTED_NAME (name_value n)"

lemma mk_hex_identifier_Inr [simp]:
  "mk_hex_identifier s = Inr i \<longleftrightarrow> i = HexIdentifier s \<and> hex_identifier_ok i"
  by (auto simp: mk_hex_identifier_def hex_identifier_ok_def)

lemma mk_hex_identifier_Inl: "mk_hex_identifier s = Inl e \<Longrightarrow> e = Refusal MALFORMED_IDENTIFIER"
  by (auto simp: mk_hex_identifier_def split: if_splits)

lemma mk_dotted_name_Inr [simp]:
  "mk_dotted_name s = Inr n \<longleftrightarrow> n = DottedName s \<and> dotted_name_ok n"
  by (auto simp: mk_dotted_name_def dotted_name_ok_def)

lemma mk_dotted_name_value: "dotted_name_ok n \<Longrightarrow> mk_dotted_name (name_value n) = Inr n"
  by (cases n) simp

lemma mk_dotted_name_Inl: "mk_dotted_name s = Inl e \<Longrightarrow> e = Refusal MALFORMED_IDENTIFIER"
  by (auto simp: mk_dotted_name_def split: if_splits)

lemma dotted_name_chars:
  assumes "fullmatch DOTTED_NAME s"
  shows "s \<noteq> [] \<and> list_all (\<lambda>c. is_alnum c \<or> c = CHR ''.'' \<or> c = CHR ''-'') s"
proof
  show "list_all (\<lambda>c. is_alnum c \<or> c = CHR ''.'' \<or> c = CHR ''-'') s"
    by (rule fullmatch_within [OF assms]) (auto simp: DOTTED_NAME_def plus_def)
  show "s \<noteq> []"
    using assms by (auto simp: DOTTED_NAME_def fullmatch_seq fullmatch_plus_class)
qed

subsection \<open>Package coordinates\<close>

record nevra =
  nevra_name :: str
  nevra_epoch :: nat
  nevra_version :: str
  nevra_release :: str
  nevra_architecture :: str

definition rpartition_on :: "'a \<Rightarrow> 'a list \<Rightarrow> 'a list \<times> bool \<times> 'a list" where
  "rpartition_on c s =
     (case partition_on c (rev s) of (t, found, h) \<Rightarrow>
        if found then (rev h, True, rev t) else ([], False, s))"

text \<open>
  The groups of \<open>_NEVRA_QUERY\<close>. Each group's class excludes the separator after it, except the
  release, whose greedy \<open>.+\<close> runs to the last dot; so the split below is the only match.
\<close>

definition nevra_groups :: "str \<Rightarrow> (str \<times> str \<times> str \<times> str \<times> str) option" where
  "nevra_groups v =
     (case partition_on CHR ''|'' v of (name, bar, rest1) \<Rightarrow>
      case partition_on CHR '':'' rest1 of (epoch, colon, rest2) \<Rightarrow>
      case partition_on CHR ''-'' rest2 of (version, dash, rest3) \<Rightarrow>
      case rpartition_on CHR ''.'' rest3 of (release, dot, architecture) \<Rightarrow>
        if bar \<and> name \<noteq> [] \<and> colon \<and> epoch \<noteq> [] \<and> list_all is_digit epoch
           \<and> dash \<and> version \<noteq> [] \<and> dot \<and> release \<noteq> [] \<and> CHR 0x0A \<notin> set release
           \<and> architecture \<noteq> []
        then Some (name, epoch, version, release, architecture) else None)"

definition parse_nevra :: "str \<Rightarrow> nevra res" where
  "parse_nevra v =
     (case nevra_groups v of
        None \<Rightarrow> Inl (Refusal MALFORMED_PACKAGE_COORDINATE)
      | Some (name, epoch, version, release, architecture) \<Rightarrow>
          Inr \<lparr>nevra_name = name, nevra_epoch = nat_of_digits epoch, nevra_version = version,
               nevra_release = release, nevra_architecture = architecture\<rparr>)"

definition nevra_filename :: "nevra \<Rightarrow> str" where
  "nevra_filename n =
     nevra_name n @ ''-'' @ nevra_version n @ ''-'' @ nevra_release n @ ''.''
       @ nevra_architecture n @ ''.rpm''"

definition nevra_str :: "nevra \<Rightarrow> str" where
  "nevra_str n =
     nevra_name n @ ''-'' @ str_of_nat (nevra_epoch n) @ '':'' @ nevra_version n @ ''-''
       @ nevra_release n @ ''.'' @ nevra_architecture n"

definition nevra_ok :: "nevra \<Rightarrow> bool" where
  "nevra_ok n \<longleftrightarrow>
     nevra_name n \<noteq> [] \<and> CHR ''|'' \<notin> set (nevra_name n)
   \<and> nevra_version n \<noteq> [] \<and> CHR ''-'' \<notin> set (nevra_version n)
   \<and> nevra_release n \<noteq> [] \<and> CHR 0x0A \<notin> set (nevra_release n)
   \<and> nevra_architecture n \<noteq> [] \<and> CHR ''.'' \<notin> set (nevra_architecture n)"

text \<open>The line \<open>rpm --queryformat\<close> prints for a package, which \<open>parse\<close> reads.\<close>

definition nevra_query :: "nevra \<Rightarrow> str" where
  "nevra_query n =
     nevra_name n @ ''|'' @ str_of_nat (nevra_epoch n) @ '':'' @ nevra_version n @ ''-''
       @ nevra_release n @ ''.'' @ nevra_architecture n"

lemma rpartition_on_append: "c \<notin> set b \<Longrightarrow> rpartition_on c (a @ c # b) = (a, True, b)"
  by (simp add: rpartition_on_def partition_on_append)

lemma rpartition_on_found: "rpartition_on c s = (a, True, b) \<Longrightarrow> s = a @ c # b \<and> c \<notin> set b"
proof -
  assume r: "rpartition_on c s = (a, True, b)"
  then obtain t h where "partition_on c (rev s) = (t, True, h)" "a = rev h" "b = rev t"
    by (auto simp: rpartition_on_def split: prod.splits if_splits)
  with partition_on_found [of c "rev s" t h] have "rev s = t @ c # h" "c \<notin> set t" by auto
  then have "s = rev (t @ c # h)" by (metis rev_rev_ident)
  with \<open>a = rev h\<close> \<open>b = rev t\<close> \<open>c \<notin> set t\<close> show ?thesis by simp
qed

lemma nevra_roundtrip: "nevra_ok n \<Longrightarrow> parse_nevra (nevra_query n) = Inr n"
proof -
  assume ok: "nevra_ok n"
  have digits: "list_all is_digit (str_of_nat (nevra_epoch n))"
    by (auto simp: list_all_iff dest: str_of_nat_digits)
  then have "CHR '':'' \<notin> set (str_of_nat (nevra_epoch n))"
    by (auto simp: list_all_iff char_class_defs)
  with ok digits show ?thesis
    by (simp add: nevra_ok_def nevra_query_def parse_nevra_def nevra_groups_def
        partition_on_append rpartition_on_append)
qed

lemma parse_nevra_ok: "parse_nevra v = Inr n \<Longrightarrow> nevra_ok n"
  by (auto simp: parse_nevra_def nevra_groups_def nevra_ok_def
      split: prod.splits option.splits if_splits
      dest!: partition_on_found rpartition_on_found)

subsection \<open>hashing.py\<close>

definition READ_CHUNK :: nat where "READ_CHUNK = 1024 * 1024"

definition LEAF_PREFIX :: bytes where "LEAF_PREFIX = [CHR 0x00]"

definition NODE_PREFIX :: bytes where "NODE_PREFIX = [CHR 0x01]"

definition digest_bytes :: "bytes \<Rightarrow> digest" where
  "digest_bytes payload = Digest (sha256_hex payload)"

definition digest_stream :: "bytes list \<Rightarrow> digest" where
  "digest_stream chunks = Digest (sha256_hex (foldl (@) [] chunks))"

definition merkle_root :: "digest list \<Rightarrow> merkle_root_id" where
  "merkle_root leaves =
     Digest (sha256_hex
       (foldl (\<lambda>acc leaf. acc @ digest_hex leaf)
          (if length leaves = 1 then LEAF_PREFIX else NODE_PREFIX) leaves))"

record stat_key =
  stat_device :: int
  stat_inode :: int
  stat_size :: int
  stat_modified_nanoseconds :: int

lemma digest_bytes_ok [simp]: "digest_ok (digest_bytes p)"
  by (simp add: digest_ok_def digest_bytes_def sha256_hex_shape)

lemma digest_stream_concat: "digest_stream chunks = digest_bytes (concat chunks)"
proof -
  have "foldl (@) a chunks = a @ concat chunks" for a
    by (induction chunks arbitrary: a) simp_all
  then show ?thesis by (simp add: digest_stream_def digest_bytes_def)
qed

lemma merkle_root_ok [simp]: "digest_ok (merkle_root ls)"
  by (simp add: digest_ok_def merkle_root_def sha256_hex_shape)

text \<open>The bytes a root is the hash of, and that they determine the list of leaves.\<close>

definition merkle_input :: "digest list \<Rightarrow> bytes" where
  "merkle_input leaves =
     (if length leaves = 1 then LEAF_PREFIX else NODE_PREFIX) @ concat (map digest_hex leaves)"

lemma merkle_root_input: "merkle_root ls = digest_bytes (merkle_input ls)"
proof -
  have "foldl (\<lambda>acc leaf. acc @ digest_hex leaf) a xs = a @ concat (map digest_hex xs)" for a xs
    by (induction xs arbitrary: a) simp_all
  then show ?thesis by (simp add: merkle_root_def digest_bytes_def merkle_input_def)
qed

lemma concat_digests_inj:
  assumes "list_all digest_ok ls" "list_all digest_ok ms"
    and "concat (map digest_hex ls) = concat (map digest_hex ms)"
  shows "ls = ms"
  using assms
proof (induction ls arbitrary: ms)
  case Nil
  then show ?case by (cases ms) (auto simp: digest_ok_def)
next
  case (Cons l ls)
  then obtain m ms' where ms: "ms = m # ms'" by (cases ms) (auto simp: digest_ok_def)
  with Cons.prems have "digest_hex l = digest_hex m"
    "concat (map digest_hex ls) = concat (map digest_hex ms')"
    by (simp_all add: digest_ok_def)
  with ms Cons show ?case by (simp add: digest.expand)
qed

lemma merkle_input_inj:
  "list_all digest_ok ls \<Longrightarrow> list_all digest_ok ms \<Longrightarrow> merkle_input ls = merkle_input ms \<Longrightarrow> ls = ms"
  by (rule concat_digests_inj)
     (auto simp: merkle_input_def LEAF_PREFIX_def NODE_PREFIX_def split: if_splits)

end
