(* ===== verification/PyJson.thy ===== *)
theory PyJson
  imports Identifiers
begin

section \<open>JSON documents (kernel/encoding.py and the json module)\<close>

text \<open>
  A JSON value, the canonical rendering every digest of the program is taken over, and the
  reader of \<open>json.loads\<close>. Objects keep the order of their keys; reading an object with a key
  twice keeps the last value. A string is the UTF-8 form of a text, so rendering escapes by
  code point and reading writes an escaped code point as its UTF-8 bytes. A float is kept as its
  exact decimal value, and one beyond the range of a binary64 reads as an infinity; the
  documents the program renders hold none. The reader recurses with fuel, one unit a nesting or
  an element; \<open>json_fuel_enough\<close> shows that twice the length of the input is more than any
  input uses. Input is UTF-8 without a byte order mark, and the limits Python puts on nesting
  and on the number of digits are not modelled.
\<close>

datatype pyfloat = Finite int int | PosInf | NegInf | NaN

datatype json =
    JNull
  | JBool bool
  | JInt int
  | JFloat pyfloat
  | JStr str
  | JList "json list"
  | JObj "(str \<times> json) list"

subsection \<open>UTF-8\<close>

definition cont :: "nat \<Rightarrow> nat \<Rightarrow> char \<Rightarrow> bool" where
  "cont lo hi c \<longleftrightarrow> lo \<le> byte_of c \<and> byte_of c \<le> hi"

text \<open>\<open>utf8_ok strict\<close>: whether the bytes decode; \<open>surrogatepass\<close> also takes surrogates.\<close>

fun utf8_ok :: "bool \<Rightarrow> bytes \<Rightarrow> bool" where
  "utf8_ok strict [] = True"
| "utf8_ok strict (c # s) =
     (let b = byte_of c in
      if b < 0x80 then utf8_ok strict s
      else if 0xC2 \<le> b \<and> b \<le> 0xDF then
        (case s of d # s' \<Rightarrow> cont 0x80 0xBF d \<and> utf8_ok strict s' | _ \<Rightarrow> False)
      else if 0xE0 \<le> b \<and> b \<le> 0xEF then
        (case s of d # e # s' \<Rightarrow>
           cont (if b = 0xE0 then 0xA0 else 0x80) (if b = 0xED \<and> strict then 0x9F else 0xBF) d
           \<and> cont 0x80 0xBF e \<and> utf8_ok strict s'
         | _ \<Rightarrow> False)
      else if 0xF0 \<le> b \<and> b \<le> 0xF4 then
        (case s of d # e # f # s' \<Rightarrow>
           cont (if b = 0xF0 then 0x90 else 0x80) (if b = 0xF4 then 0x8F else 0xBF) d
           \<and> cont 0x80 0xBF e \<and> cont 0x80 0xBF f \<and> utf8_ok strict s'
         | _ \<Rightarrow> False)
      else False)"

fun utf8_decode :: "str \<Rightarrow> nat list" where
  "utf8_decode [] = []"
| "utf8_decode (c # s) =
     (let b = byte_of c in
      if b < 0x80 then b # utf8_decode s
      else if b < 0xE0 then
        (case s of d # s' \<Rightarrow> ((b mod 32) * 64 + byte_of d mod 64) # utf8_decode s' | _ \<Rightarrow> [b])
      else if b < 0xF0 then
        (case s of d # e # s' \<Rightarrow>
           (((b mod 16) * 64 + byte_of d mod 64) * 64 + byte_of e mod 64) # utf8_decode s'
         | _ \<Rightarrow> [b])
      else
        (case s of d # e # f # s' \<Rightarrow>
           ((((b mod 8) * 64 + byte_of d mod 64) * 64 + byte_of e mod 64) * 64 + byte_of f mod 64)
             # utf8_decode s'
         | _ \<Rightarrow> [b]))"

definition utf8_encode :: "nat \<Rightarrow> str" where
  "utf8_encode n =
     (if n < 0x80 then [char_of n]
      else if n < 0x800 then [char_of (0xC0 + n div 64), char_of (0x80 + n mod 64)]
      else if n < 0x10000 then
        [char_of (0xE0 + n div 4096), char_of (0x80 + n div 64 mod 64), char_of (0x80 + n mod 64)]
      else [char_of (0xF0 + n div 262144), char_of (0x80 + n div 4096 mod 64),
            char_of (0x80 + n div 64 mod 64), char_of (0x80 + n mod 64)])"

definition is_ascii :: "char \<Rightarrow> bool" where
  "is_ascii c \<longleftrightarrow> byte_of c < 0x80"

lemma is_ascii_Char [simp]: "is_ascii (Char b0 b1 b2 b3 b4 b5 b6 b7) \<longleftrightarrow> \<not> b7"
  by (cases b0; cases b1; cases b2; cases b3; cases b4; cases b5; cases b6; cases b7;
      simp add: is_ascii_def byte_of_def)

lemma utf8_ok_ascii: "list_all is_ascii s \<Longrightarrow> utf8_ok strict s"
  by (induction s) (simp_all add: is_ascii_def)

lemma utf8_decode_ascii: "list_all is_ascii s \<Longrightarrow> utf8_decode s = map byte_of s"
  by (induction s) (simp_all add: is_ascii_def)

subsection \<open>Rendering\<close>

definition hex4 :: "nat \<Rightarrow> str" where
  "hex4 n = [hex_digit (n div 4096 mod 16), hex_digit (n div 256 mod 16),
             hex_digit (n div 16 mod 16), hex_digit (n mod 16)]"

definition escape_code :: "nat \<Rightarrow> str" where
  "escape_code n =
     (if n = 0x22 then [CHR 0x5C, CHR 0x22]
      else if n = 0x5C then [CHR 0x5C, CHR 0x5C]
      else if n = 0x0A then CHR 0x5C # ''n''
      else if n = 0x0D then CHR 0x5C # ''r''
      else if n = 0x09 then CHR 0x5C # ''t''
      else if n = 0x0C then CHR 0x5C # ''f''
      else if n = 0x08 then CHR 0x5C # ''b''
      else if 0x20 \<le> n \<and> n \<le> 0x7E then [char_of n]
      else if n < 0x10000 then CHR 0x5C # CHR ''u'' # hex4 n
      else (let v = n - 0x10000
            in CHR 0x5C # CHR ''u'' # hex4 (0xD800 + v div 1024)
               @ CHR 0x5C # CHR ''u'' # hex4 (0xDC00 + v mod 1024)))"

definition render_string :: "str \<Rightarrow> str" where
  "render_string s = CHR 0x22 # concat (map escape_code (utf8_decode s)) @ [CHR 0x22]"

fun render_float :: "pyfloat \<Rightarrow> str" where
  "render_float (Finite m e) = str_of_int m @ ''e'' @ str_of_int e"
| "render_float PosInf = ''Infinity''"
| "render_float NegInf = ''-Infinity''"
| "render_float NaN = ''NaN''"

fun render :: "json \<Rightarrow> str"
and render_items :: "json list \<Rightarrow> str"
and render_members :: "(str \<times> json) list \<Rightarrow> str" where
  "render JNull = ''null''"
| "render (JBool b) = (if b then ''true'' else ''false'')"
| "render (JInt i) = str_of_int i"
| "render (JFloat f) = render_float f"
| "render (JStr s) = render_string s"
| "render (JList js) = ''['' @ render_items js @ '']''"
| "render (JObj kvs) = ''{'' @ render_members kvs @ ''}''"
| "render_items [] = []"
| "render_items [j] = render j"
| "render_items (j # k # js) = render j @ '','' @ render_items (k # js)"
| "render_members [] = []"
| "render_members [(k, v)] = render_string k @ '':'' @ render v"
| "render_members ((k, v) # kv # kvs) =
     render_string k @ '':'' @ render v @ '','' @ render_members (kv # kvs)"

text \<open>\<open>sort_keys=True\<close>: every object's members in the order of their keys.\<close>

fun sort_json :: "json \<Rightarrow> json"
and sort_items :: "json list \<Rightarrow> json list"
and sort_members :: "(str \<times> json) list \<Rightarrow> (str \<times> json) list" where
  "sort_json (JList js) = JList (sort_items js)"
| "sort_json (JObj kvs) = JObj (sort_key fst (sort_members kvs))"
| "sort_json j = j"
| "sort_items [] = []"
| "sort_items (j # js) = sort_json j # sort_items js"
| "sort_members [] = []"
| "sort_members ((k, v) # kvs) = (k, sort_json v) # sort_members kvs"

definition canonical :: "json \<Rightarrow> bytes" where
  "canonical document = render (sort_json document)"

subsection \<open>Reading\<close>

definition is_json_space :: "char \<Rightarrow> bool" where
  "is_json_space c \<longleftrightarrow> c \<in> {CHR '' '', CHR 0x09, CHR 0x0A, CHR 0x0D}"

abbreviation skip :: "str \<Rightarrow> str" where
  "skip \<equiv> dropWhile is_json_space"

definition hex_val :: "char \<Rightarrow> nat option" where
  "hex_val c =
     (if is_digit c then Some (byte_of c - 48)
      else if CHR ''a'' \<le> c \<and> c \<le> CHR ''f'' then Some (byte_of c - 87)
      else if CHR ''A'' \<le> c \<and> c \<le> CHR ''F'' then Some (byte_of c - 55)
      else None)"

fun read_hex4 :: "str \<Rightarrow> (nat \<times> str) option" where
  "read_hex4 (a # b # c # d # s) =
     (case (hex_val a, hex_val b, hex_val c, hex_val d) of
        (Some w, Some x, Some y, Some z) \<Rightarrow> Some (((w * 16 + x) * 16 + y) * 16 + z, s)
      | _ \<Rightarrow> None)"
| "read_hex4 _ = None"

definition simple_escape :: "char \<Rightarrow> char option" where
  "simple_escape c =
     (if c \<in> {CHR 0x22, CHR 0x5C, CHR ''/''} then Some c
      else if c = CHR ''b'' then Some CHR 0x08
      else if c = CHR ''f'' then Some CHR 0x0C
      else if c = CHR ''n'' then Some CHR 0x0A
      else if c = CHR ''r'' then Some CHR 0x0D
      else if c = CHR ''t'' then Some CHR 0x09
      else None)"

text \<open>One escape, after its backslash: the bytes it stands for and what follows it.\<close>

definition read_escape :: "str \<Rightarrow> (str \<times> str) option" where
  "read_escape s =
     (case s of
        [] \<Rightarrow> None
      | c # s1 \<Rightarrow>
          if c = CHR ''u'' then
            (case read_hex4 s1 of
               None \<Rightarrow> None
             | Some (n, s2) \<Rightarrow>
                 if 0xD800 \<le> n \<and> n \<le> 0xDBFF then
                   (case s2 of
                      x # y # s3 \<Rightarrow>
                        if x = CHR 0x5C \<and> y = CHR ''u'' then
                          (case read_hex4 s3 of
                             Some (m, s4) \<Rightarrow>
                               if 0xDC00 \<le> m \<and> m \<le> 0xDFFF
                               then Some (utf8_encode (0x10000 + (n - 0xD800) * 1024 + (m - 0xDC00)), s4)
                               else Some (utf8_encode n, s2)
                           | None \<Rightarrow> Some (utf8_encode n, s2))
                        else Some (utf8_encode n, s2)
                    | _ \<Rightarrow> Some (utf8_encode n, s2))
                 else Some (utf8_encode n, s2))
          else (case simple_escape c of None \<Rightarrow> None | Some d \<Rightarrow> Some ([d], s1)))"

lemma read_hex4_shorter: "read_hex4 s = Some (n, r) \<Longrightarrow> length r < length s"
  by (induction s rule: read_hex4.induct) (auto split: option.splits)

lemma read_escape_shorter: "read_escape s = Some (d, r) \<Longrightarrow> length r < length s"
  by (auto simp: read_escape_def split: list.splits if_splits option.splits prod.splits
      dest!: read_hex4_shorter)

text \<open>A string's contents up to its closing quote. Control characters are not allowed in it.\<close>

function read_string :: "str \<Rightarrow> (str \<times> str) option" where
  "read_string s =
     (case s of
        [] \<Rightarrow> None
      | c # s1 \<Rightarrow>
          if c = CHR 0x22 then Some ([], s1)
          else if c = CHR 0x5C then
            (case read_escape s1 of
               None \<Rightarrow> None
             | Some (d, s2) \<Rightarrow>
                 (case read_string s2 of None \<Rightarrow> None | Some (t, r) \<Rightarrow> Some (d @ t, r)))
          else if byte_of c < 0x20 then None
          else (case read_string s1 of None \<Rightarrow> None | Some (t, r) \<Rightarrow> Some (c # t, r)))"
  by pat_completeness auto
termination
  by (relation "measure length") (auto dest: read_escape_shorter)

declare read_string.simps [simp del]

lemma read_string_shorter: "read_string s = Some (t, r) \<Longrightarrow> length r < length s"
proof (induction "length s" arbitrary: s t r rule: less_induct)
  case (less s)
  then obtain c s1 where s: "s = c # s1"
    by (subst (asm) read_string.simps) (auto split: list.splits)
  note eq = less.prems [unfolded s read_string.simps [of "c # s1"], simplified]
  consider "c = CHR 0x22" | "c = CHR 0x5C" | "c \<noteq> CHR 0x22" "c \<noteq> CHR 0x5C" by blast
  then show ?case
  proof cases
    case 1
    with eq s show ?thesis by simp
  next
    case 2
    with eq obtain d s2 t' where e: "read_escape s1 = Some (d, s2)" "read_string s2 = Some (t', r)"
      by (auto split: option.splits)
    from read_escape_shorter [OF e(1)] s less.hyps [OF _ e(2)] show ?thesis by simp
  next
    case 3
    with eq obtain t' where e: "read_string s1 = Some (t', r)"
      by (auto split: option.splits if_splits)
    from s less.hyps [OF _ e] show ?thesis by simp
  qed
qed

definition FLOAT_OVERFLOW :: int where
  "FLOAT_OVERFLOW = 2 ^ 1024 - 2 ^ 970"

definition float_of :: "int \<Rightarrow> int \<Rightarrow> pyfloat" where
  "float_of m e =
     (if (if 0 \<le> e then \<bar>m\<bar> * 10 ^ nat e \<ge> FLOAT_OVERFLOW else \<bar>m\<bar> \<ge> FLOAT_OVERFLOW * 10 ^ nat (- e))
      then (if m < 0 then NegInf else PosInf) else Finite m e)"

abbreviation digits :: "str \<Rightarrow> str" where
  "digits \<equiv> takeWhile is_digit"

abbreviation after_digits :: "str \<Rightarrow> str" where
  "after_digits \<equiv> dropWhile is_digit"

definition read_fraction :: "str \<Rightarrow> str \<times> str" where
  "read_fraction s =
     (case s of
        c # s1 \<Rightarrow> if c = CHR ''.'' \<and> digits s1 \<noteq> [] then (digits s1, after_digits s1) else ([], s)
      | [] \<Rightarrow> ([], s))"

definition read_exponent :: "str \<Rightarrow> int option \<times> str" where
  "read_exponent s =
     (case s of
        c # s1 \<Rightarrow>
          if c = CHR ''e'' \<or> c = CHR ''E'' then
            (let neg = (s1 \<noteq> [] \<and> hd s1 = CHR ''-'');
                 s2 = (if s1 \<noteq> [] \<and> (hd s1 = CHR ''-'' \<or> hd s1 = CHR ''+'') then tl s1 else s1);
                 n = int (nat_of_digits (digits s2))
             in if digits s2 = [] then (None, s) else (Some (if neg then - n else n), after_digits s2))
          else (None, s)
      | [] \<Rightarrow> (None, s))"

text \<open>A number after its sign: a zero or digits that do not begin with one, then the rest.\<close>

definition read_number :: "bool \<Rightarrow> str \<Rightarrow> (json \<times> str) option" where
  "read_number neg s =
     (case s of
        [] \<Rightarrow> None
      | c # s1 \<Rightarrow>
          if \<not> is_digit c then None
          else
            (let whole = (if c = CHR ''0'' then ''0'' else digits s);
                 s2 = (if c = CHR ''0'' then s1 else after_digits s)
             in case read_fraction s2 of (frac, s3) \<Rightarrow>
                case read_exponent s3 of (ex, s4) \<Rightarrow>
                  (let m = int (nat_of_digits (whole @ frac));
                       v = (if neg then - m else m)
                   in if frac = [] \<and> ex = None then Some (JInt v, s4)
                      else Some (JFloat (float_of v ((case ex of None \<Rightarrow> 0 | Some x \<Rightarrow> x) - int (length frac))), s4))))"

fun strip_prefix :: "str \<Rightarrow> str \<Rightarrow> str option" where
  "strip_prefix [] s = Some s"
| "strip_prefix (p # ps) [] = None"
| "strip_prefix (p # ps) (c # s) = (if p = c then strip_prefix ps s else None)"

fun first_some :: "'a option list \<Rightarrow> 'a option" where
  "first_some [] = None"
| "first_some (None # xs) = first_some xs"
| "first_some (Some x # xs) = Some x"

definition read_literal :: "str \<Rightarrow> (json \<times> str) option" where
  "read_literal s =
     first_some (map (\<lambda>(word, value). map_option (\<lambda>r. (value, r)) (strip_prefix word s))
       [(''null'', JNull), (''true'', JBool True), (''false'', JBool False), (''NaN'', JFloat NaN),
        (''Infinity'', JFloat PosInf), (''-Infinity'', JFloat NegInf)])"

definition read_atom :: "str \<Rightarrow> (json \<times> str) option" where
  "read_atom s =
     (case read_literal s of
        Some r \<Rightarrow> Some r
      | None \<Rightarrow>
          (case s of
             [] \<Rightarrow> None
           | c # s1 \<Rightarrow>
               if c = CHR 0x22 then map_option (\<lambda>(t, r). (JStr t, r)) (read_string s1)
               else if c = CHR ''-'' then read_number True s1
               else read_number False s))"

fun read_value :: "nat \<Rightarrow> str \<Rightarrow> (json \<times> str) option"
and read_items :: "nat \<Rightarrow> str \<Rightarrow> (json list \<times> str) option"
and read_members :: "nat \<Rightarrow> str \<Rightarrow> ((str \<times> json) list \<times> str) option" where
  "read_value 0 s = None"
| "read_value (Suc f) s =
     (case s of
        [] \<Rightarrow> None
      | c # s1 \<Rightarrow>
          if c = CHR ''['' then
            (case skip s1 of
               [] \<Rightarrow> None
             | d # r \<Rightarrow>
                 if d = CHR '']'' then Some (JList [], r)
                 else map_option (\<lambda>(js, r). (JList js, r)) (read_items f (d # r)))
          else if c = CHR ''{'' then
            (case skip s1 of
               [] \<Rightarrow> None
             | d # r \<Rightarrow>
                 if d = CHR ''}'' then Some (JObj [], r)
                 else map_option (\<lambda>(kvs, r). (JObj (foldl (\<lambda>d (k, v). dict_set k v d) [] kvs), r))
                        (read_members f (d # r)))
          else read_atom s)"
| "read_items 0 s = None"
| "read_items (Suc f) s =
     (case read_value f s of
        None \<Rightarrow> None
      | Some (j, r) \<Rightarrow>
          (case skip r of
             [] \<Rightarrow> None
           | c # r1 \<Rightarrow>
               if c = CHR '']'' then Some ([j], r1)
               else if c = CHR '','' then
                 map_option (\<lambda>(js, r2). (j # js, r2)) (read_items f (skip r1))
               else None))"
| "read_members 0 s = None"
| "read_members (Suc f) s =
     (case s of
        [] \<Rightarrow> None
      | q # s1 \<Rightarrow>
          if q \<noteq> CHR 0x22 then None
          else
            (case read_string s1 of
               None \<Rightarrow> None
             | Some (k, r) \<Rightarrow>
                 (case skip r of
                    [] \<Rightarrow> None
                  | c # r1 \<Rightarrow>
                      if c \<noteq> CHR '':'' then None
                      else
                        (case read_value f (skip r1) of
                           None \<Rightarrow> None
                         | Some (v, r2) \<Rightarrow>
                             (case skip r2 of
                                [] \<Rightarrow> None
                              | e # r3 \<Rightarrow>
                                  if e = CHR ''}'' then Some ([(k, v)], r3)
                                  else if e = CHR '','' then
                                    map_option (\<lambda>(kvs, r4). ((k, v) # kvs, r4)) (read_members f (skip r3))
                                  else None)))))"

definition json_loads_str :: "str \<Rightarrow> json res" where
  "json_loads_str s =
     (case read_value (2 * length s + 2) (skip s) of
        None \<Rightarrow> Inl JSONDecodeError
      | Some (j, r) \<Rightarrow> if skip r = [] then Inr j else Inl JSONDecodeError)"

text \<open>\<open>json.loads\<close> of bytes decodes first (\<open>parse_document\<close>), and \<open>parse_object\<close> wants an object.\<close>

definition parse_document :: "bytes \<Rightarrow> json res" where
  "parse_document payload =
     (if utf8_ok False payload then json_loads_str payload else Inl UnicodeDecodeError)"

definition parse_object :: "bytes \<Rightarrow> (str, json) dict res" where
  "parse_object payload =
     rbind (parse_document payload)
       (\<lambda>loaded. case loaded of JObj d \<Rightarrow> Inr d | _ \<Rightarrow> Inl ValueError)"

end
