(* ===== verification/JsonProps.thy ===== *)
theory JsonProps
  imports PyJson
begin

section \<open>Reading back what was rendered\<close>

text \<open>
  The round trip of the canonical rendering: \<open>canonical_roundtrip\<close> says that the bytes of a
  document whose strings are ASCII and that holds no float read back as the document with its
  keys sorted. With it, \<open>json_fuel_enough\<close>: the reader never stops for want of fuel.
\<close>

subsection \<open>Strings\<close>

lemma byte_of_char_of [simp]: "n < 256 \<Longrightarrow> byte_of (char_of n) = n"
  by (simp add: byte_of_def)

lemma char_of_byte_of [simp]: "char_of (byte_of c) = c"
  by (simp add: byte_of_def)

lemma byte_of_inject: "byte_of c = byte_of d \<longleftrightarrow> c = d"
  by (simp add: byte_of_def)

lemma byte_of_less [simp]: "byte_of c < 256"
  by (simp add: byte_of_def)

lemma hex_val_digit: "n < 16 \<Longrightarrow> hex_val (hex_digit n) = Some n"
  by (auto simp: hex_val_def hex_digit_def is_digit_def less_eq_char_def byte_of_def)

lemma read_hex4_hex4:
  assumes "n < 65536"
  shows "read_hex4 (hex4 n @ s) = Some (n, s)"
proof -
  have d: "n div 256 = n div 16 div 16" "n div 4096 = n div 16 div 16 div 16"
    by (simp_all flip: div_mult2_eq)
  have "n div 16 div 16 div 16 < 16" using assms by (simp flip: div_mult2_eq)
  then show ?thesis by (simp add: hex4_def hex_val_digit d)
qed

lemma read_string_quote [simp]: "read_string (CHR 0x22 # s) = Some ([], s)"
  by (subst read_string.simps) simp

lemma read_string_plain:
  "c \<noteq> CHR 0x22 \<Longrightarrow> c \<noteq> CHR 0x5C \<Longrightarrow> 0x20 \<le> byte_of c \<Longrightarrow>
     read_string (c # s) = map_option (\<lambda>(t, r). (c # t, r)) (read_string s)"
  by (subst read_string.simps) (auto split: option.splits)

lemma read_string_escape:
  "read_escape s = Some (d, s2) \<Longrightarrow>
     read_string (CHR 0x5C # s) = map_option (\<lambda>(t, r). (d @ t, r)) (read_string s2)"
  by (subst read_string.simps) (auto split: option.splits)

lemma read_escape_simple:
  "simple_escape c = Some d \<Longrightarrow> read_escape (c # s) = Some ([d], s)"
  by (auto simp: read_escape_def simple_escape_def split: if_splits)

lemma read_escape_hex4:
  "n < 0xD800 \<Longrightarrow> read_escape (CHR ''u'' # hex4 n @ s) = Some (utf8_encode n, s)"
  by (simp add: read_escape_def read_hex4_hex4)

lemma read_string_escape_code:
  assumes "n < 128"
  shows "read_string (escape_code n @ s) = map_option (\<lambda>(t, r). (char_of n # t, r)) (read_string s)"
proof -
  consider "n \<in> {0x22, 0x5C, 0x0A, 0x0D, 0x09, 0x0C, 0x08}"
    | "n \<noteq> 0x22" "n \<noteq> 0x5C" "0x20 \<le> n" "n \<le> 0x7E"
    | "n \<notin> {0x22, 0x5C, 0x0A, 0x0D, 0x09, 0x0C, 0x08}" "\<not> (0x20 \<le> n \<and> n \<le> 0x7E)"
    by force
  then show ?thesis
  proof cases
    case 1
    then show ?thesis
      by (auto simp: escape_code_def read_string_escape read_escape_simple simple_escape_def
          char_of_def bit_0)
  next
    case 2
    have "char_of n \<noteq> CHR 0x22" "char_of n \<noteq> CHR 0x5C"
      using 2 assms by (auto simp: byte_of_inject [symmetric] byte_of_def)
    with 2 show ?thesis
      by (simp add: escape_code_def read_string_plain)
  next
    case 3
    then have "escape_code n = CHR 0x5C # CHR ''u'' # hex4 n"
      using assms by (auto simp: escape_code_def)
    with assms show ?thesis
      by (simp add: read_string_escape read_escape_hex4 utf8_encode_def)
  qed
qed

lemma read_string_render:
  assumes "list_all is_ascii s"
  shows "read_string (concat (map escape_code (utf8_decode s)) @ CHR 0x22 # rest) = Some (s, rest)"
  unfolding utf8_decode_ascii [OF assms] using assms
  by (induction s) (simp_all add: is_ascii_def read_string_escape_code)

subsection \<open>Numbers and words\<close>

definition stops :: "str \<Rightarrow> bool" where
  "stops s \<longleftrightarrow> s = [] \<or> hd s \<in> {CHR '','', CHR '']'', CHR ''}'', CHR 0x0A}"

lemma stops_simps [simp]:
  "stops []" "stops (CHR '','' # s)" "stops (CHR '']'' # s)" "stops (CHR ''}'' # s)" "stops (CHR 0x0A # s)"
  by (simp_all add: stops_def)

lemma digits_append_stops:
  assumes "\<forall>c \<in> set a. is_digit c" "stops rest"
  shows "takeWhile is_digit (a @ rest) = a" "dropWhile is_digit (a @ rest) = rest"
proof -
  have "rest = [] \<or> \<not> is_digit (hd rest)" using assms(2) by (auto simp: stops_def is_digit_def)
  with assms(1) show "takeWhile is_digit (a @ rest) = a" "dropWhile is_digit (a @ rest) = rest"
    by (cases rest; force simp: takeWhile_append2 dropWhile_append2)+
qed

lemma read_fraction_stops: "stops rest \<Longrightarrow> read_fraction rest = ([], rest)"
  by (cases rest) (auto simp: read_fraction_def stops_def)

lemma read_exponent_stops: "stops rest \<Longrightarrow> read_exponent rest = (None, rest)"
  by (cases rest) (auto simp: read_exponent_def stops_def)

lemma str_of_nat_0: "str_of_nat 0 = ''0''"
  by (subst str_of_nat.simps) (simp add: digit_char_def char_of_def bit_0)

lemma read_number_nat:
  assumes "stops rest"
  shows "read_number neg (str_of_nat n @ rest) = Some (JInt (if neg then - int n else int n), rest)"
proof (cases "n = 0")
  case True
  with assms show ?thesis
    by (simp add: str_of_nat_0 read_number_def is_digit_def read_fraction_stops read_exponent_stops
        nat_of_digits_def digit_val_def)
next
  case False
  obtain c s where cs: "str_of_nat n = c # s" by (cases "str_of_nat n") auto
  have "is_digit c" using cs str_of_nat_digits [of c n] by simp
  moreover have "c \<noteq> CHR ''0''" using False cs str_of_nat_not_zero_led [of n] by simp
  moreover have "takeWhile is_digit (c # s @ rest) = c # s" "dropWhile is_digit (c # s @ rest) = rest"
    using digits_append_stops [of "c # s" rest] assms str_of_nat_digits [of _ n] cs by auto
  moreover have "nat_of_digits (c # s) = n" using cs by (metis nat_of_str_of_nat)
  ultimately show ?thesis
    by (simp add: cs read_number_def read_fraction_stops read_exponent_stops assms assms)
qed

lemma hd_str_of_int:
  obtains c s where "str_of_int i = c # s" "is_digit c \<or> c = CHR ''-'' \<and> s \<noteq> [] \<and> is_digit (hd s)"
proof -
  have d: "is_digit (hd (str_of_nat n))" for n
    by (rule str_of_nat_digits [of _ n]) simp
  show ?thesis
  proof (cases "i < 0")
    case True
    then show ?thesis using that d by (auto simp: str_of_int_def)
  next
    case False
    with d [of "nat i"] show ?thesis
      using that by (cases "str_of_nat (nat i)") (auto simp: str_of_int_def)
  qed
qed

lemma strip_prefix_other: "p \<noteq> c \<Longrightarrow> strip_prefix (p # ps) (c # s) = None"
  by simp

lemma read_literal_none:
  assumes "is_digit c \<or> c = CHR 0x22 \<or> c = CHR ''-'' \<and> s \<noteq> [] \<and> is_digit (hd s)"
  shows "read_literal (c # s) = None"
proof -
  have no: "\<not> is_digit CHR ''n''" "\<not> is_digit CHR ''t''" "\<not> is_digit CHR ''f''" "\<not> is_digit CHR ''N''"
    "\<not> is_digit CHR ''I''"
    by (simp_all add: is_digit_def)
  with assms have c: "c \<noteq> CHR ''n''" "c \<noteq> CHR ''t''" "c \<noteq> CHR ''f''" "c \<noteq> CHR ''N''" "c \<noteq> CHR ''I''"
    by auto
  have "c = CHR ''-'' \<Longrightarrow> strip_prefix ''Infinity'' s = None"
    using assms no by (cases s) (auto simp: is_digit_def)
  then have "strip_prefix ''-Infinity'' (c # s) = None" by simp
  with c show ?thesis by (simp add: read_literal_def strip_prefix_other [OF not_sym])
qed

lemma read_atom_int:
  assumes "stops rest"
  shows "read_atom (str_of_int i @ rest) = Some (JInt i, rest)"
proof -
  obtain c s where cs: "str_of_int i = c # s"
    "is_digit c \<or> c = CHR ''-'' \<and> s \<noteq> [] \<and> is_digit (hd s)" by (rule hd_str_of_int)
  from cs(2) have "read_literal (c # s @ rest) = None" by (intro read_literal_none) auto
  with cs(1) have l: "read_literal (str_of_int i @ rest) = None" by simp
  show ?thesis
  proof (cases "i < 0")
    case True
    with l show ?thesis
      by (simp add: read_atom_def str_of_int_def read_number_nat [OF assms])
  next
    case False
    with cs(1) have "c \<in> set (str_of_nat (nat i))" by (simp add: str_of_int_def)
    then have c: "is_digit c" by (rule str_of_nat_digits)
    then have "c \<noteq> CHR 0x22" "c \<noteq> CHR ''-''" by (auto simp: is_digit_def)
    moreover have "read_number False (c # s @ rest) = Some (JInt i, rest)"
      using read_number_nat [OF assms, of False "nat i"] False cs(1) by (simp add: str_of_int_def)
    ultimately show ?thesis using l cs(1) by (simp add: read_atom_def)
  qed
qed

subsection \<open>The round trip\<close>

fun plain_json :: "json \<Rightarrow> bool"
and plain_items :: "json list \<Rightarrow> bool"
and plain_members :: "(str \<times> json) list \<Rightarrow> bool" where
  "plain_json (JFloat f) = False"
| "plain_json (JStr s) = list_all is_ascii s"
| "plain_json (JList js) = plain_items js"
| "plain_json (JObj kvs) = (distinct (map fst kvs) \<and> plain_members kvs)"
| "plain_json j = True"
| "plain_items [] = True"
| "plain_items (j # js) = (plain_json j \<and> plain_items js)"
| "plain_members [] = True"
| "plain_members ((k, v) # kvs) = (list_all is_ascii k \<and> plain_json v \<and> plain_members kvs)"

lemma foldl_dict_set_distinct:
  "distinct (map fst (d @ kvs)) \<Longrightarrow> foldl (\<lambda>d (k, v). dict_set k v d) d kvs = d @ kvs"
proof (induction kvs arbitrary: d)
  case Nil
  then show ?case by simp
next
  case (Cons kv kvs)
  obtain k v where kv: "kv = (k, v)" by (cases kv)
  with Cons.prems have "map_of d k = None" by (auto simp: map_of_eq_None_iff)
  with Cons kv show ?case by (simp add: dict_set_new)
qed

lemma render_head:
  "plain_json j \<Longrightarrow> \<exists>c s. render j = c # s \<and> \<not> is_json_space c \<and> c \<notin> {CHR '']'', CHR ''}'', CHR '',''}"
proof (cases j)
  case (JInt i)
  obtain c s where "str_of_int i = c # s" "is_digit c \<or> c = CHR ''-''"
    using hd_str_of_int by metis
  with JInt show ?thesis by (auto simp: is_json_space_def is_digit_def)
qed (auto simp: render_string_def is_json_space_def)

lemma skip_render: "plain_json j \<Longrightarrow> skip (render j @ r) = render j @ r"
  using render_head [of j] by auto

lemma json_stop_space [simp]:
  "\<not> is_json_space CHR '',''" "\<not> is_json_space CHR '']''" "\<not> is_json_space CHR ''}''"
  "\<not> is_json_space CHR '':''" "\<not> is_json_space CHR 0x22"
  by (simp_all add: is_json_space_def)

lemma skip_stop:
  "skip (CHR '','' # r) = CHR '','' # r" "skip (CHR '']'' # r) = CHR '']'' # r"
  "skip (CHR ''}'' # r) = CHR ''}'' # r" "skip (CHR '':'' # r) = CHR '':'' # r"
  "skip (CHR 0x22 # r) = CHR 0x22 # r"
  by (simp_all add: is_json_space_def)

lemma read_atom_string:
  "list_all is_ascii s \<Longrightarrow> read_atom (render_string s @ rest) = Some (JStr s, rest)"
  by (simp add: render_string_def read_atom_def read_literal_none read_string_render)

lemma read_atom_value:
  "c \<noteq> CHR ''['' \<Longrightarrow> c \<noteq> CHR ''{'' \<Longrightarrow> read_value (Suc f) (c # s) = read_atom (c # s)"
  by simp

lemma read_literals:
  "read_atom (''null'' @ r) = Some (JNull, r)"
  "read_atom (''true'' @ r) = Some (JBool True, r)"
  "read_atom (''false'' @ r) = Some (JBool False, r)"
  by (simp_all add: read_atom_def read_literal_def)

lemma render_items_head:
  assumes "js \<noteq> []" "plain_items js"
  shows "\<exists>c s. render_items js @ r = c # s \<and> \<not> is_json_space c \<and> c \<noteq> CHR '']''"
proof -
  obtain j js' where js: "js = j # js'" using assms(1) by (cases js) auto
  with assms(2) render_head [of j] obtain c s where
    "render j = c # s" "\<not> is_json_space c" "c \<noteq> CHR '']''" by auto
  with js show ?thesis by (cases js') auto
qed

lemma render_members_head: "kvs \<noteq> [] \<Longrightarrow> \<exists>s. render_members kvs @ r = CHR 0x22 # s"
  by (cases kvs rule: render_members.cases) (auto simp: render_string_def)

lemma read_render:
  "plain_json j \<Longrightarrow> stops rest \<Longrightarrow> length (render j) \<le> f \<Longrightarrow>
     read_value f (render j @ rest) = Some (j, rest)"
  "js \<noteq> [] \<Longrightarrow> plain_items js \<Longrightarrow> length (render_items js) < f \<Longrightarrow>
     read_items f (render_items js @ CHR '']'' # rest) = Some (js, rest)"
  "kvs \<noteq> [] \<Longrightarrow> plain_members kvs \<Longrightarrow> length (render_members kvs) < f \<Longrightarrow>
     read_members f (render_members kvs @ CHR ''}'' # rest) = Some (kvs, rest)"
proof (induction j and js and kvs arbitrary: rest f and rest f and rest f
    rule: render_render_items_render_members.induct)
  case 1
  then show ?case using read_literals(1) [of rest] by (cases f) simp_all
next
  case (2 b)
  then show ?case using read_literals(2,3) [of rest] by (cases b; cases f) auto
next
  case (3 i)
  obtain c s where cs: "str_of_int i = c # s" "is_digit c \<or> c = CHR ''-''"
    using hd_str_of_int by metis
  then have "c \<noteq> CHR ''[''" "c \<noteq> CHR ''{''" by (auto simp: is_digit_def)
  with cs(1) "3.prems" show ?case
    using read_atom_int [OF "3.prems"(2), of i] by (cases f) auto
next
  case (4 x)
  then show ?case by simp
next
  case (5 s)
  then show ?case using read_atom_string [of s rest]
    by (cases f) (auto simp: render_string_def)
next
  case (6 js)
  then obtain f' where f: "f = Suc f'" by (cases f) auto
  show ?case
  proof (cases "js = []")
    case True
    then show ?thesis by (simp add: f)
  next
    case False
    then have *: "read_items f' (render_items js @ CHR '']'' # rest) = Some (js, rest)"
      using 6 f by auto
    from "6.prems"(1) have "plain_items js" by simp
    from render_items_head [OF False this] obtain c s where
      "render_items js @ CHR '']'' # rest = c # s" "\<not> is_json_space c" "c \<noteq> CHR '']''" by metis
    with * show ?thesis by (simp add: f)
  qed
next
  case (7 kvs)
  then obtain f' where f: "f = Suc f'" by (cases f) auto
  show ?case
  proof (cases "kvs = []")
    case True
    then show ?thesis by (simp add: f)
  next
    case False
    then have *: "read_members f' (render_members kvs @ CHR ''}'' # rest) = Some (kvs, rest)"
      using 7 f by auto
    from render_members_head [OF False] obtain s where
      "render_members kvs @ CHR ''}'' # rest = CHR 0x22 # s" by auto
    with * 7 show ?thesis by (simp add: f foldl_dict_set_distinct [of "[]", simplified])
  qed
next
  case 8
  then show ?case by simp
next
  case (9 j)
  then obtain f' where f: "f = Suc f'" by (cases f) auto
  with 9 have "read_value f' (render j @ CHR '']'' # rest) = Some (j, CHR '']'' # rest)" by simp
  then show ?case by (simp add: f)
next
  case (10 j k js)
  then obtain f' where f: "f = Suc f'" by (cases f) auto
  with 10 have "read_value f' (render j @ CHR '','' # render_items (k # js) @ CHR '']'' # rest)
      = Some (j, CHR '','' # render_items (k # js) @ CHR '']'' # rest)" by simp
  moreover have "skip (render_items (k # js) @ CHR '']'' # rest) = render_items (k # js) @ CHR '']'' # rest"
    using render_items_head [of "k # js" "CHR '']'' # rest"] 10 by auto
  moreover have "read_items f' (render_items (k # js) @ CHR '']'' # rest) = Some (k # js, rest)"
    using 10 f by simp
  ultimately show ?case by (simp add: f)
next
  case 11
  then show ?case by simp
next
  case (12 k v)
  then obtain f' where f: "f = Suc f'" by (cases f) auto
  with 12 have "read_value f' (render v @ CHR ''}'' # rest) = Some (v, CHR ''}'' # rest)" by simp
  with 12 show ?case by (simp add: f render_string_def read_string_render skip_render)
next
  case (13 k v kv kvs)
  then obtain f' where f: "f = Suc f'" by (cases f) auto
  with 13 have "read_value f' (render v @ CHR '','' # render_members (kv # kvs) @ CHR ''}'' # rest)
      = Some (v, CHR '','' # render_members (kv # kvs) @ CHR ''}'' # rest)" by simp
  moreover have "skip (render_members (kv # kvs) @ CHR ''}'' # rest) = render_members (kv # kvs) @ CHR ''}'' # rest"
    using render_members_head [of "kv # kvs" "CHR ''}'' # rest"] by auto
  moreover have "read_members f' (render_members (kv # kvs) @ CHR ''}'' # rest) = Some (kv # kvs, rest)"
    using 13 f by simp
  ultimately show ?case
    using 13 by (simp add: f render_string_def read_string_render skip_render)
qed

subsection \<open>Canonical documents\<close>

lemma plain_members_all:
  "plain_members kvs \<longleftrightarrow> (\<forall>(k, v) \<in> set kvs. list_all is_ascii k \<and> plain_json v)"
  by (induction kvs rule: plain_json_plain_items_plain_members.induct(3)
      [of "\<lambda>_. True" "\<lambda>_. True"]) auto

lemma keys_sort_members: "map fst (sort_members kvs) = map fst kvs"
  by (induction kvs) auto

lemma plain_sort_json:
  "plain_json j \<Longrightarrow> plain_json (sort_json j)"
  "plain_items js \<Longrightarrow> plain_items (sort_items js)"
  "plain_members kvs \<Longrightarrow> plain_members (sort_members kvs)"
proof (induction j and js and kvs rule: sort_json_sort_items_sort_members.induct)
  case (2 kvs)
  have "distinct (map fst (sort_key fst (sort_members kvs)))"
    using "2.prems" by (simp add: distinct_map keys_sort_members inj_on_def)
      (metis distinct_map keys_sort_members inj_on_def)
  with 2 show ?case by (simp add: plain_members_all)
qed auto

text \<open>A rendering is printable ASCII: it holds no line break and decodes as it stands.\<close>

definition is_printable :: "char \<Rightarrow> bool" where
  "is_printable c \<longleftrightarrow> 0x20 \<le> byte_of c \<and> byte_of c < 0x80"

lemma printable_ascii: "list_all is_printable s \<Longrightarrow> list_all is_ascii s"
  by (auto simp: list_all_iff is_printable_def is_ascii_def)

lemma printable_literal [simp]:
  "is_printable (Char b0 b1 b2 b3 b4 b5 b6 b7) \<longleftrightarrow> (b5 \<or> b6) \<and> \<not> b7"
  by (cases b0; cases b1; cases b2; cases b3; cases b4; cases b5; cases b6; cases b7;
      simp add: is_printable_def byte_of_def)

lemma printable_hex_digit: "n < 16 \<Longrightarrow> is_printable (hex_digit n)"
  by (auto simp: hex_digit_def is_printable_def)

lemma printable_hex4: "list_all is_printable (hex4 n)"
  by (simp add: hex4_def printable_hex_digit)

lemma printable_escape_code: "n < 128 \<Longrightarrow> list_all is_printable (escape_code n)"
  by (simp add: escape_code_def printable_hex4) (simp add: is_printable_def)

lemma printable_render_string: "list_all is_ascii s \<Longrightarrow> list_all is_printable (render_string s)"
  by (simp add: render_string_def utf8_decode_ascii)
    (auto simp: list_all_iff is_ascii_def dest!: printable_escape_code)

lemma printable_render:
  "plain_json j \<Longrightarrow> list_all is_printable (render j)"
  "plain_items js \<Longrightarrow> list_all is_printable (render_items js)"
  "plain_members kvs \<Longrightarrow> list_all is_printable (render_members kvs)"
proof (induction j and js and kvs rule: render_render_items_render_members.induct)
  case (3 i)
  have "is_digit c \<Longrightarrow> is_printable c" for c
    by (simp add: is_digit_def is_printable_def byte_of_def less_eq_char_def)
  then show ?case
    by (auto simp: str_of_int_def list_all_iff dest: str_of_nat_digits)
qed (auto simp: printable_render_string)

lemma ascii_render: "plain_json j \<Longrightarrow> list_all is_ascii (render j)"
  by (rule printable_ascii) (rule printable_render)

lemma read_value_canonical:
  assumes "plain_json document"
  shows "parse_document (canonical document) = Inr (sort_json document)"
proof -
  have p: "plain_json (sort_json document)" using assms by (rule plain_sort_json)
  have "skip (render (sort_json document)) = render (sort_json document)"
    using skip_render [OF p, of "[]"] by simp
  moreover have "read_value (2 * length (render (sort_json document)) + 2) (render (sort_json document))
      = Some (sort_json document, [])"
    using read_render(1) [OF p stops_simps(1)] by (simp del: read_value.simps)
  ultimately have "json_loads_str (render (sort_json document)) = Inr (sort_json document)"
    by (simp add: json_loads_str_def)
  then show ?thesis
    by (simp add: parse_document_def canonical_def utf8_ok_ascii [OF ascii_render [OF p]])
qed

text \<open>The same with a line end after it, as a file that is one document has.\<close>

lemma parse_document_line:
  assumes "plain_json document"
  shows "parse_document (canonical document @ [CHR 0x0A]) = Inr (sort_json document)"
proof -
  let ?r = "render (sort_json document)"
  have p: "plain_json (sort_json document)" using assms by (rule plain_sort_json)
  have "skip (?r @ [CHR 0x0A]) = ?r @ [CHR 0x0A]" by (rule skip_render [OF p])
  moreover have "read_value (2 * length (?r @ [CHR 0x0A]) + 2) (?r @ [CHR 0x0A]) = Some (sort_json document, [CHR 0x0A])"
    using read_render(1) [OF p stops_simps(5)] by (simp del: read_value.simps)
  moreover have "is_json_space CHR 0x0A" by (simp add: is_json_space_def)
  ultimately have "json_loads_str (?r @ [CHR 0x0A]) = Inr (sort_json document)"
    by (simp add: json_loads_str_def del: read_value.simps)
  moreover have "list_all is_ascii (?r @ [CHR 0x0A])"
    using ascii_render [OF p] by (simp add: is_ascii_def byte_of_def)
  ultimately show ?thesis
    by (simp add: parse_document_def canonical_def utf8_ok_ascii)
qed

lemma canonical_printable: "plain_json document \<Longrightarrow> list_all is_printable (canonical document)"
  unfolding canonical_def by (intro printable_render plain_sort_json)

lemma canonical_nonempty: "plain_json document \<Longrightarrow> canonical document \<noteq> []"
  using render_head [OF plain_sort_json(1)] unfolding canonical_def by fastforce

lemma canonical_no_newline:
  assumes "plain_json document"
  shows "CHR 0x0A \<notin> set (canonical document)"
  using canonical_printable [OF assms] by (auto simp: list_all_iff dest!: bspec)

text \<open>A text without quotes, backslashes and control characters is rendered as it is.\<close>

lemma render_string_plain:
  assumes "list_all (\<lambda>c. is_printable c \<and> c \<noteq> CHR 0x22 \<and> c \<noteq> CHR 0x5C \<and> c \<noteq> CHR 0x7F) s"
  shows "render_string s = CHR 0x22 # s @ [CHR 0x22]"
proof -
  have "escape_code (byte_of c) = [c]"
    if c: "is_printable c" "c \<noteq> CHR 0x22" "c \<noteq> CHR 0x5C" "c \<noteq> CHR 0x7F" for c
  proof -
    have "byte_of c \<noteq> 0x22" "byte_of c \<noteq> 0x5C" "byte_of c \<noteq> 0x7F"
      using c(2-4) byte_of_inject [of c "CHR 0x22"] byte_of_inject [of c "CHR 0x5C"]
        byte_of_inject [of c "CHR 0x7F"] by (simp_all add: byte_of_def)
    with c(1) show ?thesis by (auto simp: escape_code_def is_printable_def)
  qed
  then have "concat (map escape_code (map byte_of s)) = s"
    using assms by (induction s) auto
  moreover have "list_all is_ascii s"
    using assms by (auto simp: list_all_iff is_printable_def is_ascii_def)
  ultimately show ?thesis by (simp add: render_string_def utf8_decode_ascii)
qed

text \<open>A sorted object answers the look-ups of the object it was made from.\<close>

lemma map_of_sort_members: "map_of (sort_members kvs) k = map_option sort_json (map_of kvs k)"
  by (induction kvs) auto

subsection \<open>The reader's fuel\<close>

lemma strip_prefix_shorter: "strip_prefix p s = Some r \<Longrightarrow> length r + length p = length s"
  by (induction p s rule: strip_prefix.induct) (auto split: if_splits)

lemma first_some_Some: "first_some xs = Some x \<Longrightarrow> Some x \<in> set xs"
  by (induction xs rule: first_some.induct) auto

lemma read_literal_shorter: "read_literal s = Some (j, r) \<Longrightarrow> length r < length s"
  unfolding read_literal_def
  by (drule first_some_Some) (auto simp del: strip_prefix.simps dest!: strip_prefix_shorter sym [of "Some _"])

lemma read_fraction_length: "read_fraction s = (d, r) \<Longrightarrow> length r \<le> length s"
  by (auto simp: read_fraction_def length_dropWhile_le le_SucI split: list.splits if_splits)

lemma read_exponent_length: "read_exponent s = (d, r) \<Longrightarrow> length r \<le> length s"
  by (auto simp: read_exponent_def Let_def le_SucI split: list.splits if_splits
      intro: le_trans [OF length_dropWhile_le] le_SucI)

lemma read_number_shorter:
  assumes "read_number neg s = Some (j, r)"
  shows "length r < length s"
proof -
  from assms obtain c s1 where s: "s = c # s1" "is_digit c"
    by (auto simp: read_number_def split: list.splits if_splits)
  define s2 where "s2 = (if c = CHR ''0'' then s1 else after_digits s)"
  obtain d s3 where f: "read_fraction s2 = (d, s3)" by (cases "read_fraction s2")
  obtain x s4 where e: "read_exponent s3 = (x, s4)" by (cases "read_exponent s3")
  have "length s2 \<le> length s1" using s by (simp add: s2_def length_dropWhile_le)
  moreover have "r = s4"
    using assms s f e by (auto simp: read_number_def s2_def Let_def split: if_splits)
  ultimately show ?thesis
    using s read_fraction_length [OF f] read_exponent_length [OF e] by simp
qed

lemma read_atom_shorter: "read_atom s = Some (j, r) \<Longrightarrow> length r < length s"
  by (auto simp: read_atom_def le_SucI less_SucI split: option.splits list.splits if_splits
      dest: read_literal_shorter read_number_shorter read_string_shorter)

lemma skip_length: "skip s = r \<Longrightarrow> length r \<le> length s"
  using length_dropWhile_le by blast

lemma read_shorter:
  "read_value f s = Some (j, r) \<Longrightarrow> length r < length s"
  "read_items f s = Some (js, r) \<Longrightarrow> length r < length s"
  "read_members f s = Some (kvs, r) \<Longrightarrow> length r < length s"
proof (induction f arbitrary: s j js kvs r)
  case 0
  { case 1 then show ?case by simp next case 2 then show ?case by simp next case 3 then show ?case by simp }
next
  case (Suc f)
  { case 1
    then obtain c s1 where s: "s = c # s1" by (cases s) auto
    consider "read_atom s = Some (j, r)" | "skip s1 = CHR '']'' # r" | "skip s1 = CHR ''}'' # r"
      | d r1 js where "skip s1 = d # r1" "read_items f (d # r1) = Some (js, r)"
      | d r1 kvs where "skip s1 = d # r1" "read_members f (d # r1) = Some (kvs, r)"
      using 1 s by (auto split: if_splits list.splits)
    then show ?case
    proof cases
      case 4
      from Suc.IH(2) [OF 4(2)] skip_length [OF 4(1)] s show ?thesis by simp
    next
      case 5
      from Suc.IH(3) [OF 5(2)] skip_length [OF 5(1)] s show ?thesis by simp
    qed (use s in \<open>auto dest: read_atom_shorter skip_length\<close>)
  next
    case 2
    then obtain j r1 c r2 where v: "read_value f s = Some (j, r1)" "skip r1 = c # r2"
      by (auto split: option.splits list.splits)
    note shorter = Suc.IH(1) [OF v(1)] skip_length [OF v(2)]
    have "r = r2 \<or> (\<exists>js. read_items f (skip r2) = Some (js, r))"
      using 2 v by (auto split: if_splits)
    then show ?case
      using shorter skip_length [OF refl, of r2] by (auto dest: Suc.IH(2))
  next
    case 3
    then obtain q s1 k r0 c r1 v r2 e r3 where m: "s = q # s1" "read_string s1 = Some (k, r0)"
      "skip r0 = c # r1" "read_value f (skip r1) = Some (v, r2)" "skip r2 = e # r3"
      by (auto split: option.splits list.splits if_splits)
    note shorter = read_string_shorter [OF m(2)] skip_length [OF m(3)] Suc.IH(1) [OF m(4)]
      skip_length [OF refl, of r1] skip_length [OF m(5)]
    have "r = r3 \<or> (\<exists>kvs. read_members f (skip r3) = Some (kvs, r))"
      using 3 m by (auto split: if_splits)
    then show ?case
      using shorter skip_length [OF refl, of r3] m(1) by (auto dest: Suc.IH(3))
  }
qed

lemma fuel_irrelevant:
  "2 * length s < f \<Longrightarrow> 2 * length s < g \<Longrightarrow> read_value f s = read_value g s"
  "2 * length s + 1 < f \<Longrightarrow> 2 * length s + 1 < g \<Longrightarrow> read_items f s = read_items g s"
  "2 * length s + 1 < f \<Longrightarrow> 2 * length s + 1 < g \<Longrightarrow> read_members f s = read_members g s"
proof (induction f arbitrary: s g)
  case 0
  { case 1 then show ?case by simp next case 2 then show ?case by simp next case 3 then show ?case by simp }
next
  case (Suc f)
  { case 1
    then obtain g' where g: "g = Suc g'" by (cases g) auto
    have inner: "read_items f r = read_items g' r" "read_members f r = read_members g' r"
      if "skip s1 = r" "s = c # s1" for c s1 r
      using that skip_length [OF that(1)] 1 g by (auto intro: Suc.IH)
    show ?case
    proof (cases s)
      case (Cons c s1)
      then show ?thesis
        by (cases "skip s1") (simp_all only: read_value.simps g list.case inner [OF _ Cons])
    qed (simp add: g)
  next
    case 2
    then obtain g' where g: "g = Suc g'" by (cases g) auto
    have v: "read_value f s = read_value g' s" using 2 g by (intro Suc.IH) auto
    have "read_items f (skip r2) = read_items g' (skip r2)"
      if "read_value g' s = Some (j, r1)" "skip r1 = c # r2" for j r1 c r2
      using that read_shorter(1) [OF that(1)] skip_length [OF that(2)] skip_length [OF refl, of r2] 2 g
      by (intro Suc.IH) auto
    then show ?case
      by (auto simp: g v simp del: dropWhile_eq_Nil_conv split: option.splits list.splits)
  next
    case 3
    then obtain g' where g: "g = Suc g'" by (cases g) auto
    have v: "read_value f (skip r1) = read_value g' (skip r1)"
      if "s = q # s1" "read_string s1 = Some (k, r0)" "skip r0 = c # r1" for q s1 k r0 c r1
      using that read_string_shorter [OF that(2)] skip_length [OF that(3)] skip_length [OF refl, of r1] 3 g
      by (intro Suc.IH) auto
    have "read_members f (skip r3) = read_members g' (skip r3)"
      if "s = q # s1" "read_string s1 = Some (k, r0)" "skip r0 = c # r1"
        "read_value g' (skip r1) = Some (x, r2)" "skip r2 = e # r3" for q s1 k r0 c r1 x r2 e r3
      using that read_string_shorter [OF that(2)] skip_length [OF that(3)] skip_length [OF refl, of r1]
        read_shorter(1) [OF that(4)] skip_length [OF that(5)] skip_length [OF refl, of r3] 3 g
      by (intro Suc.IH) auto
    with v show ?case
      by (auto simp: g simp del: dropWhile_eq_Nil_conv split: option.splits list.splits)
  }
qed

text \<open>More fuel than the reader starts with changes nothing.\<close>

lemma json_fuel_enough:
  "2 * length s + 2 \<le> f \<Longrightarrow> read_value f (skip s) = read_value (2 * length s + 2) (skip s)"
  using skip_length [OF refl, of s] by (intro fuel_irrelevant) auto

subsection \<open>Identifiers are plain text\<close>

lemma hex_is_ascii: "is_hex c \<Longrightarrow> is_ascii c"
  by (auto simp: is_hex_def is_digit_def is_ascii_def byte_of_def less_eq_char_def)

lemma digest_ascii: "digest_ok d \<Longrightarrow> list_all is_ascii (digest_hex d)"
  by (auto simp: digest_ok_def list_all_iff hex_is_ascii)

lemma name_ascii: "dotted_name_ok n \<Longrightarrow> list_all is_ascii (name_value n)"
  using dotted_name_chars [of "name_value n"]
  by (auto simp: dotted_name_ok_def list_all_iff is_alnum_def is_lower_def is_digit_def is_ascii_def
      byte_of_def less_eq_char_def)

lemma identifier_ascii: "hex_identifier_ok i \<Longrightarrow> list_all is_ascii (identifier_value i)"
  by (auto simp: hex_identifier_ok_def list_all_iff hex_is_ascii)

end
