(* ===== verification/WriteOnce.thy ===== *)
theory WriteOnce
  imports ApexPrelude
begin

section \<open>The write-once interface\<close>

text \<open>
  A store in which a key is written once: the registry of declared units and the facts of a run
  are both one. \<open>get\<close> and \<open>put\<close> are the operations, \<open>accepts\<close> what a store satisfies while it
  still takes entries. The lemmas say what a sequence of writes leaves behind: every entry
  written, every earlier entry unchanged, whatever order the writes came in, and a refusal
  exactly when a key is written twice.
\<close>

locale write_once =
  fixes get :: "'m \<Rightarrow> 'k \<Rightarrow> 'v option"
    and put :: "'m \<Rightarrow> 'k \<times> 'v \<Rightarrow> 'e + 'm"
    and accepts :: "'m \<Rightarrow> bool"
  assumes put_get: "accepts m \<Longrightarrow> put m (k, v) = Inr m' \<Longrightarrow> get m k = None \<and> get m' = (get m)(k \<mapsto> v)"
    and put_accepts: "accepts m \<Longrightarrow> put m kv = Inr m' \<Longrightarrow> accepts m'"
    and put_free: "accepts m \<Longrightarrow> get m k = None \<Longrightarrow> \<exists>m'. put m (k, v) = Inr m'"
begin

lemma puts_spec:
  "accepts m \<Longrightarrow> rfold put m kvs = Inr m' \<Longrightarrow>
     distinct (map fst kvs) \<and> (\<forall>k \<in> set (map fst kvs). get m k = None)
   \<and> get m' = get m ++ map_of kvs \<and> accepts m'"
proof (induction kvs arbitrary: m)
  case Nil
  then show ?case by simp
next
  case (Cons kv kvs)
  obtain k v where kv: "kv = (k, v)" by (cases kv)
  with Cons.prems obtain m1 where m1: "put m (k, v) = Inr m1" "rfold put m1 kvs = Inr m'"
    by (auto simp: rbind_eq_Inr)
  note get1 = put_get [OF Cons.prems(1) m1(1)]
  note rest = Cons.IH [OF put_accepts [OF Cons.prems(1) m1(1)] m1(2)]
  have "k \<notin> set (map fst kvs)" using rest get1 by (auto split: if_splits)
  then have "map_of kvs k = None" by (simp add: map_of_eq_None_iff)
  then have "get m' = get m ++ (map_of kvs)(k \<mapsto> v)"
    using rest get1 by (auto simp: map_add_def fun_eq_iff split: option.splits)
  then have "get m' = get m ++ map_of (kv # kvs)" by (simp add: kv)
  moreover have "distinct (map fst (kv # kvs))" "\<forall>j \<in> set (map fst (kv # kvs)). get m j = None"
    using rest get1 kv \<open>k \<notin> _\<close> by (auto split: if_splits)
  ultimately show ?case using rest by blast
qed

lemma puts_get: "accepts m \<Longrightarrow> rfold put m kvs = Inr m' \<Longrightarrow> get m' = get m ++ map_of kvs"
  using puts_spec by blast

lemma puts_accepts: "accepts m \<Longrightarrow> rfold put m kvs = Inr m' \<Longrightarrow> accepts m'"
  using puts_spec by blast

lemma puts_keep: "accepts m \<Longrightarrow> rfold put m kvs = Inr m' \<Longrightarrow> get m \<subseteq>\<^sub>m get m'"
  using puts_spec [of m kvs m']
  by (auto simp: map_le_def map_add_def split: option.splits dest: map_of_SomeD)

lemma puts_total:
  "accepts m \<Longrightarrow> distinct (map fst kvs) \<Longrightarrow> \<forall>k \<in> set (map fst kvs). get m k = None \<Longrightarrow>
     \<exists>m'. rfold put m kvs = Inr m'"
proof (induction kvs arbitrary: m)
  case Nil
  then show ?case by simp
next
  case (Cons kv kvs)
  obtain k v where kv: "kv = (k, v)" by (cases kv)
  with Cons.prems put_free obtain m1 where m1: "put m (k, v) = Inr m1" by fastforce
  have "\<forall>k \<in> set (map fst kvs). get m1 k = None"
    using put_get [OF Cons.prems(1) m1] Cons.prems kv by auto
  with Cons.IH [OF put_accepts [OF Cons.prems(1) m1]] Cons.prems kv m1 show ?case by auto
qed

lemma puts_iff:
  "accepts m \<Longrightarrow>
     (\<exists>m'. rfold put m kvs = Inr m') \<longleftrightarrow>
       distinct (map fst kvs) \<and> (\<forall>k \<in> set (map fst kvs). get m k = None)"
  using puts_spec puts_total by blast

lemma puts_permuted:
  assumes "accepts m" "rfold put m kvs = Inr m1" "set kvs = set kvs'" "distinct (map fst kvs')"
  shows "\<exists>m2. rfold put m kvs' = Inr m2 \<and> get m2 = get m1"
proof -
  note s1 = puts_spec [OF assms(1,2)]
  have "set (map fst kvs') = set (map fst kvs)" using assms(3) by simp
  then have "\<forall>k \<in> set (map fst kvs'). get m k = None" using s1 by simp
  then obtain m2 where m2: "rfold put m kvs' = Inr m2" using puts_total [OF assms(1,4)] by blast
  have "map_of kvs' = map_of kvs"
    using s1 assms(3,4) by (simp add: map_of_inject_set)
  with s1 puts_get [OF assms(1) m2] m2 show ?thesis by auto
qed

end

end
