(* ===== verification/Registry.thy ===== *)
theory Registry
  imports WriteOnce Claims Identifiers
begin

section \<open>The registries (registry/)\<close>

text \<open>
  A registry is open while unit modules are imported and sealed before anything is looked up
  (registry.py); a casebook is one registry filled by discovery on first use (casebook.py). Keys
  are the strings the program registers under. The open registry implements the write-once
  interface, so what it holds does not depend on the order units were registered in, and the
  sealed one is the same list whatever that order was.
\<close>

subsection \<open>provenance.py\<close>

record provenance =
  prov_module :: str
  prov_qualname :: str
  prov_line :: int

definition provenance_str :: "provenance \<Rightarrow> str" where
  "provenance_str p = prov_module p @ ''.'' @ prov_qualname p @ '' at line '' @ str_of_int (prov_line p)"

subsection \<open>registry.py\<close>

record 'v sealed_registry =
  sealed_kind :: str
  sealed_entries :: "(str, 'v) dict"
  sealed_origins :: "(str, provenance) dict"

definition sealed_lookup :: "'v sealed_registry \<Rightarrow> str \<Rightarrow> 'v res" where
  "sealed_lookup r key = of_option RegistrationError (map_of (sealed_entries r) key)"

definition sealed_contains :: "'v sealed_registry \<Rightarrow> str \<Rightarrow> bool" where
  "sealed_contains r key = dict_has (sealed_entries r) key"

definition sealed_iter :: "'v sealed_registry \<Rightarrow> str list" where
  "sealed_iter r = map fst (sealed_entries r)"

definition sealed_len :: "'v sealed_registry \<Rightarrow> nat" where
  "sealed_len r = length (sealed_entries r)"

definition sealed_provenance :: "'v sealed_registry \<Rightarrow> str \<Rightarrow> provenance res" where
  "sealed_provenance r key = of_option KeyError (map_of (sealed_origins r) key)"

definition sealed_values :: "'v sealed_registry \<Rightarrow> 'v list" where
  "sealed_values r = map snd (sealed_entries r)"

definition sealed_items :: "'v sealed_registry \<Rightarrow> (str \<times> 'v) list" where
  "sealed_items r = sealed_entries r"

record 'v registry =
  reg_kind :: str
  reg_entries :: "(str, 'v) dict"
  reg_origins :: "(str, provenance) dict"
  reg_sealed :: bool

definition registry_new :: "str \<Rightarrow> 'v registry" where
  "registry_new kind = \<lparr>reg_kind = kind, reg_entries = [], reg_origins = [], reg_sealed = False\<rparr>"

definition registry_add :: "'v registry \<Rightarrow> str \<Rightarrow> 'v \<Rightarrow> provenance \<Rightarrow> 'v registry res" where
  "registry_add r key v at =
     (if reg_sealed r then Inl RegistrationError
      else if map_of (reg_origins r) key \<noteq> None then Inl RegistrationError
      else Inr (r\<lparr>reg_entries := dict_set key v (reg_entries r),
                  reg_origins := dict_set key at (reg_origins r)\<rparr>))"

definition registry_lookup :: "'v registry \<Rightarrow> str \<Rightarrow> 'v res" where
  "registry_lookup r key = Inl RegistrationError"

definition registry_seal :: "'v registry \<Rightarrow> ('v sealed_registry \<times> 'v registry) res" where
  "registry_seal r =
     (if reg_sealed r then Inl RegistrationError
      else
        (let ordered = sort_key fst (reg_entries r)
         in rbind (rmapM (\<lambda>key. map_sum id (\<lambda>p. (key, p)) (of_option KeyError (map_of (reg_origins r) key)))
                     (map fst ordered))
              (\<lambda>origins. Inr (\<lparr>sealed_kind = reg_kind r, sealed_entries = ordered, sealed_origins = origins\<rparr>,
                              r\<lparr>reg_sealed := True\<rparr>))))"

text \<open>What an open registry keeps true, and the interface it implements.\<close>

definition registry_ok :: "'v registry \<Rightarrow> bool" where
  "registry_ok r \<longleftrightarrow>
     distinct (map fst (reg_entries r)) \<and> map fst (reg_origins r) = map fst (reg_entries r)"

definition registry_get :: "'v registry \<Rightarrow> str \<Rightarrow> ('v \<times> provenance) option" where
  "registry_get r key =
     (case (map_of (reg_entries r) key, map_of (reg_origins r) key) of
        (Some v, Some p) \<Rightarrow> Some (v, p)
      | _ \<Rightarrow> None)"

definition registry_put :: "'v registry \<Rightarrow> str \<times> ('v \<times> provenance) \<Rightarrow> 'v registry res" where
  "registry_put r kv = (case kv of (key, v, at) \<Rightarrow> registry_add r key v at)"

lemma registry_new_ok [simp]: "registry_ok (registry_new kind)" "\<not> reg_sealed (registry_new kind)"
  by (simp_all add: registry_ok_def registry_new_def)

lemma registry_get_new [simp]: "registry_get (registry_new kind) = Map.empty"
  by (simp add: registry_get_def registry_new_def fun_eq_iff)

lemma registry_keys_agree:
  "registry_ok r \<Longrightarrow> map_of (reg_origins r) k = None \<longleftrightarrow> map_of (reg_entries r) k = None"
  by (simp add: registry_ok_def map_of_eq_None_iff flip: set_map)

lemma registry_add_ok: "registry_ok r \<Longrightarrow> registry_add r k v p = Inr r' \<Longrightarrow> registry_ok r'"
  by (auto simp: registry_add_def registry_ok_def keys_dict_set distinct_dict_set split: if_splits)

interpretation rw: write_once registry_get registry_put "\<lambda>r. registry_ok r \<and> \<not> reg_sealed r"
proof
  fix r r' :: "'v registry" and k :: str and v :: "'v \<times> provenance" and kv
  assume ok: "registry_ok r \<and> \<not> reg_sealed r"
  obtain x p where v: "v = (x, p)" by (cases v)
  { assume "registry_put r (k, v) = Inr r'"
    with ok v show "registry_get r k = None \<and> registry_get r' = (registry_get r)(k \<mapsto> v)"
      using registry_keys_agree [of r k]
      by (auto simp: registry_put_def registry_add_def registry_get_def fun_eq_iff
          split: if_splits option.splits) }
  { assume "registry_put r kv = Inr r'"
    with ok show "registry_ok r' \<and> \<not> reg_sealed r'"
      by (auto simp: registry_put_def split: prod.splits dest: registry_add_ok)
        (auto simp: registry_add_def split: if_splits) }
  { assume "registry_get r k = None"
    with ok v show "\<exists>r'. registry_put r (k, v) = Inr r'"
      using registry_keys_agree [of r k]
      by (auto simp: registry_put_def registry_add_def registry_get_def split: option.splits) }
qed

lemma registry_seal_ok:
  assumes "registry_ok r" "\<not> reg_sealed r"
  shows "registry_seal r =
    Inr (\<lparr>sealed_kind = reg_kind r, sealed_entries = sort_key fst (reg_entries r),
          sealed_origins = map (\<lambda>k. (k, the (map_of (reg_origins r) k))) (map fst (sort_key fst (reg_entries r)))\<rparr>,
         r\<lparr>reg_sealed := True\<rparr>)"
proof -
  have known: "map_of (reg_origins r) k \<noteq> None" if "k \<in> set (map fst (sort_key fst (reg_entries r)))" for k
    using that registry_keys_agree [OF assms(1), of k] by (auto simp: map_of_eq_None_iff)
  then have "of_option KeyError (map_of (reg_origins r) k) = Inr (the (map_of (reg_origins r) k))"
    if "k \<in> set (map fst (sort_key fst (reg_entries r)))" for k
    using known [OF that] by (cases "map_of (reg_origins r) k") simp_all
  then have "rmapM (\<lambda>key. map_sum id (\<lambda>p. (key, p)) (of_option KeyError (map_of (reg_origins r) key)))
      (map fst (sort_key fst (reg_entries r)))
    = Inr (map (\<lambda>k. (k, the (map_of (reg_origins r) k))) (map fst (sort_key fst (reg_entries r))))"
    by (intro rmapM_Inr_map) simp
  with assms(2) show ?thesis by (simp add: registry_seal_def Let_def)
qed

text \<open>Two registries with the same entries seal alike.\<close>

lemma registry_get_entries: "registry_ok r \<Longrightarrow> map_of (reg_entries r) = map_option fst \<circ> registry_get r"
  using registry_keys_agree [of r]
  by (auto simp: registry_get_def fun_eq_iff split: option.splits)

lemma registry_get_origins: "registry_ok r \<Longrightarrow> map_of (reg_origins r) = map_option snd \<circ> registry_get r"
  using registry_keys_agree [of r]
  by (auto simp: registry_get_def fun_eq_iff split: option.splits)

lemma seal_same:
  assumes "registry_ok r" "registry_ok s" "\<not> reg_sealed r" "\<not> reg_sealed s"
    and "registry_get r = registry_get s" "reg_kind r = reg_kind s"
  shows "map_sum id fst (registry_seal r) = map_sum id fst (registry_seal s)"
proof -
  have "sort_key fst (reg_entries r) = sort_key fst (reg_entries s)"
    using assms by (intro sort_items_unique) (auto simp: registry_ok_def registry_get_entries)
  with assms show ?thesis by (simp add: registry_seal_ok registry_get_origins)
qed

lemma registry_puts_kind: "rfold registry_put r kvs = Inr r' \<Longrightarrow> reg_kind r' = reg_kind r"
  by (erule rfold_invariant)
    (auto simp: registry_put_def registry_add_def split: prod.splits if_splits)

lemma sealed_lookup_seal:
  assumes "registry_ok r" "registry_seal r = Inr (s, r')"
  shows "sealed_lookup s k = of_option RegistrationError (map_option fst (registry_get r k))"
proof -
  have "\<not> reg_sealed r" using assms(2) by (auto simp: registry_seal_def)
  with assms have "sealed_entries s = sort_key fst (reg_entries r)"
    by (auto simp: registry_seal_ok)
  with assms(1) show ?thesis
    by (simp add: sealed_lookup_def map_of_sort_key registry_ok_def) (simp add: assms(1) registry_get_entries)
qed

subsection \<open>descriptors.py\<close>

definition HARDWARE_GROUP :: str where "HARDWARE_GROUP = ''hardware''"

definition PERMITTED_PROOF_KINDS :: "str list" where
  "PERMITTED_PROOF_KINDS = [''.txt'', ''.log'', ''.json'', ''.png'', ''.ppm'', ''.xml'']"

record check_spec =
  spec_id :: check_id
  spec_group :: str
  spec_environment :: environment_kind
  spec_summary :: str
  spec_accepted_proof_kinds :: "str list"
  spec_scope_limits :: "str list"
  spec_sourced_from :: str

definition mk_check_spec :: "check_spec \<Rightarrow> check_spec res" where
  "mk_check_spec s =
     (if \<not> list_all (\<lambda>k. k \<in> set PERMITTED_PROOF_KINDS) (spec_accepted_proof_kinds s) then Inl RegistrationError
      else if spec_summary s = [] then Inl RegistrationError
      else if spec_environment s = SIMULATED then Inl RegistrationError
      else if spec_group s = HARDWARE_GROUP \<and> spec_environment s \<noteq> PHYSICAL then Inl RegistrationError
      else Inr s)"

lemma mk_check_spec_Inr:
  "mk_check_spec s = Inr s' \<longleftrightarrow>
     s' = s \<and> set (spec_accepted_proof_kinds s) \<subseteq> set PERMITTED_PROOF_KINDS \<and> spec_summary s \<noteq> []
   \<and> spec_environment s \<in> ATTESTABLE
   \<and> (spec_group s = HARDWARE_GROUP \<longrightarrow> spec_environment s = PHYSICAL)"
  by (auto simp: mk_check_spec_def list_all_iff)

subsection \<open>decorators.py and manifest.py\<close>

type_synonym collector = "check_spec registry"

definition collector_check :: "collector \<Rightarrow> check_spec \<Rightarrow> provenance \<Rightarrow> collector res" where
  "collector_check c s at = registry_add c (name_value (spec_id s)) s at"

subsection \<open>discovery.py\<close>

text \<open>
  \<open>packages\<close> stands for the import system: the names of the modules of a package, or \<open>None\<close> when
  there is no such package. The second result lists the modules in the order they are imported.
\<close>

definition module_names :: "(str \<Rightarrow> str list option) \<Rightarrow> str \<Rightarrow> str list" where
  "module_names packages ns =
     (case packages ns of
        None \<Rightarrow> []
      | Some items \<Rightarrow> sort (map (\<lambda>i. ns @ ''.'' @ i) (filter (\<lambda>i. \<not> starts_with i ''_'') items)))"

definition import_order :: "(str \<Rightarrow> str list option) \<Rightarrow> str list \<Rightarrow> str list" where
  "import_order packages namespaces = concat (map (module_names packages) (sort namespaces))"

definition discover :: "(str \<Rightarrow> str list option) \<Rightarrow> str list \<Rightarrow> str list" where
  "discover packages namespaces = sort (import_order packages namespaces)"

lemma import_order_permuted:
  "mset xs = mset ys \<Longrightarrow> import_order p xs = import_order p ys"
  by (simp add: import_order_def sort_permuted [of xs ys])

subsection \<open>casebook.py\<close>

text \<open>
  \<open>imported\<close> is the effect of discovery on the collector: importing the package's modules runs
  their declarations. A casebook is sealed the first time it is read.
\<close>

record 'c casebook =
  book_collector :: "'c registry"
  book_sealed :: "'c sealed_registry option"

definition casebook_new :: "str \<Rightarrow> 'c casebook" where
  "casebook_new kind = \<lparr>book_collector = registry_new kind, book_sealed = None\<rparr>"

definition casebook_declare ::
  "('c \<Rightarrow> str) \<Rightarrow> 'c casebook \<Rightarrow> 'c \<Rightarrow> provenance \<Rightarrow> 'c casebook res" where
  "casebook_declare key b c at =
     rbind (registry_add (book_collector b) (key c) c at)
       (\<lambda>r. Inr (b\<lparr>book_collector := r\<rparr>))"

definition casebook_sealed ::
  "('c casebook \<Rightarrow> 'c casebook res) \<Rightarrow> 'c casebook \<Rightarrow> ('c sealed_registry \<times> 'c casebook) res" where
  "casebook_sealed imported b =
     (case book_sealed b of
        Some s \<Rightarrow> Inr (s, b)
      | None \<Rightarrow>
          rbind (imported b) (\<lambda>b'.
          rbind (registry_seal (book_collector b')) (\<lambda>(s, r).
            Inr (s, b'\<lparr>book_collector := r, book_sealed := Some s\<rparr>))))"

definition casebook_registered ::
  "('c casebook \<Rightarrow> 'c casebook res) \<Rightarrow> 'c casebook \<Rightarrow> ('c list \<times> 'c casebook) res" where
  "casebook_registered imported b =
     rbind (casebook_sealed imported b)
       (\<lambda>(s, b'). Inr (map snd (sort_key fst (sealed_items s)), b'))"

definition casebook_lookup ::
  "('c casebook \<Rightarrow> 'c casebook res) \<Rightarrow> 'c casebook \<Rightarrow> str \<Rightarrow> ('c \<times> 'c casebook) res" where
  "casebook_lookup imported b name =
     rbind (casebook_sealed imported b)
       (\<lambda>(s, b'). if \<not> sealed_contains s name then Inl (Refusal UNIT_UNKNOWN)
                  else map_sum id (\<lambda>c. (c, b')) (sealed_lookup s name))"

text \<open>Once sealed, a casebook answers from the same sealed registry whatever is asked.\<close>

lemma casebook_sealed_once:
  "casebook_sealed imported b = Inr (s, b') \<Longrightarrow> casebook_sealed imported' b' = Inr (s, b')"
  by (auto simp: casebook_sealed_def result_simps split: option.splits)

lemma casebook_lookup_sealed:
  assumes "book_sealed b = Some s"
  shows "casebook_lookup imported b name =
    (case map_of (sealed_entries s) name of
       None \<Rightarrow> Inl (Refusal UNIT_UNKNOWN) | Some c \<Rightarrow> Inr (c, b))"
  using assms
  by (auto simp: casebook_lookup_def casebook_sealed_def sealed_contains_def sealed_lookup_def
      dict_has_iff split: option.splits)

end
