(* ===== verification/Indented.thy ===== *)
theory Indented
  imports PyJson Registry
begin

section \<open>Documents a person reads (kernel/encoding.py, registry/manifest.py)\<close>

text \<open>
  \<open>json.dumps\<close> with an indent: every element on a line of its own, its keys sorted. The manifest
  of the registered checks is such a document, over the sealed registry of the collector.
\<close>

definition new_line :: "nat \<Rightarrow> str" where
  "new_line width = CHR 0x0A # replicate width CHR '' ''"

fun indented :: "nat \<Rightarrow> nat \<Rightarrow> json \<Rightarrow> str"
and indented_items :: "nat \<Rightarrow> nat \<Rightarrow> json list \<Rightarrow> str"
and indented_members :: "nat \<Rightarrow> nat \<Rightarrow> (str \<times> json) list \<Rightarrow> str" where
  "indented ind width (JList []) = ''[]''"
| "indented ind width (JList (j # js)) =
     ''['' @ new_line (width + ind) @ indented_items ind (width + ind) (j # js) @ new_line width @ '']''"
| "indented ind width (JObj []) = ''{}''"
| "indented ind width (JObj (kv # kvs)) =
     ''{'' @ new_line (width + ind) @ indented_members ind (width + ind) (kv # kvs) @ new_line width @ ''}''"
| "indented ind width j = render j"
| "indented_items ind width [] = []"
| "indented_items ind width [j] = indented ind width j"
| "indented_items ind width (j # k # js) =
     indented ind width j @ '','' @ new_line width @ indented_items ind width (k # js)"
| "indented_members ind width [] = []"
| "indented_members ind width [(k, v)] = render_string k @ '': '' @ indented ind width v"
| "indented_members ind width ((k, v) # kv # kvs) =
     render_string k @ '': '' @ indented ind width v @ '','' @ new_line width
       @ indented_members ind width (kv # kvs)"

definition readable :: "json \<Rightarrow> str" where
  "readable document = indented 2 0 (sort_json document)"

definition MANIFEST_VERSION :: int where "MANIFEST_VERSION = 1"

definition check_row :: "check_spec sealed_registry \<Rightarrow> str \<times> check_spec \<Rightarrow> json res" where
  "check_row checks = (\<lambda>(key, spec).
     rbind (sealed_provenance checks key) (\<lambda>at. Inr (JObj
       [(''id'', JStr key), (''group'', JStr (spec_group spec)),
        (''environment'', JStr (environment_value (spec_environment spec))),
        (''summary'', JStr (spec_summary spec)),
        (''module'', JStr (prov_module at)), (''qualname'', JStr (prov_qualname at)),
        (''line'', JInt (prov_line at))])))"

definition manifest_render :: "collector \<Rightarrow> (json \<times> collector) res" where
  "manifest_render c =
     rbind (registry_seal c) (\<lambda>(checks, c').
     rbind (rmapM (check_row checks) (sealed_items checks)) (\<lambda>rows.
       Inr (JObj [(''manifest_version'', JInt MANIFEST_VERSION), (''checks'', JList rows)], c')))"

definition serialise :: "json \<Rightarrow> str" where
  "serialise document = indented 1 0 (sort_json document) @ [CHR 0x0A]"

text \<open>Two collectors that declared the same checks, in any order, render the same manifest.\<close>

lemma manifest_same:
  assumes "registry_ok a" "registry_ok b" "\<not> reg_sealed b"
    and same: "registry_get a = registry_get b" "reg_kind a = reg_kind b"
    and rendered: "manifest_render a = Inr (doc, a')"
  shows "\<exists>b'. manifest_render b = Inr (doc, b')"
proof -
  from rendered obtain checks a1 where s: "registry_seal a = Inr (checks, a1)"
    by (auto simp: manifest_render_def result_simps)
  then have open_a: "\<not> reg_sealed a" by (auto simp: registry_seal_def)
  have "map_sum id fst (registry_seal b) = Inr checks"
    using seal_same [OF assms(1,2) open_a assms(3) same] s by simp
  then obtain b1 where "registry_seal b = Inr (checks, b1)"
    by (cases "registry_seal b") auto
  with rendered s show ?thesis by (auto simp: manifest_render_def result_simps)
qed

end
