(* ===== verification/Graph.thy ===== *)
theory Graph
  imports Errors WriteOnce
begin

section \<open>Deriving an execution order (registry/graph.py)\<close>

text \<open>
  \<open>order\<close> computes who writes each fact, from that what each unit waits for, and from that an
  order by Kahn's algorithm in rounds: the units waiting for nothing, sorted by name, then the
  rest without them. The lemmas show that an order found is a permutation of the units in which
  every unit comes after all it waits for, that none is found exactly when some set of units
  waits on itself, and that the order does not depend on how the units were listed.
\<close>

subsection \<open>The code\<close>

record node =
  node_id :: str
  node_reads :: "str set"
  node_writes :: "str set"

definition claim_fact :: "str \<Rightarrow> (str, str) dict \<Rightarrow> str \<Rightarrow> (str, str) dict res" where
  "claim_fact owner producers f =
     (if map_of producers f \<noteq> None then Inl RegistrationError
      else Inr (dict_set f owner producers))"

definition claim_node :: "(str, str) dict \<Rightarrow> node \<Rightarrow> (str, str) dict res" where
  "claim_node producers n = rfold (claim_fact (node_id n)) producers (sorted_list_of_set (node_writes n))"

definition producers_of :: "node list \<Rightarrow> (str, str) dict res" where
  "producers_of nodes = rfold claim_node [] (sort_key node_id nodes)"

definition need_fact ::
  "(str, str) dict \<Rightarrow> str \<Rightarrow> (str, str set) dict \<Rightarrow> str \<Rightarrow> (str, str set) dict res" where
  "need_fact producers name deps f =
     (case map_of producers f of
        None \<Rightarrow> Inl RegistrationError
      | Some producer \<Rightarrow>
          if producer \<noteq> name
          then (case map_of deps name of
                  None \<Rightarrow> Inl KeyError
                | Some needs \<Rightarrow> Inr (dict_set name (insert producer needs) deps))
          else Inr deps)"

definition dependencies_of ::
  "node list \<Rightarrow> (str, str) dict \<Rightarrow> str set \<Rightarrow> (str, str set) dict res" where
  "dependencies_of nodes producers seeds =
     rfold (\<lambda>deps n. rfold (need_fact producers (node_id n)) deps
              (sorted_list_of_set (node_reads n - seeds)))
       (foldl (\<lambda>deps n. dict_set (node_id n) {} deps) [] nodes) nodes"

definition ready_names :: "(str, str set) dict \<Rightarrow> str list" where
  "ready_names remaining = sort (map fst (filter (\<lambda>(name, needs). needs = {}) remaining))"

definition without_ready :: "str list \<Rightarrow> (str, str set) dict \<Rightarrow> (str, str set) dict" where
  "without_ready ready remaining =
     map (\<lambda>(name, needs). (name, needs - set ready))
       (filter (\<lambda>(name, needs). name \<notin> set ready) remaining)"

function topological :: "(str, str set) dict \<Rightarrow> str list \<Rightarrow> str list res" where
  "topological remaining resolved =
     (if remaining = [] then Inr resolved
      else
        (let ready = ready_names remaining
         in if ready = [] then Inl RegistrationError
            else topological (without_ready ready remaining) (resolved @ ready)))"
  by pat_completeness auto

lemma set_ready_names: "set (ready_names remaining) = {k. (k, {}) \<in> set remaining}"
  by (force simp: ready_names_def)

lemma ready_names_empty: "ready_names remaining = [] \<longleftrightarrow> (\<forall>(k, needs) \<in> set remaining. needs \<noteq> {})"
  using set_ready_names [of remaining] by (cases "ready_names remaining") auto

lemma without_ready_shorter:
  assumes "ready_names remaining \<noteq> []"
  shows "length (without_ready (ready_names remaining) remaining) < length remaining"
proof -
  from assms obtain k where k: "k \<in> set (ready_names remaining)" by (meson last_in_set)
  then have "(k, {}) \<in> set remaining" by (simp add: set_ready_names)
  with k show ?thesis
    by (auto simp: without_ready_def intro!: length_filter_less)
qed

termination topological
  by (relation "measure (\<lambda>(remaining, resolved). length remaining)") (use without_ready_shorter in auto)

declare topological.simps [simp del]

definition order_of :: "node list \<Rightarrow> str set \<Rightarrow> str list res" where
  "order_of nodes seeds =
     rbind (producers_of nodes) (\<lambda>producers.
     rbind (dependencies_of nodes producers seeds) (\<lambda>dependencies.
       topological dependencies []))"

subsection \<open>One round\<close>

lemma topological_step:
  "remaining \<noteq> [] \<Longrightarrow> ready_names remaining \<noteq> [] \<Longrightarrow>
     topological remaining resolved
       = topological (without_ready (ready_names remaining) remaining) (resolved @ ready_names remaining)"
  by (subst topological.simps) (simp add: Let_def)

lemma topological_nil [simp]: "topological [] resolved = Inr resolved"
  by (subst topological.simps) simp

lemma topological_stuck:
  "remaining \<noteq> [] \<Longrightarrow> ready_names remaining = [] \<Longrightarrow> topological remaining resolved = Inl RegistrationError"
  by (subst topological.simps) (simp add: Let_def)

lemma keys_without_ready:
  "map fst (without_ready ready remaining) = filter (\<lambda>k. k \<notin> set ready) (map fst remaining)"
  by (induction remaining) (auto simp: without_ready_def)

lemma map_of_without_ready:
  "map_of (without_ready ready remaining) k =
     (if k \<in> set ready then None else map_option (\<lambda>needs. needs - set ready) (map_of remaining k))"
  by (induction remaining) (auto simp: without_ready_def)

lemma map_of_ready:
  "distinct (map fst remaining) \<Longrightarrow> k \<in> set (ready_names remaining) \<longleftrightarrow> map_of remaining k = Some {}"
  by (simp add: set_ready_names)

lemma distinct_ready_names: "distinct (map fst remaining) \<Longrightarrow> distinct (ready_names remaining)"
  by (simp add: ready_names_def distinct_map_filter)

subsection \<open>An order found\<close>

text \<open>
  \<open>after_needs deps done xs\<close>: reading \<open>xs\<close> from the left with \<open>done\<close> before it, every name is
  preceded by all it needs.
\<close>

fun after_needs :: "(str \<Rightarrow> str set option) \<Rightarrow> str set \<Rightarrow> str list \<Rightarrow> bool" where
  "after_needs deps before [] = True"
| "after_needs deps before (x # xs) =
     ((\<exists>needs. deps x = Some needs \<and> needs \<subseteq> before) \<and> after_needs deps (insert x before) xs)"

lemma after_needs_append:
  "after_needs deps before (xs @ ys) \<longleftrightarrow>
     after_needs deps before xs \<and> after_needs deps (before \<union> set xs) ys"
  by (induction xs arbitrary: before) auto

lemma after_needs_nth:
  "after_needs deps before xs \<Longrightarrow> i < length xs \<Longrightarrow>
     \<exists>needs. deps (xs ! i) = Some needs \<and> needs \<subseteq> before \<union> set (take i xs)"
proof (induction xs arbitrary: before i)
  case Nil
  then show ?case by simp
next
  case (Cons x xs)
  show ?case
  proof (cases i)
    case 0
    with Cons.prems show ?thesis by auto
  next
    case (Suc j)
    with Cons.prems Cons.IH [of "insert x before" j] show ?thesis by auto
  qed
qed

lemma after_needs_mono: "after_needs deps before xs \<Longrightarrow> before \<subseteq> before' \<Longrightarrow> after_needs deps before' xs"
  by (induction xs arbitrary: before before') (auto, meson insert_mono)

lemma after_needs_all:
  "\<forall>x \<in> set xs. \<exists>needs. deps x = Some needs \<and> needs \<subseteq> before \<Longrightarrow> after_needs deps before xs"
proof (induction xs)
  case (Cons x xs)
  then have "after_needs deps before xs" by simp
  then have "after_needs deps (insert x before) xs" by (rule after_needs_mono) blast
  with Cons.prems show ?case by simp
qed simp

lemma topological_Inr:
  assumes "distinct (map fst remaining)" "topological remaining resolved = Inr xs"
    and "\<And>k. map_of remaining k = map_option (\<lambda>needs. needs - set resolved) (deps k) \<or> k \<in> set resolved"
    and "set resolved \<inter> set (map fst remaining) = {}"
  shows "\<exists>ys. xs = resolved @ ys \<and> distinct ys \<and> set ys = set (map fst remaining)
            \<and> after_needs deps (set resolved) ys"
  using assms
proof (induction remaining resolved rule: topological.induct)
  case (1 remaining resolved)
  show ?case
  proof (cases "remaining = []")
    case True
    with "1.prems" show ?thesis by simp
  next
    case False
    define ready where "ready = ready_names remaining"
    have ne: "ready \<noteq> []"
      using "1.prems"(2) False topological_stuck by (fastforce simp: ready_def)
    let ?rest = "without_ready ready remaining"
    have run: "topological ?rest (resolved @ ready) = Inr xs"
      using "1.prems"(2) topological_step [OF False] ne by (simp add: ready_def)
    have keys: "set (map fst ?rest) = set (map fst remaining) - set ready"
      by (simp only: keys_without_ready set_filter) auto
    have sub: "set ready \<subseteq> set (map fst remaining)"
      by (force simp: ready_def set_ready_names)
    have d: "distinct (map fst ?rest)"
      using "1.prems"(1) by (simp only: keys_without_ready) simp
    have m: "map_of ?rest k = map_option (\<lambda>needs. needs - set (resolved @ ready)) (deps k)
        \<or> k \<in> set (resolved @ ready)" for k
      using "1.prems"(3) [of k] by (cases "deps k") (auto simp: map_of_without_ready)
    have disj: "set (resolved @ ready) \<inter> set (map fst ?rest) = {}"
      using "1.prems"(4) keys by auto
    from "1.IH" [OF False ready_def ne d run m disj]
    obtain ys where ys: "xs = (resolved @ ready) @ ys" "distinct ys" "set ys = set (map fst ?rest)"
      "after_needs deps (set (resolved @ ready)) ys" by auto
    have "\<exists>needs. deps k = Some needs \<and> needs \<subseteq> set resolved" if "k \<in> set ready" for k
    proof -
      have "map_of remaining k = Some {}" using that "1.prems"(1) by (simp add: ready_def map_of_ready)
      moreover have "k \<notin> set resolved" using that sub "1.prems"(4) by auto
      ultimately show ?thesis using "1.prems"(3) [of k] by (cases "deps k") auto
    qed
    then have "after_needs deps (set resolved) ready" by (intro after_needs_all) auto
    with ys keys sub distinct_ready_names [OF "1.prems"(1)]
    show ?thesis
      by (intro exI [of _ "ready @ ys"]) (auto simp: after_needs_append ready_def)
  qed
qed

lemma topological_order:
  assumes "distinct (map fst deps)" "topological deps [] = Inr xs"
  shows "distinct xs \<and> set xs = set (map fst deps) \<and> after_needs (map_of deps) {} xs"
proof -
  have "map_of deps k = map_option (\<lambda>needs. needs - set []) (map_of deps k) \<or> k \<in> set []" for k
    by (cases "map_of deps k") auto
  from topological_Inr [OF assms this] show ?thesis by auto
qed

subsection \<open>No order to find\<close>

text \<open>A set of names waits on itself when each of its members needs another or a name unknown.\<close>

definition waits_on_itself :: "(str, str set) dict \<Rightarrow> str set \<Rightarrow> bool" where
  "waits_on_itself deps S \<longleftrightarrow>
     S \<noteq> {} \<and> S \<subseteq> set (map fst deps)
   \<and> (\<forall>k \<in> S. \<exists>needs. map_of deps k = Some needs \<and> needs \<inter> (S \<union> - set (map fst deps)) \<noteq> {})"

lemma waits_step:
  assumes "distinct (map fst deps)" "ready = ready_names deps"
  shows "waits_on_itself (without_ready ready deps) S \<longleftrightarrow> waits_on_itself deps S"
proof -
  have keys: "set (map fst (without_ready ready deps)) = set (map fst deps) - set ready"
    by (simp only: keys_without_ready set_filter) auto
  have r: "k \<in> set ready \<longleftrightarrow> map_of deps k = Some {}" for k
    using map_of_ready [OF assms(1)] assms(2) by simp
  show ?thesis
  proof
    assume w: "waits_on_itself (without_ready ready deps) S"
    have "\<exists>needs. map_of deps k = Some needs \<and> needs \<inter> (S \<union> - set (map fst deps)) \<noteq> {}"
      if k: "k \<in> S" for k
    proof -
      from w k obtain left where l: "map_of (without_ready ready deps) k = Some left"
        "left \<inter> (S \<union> - (set (map fst deps) - set ready)) \<noteq> {}"
        unfolding waits_on_itself_def keys by blast
      from l(1) obtain needs where "map_of deps k = Some needs" "left = needs - set ready"
        by (auto simp: map_of_without_ready split: if_splits)
      with l(2) have n: "map_of deps k = Some needs"
        "(needs - set ready) \<inter> (S \<union> - (set (map fst deps) - set ready)) \<noteq> {}" by simp_all
      then have "needs \<inter> (S \<union> - set (map fst deps)) \<noteq> {}" by blast
      with n(1) show ?thesis by blast
    qed
    moreover from w have "S \<noteq> {}" "S \<subseteq> set (map fst deps)"
      unfolding waits_on_itself_def keys by auto
    ultimately show "waits_on_itself deps S" by (simp add: waits_on_itself_def)
  next
    assume w: "waits_on_itself deps S"
    have out: "k \<notin> set ready" if "k \<in> S" for k
      using w that unfolding waits_on_itself_def r by fastforce
    have "\<exists>needs. map_of (without_ready ready deps) k = Some needs
        \<and> needs \<inter> (S \<union> - set (map fst (without_ready ready deps))) \<noteq> {}"
      if k: "k \<in> S" for k
    proof -
      from w k obtain needs x where n: "map_of deps k = Some needs" "x \<in> needs"
        "x \<in> S \<union> - set (map fst deps)"
        unfolding waits_on_itself_def by blast
      have "map_of deps x = None" if "x \<notin> S" using that n(3) by (simp add: map_of_eq_None_iff)
      then have "x \<notin> set ready" using out r by (cases "x \<in> S") auto
      with n have "x \<in> (needs - set ready) \<inter> (S \<union> - set (map fst (without_ready ready deps)))"
        unfolding keys by blast
      with n(1) out [OF k] show ?thesis by (auto simp: map_of_without_ready)
    qed
    moreover have "S \<noteq> {}" "S \<subseteq> set (map fst (without_ready ready deps))"
      using w out unfolding waits_on_itself_def keys by auto
    ultimately show "waits_on_itself (without_ready ready deps) S"
      by (simp only: waits_on_itself_def) blast
  qed
qed

lemma topological_Inl:
  "distinct (map fst deps) \<Longrightarrow>
     topological deps resolved = Inl e \<longleftrightarrow> e = RegistrationError \<and> (\<exists>S. waits_on_itself deps S)"
proof (induction deps resolved rule: topological.induct)
  case (1 deps resolved)
  consider "deps = []" | "deps \<noteq> []" "ready_names deps = []" | "deps \<noteq> []" "ready_names deps \<noteq> []"
    by blast
  then show ?case
  proof cases
    case 1
    then show ?thesis by (simp add: waits_on_itself_def)
  next
    case 2
    have "waits_on_itself deps (set (map fst deps))"
      unfolding waits_on_itself_def
    proof (intro conjI ballI)
      fix k assume "k \<in> set (map fst deps)"
      then obtain needs where n: "map_of deps k = Some needs"
        by (cases "map_of deps k") (auto simp: map_of_eq_None_iff)
      have "needs \<noteq> {}" using map_of_SomeD [OF n] 2(2) by (auto simp: ready_names_empty)
      with n show "\<exists>needs. map_of deps k = Some needs
          \<and> needs \<inter> (set (map fst deps) \<union> - set (map fst deps)) \<noteq> {}" by simp
    qed (use 2 in auto)
    with 2 show ?thesis by (auto simp: topological_stuck)
  next
    case 3
    have "distinct (map fst (without_ready (ready_names deps) deps))"
      using "1.prems" by (simp only: keys_without_ready) simp
    from "1.IH" [OF 3(1) refl 3(2) this] show ?thesis
      by (simp add: topological_step 3 waits_step [OF "1.prems" refl])
  qed
qed

subsection \<open>The order does not depend on the listing\<close>

lemma ready_names_cong:
  assumes "distinct (map fst a)" "distinct (map fst b)" "map_of a = map_of b"
  shows "ready_names a = ready_names b"
proof -
  have "sorted (ready_names a)" "sorted (ready_names b)" by (simp_all add: ready_names_def)
  moreover have "set (ready_names a) = set (ready_names b)"
    using map_of_ready [OF assms(1)] map_of_ready [OF assms(2)] assms(3) by auto
  ultimately show ?thesis
    using distinct_ready_names assms by (metis sorted_distinct_set_unique)
qed

lemma topological_cong:
  "distinct (map fst a) \<Longrightarrow> distinct (map fst b) \<Longrightarrow> map_of a = map_of b \<Longrightarrow>
     topological a resolved = topological b resolved"
proof (induction a resolved arbitrary: b rule: topological.induct)
  case (1 a resolved)
  have empty: "a = [] \<longleftrightarrow> b = []" using "1.prems"(3) by (metis map_of_eq_empty_iff)
  have ready: "ready_names a = ready_names b" by (rule ready_names_cong [OF "1.prems"])
  show ?case
  proof (cases "a = [] \<or> ready_names a = []")
    case True
    then show ?thesis using empty ready by (auto simp: topological_stuck)
  next
    case False
    let ?a = "without_ready (ready_names a) a" and ?b = "without_ready (ready_names a) b"
    have "distinct (map fst ?a)" "distinct (map fst ?b)"
      using "1.prems" by (simp_all only: keys_without_ready) simp_all
    moreover have "map_of ?a = map_of ?b"
      using "1.prems"(3) by (simp add: map_of_without_ready fun_eq_iff)
    ultimately show ?thesis
      using "1.IH" [of "ready_names a" ?b] False empty ready by (simp add: topological_step)
  qed
qed

subsection \<open>Producers and dependencies\<close>

definition node_ok :: "node \<Rightarrow> bool" where
  "node_ok n \<longleftrightarrow> finite (node_reads n) \<and> finite (node_writes n)"

definition claim_pair :: "(str, str) dict \<Rightarrow> str \<times> str \<Rightarrow> (str, str) dict res" where
  "claim_pair producers kv = claim_fact (snd kv) producers (fst kv)"

interpretation pr: write_once map_of claim_pair "\<lambda>_. True"
  by unfold_locales (auto simp: claim_pair_def claim_fact_def split: if_splits)

definition claims_made :: "node list \<Rightarrow> (str \<times> str) list" where
  "claims_made nodes =
     concat (map (\<lambda>n. map (\<lambda>f. (f, node_id n)) (sorted_list_of_set (node_writes n))) nodes)"

lemma producers_of_claims: "producers_of nodes = rfold claim_pair [] (claims_made (sort_key node_id nodes))"
proof -
  have "claim_node = (\<lambda>t n. rfold (claim_fact (node_id n)) t (sorted_list_of_set (node_writes n)))"
    by (intro ext) (rule claim_node_def)
  then show ?thesis
    by (simp add: producers_of_def claims_made_def rfold_concat rfold_map claim_pair_def)
qed

lemma set_claims_made:
  "list_all node_ok nodes \<Longrightarrow>
     set (claims_made nodes) = {(f, node_id n) | f n. n \<in> set nodes \<and> f \<in> node_writes n}"
  by (force simp: claims_made_def node_ok_def list_all_iff)

lemma producers_of_Inr:
  assumes "list_all node_ok nodes" "producers_of nodes = Inr producers"
  shows "map_of producers f = Some w \<longleftrightarrow> (\<exists>n \<in> set nodes. node_id n = w \<and> f \<in> node_writes n)"
proof -
  note s = pr.puts_spec [OF TrueI assms(2) [unfolded producers_of_claims]]
  have "map_of producers f = Some w \<longleftrightarrow> (f, w) \<in> set (claims_made (sort_key node_id nodes))"
    using s by simp
  also have "\<dots> \<longleftrightarrow> (\<exists>n \<in> set nodes. node_id n = w \<and> f \<in> node_writes n)"
    using assms(1) by (subst set_claims_made) (auto simp: list_all_iff)
  finally show ?thesis .
qed

definition needs_of :: "(str, str) dict \<Rightarrow> str set \<Rightarrow> node \<Rightarrow> str set" where
  "needs_of producers seeds n =
     {w. \<exists>f \<in> node_reads n - seeds. map_of producers f = Some w \<and> w \<noteq> node_id n}"

definition all_produced :: "(str, str) dict \<Rightarrow> str set \<Rightarrow> bool" where
  "all_produced producers fs \<longleftrightarrow> (\<forall>f \<in> fs. map_of producers f \<noteq> None)"

lemma need_facts:
  assumes "map_of deps name = Some needs"
  shows "(all_produced producers (set fs) \<longrightarrow>
            (\<exists>deps'. rfold (need_fact producers name) deps fs = Inr deps'
               \<and> map fst deps' = map fst deps
               \<and> map_of deps' = (map_of deps)(name \<mapsto>
                    needs \<union> {w. \<exists>f \<in> set fs. map_of producers f = Some w \<and> w \<noteq> name})))
       \<and> (\<not> all_produced producers (set fs) \<longrightarrow>
            rfold (need_fact producers name) deps fs = Inl RegistrationError)"
  using assms
proof (induction fs arbitrary: deps needs)
  case Nil
  then show ?case by (simp add: all_produced_def fun_upd_idem)
next
  case (Cons f fs)
  show ?case
  proof (cases "map_of producers f")
    case None
    then show ?thesis by (simp add: need_fact_def all_produced_def)
  next
    case (Some w)
    define more' where "more' = (if w = name then needs else insert w needs)"
    define deps1 where "deps1 = (if w = name then deps else dict_set name (insert w needs) deps)"
    have step: "need_fact producers name deps f = Inr deps1"
      using Some Cons.prems by (simp add: need_fact_def deps1_def)
    have keys: "map fst deps1 = map fst deps"
      using map_of_SomeD [OF Cons.prems] by (force simp: deps1_def keys_dict_set)
    have m: "map_of deps1 = (map_of deps)(name \<mapsto> more')"
      using Cons.prems by (simp add: deps1_def more'_def fun_upd_idem)
    then have "map_of deps1 name = Some more'" by simp
    note ih = Cons.IH [OF this]
    have "all_produced producers (set (f # fs)) \<longleftrightarrow> all_produced producers (set fs)"
      using Some by (simp add: all_produced_def)
    moreover have "more' \<union> {u. \<exists>g \<in> set fs. map_of producers g = Some u \<and> u \<noteq> name}
        = needs \<union> {u. \<exists>g \<in> set (f # fs). map_of producers g = Some u \<and> u \<noteq> name}"
      using Some by (auto simp: more'_def)
    moreover have "((map_of deps)(name \<mapsto> more'))(name \<mapsto> z) = (map_of deps)(name \<mapsto> z)" for z
      by simp
    ultimately show ?thesis using ih step keys m by (metis (no_types, lifting) rbind_Inr rfold.simps(2))
  qed
qed

lemma dependencies_fold:
  assumes "distinct (map node_id ns)" "list_all node_ok ns"
    and "\<forall>n \<in> set ns. map_of deps (node_id n) = Some {}"
  shows "((\<forall>n \<in> set ns. all_produced producers (node_reads n - seeds)) \<longrightarrow>
            (\<exists>deps'. rfold (\<lambda>deps n. rfold (need_fact producers (node_id n)) deps
                 (sorted_list_of_set (node_reads n - seeds))) deps ns = Inr deps'
               \<and> map fst deps' = map fst deps
               \<and> (\<forall>n \<in> set ns. map_of deps' (node_id n) = Some (needs_of producers seeds n))
               \<and> (\<forall>k. k \<notin> node_id ` set ns \<longrightarrow> map_of deps' k = map_of deps k)))
       \<and> (\<not> (\<forall>n \<in> set ns. all_produced producers (node_reads n - seeds)) \<longrightarrow>
            rfold (\<lambda>deps n. rfold (need_fact producers (node_id n)) deps
                 (sorted_list_of_set (node_reads n - seeds))) deps ns = Inl RegistrationError)"
  using assms
proof (induction ns arbitrary: deps)
  case Nil
  then show ?case by simp
next
  case (Cons n ns)
  let ?fs = "sorted_list_of_set (node_reads n - seeds)"
  have fs: "set ?fs = node_reads n - seeds" using Cons.prems(2) by (simp add: node_ok_def)
  have "map_of deps (node_id n) = Some {}" using Cons.prems(3) by simp
  note facts = need_facts [OF this, of producers ?fs, unfolded fs]
  show ?case
  proof (cases "all_produced producers (node_reads n - seeds)")
    case False
    with facts show ?thesis by simp
  next
    case True
    with facts obtain deps1 where d1: "rfold (need_fact producers (node_id n)) deps ?fs = Inr deps1"
      "map fst deps1 = map fst deps"
      "map_of deps1 = (map_of deps)(node_id n \<mapsto> needs_of producers seeds n)"
      by (auto simp: needs_of_def)
    have "\<forall>m \<in> set ns. map_of deps1 (node_id m) = Some {}"
      using Cons.prems(1,3) d1(3) by (auto simp: rev_image_eqI)
    with Cons.IH [of deps1] Cons.prems True d1 show ?thesis by auto
  qed
qed

lemma blank_dependencies:
  "distinct (map node_id nodes) \<Longrightarrow>
     foldl (\<lambda>deps n. dict_set (node_id n) {} deps) [] nodes = map (\<lambda>n. (node_id n, {})) nodes"
proof (induction nodes rule: rev_induct)
  case (snoc n nodes)
  then have "map_of (map (\<lambda>n. (node_id n, {})) nodes) (node_id n) = None"
    by (auto simp: map_of_eq_None_iff)
  from dict_set_new [OF this] snoc show ?case by simp
qed simp

lemma dependencies_spec:
  assumes "distinct (map node_id nodes)" "list_all node_ok nodes"
  shows "((\<forall>n \<in> set nodes. all_produced producers (node_reads n - seeds)) \<longrightarrow>
            (\<exists>deps. dependencies_of nodes producers seeds = Inr deps
               \<and> map fst deps = map node_id nodes
               \<and> (\<forall>n \<in> set nodes. map_of deps (node_id n) = Some (needs_of producers seeds n))))
       \<and> (\<not> (\<forall>n \<in> set nodes. all_produced producers (node_reads n - seeds)) \<longrightarrow>
            dependencies_of nodes producers seeds = Inl RegistrationError)"
proof -
  have "\<forall>n \<in> set nodes. map_of (map (\<lambda>n. (node_id n, {})) nodes) (node_id n) = Some {}"
    by (induction nodes) auto
  from dependencies_fold [OF assms this, of producers seeds]
  show ?thesis by (auto simp: dependencies_of_def blank_dependencies [OF assms(1)] comp_def)
qed

subsection \<open>The whole derivation\<close>

lemma order_of_Inr:
  assumes "distinct (map node_id nodes)" "list_all node_ok nodes" "order_of nodes seeds = Inr xs"
  shows "distinct xs" "set xs = node_id ` set nodes"
    and "n \<in> set nodes \<Longrightarrow> i < length xs \<Longrightarrow> xs ! i = node_id n \<Longrightarrow> f \<in> node_reads n \<Longrightarrow> f \<notin> seeds \<Longrightarrow>
       \<exists>m \<in> set nodes. f \<in> node_writes m \<and> (node_id m = node_id n \<or> node_id m \<in> set (take i xs))"
proof -
  from assms(3) obtain producers deps where
    p: "producers_of nodes = Inr producers" and d: "dependencies_of nodes producers seeds = Inr deps"
    and t: "topological deps [] = Inr xs"
    by (auto simp: order_of_def rbind_eq_Inr)
  from dependencies_spec [OF assms(1,2), of producers seeds] d
  have deps: "map fst deps = map node_id nodes"
    "\<forall>n \<in> set nodes. map_of deps (node_id n) = Some (needs_of producers seeds n)"
    and all: "\<forall>n \<in> set nodes. all_produced producers (node_reads n - seeds)"
    by (auto split: if_splits)
  have "distinct (map fst deps)" using deps(1) assms(1) by simp
  note o = topological_order [OF this t]
  then show "distinct xs" "set xs = node_id ` set nodes"
    using deps(1) by (simp_all flip: set_map)
  assume n: "n \<in> set nodes" "i < length xs" "xs ! i = node_id n" "f \<in> node_reads n" "f \<notin> seeds"
  from all n obtain w where w: "map_of producers f = Some w" by (auto simp: all_produced_def)
  then obtain m where m: "m \<in> set nodes" "node_id m = w" "f \<in> node_writes m"
    using producers_of_Inr [OF assms(2) p] by auto
  from after_needs_nth [of "map_of deps" "{}" xs i] o n deps(2)
  have "needs_of producers seeds n \<subseteq> set (take i xs)" by auto
  then have "w = node_id n \<or> w \<in> set (take i xs)"
    using w n(4,5) by (auto simp: needs_of_def)
  with m show "\<exists>m \<in> set nodes. f \<in> node_writes m \<and> (node_id m = node_id n \<or> node_id m \<in> set (take i xs))"
    by auto
qed

lemma order_of_permuted:
  assumes "distinct (map node_id nodes)" "list_all node_ok nodes"
    and "distinct (map node_id nodes')" "set nodes' = set nodes"
  shows "order_of nodes' seeds = order_of nodes seeds"
proof -
  have "sort_key node_id nodes' = sort_key node_id nodes"
    by (rule map_sorted_distinct_set_unique [of node_id])
      (use assms in \<open>auto simp: distinct_map\<close>)
  then have p: "producers_of nodes' = producers_of nodes" by (simp add: producers_of_def)
  have ok': "list_all node_ok nodes'" using assms by (simp add: list_all_iff)
  have "rbind (dependencies_of nodes' producers seeds) (\<lambda>d. topological d [])
      = rbind (dependencies_of nodes producers seeds) (\<lambda>d. topological d [])" for producers
  proof (cases "\<forall>n \<in> set nodes. all_produced producers (node_reads n - seeds)")
    case False
    with dependencies_spec [OF assms(1,2), of producers seeds]
      dependencies_spec [OF assms(3) ok', of producers seeds] assms(4)
    show ?thesis by auto
  next
    case True
    with dependencies_spec [OF assms(1,2), of producers seeds] obtain d where d:
      "dependencies_of nodes producers seeds = Inr d" "map fst d = map node_id nodes"
      "\<forall>n \<in> set nodes. map_of d (node_id n) = Some (needs_of producers seeds n)" by auto
    from True assms(4) dependencies_spec [OF assms(3) ok', of producers seeds] obtain d' where d':
      "dependencies_of nodes' producers seeds = Inr d'" "map fst d' = map node_id nodes'"
      "\<forall>n \<in> set nodes'. map_of d' (node_id n) = Some (needs_of producers seeds n)" by auto
    have "map_of d' k = map_of d k" for k
    proof (cases "k \<in> node_id ` set nodes")
      case True
      with d(3) d'(3) assms(4) show ?thesis by auto
    next
      case False
      then have "k \<notin> set (map fst d)" "k \<notin> set (map fst d')"
        using d(2) d'(2) assms(4) by (simp_all del: set_map) auto
      then show ?thesis by (simp add: map_of_eq_None_iff [THEN iffD2])
    qed
    then have "topological d' [] = topological d []"
      using d(2) d'(2) assms(1,3) by (intro topological_cong) auto
    with d(1) d'(1) show ?thesis by simp
  qed
  with p show ?thesis by (simp add: order_of_def)
qed

text \<open>The three faults a set of declarations can have.\<close>

definition written_twice :: "node list \<Rightarrow> bool" where
  "written_twice nodes \<longleftrightarrow>
     (\<exists>n \<in> set nodes. \<exists>m \<in> set nodes. n \<noteq> m \<and> node_writes n \<inter> node_writes m \<noteq> {})"

definition never_written :: "node list \<Rightarrow> str set \<Rightarrow> bool" where
  "never_written nodes seeds \<longleftrightarrow>
     (\<exists>n \<in> set nodes. \<exists>f \<in> node_reads n - seeds. \<forall>m \<in> set nodes. f \<notin> node_writes m)"

definition circular :: "node list \<Rightarrow> str set \<Rightarrow> bool" where
  "circular nodes seeds \<longleftrightarrow>
     (\<exists>C. C \<noteq> {} \<and> C \<subseteq> set nodes
        \<and> (\<forall>n \<in> C. \<exists>m \<in> C. m \<noteq> n \<and> (node_reads n - seeds) \<inter> node_writes m \<noteq> {}))"

lemma claims_distinct:
  "distinct nodes \<Longrightarrow> list_all node_ok nodes \<Longrightarrow>
     distinct (map fst (claims_made nodes)) \<longleftrightarrow> \<not> written_twice nodes"
proof (induction nodes)
  case Nil
  then show ?case by (simp add: claims_made_def written_twice_def)
next
  case (Cons n nodes)
  have "map fst (claims_made (n # nodes)) = sorted_list_of_set (node_writes n) @ map fst (claims_made nodes)"
    by (simp add: claims_made_def comp_def)
  moreover have "set (map fst (claims_made nodes)) = (\<Union>m \<in> set nodes. node_writes m)"
    using Cons.prems by (force simp: set_claims_made)
  ultimately have "distinct (map fst (claims_made (n # nodes))) \<longleftrightarrow>
      distinct (map fst (claims_made nodes)) \<and> (\<forall>m \<in> set nodes. node_writes n \<inter> node_writes m = {})"
    using Cons.prems by (auto simp: node_ok_def simp del: set_map)
  also have "\<dots> \<longleftrightarrow> \<not> written_twice nodes \<and> (\<forall>m \<in> set nodes. node_writes n \<inter> node_writes m = {})"
    using Cons by simp
  also have "\<dots> \<longleftrightarrow> \<not> written_twice (n # nodes)"
  proof -
    have split_insert: "\<not> (\<exists>a \<in> S. \<exists>b \<in> S. a \<noteq> b \<and> P a b) \<and> (\<forall>m \<in> S. \<not> P n m)
        \<longleftrightarrow> \<not> (\<exists>a \<in> insert n S. \<exists>b \<in> insert n S. a \<noteq> b \<and> P a b)"
      if "\<And>a b. P a b = P b a" "n \<notin> S" for P :: "node \<Rightarrow> node \<Rightarrow> bool" and S
      using that by (metis insert_iff)
    show ?thesis
      using split_insert [of "\<lambda>a b. node_writes a \<inter> node_writes b \<noteq> {}" "set nodes"] Cons.prems(1)
      by (simp add: written_twice_def Int_commute)
  qed
  finally show ?case .
qed

lemma producers_of_Inl:
  assumes "distinct (map node_id nodes)" "list_all node_ok nodes"
  shows "(\<exists>p. producers_of nodes = Inr p) \<longleftrightarrow> \<not> written_twice nodes"
proof -
  have "(\<exists>p. producers_of nodes = Inr p) \<longleftrightarrow> distinct (map fst (claims_made (sort_key node_id nodes)))"
    unfolding producers_of_claims by (subst pr.puts_iff) auto
  also have "\<dots> \<longleftrightarrow> \<not> written_twice nodes"
    using assms by (subst claims_distinct) (auto simp: list_all_iff written_twice_def distinct_map)
  finally show ?thesis .
qed

lemma producers_error: "producers_of nodes = Inl e \<Longrightarrow> e = RegistrationError"
proof -
  have "rfold claim_pair p kvs = Inl e \<Longrightarrow> e = RegistrationError" for p kvs
    by (induction kvs arbitrary: p) (auto simp: rbind_eq_Inl claim_pair_def claim_fact_def split: if_splits)
  then show "producers_of nodes = Inl e \<Longrightarrow> e = RegistrationError" by (simp add: producers_of_claims)
qed

lemma order_of_Inl:
  assumes "distinct (map node_id nodes)" "list_all node_ok nodes"
  shows "order_of nodes seeds = Inl e \<longleftrightarrow>
    e = RegistrationError \<and> (written_twice nodes \<or> never_written nodes seeds \<or> circular nodes seeds)"
proof (cases "producers_of nodes")
  case (Inl e')
  with producers_of_Inl [OF assms] producers_error [OF Inl] show ?thesis by (auto simp: order_of_def)
next
  case (Inr producers)
  then have once: "\<not> written_twice nodes" using producers_of_Inl [OF assms] by auto
  note who = producers_of_Inr [OF assms(2) Inr]
  have none: "(\<forall>n \<in> set nodes. all_produced producers (node_reads n - seeds)) \<longleftrightarrow> \<not> never_written nodes seeds"
    by (simp add: all_produced_def never_written_def who) blast
  show ?thesis
  proof (cases "never_written nodes seeds")
    case True
    then have "dependencies_of nodes producers seeds = Inl RegistrationError"
      using dependencies_spec [OF assms, of producers seeds] none by auto
    with True Inr show ?thesis by (auto simp: order_of_def)
  next
    case False
    then obtain deps where d: "dependencies_of nodes producers seeds = Inr deps"
      "map fst deps = map node_id nodes"
      "\<forall>n \<in> set nodes. map_of deps (node_id n) = Some (needs_of producers seeds n)"
      using dependencies_spec [OF assms, of producers seeds] none by auto
    have inj: "inj_on node_id (set nodes)" using assms(1) by (simp add: distinct_map)
    have keys: "set (map fst deps) = node_id ` set nodes" using d(2) by simp
    have needs: "needs_of producers seeds n =
        {node_id m | m. m \<in> set nodes \<and> m \<noteq> n \<and> (node_reads n - seeds) \<inter> node_writes m \<noteq> {}}"
      if "n \<in> set nodes" for n
      using that inj by (auto simp: needs_of_def who dest: inj_onD)
    have "(\<exists>S. waits_on_itself deps S) \<longleftrightarrow> circular nodes seeds"
    proof
      assume "\<exists>S. waits_on_itself deps S"
      then obtain S where S: "S \<noteq> {}" "S \<subseteq> node_id ` set nodes"
        "\<forall>k \<in> S. \<exists>needs. map_of deps k = Some needs \<and> needs \<inter> (S \<union> - node_id ` set nodes) \<noteq> {}"
        unfolding waits_on_itself_def keys by blast
      define C where "C = {n \<in> set nodes. node_id n \<in> S}"
      have "\<exists>m \<in> C. m \<noteq> n \<and> (node_reads n - seeds) \<inter> node_writes m \<noteq> {}" if "n \<in> C" for n
      proof -
        from that have n: "n \<in> set nodes" "node_id n \<in> S" by (simp_all add: C_def)
        from S(3) n d(3) have "needs_of producers seeds n \<inter> (S \<union> - node_id ` set nodes) \<noteq> {}"
          by fastforce
        then show ?thesis unfolding needs [OF n(1)] C_def by blast
      qed
      moreover have "C \<noteq> {}" using S(1,2) by (auto simp: C_def)
      ultimately show "circular nodes seeds"
        unfolding circular_def by (intro exI [of _ C]) (auto simp: C_def)
    next
      assume "circular nodes seeds"
      then obtain C where C: "C \<noteq> {}" "C \<subseteq> set nodes"
        "\<forall>n \<in> C. \<exists>m \<in> C. m \<noteq> n \<and> (node_reads n - seeds) \<inter> node_writes m \<noteq> {}"
        by (auto simp: circular_def)
      have "waits_on_itself deps (node_id ` C)"
        unfolding waits_on_itself_def keys
      proof (intro conjI ballI)
        fix k assume "k \<in> node_id ` C"
        then obtain n where n: "n \<in> C" "k = node_id n" by blast
        with C obtain m where m: "m \<in> C" "m \<noteq> n" "(node_reads n - seeds) \<inter> node_writes m \<noteq> {}" by blast
        have "node_id m \<in> needs_of producers seeds n"
          unfolding needs [OF subsetD [OF C(2) n(1)]] using m C(2) by blast
        with m n d(3) C(2) show "\<exists>needs. map_of deps k = Some needs
            \<and> needs \<inter> (node_id ` C \<union> - node_id ` set nodes) \<noteq> {}" by blast
      qed (use C in auto)
      then show "\<exists>S. waits_on_itself deps S" by blast
    qed
    moreover have "distinct (map fst deps)" using d(2) assms(1) by simp
    ultimately show ?thesis
      using Inr d(1) False once topological_Inl [of deps "[]" e] by (simp add: order_of_def)
  qed
qed

end
