(* ===== verification/Pipeline.thy ===== *)
theory Pipeline
  imports Graph Identifiers PyJson "HOL-Library.FSet"
begin

section \<open>Facts, stages and plans (pipeline/)\<close>

text \<open>
  The facts of a run are a write-once store (facts.py) and implement its interface. A stage is
  its declaration and two functions (stages.py): \<open>preflight\<close> and \<open>apply\<close> see the context and a
  world \<open>'w\<close>, everything ports act on, and return the world they leave behind with their answer
  or the exception they raised. A plan puts declared stages in the order the graph derives and
  is identified by a digest (plans.py).
\<close>

subsection \<open>Check identifiers sort by name\<close>

instantiation dotted_name :: linorder
begin

definition less_eq_dotted_name :: "dotted_name \<Rightarrow> dotted_name \<Rightarrow> bool" where
  "less_eq_dotted_name a b \<longleftrightarrow> name_value a \<le> name_value b"

definition less_dotted_name :: "dotted_name \<Rightarrow> dotted_name \<Rightarrow> bool" where
  "less_dotted_name a b \<longleftrightarrow> name_value a < name_value b"

instance
  by standard (auto simp: less_eq_dotted_name_def less_dotted_name_def dotted_name.expand)

end

subsection \<open>effects.py\<close>

datatype effect =
    READS_HOST | WRITES_RUNTIME | SPAWNS_VM | NETWORK_FETCH
  | REMOTE_EXEC | MUTATES_GUEST | REPLACES_HOST_FILE | EMITS_EVIDENCE

fun effect_value :: "effect \<Rightarrow> str" where
  "effect_value READS_HOST = ''reads-host''"
| "effect_value WRITES_RUNTIME = ''writes-runtime''"
| "effect_value SPAWNS_VM = ''spawns-vm''"
| "effect_value NETWORK_FETCH = ''network-fetch''"
| "effect_value REMOTE_EXEC = ''remote-exec''"
| "effect_value MUTATES_GUEST = ''mutates-guest''"
| "effect_value REPLACES_HOST_FILE = ''replaces-host-file''"
| "effect_value EMITS_EVIDENCE = ''emits-evidence''"

subsection \<open>facts.py\<close>

datatype fact_key = FactKey (key_name: str)

record 'v fact_entry =
  entry_value :: 'v
  entry_produced_by :: stage_id

type_synonym 'v fact_map = "(str, 'v fact_entry) dict"

definition fact_in :: "'v fact_map \<Rightarrow> fact_key \<Rightarrow> bool" where
  "fact_in m key = dict_has m (key_name key)"

definition fact_item :: "'v fact_map \<Rightarrow> fact_key \<Rightarrow> 'v res" where
  "fact_item m key = map_sum id entry_value (of_option InternalDefect (map_of m (key_name key)))"

definition fact_get :: "'v fact_map \<Rightarrow> fact_key \<Rightarrow> 'v option res" where
  "fact_get m key = (if \<not> fact_in m key then Inr None else map_sum id Some (fact_item m key))"

definition fact_producer :: "'v fact_map \<Rightarrow> fact_key \<Rightarrow> stage_id res" where
  "fact_producer m key = map_sum id entry_produced_by (of_option KeyError (map_of m (key_name key)))"

definition with_fact :: "'v fact_map \<Rightarrow> fact_key \<Rightarrow> 'v \<Rightarrow> stage_id \<Rightarrow> 'v fact_map res" where
  "with_fact m key v produced_by =
     (if dict_has m (key_name key) then Inl InternalDefect
      else Inr (dict_set (key_name key) \<lparr>entry_value = v, entry_produced_by = produced_by\<rparr> m))"

definition fact_names :: "'v fact_map \<Rightarrow> str list" where
  "fact_names m = sort (map fst m)"

definition put_fact :: "stage_id \<Rightarrow> 'v fact_map \<Rightarrow> fact_key \<times> 'v \<Rightarrow> 'v fact_map res" where
  "put_fact by_stage m kv = with_fact m (fst kv) (snd kv) by_stage"

text \<open>For one producer, the facts are a write-once store over the names of their keys.\<close>

definition put_entry :: "'v fact_map \<Rightarrow> str \<times> 'v fact_entry \<Rightarrow> 'v fact_map res" where
  "put_entry m kv = with_fact m (FactKey (fst kv)) (entry_value (snd kv)) (entry_produced_by (snd kv))"

interpretation fw: write_once map_of put_entry "\<lambda>_. True"
  by unfold_locales (auto simp: put_entry_def with_fact_def dict_has_iff split: if_splits)

lemma put_facts_entries:
  "rfold (put_fact s) m kvs =
     rfold put_entry m (map (\<lambda>(k, v). (key_name k, \<lparr>entry_value = v, entry_produced_by = s\<rparr>)) kvs)"
  unfolding rfold_map
  by (induction kvs arbitrary: m) (auto simp: put_fact_def put_entry_def intro!: rbind_cong)

lemma put_facts_keep: "rfold (put_fact s) m kvs = Inr m' \<Longrightarrow> map_of m \<subseteq>\<^sub>m map_of m'"
  unfolding put_facts_entries by (rule fw.puts_keep) simp_all

lemma put_facts_new:
  assumes "rfold (put_fact s) m kvs = Inr m'" "map_of m' k = Some e" "map_of m k = None"
  shows "entry_produced_by e = s \<and> (FactKey k, entry_value e) \<in> set kvs"
proof -
  from fw.puts_get [OF TrueI assms(1) [unfolded put_facts_entries]] assms(2,3)
  have "map_of (map (\<lambda>(k, v). (key_name k, \<lparr>entry_value = v, entry_produced_by = s\<rparr>)) kvs) k = Some e"
    by auto
  then show ?thesis by (force dest!: map_of_SomeD)
qed

lemma put_facts_dom:
  assumes "rfold (put_fact s) m kvs = Inr m'"
  shows "dom (map_of m') = dom (map_of m) \<union> (key_name \<circ> fst) ` set kvs"
proof -
  from fw.puts_get [OF TrueI assms [unfolded put_facts_entries]]
  show ?thesis by (force simp: dom_map_of_conv_image_fst)
qed

lemma put_facts_total:
  assumes "distinct (map (key_name \<circ> fst) kvs)" "(key_name \<circ> fst) ` set kvs \<inter> dom (map_of m) = {}"
  shows "\<exists>m'. rfold (put_fact s) m kvs = Inr m'"
proof -
  let ?es = "map (\<lambda>(k, v). (key_name k, \<lparr>entry_value = v, entry_produced_by = s\<rparr>)) kvs"
  have keys: "map fst ?es = map (key_name \<circ> fst) kvs" by auto
  have "map_of m k = None" if "k \<in> set (map fst ?es)" for k
    using that assms(2) unfolding keys set_map by (auto simp: domIff)
  with assms(1) show ?thesis
    unfolding put_facts_entries by (intro fw.puts_total) (simp_all only: keys, blast)
qed

subsection \<open>stages.py\<close>

datatype preflight =
    Ready
  | SkipBecause refusal_reason str
  | RefuseBecause refusal_reason str

record 'w finaliser =
  fin_name :: str
  fin_release :: "'w \<Rightarrow> 'w \<times> unit res"

datatype ('v, 'w) stage_result =
    Advance "(fact_key \<times> 'v) list" "'w finaliser option"
  | Skip refusal_reason str
  | Refuse refusal_reason str
  | Fail str

record ('v, 'p) run_context =
  ctx_facts :: "'v fact_map"
  ctx_ports :: 'p

definition with_facts ::
  "('v, 'p) run_context \<Rightarrow> (fact_key \<times> 'v) list \<Rightarrow> stage_id \<Rightarrow> ('v, 'p) run_context res" where
  "with_facts ctx produced by_stage =
     map_sum id (\<lambda>updated. \<lparr>ctx_facts = updated, ctx_ports = ctx_ports ctx\<rparr>)
       (rfold (put_fact by_stage) (ctx_facts ctx) produced)"

record ('v, 'p, 'w) stage =
  stage_id_of :: stage_id
  stage_reads :: "fact_key list"
  stage_writes :: "fact_key list"
  stage_attests :: "check_id fset"
  stage_effects :: "effect fset"
  stage_preflight :: "('v, 'p) run_context \<Rightarrow> 'w \<Rightarrow> 'w \<times> preflight res"
  stage_apply :: "('v, 'p) run_context \<Rightarrow> 'w \<Rightarrow> 'w \<times> ('v, 'w) stage_result res"

definition always_ready :: "('v, 'p) run_context \<Rightarrow> 'w \<Rightarrow> 'w \<times> preflight res" where
  "always_ready ctx w = (w, Inr Ready)"

abbreviation stage_name :: "('v, 'p, 'w) stage \<Rightarrow> str" where
  "stage_name s \<equiv> name_value (stage_id_of s)"

subsection \<open>plans.py\<close>

record ('v, 'p, 'w) plan =
  plan_name :: str
  plan_stages :: "('v, 'p, 'w) stage list"
  plan_order :: "stage_id list"
  plan_digest :: digest

definition describe_stage :: "('v, 'p, 'w) stage \<Rightarrow> json" where
  "describe_stage s = JObj
     [(''id'', JStr (stage_name s)),
      (''reads'', JList (map JStr (sort (map key_name (stage_reads s))))),
      (''writes'', JList (map JStr (sort (map key_name (stage_writes s))))),
      (''effects'', JList (map JStr (sorted_list_of_set (effect_value ` fset (stage_effects s))))),
      (''attests'', JList (map JStr (sorted_list_of_set (name_value ` fset (stage_attests s)))))]"

definition describe :: "('v, 'p, 'w) stage list \<Rightarrow> json" where
  "describe ordered = JList (map describe_stage ordered)"

definition plan_digest_of :: "str \<Rightarrow> ('v, 'p, 'w) stage list \<Rightarrow> digest" where
  "plan_digest_of name ordered =
     digest_bytes (canonical (JObj [(''name'', JStr name), (''stages'', describe ordered)]))"

definition render_plan :: "('v, 'p, 'w) plan \<Rightarrow> json" where
  "render_plan p = JObj [(''name'', JStr (plan_name p)), (''digest'', JStr (digest_hex (plan_digest p))),
                         (''stages'', describe (plan_stages p))]"

definition stage_node :: "('v, 'p, 'w) stage \<Rightarrow> node" where
  "stage_node s = \<lparr>node_id = stage_name s, node_reads = set (map key_name (stage_reads s)),
                   node_writes = set (map key_name (stage_writes s))\<rparr>"

definition plan_of ::
  "str \<Rightarrow> ('v, 'p, 'w) stage list \<Rightarrow> fact_key set \<Rightarrow> ('v, 'p, 'w) plan res" where
  "plan_of name declared seeds =
     rbind (order_of (map stage_node declared) (key_name ` seeds)) (\<lambda>ordered.
     let by_name = foldl (\<lambda>d s. dict_set (stage_name s) s d) [] declared
     in rbind (rmapM mk_dotted_name ordered) (\<lambda>sequence.
        rbind (rmapM (\<lambda>item. of_option KeyError (map_of by_name item)) ordered) (\<lambda>stages.
          Inr \<lparr>plan_name = name, plan_stages = stages, plan_order = sequence,
               plan_digest = plan_digest_of name stages\<rparr>)))"

lemma stage_node_ok [simp]: "list_all node_ok (map stage_node declared)"
  by (simp add: list_all_iff node_ok_def stage_node_def)

lemma map_of_by_name:
  assumes "distinct (map stage_name declared)"
  shows "map_of (foldl (\<lambda>d s. dict_set (stage_name s) s d) [] declared)
       = map_of (map (\<lambda>s. (stage_name s, s)) declared)"
proof -
  have "map_of (foldl (\<lambda>d s. dict_set (stage_name s) s d) d0 declared)
      = map_of d0 ++ map_of (map (\<lambda>s. (stage_name s, s)) declared)" for d0
    using assms
  proof (induction declared arbitrary: d0)
    case (Cons s declared)
    then have "map_of (map (\<lambda>s. (stage_name s, s)) declared) (stage_name s) = None"
      by (auto simp: map_of_eq_None_iff)
    with Cons show ?case by (auto simp: map_add_def fun_eq_iff split: option.splits)
  qed simp
  from this [of "[]"] show ?thesis by simp
qed

lemma by_name_stages:
  assumes "distinct (map stage_name declared)" "set ordered = stage_name ` set declared"
    and "rmapM (\<lambda>item. of_option KeyError
            (map_of (foldl (\<lambda>d s. dict_set (stage_name s) s d) [] declared) item)) ordered = Inr stages"
  shows "map stage_name stages = ordered \<and> set stages = set declared"
proof -
  have "distinct (map fst (map (\<lambda>s. (stage_name s, s)) declared))" using assms(1) by (simp add: comp_def)
  then have m: "map_of (map (\<lambda>s. (stage_name s, s)) declared) item = Some s
      \<longleftrightarrow> s \<in> set declared \<and> stage_name s = item" for item s
    by (auto simp: map_of_eq_Some_iff)
  from assms(3) have "list_all2 (\<lambda>item s. s \<in> set declared \<and> stage_name s = item) ordered stages"
    by (simp add: rmapM_eq_Inr of_option_eq_Inr map_of_by_name [OF assms(1)] m)
  then have n: "map stage_name stages = ordered" and sub: "set stages \<subseteq> set declared"
    by (induction rule: list_all2_induct) auto
  have "s \<in> set stages" if "s \<in> set declared" for s
  proof -
    have "stage_name s \<in> stage_name ` set stages" using that assms(2) n by (metis image_eqI list.set_map)
    then show ?thesis using that sub assms(1) by (auto simp: distinct_map dest: inj_onD)
  qed
  with n sub show ?thesis by auto
qed

lemma plan_of_Inr:
  assumes "distinct (map stage_name declared)" "plan_of name declared seeds = Inr p"
  shows "order_of (map stage_node declared) (key_name ` seeds) = Inr (map stage_name (plan_stages p))"
    and "set (plan_stages p) = set declared" "distinct (map stage_name (plan_stages p))"
    and "plan_name p = name" "plan_digest p = plan_digest_of name (plan_stages p)"
    and "plan_order p = map stage_id_of (plan_stages p)"
proof -
  from assms(2) obtain ordered where o: "order_of (map stage_node declared) (key_name ` seeds) = Inr ordered"
    "rmapM mk_dotted_name ordered = Inr (plan_order p)"
    "rmapM (\<lambda>item. of_option KeyError
        (map_of (foldl (\<lambda>d s. dict_set (stage_name s) s d) [] declared) item)) ordered = Inr (plan_stages p)"
    and p: "plan_name p = name" "plan_digest p = plan_digest_of name (plan_stages p)"
    by (auto simp: plan_of_def rbind_eq_Inr Let_def)
  have d: "distinct (map node_id (map stage_node declared))"
    using assms(1) by (simp add: stage_node_def comp_def)
  note s = order_of_Inr(1,2) [OF d stage_node_ok o(1)]
  then have "set ordered = stage_name ` set declared" by (simp add: stage_node_def image_image)
  note b = by_name_stages [OF assms(1) this o(3)]
  with o(1) show "order_of (map stage_node declared) (key_name ` seeds) = Inr (map stage_name (plan_stages p))"
    by simp
  from b s show "set (plan_stages p) = set declared" "distinct (map stage_name (plan_stages p))"
    by simp_all
  from o(2) have "list_all2 (\<lambda>x y. y = DottedName x) ordered (plan_order p)"
    by (auto simp: rmapM_eq_Inr elim!: list_all2_mono)
  then have "plan_order p = map DottedName ordered"
    by (induction rule: list_all2_induct) auto
  with b show "plan_order p = map stage_id_of (plan_stages p)" by (auto simp: comp_def)
  show "plan_name p = name" "plan_digest p = plan_digest_of name (plan_stages p)" by (rule p)+
qed

text \<open>Every fact a planned stage reads is a seed or written by that stage or an earlier one.\<close>

lemma plan_reads_written:
  assumes "distinct (map stage_name declared)" "plan_of name declared seeds = Inr p"
    and "i < length (plan_stages p)" "k \<in> set (stage_reads (plan_stages p ! i))" "k \<notin> seeds"
  shows "\<exists>j \<le> i. k \<in> set (stage_writes (plan_stages p ! j))"
proof -
  note pl = plan_of_Inr [OF assms(1,2)]
  let ?s = "plan_stages p ! i"
  have s: "stage_node ?s \<in> set (map stage_node declared)" using assms(3) pl(2) nth_mem by fastforce
  have d: "distinct (map node_id (map stage_node declared))"
    using assms(1) by (simp add: stage_node_def comp_def)
  have inj: "inj key_name" by (rule injI) (rule fact_key.expand)
  have "\<exists>m \<in> set (map stage_node declared). key_name k \<in> node_writes m \<and>
      (node_id m = node_id (stage_node ?s) \<or> node_id m \<in> set (take i (map stage_name (plan_stages p))))"
    using order_of_Inr(3) [OF d stage_node_ok pl(1) s, of i "key_name k"] assms(3-5) inj
    by (auto simp: stage_node_def inj_image_mem_iff)
  then obtain t where t: "t \<in> set declared" "k \<in> set (stage_writes t)"
    "stage_name t = stage_name ?s \<or> stage_name t \<in> stage_name ` set (take i (plan_stages p))"
    using inj by (auto simp: stage_node_def inj_image_mem_iff take_map)
  have in_plan: "t \<in> set (plan_stages p)" using t(1) pl(2) by simp
  have names: "inj_on stage_name (set (plan_stages p))" using pl(3) by (simp add: distinct_map)
  from t(3) show ?thesis
  proof
    assume "stage_name t = stage_name ?s"
    with names in_plan assms(3) have "t = ?s" by (auto dest: inj_onD)
    with t(2) show ?thesis by auto
  next
    assume "stage_name t \<in> stage_name ` set (take i (plan_stages p))"
    then obtain u where u: "u \<in> set (take i (plan_stages p))" "stage_name t = stage_name u" by auto
    with names in_plan have "t = u" by (auto dest: inj_onD in_set_takeD)
    with u obtain j where "j < i" "plan_stages p ! j = t"
      by (auto simp: in_set_conv_nth)
    with t(2) show ?thesis by (intro exI [of _ j]) simp
  qed
qed

end
