(* ===== verification/Runner.thy ===== *)
theory Runner
  imports Pipeline
begin

section \<open>Running a plan (pipeline/runner.py)\<close>

text \<open>
  A run preflights every stage of the plan with the planning ports, refuses if any preflight
  does, then applies the stages in order and at the end, however it ends, releases what was
  taken, last first. The progress of a run is a record passed from step to step; a step also
  returns the world it leaves and the outcome it stops the run with, or the exception it raised.
\<close>

subsection \<open>The code\<close>

definition SEED :: stage_id where "SEED = DottedName ''seed''"

record 'v outcome =
  out_succeeded :: bool
  out_facts :: "'v fact_map"
  out_not_tested :: "check_id list"
  out_attested :: "check_id list"
  out_refusal :: "refusal_reason option"
  out_detail :: str

record ('v, 'p, 'w) progress =
  pr_context :: "('v, 'p) run_context"
  pr_finalisers :: "'w finaliser list"
  pr_completed :: "str set"
  pr_attested :: "check_id set"

definition attested_so_far :: "('v, 'p, 'w) progress \<Rightarrow> check_id list" where
  "attested_so_far pr = sorted_list_of_set (pr_attested pr)"

definition unreached :: "('v, 'p, 'w) plan \<Rightarrow> str set \<Rightarrow> check_id list" where
  "unreached p completed =
     sorted_list_of_set (\<Union>s \<in> set (plan_stages p). if stage_name s \<notin> completed then fset (stage_attests s) else {})"

definition unwind :: "'w finaliser list \<Rightarrow> 'w \<Rightarrow> 'w" where
  "unwind finalisers w = foldl (\<lambda>w f. fst (fin_release f w)) w (rev finalisers)"

definition seeded :: "(fact_key \<times> 'v) list \<Rightarrow> 'v fact_map res" where
  "seeded seeds = rfold (put_fact SEED) [] seeds"

fun preflight_stages ::
  "('v, 'p, 'w) stage list \<Rightarrow> ('v, 'p) run_context \<Rightarrow> 'w \<Rightarrow> 'w \<times> preflight list res" where
  "preflight_stages [] ctx w = (w, Inr [])"
| "preflight_stages (s # stages) ctx w =
     (case stage_preflight s ctx w of
        (w1, Inl e) \<Rightarrow> (w1, Inl e)
      | (w1, Inr v) \<Rightarrow>
          (case preflight_stages stages ctx w1 of
             (w2, Inl e) \<Rightarrow> (w2, Inl e)
           | (w2, Inr vs) \<Rightarrow> (w2, Inr (v # vs))))"

definition refused_outcome ::
  "('v, 'p, 'w) plan \<Rightarrow> 'v fact_map \<Rightarrow> ('v, 'p, 'w) stage \<Rightarrow> refusal_reason \<Rightarrow> str \<Rightarrow> 'v outcome" where
  "refused_outcome p given s reason detail =
     \<lparr>out_succeeded = False, out_facts = given, out_not_tested = unreached p {}, out_attested = [],
      out_refusal = Some reason, out_detail = stage_name s @ '': '' @ detail\<rparr>"

fun first_refusal ::
  "('v, 'p, 'w) plan \<Rightarrow> ('v, 'p, 'w) stage list \<Rightarrow> preflight list \<Rightarrow> 'v fact_map \<Rightarrow> 'v outcome option" where
  "first_refusal p (s # stages) (v # verdicts) given =
     (case v of
        RefuseBecause reason detail \<Rightarrow> Some (refused_outcome p given s reason detail)
      | _ \<Rightarrow> first_refusal p stages verdicts given)"
| "first_refusal p _ _ given = None"

definition stopped_outcome ::
  "('v, 'p, 'w) plan \<Rightarrow> ('v, 'p, 'w) stage \<Rightarrow> ('v, 'p, 'w) progress \<Rightarrow> refusal_reason \<Rightarrow> str \<Rightarrow> 'v outcome" where
  "stopped_outcome p s pr reason detail =
     \<lparr>out_succeeded = False, out_facts = ctx_facts (pr_context pr),
      out_not_tested = unreached p (pr_completed pr), out_attested = attested_so_far pr,
      out_refusal = Some reason, out_detail = stage_name s @ '': '' @ detail\<rparr>"

definition step ::
  "('v, 'p, 'w) plan \<Rightarrow> ('v, 'p, 'w) stage \<Rightarrow> ('v, 'p, 'w) progress \<Rightarrow> 'w \<Rightarrow>
     'w \<times> ('v, 'p, 'w) progress \<times> 'v outcome option res" where
  "step p s pr w =
     (case stage_apply s (pr_context pr) w of
        (w', Inl e) \<Rightarrow> (w', pr, Inl e)
      | (w', Inr (Advance produced finaliser)) \<Rightarrow>
          (case with_facts (pr_context pr) produced (stage_id_of s) of
             Inl e \<Rightarrow> (w', pr, Inl e)
           | Inr ctx \<Rightarrow>
               (w', pr\<lparr>pr_context := ctx,
                       pr_finalisers := pr_finalisers pr @ (case finaliser of None \<Rightarrow> [] | Some f \<Rightarrow> [f]),
                       pr_completed := insert (stage_name s) (pr_completed pr),
                       pr_attested := pr_attested pr \<union> fset (stage_attests s)\<rparr>, Inr None))
      | (w', Inr (Skip reason detail)) \<Rightarrow> (w', pr, Inr None)
      | (w', Inr (Refuse reason detail)) \<Rightarrow> (w', pr, Inr (Some (stopped_outcome p s pr reason detail)))
      | (w', Inr (Fail cause)) \<Rightarrow> (w', pr, Inr (Some (stopped_outcome p s pr STAGE_FAILED cause))))"

fun apply_stages ::
  "('v, 'p, 'w) plan \<Rightarrow> ('v, 'p, 'w) stage list \<Rightarrow> preflight list \<Rightarrow> ('v, 'p, 'w) progress \<Rightarrow> 'w \<Rightarrow>
     'w \<times> ('v, 'p, 'w) progress \<times> 'v outcome option res" where
  "apply_stages p (s # stages) (v # verdicts) pr w =
     (case v of
        SkipBecause reason detail \<Rightarrow> apply_stages p stages verdicts pr w
      | _ \<Rightarrow>
          (case step p s pr w of
             (w', pr', Inr None) \<Rightarrow> apply_stages p stages verdicts pr' w'
           | stopped \<Rightarrow> stopped))"
| "apply_stages p _ _ pr w = (w, pr, Inr None)"

definition apply_plan ::
  "('v, 'p, 'w) plan \<Rightarrow> preflight list \<Rightarrow> 'p \<Rightarrow> 'v fact_map \<Rightarrow> 'w \<Rightarrow> 'w \<times> 'v outcome res" where
  "apply_plan p verdicts ports given w =
     (case apply_stages p (plan_stages p) verdicts
             \<lparr>pr_context = \<lparr>ctx_facts = given, ctx_ports = ports\<rparr>, pr_finalisers = [],
              pr_completed = {}, pr_attested = {}\<rparr> w of
        (w', pr, r) \<Rightarrow>
          (unwind (pr_finalisers pr) w',
           case r of
             Inl e \<Rightarrow> Inl e
           | Inr (Some stopped) \<Rightarrow> Inr stopped
           | Inr None \<Rightarrow>
               Inr \<lparr>out_succeeded = True, out_facts = ctx_facts (pr_context pr),
                    out_not_tested = unreached p (pr_completed pr), out_attested = attested_so_far pr,
                    out_refusal = None, out_detail = []\<rparr>))"

definition run_plan ::
  "('p \<Rightarrow> 'p) \<Rightarrow> ('v, 'p, 'w) plan \<Rightarrow> 'p \<Rightarrow> (fact_key \<times> 'v) list \<Rightarrow> 'w \<Rightarrow> 'w \<times> 'v outcome res" where
  "run_plan for_planning p ports seeds w =
     (case seeded seeds of
        Inl e \<Rightarrow> (w, Inl e)
      | Inr given \<Rightarrow>
          (case preflight_stages (plan_stages p) \<lparr>ctx_facts = given, ctx_ports = for_planning ports\<rparr> w of
             (w1, Inl e) \<Rightarrow> (w1, Inl e)
           | (w1, Inr verdicts) \<Rightarrow>
               (case first_refusal p (plan_stages p) verdicts given of
                  Some refused \<Rightarrow> (w1, Inr refused)
                | None \<Rightarrow> apply_plan p verdicts ports given w1)))"

subsection \<open>Preflight\<close>

text \<open>Ports that only compute: no preflight given them changes the world.\<close>

definition planning_inert :: "'p \<Rightarrow> ('v, 'p, 'w) plan \<Rightarrow> bool" where
  "planning_inert planning p \<longleftrightarrow>
     (\<forall>s \<in> set (plan_stages p). \<forall>ctx w. ctx_ports ctx = planning \<longrightarrow> fst (stage_preflight s ctx w) = w)"

lemma preflight_inert:
  "\<forall>s \<in> set stages. \<forall>w. fst (stage_preflight s ctx w) = w \<Longrightarrow> fst (preflight_stages stages ctx w) = w"
proof (induction stages arbitrary: w)
  case (Cons s stages)
  obtain w1 r where r: "stage_preflight s ctx w = (w1, r)" by (cases "stage_preflight s ctx w")
  moreover have "fst (stage_preflight s ctx w) = w" using Cons.prems by simp
  ultimately have "w1 = w" by simp
  with r Cons show ?case by (auto split: sum.splits prod.splits) (metis fst_conv)+
qed simp

lemma preflight_length: "preflight_stages stages ctx w = (w', Inr vs) \<Longrightarrow> length vs = length stages"
  by (induction stages arbitrary: w vs) (auto split: sum.splits prod.splits)

fun refuses :: "preflight \<Rightarrow> bool" where
  "refuses (RefuseBecause reason detail) = True"
| "refuses _ = False"

lemma first_refusal_None:
  "length vs = length stages \<Longrightarrow> first_refusal p stages vs given = None \<longleftrightarrow> list_all (\<lambda>v. \<not> refuses v) vs"
  by (induction stages vs rule: list_induct2') (auto split: preflight.splits)

lemma first_refusal_Some:
  "length vs = length stages \<Longrightarrow> first_refusal p stages vs given = Some out \<Longrightarrow>
     \<exists>i reason detail. i < length stages \<and> vs ! i = RefuseBecause reason detail
       \<and> list_all (\<lambda>v. \<not> refuses v) (take i vs)
       \<and> out = refused_outcome p given (stages ! i) reason detail"
proof (induction stages vs rule: list_induct2')
  case (4 s stages v vs)
  show ?case
  proof (cases v)
    case (RefuseBecause reason detail)
    with 4 show ?thesis by (intro exI [of _ 0]) simp
  next
    case (SkipBecause reason detail)
    with 4 obtain i reason' detail' where "i < length stages" "vs ! i = RefuseBecause reason' detail'"
      "list_all (\<lambda>v. \<not> refuses v) (take i vs)" "out = refused_outcome p given (stages ! i) reason' detail'"
      by auto
    with SkipBecause show ?thesis by (intro exI [of _ "Suc i"]) simp
  next
    case Ready
    with 4 obtain i reason' detail' where "i < length stages" "vs ! i = RefuseBecause reason' detail'"
      "list_all (\<lambda>v. \<not> refuses v) (take i vs)" "out = refused_outcome p given (stages ! i) reason' detail'"
      by auto
    with Ready show ?thesis by (intro exI [of _ "Suc i"]) simp
  qed
qed auto

subsection \<open>What a run says of itself\<close>

text \<open>
  The answers of the stages, told apart from the code that collects them. \<open>stages_run ports facts w planned
  advanced ended\<close>: the stages of \<open>planned\<close>, each with what its preflight said, were applied one after the
  other from \<open>facts\<close> and \<open>w\<close>; those that answered \<open>Advance\<close>, and no other, are \<open>advanced\<close> with the facts
  they produced; and the run got to the end, or \<open>ended\<close> says which stage stopped it and why.
\<close>

definition produced_entries :: "stage_id \<Rightarrow> (fact_key \<times> 'v) list \<Rightarrow> 'v fact_map" where
  "produced_entries by_stage produced =
     map (\<lambda>(k, v). (key_name k, \<lparr>entry_value = v, entry_produced_by = by_stage\<rparr>)) produced"

definition each_once :: "'v fact_map \<Rightarrow> bool" where
  "each_once facts \<longleftrightarrow> distinct (map fst facts)"

fun passes_over :: "preflight \<Rightarrow> bool" where
  "passes_over (SkipBecause reason detail) = True"
| "passes_over _ = False"

inductive stages_run ::
  "'p \<Rightarrow> 'v fact_map \<Rightarrow> 'w \<Rightarrow> (('v, 'p, 'w) stage \<times> preflight) list \<Rightarrow>
     (('v, 'p, 'w) stage \<times> (fact_key \<times> 'v) list) list \<Rightarrow> (('v, 'p, 'w) stage \<times> refusal_reason \<times> str) option \<Rightarrow> bool"
  for ports :: 'p where
  ran_out: "stages_run ports facts w [] [] None"
| passed_over:
    "passes_over v \<Longrightarrow> stages_run ports facts w planned advanced ended \<Longrightarrow>
       stages_run ports facts w ((s, v) # planned) advanced ended"
| skipped:
    "\<not> passes_over v \<Longrightarrow> stage_apply s \<lparr>ctx_facts = facts, ctx_ports = ports\<rparr> w = (w1, Inr (Skip reason detail)) \<Longrightarrow>
       stages_run ports facts w1 planned advanced ended \<Longrightarrow> stages_run ports facts w ((s, v) # planned) advanced ended"
| advanced:
    "\<not> passes_over v \<Longrightarrow> stage_apply s \<lparr>ctx_facts = facts, ctx_ports = ports\<rparr> w = (w1, Inr (Advance produced finaliser)) \<Longrightarrow>
       stages_run ports (facts @ produced_entries (stage_id_of s) produced) w1 planned advanced ended \<Longrightarrow>
       stages_run ports facts w ((s, v) # planned) ((s, produced) # advanced) ended"
| refused:
    "\<not> passes_over v \<Longrightarrow> stage_apply s \<lparr>ctx_facts = facts, ctx_ports = ports\<rparr> w = (w1, Inr (Refuse reason detail)) \<Longrightarrow>
       stages_run ports facts w ((s, v) # planned) [] (Some (s, reason, detail))"
| failed:
    "\<not> passes_over v \<Longrightarrow> stage_apply s \<lparr>ctx_facts = facts, ctx_ports = ports\<rparr> w = (w1, Inr (Fail cause)) \<Longrightarrow>
       stages_run ports facts w ((s, v) # planned) [] (Some (s, STAGE_FAILED, cause))"

inductive_simps stages_run_simps:
  "stages_run ports facts w [] advanced ended"
  "stages_run ports facts w ((s, v) # planned) advanced ended"

text \<open>
  \<open>accounts p facts advanced ended out\<close>: the outcome attests the checks of the stages that advanced and leaves
  those of all others untested, holds \<open>facts\<close> and what the stages that advanced produced, under their names, and
  no other fact; it succeeded exactly when no stage ended the run, and names the one that did.
\<close>

definition accounts ::
  "('v, 'p, 'w) plan \<Rightarrow> 'v fact_map \<Rightarrow> (('v, 'p, 'w) stage \<times> (fact_key \<times> 'v) list) list \<Rightarrow>
     (('v, 'p, 'w) stage \<times> refusal_reason \<times> str) option \<Rightarrow> 'v outcome \<Rightarrow> bool" where
  "accounts p facts advanced ended out \<longleftrightarrow>
     out_attested out = sorted_list_of_set (\<Union>s \<in> fst ` set advanced. fset (stage_attests s))
   \<and> out_not_tested out = sorted_list_of_set (\<Union>s \<in> set (plan_stages p) - fst ` set advanced. fset (stage_attests s))
   \<and> out_facts out = facts @ concat (map (\<lambda>(s, produced). produced_entries (stage_id_of s) produced) advanced)
   \<and> each_once (out_facts out)
   \<and> (out_succeeded out \<longleftrightarrow> ended = None)
   \<and> (case ended of None \<Rightarrow> out_refusal out = None
      | Some (s, reason, detail) \<Rightarrow> out_refusal out = Some reason \<and> out_detail out = stage_name s @ '': '' @ detail)"

lemma unreached_without:
  assumes "distinct (map stage_name (plan_stages p))" "D \<subseteq> set (plan_stages p)"
  shows "unreached p (stage_name ` D)
       = sorted_list_of_set (\<Union>s \<in> set (plan_stages p) - D. fset (stage_attests s))"
proof -
  have "stage_name s \<in> stage_name ` D \<longleftrightarrow> s \<in> D" if "s \<in> set (plan_stages p)" for s
    using that assms by (auto simp: distinct_map dest: inj_onD)
  then have "(\<Union>s \<in> set (plan_stages p). if stage_name s \<notin> stage_name ` D then fset (stage_attests s) else {})
      = (\<Union>s \<in> set (plan_stages p) - D. fset (stage_attests s))" by auto
  then show ?thesis by (simp add: unreached_def)
qed

lemma put_facts_appends:
  "rfold (put_fact by_stage) m produced = Inr m' \<Longrightarrow> m' = m @ produced_entries by_stage produced"
proof (induction produced arbitrary: m)
  case (Cons kv produced)
  then obtain m1 where m1: "put_fact by_stage m kv = Inr m1" "rfold (put_fact by_stage) m1 produced = Inr m'"
    by (auto simp: rbind_eq_Inr)
  from m1(1) have "m1 = m @ produced_entries by_stage [kv]"
    by (cases kv) (auto simp: put_fact_def with_fact_def dict_has_iff dict_set_new produced_entries_def domIff split: if_splits)
  with Cons.IH [OF m1(2)] show ?case by (simp add: produced_entries_def)
qed (simp add: produced_entries_def)

lemma put_facts_once:
  "rfold (put_fact by_stage) m produced = Inr m' \<Longrightarrow> each_once m \<Longrightarrow> each_once m'"
proof (induction produced arbitrary: m)
  case (Cons kv produced)
  then obtain m1 where "put_fact by_stage m kv = Inr m1" "rfold (put_fact by_stage) m1 produced = Inr m'"
    by (auto simp: rbind_eq_Inr)
  moreover from this(1) Cons.prems(2) have "each_once m1"
    by (auto simp: put_fact_def with_fact_def each_once_def intro: distinct_dict_set split: if_splits)
  ultimately show ?case by (intro Cons.IH)
qed simp

lemma with_facts_appends:
  assumes "with_facts ctx produced by_stage = Inr ctx'"
  shows "ctx' = \<lparr>ctx_facts = ctx_facts ctx @ produced_entries by_stage produced, ctx_ports = ctx_ports ctx\<rparr>"
    and "each_once (ctx_facts ctx) \<Longrightarrow> each_once (ctx_facts ctx')"
proof -
  from assms obtain m where m: "rfold (put_fact by_stage) (ctx_facts ctx) produced = Inr m" "ctx' = \<lparr>ctx_facts = m, ctx_ports = ctx_ports ctx\<rparr>"
    by (cases "rfold (put_fact by_stage) (ctx_facts ctx) produced") (auto simp: with_facts_def)
  from put_facts_appends [OF m(1)] put_facts_once [OF m(1)] m(2)
  show "ctx' = \<lparr>ctx_facts = ctx_facts ctx @ produced_entries by_stage produced, ctx_ports = ctx_ports ctx\<rparr>"
    "each_once (ctx_facts ctx) \<Longrightarrow> each_once (ctx_facts ctx')" by simp_all
qed

lemma with_facts_dom:
  "with_facts ctx produced by_stage = Inr ctx' \<Longrightarrow>
     dom (map_of (ctx_facts ctx')) = dom (map_of (ctx_facts ctx)) \<union> (key_name \<circ> fst) ` set produced"
  by (drule with_facts_appends(1)) (force simp: dom_map_of_conv_image_fst produced_entries_def)

lemma apply_stages_cases:
  assumes "apply_stages p (s # stages) (v # verdicts) pr w = (w', pr', r)"
  obtains (skipped) "passes_over v" "apply_stages p stages verdicts pr w = (w', pr', r)"
  | (advanced) w1 pr1 where "\<not> passes_over v" "step p s pr w = (w1, pr1, Inr None)"
      "apply_stages p stages verdicts pr1 w1 = (w', pr', r)"
  | (stopped) "\<not> passes_over v" "step p s pr w = (w', pr', r)" "r \<noteq> Inr None"
proof (cases "passes_over v")
  case True
  with assms show ?thesis by (cases v) (auto intro: skipped)
next
  case False
  obtain w1 pr1 r1 where st: "step p s pr w = (w1, pr1, r1)" by (cases "step p s pr w")
  with False assms show ?thesis
    by (cases v; cases r1 rule: sum.exhaust; cases "projr r1")
      (auto intro: advanced stopped split: option.splits)
qed

text \<open>What one step makes of the answer of its stage.\<close>

lemma step_cases:
  assumes "step p s pr w = (w', pr', Inr r)"
  obtains (Advance) produced finaliser where "stage_apply s (pr_context pr) w = (w', Inr (Advance produced finaliser))"
      "r = None" "with_facts (pr_context pr) produced (stage_id_of s) = Inr (pr_context pr')"
      "pr_completed pr' = insert (stage_name s) (pr_completed pr)"
      "pr_attested pr' = pr_attested pr \<union> fset (stage_attests s)"
  | (Skip) reason detail where "stage_apply s (pr_context pr) w = (w', Inr (Skip reason detail))" "r = None" "pr' = pr"
  | (Refuse) reason detail where "stage_apply s (pr_context pr) w = (w', Inr (Refuse reason detail))"
      "r = Some (stopped_outcome p s pr reason detail)" "pr' = pr"
  | (Fail) cause where "stage_apply s (pr_context pr) w = (w', Inr (Fail cause))"
      "r = Some (stopped_outcome p s pr STAGE_FAILED cause)" "pr' = pr"
proof -
  obtain w1 a where a: "stage_apply s (pr_context pr) w = (w1, a)" by (cases "stage_apply s (pr_context pr) w")
  show thesis
  proof (cases a)
    case (Inr answer)
    note at = a [unfolded Inr]
    show thesis
    proof (cases answer)
      case (Advance produced finaliser)
      with assms at obtain ctx where "with_facts (pr_context pr) produced (stage_id_of s) = Inr ctx"
        by (auto simp: step_def split: sum.splits)
      with assms at Advance show thesis by (intro that(1) [of produced finaliser]) (auto simp: step_def)
    next
      case (Skip reason detail)
      with assms at show thesis by (intro that(2)) (auto simp: step_def)
    next
      case (Refuse reason detail)
      with assms at show thesis by (intro that(3)) (auto simp: step_def)
    next
      case (Fail cause)
      with assms at show thesis by (intro that(4)) (auto simp: step_def)
    qed
  qed (use assms a in \<open>simp add: step_def\<close>)
qed

text \<open>Applying the stages is running them: the progress holds what the stages that advanced account for.\<close>

definition progressed ::
  "('v, 'p, 'w) progress \<Rightarrow> (('v, 'p, 'w) stage \<times> (fact_key \<times> 'v) list) list \<Rightarrow> ('v, 'p, 'w) progress \<Rightarrow> bool" where
  "progressed pr advanced pr' \<longleftrightarrow>
     ctx_facts (pr_context pr') = ctx_facts (pr_context pr)
       @ concat (map (\<lambda>(s, produced). produced_entries (stage_id_of s) produced) advanced)
   \<and> ctx_ports (pr_context pr') = ctx_ports (pr_context pr)
   \<and> (each_once (ctx_facts (pr_context pr)) \<longrightarrow> each_once (ctx_facts (pr_context pr')))
   \<and> pr_completed pr' = pr_completed pr \<union> stage_name ` fst ` set advanced
   \<and> pr_attested pr' = pr_attested pr \<union> (\<Union>s \<in> fst ` set advanced. fset (stage_attests s))"

lemma progressed_simps [simp]: "progressed pr [] pr"
  by (simp add: progressed_def)

lemma progressed_step:
  assumes "with_facts (pr_context pr) produced (stage_id_of s) = Inr (pr_context pr1)"
    and "pr_completed pr1 = insert (stage_name s) (pr_completed pr)" "pr_attested pr1 = pr_attested pr \<union> fset (stage_attests s)"
    and "progressed pr1 advanced pr'"
  shows "progressed pr ((s, produced) # advanced) pr'"
  using with_facts_appends [OF assms(1)] assms(2-4) by (auto simp: progressed_def)

definition ended_with ::
  "('v, 'p, 'w) plan \<Rightarrow> ('v, 'p, 'w) progress \<Rightarrow> (('v, 'p, 'w) stage \<times> refusal_reason \<times> str) option \<Rightarrow> 'v outcome option" where
  "ended_with p pr ended = map_option (\<lambda>(s, reason, detail). stopped_outcome p s pr reason detail) ended"

lemma run_context_eta: "stage_apply s (pr_context pr) w = answer \<Longrightarrow>
    stage_apply s \<lparr>ctx_facts = ctx_facts (pr_context pr), ctx_ports = ctx_ports (pr_context pr)\<rparr> w = answer"
  by (cases "pr_context pr") simp

abbreviation runs_from ::
  "('v, 'p, 'w) progress \<Rightarrow> 'w \<Rightarrow> (('v, 'p, 'w) stage \<times> preflight) list \<Rightarrow>
     (('v, 'p, 'w) stage \<times> (fact_key \<times> 'v) list) list \<Rightarrow> (('v, 'p, 'w) stage \<times> refusal_reason \<times> str) option \<Rightarrow> bool" where
  "runs_from pr \<equiv> stages_run (ctx_ports (pr_context pr)) (ctx_facts (pr_context pr))"

lemma step_goes_on:
  assumes "step p s pr w = (w1, pr1, Inr None)" "\<not> passes_over v"
    and "runs_from pr1 w1 planned advanced ended" "progressed pr1 advanced pr'"
  shows "\<exists>advanced'. runs_from pr w ((s, v) # planned) advanced' ended \<and> progressed pr advanced' pr'
    \<and> fst ` set advanced' \<subseteq> insert s (fst ` set advanced)"
  using assms(1)
proof (cases rule: step_cases)
  case (Advance produced finaliser)
  have "runs_from pr w ((s, v) # planned) ((s, produced) # advanced) ended"
    by (rule stages_run.advanced [OF assms(2) run_context_eta [OF Advance(1)]])
      (use assms(3) with_facts_appends(1) [OF Advance(3)] in simp)
  with progressed_step [OF Advance(3-5) assms(4)] show ?thesis
    by (intro exI [of _ "(s, produced) # advanced"]) simp
next
  case (Skip reason detail)
  with stages_run.skipped [OF assms(2) run_context_eta [OF Skip(1)]] assms(3,4) show ?thesis by blast
qed simp_all

lemma step_stops:
  assumes "step p s pr w = (w', pr', Inr (Some stopped))" "\<not> passes_over v"
  shows "\<exists>ended. runs_from pr w ((s, v) # planned) [] ended \<and> pr' = pr \<and> Some stopped = ended_with p pr ended"
  using assms(1)
proof (cases rule: step_cases)
  case (Refuse reason detail)
  with stages_run.refused [OF assms(2) run_context_eta [OF Refuse(1)]] show ?thesis
    by (intro exI [of _ "Some (s, reason, detail)"]) (simp add: ended_with_def)
next
  case (Fail cause)
  with stages_run.failed [OF assms(2) run_context_eta [OF Fail(1)]] show ?thesis
    by (intro exI [of _ "Some (s, STAGE_FAILED, cause)"]) (simp add: ended_with_def)
qed simp_all

lemma apply_stages_runs:
  assumes "length verdicts = length stages" "apply_stages p stages verdicts pr w = (w', pr', Inr r)"
  shows "\<exists>advanced ended. runs_from pr w (zip stages verdicts) advanced ended
    \<and> fst ` set advanced \<subseteq> set stages \<and> progressed pr advanced pr' \<and> r = ended_with p pr' ended"
  using assms
proof (induction stages arbitrary: verdicts pr w)
  case Nil
  then show ?case by (auto intro!: exI [of _ "[]"] exI [of _ None] stages_run.ran_out simp: ended_with_def)
next
  case (Cons s stages)
  from Cons.prems(1) obtain v vs where v: "verdicts = v # vs" "length vs = length stages" by (cases verdicts) auto
  from Cons.prems(2) [unfolded v] show ?case
    unfolding v zip_Cons_Cons
  proof (cases rule: apply_stages_cases)
    case skipped
    from Cons.IH [OF v(2) skipped(2)] stages_run.passed_over [OF skipped(1)] show
      "\<exists>advanced ended. runs_from pr w ((s, v) # zip stages vs) advanced ended
         \<and> fst ` set advanced \<subseteq> set (s # stages) \<and> progressed pr advanced pr' \<and> r = ended_with p pr' ended" by fastforce
  next
    case (advanced w1 pr1)
    from Cons.IH [OF v(2) advanced(3)] obtain adv ended where i: "runs_from pr1 w1 (zip stages vs) adv ended"
      "fst ` set adv \<subseteq> set stages" "progressed pr1 adv pr'" "r = ended_with p pr' ended" by blast
    from step_goes_on [OF advanced(2,1) i(1,3)] i(2,4) show
      "\<exists>advanced ended. runs_from pr w ((s, v) # zip stages vs) advanced ended
         \<and> fst ` set advanced \<subseteq> set (s # stages) \<and> progressed pr advanced pr' \<and> r = ended_with p pr' ended" by fastforce
  next
    case stopped
    then obtain out where "r = Some out" by (cases r) simp_all
    with step_stops [OF stopped(2) [unfolded this] stopped(1), of "zip stages vs"] show
      "\<exists>advanced ended. runs_from pr w ((s, v) # zip stages vs) advanced ended
         \<and> fst ` set advanced \<subseteq> set (s # stages) \<and> progressed pr advanced pr' \<and> r = ended_with p pr' ended"
      by (intro exI [of _ "[]"]) auto
  qed
qed

lemma apply_plan_accounts:
  assumes "distinct (map stage_name (plan_stages p))" "length verdicts = length (plan_stages p)" "each_once given"
    and "apply_plan p verdicts ports given w = (w', Inr out)"
  shows "\<exists>advanced ended. stages_run ports given w (zip (plan_stages p) verdicts) advanced ended \<and> accounts p given advanced ended out"
proof -
  let ?pr = "\<lparr>pr_context = \<lparr>ctx_facts = given, ctx_ports = ports\<rparr>, pr_finalisers = [], pr_completed = {}, pr_attested = {}\<rparr>"
  obtain w1 pr r where run: "apply_stages p (plan_stages p) verdicts ?pr w = (w1, pr, Inr r)"
    using assms(4) by (auto simp: apply_plan_def split: prod.splits sum.splits)
  from apply_stages_runs [OF assms(2) run] obtain advanced ended where
    ran: "stages_run ports given w (zip (plan_stages p) verdicts) advanced ended" and sub: "fst ` set advanced \<subseteq> set (plan_stages p)"
    and pr: "progressed ?pr advanced pr" and r: "r = ended_with p pr ended" by auto
  have out: "out = (case r of Some stopped \<Rightarrow> stopped | None \<Rightarrow>
      \<lparr>out_succeeded = True, out_facts = ctx_facts (pr_context pr), out_not_tested = unreached p (pr_completed pr),
       out_attested = attested_so_far pr, out_refusal = None, out_detail = []\<rparr>)"
    using assms(4) run by (auto simp: apply_plan_def split: option.splits)
  have "accounts p given advanced ended out"
    using pr assms(3) unreached_without [OF assms(1) sub]
    by (cases ended) (auto simp: out r ended_with_def accounts_def progressed_def attested_so_far_def stopped_outcome_def)
  with ran show ?thesis by blast
qed

text \<open>A run accounts for every check, refused or applied.\<close>

lemma run_plan_accounts:
  assumes "distinct (map stage_name (plan_stages p))"
    and "run_plan for_planning p ports seeds w = (w', Inr out)"
  shows "\<exists>w1 verdicts. let given = produced_entries SEED seeds in
      preflight_stages (plan_stages p) \<lparr>ctx_facts = given, ctx_ports = for_planning ports\<rparr> w = (w1, Inr verdicts)
    \<and> (if \<exists>v \<in> set verdicts. refuses v
       then \<exists>i reason detail. i < length (plan_stages p) \<and> verdicts ! i = RefuseBecause reason detail
          \<and> list_all (\<lambda>v. \<not> refuses v) (take i verdicts) \<and> accounts p given [] (Some (plan_stages p ! i, reason, detail)) out
       else \<exists>advanced ended. stages_run ports given w1 (zip (plan_stages p) verdicts) advanced ended
          \<and> accounts p given advanced ended out)"
proof -
  from assms(2) obtain given where g: "seeded seeds = Inr given" by (auto simp: run_plan_def split: sum.splits)
  have given: "given = produced_entries SEED seeds" "each_once given"
    using put_facts_appends [OF g [unfolded seeded_def]] put_facts_once [OF g [unfolded seeded_def]]
    by (simp_all add: each_once_def)
  from assms(2) g obtain w1 vs where vs:
    "preflight_stages (plan_stages p) \<lparr>ctx_facts = given, ctx_ports = for_planning ports\<rparr> w = (w1, Inr vs)"
    by (auto simp: run_plan_def split: sum.splits prod.splits)
  note len = preflight_length [OF vs]
  note none = first_refusal_None [OF len, of p given]
  show ?thesis
  proof (cases "first_refusal p (plan_stages p) vs given")
    case None
    with assms(2) g vs have "apply_plan p vs ports given w1 = (w', Inr out)" by (simp add: run_plan_def)
    from apply_plan_accounts [OF assms(1) len given(2) this] None none vs show ?thesis
      by (auto simp: given(1) Let_def list_all_iff)
  next
    case (Some out')
    with assms(2) g vs have "out' = out" by (simp add: run_plan_def)
    with first_refusal_Some [OF len Some] obtain i reason detail where i: "i < length (plan_stages p)"
      "vs ! i = RefuseBecause reason detail" "list_all (\<lambda>v. \<not> refuses v) (take i vs)"
      "out = refused_outcome p given (plan_stages p ! i) reason detail" by blast
    have "accounts p given [] (Some (plan_stages p ! i, reason, detail)) out"
      using given(2) by (simp add: accounts_def i(4) refused_outcome_def unreached_def)
    moreover have "\<exists>v \<in> set vs. refuses v" using Some none by (auto simp: list_all_iff)
    ultimately show ?thesis using vs i(1-3) by (auto simp: given(1) Let_def)
  qed
qed

text \<open>A run that a preflight refuses leaves the world as it found it.\<close>

lemma run_plan_refused:
  assumes "planning_inert (for_planning ports) p" "seeded seeds = Inr given"
    and "preflight_stages (plan_stages p) \<lparr>ctx_facts = given, ctx_ports = for_planning ports\<rparr> w = (w1, Inr vs)"
    and "i < length vs" "vs ! i = RefuseBecause reason detail" "list_all (\<lambda>v. \<not> refuses v) (take i vs)"
  shows "run_plan for_planning p ports seeds w =
    (w, Inr (refused_outcome p given (plan_stages p ! i) reason detail))"
proof -
  have "w1 = w"
    using preflight_inert [of "plan_stages p" "\<lparr>ctx_facts = given, ctx_ports = for_planning ports\<rparr>" w]
      assms(1,3) by (simp add: planning_inert_def)
  note len = preflight_length [OF assms(3)]
  have "\<not> list_all (\<lambda>v. \<not> refuses v) vs"
    using assms(4,5) by (auto simp: list_all_length)
  then obtain out where out: "first_refusal p (plan_stages p) vs given = Some out"
    using first_refusal_None [OF len] by (metis not_None_eq)
  from first_refusal_Some [OF len out] obtain j reason' detail' where j: "j < length (plan_stages p)"
    "vs ! j = RefuseBecause reason' detail'" "list_all (\<lambda>v. \<not> refuses v) (take j vs)"
    "out = refused_outcome p given (plan_stages p ! j) reason' detail'" by blast
  have "\<not> i < j" using j(3) assms(4,5) len j(1) by (auto simp: list_all_length)
  moreover have "\<not> j < i" using assms(6) j(2) assms(4) by (auto simp: list_all_length)
  ultimately have "i = j" by simp
  with j assms(5) out \<open>w1 = w\<close> assms(2,3) show ?thesis by (simp add: run_plan_def)
qed

subsection \<open>What a run takes it releases\<close>

text \<open>
  \<open>held\<close> reads off a world the names of what is held in it. A stage keeps its contract when
  its \<open>apply\<close> takes exactly the thing its finaliser is named after, and nothing when it returns
  no finaliser, refuses, fails or raises, and the finaliser lets go of that thing even when it
  raises. A stage is honest when it produces each fact it declares at most once and no other.
\<close>

definition releases :: "('w \<Rightarrow> str multiset) \<Rightarrow> 'w finaliser \<Rightarrow> bool" where
  "releases held f \<longleftrightarrow> (\<forall>w. held (fst (fin_release f w)) = held w - {#fin_name f#})"

definition takes :: "('w \<Rightarrow> str multiset) \<Rightarrow> ('v, 'w) stage_result res \<Rightarrow> 'w \<Rightarrow> 'w \<Rightarrow> bool" where
  "takes held r w w' \<longleftrightarrow>
     (case r of
        Inr (Advance produced (Some f)) \<Rightarrow> held w' = add_mset (fin_name f) (held w) \<and> releases held f
      | _ \<Rightarrow> held w' = held w)"

definition stage_holds :: "('w \<Rightarrow> str multiset) \<Rightarrow> ('v, 'p, 'w) stage \<Rightarrow> bool" where
  "stage_holds held s \<longleftrightarrow>
     (\<forall>ctx w. held (fst (stage_preflight s ctx w)) = held w)
   \<and> (\<forall>ctx w. takes held (snd (stage_apply s ctx w)) w (fst (stage_apply s ctx w)))"

definition stage_honest :: "('v, 'p, 'w) stage \<Rightarrow> bool" where
  "stage_honest s \<longleftrightarrow>
     (\<forall>ctx w produced f. snd (stage_apply s ctx w) = Inr (Advance produced f) \<longrightarrow>
        distinct (map (key_name \<circ> fst) produced) \<and> fst ` set produced \<subseteq> set (stage_writes s))"

definition written_by :: "('v, 'p, 'w) stage \<Rightarrow> str set" where
  "written_by s = key_name ` set (stage_writes s)"

lemma unwind_releases:
  "list_all (releases held) fs \<Longrightarrow> held w = H + mset (map fin_name fs) \<Longrightarrow> held (unwind fs w) = H"
proof (induction fs arbitrary: w rule: rev_induct)
  case (snoc f fs)
  then have "held (fst (fin_release f w)) = H + mset (map fin_name fs)" by (simp add: releases_def)
  with snoc show ?case by (simp add: unwind_def)
qed (simp add: unwind_def)

lemma preflight_holds:
  "\<forall>s \<in> set stages. stage_holds held s \<Longrightarrow> held (fst (preflight_stages stages ctx w)) = held w"
proof (induction stages arbitrary: w)
  case (Cons s stages)
  obtain w1 r where r: "stage_preflight s ctx w = (w1, r)" by (cases "stage_preflight s ctx w")
  moreover have "held (fst (stage_preflight s ctx w)) = held w"
    using Cons.prems by (simp add: stage_holds_def)
  ultimately have "held w1 = held w" by simp
  with Cons.IH [of w1] Cons.prems r show ?case by (auto split: sum.splits prod.splits)
qed simp

definition balanced :: "('w \<Rightarrow> str multiset) \<Rightarrow> str multiset \<Rightarrow> ('v, 'p, 'w) progress \<Rightarrow> 'w \<Rightarrow> bool" where
  "balanced held H pr w \<longleftrightarrow>
     list_all (releases held) (pr_finalisers pr) \<and> held w = H + mset (map fin_name (pr_finalisers pr))"

lemma step_balanced:
  assumes "stage_holds held s" "stage_honest s" "balanced held H pr w"
    and "written_by s \<inter> dom (map_of (ctx_facts (pr_context pr))) = {}"
    and "step p s pr w = (w', pr', r)"
  shows "balanced held H pr' w'"
    and "dom (map_of (ctx_facts (pr_context pr'))) \<subseteq> dom (map_of (ctx_facts (pr_context pr))) \<union> written_by s"
proof -
  obtain w1 a where a: "stage_apply s (pr_context pr) w = (w1, a)"
    by (cases "stage_apply s (pr_context pr) w")
  have t: "takes held a w w1"
    using assms(1) a unfolding stage_holds_def by (metis fst_conv snd_conv)
  have "balanced held H pr' w' \<and>
    dom (map_of (ctx_facts (pr_context pr'))) \<subseteq> dom (map_of (ctx_facts (pr_context pr))) \<union> written_by s"
  proof (cases "\<exists>produced f. a = Inr (Advance produced f)")
    case False
    then have "held w1 = held w"
      using t by (auto simp: takes_def split: sum.splits stage_result.splits)
    moreover have "w' = w1" "pr' = pr"
      using assms(5) a False by (auto simp: step_def split: sum.splits stage_result.splits)
    ultimately show ?thesis using assms(3) by (simp add: balanced_def)
  next
    case True
    then obtain produced f where adv: "a = Inr (Advance produced f)" by blast
    have honest: "distinct (map (key_name \<circ> fst) produced)" "fst ` set produced \<subseteq> set (stage_writes s)"
      using assms(2) a adv unfolding stage_honest_def by (metis snd_conv)+
    then have "(key_name \<circ> fst) ` set produced \<subseteq> written_by s" by (auto simp: written_by_def)
    with assms(4) have "(key_name \<circ> fst) ` set produced \<inter> dom (map_of (ctx_facts (pr_context pr))) = {}"
      by blast
    from put_facts_total [OF honest(1) this] obtain facts where
      "rfold (put_fact (stage_id_of s)) (ctx_facts (pr_context pr)) produced = Inr facts" by blast
    then obtain ctx where ctx: "with_facts (pr_context pr) produced (stage_id_of s) = Inr ctx"
      by (simp add: with_facts_def)
    have pr': "w' = w1" "pr_context pr' = ctx"
      "pr_finalisers pr' = pr_finalisers pr @ (case f of None \<Rightarrow> [] | Some f \<Rightarrow> [f])"
      using assms(5) a adv ctx by (auto simp: step_def)
    have "balanced held H pr' w'"
      using t adv assms(3) pr' by (cases f) (auto simp: takes_def balanced_def)
    moreover have "dom (map_of (ctx_facts (pr_context pr')))
        \<subseteq> dom (map_of (ctx_facts (pr_context pr))) \<union> written_by s"
      using with_facts_dom [OF ctx] \<open>(key_name \<circ> fst) ` set produced \<subseteq> written_by s\<close> pr'(2) by auto
    ultimately show ?thesis by blast
  qed
  then show "balanced held H pr' w'"
    "dom (map_of (ctx_facts (pr_context pr'))) \<subseteq> dom (map_of (ctx_facts (pr_context pr))) \<union> written_by s"
    by auto
qed

fun writes_apart :: "('v, 'p, 'w) stage list \<Rightarrow> bool" where
  "writes_apart [] = True"
| "writes_apart (s # stages) =
     ((\<forall>t \<in> set stages. written_by s \<inter> written_by t = {}) \<and> writes_apart stages)"

lemma apply_stages_balanced:
  "\<forall>s \<in> set stages. stage_holds held s \<and> stage_honest s
      \<and> written_by s \<inter> dom (map_of (ctx_facts (pr_context pr))) = {} \<Longrightarrow>
     writes_apart stages \<Longrightarrow> balanced held H pr w \<Longrightarrow>
     apply_stages p stages verdicts pr w = (w', pr', r) \<Longrightarrow> balanced held H pr' w'"
proof (induction stages arbitrary: verdicts pr w)
  case (Cons s stages)
  have apart: "writes_apart stages" "\<forall>t \<in> set stages. written_by s \<inter> written_by t = {}"
    using Cons.prems(2) by simp_all
  show ?case
  proof (cases verdicts)
    case (Cons v vs)
    from "Cons.prems"(1) have s: "stage_holds held s" "stage_honest s"
      "written_by s \<inter> dom (map_of (ctx_facts (pr_context pr))) = {}" by auto
    from Cons.prems(4) [unfolded Cons] show ?thesis
    proof (cases rule: apply_stages_cases)
      case skipped
      then show ?thesis using Cons.IH [of pr] Cons.prems apart(1) by auto
    next
      case (advanced w1 pr1)
      note b = step_balanced [OF s(1,2) Cons.prems(3) s(3) advanced(2)]
      have "\<forall>t \<in> set stages. stage_holds held t \<and> stage_honest t
          \<and> written_by t \<inter> dom (map_of (ctx_facts (pr_context pr1))) = {}"
      proof
        fix t assume t: "t \<in> set stages"
        from apart(2) t have "written_by s \<inter> written_by t = {}" by (rule bspec)
        moreover have "stage_holds held t" "stage_honest t"
          "written_by t \<inter> dom (map_of (ctx_facts (pr_context pr))) = {}" using Cons.prems(1) t by simp_all
        ultimately show "stage_holds held t \<and> stage_honest t
            \<and> written_by t \<inter> dom (map_of (ctx_facts (pr_context pr1))) = {}"
          using b(2) by blast
      qed
      from Cons.IH [OF this apart(1) b(1) advanced(3)] show ?thesis .
    next
      case stopped
      from step_balanced(1) [OF s(1,2) Cons.prems(3) s(3) stopped(2)] show ?thesis .
    qed
  qed (use Cons.prems in auto)
qed auto

lemma run_plan_releases:
  assumes "\<forall>s \<in> set (plan_stages p). stage_holds held s \<and> stage_honest s
      \<and> written_by s \<inter> (key_name \<circ> fst) ` set seeds = {}"
    and "writes_apart (plan_stages p)"
  shows "held (fst (run_plan for_planning p ports seeds w)) = held w"
proof (cases "seeded seeds")
  case (Inr given)
  have dom: "dom (map_of given) = (key_name \<circ> fst) ` set seeds"
    using put_facts_dom [OF Inr [unfolded seeded_def]] by simp
  obtain w1 r where vs:
    "preflight_stages (plan_stages p) \<lparr>ctx_facts = given, ctx_ports = for_planning ports\<rparr> w = (w1, r)"
    by (cases "preflight_stages (plan_stages p) \<lparr>ctx_facts = given, ctx_ports = for_planning ports\<rparr> w")
  have held1: "held w1 = held w"
    using preflight_holds [of "plan_stages p" held
        "\<lparr>ctx_facts = given, ctx_ports = for_planning ports\<rparr>" w] assms(1) vs by simp
  have applied: "held (fst (apply_plan p verdicts ports given w1)) = held w1" for verdicts
  proof -
    let ?pr = "\<lparr>pr_context = \<lparr>ctx_facts = given, ctx_ports = ports\<rparr>, pr_finalisers = [],
        pr_completed = {}, pr_attested = {}\<rparr>"
    obtain w2 pr r' where run: "apply_stages p (plan_stages p) verdicts ?pr w1 = (w2, pr, r')"
      by (cases "apply_stages p (plan_stages p) verdicts ?pr w1")
    have "balanced held (held w1) ?pr w1" by (simp add: balanced_def)
    from apply_stages_balanced [OF _ assms(2) this run] assms(1) dom
    have "balanced held (held w1) pr w2" by simp
    then show ?thesis using run unwind_releases [of held "pr_finalisers pr" w2 "held w1"]
      by (simp add: apply_plan_def balanced_def)
  qed
  show ?thesis
    using Inr vs held1 applied by (auto simp: run_plan_def split: sum.splits option.splits)
qed (simp add: run_plan_def)

lemma plan_writes_apart:
  assumes "distinct (map stage_name declared)" "plan_of name declared seeds = Inr p"
  shows "writes_apart (plan_stages p)"
proof -
  note pl = plan_of_Inr [OF assms]
  have d: "distinct (map node_id (map stage_node declared))"
    using assms(1) by (simp add: stage_node_def comp_def)
  have "\<not> written_twice (map stage_node declared)"
    using order_of_Inl [OF d stage_node_ok, of "key_name ` seeds" RegistrationError] pl(1) by auto
  then have apart: "written_by s \<inter> written_by t = {}"
    if "s \<in> set declared" "t \<in> set declared" "stage_name s \<noteq> stage_name t" for s t
    using that unfolding written_twice_def
    by (fastforce simp: stage_node_def written_by_def)
  have "writes_apart stages" if "set stages \<subseteq> set declared" "distinct (map stage_name stages)" for stages
    using that
  proof (induction stages)
    case (Cons s stages)
    then have "stage_name s \<noteq> stage_name t" if "t \<in> set stages" for t using that by auto
    with Cons apart show ?case by (simp add: subset_iff)
  qed simp
  with pl(2,3) show ?thesis by simp
qed

end
