(* ===== verification/PortIO.thy ===== *)
theory PortIO
  imports Errors
begin

section \<open>Operations on a state that may raise\<close>

text \<open>
  A call on a port takes the state the port acts on and returns the state it leaves behind with
  a value or the exception it raised: an exception does not undo what was done before it.
\<close>

type_synonym ('s, 'a) io = "'s \<Rightarrow> 's \<times> 'a res"

definition io_return :: "'a \<Rightarrow> ('s, 'a) io" where
  "io_return x s = (s, Inr x)"

definition io_raise :: "exn \<Rightarrow> ('s, 'a) io" where
  "io_raise e s = (s, Inl e)"

definition io_lift :: "'a res \<Rightarrow> ('s, 'a) io" where
  "io_lift r s = (s, r)"

definition io_read :: "('s \<Rightarrow> 'a) \<Rightarrow> ('s, 'a) io" where
  "io_read f s = (s, Inr (f s))"

definition io_ask :: "('s \<Rightarrow> 'a res) \<Rightarrow> ('s, 'a) io" where
  "io_ask f s = (s, f s)"

definition io_bind :: "('s, 'a) io \<Rightarrow> ('a \<Rightarrow> ('s, 'b) io) \<Rightarrow> ('s, 'b) io" where
  "io_bind m f s = (case m s of (s', Inl e) \<Rightarrow> (s', Inl e) | (s', Inr x) \<Rightarrow> f x s')"

definition io_then :: "('s, 'a) io \<Rightarrow> ('s, 'b) io \<Rightarrow> ('s, 'b) io" where
  "io_then m n = io_bind m (\<lambda>_. n)"

fun io_mapM :: "('a \<Rightarrow> ('s, 'b) io) \<Rightarrow> 'a list \<Rightarrow> ('s, 'b list) io" where
  "io_mapM f [] = io_return []"
| "io_mapM f (x # xs) = io_bind (f x) (\<lambda>y. io_bind (io_mapM f xs) (\<lambda>ys. io_return (y # ys)))"

named_theorems io_simps \<open>running sequenced port calls\<close>

lemma io_apply [simp, io_simps]:
  "io_return x s = (s, Inr x)" "io_raise e s = (s, Inl e)" "io_lift r s = (s, r)"
  "io_read f s = (s, Inr (f s))" "io_ask g s = (s, g s)"
  by (simp_all add: io_return_def io_raise_def io_lift_def io_read_def io_ask_def)

lemma io_bind_step [io_simps]:
  "m s = (s', Inr x) \<Longrightarrow> io_bind m f s = f x s'"
  "m s = (s', Inl e) \<Longrightarrow> io_bind m f s = (s', Inl e)"
  by (simp_all add: io_bind_def)

lemma io_bind_simple [simp, io_simps]:
  "io_bind (io_return x) f s = f x s" "io_bind (io_raise e) f s = (s, Inl e)"
  "io_bind (io_read g) f s = f (g s) s"
  "io_bind (io_lift (Inr x)) f s = f x s" "io_bind (io_lift (Inl e)) f s = (s, Inl e)"
  by (simp_all add: io_bind_def)

lemma io_bind_Inr:
  "io_bind m f s = (s', Inr y) \<longleftrightarrow> (\<exists>s1 x. m s = (s1, Inr x) \<and> f x s1 = (s', Inr y))"
  by (auto simp: io_bind_def split: prod.splits sum.splits)

lemma io_bind_Inl:
  "io_bind m f s = (s', Inl e) \<longleftrightarrow>
     m s = (s', Inl e) \<or> (\<exists>s1 x. m s = (s1, Inr x) \<and> f x s1 = (s', Inl e))"
  by (auto simp: io_bind_def split: prod.splits sum.splits)

lemma io_then_Inr:
  "io_then m n s = (s', Inr y) \<longleftrightarrow> (\<exists>s1 x. m s = (s1, Inr x) \<and> n s1 = (s', Inr y))"
  by (simp add: io_then_def io_bind_Inr)

lemma io_lift_bind_Inr:
  "io_bind (io_lift r) f s = (s', Inr y) \<longleftrightarrow> (\<exists>x. r = Inr x \<and> f x s = (s', Inr y))"
  by (cases r) (simp_all add: io_bind_def)

lemma io_ask_bind: "io_bind (io_ask g) f s = (case g s of Inl e \<Rightarrow> (s, Inl e) | Inr x \<Rightarrow> f x s)"
  by (simp add: io_bind_def split: sum.splits)

text \<open>What every call keeps, the sequence keeps.\<close>

lemma io_bind_keeps:
  assumes "io_bind m f s = (s', r)" "P s"
    and "\<And>s1 x. m s = (s1, x) \<Longrightarrow> P s1" "\<And>s1 x s2 y. P s1 \<Longrightarrow> f x s1 = (s2, y) \<Longrightarrow> P s2"
  shows "P s'"
  using assms by (auto simp: io_bind_def split: prod.splits sum.splits)

lemma io_mapM_keeps:
  assumes "io_mapM f xs s = (s', r)" "P s" "\<And>x s1 s2 y. x \<in> set xs \<Longrightarrow> P s1 \<Longrightarrow> f x s1 = (s2, y) \<Longrightarrow> P s2"
  shows "P s'"
  using assms
proof (induction xs arbitrary: s s' r)
  case (Cons x xs)
  obtain s1 a where a: "f x s = (s1, a)" by (cases "f x s")
  with Cons.prems have p1: "P s1" by auto
  obtain s2 b where b: "io_mapM f xs s1 = (s2, b)" by (cases "io_mapM f xs s1")
  with Cons.IH [OF b p1] Cons.prems(3) have "P s2" by auto
  with Cons.prems(1) a b p1 show ?case by (auto simp: io_bind_def split: sum.splits)
qed simp

lemma io_mapM_Inr:
  "io_mapM f (x # xs) s = (s', Inr zs) \<longleftrightarrow>
     (\<exists>s1 y ys. f x s = (s1, Inr y) \<and> io_mapM f xs s1 = (s', Inr ys) \<and> zs = y # ys)"
  by (auto simp: io_bind_Inr)

definition io_keeps :: "('s \<Rightarrow> bool) \<Rightarrow> ('s, 'a) io \<Rightarrow> bool" where
  "io_keeps P m \<longleftrightarrow> (\<forall>s. P s \<longrightarrow> P (fst (m s)))"

named_theorems io_keeping \<open>what keeps a property of the state\<close>

lemma io_keeps_simple [intro, io_keeping]:
  "io_keeps P (io_return x)" "io_keeps P (io_raise e)" "io_keeps P (io_lift r)" "io_keeps P (io_read f)" "io_keeps P (io_ask g)"
  by (simp_all add: io_keeps_def)

lemma io_keeps_bind [intro, io_keeping]:
  "io_keeps P m \<Longrightarrow> (\<And>x. io_keeps P (f x)) \<Longrightarrow> io_keeps P (io_bind m f)"
  unfolding io_keeps_def io_bind_def
  by (auto split: prod.splits sum.splits)

lemma io_keeps_if [intro, io_keeping]:
  "(b \<Longrightarrow> io_keeps P m) \<Longrightarrow> (\<not> b \<Longrightarrow> io_keeps P n) \<Longrightarrow> io_keeps P (if b then m else n)"
  by simp

lemma io_keepsI: "(\<And>s s' r. P s \<Longrightarrow> m s = (s', r) \<Longrightarrow> P s') \<Longrightarrow> io_keeps P m"
  by (auto simp: io_keeps_def) (metis prod.collapse)

lemma io_keepsD: "io_keeps P m \<Longrightarrow> P s \<Longrightarrow> m s = (s', r) \<Longrightarrow> P s'"
  by (auto simp: io_keeps_def)

text \<open>A call on a port inside an object with a state of its own.\<close>

definition on_port :: "('s, 'a) io \<Rightarrow> ('s \<times> 'o, 'a) io" where
  "on_port m so = (case m (fst so) of (s', r) \<Rightarrow> ((s', snd so), r))"

definition on_object :: "('o \<Rightarrow> 'o) \<Rightarrow> ('s \<times> 'o, unit) io" where
  "on_object f so = ((fst so, f (snd so)), Inr ())"

lemma on_port_apply [simp]: "on_port m (s, x) = (case m s of (s', r) \<Rightarrow> ((s', x), r))"
  by (simp add: on_port_def)

lemma on_object_apply [simp]: "on_object f (s, x) = ((s, f x), Inr ())"
  by (simp add: on_object_def)

end
