(* ===== verification/SafePaths.thy ===== *)
theory SafePaths
  imports KernelValues Claims
begin

section \<open>Paths that carry their own validation (kernel/safepaths.py, secrets.py, treerows.py)\<close>

text \<open>
  A path is the text pathlib renders it as: absolute where it was resolved, without doubled or
  trailing separators. What the host answers about a path, following links included, is the
  parameter \<open>host\<close>; the decisions taken on those answers are the program's.
\<close>

record host =
  host_expand :: "str \<Rightarrow> str"
  host_resolve :: "str \<Rightarrow> str"
  host_is_symlink :: "str \<Rightarrow> bool"
  host_is_dir :: "str \<Rightarrow> bool"
  host_is_file :: "str \<Rightarrow> bool"
  host_mode :: "str \<Rightarrow> int"

definition is_relative_to :: "str \<Rightarrow> str \<Rightarrow> bool" where
  "is_relative_to path base \<longleftrightarrow> path = base \<or> base = ''/'' \<or> starts_with path (base @ ''/'')"

definition path_join :: "str \<Rightarrow> str \<Rightarrow> str" where
  "path_join base rel =
     (if starts_with rel ''/'' then rel
      else if base = [] \<or> ends_with base ''/'' then base @ rel
      else base @ ''/'' @ rel)"

subsection \<open>Roots\<close>

definition PRIVATE_DIRECTORY_MODE :: file_mode where "PRIVATE_DIRECTORY_MODE = FileMode 448"

definition OPTION_SEPARATOR :: char where "OPTION_SEPARATOR = CHR '',''"

datatype runtime_root = RuntimeRoot (root_path: str)

datatype safe_path = SafePath (safe_path_str: str)

definition resolve_root :: "host \<Rightarrow> str \<Rightarrow> str list \<Rightarrow> runtime_root res" where
  "resolve_root h candidate permitted =
     (let resolved = host_resolve h (host_expand h candidate) in
      if \<not> list_ex (\<lambda>base. is_relative_to resolved (host_resolve h base)) permitted
      then Inl (Refusal RUNTIME_ROOT_NOT_PERMITTED)
      else if \<not> host_is_dir h resolved then Inl (Refusal PATH_NOT_A_DIRECTORY)
      else if host_mode h resolved \<noteq> mode_value PRIVATE_DIRECTORY_MODE
      then Inl (Refusal RUNTIME_ROOT_NOT_PRIVATE)
      else Inr (RuntimeRoot resolved))"

definition adopt_root :: "host \<Rightarrow> str \<Rightarrow> runtime_root res" where
  "adopt_root h path =
     (if host_is_symlink h path then Inl (Refusal PATH_IS_A_SYMLINK)
      else
        (let resolved = host_resolve h path in
         if \<not> host_is_dir h resolved then Inl (Refusal PATH_NOT_A_DIRECTORY)
         else if host_mode h resolved \<noteq> mode_value PRIVATE_DIRECTORY_MODE
         then Inl (Refusal RUNTIME_ROOT_NOT_PRIVATE)
         else Inr (RuntimeRoot resolved)))"

definition mk_safe_path :: "str \<Rightarrow> safe_path res" where
  "mk_safe_path path =
     (if OPTION_SEPARATOR \<in> set path then Inl (Refusal PATH_CONTAINS_OPTION_SEPARATOR)
      else Inr (SafePath path))"

definition root_child :: "host \<Rightarrow> runtime_root \<Rightarrow> str \<Rightarrow> safe_path res" where
  "root_child h rt rel =
     (let target = host_resolve h (path_join (root_path rt) rel) in
      if \<not> is_relative_to target (root_path rt) then Inl (Refusal PATH_OUTSIDE_RUNTIME_ROOT)
      else mk_safe_path target)"

definition safe_regular_file :: "host \<Rightarrow> str \<Rightarrow> runtime_root \<Rightarrow> safe_path res" where
  "safe_regular_file h candidate within_root =
     (if host_is_symlink h candidate then Inl (Refusal PATH_IS_A_SYMLINK)
      else
        (let resolved = host_resolve h candidate in
         if \<not> is_relative_to resolved (root_path within_root) then Inl (Refusal PATH_OUTSIDE_RUNTIME_ROOT)
         else if \<not> host_is_file h resolved then Inl (Refusal PATH_NOT_A_REGULAR_FILE)
         else mk_safe_path resolved))"

definition safe_path_div :: "safe_path \<Rightarrow> str \<Rightarrow> safe_path res" where
  "safe_path_div p name = mk_safe_path (path_join (safe_path_str p) name)"

datatype regular_file = RegularFile (regular_file_path: str)

definition adopt_regular_file :: "host \<Rightarrow> str \<Rightarrow> regular_file res" where
  "adopt_regular_file h candidate =
     (if host_is_symlink h candidate then Inl (Refusal PATH_IS_A_SYMLINK)
      else
        (let resolved = host_resolve h candidate in
         if \<not> host_is_file h resolved then Inl (Refusal PATH_NOT_A_REGULAR_FILE)
         else Inr (RegularFile resolved)))"

datatype source_root = SourceRoot (source_root_path: str)

definition adopt_source_root :: "host \<Rightarrow> str \<Rightarrow> source_root res" where
  "adopt_source_root h path =
     (if host_is_symlink h path then Inl (Refusal PATH_IS_A_SYMLINK)
      else
        (let resolved = host_resolve h path in
         if \<not> host_is_dir h resolved then Inl (Refusal PATH_NOT_A_DIRECTORY)
         else Inr (SourceRoot resolved)))"

lemma mk_safe_path_Inr [simp]:
  "mk_safe_path s = Inr p \<longleftrightarrow> p = SafePath s \<and> CHR '','' \<notin> set s"
  by (auto simp: mk_safe_path_def OPTION_SEPARATOR_def)

text \<open>Every path handed to a port from below a root lies below it and holds no option separator.\<close>

lemma root_child_Inr:
  "root_child h rt rel = Inr p \<longleftrightarrow>
     p = SafePath (host_resolve h (path_join (root_path rt) rel))
   \<and> is_relative_to (safe_path_str p) (root_path rt) \<and> CHR '','' \<notin> set (safe_path_str p)"
  by (auto simp: root_child_def Let_def split: if_splits)

lemma safe_regular_file_Inr:
  "safe_regular_file h c rt = Inr p \<Longrightarrow>
     is_relative_to (safe_path_str p) (root_path rt) \<and> host_is_file h (safe_path_str p)
   \<and> CHR '','' \<notin> set (safe_path_str p)"
  by (auto simp: safe_regular_file_def Let_def split: if_splits)

lemma resolve_root_Inr:
  "resolve_root h c permitted = Inr rt \<Longrightarrow>
     (\<exists>base \<in> set permitted. is_relative_to (root_path rt) (host_resolve h base))
   \<and> host_is_dir h (root_path rt) \<and> host_mode h (root_path rt) = 448"
  by (auto simp: resolve_root_def Let_def PRIVATE_DIRECTORY_MODE_def list_ex_iff split: if_splits)

lemma is_relative_to_trans:
  "is_relative_to a b \<Longrightarrow> is_relative_to b c \<Longrightarrow> c \<noteq> [] \<Longrightarrow> is_relative_to a c"
  unfolding is_relative_to_def starts_with_def
  by (auto simp: prefix_def Cons_eq_append_conv)

subsection \<open>Remote paths\<close>

definition SAFE_REMOTE_PATH :: pattern where
  "SAFE_REMOTE_PATH =
     RSeq (lit ''/'')
          (RStar (RClass (\<lambda>c. is_lower c \<or> is_upper c \<or> is_digit c \<or> c \<in> set ''._/-'')))"

datatype remote_path = RemotePath (remote_path_value: str)

definition mk_remote_path :: "str \<Rightarrow> remote_path res" where
  "mk_remote_path v =
     (if \<not> fullmatch SAFE_REMOTE_PATH v then Inl (Refusal SHELL_STRING_NOT_ACCEPTED)
      else Inr (RemotePath v))"

definition remote_joined :: "remote_path \<Rightarrow> str \<Rightarrow> remote_path res" where
  "remote_joined p name = mk_remote_path (path_join (remote_path_value p) name)"

lemma fullmatch_SAFE_REMOTE_PATH:
  "fullmatch SAFE_REMOTE_PATH s \<longleftrightarrow>
     (\<exists>r. s = CHR ''/'' # r \<and> list_all (\<lambda>c. is_lower c \<or> is_upper c \<or> is_digit c \<or> c \<in> set ''._/-'') r)"
  unfolding SAFE_REMOTE_PATH_def fullmatch_lit_seq fullmatch_star_class
  by (cases s) (auto simp: starts_with_def)

subsection \<open>Secrets\<close>

text \<open>
  A secret's material leaves through a sink only: its rendering as text is refused and its
  representation is a fixed word.
\<close>

datatype lifetime = DISPOSABLE_FIXTURE | BUILDER_RESIDENT | OPERATOR_SUPPLIED

fun lifetime_value :: "lifetime \<Rightarrow> str" where
  "lifetime_value DISPOSABLE_FIXTURE = ''disposable-fixture''"
| "lifetime_value BUILDER_RESIDENT = ''builder-resident''"
| "lifetime_value OPERATOR_SUPPLIED = ''operator-supplied''"

datatype 'a secret = Secret (secret_material: 'a)

definition reveal_into :: "'a secret \<Rightarrow> ('s \<Rightarrow> 'a \<Rightarrow> 's) \<Rightarrow> 's \<Rightarrow> 's" where
  "reveal_into secret accept sink = accept sink (secret_material secret)"

definition secret_repr :: "'a secret \<Rightarrow> str" where
  "secret_repr s = ''<redacted>''"

definition secret_str :: "'a secret \<Rightarrow> str res" where
  "secret_str s = Inl (Refusal SECRET_NOT_RENDERABLE)"

definition secret_format :: "'a secret \<Rightarrow> str \<Rightarrow> str res" where
  "secret_format s specification = secret_str s"

definition collecting_accept :: "'a option \<Rightarrow> 'a \<Rightarrow> 'a option" where
  "collecting_accept sink material = Some material"

record credential_handle =
  cred_purpose :: str
  cred_lifetime :: lifetime

subsection \<open>Git rows\<close>

definition UPWARD :: str where "UPWARD = ''..''"

datatype entry_mode = REGULAR_MODE | EXECUTABLE_MODE | SYMLINK_MODE | GITLINK_MODE

fun entry_mode_value :: "entry_mode \<Rightarrow> str" where
  "entry_mode_value REGULAR_MODE = ''100644''"
| "entry_mode_value EXECUTABLE_MODE = ''100755''"
| "entry_mode_value SYMLINK_MODE = ''120000''"
| "entry_mode_value GITLINK_MODE = ''160000''"

definition parse_entry_mode :: "str \<Rightarrow> entry_mode res" where
  "parse_entry_mode raw =
     rcatch (enum_of entry_mode_value [REGULAR_MODE, EXECUTABLE_MODE, SYMLINK_MODE, GITLINK_MODE] raw)
       is_value_error (Inl (Refusal MALFORMED_TREE_ROW))"

definition carries_blob :: "entry_mode \<Rightarrow> bool" where
  "carries_blob m \<longleftrightarrow> m \<in> {REGULAR_MODE, EXECUTABLE_MODE}"

text \<open>\<open>PurePosixPath\<close>: the root if there is one, then the components that are not empty or \<open>.\<close>.\<close>

definition path_root :: "str \<Rightarrow> str" where
  "path_root s =
     (if starts_with s ''//'' \<and> \<not> starts_with s ''///'' then ''//''
      else if starts_with s ''/'' then ''/'' else [])"

definition path_parts :: "str \<Rightarrow> str list" where
  "path_parts s =
     (if path_root s = [] then [] else [path_root s])
     @ filter (\<lambda>c. c \<noteq> [] \<and> c \<noteq> ''.'') (split_on CHR ''/'' s)"

text \<open>\<open>str(Path(s))\<close>.\<close>

definition path_text :: "str \<Rightarrow> str" where
  "path_text s =
     (let tail = filter (\<lambda>c. c \<noteq> [] \<and> c \<noteq> ''.'') (split_on CHR ''/'' s)
      in if path_root s = [] \<and> tail = [] then ''.'' else path_root s @ join ''/'' tail)"

definition path_name :: "str \<Rightarrow> str" where
  "path_name s =
     (let tail = filter (\<lambda>c. c \<noteq> [] \<and> c \<noteq> ''.'') (split_on CHR ''/'' s)
      in if tail = [] then [] else last tail)"

definition path_suffix :: "str \<Rightarrow> str" where
  "path_suffix s =
     (let name = path_name s;
          after = rev (takeWhile (\<lambda>c. c \<noteq> CHR ''.'') (rev name));
          stem = take (length name - length after - 1) name
      in if CHR ''.'' \<in> set name \<and> list_ex (\<lambda>c. c \<noteq> CHR ''.'') stem then CHR ''.'' # after else [])"

datatype repo_path = RepoPath (repo_path_value: str)

definition repo_components :: "repo_path \<Rightarrow> str list" where
  "repo_components p = path_parts (repo_path_value p)"

definition directory_components :: "repo_path \<Rightarrow> str list" where
  "directory_components p = butlast (path_parts (repo_path_value p))"

definition name_lowered :: "repo_path \<Rightarrow> str" where
  "name_lowered p = lowered (path_name (repo_path_value p))"

definition suffix_lowered :: "repo_path \<Rightarrow> str" where
  "suffix_lowered p = lowered (path_suffix (repo_path_value p))"

definition repo_is_absolute :: "repo_path \<Rightarrow> bool" where
  "repo_is_absolute p \<longleftrightarrow> path_root (repo_path_value p) \<noteq> []"

definition traverses_upward :: "repo_path \<Rightarrow> bool" where
  "traverses_upward p \<longleftrightarrow> UPWARD \<in> set (path_parts (repo_path_value p))"

lemma parse_entry_mode_Inr: "parse_entry_mode raw = Inr m \<Longrightarrow> entry_mode_value m = raw"
  by (auto simp: parse_entry_mode_def rcatch_eq_Inr dest: enum_of_Inr)

lemma parse_entry_mode_Inl: "parse_entry_mode raw = Inl e \<Longrightarrow> e = Refusal MALFORMED_TREE_ROW"
  by (auto simp: parse_entry_mode_def rcatch_def split: sum.splits if_splits dest: enum_of_Inl)

end
