(* ===== verification/FilesPort.thy ===== *)
theory FilesPort
  imports PortIO SafePaths Identifiers PyJson
begin

section \<open>The file system port (ports/files.py)\<close>

text \<open>
  The port is a record of the operations its protocol declares, over a state \<open>'fs\<close>. The locale
  \<open>file_store\<close> states what the operations the evidence store uses promise about the bytes at a
  path, \<open>content\<close>, in a state that is \<open>plain\<close>: one where the operations do what their names say,
  without a link in the way or a full device. Writing a file makes nothing exist but the file and
  the directories above it. What a client needs of any implementation is
  proved in the locale; the in-memory tree of the test bundle interprets it.
\<close>

datatype file_entry_kind = REGULAR | DIRECTORY | SYMLINK | OTHER

fun file_entry_kind_value :: "file_entry_kind \<Rightarrow> str" where
  "file_entry_kind_value REGULAR = ''regular''"
| "file_entry_kind_value DIRECTORY = ''directory''"
| "file_entry_kind_value SYMLINK = ''symlink''"
| "file_entry_kind_value OTHER = ''other''"

record tree_entry =
  te_relative :: str
  te_kind :: file_entry_kind

record device_number =
  dev_major :: int
  dev_minor :: int

text \<open>
  \<open>str.isdigit\<close> and \<open>int\<close> are modelled on the ASCII digits; a digit of another script passes the
  one, and \<open>int\<close> raises or not depending on the digit.
\<close>

definition all_digits :: "str \<Rightarrow> bool" where
  "all_digits s \<longleftrightarrow> s \<noteq> [] \<and> list_all is_digit s"

definition parse_device :: "str \<Rightarrow> device_number res" where
  "parse_device s =
     (case partition_on CHR '':'' (strip s) of (major, separator, minor) \<Rightarrow>
        if \<not> separator \<or> \<not> all_digits major \<or> \<not> all_digits minor
        then Inl (Refusal MALFORMED_DEVICE_NUMBER)
        else Inr \<lparr>dev_major = int (nat_of_digits major), dev_minor = int (nat_of_digits minor)\<rparr>)"

definition device_rendered :: "device_number \<Rightarrow> str" where
  "device_rendered d = str_of_int (dev_major d) @ '':'' @ str_of_int (dev_minor d)"

record inspection =
  insp_kind :: file_entry_kind
  insp_owner :: int
  insp_group :: int
  insp_mode :: file_mode
  insp_label :: "str option"
  insp_device :: "device_number option"

record file_identity =
  fid_device :: int
  fid_inode :: int
  fid_size :: int
  fid_modified_nanoseconds :: int
  fid_links :: int
  fid_allocated :: int

definition identity_document :: "file_identity \<Rightarrow> (str \<times> int) list" where
  "identity_document i =
     [(''device'', fid_device i), (''inode'', fid_inode i), (''size'', fid_size i),
      (''modified_ns'', fid_modified_nanoseconds i), (''links'', fid_links i),
      (''allocated'', fid_allocated i)]"

record 'fs files_port =
  fp_environment :: environment_kind
  fp_read_bytes :: "safe_path \<Rightarrow> int \<Rightarrow> ('fs, bytes) io"
  fp_write_atomic :: "safe_path \<Rightarrow> bytes \<Rightarrow> file_mode \<Rightarrow> ('fs, digest) io"
  fp_append_line :: "safe_path \<Rightarrow> bytes \<Rightarrow> file_mode \<Rightarrow> ('fs, unit) io"
  fp_make_directory :: "safe_path \<Rightarrow> file_mode \<Rightarrow> ('fs, unit) io"
  fp_copy :: "safe_path \<Rightarrow> safe_path \<Rightarrow> ('fs, unit) io"
  fp_link :: "safe_path \<Rightarrow> safe_path \<Rightarrow> ('fs, unit) io"
  fp_reserve :: "safe_path \<Rightarrow> byte_count \<Rightarrow> file_mode \<Rightarrow> ('fs, unit) io"
  fp_patch :: "safe_path \<Rightarrow> int \<Rightarrow> bytes \<Rightarrow> ('fs, unit) io"
  fp_remove :: "safe_path \<Rightarrow> ('fs, unit) io"
  fp_free_space :: "safe_path \<Rightarrow> ('fs, byte_count) io"
  fp_exists :: "safe_path \<Rightarrow> ('fs, bool) io"
  fp_mode_of :: "safe_path \<Rightarrow> ('fs, file_mode) io"
  fp_list_tree :: "safe_path \<Rightarrow> ('fs, tree_entry list) io"
  fp_list_directory :: "safe_path \<Rightarrow> ('fs, tree_entry list) io"
  fp_resolve :: "safe_path \<Rightarrow> ('fs, safe_path) io"
  fp_inspect :: "safe_path \<Rightarrow> ('fs, inspection) io"
  fp_identity :: "safe_path \<Rightarrow> ('fs, file_identity) io"
  fp_replace :: "safe_path \<Rightarrow> safe_path \<Rightarrow> ('fs, unit) io"

subsection \<open>What an evidence store relies on\<close>

definition appended :: "bytes option \<Rightarrow> bytes \<Rightarrow> bytes" where
  "appended old line = (case old of None \<Rightarrow> [] | Some b \<Rightarrow> b) @ line @ [CHR 0x0A]"

locale file_store =
  fixes port :: "'fs files_port"
    and content :: "'fs \<Rightarrow> safe_path \<Rightarrow> bytes option"
    and plain :: "'fs \<Rightarrow> bool"
  assumes exists_spec: "plain fs \<Longrightarrow> content fs p \<noteq> None \<Longrightarrow> fp_exists port p fs = (fs, Inr True)"
    and exists_pure: "plain fs \<Longrightarrow> \<exists>b. fp_exists port p fs = (fs, Inr b)"
    and read_spec: "plain fs \<Longrightarrow> 0 < limit \<Longrightarrow> content fs p = Some b \<Longrightarrow>
          fp_read_bytes port p limit fs = (fs, Inr (take (nat limit) b))"
    and read_missing: "plain fs \<Longrightarrow> content fs p = None \<Longrightarrow> fp_read_bytes port p limit fs = (fs, Inl PortFailure)"
    and write_spec: "plain fs \<Longrightarrow>
          \<exists>fs'. fp_write_atomic port p b m fs = (fs', Inr (digest_bytes b))
             \<and> content fs' = (content fs)(p \<mapsto> b) \<and> plain fs'"
    and append_spec: "plain fs \<Longrightarrow>
          \<exists>fs'. fp_append_line port p b m fs = (fs', Inr ())
             \<and> content fs' = (content fs)(p \<mapsto> appended (content fs p) b) \<and> plain fs'"
    and write_exists: "plain fs \<Longrightarrow> fp_write_atomic port p b m fs = (fs', Inr d) \<Longrightarrow> q \<noteq> p \<Longrightarrow>
          \<not> starts_with (safe_path_str p) (safe_path_str q @ ''/'') \<Longrightarrow>
          fp_exists port q fs = (fs, Inr there) \<Longrightarrow> fp_exists port q fs' = (fs', Inr there)"
    and append_exists: "plain fs \<Longrightarrow> fp_append_line port p b m fs = (fs', Inr ()) \<Longrightarrow> q \<noteq> p \<Longrightarrow>
          \<not> starts_with (safe_path_str p) (safe_path_str q @ ''/'') \<Longrightarrow>
          fp_exists port q fs = (fs, Inr there) \<Longrightarrow> fp_exists port q fs' = (fs', Inr there)"
begin

lemma read_whole:
  assumes "plain fs" "content fs p = Some b" "int (length b) \<le> limit" "0 < limit"
  shows "fp_read_bytes port p limit fs = (fs, Inr b)"
proof -
  have "take (nat limit) b = b" using assms(3) by simp
  with read_spec [OF assms(1,4,2)] show ?thesis by simp
qed

lemma write_then_read:
  assumes "plain fs" "fp_write_atomic port p b m fs = (fs', r)" "int (length b) \<le> limit" "0 < limit"
  shows "fp_read_bytes port p limit fs' = (fs', Inr b)"
proof -
  from write_spec [OF assms(1), of p b m] assms(2) have "content fs' p = Some b" "plain fs'" by auto
  with assms(3,4) show ?thesis by (simp add: read_whole)
qed

lemma write_elsewhere:
  "plain fs \<Longrightarrow> fp_write_atomic port p b m fs = (fs', r) \<Longrightarrow> q \<noteq> p \<Longrightarrow> content fs' q = content fs q"
  using write_spec [of fs p b m] by auto

end

lemma device_roundtrip:
  assumes "0 \<le> dev_major d" "0 \<le> dev_minor d"
  shows "parse_device (device_rendered d) = Inr d"
proof -
  have digits: "str_of_int (dev_major d) = str_of_nat (nat (dev_major d))"
    "str_of_int (dev_minor d) = str_of_nat (nat (dev_minor d))"
    using assms by (simp_all add: str_of_int_def)
  have d: "is_digit (hd (str_of_nat n))" "is_digit (last (str_of_nat n))" for n
    by (rule str_of_nat_digits [of _ n], simp)+
  have sp: "is_digit c \<Longrightarrow> \<not> is_space c" for c
    by (auto simp: is_digit_def is_space_def less_eq_char_def)
  have "CHR '':'' \<notin> set (str_of_nat n)" for n
    using str_of_nat_digits [of "CHR '':''" n] by (auto simp: is_digit_def)
  moreover have "strip (device_rendered d) = device_rendered d"
    by (rule strip_with_id) (simp add: device_rendered_def digits d sp)
  ultimately show ?thesis
    using assms str_of_nat_digits
    by (auto simp: parse_device_def device_rendered_def digits partition_on_append all_digits_def
        list_all_iff)
qed

end
