(* ===== verification/MemoryFiles.thy ===== *)
theory MemoryFiles
  imports FilesPort
begin

section \<open>The in-memory tree of the test bundle (adapters/fakes/fake\_files.py)\<close>

text \<open>
  \<open>MemoryFiles\<close> keeps a dictionary from path to bytes and mode, and beside it what a test set up:
  directories, links, labels, device nodes, an inode and a version per written file, and a
  number of appends after which the device is full. Every method is modelled over that state.
  The tree implements the \<open>file_store\<close> interface in every state without links and without a
  full device.
\<close>

record stored_file =
  stored_payload :: bytes
  stored_mode :: file_mode

record memory_files =
  mf_files :: "(str, stored_file) dict"
  mf_directories :: "str set"
  mf_writes :: "str list"
  mf_appended :: nat
  mf_fail_after :: "nat option"
  mf_reserved :: "(str, byte_count) dict"
  mf_free :: byte_count
  mf_links :: "(str, str) dict"
  mf_labels :: "(str, str) dict"
  mf_devices :: "(str, device_number) dict"
  mf_inodes :: "(str, int) dict"
  mf_versions :: "(str, int) dict"
  mf_issued :: int

definition memory_new :: "nat option \<Rightarrow> memory_files" where
  "memory_new fail_after =
     \<lparr>mf_files = [], mf_directories = {}, mf_writes = [], mf_appended = 0, mf_fail_after = fail_after,
      mf_reserved = [], mf_free = ByteCount (gib_bytes (Gib 512)), mf_links = [], mf_labels = [],
      mf_devices = [], mf_inodes = [], mf_versions = [], mf_issued = 0\<rparr>"

definition fresh_inode :: "str \<Rightarrow> memory_files \<Rightarrow> memory_files" where
  "fresh_inode name fs =
     fs\<lparr>mf_issued := mf_issued fs + 1,
        mf_inodes := dict_set name (mf_issued fs + 1) (mf_inodes fs),
        mf_versions := dict_set name (mf_issued fs + 1) (mf_versions fs)\<rparr>"

fun follow_links :: "nat \<Rightarrow> (str, str) dict \<Rightarrow> str \<Rightarrow> str" where
  "follow_links 0 links name = name"
| "follow_links (Suc n) links name =
     (case find (\<lambda>(source, target). name = source \<or> starts_with name (source @ ''/'')) links of
        None \<Rightarrow> name
      | Some (source, target) \<Rightarrow> follow_links n links (target @ drop (length source) name))"

definition memory_canonical :: "memory_files \<Rightarrow> str \<Rightarrow> str" where
  "memory_canonical fs name = follow_links (length (mf_links fs) + 1) (mf_links fs) name"

abbreviation stored_at :: "memory_files \<Rightarrow> str \<Rightarrow> stored_file option" where
  "stored_at fs name \<equiv> map_of (mf_files fs) name"

definition store_file :: "str \<Rightarrow> stored_file \<Rightarrow> memory_files \<Rightarrow> memory_files" where
  "store_file name f fs = fs\<lparr>mf_files := dict_set name f (mf_files fs)\<rparr>"

definition note_write :: "str \<Rightarrow> memory_files \<Rightarrow> memory_files" where
  "note_write name fs = fs\<lparr>mf_writes := mf_writes fs @ [name]\<rparr>"

definition memory_read_bytes :: "safe_path \<Rightarrow> int \<Rightarrow> (memory_files, bytes) io" where
  "memory_read_bytes p limit =
     io_ask (\<lambda>fs.
       case stored_at fs (memory_canonical fs (safe_path_str p)) of
         None \<Rightarrow> Inl PortFailure
       | Some stored \<Rightarrow> rbind (mk_limit limit) (\<lambda>l. Inr (bounded_data (bounded_take (stored_payload stored) l))))"

definition memory_write_atomic :: "safe_path \<Rightarrow> bytes \<Rightarrow> file_mode \<Rightarrow> (memory_files, digest) io" where
  "memory_write_atomic p payload mode fs =
     (let name = safe_path_str p
      in (note_write name (fresh_inode name (store_file name \<lparr>stored_payload = payload, stored_mode = mode\<rparr> fs)),
          Inr (digest_bytes payload)))"

definition memory_append_line :: "safe_path \<Rightarrow> bytes \<Rightarrow> file_mode \<Rightarrow> (memory_files, unit) io" where
  "memory_append_line p payload mode fs =
     (if (case mf_fail_after fs of None \<Rightarrow> False | Some n \<Rightarrow> mf_appended fs \<ge> n) then (fs, Inl PortFailure)
      else
        (let name = safe_path_str p;
             existing = stored_at fs name;
             buffer = (case existing of None \<Rightarrow> [] | Some f \<Rightarrow> stored_payload f) @ payload @ [CHR 0x0A];
             kept = (case existing of None \<Rightarrow> mode | Some f \<Rightarrow> stored_mode f)
         in (store_file name \<lparr>stored_payload = buffer, stored_mode = kept\<rparr> fs
               \<lparr>mf_appended := mf_appended fs + 1\<rparr>, Inr ())))"

definition memory_make_directory :: "safe_path \<Rightarrow> file_mode \<Rightarrow> (memory_files, unit) io" where
  "memory_make_directory p mode fs =
     (fs\<lparr>mf_directories := insert (safe_path_str p) (mf_directories fs)\<rparr>, Inr ())"

definition memory_copy :: "safe_path \<Rightarrow> safe_path \<Rightarrow> (memory_files, unit) io" where
  "memory_copy source destination fs =
     (case stored_at fs (safe_path_str source) of
        None \<Rightarrow> (fs, Inl PortFailure)
      | Some stored \<Rightarrow>
          (let name = safe_path_str destination
           in (note_write name (fresh_inode name (store_file name stored fs)), Inr ())))"

definition memory_link :: "safe_path \<Rightarrow> safe_path \<Rightarrow> (memory_files, unit) io" where
  "memory_link existing new =
     io_bind (io_read (\<lambda>fs. dict_has (mf_files fs) (safe_path_str new))) (\<lambda>taken.
     if taken then io_raise PortFailure
     else
       io_bind (memory_copy existing new) (\<lambda>_ fs.
         case map_of (mf_inodes fs) (safe_path_str existing) of
           None \<Rightarrow> (fs, Inl KeyError)
         | Some inode \<Rightarrow>
             (let fs' = fs\<lparr>mf_inodes := dict_set (safe_path_str new) inode (mf_inodes fs)\<rparr>
              in case map_of (mf_versions fs') (safe_path_str existing) of
                   None \<Rightarrow> (fs', Inl KeyError)
                 | Some version \<Rightarrow>
                     (fs'\<lparr>mf_versions := dict_set (safe_path_str new) version (mf_versions fs')\<rparr>, Inr ()))))"

definition memory_reserve :: "safe_path \<Rightarrow> byte_count \<Rightarrow> file_mode \<Rightarrow> (memory_files, unit) io" where
  "memory_reserve p n mode fs =
     (let name = safe_path_str p in
      if dict_has (mf_files fs) name then (fs, Inl PortFailure)
      else (note_write name
              (store_file name \<lparr>stored_payload = [], stored_mode = mode\<rparr> fs
                 \<lparr>mf_reserved := dict_set name n (mf_reserved fs)\<rparr>), Inr ()))"

text \<open>\<open>body[offset : offset + n] = payload\<close> for the offsets the callers use, none of them negative.\<close>

definition splice :: "nat \<Rightarrow> bytes \<Rightarrow> bytes \<Rightarrow> bytes" where
  "splice offset payload body = take offset body @ payload @ drop (offset + length payload) body"

definition memory_patch :: "safe_path \<Rightarrow> nat \<Rightarrow> bytes \<Rightarrow> (memory_files, unit) io" where
  "memory_patch p offset payload fs =
     (case stored_at fs (safe_path_str p) of
        None \<Rightarrow> (fs, Inl PortFailure)
      | Some stored \<Rightarrow>
          (store_file (safe_path_str p)
             \<lparr>stored_payload = splice offset payload (stored_payload stored), stored_mode = stored_mode stored\<rparr> fs,
           Inr ()))"

definition memory_remove :: "safe_path \<Rightarrow> (memory_files, unit) io" where
  "memory_remove p fs =
     (let name = safe_path_str p in
      if \<not> dict_has (mf_files fs) name then (fs, Inl PortFailure)
      else (fs\<lparr>mf_files := AList.delete name (mf_files fs), mf_inodes := AList.delete name (mf_inodes fs)\<rparr>,
            Inr ()))"

definition memory_identity :: "safe_path \<Rightarrow> (memory_files, file_identity) io" where
  "memory_identity p =
     io_ask (\<lambda>fs.
       let name = memory_canonical fs (safe_path_str p) in
       case stored_at fs name of
         None \<Rightarrow> Inl PortFailure
       | Some stored \<Rightarrow>
           rbind (of_option KeyError (map_of (mf_inodes fs) name)) (\<lambda>inode.
           rbind (of_option KeyError (map_of (mf_versions fs) name)) (\<lambda>version.
             Inr \<lparr>fid_device = 1, fid_inode = inode, fid_size = int (length (stored_payload stored)),
                  fid_modified_nanoseconds = version,
                  fid_links = int (length (filter (\<lambda>held. held = inode) (map snd (mf_inodes fs)))),
                  fid_allocated = int (length (stored_payload stored))\<rparr>)))"

definition memory_replace :: "safe_path \<Rightarrow> safe_path \<Rightarrow> (memory_files, unit) io" where
  "memory_replace source destination fs =
     (let s = safe_path_str source; d = safe_path_str destination in
      case stored_at fs s of
        None \<Rightarrow> (fs, Inl PortFailure)
      | Some stored \<Rightarrow>
          (let fs1 = store_file d stored fs in
           case map_of (mf_inodes fs1) s of
             None \<Rightarrow> (fs1, Inl KeyError)
           | Some inode \<Rightarrow>
               (let fs2 = fs1\<lparr>mf_inodes := dict_set d inode (mf_inodes fs1)\<rparr> in
                case map_of (mf_versions fs2) s of
                  None \<Rightarrow> (fs2, Inl KeyError)
                | Some version \<Rightarrow>
                    (note_write d
                       (fs2\<lparr>mf_versions := dict_set d version (mf_versions fs2),
                            mf_files := AList.delete s (mf_files fs2),
                            mf_inodes := AList.delete s (mf_inodes fs2)\<rparr>), Inr ()))))"

definition memory_free_space :: "safe_path \<Rightarrow> (memory_files, byte_count) io" where
  "memory_free_space p = io_read mf_free"

definition memory_has :: "memory_files \<Rightarrow> str \<Rightarrow> bool" where
  "memory_has fs path =
     (let name = memory_canonical fs path
      in dict_has (mf_files fs) name \<or> name \<in> mf_directories fs \<or> dict_has (mf_devices fs) name
         \<or> list_ex (\<lambda>(stored, f). starts_with stored (name @ ''/'')) (mf_files fs))"

definition memory_exists :: "safe_path \<Rightarrow> (memory_files, bool) io" where
  "memory_exists p = io_read (\<lambda>fs. memory_has fs (safe_path_str p))"

definition memory_mode_of :: "safe_path \<Rightarrow> (memory_files, file_mode) io" where
  "memory_mode_of p =
     io_ask (\<lambda>fs. map_sum id stored_mode (of_option PortFailure (stored_at fs (safe_path_str p))))"

definition entries_of :: "(str, file_entry_kind) dict \<Rightarrow> tree_entry list" where
  "entries_of found = map (\<lambda>(name, kind). \<lparr>te_relative = name, te_kind = kind\<rparr>) (sort_key fst found)"

definition dict_setdefault :: "'k \<Rightarrow> 'v \<Rightarrow> ('k, 'v) dict \<Rightarrow> ('k, 'v) dict" where
  "dict_setdefault k v d = (if dict_has d k then d else dict_set k v d)"

definition rstrip_slash :: "str \<Rightarrow> str" where
  "rstrip_slash s = rstrip_with (\<lambda>c. c = CHR ''/'') s"

definition memory_list_directory :: "safe_path \<Rightarrow> (memory_files, tree_entry list) io" where
  "memory_list_directory p =
     io_ask (\<lambda>fs.
       let pre = rstrip_slash (memory_canonical fs (safe_path_str p)) @ ''/'';
           below = (\<lambda>names. map (drop (length pre)) (filter (\<lambda>n. starts_with n pre) names));
           found = foldl (\<lambda>d name.
                     case partition_on CHR ''/'' name of (head, _, rest) \<Rightarrow>
                       dict_setdefault head (if rest \<noteq> [] then DIRECTORY else REGULAR) d)
                   [] (below (map fst (mf_files fs)));
           direct = concat (map (\<lambda>(names, kind).
                      map (\<lambda>n. (n, kind)) (filter (\<lambda>n. CHR ''/'' \<notin> set n) (below names)))
                    [(sorted_list_of_set (mf_directories fs), DIRECTORY),
                     (map fst (mf_devices fs), OTHER), (map fst (mf_links fs), SYMLINK)]);
           listed = foldl (\<lambda>d (n, kind). dict_set n kind d) found direct
       in if listed = [] \<and> rstrip_slash pre \<notin> mf_directories fs then Inl PortFailure
          else Inr (entries_of listed))"

definition memory_symlink :: "safe_path \<Rightarrow> safe_path \<Rightarrow> (memory_files, unit) io" where
  "memory_symlink p target fs =
     (fs\<lparr>mf_links := dict_set (safe_path_str p) (safe_path_str target) (mf_links fs)\<rparr>, Inr ())"

fun resolve_links :: "nat \<Rightarrow> memory_files \<Rightarrow> str \<Rightarrow> safe_path res" where
  "resolve_links 0 fs current = Inl PortFailure"
| "resolve_links (Suc n) fs current =
     (case map_of (mf_links fs) current of
        None \<Rightarrow>
          rbind (mk_safe_path current) (\<lambda>_.
            if memory_has fs current then mk_safe_path (memory_canonical fs current) else Inl PortFailure)
      | Some target \<Rightarrow> resolve_links n fs target)"

definition memory_resolve :: "safe_path \<Rightarrow> (memory_files, safe_path) io" where
  "memory_resolve p = io_ask (\<lambda>fs. resolve_links (length (mf_links fs) + 1) fs (safe_path_str p))"

definition memory_inspect :: "safe_path \<Rightarrow> (memory_files, inspection) io" where
  "memory_inspect p =
     io_ask (\<lambda>fs.
       let name = safe_path_str p;
           seen = (\<lambda>kind mode device. \<lparr>insp_kind = kind, insp_owner = 0, insp_group = 0, insp_mode = mode,
                     insp_label = map_of (mf_labels fs) name, insp_device = device\<rparr>)
       in if dict_has (mf_links fs) name then Inr (seen SYMLINK (FileMode 511) None)
          else (case map_of (mf_devices fs) name of
                  Some device \<Rightarrow> Inr (seen OTHER (FileMode 432) (Some device))
                | None \<Rightarrow>
                    if name \<in> mf_directories fs then Inr (seen DIRECTORY (FileMode 448) None)
                    else (case stored_at fs (memory_canonical fs name) of
                            None \<Rightarrow> Inl PortFailure
                          | Some stored \<Rightarrow> Inr (seen REGULAR (stored_mode stored) None))))"

text \<open>The directories above a name, from the top.\<close>

definition ancestors :: "str \<Rightarrow> str list" where
  "ancestors name =
     (let parts = split_on CHR ''/'' name
      in map (\<lambda>depth. join ''/'' (take depth parts)) [1..<length parts])"

definition memory_list_tree :: "safe_path \<Rightarrow> (memory_files, tree_entry list) io" where
  "memory_list_tree p =
     io_ask (\<lambda>fs.
       let pre = rstrip_slash (safe_path_str p) @ ''/'';
           found = foldl (\<lambda>d stored.
                     let name = drop (length pre) stored
                     in dict_set name REGULAR
                          (foldl (\<lambda>d a. dict_setdefault a DIRECTORY d) d (ancestors name)))
                   [] (filter (\<lambda>n. starts_with n pre) (map fst (mf_files fs)))
       in if found = [] \<and> safe_path_str p \<notin> mf_directories fs then Inl PortFailure
          else Inr (entries_of found))"

definition memory_port :: "memory_files files_port" where
  "memory_port =
     \<lparr>fp_environment = SIMULATED, fp_read_bytes = memory_read_bytes, fp_write_atomic = memory_write_atomic,
      fp_append_line = memory_append_line, fp_make_directory = memory_make_directory,
      fp_copy = memory_copy, fp_link = memory_link, fp_reserve = memory_reserve,
      fp_patch = (\<lambda>p offset. memory_patch p (nat offset)), fp_remove = memory_remove,
      fp_free_space = memory_free_space, fp_exists = memory_exists, fp_mode_of = memory_mode_of,
      fp_list_tree = memory_list_tree, fp_list_directory = memory_list_directory,
      fp_resolve = memory_resolve, fp_inspect = memory_inspect, fp_identity = memory_identity,
      fp_replace = memory_replace\<rparr>"

subsection \<open>The tree is a file store\<close>

definition memory_content :: "memory_files \<Rightarrow> safe_path \<Rightarrow> bytes option" where
  "memory_content fs p = map_option stored_payload (stored_at fs (safe_path_str p))"

definition memory_plain :: "memory_files \<Rightarrow> bool" where
  "memory_plain fs \<longleftrightarrow> mf_links fs = [] \<and> mf_fail_after fs = None"

lemma memory_canonical_plain [simp]: "memory_plain fs \<Longrightarrow> memory_canonical fs name = name"
  by (simp add: memory_canonical_def memory_plain_def)

lemma memory_content_store:
  "memory_content (store_file (safe_path_str p) f fs) = (memory_content fs)(p \<mapsto> stored_payload f)"
  by (auto simp: memory_content_def store_file_def fun_eq_iff safe_path.expand)

lemma memory_content_cong: "mf_files fs' = mf_files fs \<Longrightarrow> memory_content fs' = memory_content fs"
  by (simp add: memory_content_def fun_eq_iff)

lemma memory_below_dict_set:
  assumes "\<not> starts_with p (q @ ''/'')"
  shows "list_ex (\<lambda>(n, f). starts_with n (q @ ''/'')) (dict_set p v d)
       = list_ex (\<lambda>(n, f). starts_with n (q @ ''/'')) d"
proof -
  have keys: "list_ex (\<lambda>(n, f). starts_with n (q @ ''/'')) e \<longleftrightarrow> (\<exists>n \<in> set (map fst e). starts_with n (q @ ''/''))"
    for e :: "(str, 'a) dict"
    by (force simp: list_ex_iff)
  show ?thesis unfolding keys keys_dict_set using assms by auto
qed

lemma memory_has_elsewhere:
  assumes "memory_plain fs" "memory_plain fs'" "mf_files fs' = dict_set (safe_path_str p) f (mf_files fs)"
    and "mf_directories fs' = mf_directories fs" "mf_devices fs' = mf_devices fs"
    and "q \<noteq> p" "\<not> starts_with (safe_path_str p) (safe_path_str q @ ''/'')"
  shows "memory_has fs' (safe_path_str q) = memory_has fs (safe_path_str q)"
proof -
  have "safe_path_str q \<noteq> safe_path_str p" using assms(6) by (metis safe_path.expand)
  then show ?thesis
    unfolding memory_has_def Let_def memory_canonical_plain [OF assms(1)] memory_canonical_plain [OF assms(2)] assms(3-5)
    by (simp add: dict_has_iff memory_below_dict_set [OF assms(7)])
qed

interpretation mem: file_store memory_port memory_content memory_plain
proof
  fix fs :: memory_files and p :: safe_path and b :: bytes and m :: file_mode and limit :: int
  assume plain: "memory_plain fs"
  show "\<exists>b. fp_exists memory_port p fs = (fs, Inr b)"
    by (simp add: memory_port_def memory_exists_def)
  show "fp_exists memory_port p fs = (fs, Inr True)" if "memory_content fs p \<noteq> None"
    using that plain by (simp add: memory_port_def memory_exists_def memory_has_def memory_content_def dict_has_iff)
  show "fp_read_bytes memory_port p limit fs = (fs, Inr (take (nat limit) b))"
    if "0 < limit" "memory_content fs p = Some b"
    using that plain
    by (auto simp: memory_port_def memory_read_bytes_def memory_content_def mk_limit_def
        bounded_take_def limit_nat_def)
  show "fp_read_bytes memory_port p limit fs = (fs, Inl PortFailure)" if "memory_content fs p = None"
    using that plain by (simp add: memory_port_def memory_read_bytes_def memory_content_def)
  show "\<exists>fs'. fp_write_atomic memory_port p b m fs = (fs', Inr (digest_bytes b))
      \<and> memory_content fs' = (memory_content fs)(p \<mapsto> b) \<and> memory_plain fs'"
  proof -
    let ?fs' = "note_write (safe_path_str p) (fresh_inode (safe_path_str p)
      (store_file (safe_path_str p) \<lparr>stored_payload = b, stored_mode = m\<rparr> fs))"
    have "memory_content ?fs' = memory_content (store_file (safe_path_str p) \<lparr>stored_payload = b, stored_mode = m\<rparr> fs)"
      by (rule memory_content_cong) (simp add: note_write_def fresh_inode_def)
    moreover have "memory_plain ?fs'"
      using plain by (simp add: memory_plain_def note_write_def fresh_inode_def store_file_def)
    ultimately show ?thesis
      by (simp add: memory_port_def memory_write_atomic_def Let_def memory_content_store)
  qed
  show "\<exists>fs'. fp_append_line memory_port p b m fs = (fs', Inr ())
      \<and> memory_content fs' = (memory_content fs)(p \<mapsto> appended (memory_content fs p) b) \<and> memory_plain fs'"
  proof -
    let ?f = "\<lparr>stored_payload = appended (memory_content fs p) b,
               stored_mode = (case stored_at fs (safe_path_str p) of None \<Rightarrow> m | Some f \<Rightarrow> stored_mode f)\<rparr>"
    let ?fs' = "store_file (safe_path_str p) ?f fs \<lparr>mf_appended := mf_appended fs + 1\<rparr>"
    have run: "fp_append_line memory_port p b m fs = (?fs', Inr ())"
      using plain by (auto simp: memory_port_def memory_append_line_def Let_def memory_plain_def
          memory_content_def appended_def split: option.splits)
    have "memory_content ?fs' = memory_content (store_file (safe_path_str p) ?f fs)"
      by (rule memory_content_cong) simp
    moreover have "memory_plain ?fs'" using plain by (simp add: memory_plain_def store_file_def)
    ultimately show ?thesis using run by (simp add: memory_content_store)
  qed
  fix fs' :: memory_files and q :: safe_path and there :: bool and d :: digest
  show "fp_exists memory_port q fs' = (fs', Inr there)"
    if w: "fp_write_atomic memory_port p b m fs = (fs', Inr d)" and q: "q \<noteq> p"
      "\<not> starts_with (safe_path_str p) (safe_path_str q @ ''/'')" and e: "fp_exists memory_port q fs = (fs, Inr there)"
  proof -
    let ?f = "\<lparr>stored_payload = b, stored_mode = m\<rparr>"
    have fs': "fs' = note_write (safe_path_str p) (fresh_inode (safe_path_str p) (store_file (safe_path_str p) ?f fs))"
      using w by (simp add: memory_port_def memory_write_atomic_def Let_def)
    then have "memory_plain fs'" "mf_files fs' = dict_set (safe_path_str p) ?f (mf_files fs)"
      "mf_directories fs' = mf_directories fs" "mf_devices fs' = mf_devices fs"
      using plain by (simp_all add: memory_plain_def note_write_def fresh_inode_def store_file_def)
    from memory_has_elsewhere [OF plain this q] e show ?thesis by (simp add: memory_port_def memory_exists_def)
  qed
  show "fp_exists memory_port q fs' = (fs', Inr there)"
    if w: "fp_append_line memory_port p b m fs = (fs', Inr ())" and q: "q \<noteq> p"
      "\<not> starts_with (safe_path_str p) (safe_path_str q @ ''/'')" and e: "fp_exists memory_port q fs = (fs, Inr there)"
  proof -
    from w plain obtain f where fs': "fs' = store_file (safe_path_str p) f fs \<lparr>mf_appended := mf_appended fs + 1\<rparr>"
      by (auto simp: memory_port_def memory_append_line_def Let_def memory_plain_def)
    then have "memory_plain fs'" "mf_files fs' = dict_set (safe_path_str p) f (mf_files fs)"
      "mf_directories fs' = mf_directories fs" "mf_devices fs' = mf_devices fs"
      using plain by (simp_all add: memory_plain_def store_file_def)
    from memory_has_elsewhere [OF plain this q] e show ?thesis by (simp add: memory_port_def memory_exists_def)
  qed
qed

end
