(* ===== verification/PyCoerce.thy ===== *)
theory PyCoerce
  imports JsonProps Claims
begin

section \<open>What the built-in conversions make of a parsed document\<close>

text \<open>
  \<open>str(x)\<close>, \<open>int(x)\<close>, iteration and subscription of a value that came out of a document, whatever
  its type turned out to be. A float is rendered from its exact decimal value, and a text inside
  a container is quoted byte by byte; both matter only where the program renders a field that
  holds neither a text nor a number.
\<close>

definition repr_char :: "char \<Rightarrow> char \<Rightarrow> str" where
  "repr_char q c =
     (if c = q \<or> c = CHR 0x5C then [CHR 0x5C, c]
      else if c = CHR 0x0A then CHR 0x5C # ''n''
      else if c = CHR 0x0D then CHR 0x5C # ''r''
      else if c = CHR 0x09 then CHR 0x5C # ''t''
      else if byte_of c < 0x20 \<or> byte_of c = 0x7F
      then CHR 0x5C # CHR ''x'' # [hex_digit (byte_of c div 16), hex_digit (byte_of c mod 16)]
      else [c])"

definition repr_str :: "str \<Rightarrow> str" where
  "repr_str s =
     (let q = (if CHR 0x27 \<in> set s \<and> CHR 0x22 \<notin> set s then CHR 0x22 else CHR 0x27)
      in q # concat (map (repr_char q) s) @ [q])"

fun repr_float :: "pyfloat \<Rightarrow> str" where
  "repr_float (Finite m e) = render_float (Finite m e)"
| "repr_float PosInf = ''inf''"
| "repr_float NegInf = ''-inf''"
| "repr_float NaN = ''nan''"

fun py_repr :: "json \<Rightarrow> str"
and py_repr_items :: "json list \<Rightarrow> str"
and py_repr_members :: "(str \<times> json) list \<Rightarrow> str" where
  "py_repr JNull = ''None''"
| "py_repr (JBool b) = (if b then ''True'' else ''False'')"
| "py_repr (JInt i) = str_of_int i"
| "py_repr (JFloat f) = repr_float f"
| "py_repr (JStr s) = repr_str s"
| "py_repr (JList js) = ''['' @ py_repr_items js @ '']''"
| "py_repr (JObj kvs) = ''{'' @ py_repr_members kvs @ ''}''"
| "py_repr_items [] = []"
| "py_repr_items [j] = py_repr j"
| "py_repr_items (j # k # js) = py_repr j @ '', '' @ py_repr_items (k # js)"
| "py_repr_members [] = []"
| "py_repr_members [(k, v)] = repr_str k @ '': '' @ py_repr v"
| "py_repr_members ((k, v) # kv # kvs) = repr_str k @ '': '' @ py_repr v @ '', '' @ py_repr_members (kv # kvs)"

definition py_str :: "json \<Rightarrow> str" where
  "py_str j = (case j of JStr s \<Rightarrow> s | _ \<Rightarrow> py_repr j)"

lemma py_str_simps [simp]: "py_str (JStr s) = s" "py_str (JInt i) = str_of_int i"
  by (simp_all add: py_str_def)

text \<open>\<open>int\<close> of a text: blanks around it, a sign, digits with single underscores between them.\<close>

fun digit_groups :: "str list \<Rightarrow> bool" where
  "digit_groups gs = (gs \<noteq> [] \<and> list_all (\<lambda>g. g \<noteq> [] \<and> list_all is_digit g) gs)"

definition int_of_str :: "str \<Rightarrow> int res" where
  "int_of_str s =
     (let t = strip s;
          neg = (t \<noteq> [] \<and> hd t = CHR ''-'');
          u = (if t \<noteq> [] \<and> (hd t = CHR ''-'' \<or> hd t = CHR ''+'') then tl t else t);
          gs = split_on CHR ''_'' u
      in if digit_groups gs
         then Inr ((if neg then - 1 else 1) * int (nat_of_digits (concat gs)))
         else Inl ValueError)"

definition trunc_float :: "int \<Rightarrow> int \<Rightarrow> int" where
  "trunc_float m e = (if 0 \<le> e then m * 10 ^ nat e else sgn m * (\<bar>m\<bar> div 10 ^ nat (- e)))"

definition py_int :: "json \<Rightarrow> int res" where
  "py_int j =
     (case j of
        JInt i \<Rightarrow> Inr i
      | JBool b \<Rightarrow> Inr (if b then 1 else 0)
      | JFloat f \<Rightarrow> (case f of Finite m e \<Rightarrow> Inr (trunc_float m e) | NaN \<Rightarrow> Inl ValueError | _ \<Rightarrow> Inl OverflowError)
      | JStr s \<Rightarrow> int_of_str s
      | _ \<Rightarrow> Inl TypeError)"

lemma py_int_simps [simp]: "py_int (JInt i) = Inr i"
  by (simp add: py_int_def)

definition py_item :: "json \<Rightarrow> str \<Rightarrow> json res" where
  "py_item j key = (case j of JObj kvs \<Rightarrow> of_option KeyError (map_of kvs key) | _ \<Rightarrow> Inl TypeError)"

lemma py_item_obj [simp]: "py_item (JObj kvs) key = of_option KeyError (map_of kvs key)"
  by (simp add: py_item_def)

text \<open>
  Iteration: the elements of a list, the keys of an object, the characters of a text (one per
  byte here; what iterates refuses each of them all the same).
\<close>

definition py_iter :: "json \<Rightarrow> json list res" where
  "py_iter j =
     (case j of
        JList js \<Rightarrow> Inr js
      | JObj kvs \<Rightarrow> Inr (map (JStr \<circ> fst) kvs)
      | JStr s \<Rightarrow> Inr (map (\<lambda>c. JStr [c]) s)
      | _ \<Rightarrow> Inl TypeError)"

lemma py_iter_list [simp]: "py_iter (JList js) = Inr js"
  by (simp add: py_iter_def)

text \<open>\<open>bool(value)\<close>: what is empty or zero is false.\<close>

fun py_bool :: "json \<Rightarrow> bool" where
  "py_bool JNull \<longleftrightarrow> False"
| "py_bool (JBool b) \<longleftrightarrow> b"
| "py_bool (JInt i) \<longleftrightarrow> i \<noteq> 0"
| "py_bool (JFloat (Finite m e)) \<longleftrightarrow> m \<noteq> 0"
| "py_bool (JFloat f) \<longleftrightarrow> True"
| "py_bool (JStr s) \<longleftrightarrow> s \<noteq> []"
| "py_bool (JList js) \<longleftrightarrow> js \<noteq> []"
| "py_bool (JObj d) \<longleftrightarrow> d \<noteq> []"

text \<open>A constructor that matches its argument against a pattern wants a text.\<close>

definition of_text :: "(str \<Rightarrow> 'a res) \<Rightarrow> json \<Rightarrow> 'a res" where
  "of_text mk j = (case j of JStr s \<Rightarrow> mk s | _ \<Rightarrow> Inl TypeError)"

lemma of_text_simps [simp]: "of_text mk (JStr s) = mk s"
  by (simp add: of_text_def)

text \<open>A member of a string enumeration by value: any other value is a value error.\<close>

definition enum_member :: "('m \<Rightarrow> str) \<Rightarrow> 'm list \<Rightarrow> json \<Rightarrow> 'm res" where
  "enum_member val members j = (case j of JStr s \<Rightarrow> enum_of val members s | _ \<Rightarrow> Inl ValueError)"

lemma enum_member_simps [simp]: "enum_member val members (JStr s) = enum_of val members s"
  by (simp add: enum_member_def)

lemma int_of_str_str_of_int: "int_of_str (str_of_int i) = Inr i"
proof -
  have digit: "is_digit c" if "c \<in> set (str_of_nat n)" for c n using that by (rule str_of_nat_digits)
  have no: "\<not> is_space c" "c \<noteq> CHR ''-''" "c \<noteq> CHR ''+''" "c \<noteq> CHR ''_''" if "is_digit c" for c
    using that by (auto simp: is_digit_def is_space_def less_eq_char_def)
  have ends: "is_digit (hd (str_of_nat n))" "is_digit (last (str_of_nat n))" for n
    by (rule digit [of _ n], simp)+
  have split: "split_on CHR ''_'' (str_of_nat n) = [str_of_nat n]" for n
    by (rule split_on_no_sep) (use digit no in blast)
  have groups: "digit_groups [str_of_nat n]" for n by (auto simp: list_all_iff digit)
  show ?thesis
  proof (cases "i < 0")
    case True
    have "strip (CHR ''-'' # str_of_nat (nat (- i))) = CHR ''-'' # str_of_nat (nat (- i))"
      by (rule strip_with_id) (simp add: ends no, simp add: is_space_def)
    with True show ?thesis
      by (simp add: int_of_str_def str_of_int_def Let_def split groups del: digit_groups.simps)
  next
    case False
    have "strip (str_of_nat (nat i)) = str_of_nat (nat i)"
      by (rule strip_with_id) (simp add: ends no)
    with False show ?thesis
      by (simp add: int_of_str_def str_of_int_def Let_def split groups ends no del: digit_groups.simps)
  qed
qed

text \<open>Reading a field of a document that was written canonically.\<close>

lemma sorted_item:
  "distinct (map fst kvs) \<Longrightarrow>
     py_item (sort_json (JObj kvs)) key = of_option KeyError (map_option sort_json (map_of kvs key))"
  by (simp add: map_of_sort_key keys_sort_members map_of_sort_members)

lemma sort_items_map: "sort_items (map f xs) = map (sort_json \<circ> f) xs"
  by (induction xs) simp_all

lemma plain_items_all: "plain_items js \<longleftrightarrow> list_all plain_json js"
  by (induction js) simp_all

lemma plain_items_text: "plain_items (map (\<lambda>x. JStr (f x)) xs) \<longleftrightarrow> (\<forall>x \<in> set xs. list_all is_ascii (f x))"
  by (induction xs) simp_all

lemma sort_items_text: "sort_items (map (\<lambda>x. JStr (f x)) xs) = map (\<lambda>x. JStr (f x)) xs"
  by (induction xs) simp_all

end
