(* ===== verification/StoreMark.thy ===== *)
theory StoreMark
  imports SafePaths PyCoerce JsonProps
begin

section \<open>The version mark of a store (model/storemark.py)\<close>

text \<open>
  The mark is read with \<open>pathlib\<close>, not through the port, so the tree it lies in is a record of
  what the operating system answers for a path: \<open>disk\<close>, over the \<open>host\<close> of the safe paths. A
  read the system refuses (a permission, a vanished file) is not modelled. What \<open>json.loads\<close>
  raises beside its own decoding error leaves \<open>read_mark\<close>, as it leaves the code.
\<close>

record disk =
  disk_host :: host
  disk_exists :: "str \<Rightarrow> bool"
  disk_bytes :: "str \<Rightarrow> bytes"
  disk_names :: "str \<Rightarrow> str list"

definition MARK_NAME :: str where "MARK_NAME = ''schema.json''"
definition MARK_BYTE_LIMIT :: nat where "MARK_BYTE_LIMIT = 4096"
definition FIRST_VERSION :: int where "FIRST_VERSION = 1"
definition SECOND_VERSION :: int where "SECOND_VERSION = 2"
definition SCHEMA_KEY :: str where "SCHEMA_KEY = ''schema''"
definition VERSION_KEY :: str where "VERSION_KEY = ''version''"

datatype version_mark = Unmarked | Marked (mark_version: int) | Unreadable

definition mk_marked :: "int \<Rightarrow> version_mark res" where
  "mk_marked version =
     (if version < FIRST_VERSION then Inl (Refusal MALFORMED_STORE_MARK) else Inr (Marked version))"

definition mark_document :: "int \<Rightarrow> bytes res" where
  "mark_document version =
     rbind (mk_marked version) (\<lambda>m. Inr (canonical (JObj [(SCHEMA_KEY, JInt (mark_version m))])))"

text \<open>\<open>dict.get(key, fallback)\<close>.\<close>

definition dict_get :: "(str \<times> json) list \<Rightarrow> str \<Rightarrow> json \<Rightarrow> json" where
  "dict_get d key fallback = (case map_of d key of None \<Rightarrow> fallback | Some v \<Rightarrow> v)"

definition version_of :: "json \<Rightarrow> version_mark" where
  "version_of document =
     (case document of
        JObj d \<Rightarrow>
          (case dict_get d SCHEMA_KEY (dict_get d VERSION_KEY JNull) of
             JInt raw \<Rightarrow> if raw < FIRST_VERSION then Unreadable else Marked raw
           | _ \<Rightarrow> Unreadable)
      | _ \<Rightarrow> Unreadable)"

definition read_mark :: "disk \<Rightarrow> str \<Rightarrow> version_mark res" where
  "read_mark d runtime_root =
     (let mark = path_join runtime_root MARK_NAME
      in if host_is_symlink (disk_host d) mark then Inr Unreadable
         else if \<not> disk_exists d mark then Inr Unmarked
         else if \<not> host_is_file (disk_host d) mark then Inr Unreadable
         else if length (disk_bytes d mark) > MARK_BYTE_LIMIT then Inr Unreadable
         else rcatch (map_sum id version_of (parse_document (disk_bytes d mark)))
                (\<lambda>e. e = JSONDecodeError) (Inr Unreadable))"

lemma dict_get_simps [simp]:
  "dict_get [] key fallback = fallback"
  "dict_get ((k, v) # d) key fallback = (if key = k then v else dict_get d key fallback)"
  by (simp_all add: dict_get_def)

lemma mark_document_version: "FIRST_VERSION \<le> v \<Longrightarrow> mark_document v = Inr (canonical (JObj [(SCHEMA_KEY, JInt v)]))"
  by (simp add: mark_document_def mk_marked_def)

text \<open>Whatever lies on disk, a mark that is read names a version at least the first.\<close>

lemma version_of_simps [simp]: "version_of j \<noteq> Unmarked" "version_of j = Marked v \<Longrightarrow> FIRST_VERSION \<le> v"
  by (auto simp: version_of_def split: json.splits if_splits)

lemma read_mark_Marked: "read_mark d r = Inr (Marked v) \<Longrightarrow> FIRST_VERSION \<le> v"
  by (auto simp: read_mark_def Let_def result_simps dest: sym split: if_splits)

text \<open>Only absence answers \<open>Unmarked\<close>: a mark that is there is never taken for the oldest version.\<close>

lemma read_mark_Unmarked:
  "read_mark d r = Inr Unmarked \<longleftrightarrow>
     \<not> host_is_symlink (disk_host d) (path_join r MARK_NAME) \<and> \<not> disk_exists d (path_join r MARK_NAME)"
  by (auto simp: read_mark_def Let_def result_simps dest: sym split: if_splits)

lemma read_mark_written:
  assumes "mark_document v = Inr payload" "disk_bytes d (path_join r MARK_NAME) = payload"
    and "\<not> host_is_symlink (disk_host d) (path_join r MARK_NAME)" "disk_exists d (path_join r MARK_NAME)"
    and "host_is_file (disk_host d) (path_join r MARK_NAME)" "length payload \<le> MARK_BYTE_LIMIT"
  shows "read_mark d r = Inr (Marked v)"
proof -
  have v: "FIRST_VERSION \<le> v" and p: "payload = canonical (JObj [(SCHEMA_KEY, JInt v)])"
    using assms(1) by (auto simp: mark_document_def mk_marked_def split: if_splits)
  have "parse_document payload = Inr (sort_json (JObj [(SCHEMA_KEY, JInt v)]))"
    unfolding p by (rule read_value_canonical) (simp add: SCHEMA_KEY_def)
  with v assms show ?thesis
    by (simp add: read_mark_def Let_def version_of_def)
qed

end
