(* ===== verification/RuntimeState.thy ===== *)
theory RuntimeState
  imports StoreMark Verdicts Claims
begin

section \<open>The documents the older tools wrote (model/runtimestate.py)\<close>

text \<open>
  The candidate document and the evidence records of a version one store, read where they lie.
  A document that is not JSON, or not an object, or that lacks what a record needs, is refused;
  text that does not decode raises the decoding error, which is no refusal.
\<close>

definition EVIDENCE_DIRECTORY :: str where "EVIDENCE_DIRECTORY = ''evidence''"
definition CANDIDATE_NAME :: str where "CANDIDATE_NAME = ''candidate.json''"

record proof_reference =
  pref_relative_path :: str
  pref_digest :: digest

record stored_candidate =
  cand_digest :: digest
  cand_build :: build_id
  cand_verification :: "(str \<times> json) list"

record stored_record =
  rec_check :: check_id
  rec_digest :: digest
  rec_verdict :: verdict
  rec_environment :: environment_kind
  rec_description :: str
  rec_recorded_at :: str
  rec_reason :: str
  rec_proofs :: "proof_reference list"

record archived_candidate =
  arch_directory :: str
  arch_candidate :: stored_candidate
  arch_records :: "stored_record list"

text \<open>\<open>read_text\<close> decodes strictly, where \<open>json.loads\<close> of bytes would pass a surrogate.\<close>

definition document_of :: "bytes \<Rightarrow> (str \<times> json) list res" where
  "document_of payload =
     (if \<not> utf8_ok True payload then Inl UnicodeDecodeError
      else rbind (rcatch (json_loads_str payload) (\<lambda>e. e = JSONDecodeError)
                    (Inl (Refusal MALFORMED_IDENTIFIER)))
             (\<lambda>loaded. case loaded of JObj d \<Rightarrow> Inr d | _ \<Rightarrow> Inl (Refusal MALFORMED_IDENTIFIER)))"

definition get_text :: "(str \<times> json) list \<Rightarrow> str \<Rightarrow> str" where
  "get_text d key = py_str (dict_get d key (JStr []))"

definition environment_field :: "(str \<times> json) list \<Rightarrow> (environment_kind \<times> str) res" where
  "environment_field d =
     (case dict_get d ''environment'' JNull of
        JObj raw \<Rightarrow>
          rbind (rcatch (environment_of (py_str (dict_get raw ''kind'' JNull))) is_value_error
                   (Inl (Refusal MALFORMED_IDENTIFIER)))
            (\<lambda>kind. Inr (kind, get_text raw ''description''))
      | _ \<Rightarrow> Inl (Refusal MALFORMED_IDENTIFIER))"

definition read_proof_reference :: "json \<Rightarrow> proof_reference res" where
  "read_proof_reference item =
     (case item of
        JObj d \<Rightarrow>
          (case (map_of d ''path'', map_of d ''sha256'') of
             (Some path, Some sha) \<Rightarrow>
               rbind (parse_digest (py_str sha))
                 (\<lambda>digest. Inr \<lparr>pref_relative_path = py_str path, pref_digest = digest\<rparr>)
           | _ \<Rightarrow> Inl (Refusal MALFORMED_PROOF_REFERENCE))
      | _ \<Rightarrow> Inl (Refusal MALFORMED_PROOF_REFERENCE))"

definition read_candidate :: "bytes \<Rightarrow> stored_candidate res" where
  "read_candidate payload =
     rbind (document_of payload) (\<lambda>d.
     rbind (parse_digest (get_text d ''digest'')) (\<lambda>digest.
     rbind (parse_hex_identifier (get_text d ''build_id'')) (\<lambda>build.
       Inr \<lparr>cand_digest = digest, cand_build = build,
            cand_verification =
              (case dict_get d ''verification'' JNull of JObj v \<Rightarrow> v | _ \<Rightarrow> [])\<rparr>)))"

definition read_evidence_record :: "bytes \<Rightarrow> stored_record res" where
  "read_evidence_record payload =
     rbind (document_of payload) (\<lambda>d.
     rbind (environment_field d) (\<lambda>(kind, description).
     rbind (rmapM read_proof_reference (case dict_get d ''proof'' JNull of JList xs \<Rightarrow> xs | _ \<Rightarrow> [])) (\<lambda>references.
     rbind (mk_dotted_name (get_text d ''check'')) (\<lambda>check.
     rbind (parse_digest (get_text d ''digest'')) (\<lambda>digest.
     rbind (parse_verdict (get_text d ''status'') NO_VERIFIED_RESULT) (\<lambda>v.
       Inr \<lparr>rec_check = check, rec_digest = digest, rec_verdict = v, rec_environment = kind,
            rec_description = description, rec_recorded_at = get_text d ''recorded_at'',
            rec_reason = get_text d ''reason'', rec_proofs = references\<rparr>))))))"

text \<open>\<open>sorted(directory.glob("*.json"))\<close> and \<open>sorted(directory.iterdir())\<close>, as names.\<close>

definition json_names :: "disk \<Rightarrow> str \<Rightarrow> str list" where
  "json_names d directory = sort (filter (\<lambda>name. ends_with name ''.json'') (disk_names d directory))"

definition read_evidence_directory :: "disk \<Rightarrow> str \<Rightarrow> stored_record list res" where
  "read_evidence_directory d directory =
     (if \<not> host_is_dir (disk_host d) directory then Inr []
      else rmapM (\<lambda>path. read_evidence_record (disk_bytes d path))
             (filter (\<lambda>path. host_is_file (disk_host d) path \<and> \<not> host_is_symlink (disk_host d) path)
                (map (path_join directory) (json_names d directory))))"

definition read_archive :: "disk \<Rightarrow> str \<Rightarrow> archived_candidate list res" where
  "read_archive d archive =
     (let document = path_join archive CANDIDATE_NAME
      in if \<not> host_is_file (disk_host d) document then Inr []
         else rbind (read_candidate (disk_bytes d document)) (\<lambda>c.
              rbind (read_evidence_directory d (path_join archive EVIDENCE_DIRECTORY)) (\<lambda>records.
                Inr [\<lparr>arch_directory = archive, arch_candidate = c, arch_records = records\<rparr>])))"

definition read_candidate_history :: "disk \<Rightarrow> str \<Rightarrow> archived_candidate list res" where
  "read_candidate_history d directory =
     (if \<not> host_is_dir (disk_host d) directory then Inr []
      else map_sum id concat (rmapM (read_archive d)
             (filter (host_is_dir (disk_host d)) (map (path_join directory) (sort (disk_names d directory))))))"

text \<open>
  What the readers raise: a refusal, or the decoding error of a text that is not UTF-8. A reader
  that catches refusals alone stops at such a document.
\<close>

definition refuses_or_undecodable :: "exn \<Rightarrow> bool" where
  "refuses_or_undecodable e \<longleftrightarrow> is_refusal e \<or> e = UnicodeDecodeError"

lemma json_loads_str_Inl: "json_loads_str s = Inl e \<Longrightarrow> e = JSONDecodeError"
  by (auto simp: json_loads_str_def split: option.splits prod.splits if_splits)

lemma document_of_Inl:
  "document_of p = Inl e \<Longrightarrow> e = (if utf8_ok True p then Refusal MALFORMED_IDENTIFIER else UnicodeDecodeError)"
proof (cases "json_loads_str p")
  case (Inl e')
  then show "document_of p = Inl e \<Longrightarrow> ?thesis"
    by (auto simp: document_of_def dest: json_loads_str_Inl split: if_splits)
next
  case (Inr j)
  then show "document_of p = Inl e \<Longrightarrow> ?thesis"
    by (cases j) (auto simp: document_of_def split: if_splits)
qed

lemma read_proof_reference_Inl: "read_proof_reference j = Inl e \<Longrightarrow> is_refusal e"
  by (auto simp: read_proof_reference_def result_simps split: json.splits option.splits dest: parse_digest_Inl)

lemma environment_field_Inl: "environment_field d = Inl e \<Longrightarrow> e = Refusal MALFORMED_IDENTIFIER"
  by (auto simp: environment_field_def result_simps rcatch_def environment_of_def
           split: json.splits sum.splits if_splits dest: enum_of_Inl)

lemma mk_dotted_name_Inl': "mk_dotted_name s = Inl e \<Longrightarrow> e = Refusal MALFORMED_IDENTIFIER"
  by (auto simp: mk_dotted_name_def split: if_splits)

lemma read_evidence_record_Inl:
  assumes "read_evidence_record p = Inl e"
  shows "if utf8_ok True p then is_refusal e else e = UnicodeDecodeError"
proof (cases "document_of p")
  case (Inl e')
  with assms show ?thesis by (auto simp: read_evidence_record_def dest!: document_of_Inl)
next
  case (Inr d)
  then have "utf8_ok True p" by (auto simp: document_of_def split: if_splits)
  moreover from Inr assms have "is_refusal e"
    by (auto simp: read_evidence_record_def result_simps
          dest!: environment_field_Inl rmapM_Inl_mem read_proof_reference_Inl mk_dotted_name_Inl'
                 parse_digest_Inl parse_verdict_Inl)
  ultimately show ?thesis by simp
qed

end
