(* ===== verification/Proofs.thy ===== *)
theory Proofs
  imports MemoryFiles Registry RuntimeState
begin

section \<open>The proof store (attestation/proofs.py)\<close>

text \<open>
  A proof is filed under the digest of its bytes. The store's operations run over any file
  system port; what they promise is proved in the \<open>file_store\<close> interface: bytes absorbed load
  back, and a load returns bytes only if they are the whole object and still hash to its name.
\<close>

definition OBJECT_DIRECTORY :: str where "OBJECT_DIRECTORY = ''objects''"
definition LEDGER_DIRECTORY :: str where "LEDGER_DIRECTORY = ''ledger''"
definition CHAIN_NAME :: str where "CHAIN_NAME = ''chain.jsonl''"
definition HEAD_NAME :: str where "HEAD_NAME = ''head.json''"
definition KEY_NAME :: str where "KEY_NAME = ''key''"
definition FAN_OUT :: nat where "FAN_OUT = 2"
definition LEGACY_AREA :: str where "LEGACY_AREA = EVIDENCE_DIRECTORY"
definition DEFAULT_AREA :: str where "DEFAULT_AREA = ''attestation''"
definition OBJECT_MODE :: file_mode where "OBJECT_MODE = FileMode 384"
definition OBJECT_LIMIT :: int where "OBJECT_LIMIT = 64 * 1024 * 1024"
definition OVERREAD :: int where "OVERREAD = 1"

definition address :: "bytes \<Rightarrow> digest" where
  "address payload = digest_bytes payload"

record filed_proof =
  proof_digest :: digest
  proof_kind :: str
  proof_byte_count :: int

definition mk_proof :: "digest \<Rightarrow> str \<Rightarrow> int \<Rightarrow> filed_proof res" where
  "mk_proof d kind byte_count =
     (if kind \<notin> set PERMITTED_PROOF_KINDS then Inl (Refusal PROOF_KIND_NOT_ACCEPTED)
      else if byte_count \<le> 0 then Inl (Refusal PROOF_IS_EMPTY)
      else Inr \<lparr>proof_digest = d, proof_kind = kind, proof_byte_count = byte_count\<rparr>)"

lemma mk_proof_Inr:
  "mk_proof d kind n = Inr p \<longleftrightarrow>
     kind \<in> set PERMITTED_PROOF_KINDS \<and> 0 < n
   \<and> p = \<lparr>proof_digest = d, proof_kind = kind, proof_byte_count = n\<rparr>"
  by (auto simp: mk_proof_def)

record store_location =
  loc_root :: runtime_root
  loc_area :: str

definition mk_store_location :: "runtime_root \<Rightarrow> str \<Rightarrow> store_location res" where
  "mk_store_location rt area =
     (if area = LEGACY_AREA \<or> CHR ''/'' \<in> set area \<or> area = [] then Inl (Refusal STORE_AREA_NOT_PERMITTED)
      else Inr \<lparr>loc_root = rt, loc_area = area\<rparr>)"

definition object_path :: "host \<Rightarrow> store_location \<Rightarrow> digest \<Rightarrow> safe_path res" where
  "object_path h loc d =
     root_child h (loc_root loc)
       (loc_area loc @ ''/'' @ OBJECT_DIRECTORY @ ''/'' @ take FAN_OUT (digest_hex d) @ ''/'' @ digest_hex d)"

definition chain_path :: "host \<Rightarrow> store_location \<Rightarrow> safe_path res" where
  "chain_path h loc =
     root_child h (loc_root loc) (loc_area loc @ ''/'' @ LEDGER_DIRECTORY @ ''/'' @ CHAIN_NAME)"

definition head_path :: "host \<Rightarrow> store_location \<Rightarrow> safe_path res" where
  "head_path h loc =
     root_child h (loc_root loc) (loc_area loc @ ''/'' @ LEDGER_DIRECTORY @ ''/'' @ HEAD_NAME)"

definition key_path :: "host \<Rightarrow> store_location \<Rightarrow> safe_path res" where
  "key_path h loc =
     root_child h (loc_root loc) (loc_area loc @ ''/'' @ LEDGER_DIRECTORY @ ''/'' @ KEY_NAME)"

record proof_store =
  ps_location :: store_location
  ps_absorbed :: nat

definition proof_store_new :: "store_location \<Rightarrow> proof_store" where
  "proof_store_new loc = \<lparr>ps_location = loc, ps_absorbed = 0\<rparr>"

definition absorb ::
  "'fs files_port \<Rightarrow> host \<Rightarrow> proof_store \<Rightarrow> bytes \<Rightarrow> str \<Rightarrow> ('fs, filed_proof \<times> proof_store) io" where
  "absorb port h st payload kind =
     io_bind (io_lift (mk_proof (address payload) kind (int (length payload)))) (\<lambda>pf.
     io_bind (io_lift (object_path h (ps_location st) (proof_digest pf))) (\<lambda>target.
     io_bind (fp_exists port target) (\<lambda>there.
       if there then io_return (pf, st)
       else io_bind (fp_write_atomic port target payload OBJECT_MODE) (\<lambda>_.
              io_return (pf, st\<lparr>ps_absorbed := ps_absorbed st + 1\<rparr>)))))"

definition holds :: "'fs files_port \<Rightarrow> host \<Rightarrow> proof_store \<Rightarrow> filed_proof \<Rightarrow> ('fs, bool) io" where
  "holds port h st pf =
     io_bind (io_lift (object_path h (ps_location st) (proof_digest pf))) (fp_exists port)"

definition object_intact :: "'fs files_port \<Rightarrow> host \<Rightarrow> proof_store \<Rightarrow> digest \<Rightarrow> ('fs, bool) io" where
  "object_intact port h st d =
     io_bind (io_lift (object_path h (ps_location st) d)) (\<lambda>target.
     io_bind (fp_exists port target) (\<lambda>there.
       if \<not> there then io_return False
       else io_bind (fp_read_bytes port target (OBJECT_LIMIT + OVERREAD)) (\<lambda>payload.
              io_return (int (length payload) \<le> OBJECT_LIMIT \<and> address payload = d))))"

definition load :: "'fs files_port \<Rightarrow> host \<Rightarrow> proof_store \<Rightarrow> filed_proof \<Rightarrow> ('fs, bytes) io" where
  "load port h st pf =
     io_bind (io_lift (object_path h (ps_location st) (proof_digest pf))) (\<lambda>target.
     io_bind (fp_read_bytes port target (proof_byte_count pf + OVERREAD)) (\<lambda>payload.
       if int (length payload) \<noteq> proof_byte_count pf \<or> address payload \<noteq> proof_digest pf
       then io_raise (Refusal PROOF_ALTERED)
       else io_return payload))"

subsection \<open>What the store promises over a file store\<close>

lemma take_less_whole: "length (take n b) < n \<Longrightarrow> take n b = b"
  by simp

context file_store
begin

text \<open>A load gives back the whole object under that name, and it hashes to the name.\<close>

lemma load_whole:
  assumes "plain fs" "0 < proof_byte_count pf" "load port h st pf fs = (fs', Inr payload)"
  obtains target where "object_path h (ps_location st) (proof_digest pf) = Inr target"
    "content fs target = Some payload" "address payload = proof_digest pf" "fs' = fs"
proof -
  from assms(3) obtain target where t: "object_path h (ps_location st) (proof_digest pf) = Inr target"
    by (auto simp: load_def io_lift_bind_Inr)
  have pos: "0 < proof_byte_count pf + OVERREAD" using assms(2) by (simp add: OVERREAD_def)
  show thesis
  proof (cases "content fs target")
    case None
    with assms(3) t read_missing [OF assms(1) None] show ?thesis
      by (simp add: load_def io_bind_def)
  next
    case (Some b)
    let ?read = "take (nat (proof_byte_count pf + OVERREAD)) b"
    from read_spec [OF assms(1) pos Some] assms(3) t
    have r: "payload = ?read" "int (length ?read) = proof_byte_count pf" "address ?read = proof_digest pf"
      "fs' = fs"
      by (auto simp: load_def io_bind_def split: if_splits)
    have "length ?read < nat (proof_byte_count pf + OVERREAD)"
      using r(2) assms(2) by (simp add: OVERREAD_def)
    then have "?read = b" by (rule take_less_whole)
    with r that t Some show ?thesis by simp
  qed
qed

lemma load_refuses_altered:
  assumes "plain fs" "0 < proof_byte_count pf"
    and "object_path h (ps_location st) (proof_digest pf) = Inr target" "content fs target = Some b"
    and "int (length b) \<noteq> proof_byte_count pf \<or> address b \<noteq> proof_digest pf"
  shows "load port h st pf fs = (fs, Inl (Refusal PROOF_ALTERED))"
proof -
  have pos: "0 < proof_byte_count pf + OVERREAD" using assms(2) by (simp add: OVERREAD_def)
  let ?read = "take (nat (proof_byte_count pf + OVERREAD)) b"
  have "int (length ?read) \<noteq> proof_byte_count pf \<or> address ?read \<noteq> proof_digest pf"
  proof (cases "int (length b) \<le> proof_byte_count pf")
    case True
    then have "?read = b" using assms(2) by (simp add: OVERREAD_def)
    with assms(5) show ?thesis by simp
  next
    case False
    then show ?thesis using assms(2) by (simp add: OVERREAD_def min_def)
  qed
  with read_spec [OF assms(1) pos assms(4)] assms(3) show ?thesis
    by (auto simp: load_def io_bind_def)
qed

lemma absorb_files:
  assumes "plain fs" "absorb port h st payload kind fs = (fs', Inr (pf, st'))"
  obtains target where
    "object_path h (ps_location st) (address payload) = Inr target"
    "pf = \<lparr>proof_digest = address payload, proof_kind = kind, proof_byte_count = int (length payload)\<rparr>"
    "0 < length payload" "plain fs'" "ps_location st' = ps_location st"
    "content fs' = (if fp_exists port target fs = (fs, Inr True) then content fs else (content fs)(target \<mapsto> payload))"
proof -
  from assms(2) obtain target where t: "object_path h (ps_location st) (address payload) = Inr target"
    and k: "kind \<in> set PERMITTED_PROOF_KINDS" "0 < length payload"
    by (auto simp: absorb_def io_lift_bind_Inr mk_proof_Inr)
  from exists_pure [OF assms(1), of target] obtain b where b: "fp_exists port target fs = (fs, Inr b)" ..
  from write_spec [OF assms(1), of target payload OBJECT_MODE] obtain fs1 where
    w: "fp_write_atomic port target payload OBJECT_MODE fs = (fs1, Inr (digest_bytes payload))"
      "content fs1 = (content fs)(target \<mapsto> payload)" "plain fs1" by blast
  have mk: "mk_proof (address payload) kind (int (length payload))
      = Inr \<lparr>proof_digest = address payload, proof_kind = kind, proof_byte_count = int (length payload)\<rparr>"
    using k by (simp add: mk_proof_def)
  show thesis
  proof (cases b)
    case True
    with assms(2) t b mk have "fs' = fs" "st' = st"
      "pf = \<lparr>proof_digest = address payload, proof_kind = kind, proof_byte_count = int (length payload)\<rparr>"
      by (auto simp: absorb_def io_bind_def)
    with b True k(2) assms(1) show ?thesis by (intro that [OF t]) simp_all
  next
    case False
    with assms(2) t b mk w have "fs' = fs1" "ps_location st' = ps_location st"
      "pf = \<lparr>proof_digest = address payload, proof_kind = kind, proof_byte_count = int (length payload)\<rparr>"
      by (auto simp: absorb_def io_bind_def)
    with b False k(2) w show ?thesis by (intro that [OF t]) simp_all
  qed
qed

text \<open>Bytes absorbed into a store that does not hold another object under their name load back.\<close>

lemma absorb_then_load:
  assumes "plain fs" "absorb port h st payload kind fs = (fs', Inr (pf, st'))"
    and "\<And>target. object_path h (ps_location st) (address payload) = Inr target \<Longrightarrow>
           fp_exists port target fs = (fs, Inr True) \<Longrightarrow> content fs target = Some payload"
  shows "load port h st' pf fs' = (fs', Inr payload)"
proof -
  from absorb_files [OF assms(1,2)] obtain target where a:
    "object_path h (ps_location st) (address payload) = Inr target"
    "pf = \<lparr>proof_digest = address payload, proof_kind = kind, proof_byte_count = int (length payload)\<rparr>"
    "0 < length payload" "plain fs'" "ps_location st' = ps_location st"
    "content fs' = (if fp_exists port target fs = (fs, Inr True) then content fs else (content fs)(target \<mapsto> payload))" .
  have "content fs' target = Some payload" using a(6) assms(3) [OF a(1)] by auto
  then have "fp_read_bytes port target (int (length payload) + OVERREAD) fs' = (fs', Inr payload)"
    by (rule read_whole [OF a(4)]) (simp_all add: OVERREAD_def)
  with a show ?thesis by (simp add: load_def io_bind_def)
qed

end

end
