(* ===== verification/Ledger.thy ===== *)
theory Ledger
  imports Proofs PyCoerce Verdicts
begin

section \<open>The chain of attestation entries (attestation/ledger.py)\<close>

text \<open>
  Each line of the chain commits to the line before it and to its own entry, and carries a tag
  under a key; a head record beside the chain names the last line. \<open>append_entry\<close> is the only
  way to extend it, \<open>verify_lines\<close> judges lines and head alone.

  The lemmas show that what \<open>append_entry\<close> writes reads back and is judged intact
  (\<open>chain_holds\<close>, an invariant of the files and the ledger object), that dropping lines from the
  end is reported, and that two chains judged intact under the same head hold the same entries
  unless two different messages have the same digest.
\<close>

subsection \<open>The code\<close>

text \<open>The key file is ASCII; blanks of other scripts around the key are not modelled.\<close>

definition GENESIS :: digest where "GENESIS = Digest (replicate 64 CHR ''0'')"
definition BEFORE_FIRST :: int where "BEFORE_FIRST = - 1"
definition LINE_LIMIT :: int where "LINE_LIMIT = 1024 * 1024"
definition CHAIN_LIMIT :: int where "CHAIN_LIMIT = 1024 * 1024 * 64"
definition KEY_LIMIT :: int where "KEY_LIMIT = 256"
definition KEY_HEX :: nat where "KEY_HEX = 64"
definition RECORD_MODE :: file_mode where "RECORD_MODE = FileMode 384"

datatype ledger_kind = RECORDED | IMPORTED

fun ledger_kind_value :: "ledger_kind \<Rightarrow> str" where
  "ledger_kind_value RECORDED = ''recorded''"
| "ledger_kind_value IMPORTED = ''imported''"

datatype chain_break =
    MALFORMED_LINE | SEQUENCE_OUT_OF_ORDER | LINK_MISMATCH | MAC_MISMATCH | HEAD_AHEAD_OF_CHAIN

datatype chain_signer = ChainSigner (signer_key: "str secret")

text \<open>The sink keeps the tag of what it was given; nothing else of the key leaves the signer.\<close>

definition hmac_accept :: "bytes \<Rightarrow> str \<Rightarrow> str \<Rightarrow> str" where
  "hmac_accept payload tag material = hmac_sha256_hex material payload"

definition sign :: "chain_signer \<Rightarrow> digest \<Rightarrow> str" where
  "sign s link = reveal_into (signer_key s) (hmac_accept (digest_hex link)) []"

text \<open>\<open>hmac.compare_digest\<close> raises on a text that is not ASCII.\<close>

definition confirms :: "chain_signer \<Rightarrow> digest \<Rightarrow> str \<Rightarrow> bool res" where
  "confirms s link tag = (if list_all is_ascii tag then Inr (sign s link = tag) else Inl TypeError)"

record event =
  ev_kind :: ledger_kind
  ev_check :: check_id
  ev_verdict :: verdict
  ev_environment :: environment_kind
  ev_candidate :: digest
  ev_proofs :: "digest list"
  ev_scope_limits :: "scope_limit list"

record entry =
  en_sequence :: int
  en_stamp :: str
  en_event :: event

definition entry_fields :: "entry \<Rightarrow> (str \<times> json) list" where
  "entry_fields e =
     [(''sequence'', JInt (en_sequence e)),
      (''stamp'', JStr (en_stamp e)),
      (''kind'', JStr (ledger_kind_value (ev_kind (en_event e)))),
      (''check'', JStr (name_value (ev_check (en_event e)))),
      (''verdict'', JStr (stored_name (ev_verdict (en_event e)))),
      (''environment'', JStr (environment_value (ev_environment (en_event e)))),
      (''candidate'', JStr (digest_hex (ev_candidate (en_event e)))),
      (''proofs'', JList (map (\<lambda>d. JStr (digest_hex d)) (ev_proofs (en_event e)))),
      (''scope_limits'', JList (map (\<lambda>l. JStr (scope_limit_value l)) (ev_scope_limits (en_event e))))]"

definition entry_document :: "entry \<Rightarrow> json" where
  "entry_document e = JObj (entry_fields e)"

record sealed =
  sl_entry :: entry
  sl_link :: digest
  sl_tag :: str

definition sealed_document :: "sealed \<Rightarrow> json" where
  "sealed_document s =
     JObj [(''entry'', entry_document (sl_entry s)), (''link'', JStr (digest_hex (sl_link s))),
           (''mac'', JStr (sl_tag s))]"

definition sealed_line :: "sealed \<Rightarrow> bytes" where
  "sealed_line s = canonical (sealed_document s)"

record head =
  hd_sequence :: int
  hd_link :: digest

record breakage =
  bk_sequence :: int
  bk_cause :: chain_break

record report =
  rp_entries :: nat
  rp_first_break :: "breakage option"

definition report_intact :: "report \<Rightarrow> bool" where
  "report_intact r \<longleftrightarrow> rp_first_break r = None"

definition EMPTY :: head where "EMPTY = \<lparr>hd_sequence = BEFORE_FIRST, hd_link = GENESIS\<rparr>"

definition is_unreadable :: "exn \<Rightarrow> bool" where
  "is_unreadable e \<longleftrightarrow> e = KeyError \<or> e = TypeError \<or> is_value_error e \<or> is_refusal e"

definition parse_head :: "bytes \<Rightarrow> head res" where
  "parse_head payload =
     rcatch
       (rbind (parse_document payload) (\<lambda>document.
        rbind (rbind (py_item document ''sequence'') py_int) (\<lambda>sequence.
        rbind (rbind (py_item document ''link'') (mk_digest \<circ> py_str)) (\<lambda>link.
          Inr \<lparr>hd_sequence = sequence, hd_link = link\<rparr>))))
       is_unreadable (Inl (Refusal STALE_EVIDENCE))"

definition stored_head :: "'fs files_port \<Rightarrow> host \<Rightarrow> store_location \<Rightarrow> ('fs, head option) io" where
  "stored_head port h loc =
     io_bind (io_lift (head_path h loc)) (\<lambda>path.
     io_bind (fp_exists port path) (\<lambda>there.
       if \<not> there then io_return None
       else io_bind (fp_read_bytes port path LINE_LIMIT) (\<lambda>payload.
            io_bind (io_lift (parse_head payload)) (\<lambda>hd. io_return (Some hd)))))"

definition signer_at :: "'fs files_port \<Rightarrow> host \<Rightarrow> store_location \<Rightarrow> ('fs, chain_signer option) io" where
  "signer_at port h loc =
     io_bind (io_lift (key_path h loc)) (\<lambda>path.
     io_bind (fp_exists port path) (\<lambda>there.
       if \<not> there then io_return None
       else io_bind (fp_read_bytes port path KEY_LIMIT) (\<lambda>payload.
              let material = strip payload
              in if length material \<noteq> KEY_HEX \<or> list_ex (\<lambda>c. c \<notin> set ''0123456789abcdef'') material
                 then io_raise (Refusal STALE_EVIDENCE)
                 else io_return (Some (ChainSigner (Secret material))))))"

definition chain_lines :: "bytes \<Rightarrow> bytes list" where
  "chain_lines body = filter (\<lambda>line. line \<noteq> []) (split_on CHR 0x0A body)"

definition read_chain ::
  "'fs files_port \<Rightarrow> host \<Rightarrow> store_location \<Rightarrow> int \<Rightarrow> ('fs, bytes list \<times> head option) io" where
  "read_chain port h loc limit =
     io_bind (io_lift (chain_path h loc)) (\<lambda>path.
     io_bind (fp_exists port path) (\<lambda>there.
     io_bind (if there then fp_read_bytes port path limit else io_return []) (\<lambda>body.
     io_bind (stored_head port h loc) (\<lambda>hd.
       io_return (chain_lines body, hd)))))"

definition link_after :: "digest \<Rightarrow> entry \<Rightarrow> digest" where
  "link_after previous e = digest_bytes (digest_hex previous @ canonical (entry_document e))"

record ledger =
  lg_location :: store_location
  lg_signer :: chain_signer
  lg_head :: head

definition ledger_open ::
  "'fs files_port \<Rightarrow> host \<Rightarrow> store_location \<Rightarrow> chain_signer \<Rightarrow> ('fs, ledger) io" where
  "ledger_open port h loc signer =
     io_bind (stored_head port h loc) (\<lambda>hd.
       io_return \<lparr>lg_location = loc, lg_signer = signer,
                  lg_head = (case hd of None \<Rightarrow> EMPTY | Some x \<Rightarrow> x)\<rparr>)"

definition head_document :: "head \<Rightarrow> json" where
  "head_document x = JObj [(''sequence'', JInt (hd_sequence x)), (''link'', JStr (digest_hex (hd_link x)))]"

text \<open>What \<open>append\<close> seals, from the head it continues and the stamp the clock gave.\<close>

definition seal_next :: "ledger \<Rightarrow> event \<Rightarrow> str \<Rightarrow> sealed" where
  "seal_next lg ev stamp =
     (let e = \<lparr>en_sequence = hd_sequence (lg_head lg) + 1, en_stamp = stamp, en_event = ev\<rparr>;
          link = link_after (hd_link (lg_head lg)) e
      in \<lparr>sl_entry = e, sl_link = link, sl_tag = sign (lg_signer lg) link\<rparr>)"

definition head_at :: "sealed \<Rightarrow> head" where
  "head_at s = \<lparr>hd_sequence = en_sequence (sl_entry s), hd_link = sl_link s\<rparr>"

definition append_entry ::
  "'fs files_port \<Rightarrow> host \<Rightarrow> event \<Rightarrow> str \<Rightarrow> ('fs \<times> ledger, sealed) io" where
  "append_entry port h ev stamp =
     io_bind (io_lift (require_attestable (ev_environment ev) None)) (\<lambda>_.
     io_bind (io_read (\<lambda>so. seal_next (snd so) ev stamp)) (\<lambda>s.
     io_bind (io_read (\<lambda>so. lg_location (snd so))) (\<lambda>loc.
     io_bind (io_lift (chain_path h loc)) (\<lambda>chain.
     io_bind (on_port (fp_append_line port chain (sealed_line s) RECORD_MODE)) (\<lambda>_.
     io_bind (on_object (\<lambda>lg. lg\<lparr>lg_head := head_at s\<rparr>)) (\<lambda>_.
     io_bind (io_lift (head_path h loc)) (\<lambda>hp.
     io_bind (on_port (fp_write_atomic port hp (canonical (head_document (head_at s))) RECORD_MODE)) (\<lambda>_.
       io_return s))))))))"

text \<open>Comparing with the stored names, a value that is no text is none of them.\<close>

definition parse_verdict_field :: "json \<Rightarrow> verdict res" where
  "parse_verdict_field j =
     (case j of JStr s \<Rightarrow> parse_verdict s NO_VERIFIED_RESULT | _ \<Rightarrow> Inl (Refusal MALFORMED_VERDICT))"

definition parse_event :: "json \<Rightarrow> event res" where
  "parse_event body =
     rbind (rbind (py_item body ''kind'') (enum_member ledger_kind_value [RECORDED, IMPORTED])) (\<lambda>kind.
     rbind (rbind (py_item body ''check'') (of_text mk_dotted_name)) (\<lambda>check.
     rbind (rbind (py_item body ''verdict'') parse_verdict_field) (\<lambda>v.
     rbind (rbind (py_item body ''environment'') (enum_member environment_value environment_kinds)) (\<lambda>environment.
     rbind (rbind (py_item body ''candidate'') (of_text mk_digest)) (\<lambda>candidate.
     rbind (rbind (rbind (py_item body ''proofs'') py_iter) (rmapM (of_text mk_digest))) (\<lambda>proofs.
     rbind (rbind (rbind (py_item body ''scope_limits'') py_iter)
              (rmapM (enum_member scope_limit_value scope_limits_all))) (\<lambda>limits.
       Inr \<lparr>ev_kind = kind, ev_check = check, ev_verdict = v, ev_environment = environment,
            ev_candidate = candidate, ev_proofs = proofs, ev_scope_limits = limits\<rparr>)))))))"

definition parse_sealed :: "json \<Rightarrow> sealed res" where
  "parse_sealed document =
     rbind (py_item document ''entry'') (\<lambda>body.
     rbind (parse_event body) (\<lambda>ev.
     rbind (rbind (py_item body ''sequence'') py_int) (\<lambda>sequence.
     rbind (py_item body ''stamp'') (\<lambda>stamp.
     rbind (rbind (py_item document ''link'') (of_text mk_digest)) (\<lambda>link.
     rbind (py_item document ''mac'') (\<lambda>mac.
       Inr \<lparr>sl_entry = \<lparr>en_sequence = sequence, en_stamp = py_str stamp, en_event = ev\<rparr>,
            sl_link = link, sl_tag = py_str mac\<rparr>))))))"

text \<open>\<open>parse_line\<close> answers \<open>None\<close> for a line it calls malformed; what it does not catch it raises.\<close>

definition parse_line :: "bytes \<Rightarrow> sealed option res" where
  "parse_line line =
     (if int (length line) > LINE_LIMIT then Inr None
      else
        (case parse_document line of
           Inl e \<Rightarrow> if e = JSONDecodeError then Inr None else Inl e
         | Inr (JObj d) \<Rightarrow> rcatch (map_sum id Some (parse_sealed (JObj d))) is_unreadable (Inr None)
         | Inr document \<Rightarrow> Inr None))"

definition broken :: "sealed list \<Rightarrow> nat \<Rightarrow> int \<Rightarrow> chain_break \<Rightarrow> (sealed list \<times> report) res" where
  "broken held entries sequence cause =
     Inr (held, \<lparr>rp_entries = entries, rp_first_break = Some \<lparr>bk_sequence = sequence, bk_cause = cause\<rparr>\<rparr>)"

fun verify_from ::
  "chain_signer \<Rightarrow> head option \<Rightarrow> sealed list \<Rightarrow> digest \<Rightarrow> int \<Rightarrow> nat \<Rightarrow> bytes list \<Rightarrow> (sealed list \<times> report) res" where
  "verify_from signer ho held previous expected position [] =
     (case ho of
        Some x \<Rightarrow>
          if hd_sequence x \<noteq> expected - 1 \<or> hd_link x \<noteq> previous
          then broken held position (hd_sequence x) HEAD_AHEAD_OF_CHAIN
          else Inr (held, \<lparr>rp_entries = position, rp_first_break = None\<rparr>)
      | None \<Rightarrow> Inr (held, \<lparr>rp_entries = position, rp_first_break = None\<rparr>))"
| "verify_from signer ho held previous expected position (line # lines) =
     rbind (parse_line line) (\<lambda>parsed.
       case parsed of
         None \<Rightarrow> broken held position expected MALFORMED_LINE
       | Some s \<Rightarrow>
           if en_sequence (sl_entry s) \<noteq> expected
           then broken held position (en_sequence (sl_entry s)) SEQUENCE_OUT_OF_ORDER
           else
             rbind (confirms signer (sl_link s) (sl_tag s)) (\<lambda>confirmed.
               if \<not> confirmed then broken held position expected MAC_MISMATCH
               else if sl_link s \<noteq> link_after previous (sl_entry s)
               then broken held position expected LINK_MISMATCH
               else verify_from signer ho (held @ [s]) (sl_link s) (expected + 1) (position + 1) lines))"

definition verify_lines :: "chain_signer \<Rightarrow> head option \<Rightarrow> bytes list \<Rightarrow> (sealed list \<times> report) res" where
  "verify_lines signer ho lines = verify_from signer ho [] GENESIS 0 0 lines"

definition replay :: "chain_signer \<Rightarrow> head option \<Rightarrow> bytes list \<Rightarrow> report res" where
  "replay signer ho lines = map_sum id snd (verify_lines signer ho lines)"

subsection \<open>A line reads back\<close>

text \<open>
  What reading a line gives is the entry as stored: the reason a check was not tested is not
  written down, so it comes back as the reader's default.
\<close>

fun reread :: "verdict \<Rightarrow> verdict" where
  "reread (NotTested r) = NotTested NO_VERIFIED_RESULT"
| "reread v = v"

definition as_stored :: "sealed \<Rightarrow> sealed" where
  "as_stored s =
     s\<lparr>sl_entry := (sl_entry s)\<lparr>en_event := (en_event (sl_entry s))\<lparr>ev_verdict := reread (ev_verdict (en_event (sl_entry s)))\<rparr>\<rparr>\<rparr>"

definition event_ok :: "event \<Rightarrow> bool" where
  "event_ok ev \<longleftrightarrow> dotted_name_ok (ev_check ev) \<and> digest_ok (ev_candidate ev) \<and> list_all digest_ok (ev_proofs ev)"

definition entry_ok :: "entry \<Rightarrow> bool" where
  "entry_ok e \<longleftrightarrow> event_ok (en_event e) \<and> list_all is_ascii (en_stamp e)"

definition sealed_ok :: "sealed \<Rightarrow> bool" where
  "sealed_ok s \<longleftrightarrow> entry_ok (sl_entry s) \<and> digest_ok (sl_link s) \<and> list_all is_ascii (sl_tag s)"

lemma stored_name_ascii [simp]: "list_all is_ascii (stored_name v)"
  by (cases v) simp_all

lemma ledger_kind_ascii [simp]: "list_all is_ascii (ledger_kind_value k)"
  by (cases k) simp_all

lemma environment_ascii [simp]: "list_all is_ascii (environment_value e)"
  by (cases e) simp_all

lemma scope_limit_ascii [simp]: "list_all is_ascii (scope_limit_value l)"
  by (cases l) simp_all

lemma entry_fields_distinct: "distinct (map fst (entry_fields e))"
  by (simp add: entry_fields_def)

lemma plain_entry: "entry_ok e \<Longrightarrow> plain_json (entry_document e)"
  by (simp add: entry_document_def entry_fields_def entry_ok_def event_ok_def plain_items_text
      digest_ascii name_ascii) (auto simp: list_all_iff dest!: bspec digest_ascii)

lemma plain_sealed: "sealed_ok s \<Longrightarrow> plain_json (sealed_document s)"
  by (simp add: sealed_document_def sealed_ok_def plain_entry digest_ascii)

lemma parse_digest_text: "digest_ok d \<Longrightarrow> mk_digest (digest_hex d) = Inr d"
  by (cases d) (simp add: mk_digest_def digest_ok_def)

lemma parse_event_document:
  assumes "event_ok (en_event e)"
  shows "parse_event (sort_json (entry_document e)) =
    Inr ((en_event e)\<lparr>ev_verdict := reread (ev_verdict (en_event e))\<rparr>)"
proof -
  let ?ev = "en_event e"
  have item: "py_item (sort_json (entry_document e)) k
      = of_option KeyError (map_option sort_json (map_of (entry_fields e) k))" for k
    unfolding entry_document_def by (rule sorted_item) (rule entry_fields_distinct)
  have v: "parse_verdict (stored_name (ev_verdict ?ev)) NO_VERIFIED_RESULT = Inr (reread (ev_verdict ?ev))"
    by (cases "ev_verdict ?ev") (simp_all add: parse_verdict_def)
  have k: "enum_of ledger_kind_value [RECORDED, IMPORTED] (ledger_kind_value (ev_kind ?ev)) = Inr (ev_kind ?ev)"
    by (cases "ev_kind ?ev") (simp_all add: enum_of_def)
  have en: "enum_of environment_value environment_kinds (environment_value (ev_environment ?ev))
      = Inr (ev_environment ?ev)"
    using environment_of_value by (simp add: environment_of_def)
  have p: "rmapM (of_text mk_digest) (map (\<lambda>d. JStr (digest_hex d)) (ev_proofs ?ev)) = Inr (ev_proofs ?ev)"
    using assms by (auto simp: rmapM_eq_Inr list_all2_conv_all_nth event_ok_def list_all_length parse_digest_text)
  have l: "rmapM (enum_member scope_limit_value scope_limits_all)
      (map (\<lambda>x. JStr (scope_limit_value x)) (ev_scope_limits ?ev)) = Inr (ev_scope_limits ?ev)"
    using scope_limit_of_value by (auto simp: rmapM_eq_Inr list_all2_conv_all_nth scope_limit_of_def)
  have c: "mk_dotted_name (name_value (ev_check ?ev)) = Inr (ev_check ?ev)"
    "mk_digest (digest_hex (ev_candidate ?ev)) = Inr (ev_candidate ?ev)"
    using assms by (simp_all add: event_ok_def mk_dotted_name_value parse_digest_text)
  show ?thesis
    unfolding parse_event_def item
    by (simp add: entry_fields_def sort_items_text parse_verdict_field_def v k en p l c)
qed

lemma parse_sealed_document:
  assumes "sealed_ok s"
  shows "parse_sealed (sort_json (sealed_document s)) = Inr (as_stored s)"
proof -
  have e: "entry_ok (sl_entry s)" "digest_ok (sl_link s)" using assms by (simp_all add: sealed_ok_def)
  then have ev: "parse_event (sort_json (entry_document (sl_entry s))) =
      Inr ((en_event (sl_entry s))\<lparr>ev_verdict := reread (ev_verdict (en_event (sl_entry s)))\<rparr>)"
    by (intro parse_event_document) (simp add: entry_ok_def)
  have item: "py_item (sort_json (entry_document (sl_entry s))) k
      = of_option KeyError (map_option sort_json (map_of (entry_fields (sl_entry s)) k))" for k
    unfolding entry_document_def by (rule sorted_item) (rule entry_fields_distinct)
  have outer: "py_item (sort_json (sealed_document s)) k = of_option KeyError (map_option sort_json
      (map_of [(''entry'', entry_document (sl_entry s)), (''link'', JStr (digest_hex (sl_link s))),
           (''mac'', JStr (sl_tag s))] k))" for k
    unfolding sealed_document_def by (rule sorted_item) simp
  show ?thesis
    unfolding parse_sealed_def outer
    by (simp add: ev item) (simp add: entry_fields_def parse_digest_text e as_stored_def)
qed

lemma parse_sealed_line:
  assumes "sealed_ok s" "int (length (sealed_line s)) \<le> LINE_LIMIT"
  shows "parse_line (sealed_line s) = Inr (Some (as_stored s))"
proof -
  from read_value_canonical [OF plain_sealed [OF assms(1)]]
  have doc: "parse_document (sealed_line s) = Inr (sort_json (sealed_document s))"
    by (simp add: sealed_line_def)
  obtain d where d: "sort_json (sealed_document s) = JObj d" by (simp add: sealed_document_def)
  with parse_sealed_document [OF assms(1)] doc assms(2) show ?thesis
    by (simp add: parse_line_def)
qed

lemma as_stored_simps [simp]:
  "sl_link (as_stored s) = sl_link s" "sl_tag (as_stored s) = sl_tag s"
  "en_sequence (sl_entry (as_stored s)) = en_sequence (sl_entry s)"
  by (simp_all add: as_stored_def)

lemma reread_name [simp]: "stored_name (reread v) = stored_name v"
  by (cases v) simp_all

lemma as_stored_document [simp]: "entry_document (sl_entry (as_stored s)) = entry_document (sl_entry s)"
  by (simp add: as_stored_def entry_document_def entry_fields_def)

lemma link_after_as_stored [simp]: "link_after d (sl_entry (as_stored s)) = link_after d (sl_entry s)"
  by (simp add: link_after_def)

subsection \<open>Chains\<close>

text \<open>\<open>chained\<close>: the sealed entries continue one another from a link and a sequence on.\<close>

fun chained :: "chain_signer \<Rightarrow> digest \<Rightarrow> int \<Rightarrow> sealed list \<Rightarrow> bool" where
  "chained signer previous n [] = True"
| "chained signer previous n (s # ss) =
     (en_sequence (sl_entry s) = n \<and> sl_link s = link_after previous (sl_entry s)
    \<and> sl_tag s = sign signer (sl_link s) \<and> chained signer (sl_link s) (n + 1) ss)"

definition last_link :: "digest \<Rightarrow> sealed list \<Rightarrow> digest" where
  "last_link d ss = (if ss = [] then d else sl_link (last ss))"

lemma last_link_simps [simp]:
  "last_link d [] = d" "last_link d (s # ss) = last_link (sl_link s) ss"
  "last_link d (ss @ [s]) = sl_link s"
  by (auto simp: last_link_def)

lemma chained_append:
  "chained signer d n (ss @ ts) \<longleftrightarrow> chained signer d n ss \<and> chained signer (last_link d ss) (n + int (length ss)) ts"
  by (induction ss arbitrary: d n) (auto simp: algebra_simps)

lemma sign_ascii: "list_all is_ascii (sign signer link)"
proof -
  have "list_all is_hex (hmac_sha256_hex k m)" for k m
    using sha256_hex_shape by (simp add: hmac_sha256_hex_def Let_def)
  then show ?thesis
    by (auto simp: sign_def reveal_into_def hmac_accept_def list_all_iff hex_is_ascii)
qed

definition sealed_fits :: "sealed \<Rightarrow> bool" where
  "sealed_fits s \<longleftrightarrow> sealed_ok s \<and> int (length (sealed_line s)) \<le> LINE_LIMIT"

text \<open>Lines written one after another verify up to the end, whatever is left to read.\<close>

lemma verify_chained:
  "chained signer d n ss \<Longrightarrow> list_all sealed_fits ss \<Longrightarrow>
     verify_from signer ho held d n k (map sealed_line ss @ rest) =
     verify_from signer ho (held @ map as_stored ss) (last_link d ss) (n + int (length ss)) (k + length ss) rest"
proof (induction ss arbitrary: held d n k)
  case (Cons s ss)
  from Cons.prems have s: "sealed_fits s" "en_sequence (sl_entry s) = n"
    "sl_link s = link_after d (sl_entry s)" "sl_tag s = sign signer (sl_link s)"
    "chained signer (sl_link s) (n + 1) ss" "list_all sealed_fits ss"
    by (auto simp only: chained.simps list.pred_inject)
  have p: "parse_line (sealed_line s) = Inr (Some (as_stored s))"
    using s(1) by (intro parse_sealed_line) (simp_all add: sealed_fits_def)
  have c: "confirms signer (sl_link s) (sl_tag s) = Inr True"
    by (simp add: confirms_def s(4) sign_ascii)
  have "verify_from signer ho held d n k (map sealed_line (s # ss) @ rest) =
      verify_from signer ho (held @ [as_stored s]) (sl_link s) (n + 1) (k + 1) (map sealed_line ss @ rest)"
    using s(2) by (simp add: p c s(3) [symmetric])
  also have "\<dots> = verify_from signer ho ((held @ [as_stored s]) @ map as_stored ss)
      (last_link (sl_link s) ss) (n + 1 + int (length ss)) (k + 1 + length ss) rest"
    by (rule Cons.IH [OF s(5,6)])
  finally show ?case by (simp add: algebra_simps)
qed simp

definition head_of :: "sealed list \<Rightarrow> head" where
  "head_of ss = (if ss = [] then EMPTY else head_at (last ss))"

lemma chained_last: "chained signer d n ss \<Longrightarrow> ss \<noteq> [] \<Longrightarrow> en_sequence (sl_entry (last ss)) = n + int (length ss) - 1"
  by (induction ss arbitrary: d n) auto

lemma head_of_chained:
  assumes "chained signer GENESIS 0 ss"
  shows "hd_sequence (head_of ss) = int (length ss) - 1" "hd_link (head_of ss) = last_link GENESIS ss"
  using chained_last [OF assms]
  by (auto simp: head_of_def EMPTY_def BEFORE_FIRST_def head_at_def last_link_def)

text \<open>A chain read whole is intact; read short of its head, the report names the head.\<close>

lemma verify_whole:
  assumes "chained signer GENESIS 0 ss" "list_all sealed_fits ss"
  shows "verify_lines signer (Some (head_of ss)) (map sealed_line ss) =
    Inr (map as_stored ss, \<lparr>rp_entries = length ss, rp_first_break = None\<rparr>)"
  using verify_chained [OF assms, of "Some (head_of ss)" "[]" 0 "[]"] head_of_chained [OF assms(1)]
  by (simp add: verify_lines_def)

lemma verify_truncated:
  assumes "chained signer GENESIS 0 ss" "list_all sealed_fits ss" "k < length ss"
  shows "verify_lines signer (Some (head_of ss)) (take k (map sealed_line ss)) =
    Inr (map as_stored (take k ss),
         \<lparr>rp_entries = k, rp_first_break = Some \<lparr>bk_sequence = int (length ss) - 1, bk_cause = HEAD_AHEAD_OF_CHAIN\<rparr>\<rparr>)"
proof -
  have split: "ss = take k ss @ drop k ss" by simp
  have "chained signer GENESIS 0 (take k ss)"
    using assms(1) chained_append [of signer GENESIS 0 "take k ss" "drop k ss"] by simp
  moreover have "list_all sealed_fits (take k ss)"
    using assms(2) by (auto simp: list_all_iff dest: in_set_takeD)
  ultimately show ?thesis
    using verify_chained [of signer GENESIS 0 "take k ss" "Some (head_of ss)" "[]" 0 "[]"]
      head_of_chained [OF assms(1)] assms(3)
    by (simp add: verify_lines_def broken_def take_map)
qed

subsection \<open>What an intact report means\<close>

lemma verify_from_intact:
  "verify_from signer (Some x) held d n k lines = Inr (held', rpt) \<Longrightarrow> report_intact rpt \<Longrightarrow>
     \<exists>ss. held' = held @ ss \<and> chained signer d n ss \<and> list_all2 (\<lambda>line s. parse_line line = Inr (Some s)) lines ss
        \<and> hd_sequence x = n + int (length ss) - 1 \<and> hd_link x = last_link d ss"
proof (induction lines arbitrary: held d n k)
  case Nil
  then show ?case by (auto simp: broken_def report_intact_def split: if_splits)
next
  case (Cons line lines)
  from Cons.prems(1) obtain parsed where p: "parse_line line = Inr parsed"
    by (auto simp: rbind_eq_Inr)
  from Cons.prems p obtain s where s: "parsed = Some s"
    by (cases parsed) (auto simp: broken_def report_intact_def)
  from Cons.prems p s have n: "en_sequence (sl_entry s) = n"
    by (auto simp: broken_def report_intact_def split: if_splits)
  from Cons.prems p s n obtain c where c: "confirms signer (sl_link s) (sl_tag s) = Inr c"
    by (auto simp: rbind_eq_Inr)
  from Cons.prems p s n c have c': "c" "sl_link s = link_after d (sl_entry s)"
    by (auto simp: broken_def report_intact_def split: if_splits)
  from Cons.prems p s n c c' have "verify_from signer (Some x) (held @ [s]) (sl_link s) (n + 1) (k + 1) lines = Inr (held', rpt)"
    by simp
  from Cons.IH [OF this Cons.prems(2)] obtain ss where ss: "held' = (held @ [s]) @ ss"
    "chained signer (sl_link s) (n + 1) ss" "list_all2 (\<lambda>line s. parse_line line = Inr (Some s)) lines ss"
    "hd_sequence x = n + 1 + int (length ss) - 1" "hd_link x = last_link (sl_link s) ss" by blast
  have "sl_tag s = sign signer (sl_link s)" using c c'(1) by (auto simp: confirms_def split: if_splits)
  with ss p s n c' show ?case by (intro exI [of _ "s # ss"]) auto
qed

lemma of_text_Inr: "of_text f j = Inr x \<longleftrightarrow> (\<exists>s. j = JStr s \<and> f s = Inr x)"
  by (cases j) (auto simp: of_text_def)

lemma parse_verdict_reread: "parse_verdict_field j = Inr v \<Longrightarrow> reread v = v"
  by (auto simp: parse_verdict_field_def parse_verdict_def split: if_splits json.splits)

lemma mk_digest_ok: "mk_digest s = Inr d \<Longrightarrow> digest_ok d"
  by (auto simp: mk_digest_def digest_ok_def split: if_splits)

lemma rmapM_digests: "rmapM (of_text mk_digest) js = Inr ds \<Longrightarrow> list_all digest_ok ds"
  by (auto simp: rmapM_eq_Inr of_text_Inr list_all2_conv_all_nth list_all_length dest!: mk_digest_ok spec)

lemma parse_event_ok:
  assumes "parse_event body = Inr ev"
  shows "event_ok ev \<and> reread (ev_verdict ev) = ev_verdict ev"
  using assms
  by (auto simp: parse_event_def rbind_eq_Inr of_text_Inr event_ok_def
      dest: mk_digest_ok rmapM_digests parse_verdict_reread)

lemma parse_line_ok:
  assumes "parse_line line = Inr (Some s)"
  shows "event_ok (en_event (sl_entry s))" "digest_ok (sl_link s)"
    "reread (ev_verdict (en_event (sl_entry s))) = ev_verdict (en_event (sl_entry s))"
proof -
  from assms obtain d where "map_sum id Some (parse_sealed d) = Inr (Some s)"
    by (auto simp: parse_line_def rcatch_eq_Inr split: if_splits sum.splits json.splits)
  then have "parse_sealed d = Inr s" by (cases "parse_sealed d") auto
  then obtain body where "parse_event body = Inr (en_event (sl_entry s))" "digest_ok (sl_link s)"
    by (auto simp: parse_sealed_def rbind_eq_Inr of_text_Inr dest: mk_digest_ok)
  with parse_event_ok show "event_ok (en_event (sl_entry s))" "digest_ok (sl_link s)"
    "reread (ev_verdict (en_event (sl_entry s))) = ev_verdict (en_event (sl_entry s))" by blast+
qed

text \<open>The message a link is the digest of, and that it determines the link before and the entry.\<close>

definition link_input :: "digest \<Rightarrow> entry \<Rightarrow> bytes" where
  "link_input previous e = digest_hex previous @ canonical (entry_document e)"

definition entry_read :: "entry \<Rightarrow> bool" where
  "entry_read e \<longleftrightarrow> entry_ok e \<and> reread (ev_verdict (en_event e)) = ev_verdict (en_event e)"

lemma canonical_entry_inj:
  assumes "entry_read e" "entry_read f" "canonical (entry_document e) = canonical (entry_document f)"
  shows "e = f"
proof -
  have ok: "entry_ok e" "entry_ok f" using assms(1,2) by (simp_all add: entry_read_def)
  from read_value_canonical [OF plain_entry [OF ok(1)]] read_value_canonical [OF plain_entry [OF ok(2)]] assms(3)
  have doc: "sort_json (entry_document e) = sort_json (entry_document f)" by simp
  have "event_ok (en_event e)" "event_ok (en_event f)" using ok by (simp_all add: entry_ok_def)
  from parse_event_document [OF this(1)] parse_event_document [OF this(2)] doc assms(1,2)
  have ev: "en_event e = en_event f" by (simp add: entry_read_def)
  have "map_of (entry_fields e) k = map_of (entry_fields f) k \<or>
      map_option sort_json (map_of (entry_fields e) k) = map_option sort_json (map_of (entry_fields f) k)" for k
  proof -
    have "py_item (sort_json (entry_document e)) k = py_item (sort_json (entry_document f)) k" using doc by simp
    then have "of_option KeyError (map_option sort_json (map_of (entry_fields e) k))
        = of_option KeyError (map_option sort_json (map_of (entry_fields f) k))"
      unfolding entry_document_def sorted_item [OF entry_fields_distinct] .
    then show ?thesis
      by (cases "map_of (entry_fields e) k"; cases "map_of (entry_fields f) k") auto
  qed
  from this [of "''sequence''"] this [of "''stamp''"] have "en_sequence e = en_sequence f" "en_stamp e = en_stamp f"
    by (simp_all add: entry_fields_def)
  with ev show ?thesis by simp
qed

lemma link_input_inj:
  assumes "digest_ok d" "digest_ok d'" "entry_read e" "entry_read f" "link_input d e = link_input d' f"
  shows "d = d' \<and> e = f"
proof -
  have "digest_hex d = digest_hex d'" "canonical (entry_document e) = canonical (entry_document f)"
    using assms(1,2,5) by (simp_all add: link_input_def digest_ok_def)
  with canonical_entry_inj [OF assms(3,4)] show ?thesis by (simp add: digest.expand)
qed

definition collide :: "bytes \<Rightarrow> bytes \<Rightarrow> bool" where
  "collide x y \<longleftrightarrow> x \<noteq> y \<and> digest_bytes x = digest_bytes y"

definition link_message :: "sealed list \<Rightarrow> nat \<Rightarrow> bytes" where
  "link_message ss i = link_input (last_link GENESIS (take i ss)) (sl_entry (ss ! i))"

lemma genesis_ok [simp]: "digest_ok GENESIS"
  by (auto simp: GENESIS_def digest_ok_def is_hex_def is_digit_def list_all_iff)

lemma last_link_ok: "digest_ok d \<Longrightarrow> \<forall>s \<in> set ss. digest_ok (sl_link s) \<Longrightarrow> digest_ok (last_link d ss)"
  by (auto simp: last_link_def)

lemma chains_same_end:
  assumes "length ss = length ts"
    and "chained signer GENESIS 0 ss" "chained signer GENESIS 0 ts"
    and "last_link GENESIS ss = last_link GENESIS ts"
    and "\<forall>s \<in> set ss \<union> set ts. entry_read (sl_entry s) \<and> digest_ok (sl_link s)"
  shows "ss = ts \<or> (\<exists>i < length ss. collide (link_message ss i) (link_message ts i))"
  using assms
proof (induction ss arbitrary: ts rule: rev_induct)
  case (snoc s ss)
  from snoc.prems(1) obtain ts' t where ts: "ts = ts' @ [t]" "length ss = length ts'"
    by (cases ts rule: rev_cases) auto
  from snoc.prems(2,3) ts have c: "chained signer GENESIS 0 ss" "chained signer GENESIS 0 ts'"
    "sl_link s = link_after (last_link GENESIS ss) (sl_entry s)" "sl_tag s = sign signer (sl_link s)"
    "sl_link t = link_after (last_link GENESIS ts') (sl_entry t)" "sl_tag t = sign signer (sl_link t)"
    by (simp_all add: chained_append)
  have same: "sl_link s = sl_link t" using snoc.prems(4) ts by simp
  have at_end: "link_message (ss @ [s]) (length ss) = link_input (last_link GENESIS ss) (sl_entry s)"
    "link_message ts (length ss) = link_input (last_link GENESIS ts') (sl_entry t)"
    using ts by (simp_all add: link_message_def nth_append)
  show ?case
  proof (cases "link_input (last_link GENESIS ss) (sl_entry s) = link_input (last_link GENESIS ts') (sl_entry t)")
    case False
    then have "collide (link_message (ss @ [s]) (length ss)) (link_message ts (length ss))"
      using same c(3,5) by (simp add: at_end collide_def link_after_def link_input_def)
    then show ?thesis by auto
  next
    case True
    have "digest_ok (last_link GENESIS ss)" "digest_ok (last_link GENESIS ts')"
      using snoc.prems(5) ts by (auto intro!: last_link_ok)
    from link_input_inj [OF this _ _ True] snoc.prems(5) ts
    have eq: "last_link GENESIS ss = last_link GENESIS ts'" "sl_entry s = sl_entry t" by auto
    with same c(4,6) have "s = t" by simp
    moreover from snoc.IH [OF ts(2) c(1,2) eq(1)] snoc.prems(5) ts
    have "ss = ts' \<or> (\<exists>i < length ss. collide (link_message ss i) (link_message ts' i))" by simp
    moreover have "link_message (ss @ [s]) i = link_message ss i" "link_message ts i = link_message ts' i"
      if "i < length ss" for i
      using that ts by (simp_all add: link_message_def nth_append)
    ultimately show ?thesis using ts(1) by (metis length_append_singleton less_SucI)
  qed
qed simp

lemma intact_same_head:
  assumes "verify_lines signer (Some x) lines = Inr (ss, r)" "report_intact r"
    and "verify_lines signer (Some x) lines' = Inr (ts, r')" "report_intact r'"
    and "\<forall>s \<in> set ss \<union> set ts. list_all is_ascii (en_stamp (sl_entry s))"
  shows "ss = ts \<or> (\<exists>i < length ss. collide (link_message ss i) (link_message ts i))"
proof -
  from verify_from_intact [OF assms(1) [unfolded verify_lines_def] assms(2)]
  have s: "chained signer GENESIS 0 ss" "list_all2 (\<lambda>line s. parse_line line = Inr (Some s)) lines ss"
    "hd_sequence x = int (length ss) - 1" "hd_link x = last_link GENESIS ss" by auto
  from verify_from_intact [OF assms(3) [unfolded verify_lines_def] assms(4)]
  have t: "chained signer GENESIS 0 ts" "list_all2 (\<lambda>line s. parse_line line = Inr (Some s)) lines' ts"
    "hd_sequence x = int (length ts) - 1" "hd_link x = last_link GENESIS ts" by auto
  have "entry_read (sl_entry u) \<and> digest_ok (sl_link u)" if u: "u \<in> set ss \<union> set ts" for u
  proof -
    from u s(2) t(2) obtain line where "parse_line line = Inr (Some u)"
      by (auto simp: list_all2_conv_all_nth in_set_conv_nth)
    from parse_line_ok [OF this] assms(5) u show ?thesis by (auto simp: entry_read_def entry_ok_def)
  qed
  with s t show ?thesis by (intro chains_same_end) auto
qed

subsection \<open>Appending keeps the chain\<close>

lemma line_no_newline: "sealed_ok s \<Longrightarrow> CHR 0x0A \<notin> set (sealed_line s) \<and> sealed_line s \<noteq> []"
  by (simp add: sealed_line_def canonical_no_newline canonical_nonempty plain_sealed)

lemma chain_lines_written:
  "\<forall>l \<in> set ls. CHR 0x0A \<notin> set l \<and> l \<noteq> [] \<Longrightarrow> chain_lines (concat (map (\<lambda>l. l @ [CHR 0x0A]) ls)) = ls"
proof (induction ls)
  case (Cons l ls)
  then show ?case
    by (simp add: chain_lines_def split_on_append_sep)
qed (simp add: chain_lines_def)

lemma parse_head_written:
  assumes "digest_ok (hd_link x)"
  shows "parse_head (canonical (head_document x)) = Inr x"
proof -
  have plain: "plain_json (head_document x)"
    using assms by (simp add: head_document_def digest_ascii)
  have item: "py_item (sort_json (head_document x)) k = of_option KeyError (map_option sort_json
      (map_of [(''sequence'', JInt (hd_sequence x)), (''link'', JStr (digest_hex (hd_link x)))] k))" for k
    unfolding head_document_def by (rule sorted_item) simp
  show ?thesis
    using assms
    by (simp add: parse_head_def read_value_canonical [OF plain] item parse_digest_text del: mk_digest_Inr)
qed

lemma render_hex:
  assumes "digest_ok d"
  shows "render_string (digest_hex d) = CHR 0x22 # digest_hex d @ [CHR 0x22]"
proof (rule render_string_plain)
  have "is_hex c \<Longrightarrow> is_printable c \<and> c \<noteq> CHR 0x22 \<and> c \<noteq> CHR 0x5C \<and> c \<noteq> CHR 0x7F" for c
    by (auto simp: is_hex_def is_digit_def is_printable_def byte_of_def less_eq_char_def)
  with assms show "list_all (\<lambda>c. is_printable c \<and> c \<noteq> CHR 0x22 \<and> c \<noteq> CHR 0x5C \<and> c \<noteq> CHR 0x7F) (digest_hex d)"
    by (auto simp: digest_ok_def list_all_iff)
qed

lemma head_length:
  assumes "digest_ok (hd_link x)" "0 \<le> hd_sequence x" "hd_sequence x < 10 ^ 9"
  shows "int (length (canonical (head_document x))) \<le> LINE_LIMIT"
proof -
  have "length (str_of_int (hd_sequence x)) \<le> 9"
    using assms(2,3) by (simp add: str_of_int_def length_str_of_nat nat_less_iff)
  moreover have keys: "render_string ''link'' = CHR 0x22 # ''link'' @ [CHR 0x22]"
    "render_string ''sequence'' = CHR 0x22 # ''sequence'' @ [CHR 0x22]"
    by (rule render_string_plain; simp)+
  moreover have "length (digest_hex (hd_link x)) = 64" using assms(1) by (simp add: digest_ok_def)
  moreover have "canonical (head_document x) = render (JObj [(''link'', JStr (digest_hex (hd_link x))),
      (''sequence'', JInt (hd_sequence x))])"
    by (simp add: canonical_def head_document_def)
  ultimately show ?thesis
    using render_hex [OF assms(1)] by (simp add: LINE_LIMIT_def)
qed

text \<open>
  \<open>chain_files\<close>: the files and the ledger object hold the sealed entries \<open>ss\<close>. With no entry yet
  neither file has content; from the first one on, the chain file is the lines and the head file
  names the last of them. \<open>chain_holds\<close>: and with no entry yet neither file exists.
\<close>

context file_store
begin

definition chain_files :: "host \<Rightarrow> 'fs \<times> ledger \<Rightarrow> sealed list \<Rightarrow> bool" where
  "chain_files h so ss \<longleftrightarrow>
     plain (fst so)
   \<and> chained (lg_signer (snd so)) GENESIS 0 ss \<and> list_all sealed_fits ss \<and> lg_head (snd so) = head_of ss
   \<and> (\<exists>cp hp. chain_path h (lg_location (snd so)) = Inr cp \<and> head_path h (lg_location (snd so)) = Inr hp
        \<and> cp \<noteq> hp
        \<and> content (fst so) cp = (if ss = [] then None else Some (concat (map (\<lambda>s. sealed_line s @ [CHR 0x0A]) ss)))
        \<and> content (fst so) hp = (if ss = [] then None else Some (canonical (head_document (head_of ss)))))"

definition chain_holds :: "host \<Rightarrow> 'fs \<times> ledger \<Rightarrow> sealed list \<Rightarrow> bool" where
  "chain_holds h so ss \<longleftrightarrow> chain_files h so ss
     \<and> (ss = [] \<longrightarrow> (\<forall>p. chain_path h (lg_location (snd so)) = Inr p \<or> head_path h (lg_location (snd so)) = Inr p
                      \<longrightarrow> fp_exists port p (fst so) = (fst so, Inr False)))"

lemma append_runs:
  assumes "plain fs" "chain_path h (lg_location lg) = Inr cp" "head_path h (lg_location lg) = Inr hp"
    and "ev_environment ev \<noteq> SIMULATED"
  obtains fs' where
    "append_entry port h ev stamp (fs, lg) =
       ((fs', lg\<lparr>lg_head := head_at (seal_next lg ev stamp)\<rparr>), Inr (seal_next lg ev stamp))"
    "plain fs'"
    "content fs' = (content fs)(cp \<mapsto> appended (content fs cp) (sealed_line (seal_next lg ev stamp)),
                                hp \<mapsto> canonical (head_document (head_at (seal_next lg ev stamp))))"
proof -
  let ?s = "seal_next lg ev stamp"
  from append_spec [OF assms(1), of cp "sealed_line ?s" RECORD_MODE] obtain fs1 where
    a: "fp_append_line port cp (sealed_line ?s) RECORD_MODE fs = (fs1, Inr ())"
      "content fs1 = (content fs)(cp \<mapsto> appended (content fs cp) (sealed_line ?s))" "plain fs1" by blast
  from write_spec [OF a(3), of hp "canonical (head_document (head_at ?s))" RECORD_MODE] obtain fs2 where
    w: "fp_write_atomic port hp (canonical (head_document (head_at ?s))) RECORD_MODE fs1
        = (fs2, Inr (digest_bytes (canonical (head_document (head_at ?s)))))"
      "content fs2 = (content fs1)(hp \<mapsto> canonical (head_document (head_at ?s)))" "plain fs2" by blast
  have "require_attestable (ev_environment ev) None = Inr (ev_environment ev)"
    using assms(4) by (simp add: require_attestable_Inr)
  with a(1) w(1) assms(2,3) have "append_entry port h ev stamp (fs, lg) = ((fs2, lg\<lparr>lg_head := head_at ?s\<rparr>), Inr ?s)"
    by (simp add: append_entry_def io_bind_def)
  then show ?thesis by (rule that) (simp_all add: w(2,3) a(2))
qed

lemma append_files:
  assumes "chain_files h (fs, lg) ss" "append_entry port h ev stamp (fs, lg) = (so', Inr s)"
    and "event_ok ev" "list_all is_ascii stamp" "int (length (sealed_line s)) \<le> LINE_LIMIT"
  shows "chain_files h so' (ss @ [s])" "en_event (sl_entry s) = ev" "ev_environment ev \<noteq> SIMULATED"
    "lg_location (snd so') = lg_location lg" "lg_signer (snd so') = lg_signer lg"
proof -
  from assms(1) [unfolded chain_files_def fst_conv snd_conv] obtain cp hp where
    st: "plain fs" "chained (lg_signer lg) GENESIS 0 ss" "list_all sealed_fits ss"
    "lg_head lg = head_of ss" "chain_path h (lg_location lg) = Inr cp" "head_path h (lg_location lg) = Inr hp"
    "cp \<noteq> hp"
    "content fs cp = (if ss = [] then None else Some (concat (map (\<lambda>s. sealed_line s @ [CHR 0x0A]) ss)))"
    by blast
  let ?s = "seal_next lg ev stamp"
  from assms(2) have env: "ev_environment ev \<noteq> SIMULATED"
    by (auto simp: append_entry_def io_lift_bind_Inr require_attestable_Inr)
  from append_runs [OF st(1,5,6) this, of stamp] obtain fs2 where
    w: "append_entry port h ev stamp (fs, lg) = ((fs2, lg\<lparr>lg_head := head_at ?s\<rparr>), Inr ?s)" "plain fs2"
      "content fs2 = (content fs)(cp \<mapsto> appended (content fs cp) (sealed_line ?s),
                                  hp \<mapsto> canonical (head_document (head_at ?s)))" .
  with assms(2) have s: "s = ?s" and so': "so' = (fs2, lg\<lparr>lg_head := head_at ?s\<rparr>)" by auto
  note hd = head_of_chained [OF st(2)]
  have nx: "en_sequence (sl_entry s) = int (length ss)" "sl_link s = link_after (last_link GENESIS ss) (sl_entry s)"
    "sl_tag s = sign (lg_signer lg) (sl_link s)" "en_event (sl_entry s) = ev" "en_stamp (sl_entry s) = stamp"
    using hd by (simp_all add: s seal_next_def Let_def st(4))
  have "digest_ok (sl_link s)" by (simp add: nx(2) link_after_def)
  then have fits: "sealed_fits s"
    using assms(3-5) nx by (simp add: sealed_fits_def sealed_ok_def entry_ok_def sign_ascii)
  have lines: "content fs2 cp = Some (concat (map (\<lambda>s. sealed_line s @ [CHR 0x0A]) (ss @ [s])))"
    using w(3) st(7,8) s by (cases "ss = []") (simp_all add: appended_def)
  have "chained (lg_signer lg) GENESIS 0 (ss @ [s])" using st(2) nx by (simp add: chained_append)
  with st fits w s lines show "chain_files h so' (ss @ [s])"
    by (simp add: so' chain_files_def head_of_def)
  show "en_event (sl_entry s) = ev" "ev_environment ev \<noteq> SIMULATED"
    "lg_location (snd so') = lg_location lg" "lg_signer (snd so') = lg_signer lg"
    by (rule nx(4), rule env, simp_all add: so')
qed

lemma append_holds:
  assumes "chain_holds h (fs, lg) ss" "append_entry port h ev stamp (fs, lg) = (so', Inr s)"
    and "event_ok ev" "list_all is_ascii stamp" "int (length (sealed_line s)) \<le> LINE_LIMIT"
  shows "chain_holds h so' (ss @ [s])" "en_event (sl_entry s) = ev" "ev_environment ev \<noteq> SIMULATED"
  using append_files [OF _ assms(2-5), of ss] assms(1) by (simp_all add: chain_holds_def)

text \<open>Reading the files back gives the lines and the head, which are judged intact.\<close>

lemma chain_reads:
  assumes "chain_holds h (fs, lg) ss"
    and "int (length (concat (map (\<lambda>s. sealed_line s @ [CHR 0x0A]) ss))) \<le> CHAIN_LIMIT"
  shows "read_chain port h (lg_location lg) CHAIN_LIMIT fs =
    (fs, Inr (map sealed_line ss, if ss = [] then None else Some (head_of ss)))"
proof -
  let ?body = "concat (map (\<lambda>s. sealed_line s @ [CHR 0x0A]) ss)"
  from assms(1) [unfolded chain_holds_def chain_files_def fst_conv snd_conv] obtain cp hp where st: "plain fs" "chained (lg_signer lg) GENESIS 0 ss" "list_all sealed_fits ss"
    "chain_path h (lg_location lg) = Inr cp" "head_path h (lg_location lg) = Inr hp"
    "if ss = []
     then content fs cp = None \<and> fp_exists port cp fs = (fs, Inr False)
        \<and> content fs hp = None \<and> fp_exists port hp fs = (fs, Inr False)
     else content fs cp = Some ?body \<and> content fs hp = Some (canonical (head_document (head_of ss)))"
    by (cases "ss = []") (simp_all, blast+)
  show ?thesis
  proof (cases "ss = []")
    case True
    with st show ?thesis
      by (simp add: read_chain_def stored_head_def io_bind_def chain_lines_def)
  next
    case False
    with st have c: "content fs cp = Some ?body" "content fs hp = Some (canonical (head_document (head_of ss)))"
      by simp_all
    have ok: "\<forall>s \<in> set ss. sealed_ok s" using st(3) by (auto simp: list_all_iff sealed_fits_def)
    have "length ss \<le> length ?body"
      by (induction ss) auto
    with assms(2) have small: "int (length ss) \<le> CHAIN_LIMIT" by linarith
    have link: "digest_ok (hd_link (head_of ss))"
      using head_of_chained(2) [OF st(2)] ok by (auto simp: sealed_ok_def intro!: last_link_ok)
    have "fp_read_bytes port cp CHAIN_LIMIT fs = (fs, Inr ?body)"
      by (rule read_whole [OF st(1) c(1) assms(2)]) (simp add: CHAIN_LIMIT_def)
    moreover have "fp_read_bytes port hp LINE_LIMIT fs = (fs, Inr (canonical (head_document (head_of ss))))"
    proof (rule read_whole [OF st(1) c(2)])
      show "int (length (canonical (head_document (head_of ss)))) \<le> LINE_LIMIT"
        using head_of_chained(1) [OF st(2)] small False link
        by (intro head_length) (auto simp: CHAIN_LIMIT_def)
    qed (simp add: LINE_LIMIT_def)
    moreover have "chain_lines ?body = map sealed_line ss"
      using chain_lines_written [of "map sealed_line ss"] ok line_no_newline by (auto simp: comp_def)
    moreover have "fp_exists port cp fs = (fs, Inr True)" "fp_exists port hp fs = (fs, Inr True)"
      using exists_spec [OF st(1)] c by simp_all
    ultimately show ?thesis
      using False st(4,5) parse_head_written [OF link]
      by (simp add: read_chain_def stored_head_def io_bind_def)
  qed
qed

lemma chain_verifies:
  assumes "chain_holds h (fs, lg) ss" "ss \<noteq> []"
  shows "verify_lines (lg_signer lg) (Some (head_of ss)) (map sealed_line ss) =
    Inr (map as_stored ss, \<lparr>rp_entries = length ss, rp_first_break = None\<rparr>)"
  using assms(1) by (intro verify_whole) (auto simp: chain_holds_def chain_files_def)

end

end
