(* ===== verification/Readiness.thy ===== *)
theory Readiness
  imports Identifiers Verdicts Claims
begin

section \<open>Whether a candidate may be installed (attestation/readiness.py)\<close>

text \<open>
  The fold over the resolved records of a store: first one record for each check of the
  catalogue, then a verdict for every check, then the conjunction. The lemmas give the fold in
  closed form and characterise the records under which it answers ready.
\<close>

record resolved_record =
  rr_check :: check_id
  rr_verdict :: verdict
  rr_environment :: environment_kind
  rr_candidate :: digest
  rr_proofs_intact :: bool
  rr_proof_count :: nat
  rr_imported :: bool

abbreviation rr_name :: "resolved_record \<Rightarrow> str" where
  "rr_name r \<equiv> name_value (rr_check r)"

record readiness =
  rd_ready :: bool
  rd_verdicts :: "(str, verdict) dict"
  rd_counts :: "(str, nat) dict"
  rd_faults :: "str list"

definition verdict_of :: "readiness \<Rightarrow> str \<Rightarrow> verdict res" where
  "verdict_of outcome check = of_option KeyError (map_of (rd_verdicts outcome) check)"

record stated =
  st_verdicts :: "(str, verdict) dict"
  st_faults :: "str list"
  st_standing_on_imported :: bool

definition blocked_fault :: "refusal_reason \<Rightarrow> check_id \<Rightarrow> str \<Rightarrow> str" where
  "blocked_fault reason check detail =
     reason_value reason @ '': '' @ name_value check @ '' '' @ detail"

definition judge ::
  "resolved_record \<Rightarrow> environment_kind \<Rightarrow> digest \<Rightarrow> verdict \<times> str option" where
  "judge r required_environment candidate =
     (if rr_candidate r \<noteq> candidate then
        (Blocked, Some (blocked_fault RECORD_NOT_BOUND_TO_CANDIDATE (rr_check r) ''cites another build''))
      else if \<not> rr_proofs_intact r then
        (Blocked, Some (blocked_fault PROOF_ALTERED (rr_check r) ''has a proof that no longer matches''))
      else if \<not> satisfies (rr_environment r) required_environment then
        (Blocked, Some (blocked_fault HARDWARE_REQUIRES_PHYSICAL (rr_check r)
           (''was recorded in '' @ environment_value (rr_environment r) @ '', not ''
              @ environment_value required_environment)))
      else if rr_verdict r = Passed \<and> rr_proof_count r = 0 then
        (Blocked, Some (blocked_fault PASS_REQUIRES_PROOF (rr_check r) ''passed without proof''))
      else (rr_verdict r, None))"

text \<open>One step of the loop over the records, and the loop.\<close>

definition seen_step ::
  "(str, environment_kind) dict \<Rightarrow> (str, resolved_record) dict \<times> str list \<Rightarrow> resolved_record
     \<Rightarrow> (str, resolved_record) dict \<times> str list" where
  "seen_step required acc r = (case acc of (seen, faults) \<Rightarrow>
     if \<not> dict_has required (rr_name r) then
       (seen, faults @ [blocked_fault UNKNOWN_CHECK (rr_check r) ''is not in the catalogue''])
     else if dict_has seen (rr_name r) then
       (seen, faults @ [blocked_fault DUPLICATE_EVIDENCE (rr_check r) ''has two records''])
     else (dict_set (rr_name r) r seen, faults))"

definition one_record_per_known_check ::
  "resolved_record list \<Rightarrow> (str, environment_kind) dict \<Rightarrow> (str, resolved_record) dict \<times> str list" where
  "one_record_per_known_check records required = foldl (seen_step required) ([], []) records"

definition state_step ::
  "(str, resolved_record) dict \<Rightarrow> digest option \<Rightarrow> stated \<Rightarrow> str \<times> environment_kind \<Rightarrow> stated" where
  "state_step seen candidate st ne = (case ne of (name, environment) \<Rightarrow>
     (case map_of seen name of
        None \<Rightarrow> st\<lparr>st_verdicts := dict_set name (NotTested NO_VERIFIED_RESULT) (st_verdicts st)\<rparr>
      | Some found \<Rightarrow>
          (case judge found environment (case candidate of None \<Rightarrow> rr_candidate found | Some c \<Rightarrow> c) of
             (v, fault) \<Rightarrow>
               \<lparr>st_verdicts = dict_set name v (st_verdicts st),
                st_faults = (case fault of None \<Rightarrow> st_faults st | Some f \<Rightarrow> st_faults st @ [f]),
                st_standing_on_imported =
                  (if rr_imported found \<and> permits_installation v then True
                   else st_standing_on_imported st)\<rparr>)))"

definition state_every_check ::
  "(str, environment_kind) dict \<Rightarrow> (str, resolved_record) dict \<Rightarrow> digest option \<Rightarrow> stated" where
  "state_every_check required seen candidate =
     foldl (state_step seen candidate)
       \<lparr>st_verdicts = [], st_faults = [], st_standing_on_imported = False\<rparr> required"

definition verdict_counts :: "verdict list \<Rightarrow> (str, nat) dict" where
  "verdict_counts vs =
     foldl (\<lambda>counts v. dict_set (stored_name v)
              ((case map_of counts (stored_name v) of None \<Rightarrow> 0 | Some n \<Rightarrow> n) + 1) counts) [] vs"

definition evaluate ::
  "(str, environment_kind) dict \<Rightarrow> resolved_record list \<Rightarrow> digest option \<Rightarrow> readiness" where
  "evaluate required records candidate =
     (case one_record_per_known_check records required of (seen, reading_faults) \<Rightarrow>
      let st = state_every_check required seen candidate;
          faults = reading_faults @ st_faults st
      in \<lparr>rd_ready = candidate \<noteq> None \<and> faults = [] \<and> \<not> st_standing_on_imported st
                     \<and> require_all (map snd (st_verdicts st)),
          rd_verdicts = st_verdicts st,
          rd_counts = verdict_counts (map snd (st_verdicts st)),
          rd_faults = faults\<rparr>)"

subsection \<open>The two loops in closed form\<close>

definition first_record :: "resolved_record list \<Rightarrow> str \<Rightarrow> resolved_record option" where
  "first_record records name = find (\<lambda>r. rr_name r = name) records"

lemma first_record_simps [simp]:
  "first_record [] name = None"
  "first_record (r # rs) name = (if rr_name r = name then Some r else first_record rs name)"
  by (simp_all add: first_record_def)

lemma first_record_Some: "first_record rs name = Some r \<Longrightarrow> r \<in> set rs \<and> rr_name r = name"
  by (induction rs) (auto split: if_splits)

lemma first_record_None: "first_record rs name = None \<longleftrightarrow> name \<notin> rr_name ` set rs"
  by (induction rs) auto

lemma first_record_distinct:
  "distinct (map rr_name rs) \<Longrightarrow> r \<in> set rs \<Longrightarrow> first_record rs (rr_name r) = Some r"
  by (induction rs) (auto simp: image_iff)

definition known :: "(str, environment_kind) dict \<Rightarrow> resolved_record list \<Rightarrow> bool" where
  "known required records \<longleftrightarrow> rr_name ` set records \<subseteq> fst ` set required"

lemma dict_has_keys: "dict_has d k \<longleftrightarrow> k \<in> fst ` set d"
  by (auto simp: dict_has_iff map_of_eq_None_iff)

lemma seen_fold:
  "map_of (fst (foldl (seen_step required) acc rs)) name =
     (case map_of (fst acc) name of
        Some r \<Rightarrow> Some r
      | None \<Rightarrow> if dict_has required name then first_record rs name else None)"
proof (induction rs arbitrary: acc)
  case (Cons r rs)
  obtain seen faults where acc: "acc = (seen, faults)" by fastforce
  show ?case
    unfolding foldl_Cons Cons.IH
    by (cases "map_of seen (rr_name r)"; cases "map_of required (rr_name r)"; cases "map_of required name")
      (auto simp: acc seen_step_def dict_has_iff split: option.split)
qed (simp split: option.split)

lemma seen_fold_faults:
  "snd (foldl (seen_step required) acc rs) = [] \<longleftrightarrow>
     snd acc = [] \<and> known required rs \<and> distinct (map rr_name rs)
     \<and> rr_name ` set rs \<inter> fst ` set (fst acc) = {}"
proof (induction rs arbitrary: acc)
  case Nil
  then show ?case by (simp add: known_def)
next
  case (Cons r rs)
  obtain seen faults where acc: "acc = (seen, faults)" by fastforce
  show ?case
  proof (cases "dict_has required (rr_name r) \<and> \<not> dict_has seen (rr_name r)")
    case True
    then have "fst ` set (dict_set (rr_name r) r seen) = insert (rr_name r) (fst ` set seen)"
      by (simp add: dict_has_iff dict_set_new)
    with True Cons.IH show ?thesis
      by (auto simp: acc seen_step_def known_def dict_has_keys)
  next
    case False
    then have "snd (seen_step required acc r) \<noteq> []"
      by (auto simp: acc seen_step_def)
    with False Cons.IH show ?thesis
      by (auto simp: acc known_def dict_has_keys)
  qed
qed

lemma one_record_spec:
  "map_of (fst (one_record_per_known_check records required)) name =
     (if dict_has required name then first_record records name else None)"
  "snd (one_record_per_known_check records required) = [] \<longleftrightarrow>
     known required records \<and> distinct (map rr_name records)"
  by (simp_all add: one_record_per_known_check_def seen_fold seen_fold_faults)

text \<open>What one check is stated as, from the record found for it.\<close>

definition check_judged ::
  "resolved_record option \<Rightarrow> digest option \<Rightarrow> environment_kind \<Rightarrow> verdict \<times> str option" where
  "check_judged found candidate environment =
     (case found of
        None \<Rightarrow> (NotTested NO_VERIFIED_RESULT, None)
      | Some r \<Rightarrow> judge r environment (case candidate of None \<Rightarrow> rr_candidate r | Some c \<Rightarrow> c))"

definition stands_on_import :: "resolved_record option \<Rightarrow> verdict \<Rightarrow> bool" where
  "stands_on_import found v \<longleftrightarrow> (\<exists>r. found = Some r \<and> rr_imported r \<and> v = Passed)"

lemma state_step_judged:
  "state_step seen candidate st (name, environment) =
     (let jd = check_judged (map_of seen name) candidate environment
      in \<lparr>st_verdicts = dict_set name (fst jd) (st_verdicts st),
          st_faults = st_faults st @ (case snd jd of None \<Rightarrow> [] | Some f \<Rightarrow> [f]),
          st_standing_on_imported =
            (st_standing_on_imported st \<or> stands_on_import (map_of seen name) (fst jd))\<rparr>)"
  by (auto simp: state_step_def check_judged_def stands_on_import_def Let_def split: option.splits prod.splits)

lemma state_fold:
  assumes "distinct (map fst (st_verdicts st @ map (\<lambda>(n, e). (n, NotTested NO_VERIFIED_RESULT)) req))"
  shows "foldl (state_step seen candidate) st req =
    \<lparr>st_verdicts = st_verdicts st @
       map (\<lambda>(n, e). (n, fst (check_judged (map_of seen n) candidate e))) req,
     st_faults = st_faults st @
       concat (map (\<lambda>(n, e). case snd (check_judged (map_of seen n) candidate e) of None \<Rightarrow> [] | Some f \<Rightarrow> [f]) req),
     st_standing_on_imported =
       (st_standing_on_imported st
        \<or> (\<exists>(n, e) \<in> set req. stands_on_import (map_of seen n) (fst (check_judged (map_of seen n) candidate e))))\<rparr>"
  using assms
proof (induction req arbitrary: st)
  case Nil
  then show ?case by simp
next
  case (Cons ne req)
  obtain n e where ne: "ne = (n, e)" by fastforce
  have new: "map_of (st_verdicts st) n = None"
    using Cons.prems by (auto simp: ne map_of_eq_None_iff)
  have "distinct (map fst (st_verdicts (state_step seen candidate st (n, e))
          @ map (\<lambda>(n, e). (n, NotTested NO_VERIFIED_RESULT)) req))"
    using Cons.prems by (auto simp: ne state_step_judged Let_def dict_set_new [OF new])
  from Cons.IH [OF this] show ?case
    by (simp add: ne state_step_judged Let_def dict_set_new [OF new] disj_assoc)
qed

lemma verdict_counts_of:
  "map_of (verdict_counts vs) k =
     (let n = length (filter (\<lambda>v. stored_name v = k) vs) in if n = 0 then None else Some n)"
proof (induction vs rule: rev_induct)
  case Nil
  then show ?case by (simp add: verdict_counts_def)
next
  case (snoc v vs)
  then show ?case by (auto simp: verdict_counts_def Let_def)
qed

subsection \<open>What the fold answers\<close>

abbreviation judged ::
  "resolved_record list \<Rightarrow> digest option \<Rightarrow> str \<Rightarrow> environment_kind \<Rightarrow> verdict \<times> str option" where
  "judged records candidate name environment \<equiv>
     check_judged (first_record records name) candidate environment"

lemma evaluate_closed:
  assumes "distinct (map fst required)"
  shows "rd_verdicts (evaluate required records candidate) =
           map (\<lambda>(n, e). (n, fst (judged records candidate n e))) required"
    and "rd_faults (evaluate required records candidate) = [] \<longleftrightarrow>
           known required records \<and> distinct (map rr_name records)
           \<and> (\<forall>(n, e) \<in> set required. snd (judged records candidate n e) = None)"
    and "rd_ready (evaluate required records candidate) \<longleftrightarrow>
           candidate \<noteq> None \<and> rd_faults (evaluate required records candidate) = []
           \<and> required \<noteq> []
           \<and> (\<forall>(n, e) \<in> set required. fst (judged records candidate n e) = Passed
                \<and> (\<forall>r. first_record records n = Some r \<longrightarrow> \<not> rr_imported r))"
proof -
  obtain seen faults where o: "one_record_per_known_check records required = (seen, faults)"
    by fastforce
  have seen: "map_of seen n = first_record records n" if "(n, e) \<in> set required" for n e
    using one_record_spec(1) [of records required n] that
    by (auto simp: o dict_has_keys image_iff split: if_splits)
  have faults: "faults = [] \<longleftrightarrow> known required records \<and> distinct (map rr_name records)"
    using one_record_spec(2) [of records required] by (simp add: o)
  have st: "state_every_check required seen candidate =
    \<lparr>st_verdicts = map (\<lambda>(n, e). (n, fst (judged records candidate n e))) required,
     st_faults = concat (map (\<lambda>(n, e). case snd (judged records candidate n e) of None \<Rightarrow> [] | Some f \<Rightarrow> [f]) required),
     st_standing_on_imported =
       (\<exists>(n, e) \<in> set required. stands_on_import (first_record records n) (fst (judged records candidate n e)))\<rparr>"
  proof -
    have "distinct (map fst (map (\<lambda>(n, e). (n, NotTested NO_VERIFIED_RESULT)) required))"
      using assms by (simp add: case_prod_unfold comp_def)
    from state_fold [of "\<lparr>st_verdicts = [], st_faults = [], st_standing_on_imported = False\<rparr>" required seen candidate]
      this show ?thesis
      by (auto simp: state_every_check_def seen intro!: arg_cong [where f = concat] map_cong bex_cong)
  qed
  show v: "rd_verdicts (evaluate required records candidate) =
           map (\<lambda>(n, e). (n, fst (judged records candidate n e))) required"
    by (simp add: evaluate_def o st Let_def)
  show f: "rd_faults (evaluate required records candidate) = [] \<longleftrightarrow>
           known required records \<and> distinct (map rr_name records)
           \<and> (\<forall>(n, e) \<in> set required. snd (judged records candidate n e) = None)"
    by (auto simp: evaluate_def o st Let_def faults split: option.splits)
  show "rd_ready (evaluate required records candidate) \<longleftrightarrow>
           candidate \<noteq> None \<and> rd_faults (evaluate required records candidate) = []
           \<and> required \<noteq> []
           \<and> (\<forall>(n, e) \<in> set required. fst (judged records candidate n e) = Passed
                \<and> (\<forall>r. first_record records n = Some r \<longrightarrow> \<not> rr_imported r))"
  proof -
    have "rd_ready (evaluate required records candidate) \<longleftrightarrow>
        candidate \<noteq> None \<and> rd_faults (evaluate required records candidate) = []
        \<and> (\<forall>ne \<in> set required. \<not> stands_on_import (first_record records (fst ne))
                                     (fst (judged records candidate (fst ne) (snd ne))))
        \<and> required \<noteq> []
        \<and> (\<forall>ne \<in> set required. fst (judged records candidate (fst ne) (snd ne)) = Passed)"
      by (simp add: evaluate_def o st Let_def require_all_def list_all_iff case_prod_unfold)
    then show ?thesis unfolding stands_on_import_def case_prod_unfold by blast
  qed
qed

lemma judge_clean:
  "judge r e c = (v, None) \<Longrightarrow>
     v = rr_verdict r \<and> rr_candidate r = c \<and> rr_proofs_intact r \<and> satisfies (rr_environment r) e
     \<and> (v = Passed \<longrightarrow> 0 < rr_proof_count r)"
  by (auto simp: judge_def split: if_splits)

lemma judge_fault: "judge r e c = (v, Some f) \<Longrightarrow> v = Blocked"
  by (auto simp: judge_def split: if_splits)

text \<open>A record that earns its check an installation.\<close>

definition earns :: "digest \<Rightarrow> environment_kind \<Rightarrow> resolved_record \<Rightarrow> bool" where
  "earns c e r \<longleftrightarrow>
     rr_candidate r = c \<and> rr_proofs_intact r \<and> satisfies (rr_environment r) e
   \<and> rr_verdict r = Passed \<and> 0 < rr_proof_count r \<and> \<not> rr_imported r"

lemma judge_passed: "judge r e c = (Passed, None) \<and> \<not> rr_imported r \<longleftrightarrow> earns c e r"
  by (auto simp: judge_def earns_def)

text \<open>
  Ready means exactly: a candidate is given, the catalogue is not empty, there is one record
  for each of its checks and no other, and every record earns its check.
\<close>

lemma evaluate_ready_iff:
  assumes "distinct (map fst required)"
  shows "rd_ready (evaluate required records candidate) \<longleftrightarrow>
    (\<exists>c. candidate = Some c \<and> required \<noteq> []
       \<and> distinct (map rr_name records) \<and> rr_name ` set records = fst ` set required
       \<and> (\<forall>r \<in> set records. \<exists>e. map_of required (rr_name r) = Some e \<and> earns c e r))"
    (is "?ready \<longleftrightarrow> (\<exists>c. ?all c)")
proof
  assume ?ready
  then obtain c where c: "candidate = Some c" and ne: "required \<noteq> []"
    and kn: "known required records" and d: "distinct (map rr_name records)"
    and nf: "\<And>n e. (n, e) \<in> set required \<Longrightarrow> snd (judged records candidate n e) = None"
    and pass: "\<And>n e. (n, e) \<in> set required \<Longrightarrow> fst (judged records candidate n e) = Passed"
    and own: "\<And>n e r. (n, e) \<in> set required \<Longrightarrow> first_record records n = Some r \<Longrightarrow> \<not> rr_imported r"
    using evaluate_closed(3) [OF assms, of records candidate] evaluate_closed(2) [OF assms, of records candidate]
    by (fastforce split: prod.splits)
  have found: "\<exists>r. first_record records n = Some r \<and> earns c e r" if "(n, e) \<in> set required" for n e
    using pass [OF that] nf [OF that] own [OF that]
    by (cases "first_record records n") (auto simp: check_judged_def c simp flip: judge_passed intro!: prod_eqI)
  have "fst ` set required \<subseteq> rr_name ` set records"
    using found by (fastforce dest: first_record_Some)
  moreover have "\<exists>e. map_of required (rr_name r) = Some e \<and> earns c e r" if r: "r \<in> set records" for r
  proof -
    obtain e where e: "map_of required (rr_name r) = Some e"
      using kn r by (cases "map_of required (rr_name r)") (auto simp: known_def map_of_eq_None_iff)
    with found [OF map_of_SomeD [OF e]] first_record_distinct [OF d r] show ?thesis by simp
  qed
  ultimately show "\<exists>c. ?all c" using c ne kn d by (auto simp: known_def)
next
  assume "\<exists>c. ?all c"
  then obtain c where all: "?all c" by blast
  have ok: "\<exists>r. first_record records n = Some r \<and> earns c e r" if ne: "(n, e) \<in> set required" for n e
  proof -
    have "n \<in> rr_name ` set records" using all ne by force
    then obtain r where r: "r \<in> set records" "rr_name r = n" by auto
    moreover have "first_record records n = Some r" using first_record_distinct [of records r] all r by auto
    moreover have "map_of required n = Some e" using assms ne by simp
    ultimately show ?thesis using all by force
  qed
  have "fst (judged records candidate n e) = Passed \<and> snd (judged records candidate n e) = None
        \<and> (\<forall>r. first_record records n = Some r \<longrightarrow> \<not> rr_imported r)" if "(n, e) \<in> set required" for n e
    using ok [OF that] all by (auto simp: check_judged_def simp flip: judge_passed)
  with all show ?ready by (auto simp: evaluate_closed [OF assms] known_def)
qed

text \<open>
  A check the catalogue requires is stated \<open>Blocked\<close> when its record has a fault, by the
  record's own verdict when it has none, and as not tested when there is no record.
\<close>

lemma evaluate_states:
  assumes "distinct (map fst required)" "map_of required n = Some e"
  shows "map_of (rd_verdicts (evaluate required records candidate)) n = Some (fst (judged records candidate n e))"
proof -
  have "map_of (map (\<lambda>(n, e). (n, f n e)) xs) n = map_option (f n) (map_of xs n)" for f :: "str \<Rightarrow> environment_kind \<Rightarrow> verdict" and xs n
    by (induction xs) auto
  with assms show ?thesis by (simp add: evaluate_closed)
qed

text \<open>The order in which the records of a store without duplicates are read does not matter.\<close>

lemma evaluate_permuted:
  assumes "distinct (map fst required)" "mset records = mset records'" "distinct (map rr_name records)"
  shows "rd_ready (evaluate required records candidate) = rd_ready (evaluate required records' candidate)"
    and "rd_verdicts (evaluate required records candidate) = rd_verdicts (evaluate required records' candidate)"
proof -
  have s: "set records = set records'" using assms(2) by (rule mset_eq_setD)
  have d: "distinct (map rr_name records')" 
    using assms(3) mset_eq_imp_distinct_iff [of "map rr_name records" "map rr_name records'"] assms(2) by simp
  have f: "first_record records n = first_record records' n" for n
  proof (cases "n \<in> rr_name ` set records")
    case True
    then obtain r where "r \<in> set records" "rr_name r = n" by auto
    with first_record_distinct [OF assms(3)] first_record_distinct [OF d] s show ?thesis by auto
  next
    case False
    then have "first_record records n = None" "first_record records' n = None"
      by (simp_all add: first_record_None s)
    then show ?thesis by simp
  qed
  show "rd_verdicts (evaluate required records candidate) = rd_verdicts (evaluate required records' candidate)"
    by (simp add: evaluate_closed(1) [OF assms(1)] f)
  show "rd_ready (evaluate required records candidate) = rd_ready (evaluate required records' candidate)"
    by (simp add: evaluate_ready_iff [OF assms(1)] s d assms(3))
qed

end
