(* ===== verification/Retracting.thy ===== *)
theory Retracting
  imports Readiness Ledger
begin

section \<open>Imported records (attestation/attesting.py, attestation/retracting.py)\<close>

text \<open>
  An attestation is a resolved record with where it came from and the limits that costs it; its
  constructor refuses every mismatch of the three. Strict readiness withholds what stands on an
  imported record alone and leaves every finding where the default fold put it.
\<close>

definition LEGACY_LIMITS :: "scope_limit set" where
  "LEGACY_LIMITS = {LEGACY_NO_PORT_PROOF, LEGACY_NO_CANDIDATE_READBACK}"

record attestation =
  at_kind :: ledger_kind
  at_resolved :: resolved_record
  at_limits :: "scope_limit set"
  at_origin :: str

definition mk_attestation :: "attestation \<Rightarrow> attestation res" where
  "mk_attestation a =
     (let imported = (at_kind a = IMPORTED)
      in if imported \<noteq> rr_imported (at_resolved a) then Inl InternalDefect
         else if imported \<and> \<not> LEGACY_LIMITS \<subseteq> at_limits a then Inl InternalDefect
         else if \<not> imported \<and> at_limits a \<inter> LEGACY_LIMITS \<noteq> {} then Inl InternalDefect
         else Inr a)"

definition at_check :: "attestation \<Rightarrow> str" where
  "at_check a = rr_name (at_resolved a)"

definition attestation_ok :: "attestation \<Rightarrow> bool" where
  "attestation_ok a \<longleftrightarrow>
     (if at_kind a = IMPORTED then rr_imported (at_resolved a) \<and> LEGACY_LIMITS \<subseteq> at_limits a
      else \<not> rr_imported (at_resolved a) \<and> at_limits a \<inter> LEGACY_LIMITS = {})"

lemma mk_attestation_Inr: "mk_attestation a = Inr b \<longleftrightarrow> b = a \<and> attestation_ok a"
  by (auto simp: mk_attestation_def attestation_ok_def Let_def)

lemma mk_attestation_Inl: "mk_attestation a = Inl e \<Longrightarrow> e = InternalDefect"
  by (auto simp: mk_attestation_def Let_def split: if_splits)

subsection \<open>retracting.py\<close>

abbreviation WITHHELD_REASON :: refusal_reason where
  "WITHHELD_REASON \<equiv> LEGACY_IMPORT_NOT_REPROVEN"

record withheld =
  wh_check :: str
  wh_stated :: verdict

definition imported_checks :: "attestation list \<Rightarrow> str list" where
  "imported_checks as = map at_check (filter (\<lambda>a. at_kind a = IMPORTED) as)"

definition retract_step ::
  "str list \<Rightarrow> (str, verdict) dict \<times> withheld list \<Rightarrow> str \<times> verdict \<Rightarrow> (str, verdict) dict \<times> withheld list" where
  "retract_step imported acc nv = (case (acc, nv) of ((st, held), (name, v)) \<Rightarrow>
     if name \<in> set imported \<and> permits_installation v
     then (dict_set name (NotTested WITHHELD_REASON) st, held @ [\<lparr>wh_check = name, wh_stated = v\<rparr>])
     else (dict_set name v st, held))"

definition retract :: "readiness \<Rightarrow> attestation list \<Rightarrow> readiness \<times> withheld list" where
  "retract outcome attestations =
     (case foldl (retract_step (imported_checks attestations)) ([], []) (rd_verdicts outcome) of
        (st, held) \<Rightarrow>
          (\<lparr>rd_ready = rd_ready outcome \<and> require_all (map snd st),
            rd_verdicts = st,
            rd_counts = verdict_counts (map snd st),
            rd_faults = rd_faults outcome\<rparr>, held))"

definition narrowed_verdict :: "str list \<Rightarrow> str \<Rightarrow> verdict \<Rightarrow> verdict" where
  "narrowed_verdict imported name v =
     (if name \<in> set imported \<and> v = Passed then NotTested WITHHELD_REASON else v)"

lemma retract_fold:
  assumes "distinct (map fst (st @ vs))"
  shows "foldl (retract_step imported) (st, held) vs =
    (st @ map (\<lambda>(n, v). (n, narrowed_verdict imported n v)) vs,
     held @ map (\<lambda>(n, v). \<lparr>wh_check = n, wh_stated = v\<rparr>)
              (filter (\<lambda>(n, v). n \<in> set imported \<and> v = Passed) vs))"
  using assms
proof (induction vs arbitrary: st held)
  case (Cons nv vs)
  obtain n v where nv: "nv = (n, v)" by fastforce
  have new: "map_of st n = None" using Cons.prems by (auto simp: nv map_of_eq_None_iff)
  have "distinct (map fst ((st @ [(n, narrowed_verdict imported n v)]) @ vs))"
    using Cons.prems by (simp add: nv)
  from Cons.IH [OF this] show ?case
    by (auto simp: nv retract_step_def narrowed_verdict_def dict_set_new [OF new])
qed simp

lemma retract_closed:
  assumes "distinct (map fst (rd_verdicts outcome))"
  shows "rd_verdicts (fst (retract outcome as)) =
           map (\<lambda>(n, v). (n, narrowed_verdict (imported_checks as) n v)) (rd_verdicts outcome)"
    and "snd (retract outcome as) = map (\<lambda>(n, v). \<lparr>wh_check = n, wh_stated = v\<rparr>)
           (filter (\<lambda>(n, v). n \<in> set (imported_checks as) \<and> v = Passed) (rd_verdicts outcome))"
    and "rd_faults (fst (retract outcome as)) = rd_faults outcome"
    and "rd_ready (fst (retract outcome as)) \<longleftrightarrow>
           rd_ready outcome \<and> require_all (map snd (rd_verdicts (fst (retract outcome as))))"
  using retract_fold [of "[]" "rd_verdicts outcome" "imported_checks as" "[]"] assms
  by (simp_all add: retract_def)

text \<open>
  Retraction claims less and never more: each verdict is kept or replaced by one that claims
  strictly less, a verdict that is a finding is kept, and what was not ready does not become so.
\<close>

lemma narrowed_claims:
  "narrowed_verdict imported n v = v \<or> claims_less v (narrowed_verdict imported n v)"
  "v \<noteq> Passed \<Longrightarrow> narrowed_verdict imported n v = v"
  by (auto simp: narrowed_verdict_def claims_less_def)

lemma retract_ready:
  assumes "distinct (map fst (rd_verdicts outcome))" "rd_ready (fst (retract outcome as))"
  shows "rd_ready outcome \<and> (\<forall>(n, v) \<in> set (rd_verdicts outcome). n \<notin> set (imported_checks as))
         \<and> snd (retract outcome as) = []"
proof -
  have all: "\<forall>v \<in> snd ` set (rd_verdicts (fst (retract outcome as))). v = Passed"
    using assms(2) by (simp add: retract_closed(4) [OF assms(1)] require_all_iff)
  have "n \<notin> set (imported_checks as)" if "(n, v) \<in> set (rd_verdicts outcome)" for n v
    using all that by (force simp: retract_closed(1) [OF assms(1)] narrowed_verdict_def split: if_splits)
  with assms(2) show ?thesis
    by (auto simp: retract_closed [OF assms(1)] filter_empty_conv)
qed

lemma retract_keys:
  "distinct (map fst (rd_verdicts outcome)) \<Longrightarrow>
     map fst (rd_verdicts (fst (retract outcome as))) = map fst (rd_verdicts outcome)"
  by (simp add: retract_closed case_prod_unfold comp_def)

lemma retract_again:
  assumes "distinct (map fst (rd_verdicts outcome))"
  shows "snd (retract (fst (retract outcome as)) as) = []"
    and "rd_verdicts (fst (retract (fst (retract outcome as)) as)) = rd_verdicts (fst (retract outcome as))"
proof -
  have d: "distinct (map fst (rd_verdicts (fst (retract outcome as))))"
    by (simp add: retract_keys [OF assms] assms)
  show "snd (retract (fst (retract outcome as)) as) = []"
    by (auto simp: retract_closed(2) [OF d] retract_closed(1) [OF assms] narrowed_verdict_def filter_empty_conv split: if_splits)
  show "rd_verdicts (fst (retract (fst (retract outcome as)) as)) = rd_verdicts (fst (retract outcome as))"
    by (auto simp: retract_closed(1) [OF d] retract_closed(1) [OF assms] narrowed_verdict_def)
qed

end
