(* ===== verification/StoreReaders.thy ===== *)
theory StoreReaders
  imports Retracting RuntimeState Registry
begin

section \<open>Reading a store of any version (attestation/storereaders, electing.py, reading.py)\<close>

text \<open>
  The mark on disk elects a reader from a sealed registry. The first reader reads the documents
  of the older tools; the second reads them too and then the chain, whose latest entry for a
  check supersedes an imported record. The declaration of a reader is passed to its own reading
  function, so \<open>reader_claims\<close> holds what it declares and \<open>store_reader\<close> adds the function.
\<close>

subsection \<open>proofhashing.py\<close>

fun proofs_intact :: "disk \<Rightarrow> str \<Rightarrow> proof_reference list \<Rightarrow> bool" where
  "proofs_intact d evidence_root [] = True"
| "proofs_intact d evidence_root (p # ps) =
     (let target = path_join evidence_root (pref_relative_path p) in
      if host_is_symlink (disk_host d) target \<or> \<not> host_is_file (disk_host d) target then False
      else if \<not> is_relative_to (host_resolve (disk_host d) target) (host_resolve (disk_host d) evidence_root)
      then False
      else if digest_bytes (disk_bytes d target) \<noteq> pref_digest p then False
      else proofs_intact d evidence_root ps)"

definition resolve_stored :: "disk \<Rightarrow> str \<Rightarrow> bool \<Rightarrow> stored_record \<Rightarrow> resolved_record" where
  "resolve_stored d evidence_root imported stored =
     \<lparr>rr_check = rec_check stored, rr_verdict = rec_verdict stored,
      rr_environment = rec_environment stored, rr_candidate = rec_digest stored,
      rr_proofs_intact = proofs_intact d evidence_root (rec_proofs stored),
      rr_proof_count = length (rec_proofs stored), rr_imported = imported\<rparr>"

subsection \<open>markclaims.py and readerspecs.py\<close>

definition ABSENT_KEY :: str where "ABSENT_KEY = ''absent''"
definition MARK_KEY_PREFIX :: str where "MARK_KEY_PREFIX = ''mark''"

datatype mark_claim = MarkAbsent | MarkEquals int

fun claim_key :: "mark_claim \<Rightarrow> str" where
  "claim_key MarkAbsent = ABSENT_KEY"
| "claim_key (MarkEquals v) = MARK_KEY_PREFIX @ '':'' @ str_of_int v"

text \<open>The code's type leaves out an unreadable mark, for which \<open>key_for\<close> is never called.\<close>

fun key_for :: "version_mark \<Rightarrow> str res" where
  "key_for Unmarked = Inr (claim_key MarkAbsent)"
| "key_for (Marked v) = Inr (claim_key (MarkEquals v))"
| "key_for Unreadable = Inl InternalDefect"

record store_reading =
  sr_version :: int
  sr_attestations :: "attestation list"
  sr_candidate :: "digest option"
  sr_faults :: "str list"

definition reading_records :: "store_reading \<Rightarrow> resolved_record list" where
  "reading_records r = map at_resolved (sr_attestations r)"

record reader_claims =
  rc_version :: int
  rc_marks :: "mark_claim list"
  rc_limits :: "scope_limit set"
  rc_reads_history :: bool
  rc_reads_archives :: bool

definition mk_reader_claims :: "reader_claims \<Rightarrow> reader_claims res" where
  "mk_reader_claims c =
     (if rc_marks c = [] then Inl RegistrationError
      else if rc_version c < FIRST_VERSION then Inl RegistrationError
      else if rc_reads_history c \<or> rc_reads_archives c then Inl RegistrationError
      else Inr c)"

definition reader_kind :: "reader_claims \<Rightarrow> ledger_kind" where
  "reader_kind c = (if rc_limits c \<noteq> {} then IMPORTED else RECORDED)"

record 'fs store_reader =
  reader_of :: reader_claims
  reader_read :: "disk \<Rightarrow> str \<Rightarrow> reader_claims \<Rightarrow> ('fs, store_reading) io"

subsection \<open>v1\_reader.py\<close>

definition reading_fault :: "refusal_reason \<Rightarrow> str \<Rightarrow> str" where
  "reading_fault reason subject = reason_value reason @ '': '' @ subject"

text \<open>One document of the evidence directory: the attestations and the faults it adds.\<close>

definition read_one ::
  "disk \<Rightarrow> str \<Rightarrow> reader_claims \<Rightarrow> digest option \<Rightarrow> str \<Rightarrow> (attestation list \<times> str list) res" where
  "read_one d evidence_root spec candidate name =
     (let path = path_join evidence_root name in
      if host_is_symlink (disk_host d) path \<or> \<not> host_is_file (disk_host d) path
      then Inr ([], [reading_fault PATH_IS_A_SYMLINK (name @ '' is not a record'')])
      else
        (case read_evidence_record (disk_bytes d path) of
           Inl (Refusal reason) \<Rightarrow> Inr ([], [reading_fault reason name])
         | Inl e \<Rightarrow> Inl e
         | Inr stored \<Rightarrow>
             (case candidate of
                None \<Rightarrow> Inr ([], [reading_fault STALE_EVIDENCE
                                   (name @ '' names a build this root has no candidate for'')])
              | Some c \<Rightarrow>
                  map_sum id (\<lambda>a. ([a], []))
                    (mk_attestation
                       \<lparr>at_kind = reader_kind spec,
                        at_resolved = resolve_stored d evidence_root (reader_kind spec = IMPORTED) stored,
                        at_limits = rc_limits spec, at_origin = name\<rparr>))))"

definition v1_read :: "disk \<Rightarrow> str \<Rightarrow> reader_claims \<Rightarrow> store_reading res" where
  "v1_read d runtime_root spec =
     (let evidence_root = path_join runtime_root EVIDENCE_DIRECTORY;
          document = path_join runtime_root CANDIDATE_NAME
      in rbind (if host_is_file (disk_host d) document
                then map_sum id (Some \<circ> cand_digest) (read_candidate (disk_bytes d document))
                else Inr None) (\<lambda>candidate.
         rbind (if host_is_dir (disk_host d) evidence_root
                then rmapM (read_one d evidence_root spec candidate) (json_names d evidence_root)
                else Inr []) (\<lambda>found.
           Inr \<lparr>sr_version = rc_version spec, sr_attestations = concat (map fst found),
                sr_candidate = candidate, sr_faults = concat (map snd found)\<rparr>)))"

definition V1_CLAIMS :: reader_claims where
  "V1_CLAIMS = \<lparr>rc_version = FIRST_VERSION, rc_marks = [MarkAbsent, MarkEquals FIRST_VERSION],
                rc_limits = LEGACY_LIMITS, rc_reads_history = False, rc_reads_archives = False\<rparr>"

definition V1_SPEC :: "'fs store_reader" where
  "V1_SPEC = \<lparr>reader_of = V1_CLAIMS, reader_read = (\<lambda>d root spec. io_lift (v1_read d root spec))\<rparr>"

subsection \<open>v2\_reader.py\<close>

fun all_intact :: "'fs files_port \<Rightarrow> host \<Rightarrow> proof_store \<Rightarrow> digest list \<Rightarrow> ('fs, bool) io" where
  "all_intact port h st [] = io_return True"
| "all_intact port h st (d # ds) =
     io_bind (object_intact port h st d) (\<lambda>b. if \<not> b then io_return False else all_intact port h st ds)"

definition entry_attestation :: "bool \<Rightarrow> sealed \<Rightarrow> attestation" where
  "entry_attestation intact s =
     (let ev = en_event (sl_entry s)
      in \<lparr>at_kind = RECORDED,
          at_resolved =
            \<lparr>rr_check = ev_check ev, rr_verdict = ev_verdict ev, rr_environment = ev_environment ev,
             rr_candidate = ev_candidate ev, rr_proofs_intact = intact,
             rr_proof_count = length (ev_proofs ev), rr_imported = False\<rparr>,
          at_limits = set (ev_scope_limits ev),
          at_origin = ''chain#'' @ str_of_int (en_sequence (sl_entry s))\<rparr>)"

definition chain_attestation ::
  "'fs files_port \<Rightarrow> host \<Rightarrow> proof_store \<Rightarrow> sealed \<Rightarrow> ('fs, attestation) io" where
  "chain_attestation port h st s =
     io_bind (all_intact port h st (ev_proofs (en_event (sl_entry s)))) (\<lambda>intact.
       io_lift (mk_attestation (entry_attestation intact s)))"

definition sealed_check :: "sealed \<Rightarrow> str" where
  "sealed_check s = name_value (ev_check (en_event (sl_entry s)))"

definition latest_entries :: "sealed list \<Rightarrow> (str, sealed) dict" where
  "latest_entries entries = foldl (\<lambda>latest s. dict_set (sealed_check s) s latest) [] entries"

fun chain_break_value :: "chain_break \<Rightarrow> str" where
  "chain_break_value MALFORMED_LINE = ''malformed-line''"
| "chain_break_value SEQUENCE_OUT_OF_ORDER = ''sequence-out-of-order''"
| "chain_break_value LINK_MISMATCH = ''link-mismatch''"
| "chain_break_value MAC_MISMATCH = ''mac-mismatch''"
| "chain_break_value HEAD_AHEAD_OF_CHAIN = ''head-ahead-of-chain''"

definition break_faults :: "report \<Rightarrow> str list" where
  "break_faults rp =
     (case rp_first_break rp of
        None \<Rightarrow> []
      | Some b \<Rightarrow> [reading_fault STALE_EVIDENCE
          (''the chain breaks at sequence '' @ str_of_int (bk_sequence b) @ '': '' @ chain_break_value (bk_cause b))])"

definition v2_chain ::
  "'fs files_port \<Rightarrow> host \<Rightarrow> store_location \<Rightarrow> ('fs, attestation list \<times> str list) io" where
  "v2_chain port h loc =
     io_bind (io_lift (chain_path h loc)) (\<lambda>path.
     io_bind (fp_exists port path) (\<lambda>there.
       if \<not> there then io_return ([], [])
       else io_bind (signer_at port h loc) (\<lambda>found.
         case found of
           None \<Rightarrow> io_return ([], [reading_fault STALE_EVIDENCE ''the chain has no key beside it''])
         | Some signer \<Rightarrow>
             io_bind (read_chain port h loc CHAIN_LIMIT) (\<lambda>(lines, hd).
             io_bind (io_lift (verify_lines signer hd lines)) (\<lambda>(entries, rp).
             io_bind (io_mapM (chain_attestation port h (proof_store_new loc)) (map snd (latest_entries entries))) (\<lambda>as.
               io_return (as, break_faults rp)))))))"

definition merge_attestations :: "attestation list \<Rightarrow> attestation list \<Rightarrow> attestation list" where
  "merge_attestations legacy recorded =
     (let by_check = foldl (\<lambda>m a. dict_set (at_check a) a m) [] (legacy @ recorded)
      in map snd (sort_key fst by_check))"

definition v2_read ::
  "'fs files_port \<Rightarrow> disk \<Rightarrow> str \<Rightarrow> reader_claims \<Rightarrow> ('fs, store_reading) io" where
  "v2_read port d runtime_root spec =
     io_bind (io_lift (v1_read d runtime_root V1_CLAIMS)) (\<lambda>legacy.
     io_bind (io_lift (adopt_root (disk_host d) runtime_root)) (\<lambda>root.
     io_bind (io_lift (mk_store_location root DEFAULT_AREA)) (\<lambda>loc.
     io_bind (v2_chain port (disk_host d) loc) (\<lambda>(recorded, chain_faults).
       io_return \<lparr>sr_version = rc_version spec,
                  sr_attestations = merge_attestations (sr_attestations legacy) recorded,
                  sr_candidate = sr_candidate legacy,
                  sr_faults = sr_faults legacy @ chain_faults\<rparr>))))"

definition V2_CLAIMS :: reader_claims where
  "V2_CLAIMS = \<lparr>rc_version = SECOND_VERSION, rc_marks = [MarkEquals SECOND_VERSION],
                rc_limits = {}, rc_reads_history = False, rc_reads_archives = False\<rparr>"

definition V2_SPEC :: "'fs files_port \<Rightarrow> 'fs store_reader" where
  "V2_SPEC port = \<lparr>reader_of = V2_CLAIMS, reader_read = v2_read port\<rparr>"

subsection \<open>storereaders/\_\_init\_\_.py, electing.py, reading.py\<close>

definition declare_reader ::
  "'fs store_reader \<Rightarrow> provenance \<Rightarrow> 'fs store_reader registry \<Rightarrow> 'fs store_reader registry res" where
  "declare_reader spec origin collector =
     rbind (mk_reader_claims (reader_of spec)) (\<lambda>_.
       rfold (\<lambda>r claim. registry_add r (claim_key claim) spec origin) collector (rc_marks (reader_of spec)))"

definition module_origin :: "str \<Rightarrow> int \<Rightarrow> provenance" where
  "module_origin name line =
     \<lparr>prov_module = ''apex.attestation.storereaders.'' @ name, prov_qualname = ''<module>'', prov_line = line\<rparr>"

definition sealed_readers :: "'fs files_port \<Rightarrow> 'fs store_reader sealed_registry res" where
  "sealed_readers port =
     rbind (declare_reader V1_SPEC (module_origin ''v1_reader'' 79) (registry_new ''store reader'')) (\<lambda>r1.
     rbind (declare_reader (V2_SPEC port) (module_origin ''v2_reader'' 102) r1) (\<lambda>r2.
     rbind (registry_seal r2) (\<lambda>(s, r3). Inr s)))"

definition elect :: "'fs files_port \<Rightarrow> version_mark \<Rightarrow> 'fs store_reader res" where
  "elect port mark =
     (if mark = Unreadable then Inl (Refusal MALFORMED_STORE_MARK)
      else rbind (sealed_readers port) (\<lambda>registered.
           rbind (key_for mark) (\<lambda>key.
             if \<not> sealed_contains registered key then Inl (PreconditionUnmet STORE_VERSION_NOT_SUPPORTED)
             else sealed_lookup registered key)))"

definition reader_for :: "'fs files_port \<Rightarrow> disk \<Rightarrow> str \<Rightarrow> 'fs store_reader res" where
  "reader_for port d runtime_root = rbind (read_mark d runtime_root) (elect port)"

definition read_store :: "'fs files_port \<Rightarrow> disk \<Rightarrow> str \<Rightarrow> ('fs, store_reading) io" where
  "read_store port d runtime_root =
     io_bind (io_lift (reader_for port d runtime_root)) (\<lambda>spec. reader_read spec d runtime_root (reader_of spec))"

end
