(* ===== verification/Catalogue.thy ===== *)
theory Catalogue
  imports Registry PyCoerce
begin

section \<open>The required checks (attestation/catalogue)\<close>

text \<open>
  One file per group, one table per check. The text of a group's file is an argument, and so is
  the reader of TOML (\<open>tomllib.loads\<close>), whose result is a JSON value: the catalogue's tables
  hold strings and lists of strings. Every fault in a table is a registration fault.
\<close>

definition GROUPS :: "str list" where
  "GROUPS = [''build'', ''git'', ''hardware'', ''recovery'', ''vm'']"

definition TABLE :: str where "TABLE = ''check''"
definition SUFFIX :: str where "SUFFIX = ''.toml''"

definition strings_of :: "(str \<times> json) list \<Rightarrow> str \<Rightarrow> str list res" where
  "strings_of table key =
     (case map_of table key of
        None \<Rightarrow> Inr []
      | Some (JList items) \<Rightarrow> Inr (map py_str items)
      | Some _ \<Rightarrow> Inl RegistrationError)"

definition is_table_fault :: "exn \<Rightarrow> bool" where
  "is_table_fault e \<longleftrightarrow> e = KeyError \<or> is_value_error e \<or> is_refusal e"

definition parse_table :: "str \<Rightarrow> (str \<times> json) list \<Rightarrow> check_spec res" where
  "parse_table grp table =
     rcatch
       (rbind (rbind (of_option KeyError (map_of table ''id'')) (mk_dotted_name \<circ> py_str)) (\<lambda>check.
        rbind (rbind (of_option KeyError (map_of table ''environment'')) (environment_of \<circ> py_str)) (\<lambda>environment.
        rbind (of_option KeyError (map_of table ''summary'')) (\<lambda>summary.
        rbind (strings_of table ''accepted_proof_kinds'') (\<lambda>kinds.
        rbind (strings_of table ''scope_limits'') (\<lambda>limits.
          mk_check_spec
            \<lparr>spec_id = check, spec_group = grp, spec_environment = environment,
             spec_summary = py_str summary, spec_accepted_proof_kinds = kinds, spec_scope_limits = limits,
             spec_sourced_from = (case map_of table ''sourced_from'' of None \<Rightarrow> [] | Some j \<Rightarrow> py_str j)\<rparr>))))))
       is_table_fault (Inl RegistrationError)"

text \<open>\<open>str.splitlines\<close> on the line ends a catalogue file has.\<close>

definition line_of :: "str \<Rightarrow> check_id \<Rightarrow> nat" where
  "line_of content check =
     (let needle = ''id = '' @ [CHR 0x22] @ name_value check @ [CHR 0x22];
          numbered = zip [1..<Suc (length (split_on CHR 0x0A content))] (split_on CHR 0x0A content)
      in case find (\<lambda>(number, line). strip line = needle) numbered of
           None \<Rightarrow> 0
         | Some (number, line) \<Rightarrow> number)"

definition load_entry :: "str \<Rightarrow> str \<Rightarrow> collector \<Rightarrow> json \<Rightarrow> collector res" where
  "load_entry grp content collector table =
     (case table of
        JObj d \<Rightarrow>
          rbind (parse_table grp d) (\<lambda>spec.
            registry_add collector (name_value (spec_id spec)) spec
              \<lparr>prov_module = ''apex.attestation.catalogue.'' @ grp,
               prov_qualname = name_value (spec_id spec),
               prov_line = int (line_of content (spec_id spec))\<rparr>)
      | _ \<Rightarrow> Inl TypeError)"

definition load_group ::
  "(str \<Rightarrow> (str \<times> json) list res) \<Rightarrow> (str \<Rightarrow> str) \<Rightarrow> collector \<Rightarrow> str \<Rightarrow> collector res" where
  "load_group toml group_text collector grp =
     rbind (toml (group_text grp)) (\<lambda>document.
       case map_of document TABLE of
         Some (JList entries) \<Rightarrow>
           if entries = [] then Inl RegistrationError
           else rfold (load_entry grp (group_text grp)) collector entries
       | _ \<Rightarrow> Inl RegistrationError)"

definition catalogue_sealed ::
  "(str \<Rightarrow> (str \<times> json) list res) \<Rightarrow> (str \<Rightarrow> str) \<Rightarrow> check_spec sealed_registry res" where
  "catalogue_sealed toml group_text =
     rbind (rfold (load_group toml group_text) (registry_new ''check'') GROUPS) (\<lambda>collector.
     rbind (registry_seal collector) (\<lambda>(s, c). Inr s))"

definition check_specification :: "check_spec sealed_registry \<Rightarrow> check_id \<Rightarrow> check_spec res" where
  "check_specification catalogue check = sealed_lookup catalogue (name_value check)"

text \<open>resolving.py: the environment every check of the catalogue requires.\<close>

definition required_environments :: "check_spec sealed_registry \<Rightarrow> (str, environment_kind) dict" where
  "required_environments catalogue =
     foldl (\<lambda>d s. dict_set (name_value (spec_id s)) (spec_environment s) d) [] (sealed_values catalogue)"

lemma mk_check_spec_Inl: "mk_check_spec s = Inl e \<Longrightarrow> e = RegistrationError"
  by (auto simp: mk_check_spec_def split: if_splits)

lemma strings_of_Inl: "strings_of t k = Inl e \<Longrightarrow> e = RegistrationError"
  by (auto simp: strings_of_def split: option.splits json.splits)

text \<open>A table that does not parse is a registration fault, whatever is wrong with it.\<close>

lemma parse_table_Inl:
  assumes "parse_table grp table = Inl e"
  shows "e = RegistrationError"
proof -
  have kinds: "is_table_fault KeyError" "is_table_fault (Refusal r)" "is_table_fault ValueError" for r
    by (simp_all add: is_table_fault_def)
  show ?thesis
    using assms
    by (auto simp: parse_table_def rcatch_def result_simps environment_of_def mk_dotted_name_def
             split: sum.splits if_splits
             dest!: enum_of_Inl mk_check_spec_Inl strings_of_Inl simp: kinds)
qed

lemma parse_table_Inr:
  assumes "parse_table grp table = Inr s"
  shows "spec_group s = grp \<and> mk_check_spec s = Inr s \<and> dotted_name_ok (spec_id s)"
  using assms
  by (auto simp: parse_table_def result_simps rcatch_def mk_check_spec_Inr mk_dotted_name_def dotted_name_ok_def
           split: sum.splits if_splits)

text \<open>Sealing the catalogue validates every entry: each check in it passed its own constructor.\<close>

definition collector_valid :: "collector \<Rightarrow> bool" where
  "collector_valid c \<longleftrightarrow> registry_ok c \<and> (\<forall>(k, s) \<in> set (reg_entries c).
     k = name_value (spec_id s) \<and> mk_check_spec s = Inr s \<and> spec_group s \<in> set GROUPS)"

lemma load_entry_valid:
  assumes "collector_valid c" "load_entry g content c table = Inr c'" "g \<in> set GROUPS"
  shows "collector_valid c'"
proof -
  from assms(2) obtain d s p where s: "parse_table g d = Inr s"
    "registry_add c (name_value (spec_id s)) s p = Inr c'"
    by (auto simp: load_entry_def result_simps split: json.splits)
  have "registry_ok c'" using assms(1) registry_add_ok [OF _ s(2)] by (simp add: collector_valid_def)
  moreover have "set (reg_entries c') \<subseteq> insert (name_value (spec_id s), s) (set (reg_entries c))"
    using s(2) assms(1) registry_keys_agree [of c "name_value (spec_id s)"]
    by (auto simp: registry_add_def collector_valid_def dict_set_new split: if_splits)
  ultimately show ?thesis
    using assms(1,3) parse_table_Inr [OF s(1)] by (auto simp: collector_valid_def)
qed

lemma load_group_valid:
  assumes "collector_valid c" "load_group toml group_text c g = Inr c'" "g \<in> set GROUPS"
  shows "collector_valid c'"
proof -
  from assms(2) obtain document where
    "(case map_of document TABLE of
        Some (JList entries) \<Rightarrow>
          if entries = [] then Inl RegistrationError
          else rfold (load_entry g (group_text g)) c entries
      | _ \<Rightarrow> Inl RegistrationError) = Inr c'"
    by (auto simp: load_group_def rbind_eq_Inr)
  then obtain entries where r: "rfold (load_entry g (group_text g)) c entries = Inr c'"
    by (simp split: option.splits json.splits if_splits)
  show ?thesis
  proof (rule rfold_invariant [OF r, of collector_valid])
    fix s x s'
    assume "collector_valid s" "load_entry g (group_text g) s x = Inr s'"
    then show "collector_valid s'" using assms(3) by (rule load_entry_valid)
  qed (rule assms(1))
qed

lemma catalogue_sealed_valid:
  assumes "catalogue_sealed toml group_text = Inr cat"
  shows "distinct (map fst (sealed_entries cat))
    \<and> (\<forall>(k, s) \<in> set (sealed_entries cat). k = name_value (spec_id s) \<and> mk_check_spec s = Inr s)"
proof -
  from assms obtain c c' where c: "rfold (load_group toml group_text) (registry_new ''check'') GROUPS = Inr c"
    "registry_seal c = Inr (cat, c')"
    by (auto simp: catalogue_sealed_def result_simps)
  have start: "collector_valid (registry_new ''check'')"
    by (simp add: collector_valid_def) (simp add: registry_new_def)
  have step: "collector_valid b" if "collector_valid a" "load_group toml group_text a g = Inr b" "g \<in> set GROUPS" for a b g
    using load_group_valid [OF that] .
  have "rfold (load_group toml group_text) a gs = Inr c \<Longrightarrow> set gs \<subseteq> set GROUPS \<Longrightarrow> collector_valid a \<Longrightarrow> collector_valid c" for a gs
    by (induction gs arbitrary: a) (auto simp: rbind_eq_Inr intro: step)
  with c(1) start have v: "collector_valid c" by blast
  moreover have "sealed_entries cat = sort_key fst (reg_entries c)"
    using c(2) v by (auto simp: registry_seal_ok collector_valid_def registry_seal_def Let_def result_simps split: if_splits)
  ultimately show ?thesis
    by (auto simp: collector_valid_def registry_ok_def distinct_map)
qed

end
