(* ===== verification/Minting.thy ===== *)
theory Minting
  imports Catalogue Ledger
begin

section \<open>Writing one result into the store (attestation/minting.py)\<close>

text \<open>
  Every refusal is made before the first byte lands: the check, its environment, the kind and
  size of each proof, a proof for a pass. Then the proofs are absorbed and the entry appended.
  The state is the tree behind the port, the ledger and the proof store; the sealed catalogue
  and the clock's stamp are arguments.
\<close>

record offered =
  off_payload :: bytes
  off_kind :: str

record minted =
  mt_sealed :: sealed
  mt_proofs :: "filed_proof list"

definition minted_check :: "minted \<Rightarrow> check_id" where
  "minted_check m = ev_check (en_event (sl_entry (mt_sealed m)))"

definition known_specification :: "check_spec sealed_registry \<Rightarrow> check_id \<Rightarrow> check_spec res" where
  "known_specification cat check =
     (if \<not> sealed_contains cat (name_value check) then Inl (Refusal UNKNOWN_CHECK)
      else check_specification cat check)"

definition require_environment :: "check_spec \<Rightarrow> environment_kind \<Rightarrow> unit res" where
  "require_environment spec witnessed =
     (if spec_group spec = HARDWARE_GROUP \<and> witnessed \<noteq> PHYSICAL then Inl (Refusal HARDWARE_REQUIRES_PHYSICAL)
      else rbind (require_attestable witnessed (Some (spec_environment spec))) (\<lambda>_. Inr ()))"

definition intended_proof :: "offered \<Rightarrow> filed_proof res" where
  "intended_proof item = mk_proof (address (off_payload item)) (off_kind item) (int (length (off_payload item)))"

definition intended_proofs :: "check_spec \<Rightarrow> offered list \<Rightarrow> filed_proof list res" where
  "intended_proofs spec items =
     (if list_ex (\<lambda>item. off_kind item \<notin> set (spec_accepted_proof_kinds spec)) items
      then Inl (Refusal PROOF_KIND_NOT_ACCEPTED)
      else rmapM intended_proof items)"

definition require_proof_for_pass :: "verdict \<Rightarrow> offered list \<Rightarrow> unit res" where
  "require_proof_for_pass v items =
     (if v = Passed \<and> items = [] then Inl (Refusal PASS_REQUIRES_PROOF) else Inr ())"

type_synonym 'fs store_state = "('fs \<times> ledger) \<times> proof_store"

definition absorb_in ::
  "'fs files_port \<Rightarrow> host \<Rightarrow> offered \<Rightarrow> ('fs store_state, filed_proof) io" where
  "absorb_in port h item = (\<lambda>((fs, lg), st).
     case absorb port h st (off_payload item) (off_kind item) fs of
       (fs', Inl e) \<Rightarrow> (((fs', lg), st), Inl e)
     | (fs', Inr (pf, st')) \<Rightarrow> (((fs', lg), st'), Inr pf))"

definition mint ::
  "'fs files_port \<Rightarrow> host \<Rightarrow> check_spec sealed_registry \<Rightarrow> str \<Rightarrow> check_id \<Rightarrow> verdict \<Rightarrow> offered list
     \<Rightarrow> digest \<Rightarrow> environment_kind \<Rightarrow> scope_limit list \<Rightarrow> ('fs store_state, minted) io" where
  "mint port h cat stamp check v items candidate witnessed limits =
     io_bind (io_lift (known_specification cat check)) (\<lambda>spec.
     io_bind (io_lift (require_environment spec witnessed)) (\<lambda>_.
     io_bind (io_lift (intended_proofs spec items)) (\<lambda>intended.
     io_bind (io_lift (require_proof_for_pass v items)) (\<lambda>_.
     io_bind (io_mapM (absorb_in port h) items) (\<lambda>filed.
       if filed \<noteq> intended then io_raise InternalDefect
       else
         io_bind (on_port (append_entry port h
             \<lparr>ev_kind = RECORDED, ev_check = check, ev_verdict = v, ev_environment = witnessed,
              ev_candidate = candidate, ev_proofs = map proof_digest filed, ev_scope_limits = limits\<rparr> stamp)) (\<lambda>s.
           io_return \<lparr>mt_sealed = s, mt_proofs = filed\<rparr>))))))"

text \<open>The refusals, and what a request that passes them all has shown.\<close>

definition may_mint ::
  "check_spec sealed_registry \<Rightarrow> check_id \<Rightarrow> verdict \<Rightarrow> offered list \<Rightarrow> environment_kind \<Rightarrow> filed_proof list res" where
  "may_mint cat check v items witnessed =
     rbind (known_specification cat check) (\<lambda>spec.
     rbind (require_environment spec witnessed) (\<lambda>_.
     rbind (intended_proofs spec items) (\<lambda>intended.
     rbind (require_proof_for_pass v items) (\<lambda>_. Inr intended))))"

lemma mint_refused:
  "may_mint cat check v items witnessed = Inl e \<Longrightarrow>
     mint port h cat stamp check v items candidate witnessed limits s = (s, Inl e)"
  by (auto simp: may_mint_def mint_def io_bind_def rbind_eq_Inl split: sum.splits)

lemma mint_allowed:
  "may_mint cat check v items witnessed = Inr intended \<Longrightarrow>
     mint port h cat stamp check v items candidate witnessed limits s =
       io_bind (io_mapM (absorb_in port h) items) (\<lambda>filed.
         if filed \<noteq> intended then io_raise InternalDefect
         else
           io_bind (on_port (append_entry port h
               \<lparr>ev_kind = RECORDED, ev_check = check, ev_verdict = v, ev_environment = witnessed,
                ev_candidate = candidate, ev_proofs = map proof_digest filed, ev_scope_limits = limits\<rparr> stamp)) (\<lambda>s.
             io_return \<lparr>mt_sealed = s, mt_proofs = filed\<rparr>)) s"
  by (auto simp: may_mint_def mint_def io_bind_def rbind_eq_Inr)

lemma may_mint_Inr:
  assumes "may_mint cat check v items witnessed = Inr intended"
  shows "\<exists>spec. sealed_lookup cat (name_value check) = Inr spec
     \<and> witnessed = spec_environment spec \<and> witnessed \<noteq> SIMULATED
     \<and> (spec_group spec = HARDWARE_GROUP \<longrightarrow> witnessed = PHYSICAL)
     \<and> (\<forall>item \<in> set items. off_kind item \<in> set (spec_accepted_proof_kinds spec) \<and> off_payload item \<noteq> [])
     \<and> (v = Passed \<longrightarrow> items \<noteq> [])
     \<and> map proof_digest intended = map (address \<circ> off_payload) items"
proof -
  from assms obtain spec where s: "known_specification cat check = Inr spec"
    "require_environment spec witnessed = Inr ()" "intended_proofs spec items = Inr intended"
    "require_proof_for_pass v items = Inr ()"
    by (auto simp: may_mint_def rbind_eq_Inr)
  have i: "list_all2 (\<lambda>x y. intended_proof x = Inr y) items intended"
    "\<forall>item \<in> set items. off_kind item \<in> set (spec_accepted_proof_kinds spec)"
    using s(3) by (auto simp: intended_proofs_def rmapM_eq_Inr list_ex_iff split: if_splits)
  have "map proof_digest intended = map (address \<circ> off_payload) items"
    using i(1) by (induction rule: list_all2_induct) (auto simp: intended_proof_def mk_proof_Inr)
  moreover have "\<forall>item \<in> set items. off_payload item \<noteq> []"
    using i(1) by (induction rule: list_all2_induct) (auto simp: intended_proof_def mk_proof_Inr)
  ultimately show ?thesis
    using s(1,2,4) i(2)
    by (auto simp: known_specification_def check_specification_def require_environment_def
          require_proof_for_pass_def require_attestable_Inr rbind_eq_Inr split: if_splits)
qed

text \<open>Filing proofs leaves the ledger alone, and what appending an entry wrote, on any port.\<close>

lemma absorbs_keep_ledger: "io_mapM (absorb_in port h) items s = (s', r) \<Longrightarrow> snd (fst s') = snd (fst s)"
proof (induction items arbitrary: s s' r)
  case (Cons item items)
  have one: "snd (fst s1) = snd (fst s)" if "absorb_in port h item s = (s1, x)" for s1 x
    using that by (auto simp: absorb_in_def split: prod.splits sum.splits)
  obtain s1 x where s1: "absorb_in port h item s = (s1, x)" by (cases "absorb_in port h item s")
  obtain s2 y where s2: "io_mapM (absorb_in port h) items s1 = (s2, y)" by (cases "io_mapM (absorb_in port h) items s1")
  from Cons.prems Cons.IH [OF s2] one [OF s1] show ?case
    by (cases x; cases y) (auto simp: io_bind_def s1 s2)
qed simp

lemma on_port_Inr: "on_port m (s, x) = (so, Inr y) \<longleftrightarrow> (\<exists>s'. m s = (s', Inr y) \<and> so = (s', x))"
  by (auto split: prod.splits)

definition wrote_entry ::
  "'fs files_port \<Rightarrow> host \<Rightarrow> ledger \<Rightarrow> sealed \<Rightarrow> 'fs \<Rightarrow> 'fs \<Rightarrow> bool" where
  "wrote_entry port h lg s fs fs' \<longleftrightarrow>
     (\<exists>chain hp fs1 d. chain_path h (lg_location lg) = Inr chain \<and> head_path h (lg_location lg) = Inr hp
        \<and> fp_append_line port chain (sealed_line s) RECORD_MODE fs = (fs1, Inr ())
        \<and> fp_write_atomic port hp (canonical (head_document (head_at s))) RECORD_MODE fs1 = (fs', Inr d))"

lemma append_entry_wrote:
  assumes "append_entry port h ev stamp (fs, lg) = ((fs', lg'), Inr s)"
  shows "s = seal_next lg ev stamp" "lg' = lg\<lparr>lg_head := head_at s\<rparr>" "wrote_entry port h lg s fs fs'"
  using assms
  by (auto simp: append_entry_def wrote_entry_def io_bind_Inr io_lift_bind_Inr on_port_Inr simp del: on_port_apply)

lemma mint_wrote:
  assumes "mint port h cat stamp check v items candidate witnessed limits ((fs, lg), st) = (((fs', lg'), st'), Inr m)"
    and "may_mint cat check v items witnessed = Inr intended"
  shows "mt_proofs m = intended"
    "mt_sealed m = seal_next lg \<lparr>ev_kind = RECORDED, ev_check = check, ev_verdict = v, ev_environment = witnessed,
       ev_candidate = candidate, ev_proofs = map proof_digest intended, ev_scope_limits = limits\<rparr> stamp"
    "lg' = lg\<lparr>lg_head := head_at (mt_sealed m)\<rparr>" "\<exists>fs1. wrote_entry port h lg (mt_sealed m) fs1 fs'"
proof -
  let ?ev = "\<lparr>ev_kind = RECORDED, ev_check = check, ev_verdict = v, ev_environment = witnessed,
     ev_candidate = candidate, ev_proofs = map proof_digest intended, ev_scope_limits = limits\<rparr>"
  from assms(1) obtain fs1 lg1 st1 where
    filed: "io_mapM (absorb_in port h) items ((fs, lg), st) = (((fs1, lg1), st1), Inr intended)"
    and a: "append_entry port h ?ev stamp (fs1, lg1) = ((fs', lg'), Inr (mt_sealed m))" and p: "mt_proofs m = intended"
    by (auto simp: mint_allowed [OF assms(2)] io_bind_Inr on_port_def split: if_splits prod.splits)
  from absorbs_keep_ledger [OF filed] have "lg1 = lg" by simp
  with append_entry_wrote [OF a] p show "mt_proofs m = intended" "mt_sealed m = seal_next lg ?ev stamp"
    "lg' = lg\<lparr>lg_head := head_at (mt_sealed m)\<rparr>" "\<exists>fs1. wrote_entry port h lg (mt_sealed m) fs1 fs'" by auto
qed

end
