(* ===== verification/StoreProps.thy ===== *)
theory StoreProps
  imports StoreReaders Minting
begin

section \<open>What reading a store promises\<close>

text \<open>
  Election in closed form; the first reader's records are imported whatever lies on disk, so a
  store it reads is never ready; the second reader takes the latest entry of the chain for each
  check; and what is minted through a file store is what that reader then finds.
\<close>

subsection \<open>Election\<close>

lemma claim_key_inj: "claim_key c = claim_key c' \<longleftrightarrow> c = c'"
proof -
  have "str_of_int i = str_of_int j \<longleftrightarrow> i = j" for i j
    using int_of_str_str_of_int [of i] int_of_str_str_of_int [of j] by (metis sum.inject(2))
  then show ?thesis
    by (cases c; cases c') (simp_all add: ABSENT_KEY_def MARK_KEY_PREFIX_def)
qed

definition reader_entries :: "'fs files_port \<Rightarrow> (str \<times> 'fs store_reader \<times> provenance) list" where
  "reader_entries port =
     [(claim_key MarkAbsent, V1_SPEC, module_origin ''v1_reader'' 79),
      (claim_key (MarkEquals 1), V1_SPEC, module_origin ''v1_reader'' 79),
      (claim_key (MarkEquals 2), V2_SPEC port, module_origin ''v2_reader'' 102)]"

lemma sealed_readers_lookup:
  obtains s where "sealed_readers port = Inr s"
    "\<And>key. sealed_lookup s key = of_option RegistrationError (map_option fst (map_of (reader_entries port) key))"
proof -
  let ?new = "registry_new ''store reader'' :: 'a store_reader registry"
  obtain r where r: "rfold registry_put ?new (reader_entries port) = Inr r"
    using rw.puts_total [of ?new "reader_entries port"]
    by (auto simp: reader_entries_def claim_key_inj simp del: claim_key.simps rfold.simps)
  have ok: "registry_ok r \<and> \<not> reg_sealed r" and get: "registry_get r = map_of (reader_entries port)"
    using rw.puts_spec [OF _ r] by (simp_all)
  obtain s r3 where seal: "registry_seal r = Inr (s, r3)"
    using registry_seal_ok [of r] ok by fastforce
  have "sealed_readers port = Inr s"
    using r seal
    by (auto simp: rbind_eq_Inr sealed_readers_def declare_reader_def mk_reader_claims_def V1_SPEC_def V2_SPEC_def
        V1_CLAIMS_def V2_CLAIMS_def reader_entries_def registry_put_def FIRST_VERSION_def SECOND_VERSION_def
        )
  moreover have "sealed_lookup s key = of_option RegistrationError (map_option fst (map_of (reader_entries port) key))" for key
    using sealed_lookup_seal [OF _ seal, of key] ok by (simp add: get)
  ultimately show ?thesis by (rule that)
qed

lemma sealed_contains_lookup: "sealed_contains s k \<longleftrightarrow> (\<exists>v. sealed_lookup s k = Inr v)"
  by (auto simp: sealed_contains_def sealed_lookup_def dict_has_map_of result_simps)

lemma elect_closed:
  "elect port Unmarked = Inr V1_SPEC"
  "elect port Unreadable = Inl (Refusal MALFORMED_STORE_MARK)"
  "elect port (Marked v) =
     (if v = 1 then Inr V1_SPEC else if v = 2 then Inr (V2_SPEC port)
      else Inl (PreconditionUnmet STORE_VERSION_NOT_SUPPORTED))"
proof -
  obtain s where s: "sealed_readers port = Inr s"
    "\<And>key. sealed_lookup s key = of_option RegistrationError (map_option fst (map_of (reader_entries port) key))"
    using sealed_readers_lookup [of port] by blast
  show "elect port Unmarked = Inr V1_SPEC" "elect port Unreadable = Inl (Refusal MALFORMED_STORE_MARK)"
    "elect port (Marked v) =
      (if v = 1 then Inr V1_SPEC else if v = 2 then Inr (V2_SPEC port)
       else Inl (PreconditionUnmet STORE_VERSION_NOT_SUPPORTED))"
    by (auto simp: elect_def s(1) sealed_contains_lookup s(2) reader_entries_def claim_key_inj
             simp del: claim_key.simps)
qed

subsection \<open>The first reader\<close>

lemma read_one_imported:
  assumes "read_one d base V1_CLAIMS candidate name = Inr (as, fs)" "a \<in> set as"
  shows "at_kind a = IMPORTED \<and> at_limits a = LEGACY_LIMITS \<and> attestation_ok a \<and> at_origin a = name"
  using assms
  by (auto simp: read_one_def Let_def mk_attestation_Inr reader_kind_def V1_CLAIMS_def result_simps
        LEGACY_LIMITS_def
      split: if_splits sum.splits exn.splits option.splits)

lemma v1_read_imported:
  assumes "v1_read d base V1_CLAIMS = Inr rd" "a \<in> set (sr_attestations rd)"
  shows "at_kind a = IMPORTED \<and> at_limits a = LEGACY_LIMITS \<and> rr_imported (at_resolved a)"
proof -
  from assms(1) obtain c found where f: "sr_attestations rd = concat (map fst found)"
    "(if host_is_dir (disk_host d) (path_join base EVIDENCE_DIRECTORY)
      then rmapM (read_one d (path_join base EVIDENCE_DIRECTORY) V1_CLAIMS c)
             (json_names d (path_join base EVIDENCE_DIRECTORY)) else Inr []) = Inr found"
    by (auto simp: v1_read_def Let_def rbind_eq_Inr)
  from assms(2) f(1) obtain as fs where "(as, fs) \<in> set found" "a \<in> set as" by fastforce
  moreover have "\<exists>name. read_one d (path_join base EVIDENCE_DIRECTORY) V1_CLAIMS c name = Inr (as, fs)"
    using f(2) calculation(1)
    by (fastforce simp: rmapM_eq_Inr list_all2_conv_all_nth in_set_conv_nth split: if_splits)
  ultimately show ?thesis
    using read_one_imported by (fastforce simp: attestation_ok_def)
qed

text \<open>What the first reader reads can never make a candidate ready.\<close>

lemma v1_never_ready:
  assumes "v1_read d base V1_CLAIMS = Inr rd" "distinct (map fst required)"
  shows "\<not> rd_ready (evaluate required (reading_records rd) candidate)"
proof
  assume "rd_ready (evaluate required (reading_records rd) candidate)"
  then obtain c where ne: "required \<noteq> []" and names: "rr_name ` set (reading_records rd) = fst ` set required"
    and e: "\<forall>r \<in> set (reading_records rd). \<exists>e. earns c e r"
    using evaluate_ready_iff [OF assms(2)] by fastforce
  from ne names obtain r where "r \<in> set (reading_records rd)"
    by (metis empty_is_image equals0I set_empty)
  with e v1_read_imported [OF assms(1)] show False
    by (auto simp: reading_records_def earns_def)
qed

text \<open>The damaged documents of a store cost it only themselves: the others are read all the same.\<close>

lemma v1_read_total:
  assumes "\<And>name. name \<in> set (json_names d (path_join base EVIDENCE_DIRECTORY)) \<Longrightarrow>
             utf8_ok True (disk_bytes d (path_join (path_join base EVIDENCE_DIRECTORY) name))"
    and "\<not> host_is_file (disk_host d) (path_join base CANDIDATE_NAME)
         \<or> (\<exists>c. read_candidate (disk_bytes d (path_join base CANDIDATE_NAME)) = Inr c)"
  shows "\<exists>rd. v1_read d base V1_CLAIMS = Inr rd"
proof -
  let ?ev = "path_join base EVIDENCE_DIRECTORY"
  have one: "\<exists>x. read_one d ?ev V1_CLAIMS cand name = Inr x"
    if n: "name \<in> set (json_names d ?ev)" for cand name
  proof (cases "read_evidence_record (disk_bytes d (path_join ?ev name))")
    case (Inl e)
    with read_evidence_record_Inl [OF Inl] assms(1) [OF n] show ?thesis
      by (cases e) (auto simp: read_one_def Let_def)
  next
    case (Inr stored)
    have "attestation_ok \<lparr>at_kind = IMPORTED, at_resolved = resolve_stored d ?ev True stored,
            at_limits = LEGACY_LIMITS, at_origin = name\<rparr>"
      by (simp add: attestation_ok_def resolve_stored_def)
    then have "\<exists>a. mk_attestation \<lparr>at_kind = IMPORTED, at_resolved = resolve_stored d ?ev True stored,
            at_limits = LEGACY_LIMITS, at_origin = name\<rparr> = Inr a"
      by (simp add: mk_attestation_Inr)
    with Inr show ?thesis
      by (auto simp: read_one_def Let_def reader_kind_def V1_CLAIMS_def LEGACY_LIMITS_def split: option.splits)
  qed
  have all: "\<exists>ys. rmapM (read_one d ?ev V1_CLAIMS cand) ns = Inr ys"
    if "set ns \<subseteq> set (json_names d ?ev)" for cand ns
    using that by (induction ns) (auto simp: rbind_eq_Inr dest: one [of _ cand])
  obtain c where c: "(if host_is_file (disk_host d) (path_join base CANDIDATE_NAME)
        then map_sum id (Some \<circ> cand_digest) (read_candidate (disk_bytes d (path_join base CANDIDATE_NAME)))
        else Inr None) = Inr c"
    using assms(2) by (cases "host_is_file (disk_host d) (path_join base CANDIDATE_NAME)") auto
  obtain ys where "rmapM (read_one d ?ev V1_CLAIMS c) (json_names d ?ev) = Inr ys"
    using all [OF subset_refl] by blast
  with c show ?thesis
    by (cases "host_is_dir (disk_host d) ?ev") (simp_all add: v1_read_def Let_def)
qed

subsection \<open>The chain's latest entry\<close>

lemma latest_entries_get:
  "map_of (latest_entries ss) k = find (\<lambda>s. sealed_check s = k) (rev ss)"
  "distinct (map fst (latest_entries ss))"
proof -
  have "map_of (latest_entries ss) k = find (\<lambda>s. sealed_check s = k) (rev ss)
      \<and> distinct (map fst (latest_entries ss))"
    by (induction ss rule: rev_induct) (auto simp: latest_entries_def distinct_dict_set)
  then show "map_of (latest_entries ss) k = find (\<lambda>s. sealed_check s = k) (rev ss)"
    "distinct (map fst (latest_entries ss))" by auto
qed

lemma find_rev_append: "find P (rev (xs @ [x])) = (if P x then Some x else find P (rev xs))"
  by simp

lemma latest_entries_snoc:
  "map_of (latest_entries (ss @ [s])) (sealed_check s) = Some s"
  by (simp add: latest_entries_get)

lemma latest_entries_key: "(k, s) \<in> set (latest_entries ss) \<Longrightarrow> s \<in> set ss \<and> sealed_check s = k"
proof -
  assume "(k, s) \<in> set (latest_entries ss)"
  then have "find (\<lambda>s. sealed_check s = k) (rev ss) = Some s"
    using latest_entries_get(1) [of ss k] latest_entries_get(2) [of ss] by simp
  then show "s \<in> set ss \<and> sealed_check s = k"
    by (auto simp: find_Some_iff) (metis nth_mem set_rev length_rev)
qed

text \<open>An entry that claims a limit of the imported records cannot be made an attestation.\<close>

lemma entry_attestation_ok:
  "mk_attestation (entry_attestation intact s) =
     (if set (ev_scope_limits (en_event (sl_entry s))) \<inter> LEGACY_LIMITS = {}
      then Inr (entry_attestation intact s) else Inl InternalDefect)"
  by (auto simp: entry_attestation_def mk_attestation_def Let_def)

lemma entry_attestation_as_stored:
  "ev_verdict (en_event (sl_entry s)) = reread (ev_verdict (en_event (sl_entry s))) \<Longrightarrow>
     entry_attestation intact (as_stored s) = entry_attestation intact s"
  by (simp add: entry_attestation_def as_stored_def Let_def)

text \<open>\<open>apart\<close>: no object is filed over the chain or its head.\<close>

definition apart :: "host \<Rightarrow> store_location \<Rightarrow> bool" where
  "apart h loc \<longleftrightarrow> (\<forall>d target. digest_ok d \<longrightarrow> object_path h loc d = Inr target \<longrightarrow>
     chain_path h loc \<noteq> Inr target \<and> head_path h loc \<noteq> Inr target)"

context file_store
begin

text \<open>\<open>filed\<close>: the object of a digest is in the tree, hashes to it and is within the limit.\<close>

definition filed :: "host \<Rightarrow> store_location \<Rightarrow> 'fs \<Rightarrow> digest \<Rightarrow> bool" where
  "filed h loc fs d \<longleftrightarrow>
     (\<exists>target payload. object_path h loc d = Inr target \<and> content fs target = Some payload
        \<and> address payload = d \<and> int (length payload) \<le> OBJECT_LIMIT)"

lemma object_intact_filed:
  assumes "plain fs" "filed h (ps_location st) fs d"
  shows "object_intact port h st d fs = (fs, Inr True)"
proof -
  from assms(2) obtain target payload where f: "object_path h (ps_location st) d = Inr target"
    "content fs target = Some payload" "address payload = d" "int (length payload) \<le> OBJECT_LIMIT"
    by (auto simp: filed_def)
  have "fp_exists port target fs = (fs, Inr True)" by (rule exists_spec) (simp_all add: assms(1) f(2))
  moreover have "fp_read_bytes port target (OBJECT_LIMIT + OVERREAD) fs = (fs, Inr payload)"
    by (rule read_whole [OF assms(1) f(2)]) (use f(4) in \<open>simp_all add: OVERREAD_def OBJECT_LIMIT_def\<close>)
  ultimately show ?thesis using f by (simp add: object_intact_def io_bind_def)
qed

text \<open>An object longer than the limit is filed by \<open>absorb\<close> and never found intact.\<close>

lemma object_intact_too_long:
  assumes "plain fs" "object_path h (ps_location st) d = Inr target" "content fs target = Some payload"
    and "OBJECT_LIMIT < int (length payload)"
  shows "object_intact port h st d fs = (fs, Inr False)"
proof -
  have "fp_exists port target fs = (fs, Inr True)" by (rule exists_spec) (simp_all add: assms)
  moreover have "fp_read_bytes port target (OBJECT_LIMIT + OVERREAD) fs =
      (fs, Inr (take (nat (OBJECT_LIMIT + OVERREAD)) payload))"
    by (rule read_spec) (simp_all add: assms OBJECT_LIMIT_def OVERREAD_def)
  moreover have "\<not> int (length (take (nat (OBJECT_LIMIT + OVERREAD)) payload)) \<le> OBJECT_LIMIT"
    using assms(4) by (simp add: OVERREAD_def OBJECT_LIMIT_def min_def)
  ultimately show ?thesis using assms(2) by (simp add: object_intact_def io_bind_def)
qed

lemma all_intact_filed:
  "plain fs \<Longrightarrow> \<forall>d \<in> set ds. filed h (ps_location st) fs d \<Longrightarrow> all_intact port h st ds fs = (fs, Inr True)"
  by (induction ds) (simp_all add: io_bind_def object_intact_filed)

definition citable :: "host \<Rightarrow> store_location \<Rightarrow> 'fs \<Rightarrow> sealed \<Rightarrow> bool" where
  "citable h loc fs s \<longleftrightarrow>
     (\<forall>d \<in> set (ev_proofs (en_event (sl_entry s))). filed h loc fs d)
   \<and> set (ev_scope_limits (en_event (sl_entry s))) \<inter> LEGACY_LIMITS = {}"

lemma chain_attestations_filed:
  assumes "plain fs" "\<forall>s \<in> set ss. citable h (ps_location st) fs s"
  shows "io_mapM (chain_attestation port h st) ss fs = (fs, Inr (map (entry_attestation True) ss))"
  using assms(2)
proof (induction ss)
  case (Cons s ss)
  then have "chain_attestation port h st s fs = (fs, Inr (entry_attestation True s))"
    by (simp add: chain_attestation_def io_bind_def all_intact_filed [OF assms(1)] citable_def entry_attestation_ok)
  with Cons show ?case by (simp add: io_bind_def)
qed simp

text \<open>Over a chain this code wrote, the reader finds the latest entry of each check and no fault.\<close>

lemma v2_chain_reads:
  assumes "chain_holds h (fs, lg) ss" "ss \<noteq> []"
    and "int (length (concat (map (\<lambda>s. sealed_line s @ [CHR 0x0A]) ss))) \<le> CHAIN_LIMIT"
    and "signer_at port h (lg_location lg) fs = (fs, Inr (Some (lg_signer lg)))"
    and "\<forall>s \<in> set ss. citable h (lg_location lg) fs s"
  shows "v2_chain port h (lg_location lg) fs =
    (fs, Inr (map (entry_attestation True) (map snd (latest_entries (map as_stored ss))), []))"
proof -
  from assms(1,2) obtain cp where cp: "plain fs" "chain_path h (lg_location lg) = Inr cp" "content fs cp \<noteq> None"
    by (auto simp: chain_holds_def chain_files_def)
  have there: "fp_exists port cp fs = (fs, Inr True)" by (rule exists_spec [OF cp(1,3)])
  note read = chain_reads [OF assms(1,3)] and verified = chain_verifies [OF assms(1,2)]
  have "citable h (lg_location lg) fs s" if "s \<in> set (map snd (latest_entries (map as_stored ss)))" for s
  proof -
    from that obtain k where "(k, s) \<in> set (latest_entries (map as_stored ss))" by auto
    from latest_entries_key [OF this] obtain s' where "s' \<in> set ss" "s = as_stored s'" by auto
    with assms(5) show ?thesis by (simp add: citable_def as_stored_def)
  qed
  then have "io_mapM (chain_attestation port h (proof_store_new (lg_location lg)))
      (map snd (latest_entries (map as_stored ss))) fs =
    (fs, Inr (map (entry_attestation True) (map snd (latest_entries (map as_stored ss)))))"
    by (intro chain_attestations_filed [OF cp(1)]) (simp add: proof_store_new_def)
  with cp there read verified assms(2,4) show ?thesis
    by (simp add: v2_chain_def io_bind_def break_faults_def)
qed

subsection \<open>Minting over a file store\<close>

lemma absorb_in_files:
  assumes "absorb_in port h item ((fs, lg), st) = (s', Inr pf)" "plain fs"
  obtains target fs' st' where "s' = ((fs', lg), st')" "plain fs'" "ps_location st' = ps_location st"
    "object_path h (ps_location st) (address (off_payload item)) = Inr target"
    "content fs' = content fs \<or> content fs' = (content fs)(target \<mapsto> off_payload item)"
proof -
  from assms(1) obtain fs' st' where a: "absorb port h st (off_payload item) (off_kind item) fs = (fs', Inr (pf, st'))"
    "s' = ((fs', lg), st')"
    by (auto simp: absorb_in_def split: prod.splits sum.splits)
  from absorb_files [OF assms(2) a(1)] obtain target where t:
    "object_path h (ps_location st) (address (off_payload item)) = Inr target" "plain fs'"
    "ps_location st' = ps_location st"
    "content fs' = (if fp_exists port target fs = (fs, Inr True) then content fs
                    else (content fs)(target \<mapsto> off_payload item))" .
  then have "content fs' = content fs \<or> content fs' = (content fs)(target \<mapsto> off_payload item)" by simp
  with a(2) t that show ?thesis by blast
qed

lemma chain_files_elsewhere:
  assumes "chain_files h (fs, lg) ss" "plain fs'"
    and same: "\<And>p. chain_path h (lg_location lg) = Inr p \<or> head_path h (lg_location lg) = Inr p
      \<Longrightarrow> content fs' p = content fs p"
  shows "chain_files h (fs', lg) ss"
proof -
  from assms(1) [unfolded chain_files_def fst_conv snd_conv] obtain cp hp where
    p: "chain_path h (lg_location lg) = Inr cp" "head_path h (lg_location lg) = Inr hp" "cp \<noteq> hp"
      "content fs cp = (if ss = [] then None else Some (concat (map (\<lambda>s. sealed_line s @ [CHR 0x0A]) ss)))"
      "content fs hp = (if ss = [] then None else Some (canonical (head_document (head_of ss))))"
    and r: "chained (lg_signer lg) GENESIS 0 ss" "list_all sealed_fits ss" "lg_head lg = head_of ss"
    by blast
  have "content fs' cp = content fs cp" "content fs' hp = content fs hp" using p(1,2) by (auto intro: same)
  with p r assms(2) show ?thesis unfolding chain_files_def fst_conv snd_conv by (intro conjI exI) simp_all
qed

lemma absorbs_keep_chain:
  assumes "io_mapM (absorb_in port h) items ((fs, lg), st) = (s', Inr pfs)"
    and "chain_files h (fs, lg) ss" "ps_location st = lg_location lg" "apart h (lg_location lg)"
  obtains fs' st' where "s' = ((fs', lg), st')" "chain_files h (fs', lg) ss" "ps_location st' = lg_location lg"
proof -
  have "\<exists>fs' st'. s' = ((fs', lg), st') \<and> chain_files h (fs', lg) ss \<and> ps_location st' = lg_location lg"
    using assms
  proof (induction items arbitrary: fs st s' pfs)
    case Nil
    then show ?case by auto
  next
    case (Cons item items)
    from Cons.prems(1) obtain s1 pf pfs1 where m: "absorb_in port h item ((fs, lg), st) = (s1, Inr pf)"
      "io_mapM (absorb_in port h) items s1 = (s', Inr pfs1)"
      by (auto simp: io_bind_Inr)
    have "plain fs" using Cons.prems(2) by (simp add: chain_files_def)
    from absorb_in_files [OF m(1) this] obtain target fs1 st1 where a: "s1 = ((fs1, lg), st1)" "plain fs1"
      "ps_location st1 = ps_location st"
      "object_path h (ps_location st) (address (off_payload item)) = Inr target"
      "content fs1 = content fs \<or> content fs1 = (content fs)(target \<mapsto> off_payload item)" by blast
    have ok: "digest_ok (address (off_payload item))" by (simp add: address_def)
    have "chain_path h (lg_location lg) \<noteq> Inr target" "head_path h (lg_location lg) \<noteq> Inr target"
      using Cons.prems(4) [unfolded apart_def, rule_format, OF ok, of target] a(4) Cons.prems(3) by simp_all
    then have "chain_files h (fs1, lg) ss"
      using a(5) by (intro chain_files_elsewhere [OF Cons.prems(2) a(2)]) auto
    with Cons.IH [of fs1 st1 s' pfs1] m(2) a(1,3) Cons.prems(3,4) show ?case by simp
  qed
  with that show ?thesis by blast
qed

lemma mint_files:
  assumes "mint port h cat stamp check v items candidate witnessed limits ((fs, lg), st) = (s', Inr m)"
    and "chain_files h (fs, lg) ss" "ps_location st = lg_location lg" "apart h (lg_location lg)"
    and "dotted_name_ok check" "digest_ok candidate" "list_all is_ascii stamp"
    and "int (length (sealed_line (mt_sealed m))) \<le> LINE_LIMIT"
  shows "chain_files h (fst s') (ss @ [mt_sealed m])"
    and "en_event (sl_entry (mt_sealed m)) =
      \<lparr>ev_kind = RECORDED, ev_check = check, ev_verdict = v, ev_environment = witnessed,
       ev_candidate = candidate, ev_proofs = map (address \<circ> off_payload) items, ev_scope_limits = limits\<rparr>"
    and "lg_location (snd (fst s')) = lg_location lg" "lg_signer (snd (fst s')) = lg_signer lg"
proof -
  obtain intended where may: "may_mint cat check v items witnessed = Inr intended"
    using assms(1) by (cases "may_mint cat check v items witnessed") (simp_all add: mint_refused)
  let ?ev = "\<lambda>filed. \<lparr>ev_kind = RECORDED, ev_check = check, ev_verdict = v, ev_environment = witnessed,
       ev_candidate = candidate, ev_proofs = map proof_digest filed, ev_scope_limits = limits\<rparr>"
  from assms(1) obtain s1 where m: "io_mapM (absorb_in port h) items ((fs, lg), st) = (s1, Inr intended)"
    "on_port (append_entry port h (?ev intended) stamp) s1 = (s', Inr (mt_sealed m))"
    by (auto simp: mint_allowed [OF may] io_bind_Inr split: if_splits)
  from absorbs_keep_chain [OF m(1) assms(2-4)] obtain fs1 st1 where
    k: "s1 = ((fs1, lg), st1)" "chain_files h (fs1, lg) ss" "ps_location st1 = lg_location lg" .
  from m(2) k(1) have ap: "append_entry port h (?ev intended) stamp (fs1, lg) = (fst s', Inr (mt_sealed m))"
    by (auto split: prod.splits)
  have d: "map proof_digest intended = map (address \<circ> off_payload) items"
    using may_mint_Inr [OF may] by blast
  have "\<forall>x \<in> set (map proof_digest intended). digest_ok x"
    unfolding d by (auto simp: address_def)
  then have "event_ok (?ev intended)"
    using assms(5,6) by (simp add: event_ok_def list_all_iff)
  from append_files [OF k(2) ap this assms(7,8)] d
  show "chain_files h (fst s') (ss @ [mt_sealed m])"
    "en_event (sl_entry (mt_sealed m)) =
      \<lparr>ev_kind = RECORDED, ev_check = check, ev_verdict = v, ev_environment = witnessed,
       ev_candidate = candidate, ev_proofs = map (address \<circ> off_payload) items, ev_scope_limits = limits\<rparr>"
    "lg_location (snd (fst s')) = lg_location lg" "lg_signer (snd (fst s')) = lg_signer lg"
    by simp_all
qed

end

end
