(* ===== verification/StoreCycle.thy ===== *)
theory StoreCycle
  imports StoreProps
begin

section \<open>A result minted is a result read\<close>

text \<open>
  Minting and reading share only the files. Over a file store whose paths keep the chain, its
  head, its key and the objects apart (\<open>well_placed\<close>), a request that passes the refusals is
  filed, the chain and the objects stay whole, and the reader of the second version then states
  the minted result for its check. Any host that leaves the paths under the root alone places a
  store well.
\<close>

definition well_placed :: "host \<Rightarrow> store_location \<Rightarrow> bool" where
  "well_placed h loc \<longleftrightarrow>
     (\<exists>cp hp kp. chain_path h loc = Inr cp \<and> head_path h loc = Inr hp \<and> key_path h loc = Inr kp
        \<and> distinct [cp, hp, kp]
        \<and> (\<forall>d. digest_ok d \<longrightarrow> (\<exists>t. object_path h loc d = Inr t \<and> t \<notin> {cp, hp, kp}
                \<and> \<not> starts_with (safe_path_str cp) (safe_path_str t @ ''/'')
                \<and> \<not> starts_with (safe_path_str hp) (safe_path_str t @ ''/''))))
   \<and> (\<forall>d d' t t'. digest_ok d \<longrightarrow> digest_ok d' \<longrightarrow> object_path h loc d = Inr t \<longrightarrow> object_path h loc d' = Inr t'
        \<longrightarrow> d \<noteq> d' \<longrightarrow> t \<noteq> t' \<and> \<not> starts_with (safe_path_str t) (safe_path_str t' @ ''/''))"

lemma well_placed_paths:
  assumes "well_placed h loc"
  obtains cp hp kp where "chain_path h loc = Inr cp" "head_path h loc = Inr hp" "key_path h loc = Inr kp"
    "distinct [cp, hp, kp]" "\<And>d. digest_ok d \<Longrightarrow> \<exists>t. object_path h loc d = Inr t \<and> t \<notin> {cp, hp, kp}
       \<and> \<not> starts_with (safe_path_str cp) (safe_path_str t @ ''/'')
       \<and> \<not> starts_with (safe_path_str hp) (safe_path_str t @ ''/'')"
  using assms unfolding well_placed_def by blast

lemma well_placed_objects:
  "well_placed h loc \<Longrightarrow> digest_ok d \<Longrightarrow> digest_ok d' \<Longrightarrow> object_path h loc d = Inr t \<Longrightarrow>
     object_path h loc d' = Inr t' \<Longrightarrow> d \<noteq> d' \<Longrightarrow>
     t \<noteq> t' \<and> \<not> starts_with (safe_path_str t) (safe_path_str t' @ ''/'')"
  unfolding well_placed_def by blast

lemma well_placed_apart: "well_placed h loc \<Longrightarrow> apart h loc"
  unfolding well_placed_def apart_def by fastforce

text \<open>A host whose \<open>resolve\<close> answers an absolute path below the root with itself.\<close>

lemma plain_host_places:
  assumes "\<And>p. host_resolve h p = p" and "root_path (loc_root loc) = ''/'' @ r" "r \<noteq> []" "last r \<noteq> CHR ''/''"
    and "CHR '','' \<notin> set r" "CHR '','' \<notin> set (loc_area loc)" "loc_area loc \<noteq> []" "hd (loc_area loc) \<noteq> CHR ''/''"
  shows "well_placed h loc"
proof -
  let ?base = "root_path (loc_root loc) @ ''/'' @ loc_area loc @ ''/''"
  have join: "path_join (root_path (loc_root loc)) (loc_area loc @ rel) = root_path (loc_root loc) @ ''/'' @ loc_area loc @ rel" for rel
  proof -
    have "last (root_path (loc_root loc)) \<noteq> CHR ''/''" using assms(2-4) by simp
    then have "\<not> ends_with (root_path (loc_root loc)) ''/''" by (auto simp: ends_with_def suffix_def)
    with assms(2,7,8) show ?thesis by (cases "loc_area loc") (simp_all add: path_join_def starts_with_def)
  qed
  have child: "root_child h (loc_root loc) (loc_area loc @ ''/'' @ rel) = Inr (SafePath (?base @ rel))"
    if "CHR '','' \<notin> set rel" for rel
    using that assms(1,2,5,6) join [of "''/'' @ rel"]
    by (simp add: root_child_def Let_def is_relative_to_def starts_with_def prefix_def mk_safe_path_def OPTION_SEPARATOR_def)
  note fixed = LEDGER_DIRECTORY_def CHAIN_NAME_def HEAD_NAME_def KEY_NAME_def
  have ob: "object_path h loc d = Inr (SafePath (?base @ ''objects/'' @ take FAN_OUT (digest_hex d) @ ''/'' @ digest_hex d))"
    if d: "digest_ok d" for d
  proof -
    have hex: "CHR '','' \<notin> set (digest_hex d)"
      using d by (auto simp: digest_ok_def list_all_iff is_hex_def is_digit_def)
    then have "CHR '','' \<notin> set (''objects/'' @ take FAN_OUT (digest_hex d) @ ''/'' @ digest_hex d)"
      by (auto dest: in_set_takeD)
    from child [OF this] show ?thesis by (simp add: object_path_def OBJECT_DIRECTORY_def)
  qed
  have paths: "chain_path h loc = Inr (SafePath (?base @ ''ledger/chain.jsonl''))"
    "head_path h loc = Inr (SafePath (?base @ ''ledger/head.json''))"
    "key_path h loc = Inr (SafePath (?base @ ''ledger/key''))"
    using child [of "''ledger/chain.jsonl''"] child [of "''ledger/head.json''"] child [of "''ledger/key''"]
    by (simp_all add: chain_path_def head_path_def key_path_def fixed)
  have objects: "t \<noteq> t' \<and> \<not> starts_with (safe_path_str t) (safe_path_str t' @ ''/'')"
    if d: "digest_ok d" "digest_ok d'" "d \<noteq> d'" and t: "object_path h loc d = Inr t" "object_path h loc d' = Inr t'"
    for d d' t t'
  proof -
    have len: "length (digest_hex d) = 64" "length (digest_hex d') = 64" using d(1,2) by (auto simp: digest_ok_def)
    have p: "t = SafePath (?base @ ''objects/'' @ take FAN_OUT (digest_hex d) @ ''/'' @ digest_hex d)"
      "t' = SafePath (?base @ ''objects/'' @ take FAN_OUT (digest_hex d') @ ''/'' @ digest_hex d')"
      using ob [OF d(1)] ob [OF d(2)] t by simp_all
    have hex: "digest_hex d \<noteq> digest_hex d'" using d(3) by (metis digest.expand)
    have "t \<noteq> t'" unfolding p using hex len by (auto simp: append_eq_append_conv)
    moreover have "length (safe_path_str t) = length (safe_path_str t')" unfolding p by (simp add: len)
    then have "\<not> starts_with (safe_path_str t) (safe_path_str t' @ ''/'')"
      by (auto simp: starts_with_def prefix_def)
    ultimately show ?thesis by simp
  qed
  have object: "\<exists>t. object_path h loc d = Inr t
      \<and> t \<notin> {SafePath (?base @ ''ledger/chain.jsonl''), SafePath (?base @ ''ledger/head.json''), SafePath (?base @ ''ledger/key'')}
      \<and> \<not> starts_with (safe_path_str (SafePath (?base @ ''ledger/chain.jsonl''))) (safe_path_str t @ ''/'')
      \<and> \<not> starts_with (safe_path_str (SafePath (?base @ ''ledger/head.json''))) (safe_path_str t @ ''/'')"
    if "digest_ok d" for d
    by (rule exI, rule conjI, rule ob [OF that]) (simp add: starts_with_def prefix_def)
  have "distinct [SafePath (?base @ ''ledger/chain.jsonl''), SafePath (?base @ ''ledger/head.json''), SafePath (?base @ ''ledger/key'')]"
    by simp
  then show ?thesis
    unfolding well_placed_def using paths object objects by blast
qed

text \<open>The event a request that is granted appends.\<close>

definition minted_event ::
  "check_id \<Rightarrow> verdict \<Rightarrow> offered list \<Rightarrow> digest \<Rightarrow> environment_kind \<Rightarrow> scope_limit list \<Rightarrow> event" where
  "minted_event check v items candidate witnessed limits =
     \<lparr>ev_kind = RECORDED, ev_check = check, ev_verdict = v, ev_environment = witnessed,
      ev_candidate = candidate, ev_proofs = map (address \<circ> off_payload) items, ev_scope_limits = limits\<rparr>"

lemma filter_key_of_map:
  "distinct (map fst m) \<Longrightarrow> map_of m k = Some v \<Longrightarrow> filter (\<lambda>(k', x). k' = k) m = [(k, v)]"
proof (induction m)
  case (Cons p m)
  obtain k' v' where p: "p = (k', v')" by fastforce
  show ?case
  proof (cases "k' = k")
    case True
    with Cons.prems(1) p have "filter (\<lambda>(k', x). k' = k) m = []" by (force simp: filter_empty_conv)
    with Cons.prems(2) p True show ?thesis by simp
  qed (use Cons p in auto)
qed simp

lemma latest_of_check:
  "filter (\<lambda>a. at_check a = sealed_check s) (map (entry_attestation intact) (map snd (latest_entries (ss @ [s]))))
     = [entry_attestation intact s]"
proof -
  let ?m = "latest_entries (ss @ [s])"
  have key: "at_check (entry_attestation intact x) = k" if "(k, x) \<in> set ?m" for k x
    using latest_entries_key [OF that] by (simp add: entry_attestation_def at_check_def sealed_check_def Let_def)
  have "filter (\<lambda>a. at_check a = sealed_check s) (map (entry_attestation intact) (map snd ?m))
      = map (entry_attestation intact \<circ> snd) (filter (\<lambda>(k, x). k = sealed_check s) ?m)"
    by (auto simp: filter_map comp_def key intro!: arg_cong [where f = "map _"] filter_cong)
  also have "filter (\<lambda>(k, x). k = sealed_check s) ?m = [(sealed_check s, s)]"
    using filter_key_of_map [OF latest_entries_get(2) latest_entries_snoc [of ss s]] by simp
  finally show ?thesis by simp
qed

context file_store
begin

text \<open>Every object that exists is whole: it hashes to its name and is within the limit.\<close>

definition objects_whole :: "host \<Rightarrow> store_location \<Rightarrow> 'fs \<Rightarrow> bool" where
  "objects_whole h loc fs \<longleftrightarrow>
     (\<forall>d t. digest_ok d \<longrightarrow> object_path h loc d = Inr t \<longrightarrow> fp_exists port t fs = (fs, Inr True) \<longrightarrow> filed h loc fs d)"

definition kept :: "host \<Rightarrow> store_location \<Rightarrow> 'fs \<Rightarrow> 'fs \<Rightarrow> bool" where
  "kept h loc fs fs' \<longleftrightarrow>
     (\<forall>d. digest_ok d \<longrightarrow> filed h loc fs d \<longrightarrow> filed h loc fs' d)
   \<and> (\<forall>p. chain_path h loc = Inr p \<or> head_path h loc = Inr p \<or> key_path h loc = Inr p \<longrightarrow> content fs' p = content fs p)"

lemma kept_refl: "kept h loc fs fs"
  by (simp add: kept_def)

lemma kept_trans: "kept h loc a b \<Longrightarrow> kept h loc b c \<Longrightarrow> kept h loc a c"
  by (simp add: kept_def)

lemma absorb_succeeds:
  assumes "plain fs" "objects_whole h (ps_location st) fs" "well_placed h (ps_location st)"
    and "mk_proof (address payload) kind (int (length payload)) = Inr pf" "int (length payload) \<le> OBJECT_LIMIT"
  obtains fs' st' where "absorb port h st payload kind fs = (fs', Inr (pf, st'))" "plain fs'"
    "ps_location st' = ps_location st" "objects_whole h (ps_location st) fs'"
    "filed h (ps_location st) fs' (address payload)" "kept h (ps_location st) fs fs'"
proof -
  let ?loc = "ps_location st" and ?d = "address payload"
  have dok: "digest_ok ?d" by (simp add: address_def)
  have pf: "proof_digest pf = ?d" using assms(4) by (auto simp: mk_proof_Inr)
  from assms(3) obtain cp hp kp where pl: "chain_path h ?loc = Inr cp" "head_path h ?loc = Inr hp"
    "key_path h ?loc = Inr kp" "\<And>d. digest_ok d \<Longrightarrow> \<exists>t. object_path h ?loc d = Inr t \<and> t \<notin> {cp, hp, kp}"
    by (rule well_placed_paths) blast
  from pl(4) [OF dok] obtain t where t: "object_path h ?loc ?d = Inr t" "t \<notin> {cp, hp, kp}" by blast
  from exists_pure [OF assms(1), of t] obtain b where b: "fp_exists port t fs = (fs, Inr b)" ..
  show thesis
  proof (cases b)
    case True
    with b have "fp_exists port t fs = (fs, Inr True)" by simp
    with assms(2) dok t(1) have "filed h ?loc fs ?d" unfolding objects_whole_def by blast
    moreover have "absorb port h st payload kind fs = (fs, Inr (pf, st))"
      using assms(4) pf t(1) b True by (simp add: absorb_def io_bind_def)
    ultimately show ?thesis using assms(1,2) by (intro that [of fs st]) (simp_all add: kept_refl)
  next
    case False
    from write_spec [OF assms(1), of t payload OBJECT_MODE] obtain fs1 where
      w: "fp_write_atomic port t payload OBJECT_MODE fs = (fs1, Inr (digest_bytes payload))"
        "content fs1 = (content fs)(t \<mapsto> payload)" "plain fs1" by blast
    have new: "filed h ?loc fs1 ?d" using t(1) w(2) assms(5) by (auto simp: filed_def)
    have same: "content fs1 t' = content fs t'" if "digest_ok d'" "object_path h ?loc d' = Inr t'" "d' \<noteq> ?d" for d' t'
      using well_placed_objects [OF assms(3) that(1) dok that(2) t(1) that(3)] w(2) by simp
    have keep: "kept h ?loc fs fs1"
    proof -
      have "filed h ?loc fs1 d'" if d': "digest_ok d'" "filed h ?loc fs d'" for d'
      proof (cases "d' = ?d")
        case False
        from d'(2) obtain t' where "object_path h ?loc d' = Inr t'" by (auto simp: filed_def)
        with d'(2) same [OF d'(1) this False] show ?thesis by (simp add: filed_def)
      qed (use new in simp)
      moreover have "content fs1 p = content fs p"
        if "chain_path h ?loc = Inr p \<or> head_path h ?loc = Inr p \<or> key_path h ?loc = Inr p" for p
        using that t(2) pl(1-3) w(2) by auto
      ultimately show ?thesis by (simp add: kept_def)
    qed
    have "filed h ?loc fs1 d'" if d': "digest_ok d'" "object_path h ?loc d' = Inr t'" "fp_exists port t' fs1 = (fs1, Inr True)" for d' t'
    proof (cases "d' = ?d")
      case False
      from exists_pure [OF assms(1), of t'] obtain b' where b': "fp_exists port t' fs = (fs, Inr b')" ..
      have ap: "t' \<noteq> t" "\<not> starts_with (safe_path_str t) (safe_path_str t' @ ''/'')"
        using well_placed_objects [OF assms(3) d'(1) dok d'(2) t(1) False]
          well_placed_objects [OF assms(3) dok d'(1) t(1) d'(2)] False by auto
      from write_exists [OF assms(1) w(1) ap b'] d'(3) b' have "fp_exists port t' fs = (fs, Inr True)" by simp
      with assms(2) d'(1,2) have "filed h ?loc fs d'" unfolding objects_whole_def by blast
      with keep d'(1) show ?thesis by (simp add: kept_def)
    qed (use new in simp)
    then have "objects_whole h ?loc fs1" unfolding objects_whole_def by blast
    moreover have "absorb port h st payload kind fs = (fs1, Inr (pf, st\<lparr>ps_absorbed := ps_absorbed st + 1\<rparr>))"
      using assms(4) pf t(1) b False w(1) by (simp add: absorb_def io_bind_def)
    ultimately show ?thesis using new keep w(3) by (intro that [of fs1 "st\<lparr>ps_absorbed := ps_absorbed st + 1\<rparr>"]) simp_all
  qed
qed

lemma absorbs_succeed:
  assumes "plain fs" "objects_whole h (ps_location st) fs" "well_placed h (ps_location st)"
    and "rmapM intended_proof items = Inr pfs" "\<forall>item \<in> set items. int (length (off_payload item)) \<le> OBJECT_LIMIT"
  obtains fs' st' where "io_mapM (absorb_in port h) items ((fs, lg), st) = (((fs', lg), st'), Inr pfs)" "plain fs'"
    "ps_location st' = ps_location st" "objects_whole h (ps_location st) fs'"
    "\<forall>item \<in> set items. filed h (ps_location st) fs' (address (off_payload item))" "kept h (ps_location st) fs fs'"
proof -
  have "\<exists>fs' st'. io_mapM (absorb_in port h) items ((fs, lg), st) = (((fs', lg), st'), Inr pfs) \<and> plain fs'
      \<and> ps_location st' = ps_location st \<and> objects_whole h (ps_location st) fs'
      \<and> (\<forall>item \<in> set items. filed h (ps_location st) fs' (address (off_payload item))) \<and> kept h (ps_location st) fs fs'"
    using assms
  proof (induction items arbitrary: fs st pfs)
    case Nil
    then show ?case by (auto simp: kept_refl)
  next
    case (Cons item items)
    from Cons.prems(4) obtain pf rest where p: "intended_proof item = Inr pf" "rmapM intended_proof items = Inr rest"
      "pfs = pf # rest" by (auto simp: rbind_eq_Inr)
    have lim: "int (length (off_payload item)) \<le> OBJECT_LIMIT" using Cons.prems(5) by simp
    from absorb_succeeds [OF Cons.prems(1-3) p(1) [unfolded intended_proof_def] lim] obtain fs1 st1 where
      a: "absorb port h st (off_payload item) (off_kind item) fs = (fs1, Inr (pf, st1))" "plain fs1"
      "ps_location st1 = ps_location st" "objects_whole h (ps_location st) fs1"
      "filed h (ps_location st) fs1 (address (off_payload item))" "kept h (ps_location st) fs fs1" by blast
    have one: "absorb_in port h item ((fs, lg), st) = (((fs1, lg), st1), Inr pf)"
      by (simp add: absorb_in_def a(1))
    from Cons.IH [of fs1 st1 rest] a(2-4) Cons.prems(3,5) p(2) obtain fs2 st2 where
      b: "io_mapM (absorb_in port h) items ((fs1, lg), st1) = (((fs2, lg), st2), Inr rest)" "plain fs2"
      "ps_location st2 = ps_location st" "objects_whole h (ps_location st) fs2"
      "\<forall>item \<in> set items. filed h (ps_location st) fs2 (address (off_payload item))" "kept h (ps_location st) fs1 fs2"
      by (auto simp: a(3))
    have "filed h (ps_location st) fs2 (address (off_payload item))"
      using a(5) b(6) by (simp add: kept_def address_def)
    moreover have "io_mapM (absorb_in port h) (item # items) ((fs, lg), st) = (((fs2, lg), st2), Inr pfs)"
      using one b(1) p(3) by (simp add: io_bind_def)
    ultimately show ?case using b kept_trans [OF a(6) b(6)] by auto
  qed
  with that show ?thesis by blast
qed

text \<open>The state of a store in use: the files, the ledger and the proof store agree.\<close>

definition store_sound :: "host \<Rightarrow> 'fs store_state \<Rightarrow> sealed list \<Rightarrow> bool" where
  "store_sound h s ss \<longleftrightarrow> (case s of ((fs, lg), st) \<Rightarrow>
     chain_files h (fs, lg) ss \<and> ps_location st = lg_location lg \<and> well_placed h (lg_location lg)
   \<and> objects_whole h (lg_location lg) fs
   \<and> signer_at port h (lg_location lg) fs = (fs, Inr (Some (lg_signer lg)))
   \<and> (\<exists>kp. key_path h (lg_location lg) = Inr kp \<and> content fs kp \<noteq> None)
   \<and> (\<forall>x \<in> set ss. citable h (lg_location lg) fs x))"

lemma io_choice:
  "(if c then io_raise e s else io_return v s) = (s, r) \<Longrightarrow> (if c then io_raise e s' else io_return v s') = (s', r)"
  by (cases c) simp_all

lemma signer_at_kept:
  assumes "plain fs" "plain fs'" "key_path h loc = Inr kp" "content fs kp = Some b" "content fs' kp = Some b"
    and "signer_at port h loc fs = (fs, r)"
  shows "signer_at port h loc fs' = (fs', r)"
proof -
  have "fp_exists port kp fs = (fs, Inr True)" "fp_exists port kp fs' = (fs', Inr True)"
    using exists_spec [OF assms(1), of kp] exists_spec [OF assms(2), of kp] assms(4,5) by simp_all
  moreover have "fp_read_bytes port kp KEY_LIMIT fs = (fs, Inr (take (nat KEY_LIMIT) b))"
    "fp_read_bytes port kp KEY_LIMIT fs' = (fs', Inr (take (nat KEY_LIMIT) b))"
    using read_spec [OF assms(1) _ assms(4), of KEY_LIMIT] read_spec [OF assms(2) _ assms(5), of KEY_LIMIT]
    by (simp_all add: KEY_LIMIT_def)
  ultimately show ?thesis
    using assms(3,6)
    by (simp add: signer_at_def io_bind_def Let_def if_distrib [where f = "\<lambda>f. f _"] split del: if_split)
      (erule io_choice)
qed

lemma append_exists_elsewhere:
  assumes "plain fs" "chain_path h (lg_location lg) = Inr cp" "head_path h (lg_location lg) = Inr hp"
    and "append_entry port h ev stamp (fs, lg) = ((fs', lg'), Inr s)"
    and "q \<notin> {cp, hp}" "\<not> starts_with (safe_path_str cp) (safe_path_str q @ ''/'')"
      "\<not> starts_with (safe_path_str hp) (safe_path_str q @ ''/'')" "fp_exists port q fs' = (fs', Inr there)"
  shows "fp_exists port q fs = (fs, Inr there)"
proof -
  let ?s = "seal_next lg ev stamp"
  from assms(4) have env: "ev_environment ev \<noteq> SIMULATED"
    by (auto simp: append_entry_def io_lift_bind_Inr require_attestable_Inr)
  from append_spec [OF assms(1), of cp "sealed_line ?s" RECORD_MODE] obtain fs1 where
    a: "fp_append_line port cp (sealed_line ?s) RECORD_MODE fs = (fs1, Inr ())" "plain fs1" by blast
  from write_spec [OF a(2), of hp "canonical (head_document (head_at ?s))" RECORD_MODE] obtain fs2 where
    w: "fp_write_atomic port hp (canonical (head_document (head_at ?s))) RECORD_MODE fs1
        = (fs2, Inr (digest_bytes (canonical (head_document (head_at ?s)))))" by blast
  have "require_attestable (ev_environment ev) None = Inr (ev_environment ev)"
    using env by (simp add: require_attestable_Inr)
  with a(1) w(1) assms(2-4) have fs': "fs' = fs2"
    by (simp add: append_entry_def io_bind_def)
  from exists_pure [OF assms(1), of q] obtain b where b: "fp_exists port q fs = (fs, Inr b)" ..
  have "q \<noteq> cp" "q \<noteq> hp" using assms(5) by auto
  from write_exists [OF a(2) w this(2) assms(7) append_exists [OF assms(1) a(1) this(1) assms(6) b]] assms(8) b
  show ?thesis by (simp add: fs')
qed

lemma mint_keeps_sound:
  assumes "store_sound h ((fs, lg), st) ss"
    and "may_mint cat check v items witnessed = Inr intended"
    and "dotted_name_ok check" "digest_ok candidate" "list_all is_ascii stamp"
    and "\<forall>item \<in> set items. int (length (off_payload item)) \<le> OBJECT_LIMIT"
    and "set limits \<inter> LEGACY_LIMITS = {}"
    and "int (length (sealed_line (seal_next lg (minted_event check v items candidate witnessed limits) stamp))) \<le> LINE_LIMIT"
  obtains fs' lg' st' where
    "mint port h cat stamp check v items candidate witnessed limits ((fs, lg), st) =
       (((fs', lg'), st'),
        Inr \<lparr>mt_sealed = seal_next lg (minted_event check v items candidate witnessed limits) stamp, mt_proofs = intended\<rparr>)"
    "store_sound h ((fs', lg'), st') (ss @ [seal_next lg (minted_event check v items candidate witnessed limits) stamp])"
    "lg_location lg' = lg_location lg" "lg_signer lg' = lg_signer lg"
proof -
  let ?ev = "minted_event check v items candidate witnessed limits" and ?loc = "lg_location lg"
  let ?s = "seal_next lg ?ev stamp"
  from assms(1) have st: "chain_files h (fs, lg) ss" "ps_location st = ?loc" "well_placed h ?loc"
    "objects_whole h ?loc fs" "signer_at port h ?loc fs = (fs, Inr (Some (lg_signer lg)))"
    "\<forall>x \<in> set ss. citable h ?loc fs x"
    by (simp_all add: store_sound_def)
  have pl: "plain fs" using st(1) by (simp add: chain_files_def)
  from assms(2) have intended: "rmapM intended_proof items = Inr intended"
    by (auto simp: may_mint_def intended_proofs_def rbind_eq_Inr split: if_splits)
  note may = may_mint_Inr [OF assms(2)]
  then have env: "ev_environment ?ev \<noteq> SIMULATED" by (auto simp: minted_event_def)
  from absorbs_succeed [OF pl _ _ intended assms(6), of h st lg] st(2-4) obtain fs1 st1 where
    a: "io_mapM (absorb_in port h) items ((fs, lg), st) = (((fs1, lg), st1), Inr intended)" "plain fs1"
    "ps_location st1 = ?loc" "objects_whole h ?loc fs1"
    "\<forall>item \<in> set items. filed h ?loc fs1 (address (off_payload item))" "kept h ?loc fs fs1"
    by auto
  from st(3) obtain cp hp kp where w: "chain_path h ?loc = Inr cp" "head_path h ?loc = Inr hp"
    "key_path h ?loc = Inr kp" "distinct [cp, hp, kp]"
    "\<And>d. digest_ok d \<Longrightarrow> \<exists>t. object_path h ?loc d = Inr t \<and> t \<notin> {cp, hp, kp}
       \<and> \<not> starts_with (safe_path_str cp) (safe_path_str t @ ''/'')
       \<and> \<not> starts_with (safe_path_str hp) (safe_path_str t @ ''/'')"
    by (rule well_placed_paths) blast
  from append_runs [OF a(2) w(1,2) env, of stamp] obtain fs2 where
    b: "append_entry port h ?ev stamp (fs1, lg) = ((fs2, lg\<lparr>lg_head := head_at ?s\<rparr>), Inr ?s)" "plain fs2"
    "content fs2 = (content fs1)(cp \<mapsto> appended (content fs1 cp) (sealed_line ?s), hp \<mapsto> canonical (head_document (head_at ?s)))" .
  have chain1: "chain_files h (fs1, lg) ss"
    using a(6) by (intro chain_files_elsewhere [OF st(1) a(2)]) (auto simp: kept_def)
  have "event_ok ?ev"
    using assms(3,4) by (auto simp: event_ok_def minted_event_def list_all_iff address_def)
  note chain2 = append_files [OF chain1 b(1) this assms(5,8)]
  have filed2: "filed h ?loc fs2 d" if d: "digest_ok d" "filed h ?loc fs1 d" for d
  proof -
    from w(5) [OF d(1)] obtain t where "object_path h ?loc d = Inr t" "t \<notin> {cp, hp, kp}" by blast
    with d(2) b(3) show ?thesis by (simp add: filed_def)
  qed
  have whole: "objects_whole h ?loc fs2"
    unfolding objects_whole_def
  proof (intro allI impI)
    fix d t assume d: "digest_ok d" "object_path h ?loc d = Inr t" "fp_exists port t fs2 = (fs2, Inr True)"
    from w(5) [OF d(1)] d(2) have t: "t \<notin> {cp, hp, kp}" "\<not> starts_with (safe_path_str cp) (safe_path_str t @ ''/'')"
      "\<not> starts_with (safe_path_str hp) (safe_path_str t @ ''/'')" by auto
    then have "fp_exists port t fs1 = (fs1, Inr True)"
      using append_exists_elsewhere [OF a(2) w(1,2) b(1), of t] d(3) by simp
    with a(4) d(1,2) have "filed h ?loc fs1 d" unfolding objects_whole_def by blast
    with filed2 d(1) show "filed h ?loc fs2 d" by blast
  qed
  obtain key where key: "content fs kp = Some key" using assms(1) w(3) by (auto simp: store_sound_def)
  moreover have "content fs2 kp = content fs kp"
    using a(6) w(3,4) b(3) by (auto simp: kept_def)
  ultimately have signer: "signer_at port h ?loc fs2 = (fs2, Inr (Some (lg_signer lg)))" "content fs2 kp = Some key"
    using signer_at_kept [OF pl b(2) w(3) key _ st(5)] by auto
  have old: "citable h ?loc fs2 x" if x: "x \<in> set ss" for x
  proof -
    have "sealed_fits x" using chain1 x by (auto simp: chain_files_def list_all_iff)
    then have "\<forall>d \<in> set (ev_proofs (en_event (sl_entry x))). digest_ok d"
      by (auto simp: sealed_fits_def sealed_ok_def entry_ok_def event_ok_def list_all_iff)
    with st(6) x a(6) filed2 show ?thesis by (auto simp: citable_def kept_def)
  qed
  have new: "citable h ?loc fs2 ?s"
    using a(5) filed2 assms(7) by (auto simp: citable_def seal_next_def Let_def minted_event_def address_def)
  have d: "map proof_digest intended = map (address \<circ> off_payload) items"
    using may by blast
  show thesis
  proof (rule that [of fs2 "lg\<lparr>lg_head := head_at ?s\<rparr>" st1])
    show "mint port h cat stamp check v items candidate witnessed limits ((fs, lg), st) =
        (((fs2, lg\<lparr>lg_head := head_at ?s\<rparr>), st1), Inr \<lparr>mt_sealed = ?s, mt_proofs = intended\<rparr>)"
      using b(1) by (simp add: mint_allowed [OF assms(2)] io_bind_def a(1) d minted_event_def)
    show "store_sound h ((fs2, lg\<lparr>lg_head := head_at ?s\<rparr>), st1) (ss @ [?s])"
      using chain2(1) a(3) st(3) whole signer w(3) old new by (auto simp: store_sound_def)
  qed simp_all
qed

text \<open>What the reader of the second version then states for the check that was minted last.\<close>

lemma sound_reads:
  assumes "store_sound h ((fs, lg), st) ss" "ss \<noteq> []"
    and "int (length (concat (map (\<lambda>s. sealed_line s @ [CHR 0x0A]) ss))) \<le> CHAIN_LIMIT"
  shows "v2_chain port h (lg_location lg) fs =
    (fs, Inr (map (entry_attestation True) (map snd (latest_entries (map as_stored ss))), []))"
  using assms by (intro v2_chain_reads) (auto simp: store_sound_def chain_holds_def)

end

end
