(* ===== verification/JsonBound.thy ===== *)
theory JsonBound
  imports JsonProps
begin

section \<open>How long a canonical rendering is\<close>

text \<open>
  An upper bound computed on the document: twelve characters at most for one of a text, its
  quotes, and the separators. Sorting the members of objects does not change it.
\<close>

fun weight :: "json \<Rightarrow> nat"
and items_weight :: "json list \<Rightarrow> nat"
and members_weight :: "(str \<times> json) list \<Rightarrow> nat" where
  "weight JNull = 4"
| "weight (JBool b) = 5"
| "weight (JInt i) = length (str_of_int i)"
| "weight (JFloat f) = length (render_float f)"
| "weight (JStr s) = 2 + 12 * length s"
| "weight (JList js) = 2 + items_weight js"
| "weight (JObj kvs) = 2 + members_weight kvs"
| "items_weight [] = 0"
| "items_weight (j # js) = 1 + weight j + items_weight js"
| "members_weight [] = 0"
| "members_weight ((k, v) # kvs) = 4 + 12 * length k + weight v + members_weight kvs"

lemma members_weight_sum: "members_weight kvs = sum_list (map (\<lambda>(k, v). 4 + 12 * length k + weight v) kvs)"
  by (induction kvs) auto

lemma members_weight_sort: "members_weight (sort_key f kvs) = members_weight kvs"
  unfolding members_weight_sum sum_mset_sum_list [symmetric] by (simp del: sum_mset_sum_list)

lemma weight_sort:
  "weight (sort_json j) = weight j"
  "items_weight (sort_items js) = items_weight js"
  "members_weight (sort_members kvs) = members_weight kvs"
  by (induction j and js and kvs rule: sort_json_sort_items_sort_members.induct)
    (simp_all add: members_weight_sort)

lemma escape_code_length: "length (escape_code n) \<le> 12"
  by (simp add: escape_code_def hex4_def Let_def)

lemma concat_length: "(\<And>x. length (f x) \<le> m) \<Longrightarrow> length (concat (map f xs)) \<le> m * length xs"
  by (induction xs) (auto simp: add_mono)

lemma render_string_length: "list_all is_ascii s \<Longrightarrow> length (render_string s) \<le> 2 + 12 * length s"
  using concat_length [of escape_code 12 "utf8_decode s"] escape_code_length
  by (simp add: render_string_def utf8_decode_ascii)

lemma render_length:
  "plain_json j \<Longrightarrow> length (render j) \<le> weight j"
  "plain_items js \<Longrightarrow> length (render_items js) \<le> items_weight js"
  "plain_members kvs \<Longrightarrow> length (render_members kvs) \<le> members_weight kvs"
proof (induction j and js and kvs rule: render_render_items_render_members.induct)
  case (5 s)
  then show ?case using render_string_length [of s] by simp
next
  case (12 k v)
  then show ?case using render_string_length [of k] by simp
next
  case (13 k v kv kvs)
  then show ?case using render_string_length [of k] by simp
qed auto

lemma canonical_length: "plain_json j \<Longrightarrow> length (canonical j) \<le> weight j"
  using render_length(1) [of "sort_json j"] by (simp add: canonical_def weight_sort plain_sort_json)

end
