(* ===== verification/ReadinessTheorems.thy ===== *)
theory ReadinessTheorems
  imports StoreProps
begin

section \<open>Properties of readiness, of reading and of minting\<close>

text \<open>
  What the fold over a store decides and what may be written into a store, stated over the
  definitions of the components that decide it, each with a concrete instance.
\<close>

subsection \<open>Concrete values the instances use\<close>

definition ex_digest :: digest where "ex_digest = Digest (replicate 64 CHR ''a'')"
definition ex_check :: check_id where "ex_check = DottedName ''build.boots''"

definition ex_required :: "(str, environment_kind) dict" where
  "ex_required = [(''build.boots'', VM)]"

definition ex_record :: resolved_record where
  "ex_record = \<lparr>rr_check = ex_check, rr_verdict = Passed, rr_environment = VM,
     rr_candidate = ex_digest, rr_proofs_intact = True, rr_proof_count = 1, rr_imported = False\<rparr>"

definition ex_imported :: attestation where
  "ex_imported = \<lparr>at_kind = IMPORTED, at_resolved = ex_record\<lparr>rr_imported := True\<rparr>,
     at_limits = LEGACY_LIMITS, at_origin = ''build.boots.json''\<rparr>"

lemma ex_required_distinct: "distinct (map fst ex_required)"
  by (simp add: ex_required_def)

lemma ex_digest_ok: "digest_ok ex_digest"
  by (simp add: ex_digest_def digest_ok_def HEX_64_iff is_hex_def list_all_iff less_eq_char_def)

subsection \<open>The decision\<close>

text \<open>C1. A candidate is ready exactly when a candidate is given, the catalogue is not empty, every
  check of it has one record and there is no other record, and every record cites that candidate,
  passed in the environment the check requires with proofs that are there and unaltered, and was
  not imported.\<close>

theorem ready_iff_every_check_earned:
  "distinct (map fst required) \<Longrightarrow>
     rd_ready (evaluate required records candidate) \<longleftrightarrow>
     (\<exists>c. candidate = Some c \<and> required \<noteq> []
        \<and> distinct (map rr_name records) \<and> rr_name ` set records = fst ` set required
        \<and> (\<forall>r \<in> set records. \<exists>e. map_of required (rr_name r) = Some e \<and> earns c e r))"
  by (rule evaluate_ready_iff)

theorem ready_iff_every_check_earned_witness:
  "rd_ready (evaluate ex_required [ex_record] (Some ex_digest))
   \<and> \<not> rd_ready (evaluate ex_required [ex_record\<lparr>rr_proof_count := 0\<rparr>] (Some ex_digest))"
  using ready_iff_every_check_earned [OF ex_required_distinct, of "[ex_record]" "Some ex_digest"]
    ready_iff_every_check_earned [OF ex_required_distinct, of "[ex_record\<lparr>rr_proof_count := 0\<rparr>]" "Some ex_digest"]
  by (simp add: ex_required_def ex_record_def ex_check_def earns_def satisfies_def)

text \<open>
  C24. When no check has two records, the order in which the records are read changes neither the decision nor
  any verdict. With two records of one check the first that is read is the one that is judged, so there the
  order does matter.
\<close>

theorem readiness_order_free:
  assumes "distinct (map fst required)" "mset records = mset records'" "distinct (map rr_name records)"
  shows "rd_ready (evaluate required records candidate) = rd_ready (evaluate required records' candidate)
    \<and> rd_verdicts (evaluate required records candidate) = rd_verdicts (evaluate required records' candidate)"
  using evaluate_permuted [OF assms] by blast

definition ex_other :: resolved_record where
  "ex_other = ex_record\<lparr>rr_check := DottedName ''build.signed''\<rparr>"

theorem readiness_order_free_witness:
  "rd_verdicts (evaluate [(''build.boots'', VM), (''build.signed'', VM)]
       [ex_record, ex_other] (Some ex_digest))
   = rd_verdicts (evaluate [(''build.boots'', VM), (''build.signed'', VM)]
       [ex_other, ex_record] (Some ex_digest))"
  using readiness_order_free [of "[(''build.boots'', VM), (''build.signed'', VM)]"
      "[ex_record, ex_other]" "[ex_other, ex_record]" "Some ex_digest"]
  by (simp add: ex_record_def ex_other_def ex_check_def add_mset_commute)

text \<open>Every check of the catalogue is stated, in the catalogue's order, and each fault of a record
  states its check as blocked: a check is never stated as passed unless its first record passed
  without a fault.\<close>

theorem every_check_stated:
  assumes "distinct (map fst required)"
  shows "map fst (rd_verdicts (evaluate required records candidate)) = map fst required
    \<and> (\<forall>(n, v) \<in> set (rd_verdicts (evaluate required records candidate)). v = Passed \<longrightarrow>
         (\<exists>r \<in> set records. rr_name r = n \<and> rr_verdict r = Passed \<and> rr_proofs_intact r \<and> 0 < rr_proof_count r))"
proof -
  have p: "\<exists>r \<in> set records. rr_name r = n \<and> rr_verdict r = Passed \<and> rr_proofs_intact r \<and> 0 < rr_proof_count r"
    if pass: "fst (judged records candidate n e) = Passed" for n e
  proof -
    obtain r where r: "first_record records n = Some r"
      using pass by (cases "first_record records n") (auto simp: check_judged_def)
    then have "r \<in> set records \<and> rr_name r = n" by (auto dest: first_record_Some)
    with pass r show ?thesis by (auto simp: check_judged_def judge_def split: if_splits)
  qed
  show ?thesis
    using p by (auto simp: evaluate_closed(1) [OF assms] case_prod_unfold)
qed

theorem every_check_stated_witness:
  "map fst (rd_verdicts (evaluate ex_required [] None)) = [''build.boots'']"
  using every_check_stated [OF ex_required_distinct, of "[]" None] by (simp add: ex_required_def)

text \<open>C38. Withholding imported records never makes a candidate ready: strict readiness implies
  readiness, and then no verdict stands on an imported record and nothing is withheld.\<close>

theorem strict_ready_implies_ready:
  assumes "distinct (map fst (rd_verdicts outcome))" "rd_ready (fst (retract outcome as))"
  shows "rd_ready outcome \<and> (\<forall>(n, v) \<in> set (rd_verdicts outcome). n \<notin> set (imported_checks as))
         \<and> snd (retract outcome as) = []"
  using assms by (rule retract_ready)

theorem strict_ready_implies_ready_witness:
  "rd_ready (fst (retract (evaluate ex_required [ex_record] (Some ex_digest)) []))
   \<and> snd (retract (evaluate ex_required [ex_record] (Some ex_digest)) []) = []"
proof -
  let ?o = "evaluate ex_required [ex_record] (Some ex_digest)"
  have e: "rd_verdicts ?o = [(''build.boots'', Passed)]" "rd_ready ?o"
    by (simp_all add: evaluate_def one_record_per_known_check_def state_every_check_def seen_step_def state_step_def
        ex_required_def ex_record_def ex_check_def judge_def satisfies_def dict_has_def require_all_def
        Let_def)
  have r: "rd_ready (fst (retract ?o []))"
    by (simp add: retract_def e retract_step_def imported_checks_def require_all_def)
  have "distinct (map fst (rd_verdicts ?o))" by (simp add: e)
  from strict_ready_implies_ready [OF this r] r show ?thesis by blast
qed

text \<open>C39. Retraction only ever claims less, leaves every finding where it was, and retracting again
  withholds nothing more.\<close>

theorem retraction_narrows:
  assumes "distinct (map fst (rd_verdicts outcome))"
  shows "list_all2 (\<lambda>(n, v) (m, w). m = n \<and> (w = v \<or> v = Passed \<and> claims_less v w))
           (rd_verdicts outcome) (rd_verdicts (fst (retract outcome as)))
    \<and> rd_faults (fst (retract outcome as)) = rd_faults outcome
    \<and> snd (retract (fst (retract outcome as)) as) = []"
proof -
  have "case nv of (n, v) \<Rightarrow> \<forall>w. w = narrowed_verdict (imported_checks as) n v \<longrightarrow> w = v \<or> v = Passed \<and> claims_less v w" for nv
    using narrowed_claims(1) [of "imported_checks as"] narrowed_claims(2) [of _ "imported_checks as"]
    by (cases nv) blast
  then have "list_all2 (\<lambda>(n, v) (m, w). m = n \<and> (w = v \<or> v = Passed \<and> claims_less v w))
      (rd_verdicts outcome) (map (\<lambda>(n, v). (n, narrowed_verdict (imported_checks as) n v)) (rd_verdicts outcome))"
    by (auto simp: list_all2_conv_all_nth split: prod.splits)
  with retract_closed(1,3) [OF assms, of as] retract_again(1) [OF assms, of as] show ?thesis by simp
qed

theorem retraction_narrows_witness:
  "snd (retract (fst (retract (evaluate ex_required [ex_record] (Some ex_digest)) [ex_imported])) [ex_imported]) = []"
proof -
  have "distinct (map fst (rd_verdicts (evaluate ex_required [ex_record] (Some ex_digest))))"
    unfolding evaluate_closed(1) [OF ex_required_distinct] by (simp add: ex_required_def)
  from retraction_narrows [OF this, of "[ex_imported]"] show ?thesis by blast
qed

subsection \<open>Reading a store\<close>

definition ex_host :: host where
  "ex_host = \<lparr>host_expand = id, host_resolve = id, host_is_symlink = (\<lambda>p. False),
     host_is_dir = (\<lambda>p. p = ''/r'' \<or> p = ''/r/evidence''), host_is_file = (\<lambda>p. p = ''/r/evidence/a.json''),
     host_mode = (\<lambda>p. 448)\<rparr>"

definition ex_disk :: disk where
  "ex_disk = \<lparr>disk_host = ex_host, disk_exists = (\<lambda>p. False),
     disk_bytes = (\<lambda>p. ''{}''), disk_names = (\<lambda>p. [''a.json''])\<rparr>"

text \<open>A mark that is absent elects the first reader, a mark of version one or two the reader of
  that version, a later version is a precondition that does not hold, and a mark that cannot be
  read is refused, never taken for an absent one.\<close>

theorem election:
  "elect port mark =
     (case mark of
        Unmarked \<Rightarrow> Inr V1_SPEC
      | Unreadable \<Rightarrow> Inl (Refusal MALFORMED_STORE_MARK)
      | Marked v \<Rightarrow> if v = 1 then Inr V1_SPEC else if v = 2 then Inr (V2_SPEC port)
                    else Inl (PreconditionUnmet STORE_VERSION_NOT_SUPPORTED))"
  by (cases mark) (simp_all add: elect_closed)

text \<open>What the reader of the first version reads can never make a candidate ready, whatever the
  documents on disk say.\<close>

theorem legacy_store_never_ready:
  assumes "v1_read d base V1_CLAIMS = Inr rd" "distinct (map fst required)"
  shows "\<not> rd_ready (evaluate required (reading_records rd) candidate)"
  using assms by (rule v1_never_ready)

lemma ex_disk_reads: "\<exists>rd. v1_read ex_disk ''/r'' V1_CLAIMS = Inr rd"
  by (rule v1_read_total)
    (simp_all add: ex_disk_def ex_host_def CANDIDATE_NAME_def path_join_def starts_with_def ends_with_def
      json_names_def suffix_def prefix_def is_ascii_def byte_of_def utf8_ok_ascii)

theorem legacy_store_never_ready_witness:
  "\<exists>rd. v1_read ex_disk ''/r'' V1_CLAIMS = Inr rd
      \<and> \<not> rd_ready (evaluate ex_required (reading_records rd) (Some ex_digest))"
  using ex_disk_reads legacy_store_never_ready [OF _ ex_required_distinct] by blast

text \<open>A damaged evidence document costs the reader of the first version that document alone: as
  long as the documents are UTF-8 and the candidate document, if there is one, can be read, the
  reading succeeds.\<close>

theorem legacy_reading_total:
  assumes "\<And>name. name \<in> set (json_names d (path_join base EVIDENCE_DIRECTORY)) \<Longrightarrow>
             utf8_ok True (disk_bytes d (path_join (path_join base EVIDENCE_DIRECTORY) name))"
    and "\<not> host_is_file (disk_host d) (path_join base CANDIDATE_NAME)
         \<or> (\<exists>c. read_candidate (disk_bytes d (path_join base CANDIDATE_NAME)) = Inr c)"
  shows "\<exists>rd. v1_read d base V1_CLAIMS = Inr rd"
  using assms by (rule v1_read_total)

theorem legacy_reading_total_witness: "\<exists>rd. v1_read ex_disk ''/r'' V1_CLAIMS = Inr rd"
  by (rule legacy_reading_total)
    (simp_all add: ex_disk_def ex_host_def CANDIDATE_NAME_def path_join_def starts_with_def ends_with_def
      json_names_def suffix_def prefix_def is_ascii_def byte_of_def utf8_ok_ascii)

subsection \<open>Writing a result\<close>

text \<open>C6. A result that is refused leaves the files, the chain and the proof store untouched: every
  refusal comes before the first write.\<close>

theorem refused_mint_writes_nothing:
  assumes "may_mint cat check v items witnessed = Inl e"
  shows "mint port h cat stamp check v items candidate witnessed limits s = (s, Inl e)"
  using assms by (rule mint_refused)

definition ex_spec :: check_spec where
  "ex_spec = \<lparr>spec_id = ex_check, spec_group = ''build'', spec_environment = VM, spec_summary = ''boots'',
     spec_accepted_proof_kinds = [''.log''], spec_scope_limits = [], spec_sourced_from = []\<rparr>"

definition ex_catalogue :: "check_spec sealed_registry" where
  "ex_catalogue = \<lparr>sealed_kind = ''check'', sealed_entries = [(''build.boots'', ex_spec)], sealed_origins = []\<rparr>"

lemmas ex_catalogue_defs = ex_catalogue_def ex_spec_def ex_check_def

lemmas ex_mint_defs = may_mint_def known_specification_def sealed_contains_def dict_has_def ex_catalogue_defs
  check_specification_def sealed_lookup_def require_environment_def HARDWARE_GROUP_def require_attestable_def
  ATTESTABLE_def environment_kinds_def intended_proofs_def require_proof_for_pass_def

theorem refused_mint_writes_nothing_witness:
  "\<forall>lg st. mint memory_port ex_host ex_catalogue ''t'' ex_check Passed [] ex_digest VM [] ((memory_new None, lg), st)
     = (((memory_new None, lg), st), Inl (Refusal PASS_REQUIRES_PROOF))"
  by (intro allI refused_mint_writes_nothing) (simp add: ex_mint_defs)

text \<open>
  C5. What is recorded is what was asked for, and was allowed. When minting succeeds, on any files, the last
  that was written is the line of one entry at the end of the chain and the head that names it; the entry is
  the next one after the ledger's head, and its event records this check, this verdict, this environment,
  candidate and scope limits, and as proofs the digests of exactly the offered bytes. The check is in
  the catalogue; the environment is the one it requires, on the laptop for a hardware check and never a
  simulation; each proof is of an accepted kind and not empty; and a pass has a proof.
\<close>

theorem minted_was_allowed:
  assumes "mint port h cat stamp check v items candidate witnessed limits ((fs, lg), st) = (((fs', lg'), st'), Inr m)"
  shows "mt_sealed m = seal_next lg
       \<lparr>ev_kind = RECORDED, ev_check = check, ev_verdict = v, ev_environment = witnessed, ev_candidate = candidate,
        ev_proofs = map (address \<circ> off_payload) items, ev_scope_limits = limits\<rparr> stamp
   \<and> (\<exists>chain head_file fs1 fs2 d.
        chain_path h (lg_location lg) = Inr chain \<and> head_path h (lg_location lg) = Inr head_file
      \<and> fp_append_line port chain (sealed_line (mt_sealed m)) RECORD_MODE fs1 = (fs2, Inr ())
      \<and> fp_write_atomic port head_file (canonical (head_document (head_at (mt_sealed m)))) RECORD_MODE fs2 = (fs', Inr d))
   \<and> lg' = lg\<lparr>lg_head := head_at (mt_sealed m)\<rparr>
   \<and> (\<exists>spec. sealed_lookup cat (name_value check) = Inr spec
       \<and> witnessed = spec_environment spec \<and> witnessed \<noteq> SIMULATED
       \<and> (spec_group spec = HARDWARE_GROUP \<longrightarrow> witnessed = PHYSICAL)
       \<and> (\<forall>item \<in> set items. off_kind item \<in> set (spec_accepted_proof_kinds spec) \<and> off_payload item \<noteq> [])
       \<and> (v = Passed \<longrightarrow> items \<noteq> [])
       \<and> map proof_digest (mt_proofs m) = map (address \<circ> off_payload) items)"
proof -
  obtain intended where may: "may_mint cat check v items witnessed = Inr intended"
    using assms by (cases "may_mint cat check v items witnessed") (simp_all add: mint_refused)
  note wrote = mint_wrote [OF assms may] and allowed = may_mint_Inr [OF may]
  from allowed have digests: "map proof_digest intended = map (address \<circ> off_payload) items" by blast
  show ?thesis
    using wrote(2,4) unfolding digests wrote_entry_def
    by (intro conjI wrote(3)) (blast, blast, use allowed wrote(1) in blast)
qed

end
