(* ===== verification/StoreTheorems.thy ===== *)
theory StoreTheorems
  imports StoreCycle JsonBound ReadinessTheorems
begin

section \<open>Properties of the evidence store\<close>

text \<open>
  The chain as an append-only list of sealed entries, the objects it cites and the cycle from
  minting a result to reading it, over the in-memory tree. The instances mint into a store that
  holds a key and nothing else.
\<close>

subsection \<open>A concrete store\<close>

definition ex_location :: store_location where
  "ex_location = \<lparr>loc_root = RuntimeRoot ''/r'', loc_area = ''attestation''\<rparr>"

definition ex_signer :: chain_signer where
  "ex_signer = ChainSigner (Secret (replicate 64 CHR ''b''))"

definition ex_ledger :: ledger where
  "ex_ledger = \<lparr>lg_location = ex_location, lg_signer = ex_signer, lg_head = EMPTY\<rparr>"

definition ex_files :: memory_files where
  "ex_files = (memory_new None)\<lparr>mf_files :=
     [(''/r/attestation/ledger/key'', \<lparr>stored_payload = replicate 64 CHR ''b'', stored_mode = FileMode 384\<rparr>)]\<rparr>"

definition ex_state :: "memory_files store_state" where
  "ex_state = ((ex_files, ex_ledger), proof_store_new ex_location)"

lemma ex_well_placed: "well_placed ex_host ex_location"
  by (rule plain_host_places [where r = "''r''"]) (simp_all add: ex_host_def ex_location_def)

lemma ex_paths:
  "chain_path ex_host ex_location = Inr (SafePath ''/r/attestation/ledger/chain.jsonl'')"
  "head_path ex_host ex_location = Inr (SafePath ''/r/attestation/ledger/head.json'')"
  "key_path ex_host ex_location = Inr (SafePath ''/r/attestation/ledger/key'')"
  by (simp_all add: chain_path_def head_path_def key_path_def LEDGER_DIRECTORY_def CHAIN_NAME_def HEAD_NAME_def
      KEY_NAME_def ex_location_def root_child_def path_join_def starts_with_def ends_with_def suffix_def
      prefix_def is_relative_to_def mk_safe_path_def OPTION_SEPARATOR_def ex_host_def Let_def append_eq_Cons_conv)

lemma ex_object_path:
  assumes "object_path ex_host ex_location d = Inr t"
  shows "\<exists>x. safe_path_str t = ''/r/attestation/objects/'' @ x"
  using assms
  by (auto simp: object_path_def root_child_def path_join_def starts_with_def ends_with_def suffix_def ex_location_def
      ex_host_def OBJECT_DIRECTORY_def mk_safe_path_def Let_def append_eq_Cons_conv split: if_splits)

lemma ex_plain: "memory_plain ex_files"
  by (simp add: memory_plain_def ex_files_def memory_new_def)

lemma memory_missing: "\<not> memory_has fs (safe_path_str p) \<Longrightarrow> fp_exists memory_port p fs = (fs, Inr False)"
  by (simp add: memory_port_def memory_exists_def)

lemma ex_no_object:
  assumes "object_path ex_host ex_location d = Inr t"
  shows "fp_exists memory_port t ex_files = (ex_files, Inr False)"
proof -
  obtain x where "safe_path_str t = ''/r/attestation/objects/'' @ x" using ex_object_path [OF assms] by blast
  then show ?thesis
    by (intro memory_missing)
      (simp add: memory_has_def memory_canonical_plain [OF ex_plain],
        simp add: ex_files_def memory_new_def dict_has_def starts_with_def prefix_def)
qed

lemma ex_whole: "mem.objects_whole ex_host ex_location ex_files"
  unfolding mem.objects_whole_def using ex_no_object by simp

lemma ex_key: "signer_at memory_port ex_host ex_location ex_files = (ex_files, Inr (Some ex_signer))"
proof -
  let ?key = "replicate 64 CHR ''b''"
  have "memory_content ex_files (SafePath ''/r/attestation/ledger/key'') = Some ?key"
    by (simp add: memory_content_def ex_files_def)
  then have "fp_exists memory_port (SafePath ''/r/attestation/ledger/key'') ex_files = (ex_files, Inr True)"
    "fp_read_bytes memory_port (SafePath ''/r/attestation/ledger/key'') KEY_LIMIT ex_files = (ex_files, Inr ?key)"
    using mem.exists_spec [OF ex_plain] mem.read_whole [OF ex_plain, of _ ?key KEY_LIMIT]
    by (simp_all add: KEY_LIMIT_def)
  moreover have "strip ?key = ?key" by (rule strip_with_id) (simp_all add: is_space_def)
  ultimately show ?thesis
    by (simp add: signer_at_def ex_paths io_bind_def Let_def KEY_HEX_def list_ex_iff ex_signer_def)
qed

lemma ex_sound: "mem.store_sound ex_host ex_state []"
proof -
  have "memory_content ex_files (SafePath ''/r/attestation/ledger/chain.jsonl'') = None"
    "memory_content ex_files (SafePath ''/r/attestation/ledger/head.json'') = None"
    by (simp_all add: memory_content_def ex_files_def)
  then have "mem.chain_files ex_host (ex_files, ex_ledger) []"
    by (simp add: mem.chain_files_def ex_plain ex_ledger_def head_of_def ex_paths)
  moreover have "\<exists>y. memory_content ex_files (SafePath ''/r/attestation/ledger/key'') = Some y"
    by (simp add: memory_content_def ex_files_def)
  ultimately show ?thesis
    using ex_well_placed ex_whole ex_key
    by (simp add: mem.store_sound_def ex_state_def proof_store_new_def ex_ledger_def ex_paths)
qed

definition ex_item :: offered where
  "ex_item = \<lparr>off_payload = ''booted'', off_kind = ''.log''\<rparr>"

definition ex_event :: event where
  "ex_event = minted_event ex_check Passed [ex_item] ex_digest VM []"

definition ex_sealed :: sealed where
  "ex_sealed = seal_next ex_ledger ex_event ''2026-01-01T00:00:00Z''"

lemma ex_check_ok: "dotted_name_ok ex_check"
  by (simp add: ex_check_def dotted_name_ok_def) code_simp

lemma ex_event_ok: "event_ok ex_event"
  using ex_check_ok ex_digest_ok by (simp add: event_ok_def ex_event_def minted_event_def address_def)

lemma ex_sealed_ok: "sealed_ok ex_sealed"
  using ex_event_ok
  by (simp add: sealed_ok_def entry_ok_def ex_sealed_def seal_next_def Let_def sign_ascii link_after_def is_ascii_def byte_of_def)

lemma sign_length: "length (sign g link) = 64"
  by (simp add: sign_def reveal_into_def hmac_accept_def length_hmac_hex)

lemma ex_line_fits: "int (length (sealed_line ex_sealed)) \<le> LINE_LIMIT"
proof -
  have "length (sealed_line ex_sealed) \<le> weight (sealed_document ex_sealed)"
    unfolding sealed_line_def by (rule canonical_length [OF plain_sealed [OF ex_sealed_ok]])
  also have "weight (sealed_document ex_sealed) \<le> 10000"
    using digest_bytes_ok sign_length ex_digest_ok
    by (simp add: sealed_document_def entry_document_def entry_fields_def ex_sealed_def seal_next_def Let_def
        ex_event_def minted_event_def ex_ledger_def EMPTY_def BEFORE_FIRST_def ex_check_def link_after_def
        address_def digest_ok_def ex_item_def str_of_int_def str_of_nat_0)
  finally show ?thesis by (simp add: LINE_LIMIT_def)
qed

lemma ex_may: "\<exists>intended. may_mint ex_catalogue ex_check Passed [ex_item] VM = Inr intended"
  by (simp add: ex_mint_defs ex_item_def intended_proof_def mk_proof_def PERMITTED_PROOF_KINDS_def)

subsection \<open>Minting and reading\<close>

text \<open>
  C4. A request that passes the refusals and keeps within the limits is filed. Over a sound store, for a well
  formed check name and candidate digest, an ASCII stamp, proofs of at most 64 MiB each, scope limits that are none
  of the legacy ones and a sealed line within the line limit, minting succeeds, appends exactly the
  sealed event to the chain and leaves the store sound, every object whole, the key readable and everything
  cited before still citable. The limit on proofs is a condition of this theorem, not a refusal of the code: a longer
  proof is filed too, and cannot be read whole afterwards.
\<close>

theorem mint_files_the_result:
  assumes "mem.store_sound h ((fs, lg), st) ss"
    and "may_mint cat check v items witnessed = Inr intended"
    and "dotted_name_ok check" "digest_ok candidate" "list_all is_ascii stamp"
    and "\<forall>item \<in> set items. int (length (off_payload item)) \<le> OBJECT_LIMIT"
    and "set limits \<inter> LEGACY_LIMITS = {}"
    and "int (length (sealed_line (seal_next lg (minted_event check v items candidate witnessed limits) stamp))) \<le> LINE_LIMIT"
  shows "\<exists>fs' lg' st'.
    mint memory_port h cat stamp check v items candidate witnessed limits ((fs, lg), st) =
       (((fs', lg'), st'),
        Inr \<lparr>mt_sealed = seal_next lg (minted_event check v items candidate witnessed limits) stamp, mt_proofs = intended\<rparr>)
    \<and> mem.store_sound h ((fs', lg'), st') (ss @ [seal_next lg (minted_event check v items candidate witnessed limits) stamp])"
  using mem.mint_keeps_sound [OF assms] by metis

lemma ex_stamp_ascii: "list_all is_ascii ''2026-01-01T00:00:00Z''"
  by (simp add: is_ascii_def byte_of_def)

lemma ex_fits:
  "int (length (sealed_line (seal_next ex_ledger (minted_event ex_check Passed [ex_item] ex_digest VM []) ''2026-01-01T00:00:00Z'')))
     \<le> LINE_LIMIT"
  using ex_line_fits by (simp add: ex_sealed_def ex_event_def)

theorem mint_files_the_result_witness:
  "\<exists>s' m. mint memory_port ex_host ex_catalogue ''2026-01-01T00:00:00Z'' ex_check Passed [ex_item] ex_digest VM [] ex_state
            = (s', Inr m)
        \<and> mem.store_sound ex_host s' [ex_sealed]"
proof -
  obtain intended where may: "may_mint ex_catalogue ex_check Passed [ex_item] VM = Inr intended" using ex_may by blast
  have "\<forall>item \<in> set [ex_item]. int (length (off_payload item)) \<le> OBJECT_LIMIT" "set [] \<inter> LEGACY_LIMITS = {}"
    by (simp_all add: ex_item_def OBJECT_LIMIT_def)
  from mint_files_the_result [OF ex_sound [unfolded ex_state_def] may ex_check_ok ex_digest_ok ex_stamp_ascii this ex_fits]
  show ?thesis by (auto simp: ex_state_def ex_sealed_def ex_event_def)
qed

text \<open>
  C2. What is minted is what is read, within the limits of the reader: for a request that passes the refusals, with
  a well formed check name and candidate digest, an ASCII stamp, proofs of at most 64 MiB each, scope limits that
  are none of the legacy ones, a sealed line within the line limit and a chain within the chain limit, the
  reader of the second version reports no fault afterwards and states, for that check and exactly once, the verdict
  as it is read back for the candidate in the environment that witnessed it, with its proofs intact and not
  imported. A proof of more than 64 MiB is filed and then read as damaged.
\<close>

theorem minted_result_is_read:
  assumes "mem.store_sound h ((fs, lg), st) ss"
    and "may_mint cat check v items witnessed = Inr intended"
    and "dotted_name_ok check" "digest_ok candidate" "list_all is_ascii stamp"
    and "\<forall>item \<in> set items. int (length (off_payload item)) \<le> OBJECT_LIMIT"
    and "set limits \<inter> LEGACY_LIMITS = {}"
    and "int (length (sealed_line (seal_next lg (minted_event check v items candidate witnessed limits) stamp))) \<le> LINE_LIMIT"
    and "int (length (concat (map (\<lambda>s. sealed_line s @ [CHR 0x0A])
           (ss @ [seal_next lg (minted_event check v items candidate witnessed limits) stamp])))) \<le> CHAIN_LIMIT"
  shows "\<exists>fs' lg' st' m as.
    mint memory_port h cat stamp check v items candidate witnessed limits ((fs, lg), st) = (((fs', lg'), st'), Inr m)
    \<and> v2_chain memory_port h (lg_location lg) fs' = (fs', Inr (as, []))
    \<and> map at_resolved (filter (\<lambda>a. at_check a = name_value check) as) =
        [\<lparr>rr_check = check, rr_verdict = reread v, rr_environment = witnessed, rr_candidate = candidate,
          rr_proofs_intact = True, rr_proof_count = length items, rr_imported = False\<rparr>]"
proof -
  let ?s = "seal_next lg (minted_event check v items candidate witnessed limits) stamp"
  from mem.mint_keeps_sound [OF assms(1-8)] obtain fs' lg' st' where
    m: "mint memory_port h cat stamp check v items candidate witnessed limits ((fs, lg), st) =
          (((fs', lg'), st'), Inr \<lparr>mt_sealed = ?s, mt_proofs = intended\<rparr>)"
      "mem.store_sound h ((fs', lg'), st') (ss @ [?s])" "lg_location lg' = lg_location lg" by metis
  have read: "v2_chain memory_port h (lg_location lg) fs' =
      (fs', Inr (map (entry_attestation True) (map snd (latest_entries (map as_stored ss @ [as_stored ?s]))), []))"
    using mem.sound_reads [OF m(2) _ assms(9)] by (simp add: m(3))
  have check: "sealed_check (as_stored ?s) = name_value check"
    by (simp add: sealed_check_def as_stored_def seal_next_def Let_def minted_event_def)
  have "map at_resolved (filter (\<lambda>a. at_check a = name_value check)
      (map (entry_attestation True) (map snd (latest_entries (map as_stored ss @ [as_stored ?s]))))) =
    [at_resolved (entry_attestation True (as_stored ?s))]"
    using latest_of_check [of "as_stored ?s" True "map as_stored ss"] by (simp add: check)
  also have "\<dots> = [\<lparr>rr_check = check, rr_verdict = reread v, rr_environment = witnessed, rr_candidate = candidate,
          rr_proofs_intact = True, rr_proof_count = length items, rr_imported = False\<rparr>]"
    by (simp add: entry_attestation_def as_stored_def seal_next_def Let_def minted_event_def)
  finally have stated: "map at_resolved (filter (\<lambda>a. at_check a = name_value check)
      (map (entry_attestation True) (map snd (latest_entries (map as_stored ss @ [as_stored ?s]))))) =
    [\<lparr>rr_check = check, rr_verdict = reread v, rr_environment = witnessed, rr_candidate = candidate,
      rr_proofs_intact = True, rr_proof_count = length items, rr_imported = False\<rparr>]" .
  show ?thesis by (intro exI conjI, rule m(1), rule read, rule stated)
qed

lemma ex_chain_fits:
  "int (length (concat (map (\<lambda>s. sealed_line s @ [CHR 0x0A])
     ([] @ [seal_next ex_ledger (minted_event ex_check Passed [ex_item] ex_digest VM []) ''2026-01-01T00:00:00Z''])))) \<le> CHAIN_LIMIT"
  using ex_fits by (simp add: LINE_LIMIT_def CHAIN_LIMIT_def)

lemma ex_item_fits: "\<forall>item \<in> set [ex_item]. int (length (off_payload item)) \<le> OBJECT_LIMIT" "set [] \<inter> LEGACY_LIMITS = {}"
  by (simp_all add: ex_item_def OBJECT_LIMIT_def)

theorem minted_result_is_read_witness:
  "\<exists>fs' lg' st' m as.
     mint memory_port ex_host ex_catalogue ''2026-01-01T00:00:00Z'' ex_check Passed [ex_item] ex_digest VM [] ex_state
       = (((fs', lg'), st'), Inr m)
   \<and> v2_chain memory_port ex_host ex_location fs' = (fs', Inr (as, []))
   \<and> map at_resolved (filter (\<lambda>a. at_check a = ''build.boots'') as) = [ex_record]"
proof -
  obtain intended where may: "may_mint ex_catalogue ex_check Passed [ex_item] VM = Inr intended" using ex_may by blast
  from minted_result_is_read [OF ex_sound [unfolded ex_state_def] may ex_check_ok ex_digest_ok ex_stamp_ascii
      ex_item_fits ex_fits ex_chain_fits]
  show ?thesis by (simp add: ex_state_def ex_ledger_def ex_record_def ex_check_def)
qed

subsection \<open>The chain\<close>

text \<open>C11. The chain refines an append-only list: where the files and the ledger object hold a list of
  sealed entries, appending a well formed event that is not simulated, with an ASCII stamp and a sealed line
  within the line limit, succeeds and they hold the list with the event sealed at its end; what was there is unchanged and the key and the location stay.\<close>

theorem append_refines_snoc:
  assumes "mem.chain_holds h (fs, lg) ss" "event_ok ev" "list_all is_ascii stamp" "ev_environment ev \<noteq> SIMULATED"
    and "int (length (sealed_line (seal_next lg ev stamp))) \<le> LINE_LIMIT"
  shows "\<exists>fs' lg'. append_entry memory_port h ev stamp (fs, lg) = ((fs', lg'), Inr (seal_next lg ev stamp))
    \<and> mem.chain_holds h (fs', lg') (ss @ [seal_next lg ev stamp])
    \<and> en_event (sl_entry (seal_next lg ev stamp)) = ev
    \<and> lg_location lg' = lg_location lg \<and> lg_signer lg' = lg_signer lg"
proof -
  have c: "mem.chain_files h (fs, lg) ss" using assms(1) by (simp add: mem.chain_holds_def)
  then obtain cp hp where p: "memory_plain fs" "chain_path h (lg_location lg) = Inr cp" "head_path h (lg_location lg) = Inr hp"
    by (auto simp: mem.chain_files_def)
  from mem.append_runs [OF p assms(4), of stamp] obtain fs' where
    a: "append_entry memory_port h ev stamp (fs, lg) =
      ((fs', lg\<lparr>lg_head := head_at (seal_next lg ev stamp)\<rparr>), Inr (seal_next lg ev stamp))" by metis
  from mem.append_holds [OF assms(1) a assms(2,3,5)] a show ?thesis by fastforce
qed

lemma ex_holds: "mem.chain_holds ex_host (ex_files, ex_ledger) []"
proof -
  have "\<not> memory_has ex_files ''/r/attestation/ledger/chain.jsonl''" "\<not> memory_has ex_files ''/r/attestation/ledger/head.json''"
    unfolding memory_has_def Let_def memory_canonical_plain [OF ex_plain]
    by (simp_all add: ex_files_def memory_new_def dict_has_def starts_with_def prefix_def)
  then have "fp_exists memory_port (SafePath ''/r/attestation/ledger/chain.jsonl'') ex_files = (ex_files, Inr False)"
    "fp_exists memory_port (SafePath ''/r/attestation/ledger/head.json'') ex_files = (ex_files, Inr False)"
    by (simp_all add: memory_missing)
  with ex_sound show ?thesis
    by (auto simp: mem.chain_holds_def mem.store_sound_def ex_state_def ex_ledger_def ex_paths)
qed

lemma ex_event_attestable: "ev_environment ex_event \<noteq> SIMULATED"
  by (simp add: ex_event_def minted_event_def)

theorem append_refines_snoc_witness:
  "\<exists>s'. append_entry memory_port ex_host ex_event ''2026-01-01T00:00:00Z'' (ex_files, ex_ledger) = (s', Inr ex_sealed)
      \<and> mem.chain_holds ex_host s' [ex_sealed]"
  using append_refines_snoc [OF ex_holds ex_event_ok ex_stamp_ascii ex_event_attestable] ex_line_fits
  by (auto simp: ex_sealed_def)

text \<open>A simulated result is refused before the chain is touched.\<close>

theorem simulated_never_appended:
  "ev_environment ev = SIMULATED \<Longrightarrow>
     append_entry port h ev stamp s = (s, Inl (Refusal SIMULATED_ENVIRONMENT))"
  by (simp add: append_entry_def require_attestable_def ATTESTABLE_def environment_kinds_def io_bind_def)

theorem simulated_never_appended_witness:
  "append_entry memory_port ex_host (ex_event\<lparr>ev_environment := SIMULATED\<rparr>) ''t'' (ex_files, ex_ledger)
     = ((ex_files, ex_ledger), Inl (Refusal SIMULATED_ENVIRONMENT))"
  using simulated_never_appended [of "ex_event\<lparr>ev_environment := SIMULATED\<rparr>" memory_port ex_host "''t''"] by simp

text \<open>C21. A sealed entry written as a line of the chain reads back: the same event, stamp, sequence, link
  and tag, the reason of a check that was not tested apart, which is not written down.\<close>

theorem sealed_line_roundtrip:
  "sealed_ok s \<Longrightarrow> int (length (sealed_line s)) \<le> LINE_LIMIT \<Longrightarrow> parse_line (sealed_line s) = Inr (Some (as_stored s))"
  by (rule parse_sealed_line)

theorem sealed_line_roundtrip_witness: "parse_line (sealed_line ex_sealed) = Inr (Some (as_stored ex_sealed))"
  by (rule sealed_line_roundtrip [OF ex_sealed_ok ex_line_fits])

text \<open>C20. Lines dropped from the end of a chain are detected: verifying fewer lines than the head names
  reports the head as ahead of the chain, at the head's own sequence.\<close>

theorem truncation_detected:
  assumes "chained signer GENESIS 0 ss" "list_all sealed_fits ss" "k < length ss"
  shows "verify_lines signer (Some (head_of ss)) (take k (map sealed_line ss)) =
    Inr (map as_stored (take k ss),
         \<lparr>rp_entries = k, rp_first_break = Some \<lparr>bk_sequence = int (length ss) - 1, bk_cause = HEAD_AHEAD_OF_CHAIN\<rparr>\<rparr>)"
  using assms by (rule verify_truncated)

lemma ex_chained: "chained ex_signer GENESIS 0 [ex_sealed]" "list_all sealed_fits [ex_sealed]"
  using ex_sealed_ok ex_line_fits
  by (simp_all add: ex_sealed_def seal_next_def Let_def ex_ledger_def EMPTY_def BEFORE_FIRST_def sealed_fits_def)

theorem truncation_detected_witness:
  "verify_lines ex_signer (Some (head_of [ex_sealed])) [] =
     Inr ([], \<lparr>rp_entries = 0, rp_first_break = Some \<lparr>bk_sequence = 0, bk_cause = HEAD_AHEAD_OF_CHAIN\<rparr>\<rparr>)"
  using truncation_detected [OF ex_chained, of 0] by simp

text \<open>C12. A chain cannot be rewritten under a head: two chains that both verify intact against one head
  hold the same entries, unless two different messages among their links have the same digest.\<close>

theorem same_head_same_entries:
  assumes "verify_lines signer (Some x) lines = Inr (ss, r)" "report_intact r"
    and "verify_lines signer (Some x) lines' = Inr (ts, r')" "report_intact r'"
    and "\<forall>s \<in> set ss \<union> set ts. list_all is_ascii (en_stamp (sl_entry s))"
  shows "ss = ts \<or> (\<exists>i < length ss. collide (link_message ss i) (link_message ts i))"
  using assms by (rule intact_same_head)

theorem same_head_same_entries_witness:
  "\<exists>ts r. verify_lines ex_signer (Some (head_of [ex_sealed])) (map sealed_line [ex_sealed]) = Inr (ts, r)
      \<and> (ts = ts \<or> (\<exists>i < length ts. collide (link_message ts i) (link_message ts i)))"
proof -
  have v: "verify_lines ex_signer (Some (head_of [ex_sealed])) (map sealed_line [ex_sealed]) =
      Inr (map as_stored [ex_sealed], \<lparr>rp_entries = 1, rp_first_break = None\<rparr>)"
    using verify_whole [OF ex_chained] by simp
  have i: "report_intact \<lparr>rp_entries = 1, rp_first_break = None\<rparr>" by (simp add: report_intact_def)
  have "\<forall>s \<in> set (map as_stored [ex_sealed]) \<union> set (map as_stored [ex_sealed]). list_all is_ascii (en_stamp (sl_entry s))"
    using ex_stamp_ascii by (simp add: as_stored_def ex_sealed_def seal_next_def Let_def)
  from same_head_same_entries [OF v i v i this] v show ?thesis by blast
qed

subsection \<open>The objects\<close>

text \<open>C23. A load never returns altered bytes: what it returns is the whole object under the proof's
  digest and hashes to it.\<close>

theorem load_returns_the_object:
  assumes "memory_plain fs" "0 < proof_byte_count pf" "load memory_port h st pf fs = (fs', Inr payload)"
  shows "fs' = fs \<and> address payload = proof_digest pf
    \<and> (\<exists>target. object_path h (ps_location st) (proof_digest pf) = Inr target \<and> memory_content fs target = Some payload)"
  using mem.load_whole [OF assms] by metis

lemma ex_proof: "mk_proof (address ''booted'') ''.log'' (int (length ''booted'')) =
    Inr \<lparr>proof_digest = address ''booted'', proof_kind = ''.log'', proof_byte_count = 6\<rparr>"
  by (simp add: mk_proof_def PERMITTED_PROOF_KINDS_def)

theorem load_returns_the_object_witness:
  "\<exists>fs st. load memory_port ex_host st \<lparr>proof_digest = address ''booted'', proof_kind = ''.log'', proof_byte_count = 6\<rparr> fs
      = (fs, Inr ''booted'')
    \<and> (\<exists>target. object_path ex_host (ps_location st) (address ''booted'') = Inr target
          \<and> memory_content fs target = Some ''booted'')"
proof -
  let ?st = "proof_store_new ex_location"
  have a: "mem.objects_whole ex_host (ps_location ?st) ex_files" "well_placed ex_host (ps_location ?st)"
    by (simp_all add: proof_store_new_def ex_whole ex_well_placed)
  have "int (length ''booted'') \<le> OBJECT_LIMIT" by (simp add: OBJECT_LIMIT_def)
  from mem.absorb_succeeds [OF ex_plain a ex_proof this] obtain fs' st' where b:
    "absorb memory_port ex_host ?st ''booted'' ''.log'' ex_files =
       (fs', Inr (\<lparr>proof_digest = address ''booted'', proof_kind = ''.log'', proof_byte_count = 6\<rparr>, st'))"
    "memory_plain fs'" by metis
  have l: "load memory_port ex_host st' \<lparr>proof_digest = address ''booted'', proof_kind = ''.log'', proof_byte_count = 6\<rparr> fs'
      = (fs', Inr ''booted'')"
    by (rule mem.absorb_then_load [OF ex_plain b(1)]) (use ex_no_object in \<open>auto simp: proof_store_new_def\<close>)
  from load_returns_the_object [OF b(2) _ l] l show ?thesis by auto
qed

theorem minted_was_allowed_witness:
  "\<exists>fs lg st m.
     mint memory_port ex_host ex_catalogue ''2026-01-01T00:00:00Z'' ex_check Passed [ex_item] ex_digest VM [] ex_state
       = (((fs, lg), st), Inr m)
   \<and> mt_sealed m = ex_sealed \<and> ev_check (en_event (sl_entry ex_sealed)) = ex_check
   \<and> ev_verdict (en_event (sl_entry ex_sealed)) = Passed \<and> ev_environment (en_event (sl_entry ex_sealed)) = VM
   \<and> ev_proofs (en_event (sl_entry ex_sealed)) = [address ''booted'']
   \<and> (\<exists>fs1 fs2. memory_append_line (SafePath ''/r/attestation/ledger/chain.jsonl'') (sealed_line ex_sealed) RECORD_MODE fs1
        = (fs2, Inr ()))"
proof -
  obtain intended where may: "may_mint ex_catalogue ex_check Passed [ex_item] VM = Inr intended" using ex_may by blast
  from mem.mint_keeps_sound [OF ex_sound [unfolded ex_state_def] may ex_check_ok ex_digest_ok ex_stamp_ascii
      ex_item_fits ex_fits]
  obtain fs lg st m where run: "mint memory_port ex_host ex_catalogue ''2026-01-01T00:00:00Z'' ex_check Passed [ex_item] ex_digest VM []
      ((ex_files, ex_ledger), proof_store_new ex_location) = (((fs, lg), st), Inr m)" by metis
  have event: "ex_event = \<lparr>ev_kind = RECORDED, ev_check = ex_check, ev_verdict = Passed, ev_environment = VM,
      ev_candidate = ex_digest, ev_proofs = map (address \<circ> off_payload) [ex_item], ev_scope_limits = []\<rparr>"
    by (simp add: ex_event_def minted_event_def)
  note a = minted_was_allowed [OF run, folded event, folded ex_sealed_def]
  then have "mt_sealed m = ex_sealed" by blast
  moreover have "ev_check (en_event (sl_entry ex_sealed)) = ex_check \<and> ev_verdict (en_event (sl_entry ex_sealed)) = Passed
      \<and> ev_environment (en_event (sl_entry ex_sealed)) = VM \<and> ev_proofs (en_event (sl_entry ex_sealed)) = [address ''booted'']"
    by (simp add: ex_sealed_def seal_next_def Let_def event ex_item_def)
  moreover from conjunct1 [OF conjunct2 [OF a]] have "\<exists>fs1 fs2. memory_append_line (SafePath ''/r/attestation/ledger/chain.jsonl'') (sealed_line (mt_sealed m)) RECORD_MODE fs1
      = (fs2, Inr ())" by (simp add: ex_ledger_def ex_paths memory_port_def) blast
  ultimately show ?thesis using run by (auto simp: ex_state_def)
qed

end
