(* ===== verification/PlanTheorems.thy ===== *)
theory PlanTheorems
  imports Runner Indented
begin

section \<open>Properties of registries, plans and runs\<close>

text \<open>
  Declaring, ordering and running: nothing depends on the order in which units declare
  themselves, an order that is found respects every dependency and one is refused only for a
  stated reason, and a run accounts for every check, leaves the world alone when it is refused
  and releases what it took.
\<close>

subsection \<open>Registries\<close>

text \<open>C29. The order in which units declare themselves does not show: declarations without a repeated key that are all
  accepted in one order are all accepted in any other, and seal to the same registry, with the same kind, entries
  and origins in the same order; and no key was declared twice.\<close>

theorem declaration_order_free:
  assumes "rfold registry_put (registry_new kind) ds = Inr r" "set ds = set ds'" "distinct (map fst ds')"
  shows "distinct (map fst ds) \<and> (\<exists>r'. rfold registry_put (registry_new kind) ds' = Inr r'
    \<and> map_sum id fst (registry_seal r) = map_sum id fst (registry_seal r'))"
proof -
  let ?new = "registry_new kind :: 'a registry"
  have new: "registry_ok ?new \<and> \<not> reg_sealed ?new" by simp
  from rw.puts_permuted [OF new assms] obtain r' where r': "rfold registry_put ?new ds' = Inr r'"
    "registry_get r' = registry_get r" by blast
  note s = rw.puts_spec [OF new assms(1)] and s' = rw.puts_spec [OF new r'(1)]
  have "reg_kind r' = reg_kind r"
    using registry_puts_kind [OF assms(1)] registry_puts_kind [OF r'(1)] by simp
  then have "map_sum id fst (registry_seal r) = map_sum id fst (registry_seal r')"
    using s s' r'(2) by (intro seal_same) auto
  with s r'(1) show ?thesis by blast
qed

definition ex_at :: provenance where
  "ex_at = \<lparr>prov_module = ''apex.units.a'', prov_qualname = ''SPEC'', prov_line = 3\<rparr>"

theorem declaration_order_free_witness:
  "\<exists>r r'. rfold registry_put (registry_new ''unit'') [(''a'', 1 :: nat, ex_at), (''b'', 2, ex_at)] = Inr r
      \<and> rfold registry_put (registry_new ''unit'') [(''b'', 2, ex_at), (''a'', 1, ex_at)] = Inr r'
      \<and> map_sum id fst (registry_seal r) = map_sum id fst (registry_seal r')"
proof -
  obtain r where r: "rfold registry_put (registry_new ''unit'') [(''a'', 1 :: nat, ex_at), (''b'', 2, ex_at)] = Inr r"
    by (simp add: registry_put_def registry_add_def registry_new_def)
  from declaration_order_free [OF r, of "[(''b'', 2, ex_at), (''a'', 1, ex_at)]"] r show ?thesis by auto
qed

text \<open>A casebook is sealed once: every later reading answers from the registry the first one
  sealed, whatever importing would declare by then.\<close>

theorem casebook_sealed_for_good:
  assumes "casebook_sealed imported b = Inr (s, b')"
  shows "casebook_sealed imported' b' = Inr (s, b')
    \<and> casebook_lookup imported' b' name =
        (case map_of (sealed_entries s) name of None \<Rightarrow> Inl (Refusal UNIT_UNKNOWN) | Some c \<Rightarrow> Inr (c, b'))"
proof -
  have "book_sealed b' = Some s"
    using assms by (auto simp: casebook_sealed_def result_simps split: option.splits)
  with casebook_sealed_once [OF assms] casebook_lookup_sealed show ?thesis by blast
qed

theorem casebook_sealed_for_good_witness:
  "\<exists>b. casebook_lookup (\<lambda>_. Inl RegistrationError) b ''a'' = Inl (Refusal UNIT_UNKNOWN)
     \<and> book_sealed (b :: nat casebook) \<noteq> None"
proof -
  obtain s b' where s: "casebook_sealed Inr (casebook_new ''case'' :: nat casebook) = Inr (s, b')"
    "sealed_entries s = []" "book_sealed b' = Some s"
    by (simp add: casebook_sealed_def casebook_new_def registry_seal_def registry_new_def)
  from casebook_sealed_for_good [OF s(1), of "\<lambda>_. Inl RegistrationError" "''a''"] s(2,3) show ?thesis by auto
qed

subsection \<open>Orders\<close>

text \<open>C25. An order that is found lists every unit once, and every fact a unit reads that is not seeded
  was written by the unit itself or by one before it.\<close>

theorem order_respects_reads:
  assumes "distinct (map node_id nodes)" "list_all node_ok nodes" "order_of nodes seeds = Inr xs"
  shows "distinct xs \<and> set xs = node_id ` set nodes
    \<and> (\<forall>n \<in> set nodes. \<forall>i < length xs. xs ! i = node_id n \<longrightarrow> (\<forall>f \<in> node_reads n - seeds.
         \<exists>m \<in> set nodes. f \<in> node_writes m \<and> (node_id m = node_id n \<or> node_id m \<in> set (take i xs))))"
  using order_of_Inr [OF assms] by blast

definition ex_nodes :: "node list" where
  "ex_nodes = [\<lparr>node_id = ''use'', node_reads = {''x''}, node_writes = {}\<rparr>,
               \<lparr>node_id = ''make'', node_reads = {}, node_writes = {''x''}\<rparr>]"

lemma ex_nodes_ok: "distinct (map node_id ex_nodes)" "list_all node_ok ex_nodes"
  by (simp_all add: ex_nodes_def node_ok_def)

lemma ex_order: "order_of ex_nodes {} = Inr [''make'', ''use'']"
  by (simp add: order_of_def ex_nodes_def producers_of_def claim_node_def claim_fact_def dependencies_of_def
      need_fact_def topological.simps ready_names_def without_ready_def)

theorem order_respects_reads_witness:
  "order_of ex_nodes {} = Inr [''make'', ''use''] \<and> distinct [''make'', ''use'']"
  using order_respects_reads [OF ex_nodes_ok ex_order] ex_order by blast

text \<open>C26. An order is refused exactly when a fact has two writers, a fact read has none, or some units
  wait on one another in a circle, and then always as a registration error.\<close>

theorem order_refused_exactly:
  assumes "distinct (map node_id nodes)" "list_all node_ok nodes"
  shows "order_of nodes seeds = Inl e \<longleftrightarrow>
    e = RegistrationError \<and> (written_twice nodes \<or> never_written nodes seeds \<or> circular nodes seeds)"
  using assms by (rule order_of_Inl)

theorem order_refused_exactly_witness:
  "order_of [\<lparr>node_id = ''use'', node_reads = {''x''}, node_writes = {}\<rparr>] {} = Inl RegistrationError"
proof -
  let ?ns = "[\<lparr>node_id = ''use'', node_reads = {''x''}, node_writes = {}\<rparr>]"
  have "never_written ?ns {}" by (simp add: never_written_def)
  then show ?thesis using order_refused_exactly [of ?ns "{}" RegistrationError] by (simp add: node_ok_def)
qed

text \<open>A plan is the same plan, stages, order and digest, in whatever order its stages are declared.\<close>

theorem plan_declaration_order_free:
  assumes "distinct (map stage_name declared)" "distinct (map stage_name declared')" "set declared' = set declared"
  shows "plan_of name declared' seeds = plan_of name declared seeds"
proof -
  have o: "order_of (map stage_node declared') (key_name ` seeds) = order_of (map stage_node declared) (key_name ` seeds)"
    using assms by (intro order_of_permuted) (simp_all add: stage_node_def comp_def)
  have "map_of (map (\<lambda>s. (stage_name s, s)) declared') = map_of (map (\<lambda>s. (stage_name s, s)) declared)"
    using assms by (intro map_of_inject_set [THEN iffD2]) (simp_all add: comp_def)
  then have m: "map_of (foldl (\<lambda>d s. dict_set (stage_name s) s d) [] declared')
      = map_of (foldl (\<lambda>d s. dict_set (stage_name s) s d) [] declared)"
    by (simp add: map_of_by_name assms(1,2))
  show ?thesis by (simp add: plan_of_def o m Let_def)
qed

definition ex_stage :: "str \<Rightarrow> str list \<Rightarrow> str list \<Rightarrow> (nat, unit, str multiset) stage" where
  "ex_stage name reads writes =
     \<lparr>stage_id_of = DottedName name, stage_reads = map FactKey reads, stage_writes = map FactKey writes,
      stage_attests = {|DottedName name|}, stage_effects = {||}, stage_preflight = always_ready,
      stage_apply = (\<lambda>ctx w. (add_mset name w,
         Inr (Advance (map (\<lambda>f. (FactKey f, 1)) writes)
                (Some \<lparr>fin_name = name, fin_release = (\<lambda>w. (w - {#name#}, Inr ()))\<rparr>))))\<rparr>"

abbreviation ex_make :: "(nat, unit, str multiset) stage" where "ex_make \<equiv> ex_stage ''make'' [] [''x'']"
abbreviation ex_use :: "(nat, unit, str multiset) stage" where "ex_use \<equiv> ex_stage ''use'' [''x''] []"

theorem plan_declaration_order_free_witness: "plan_of ''p'' [ex_make, ex_use] {} = plan_of ''p'' [ex_use, ex_make] {}"
  by (rule plan_declaration_order_free) (auto simp: ex_stage_def)

text \<open>In a plan every fact a stage reads is a seed or is written by that stage or one before it.\<close>

theorem plan_reads_are_written:
  assumes "distinct (map stage_name declared)" "plan_of name declared seeds = Inr p"
    and "i < length (plan_stages p)" "k \<in> set (stage_reads (plan_stages p ! i))" "k \<notin> seeds"
  shows "\<exists>j \<le> i. k \<in> set (stage_writes (plan_stages p ! j))"
  using assms by (rule plan_reads_written)

lemma ex_plan:
  obtains p where "plan_of ''p'' [ex_use, ex_make] {} = Inr p" "plan_stages p = [ex_make, ex_use]"
proof -
  have n: "map stage_node [ex_use, ex_make] = ex_nodes" by (simp add: ex_stage_def stage_node_def ex_nodes_def)
  have d: "mk_dotted_name ''make'' = Inr (DottedName ''make'')" "mk_dotted_name ''use'' = Inr (DottedName ''use'')"
    by (simp_all only: mk_dotted_name_def) code_simp+
  show ?thesis
    using that unfolding plan_of_def n
    by (simp add: ex_order d Let_def) (simp add: ex_stage_def)
qed

theorem plan_reads_are_written_witness:
  "\<exists>p. plan_of ''p'' [ex_use, ex_make] {} = Inr p \<and> (\<exists>j \<le> 1. FactKey ''x'' \<in> set (stage_writes (plan_stages p ! j)))"
proof -
  obtain p where p: "plan_of ''p'' [ex_use, ex_make] {} = Inr p" "plan_stages p = [ex_make, ex_use]" by (rule ex_plan)
  from plan_reads_are_written [OF _ p(1), of 1 "FactKey ''x''"] p show ?thesis by (auto simp: ex_stage_def)
qed

subsection \<open>Runs\<close>

text \<open>
  C28. The outcome of a run accounts for every check of its plan. When a preflight refused, the first that did
  is the reason, nothing is attested and every check is left untested. Otherwise the stages were run in the
  order of the plan: those that answered \<open>Advance\<close>, and no stage that was passed over, skipped, refused or
  failed, attest their checks; the checks of all others are left untested; the facts are the seeds and
  what the stages that advanced produced, each under its producer's name and each key once; and the run
  succeeded exactly when no stage ended it, and names the stage that did.
\<close>

theorem run_accounts_for_checks:
  assumes "distinct (map stage_name (plan_stages p))"
    and "run_plan for_planning p ports seeds w = (w', Inr out)"
  shows "\<exists>w1 verdicts. let given = produced_entries SEED seeds in
      preflight_stages (plan_stages p) \<lparr>ctx_facts = given, ctx_ports = for_planning ports\<rparr> w = (w1, Inr verdicts)
    \<and> (if \<exists>v \<in> set verdicts. refuses v
       then \<exists>i reason detail. i < length (plan_stages p) \<and> verdicts ! i = RefuseBecause reason detail
          \<and> list_all (\<lambda>v. \<not> refuses v) (take i verdicts) \<and> accounts p given [] (Some (plan_stages p ! i, reason, detail)) out
       else \<exists>advanced ended. stages_run ports given w1 (zip (plan_stages p) verdicts) advanced ended
          \<and> accounts p given advanced ended out)"
  using assms by (rule run_plan_accounts)

text \<open>A stage that skips itself, after one that advances.\<close>

definition ex_skipping :: "(nat, unit, str multiset) plan" where
  "ex_skipping = \<lparr>plan_name = ''p'',
     plan_stages = [ex_make, ex_use\<lparr>stage_apply := (\<lambda>ctx w. (w, Inr (Skip STAGE_FAILED ''not here'')))\<rparr>],
     plan_order = [], plan_digest = digest_bytes []\<rparr>"

theorem run_accounts_for_checks_witness:
  "\<exists>w' out. run_plan id ex_skipping () [] {#} = (w', Inr out)
     \<and> out_attested out = [DottedName ''make''] \<and> out_not_tested out = [DottedName ''use'']
     \<and> out_facts out = [(''x'', \<lparr>entry_value = 1, entry_produced_by = DottedName ''make''\<rparr>)] \<and> out_succeeded out"
proof -
  obtain w' out where r: "run_plan id ex_skipping () [] {#} = (w', Inr out)"
    by (simp add: ex_skipping_def run_plan_def seeded_def ex_stage_def always_ready_def apply_plan_def step_def with_facts_def
        put_fact_def with_fact_def dict_has_def)
  have stages: "plan_stages ex_skipping = [ex_make, ex_use\<lparr>stage_apply := (\<lambda>ctx w. (w, Inr (Skip STAGE_FAILED ''not here'')))\<rparr>]"
    by (simp add: ex_skipping_def)
  have names: "distinct (map stage_name (plan_stages ex_skipping))" by (simp add: stages ex_stage_def)
  have ready: "preflight_stages (plan_stages ex_skipping) ctx w = (w, Inr [Ready, Ready])" for ctx w
    by (simp add: stages ex_stage_def always_ready_def)
  from run_accounts_for_checks [OF names r] obtain advanced ended where
    ran: "stages_run () [] {#} (zip (plan_stages ex_skipping) [Ready, Ready]) advanced ended"
    and out: "accounts ex_skipping [] advanced ended out"
    by (auto simp: ready produced_entries_def Let_def)
  from ran have "advanced = [(ex_make, [(FactKey ''x'', 1)])]" "ended = None"
    by (auto simp: stages stages_run_simps ex_stage_def)
  with out r show ?thesis
    by (auto simp: accounts_def produced_entries_def stages) (auto simp: ex_stage_def)
qed

text \<open>A run that a preflight refuses applies nothing: the world is as it was, and the outcome names
  the first stage that refused with its reason.\<close>

theorem refused_run_changes_nothing:
  assumes "planning_inert (for_planning ports) p" "seeded seeds = Inr given"
    and "preflight_stages (plan_stages p) \<lparr>ctx_facts = given, ctx_ports = for_planning ports\<rparr> w = (w1, Inr vs)"
    and "i < length vs" "vs ! i = RefuseBecause reason detail" "list_all (\<lambda>v. \<not> refuses v) (take i vs)"
  shows "run_plan for_planning p ports seeds w =
    (w, Inr (refused_outcome p given (plan_stages p ! i) reason detail))"
  using assms by (rule run_plan_refused)

definition ex_refusing :: "(nat, unit, str multiset) plan" where
  "ex_refusing = \<lparr>plan_name = ''p'',
     plan_stages = [ex_make, ex_use\<lparr>stage_preflight := (\<lambda>ctx w. (w, Inr (RefuseBecause STAGE_FAILED ''no'')))\<rparr>],
     plan_order = [], plan_digest = digest_bytes []\<rparr>"

theorem refused_run_changes_nothing_witness:
  "run_plan id ex_refusing () [] {#''kept''#} =
     ({#''kept''#}, Inr (refused_outcome ex_refusing [] (plan_stages ex_refusing ! 1) STAGE_FAILED ''no''))"
proof -
  have "preflight_stages (plan_stages ex_refusing) \<lparr>ctx_facts = [], ctx_ports = id ()\<rparr> {#''kept''#}
      = ({#''kept''#}, Inr [Ready, RefuseBecause STAGE_FAILED ''no''])"
    by (simp add: ex_refusing_def ex_stage_def always_ready_def)
  from refused_run_changes_nothing [where for_planning = id and p = ex_refusing and ports = "()" and seeds = "[]"
      and given = "[]" and i = 1 and reason = STAGE_FAILED and detail = "''no''", OF _ _ this] show ?thesis
    by (simp add: seeded_def planning_inert_def ex_refusing_def ex_stage_def always_ready_def)
qed

text \<open>
  C27. A run releases what its stages took, whether it succeeds, skips, refuses, fails or raises, when the stages
  keep this contract: a stage that advances takes exactly what its finaliser is named after and the finaliser lets
  go of just that, even if it raises; in every other answer, and in preflight, it takes nothing; a stage produces no
  fact twice and only facts it declares to write, no two stages declare the same fact, and none declares a
  fact that is seeded. A stage that advances with a fact the run refuses is outside the contract: the run then
  raises before it keeps the finaliser.
\<close>

theorem run_releases_what_it_took:
  assumes "\<forall>s \<in> set (plan_stages p). stage_holds held s \<and> stage_honest s
      \<and> written_by s \<inter> (key_name \<circ> fst) ` set seeds = {}"
    and "writes_apart (plan_stages p)"
  shows "held (fst (run_plan for_planning p ports seeds w)) = held w"
  using assms by (rule run_plan_releases)

lemma ex_stage_contract:
  assumes "distinct writes"
  shows "stage_holds id (ex_stage name reads writes)" "stage_honest (ex_stage name reads writes)"
  using assms
  by (auto simp: stage_holds_def stage_honest_def ex_stage_def always_ready_def takes_def releases_def comp_def)

theorem run_releases_what_it_took_witness:
  "\<exists>p. plan_of ''p'' [ex_use, ex_make] {} = Inr p \<and> fst (run_plan id p () [] {#''mine''#}) = {#''mine''#}"
proof -
  obtain p where p: "plan_of ''p'' [ex_use, ex_make] {} = Inr p" "plan_stages p = [ex_make, ex_use]" by (rule ex_plan)
  have "\<forall>s \<in> set (plan_stages p). stage_holds id s \<and> stage_honest s
      \<and> written_by s \<inter> (key_name \<circ> fst) ` set ([] :: (fact_key \<times> nat) list) = {}"
    by (simp add: p(2) ex_stage_contract)
  from run_releases_what_it_took [OF this, of id "()" "{#''mine''#}"] p show ?thesis
    by (simp add: written_by_def) (simp add: ex_stage_def)
qed

end
