(* ===== verification/Base64.thy ===== *)
theory Base64
  imports JsonProps
begin

section \<open>base64 as the program uses it\<close>

text \<open>
  \<open>base64.b64encode\<close> and \<open>base64.b64decode\<close> with \<open>validate=True\<close>: the decoder takes the alphabet
  and the padding that ends the last group, and nothing else. The bits a padded group leaves over
  are not checked.
\<close>

definition B64_ALPHABET :: str where
  "B64_ALPHABET = ''ABCDEFGHIJKLMNOPQRSTUVWXYZabcdefghijklmnopqrstuvwxyz0123456789+/''"

definition b64_char :: "nat \<Rightarrow> char" where
  "b64_char n = B64_ALPHABET ! n"

definition b64_val :: "char \<Rightarrow> nat option" where
  "b64_val c =
     (if is_upper c then Some (byte_of c - 65)
      else if is_lower c then Some (byte_of c - 71)
      else if is_digit c then Some (byte_of c + 4)
      else if c = CHR ''+'' then Some 62
      else if c = CHR ''/'' then Some 63
      else None)"

fun b64_encode :: "bytes \<Rightarrow> bytes" where
  "b64_encode [] = []"
| "b64_encode [a] =
     [b64_char (byte_of a div 4), b64_char (byte_of a mod 4 * 16), CHR ''='', CHR ''='']"
| "b64_encode [a, b] =
     [b64_char (byte_of a div 4), b64_char (byte_of a mod 4 * 16 + byte_of b div 16),
      b64_char (byte_of b mod 16 * 4), CHR ''='']"
| "b64_encode (a # b # c # rest) =
     b64_char (byte_of a div 4) # b64_char (byte_of a mod 4 * 16 + byte_of b div 16)
       # b64_char (byte_of b mod 16 * 4 + byte_of c div 64) # b64_char (byte_of c mod 64)
       # b64_encode rest"

text \<open>The bytes of one group, from the values of its characters.\<close>

definition group1 :: "nat \<Rightarrow> nat \<Rightarrow> char" where
  "group1 w x = char_of (w * 4 + x div 16)"

definition group2 :: "nat \<Rightarrow> nat \<Rightarrow> char" where
  "group2 x y = char_of (x mod 16 * 16 + y div 4)"

definition group3 :: "nat \<Rightarrow> nat \<Rightarrow> char" where
  "group3 y z = char_of (y mod 4 * 64 + z)"

fun b64_decode :: "bytes \<Rightarrow> bytes option" where
  "b64_decode [] = Some []"
| "b64_decode (a # b # c # d # rest) =
     (case (b64_val a, b64_val b) of
        (Some w, Some x) \<Rightarrow>
          if c = CHR ''='' then (if d = CHR ''='' \<and> rest = [] then Some [group1 w x] else None)
          else
            (case b64_val c of
               None \<Rightarrow> None
             | Some y \<Rightarrow>
                 if d = CHR ''='' then (if rest = [] then Some [group1 w x, group2 x y] else None)
                 else
                   (case b64_val d of
                      None \<Rightarrow> None
                    | Some z \<Rightarrow> map_option (\<lambda>r. group1 w x # group2 x y # group3 y z # r) (b64_decode rest)))
      | _ \<Rightarrow> None)"
| "b64_decode _ = None"

definition b64_chars_ok :: bool where
  "b64_chars_ok \<longleftrightarrow>
     list_all (\<lambda>n. b64_val (b64_char n) = Some n \<and> b64_char n \<noteq> CHR ''='') [0..<64]"

lemma b64_chars_ok: b64_chars_ok
  unfolding b64_chars_ok_def by code_simp

lemma b64_char_facts [simp]:
  "n < 64 \<Longrightarrow> b64_val (b64_char n) = Some n" "n < 64 \<Longrightarrow> b64_char n \<noteq> CHR ''=''"
  using b64_chars_ok by (auto simp: b64_chars_ok_def list_all_iff)

lemma groups_of_bytes:
  "group1 (byte_of a div 4) (byte_of a mod 4 * 16 + byte_of b div 16) = a"
  "group1 (byte_of a div 4) (byte_of a mod 4 * 16) = a"
  "group2 (byte_of a mod 4 * 16 + byte_of b div 16) (byte_of b mod 16 * 4 + byte_of c div 64) = b"
  "group2 (byte_of a mod 4 * 16 + byte_of b div 16) (byte_of b mod 16 * 4) = b"
  "group3 (byte_of b mod 16 * 4 + byte_of c div 64) (byte_of c mod 64) = c"
proof -
  have h: "byte_of b div 16 < 16" "byte_of c div 64 < 4" 
    using byte_of_less [of b] byte_of_less [of c] by linarith+
  have "byte_of a div 4 * 4 + (byte_of a mod 4 * 16 + byte_of b div 16) div 16 = byte_of a"
    using h by (simp add: mult.commute)
  then show "group1 (byte_of a div 4) (byte_of a mod 4 * 16 + byte_of b div 16) = a"
    unfolding group1_def by (metis char_of_byte_of)
  have "byte_of a div 4 * 4 + (byte_of a mod 4 * 16) div 16 = byte_of a" by simp
  then show "group1 (byte_of a div 4) (byte_of a mod 4 * 16) = a"
    unfolding group1_def by (metis char_of_byte_of)
  have m: "(byte_of a mod 4 * 16 + byte_of b div 16) mod 16 = byte_of b div 16" using h by simp
  have "byte_of b div 16 * 16 + (byte_of b mod 16 * 4 + byte_of c div 64) div 4 = byte_of b"
    using h by (simp add: mult.commute)
  then show "group2 (byte_of a mod 4 * 16 + byte_of b div 16) (byte_of b mod 16 * 4 + byte_of c div 64) = b"
    unfolding group2_def m by (metis char_of_byte_of)
  have "byte_of b div 16 * 16 + (byte_of b mod 16 * 4) div 4 = byte_of b" by simp
  then show "group2 (byte_of a mod 4 * 16 + byte_of b div 16) (byte_of b mod 16 * 4) = b"
    unfolding group2_def m by (metis char_of_byte_of)
  have "(byte_of b mod 16 * 4 + byte_of c div 64) mod 4 * 64 + byte_of c mod 64 = byte_of c"
    using h by (simp add: mult.commute)
  then show "group3 (byte_of b mod 16 * 4 + byte_of c div 64) (byte_of c mod 64) = c"
    unfolding group3_def by (metis char_of_byte_of)
qed

lemma six_bits:
  "byte_of a div 4 < 64" "byte_of a mod 4 * 16 < 64" "byte_of b mod 16 * 4 < 64" "byte_of c mod 64 < 64"
  "byte_of a mod 4 * 16 + byte_of b div 16 < 64" "byte_of b mod 16 * 4 + byte_of c div 64 < 64"
proof -
  have "byte_of b div 16 < 16" "byte_of c div 64 < 4" "byte_of a div 4 < 64"
    using byte_of_less [of a] byte_of_less [of b] byte_of_less [of c] by linarith+
  moreover have "byte_of a mod 4 < 4" "byte_of b mod 16 < 16" by simp_all
  ultimately show "byte_of a div 4 < 64" "byte_of a mod 4 * 16 < 64" "byte_of b mod 16 * 4 < 64"
    "byte_of c mod 64 < 64" "byte_of a mod 4 * 16 + byte_of b div 16 < 64"
    "byte_of b mod 16 * 4 + byte_of c div 64 < 64" by linarith+
qed

theorem b64_roundtrip: "b64_decode (b64_encode p) = Some p"
  by (induction p rule: b64_encode.induct) (simp_all add: six_bits groups_of_bytes)

lemma b64_encode_length: "length (b64_encode p) = 4 * ((length p + 2) div 3)"
proof (induction p rule: b64_encode.induct)
  case (4 a b c rest)
  have "(length (a # b # c # rest) + 2) div 3 = (length rest + 2) div 3 + 1" by simp
  with 4 show ?case by simp
qed simp_all

definition is_b64 :: "char \<Rightarrow> bool" where
  "is_b64 c \<longleftrightarrow> is_upper c \<or> is_lower c \<or> is_digit c \<or> c = CHR ''+'' \<or> c = CHR ''/'' \<or> c = CHR ''=''"

lemma is_b64_char: "n < 64 \<Longrightarrow> is_b64 (b64_char n)"
  using b64_char_facts(1) [of n] by (auto simp: b64_val_def is_b64_def split: if_splits)

lemma b64_encode_chars: "list_all is_b64 (b64_encode p)"
  by (induction p rule: b64_encode.induct) (simp_all add: is_b64_char six_bits, simp_all add: is_b64_def)

end
