(* ===== verification/SerialFrame.thy ===== *)
theory SerialFrame
  imports Base64 KernelValues PortIO
begin

section \<open>The framing of guest output (model/serialframe.py)\<close>

text \<open>
  A payload as lines of base64 with a trailer, and the decoder that reads lines back from bytes
  as they arrive. The decoder's operations pass its state explicitly, so what an error leaves
  behind is part of the model. The limit on encoded text is a third of the transfer limit rounded
  up; the code divides floats, which agrees below the 52nd power of two. \<open>drain\<close> is the loop of \<open>feed\<close>: each turn removes one line.
\<close>

definition CHUNK_PREFIX :: bytes where "CHUNK_PREFIX = ''APEXLOG''"
definition TRAILER_PREFIX :: bytes where "TRAILER_PREFIX = ''APEXEND''"
definition SEPARATOR :: char where "SEPARATOR = CHR '':''"
definition FRAME_LINE_LIMIT :: limit where "FRAME_LINE_LIMIT = Limit 1024"
definition TRANSFER_LIMIT :: limit where "TRANSFER_LIMIT = Limit 16777216"
definition INDEX_DIGITS :: nat where "INDEX_DIGITS = 6"

definition is_index_text :: "bytes \<Rightarrow> bool" where
  "is_index_text s \<longleftrightarrow> s \<noteq> [] \<and> length s \<le> INDEX_DIGITS \<and> list_all is_digit s"

definition is_chunk_text :: "bytes \<Rightarrow> bool" where
  "is_chunk_text s \<longleftrightarrow> s \<noteq> [] \<and> list_all is_b64 s"

definition is_digest_text :: "bytes \<Rightarrow> bool" where
  "is_digest_text s \<longleftrightarrow> length s = 64 \<and> list_all is_hex s"

function chunked :: "nat \<Rightarrow> 'a list \<Rightarrow> 'a list list" where
  "chunked width xs = (if xs = [] \<or> width = 0 then [] else take width xs # chunked width (drop width xs))"
  by pat_completeness auto
termination by (relation "measure (\<lambda>(width, xs). length xs)") auto

declare chunked.simps [simp del]

definition chunk_line :: "token \<Rightarrow> nat \<Rightarrow> bytes \<Rightarrow> bytes" where
  "chunk_line tok i chunk = join [SEPARATOR] [CHUNK_PREFIX, identifier_value tok, str_of_nat i, chunk]"

definition trailer_line :: "token \<Rightarrow> nat \<Rightarrow> bytes \<Rightarrow> bytes" where
  "trailer_line tok n payload =
     join [SEPARATOR] [TRAILER_PREFIX, identifier_value tok, str_of_nat n, sha256_hex payload]"

definition frame_encode :: "bytes \<Rightarrow> token \<Rightarrow> bytes list" where
  "frame_encode payload tok =
     (let chunks = chunked (limit_nat SERIAL_CHUNK) (b64_encode payload)
      in map (\<lambda>(i, chunk). chunk_line tok i chunk) (enumerate 0 chunks)
           @ [trailer_line tok (length chunks) payload])"

record frame_decoder =
  fd_chunk_prefix :: bytes
  fd_trailer_prefix :: bytes
  fd_encoded_limit :: int
  fd_buffer :: bytes
  fd_chunks :: "bytes list"
  fd_encoded_size :: int
  fd_payload :: "bytes option"

definition decoder_new :: "token \<Rightarrow> limit \<Rightarrow> frame_decoder" where
  "decoder_new tok cap =
     \<lparr>fd_chunk_prefix = CHUNK_PREFIX @ [SEPARATOR] @ identifier_value tok @ [SEPARATOR],
      fd_trailer_prefix = TRAILER_PREFIX @ [SEPARATOR] @ identifier_value tok @ [SEPARATOR],
      fd_encoded_limit = (limit_value cap + 2) div 3 * 4,
      fd_buffer = [], fd_chunks = [], fd_encoded_size = 0, fd_payload = None\<rparr>"

definition pending_bytes :: "frame_decoder \<Rightarrow> nat" where
  "pending_bytes d = length (fd_buffer d)"

definition take_chunk :: "bytes \<Rightarrow> (frame_decoder, unit) io" where
  "take_chunk rest d = (case partition_on SEPARATOR rest of (index_text, found, chunk) \<Rightarrow>
     if \<not> is_index_text index_text \<or> \<not> is_chunk_text chunk \<or> int (length chunk) > limit_value SERIAL_CHUNK
     then (d, Inl (Refusal FRAME_MALFORMED))
     else if nat_of_digits index_text \<noteq> length (fd_chunks d)
     then (d, Inl (Refusal FRAME_OUT_OF_ORDER))
     else
       (let counted = d\<lparr>fd_encoded_size := fd_encoded_size d + int (length chunk)\<rparr>
        in if fd_encoded_size counted > fd_encoded_limit d
           then (counted, Inl (Refusal FRAME_LIMIT_EXCEEDED))
           else (counted\<lparr>fd_chunks := fd_chunks d @ [chunk]\<rparr>, Inr ())))"

definition finish_frame :: "bytes \<Rightarrow> frame_decoder \<Rightarrow> bytes res" where
  "finish_frame rest d = (case partition_on SEPARATOR rest of (count_text, found, digest) \<Rightarrow>
     if \<not> is_index_text count_text \<or> \<not> is_digest_text digest then Inl (Refusal FRAME_MALFORMED)
     else if nat_of_digits count_text = 0 \<or> nat_of_digits count_text \<noteq> length (fd_chunks d)
     then Inl (Refusal FRAME_INCOMPLETE)
     else (case b64_decode (concat (fd_chunks d)) of
             None \<Rightarrow> Inl (Refusal FRAME_MALFORMED)
           | Some payload \<Rightarrow>
               if sha256_hex payload \<noteq> digest then Inl (Refusal FRAME_CHECKSUM_MISMATCH)
               else Inr payload))"

definition consume :: "bytes \<Rightarrow> (frame_decoder, bytes option) io" where
  "consume line d =
     (if starts_with line (fd_chunk_prefix d)
      then io_then (take_chunk (drop (length (fd_chunk_prefix d)) line)) (io_return None) d
      else if starts_with line (fd_trailer_prefix d)
      then (d, map_sum id Some (finish_frame (drop (length (fd_trailer_prefix d)) line) d))
      else (d, Inr None))"

definition drop_noise :: "frame_decoder \<Rightarrow> frame_decoder" where
  "drop_noise d = d\<lparr>fd_buffer := drop (length (fd_buffer d) - limit_nat FRAME_LINE_LIMIT) (fd_buffer d)\<rparr>"

lemma take_chunk_buffer: "take_chunk rest d = (d', r) \<Longrightarrow> fd_buffer d' = fd_buffer d"
  by (auto simp: take_chunk_def Let_def split: prod.splits if_splits)

lemma consume_buffer: "consume line d = (d', r) \<Longrightarrow> fd_buffer d' = fd_buffer d"
  by (auto simp: consume_def io_then_def io_bind_def take_chunk_buffer
      split: if_splits prod.splits sum.splits dest: take_chunk_buffer)

lemma partition_on_length: "partition_on c s = (h, True, t) \<Longrightarrow> length t < length s"
  by (induction s arbitrary: h) (auto split: if_splits prod.splits)

function drain :: "frame_decoder \<Rightarrow> frame_decoder \<times> bytes option res" where
  "drain d = (case partition_on CHR 0x0A (fd_buffer d) of
     (line, False, rest) \<Rightarrow> (drop_noise d, Inr None)
   | (line, True, rest) \<Rightarrow>
       (case consume (rstrip_with (\<lambda>c. c = CHR 0x0D) line) (d\<lparr>fd_buffer := rest\<rparr>) of
          (d', Inl e) \<Rightarrow> (d', Inl e)
        | (d', Inr (Some payload)) \<Rightarrow> (d'\<lparr>fd_payload := Some payload\<rparr>, Inr (Some payload))
        | (d', Inr None) \<Rightarrow> drain d'))"
  by pat_completeness auto
termination
  by (relation "measure (\<lambda>d. length (fd_buffer d))")
    (auto dest!: consume_buffer [OF sym] partition_on_length [OF sym])

declare drain.simps [simp del]

definition feed :: "bytes \<Rightarrow> (frame_decoder, bytes option) io" where
  "feed data d =
     (if fd_payload d \<noteq> None then (d, Inr None)
      else drain (d\<lparr>fd_buffer := fd_buffer d @ data\<rparr>))"

fun decode_from :: "frame_decoder \<Rightarrow> bytes list \<Rightarrow> bytes res" where
  "decode_from d [] = Inl (Refusal FRAME_INCOMPLETE)"
| "decode_from d (line # lines) =
     (case feed (line @ [CHR 0x0A]) d of
        (d', Inl e) \<Rightarrow> Inl e
      | (d', Inr (Some payload)) \<Rightarrow> Inr payload
      | (d', Inr None) \<Rightarrow> decode_from d' lines)"

definition decode_lines :: "bytes list \<Rightarrow> token \<Rightarrow> limit \<Rightarrow> bytes res" where
  "decode_lines lines tok cap = decode_from (decoder_new tok cap) lines"

subsection \<open>Memory\<close>

text \<open>\<open>decoder_ok\<close>: what is kept of a frame is within the limit of the transfer.\<close>

definition decoder_ok :: "frame_decoder \<Rightarrow> bool" where
  "decoder_ok d \<longleftrightarrow> 0 \<le> fd_encoded_limit d
     \<and> int (sum_list (map length (fd_chunks d))) \<le> fd_encoded_size d
     \<and> int (sum_list (map length (fd_chunks d))) \<le> fd_encoded_limit d"

lemma decoder_new_ok: "0 < limit_value cap \<Longrightarrow> decoder_ok (decoder_new tok cap)"
  by (simp add: decoder_ok_def decoder_new_def)

lemma take_chunk_ok: "decoder_ok d \<Longrightarrow> take_chunk rest d = (d', r) \<Longrightarrow> decoder_ok d' \<and> fd_encoded_limit d' = fd_encoded_limit d"
  by (auto simp: take_chunk_def decoder_ok_def Let_def split: prod.splits if_splits)

lemma consume_ok: "decoder_ok d \<Longrightarrow> consume line d = (d', r) \<Longrightarrow> decoder_ok d' \<and> fd_encoded_limit d' = fd_encoded_limit d"
  by (auto simp: consume_def io_then_def io_bind_def split: if_splits prod.splits sum.splits dest: take_chunk_ok)

lemma drain_ok:
  "decoder_ok d \<Longrightarrow> drain d = (d', r) \<Longrightarrow>
     decoder_ok d' \<and> (r = Inr None \<longrightarrow> pending_bytes d' \<le> limit_nat FRAME_LINE_LIMIT)
     \<and> fd_encoded_limit d' = fd_encoded_limit d"
proof (induction d arbitrary: d' r rule: drain.induct)
  case (1 d)
  obtain line found rest where p: "partition_on CHR 0x0A (fd_buffer d) = (line, found, rest)"
    by (metis prod_cases3)
  show ?case
  proof (cases found)
    case False
    with 1(2,3) p show ?thesis
      by (auto simp: drain.simps [of d] drop_noise_def decoder_ok_def pending_bytes_def)
  next
    case True
    let ?line = "rstrip_with (\<lambda>c. c = CHR 0x0D) line"
    obtain d1 r1 where c: "consume ?line (d\<lparr>fd_buffer := rest\<rparr>) = (d1, r1)" by fastforce
    have "decoder_ok (d\<lparr>fd_buffer := rest\<rparr>)" using 1(2) by (simp add: decoder_ok_def)
    note k = consume_ok [OF this c]
    show ?thesis
    proof (cases r1)
      case (Inl e)
      with 1(3) k p True c show ?thesis by (auto simp: drain.simps [of d])
    next
      case (Inr po)
      show ?thesis
      proof (cases po)
        case None
        with 1(3) p True c Inr have "drain d1 = (d', r)" by (simp add: drain.simps [of d])
        with 1(1) [OF p [symmetric] _ _ c [symmetric] Inr None] True k show ?thesis by fastforce
      next
        case (Some payload)
        with 1(3) k p True c Inr show ?thesis
          by (auto simp: drain.simps [of d] decoder_ok_def)
      qed
    qed
  qed
qed

lemma feed_ok:
  assumes "decoder_ok d" "feed data d = (d', r)" "fd_payload d = None"
  shows "decoder_ok d' \<and> (r = Inr None \<longrightarrow> pending_bytes d' \<le> limit_nat FRAME_LINE_LIMIT)"
proof -
  have "decoder_ok (d\<lparr>fd_buffer := fd_buffer d @ data\<rparr>)" using assms(1) by (simp add: decoder_ok_def)
  from drain_ok [OF this] assms(2,3) show ?thesis by (auto simp: feed_def)
qed

subsection \<open>What is written reads back\<close>

lemma chunked_Nil [simp]: "chunked width [] = []"
  by (simp add: chunked.simps)

lemma chunked_concat: "0 < width \<Longrightarrow> concat (chunked width xs) = xs"
  by (induction width xs rule: chunked.induct) (subst chunked.simps, simp)

lemma chunked_pieces:
  "0 < width \<Longrightarrow> c \<in> set (chunked width xs) \<Longrightarrow> c \<noteq> [] \<and> length c \<le> width \<and> set c \<subseteq> set xs"
proof (induction width xs rule: chunked.induct)
  case (1 width xs)
  show ?case
  proof (cases "xs = []")
    case True
    with 1(3) show ?thesis by simp
  next
    case False
    with 1(2,3) consider "c = take width xs" | "c \<in> set (chunked width (drop width xs))"
      by (auto simp: chunked.simps [of width xs])
    then show ?thesis
    proof cases
      case 1
      with False \<open>0 < width\<close> show ?thesis by (auto dest: in_set_takeD)
    next
      case 2
      with 1(1) [of] False \<open>0 < width\<close> show ?thesis by (auto dest: in_set_dropD)
    qed
  qed
qed

lemma chunked_length: "0 < width \<Longrightarrow> length (chunked width xs) * width < length xs + width"
proof (induction width xs rule: chunked.induct)
  case (1 width xs)
  show ?case
  proof (cases "xs = []")
    case True
    with 1(2) show ?thesis by simp
  next
    case False
    with 1 have "length (chunked width (drop width xs)) * width < length xs - width + width" by simp
    with False 1(2) show ?thesis
      by (cases "length xs < width") (auto simp: chunked.simps [of width xs])
  qed
qed

lemma feed_line:
  assumes "fd_buffer d = []" "fd_payload d = None" "CHR 0x0A \<notin> set line" "line = [] \<or> last line \<noteq> CHR 0x0D"
  shows "consume line d = (d1, Inr None) \<Longrightarrow> feed (line @ [CHR 0x0A]) d = (d1, Inr None)"
    and "consume line d = (d1, Inr (Some payload)) \<Longrightarrow>
           feed (line @ [CHR 0x0A]) d = (d1\<lparr>fd_payload := Some payload\<rparr>, Inr (Some payload))"
    and "consume line d = (d1, Inl e) \<Longrightarrow> feed (line @ [CHR 0x0A]) d = (d1, Inl e)"
proof -
  have strip: "rstrip_with (\<lambda>c. c = CHR 0x0D) line = line"
    using assms(4) by (cases line rule: rev_cases) (auto simp: rstrip_with_def)
  have same: "d\<lparr>fd_buffer := []\<rparr> = d" using assms(1) by (cases d) simp
  have p: "partition_on CHR 0x0A (line @ [CHR 0x0A]) = (line, True, [])"
    using partition_on_append [OF assms(3), of "[]"] by simp
  { assume c: "consume line d = (d1, Inr None)"
    have "fd_buffer d1 = []" using consume_buffer [OF c] assms(1) by simp
    then have "drop_noise d1 = d1" "partition_on CHR 0x0A (fd_buffer d1) = ([], False, [])"
      by (cases d1, simp_all add: drop_noise_def)
    then have "drain d1 = (d1, Inr None)" by (simp add: drain.simps [of d1])
    with c show "feed (line @ [CHR 0x0A]) d = (d1, Inr None)"
      using assms(1,2) by (simp add: feed_def drain.simps [of "d\<lparr>fd_buffer := line @ [CHR 0x0A]\<rparr>"] p strip same) }
  { assume "consume line d = (d1, Inr (Some payload))"
    then show "feed (line @ [CHR 0x0A]) d = (d1\<lparr>fd_payload := Some payload\<rparr>, Inr (Some payload))"
      using assms(1,2) by (simp add: feed_def drain.simps [of "d\<lparr>fd_buffer := line @ [CHR 0x0A]\<rparr>"] p strip same) }
  { assume "consume line d = (d1, Inl e)"
    then show "feed (line @ [CHR 0x0A]) d = (d1, Inl e)"
      using assms(1,2) by (simp add: feed_def drain.simps [of "d\<lparr>fd_buffer := line @ [CHR 0x0A]\<rparr>"] p strip same) }
qed

text \<open>The decoder of a token, after the chunks it has taken.\<close>

definition decoder_after :: "token \<Rightarrow> limit \<Rightarrow> bytes list \<Rightarrow> frame_decoder" where
  "decoder_after tok cap chunks =
     (decoder_new tok cap)\<lparr>fd_chunks := chunks, fd_encoded_size := int (length (concat chunks))\<rparr>"

lemma index_text: "n < 10 ^ INDEX_DIGITS \<Longrightarrow> is_index_text (str_of_nat n)"
  using length_str_of_nat [of n INDEX_DIGITS] str_of_nat_digits
  by (auto simp: is_index_text_def INDEX_DIGITS_def list_all_iff)

lemma digits_no_separator: "SEPARATOR \<notin> set (str_of_nat n)"
  using str_of_nat_digits [of SEPARATOR n] by (auto simp: SEPARATOR_def is_digit_def)

lemma take_chunk_written:
  assumes "i = length chunks" "i < 10 ^ INDEX_DIGITS" "is_chunk_text chunk"
    and "int (length chunk) \<le> limit_value SERIAL_CHUNK"
    and "int (length (concat (chunks @ [chunk]))) \<le> fd_encoded_limit (decoder_new tok cap)"
  shows "take_chunk (str_of_nat i @ SEPARATOR # chunk) (decoder_after tok cap chunks) =
    (decoder_after tok cap (chunks @ [chunk]), Inr ())"
  using assms index_text [OF assms(2)]
  by (simp add: take_chunk_def partition_on_append digits_no_separator decoder_after_def Let_def)

lemma consume_chunk:
  assumes "i = length chunks" "i < 10 ^ INDEX_DIGITS" "is_chunk_text chunk"
    and "int (length chunk) \<le> limit_value SERIAL_CHUNK"
    and "int (length (concat (chunks @ [chunk]))) \<le> fd_encoded_limit (decoder_new tok cap)"
  shows "consume (chunk_line tok i chunk) (decoder_after tok cap chunks) =
    (decoder_after tok cap (chunks @ [chunk]), Inr None)"
proof -
  let ?d = "decoder_after tok cap chunks"
  have l: "chunk_line tok i chunk = fd_chunk_prefix ?d @ str_of_nat i @ SEPARATOR # chunk"
    by (simp add: chunk_line_def decoder_after_def decoder_new_def)
  show ?thesis
    using take_chunk_written [OF assms] by (simp add: consume_def l starts_with_def io_then_def io_bind_def)
qed

lemma consume_trailer:
  assumes "chunks \<noteq> []" "length chunks < 10 ^ INDEX_DIGITS" "b64_decode (concat chunks) = Some payload"
  shows "consume (trailer_line tok (length chunks) payload) (decoder_after tok cap chunks) =
    (decoder_after tok cap chunks, Inr (Some payload))"
proof -
  let ?d = "decoder_after tok cap chunks"
  have l: "trailer_line tok (length chunks) payload =
      fd_trailer_prefix ?d @ str_of_nat (length chunks) @ SEPARATOR # sha256_hex payload"
    by (simp add: trailer_line_def decoder_after_def decoder_new_def)
  have other: "\<not> starts_with (trailer_line tok (length chunks) payload) (fd_chunk_prefix ?d)"
    by (simp add: l starts_with_def decoder_after_def decoder_new_def CHUNK_PREFIX_def TRAILER_PREFIX_def)
  have "finish_frame (str_of_nat (length chunks) @ SEPARATOR # sha256_hex payload) ?d = Inr payload"
    using assms index_text [OF assms(2)] sha256_hex_shape [of payload]
    by (simp add: finish_frame_def partition_on_append digits_no_separator is_digest_text_def
        decoder_after_def)
  with other show ?thesis by (simp add: consume_def l starts_with_def)
qed

lemma b64_line: "is_b64 c \<Longrightarrow> c \<noteq> CHR 0x0A \<and> c \<noteq> CHR 0x0D"
  by (auto simp: is_b64_def is_upper_def is_lower_def is_digit_def less_eq_char_def)

lemma hex_line: "is_hex c \<Longrightarrow> c \<noteq> CHR 0x0A \<and> c \<noteq> CHR 0x0D"
  by (auto simp: is_hex_def is_digit_def less_eq_char_def)

lemma line_shapes:
  assumes "hex_identifier_ok tok"
  shows "is_chunk_text chunk \<Longrightarrow> CHR 0x0A \<notin> set (chunk_line tok i chunk) \<and> last (chunk_line tok i chunk) \<noteq> CHR 0x0D"
    and "CHR 0x0A \<notin> set (trailer_line tok i payload) \<and> last (trailer_line tok i payload) \<noteq> CHR 0x0D"
proof -
  have digits: "CHR 0x0A \<notin> set (str_of_nat i)"
    using str_of_nat_digits [of "CHR 0x0A" i] by (auto simp: is_digit_def)
  have name: "CHR 0x0A \<notin> set (identifier_value tok)"
    using assms hex_line by (auto simp: hex_identifier_ok_def list_all_iff)
  show "is_chunk_text chunk \<Longrightarrow> CHR 0x0A \<notin> set (chunk_line tok i chunk) \<and> last (chunk_line tok i chunk) \<noteq> CHR 0x0D"
    using digits name b64_line
    by (auto simp: chunk_line_def CHUNK_PREFIX_def SEPARATOR_def is_chunk_text_def list_all_iff)
  have "\<forall>c \<in> set (sha256_hex payload). is_hex c" "sha256_hex payload \<noteq> []"
    using sha256_hex_shape [of payload] by (auto simp: list_all_iff)
  then show "CHR 0x0A \<notin> set (trailer_line tok i payload) \<and> last (trailer_line tok i payload) \<noteq> CHR 0x0D"
    using digits name hex_line by (auto simp: trailer_line_def TRAILER_PREFIX_def SEPARATOR_def)
qed

lemma decode_written:
  assumes "hex_identifier_ok tok" "b64_decode (concat (taken @ chunks)) = Some payload" "taken @ chunks \<noteq> []"
    and "length (taken @ chunks) < 10 ^ INDEX_DIGITS"
    and "\<forall>c \<in> set chunks. is_chunk_text c \<and> int (length c) \<le> limit_value SERIAL_CHUNK"
    and "int (length (concat (taken @ chunks))) \<le> fd_encoded_limit (decoder_new tok cap)"
  shows "decode_from (decoder_after tok cap taken)
      (map (\<lambda>(i, chunk). chunk_line tok i chunk) (enumerate (length taken) chunks)
       @ [trailer_line tok (length (taken @ chunks)) payload]) = Inr payload"
  using assms
proof (induction chunks arbitrary: taken)
  case Nil
  have e: "fd_buffer (decoder_after tok cap taken) = []" "fd_payload (decoder_after tok cap taken) = None"
    by (simp_all add: decoder_after_def decoder_new_def)
  from feed_line(2) [OF e, of "trailer_line tok (length taken) payload"] line_shapes(2) [OF Nil(1)]
    consume_trailer [of taken payload tok cap] Nil
  show ?case by simp
next
  case (Cons chunk chunks)
  have e: "fd_buffer (decoder_after tok cap taken) = []" "fd_payload (decoder_after tok cap taken) = None"
    by (simp_all add: decoder_after_def decoder_new_def)
  have c: "is_chunk_text chunk" "int (length chunk) \<le> limit_value SERIAL_CHUNK" using Cons.prems(5) by simp_all
  have "consume (chunk_line tok (length taken) chunk) (decoder_after tok cap taken) =
    (decoder_after tok cap (taken @ [chunk]), Inr None)"
    using Cons.prems(4,6) by (intro consume_chunk c) simp_all
  from feed_line(1) [OF e _ _ this] line_shapes(1) [OF Cons.prems(1) c(1)]
  have "feed (chunk_line tok (length taken) chunk @ [CHR 0x0A]) (decoder_after tok cap taken) =
    (decoder_after tok cap (taken @ [chunk]), Inr None)" by blast
  with Cons.IH [of "taken @ [chunk]"] Cons.prems show ?case by simp
qed

lemma frame_roundtrip:
  assumes "hex_identifier_ok tok" "payload \<noteq> []" "int (length payload) \<le> limit_value cap"
    and "limit_value cap \<le> limit_value TRANSFER_LIMIT"
  shows "decode_lines (frame_encode payload tok) tok cap = Inr payload"
proof -
  let ?enc = "b64_encode payload" and ?w = "limit_nat SERIAL_CHUNK"
  let ?chunks = "chunked ?w ?enc"
  have w: "0 < ?w" "?w = 768" by (simp_all add: limit_nat_def SERIAL_CHUNK_def)
  have len: "length ?enc = 4 * ((length payload + 2) div 3)" by (rule b64_encode_length)
  have small: "length payload \<le> 16777216" using assms(3,4) by (simp add: TRANSFER_LIMIT_def)
  have "(length payload + 2) div 3 \<le> 16777218 div 3" using small by (intro div_le_mono) simp
  then have "length ?enc \<le> 22369624" using len by simp
  then have count: "length ?chunks < 10 ^ INDEX_DIGITS"
    using chunked_length [OF w(1), of ?enc] w(2) by (simp add: INDEX_DIGITS_def)
  have "(int (length payload) + 2) div 3 \<le> (limit_value cap + 2) div 3"
    using assms(3) by (intro zdiv_mono1) simp_all
  then have size: "int (length ?enc) \<le> fd_encoded_limit (decoder_new tok cap)"
    using len by (simp add: decoder_new_def zdiv_int)
  have "?enc \<noteq> []" using assms(2) by (cases payload rule: b64_encode.cases) simp_all
  then have "?chunks \<noteq> []" using chunked_concat [OF w(1), of ?enc] by auto
  moreover have "\<forall>c \<in> set ?chunks. is_chunk_text c \<and> int (length c) \<le> limit_value SERIAL_CHUNK"
    using chunked_pieces [OF w(1)] b64_encode_chars [of payload] w(2)
    by (fastforce simp: is_chunk_text_def list_all_iff SERIAL_CHUNK_def)
  moreover have "decoder_new tok cap = decoder_after tok cap []"
    by (simp add: decoder_after_def decoder_new_def)
  ultimately show ?thesis
    using decode_written [of tok "[]" ?chunks payload cap] assms(1) count size
    by (simp add: decode_lines_def frame_encode_def Let_def chunked_concat [OF w(1)] b64_roundtrip)
qed

text \<open>The empty payload is framed by a trailer that counts no chunks, which the decoder refuses.\<close>

lemma empty_frame_refused:
  assumes "hex_identifier_ok tok"
  shows "decode_lines (frame_encode [] tok) tok cap = Inl (Refusal FRAME_INCOMPLETE)"
proof -
  let ?d = "decoder_new tok cap" and ?line = "trailer_line tok 0 []"
  have l: "?line = fd_trailer_prefix ?d @ str_of_nat 0 @ SEPARATOR # sha256_hex []"
    by (simp add: trailer_line_def decoder_new_def)
  have other: "\<not> starts_with ?line (fd_chunk_prefix ?d)"
    by (simp add: l starts_with_def decoder_new_def CHUNK_PREFIX_def TRAILER_PREFIX_def)
  have "finish_frame (str_of_nat 0 @ SEPARATOR # sha256_hex []) ?d = Inl (Refusal FRAME_INCOMPLETE)"
    using index_text [of 0] sha256_hex_shape [of "[]"]
    by (simp add: finish_frame_def partition_on_append digits_no_separator is_digest_text_def)
  with other have "consume ?line ?d = (?d, Inl (Refusal FRAME_INCOMPLETE))"
    by (simp add: consume_def l starts_with_def)
  from feed_line(3) [OF _ _ _ _ this] line_shapes(2) [OF assms, of 0 "[]"]
  have "feed (?line @ [CHR 0x0A]) ?d = (?d, Inl (Refusal FRAME_INCOMPLETE))"
    by (simp add: decoder_new_def)
  moreover have "frame_encode [] tok = [?line]"
    by (simp add: frame_encode_def chunked.simps)
  ultimately show ?thesis by (simp add: decode_lines_def)
qed

subsection \<open>What the decoder answers with\<close>

text \<open>A payload is answered only with a trailer that carries its digest in what was read.\<close>

lemma partition_on_suffix: "partition_on c s = (h, True, t) \<Longrightarrow> suffix t s"
  by (drule partition_on_found) (auto simp: suffix_def)

lemma finish_frame_Inr:
  assumes "finish_frame rest d = Inr payload"
  shows "b64_decode (concat (fd_chunks d)) = Some payload \<and> fd_chunks d \<noteq> [] \<and> suffix (sha256_hex payload) rest"
proof -
  obtain n found dig where p: "partition_on SEPARATOR rest = (n, found, dig)" by (metis prod_cases3)
  with assms have d: "b64_decode (concat (fd_chunks d)) = Some payload" "sha256_hex payload = dig"
    "is_digest_text dig" "fd_chunks d \<noteq> []"
    by (auto simp: finish_frame_def split: if_splits option.splits)
  have found
  proof (rule ccontr)
    assume "\<not> found"
    then have "dig = []" using p by (induction rest arbitrary: n) (auto split: if_splits prod.splits)
    with d(3) show False by (simp add: is_digest_text_def)
  qed
  with p d partition_on_suffix show ?thesis by auto
qed

lemma consume_Some:
  "consume line d = (d', Inr (Some payload)) \<Longrightarrow>
     d' = d \<and> b64_decode (concat (fd_chunks d)) = Some payload \<and> suffix (sha256_hex payload) line"
  by (auto simp: consume_def io_then_def io_bind_def result_simps split: if_splits prod.splits sum.splits
      dest!: finish_frame_Inr intro: suffix_order.trans suffix_drop)

lemma drain_Some:
  "drain d = (d', Inr (Some payload)) \<Longrightarrow>
     fd_payload d' = Some payload \<and> b64_decode (concat (fd_chunks d')) = Some payload
     \<and> contains (fd_buffer d) (sha256_hex payload)"
proof (induction d arbitrary: d' rule: drain.induct)
  case (1 d)
  obtain line found rest where p: "partition_on CHR 0x0A (fd_buffer d) = (line, found, rest)"
    by (metis prod_cases3)
  from 1(2) p have found by (cases found) (auto simp: drain.simps [of d])
  with p have buf: "fd_buffer d = line @ CHR 0x0A # rest" by (auto dest: partition_on_found)
  let ?line = "rstrip_with (\<lambda>c. c = CHR 0x0D) line"
  have pre: "prefix ?line line"
    unfolding rstrip_with_def by (metis suffix_dropWhile suffix_to_prefix rev_rev_ident)
  obtain d1 r1 where c: "consume ?line (d\<lparr>fd_buffer := rest\<rparr>) = (d1, r1)" by fastforce
  with 1(2) p \<open>found\<close> obtain po where r1: "r1 = Inr po"
    by (cases r1) (auto simp: drain.simps [of d])
  show ?case
  proof (cases po)
    case None
    with 1(2) p \<open>found\<close> c r1 have "drain d1 = (d', Inr (Some payload))" by (simp add: drain.simps [of d])
    with 1(1) [OF p [symmetric] _ _ c [symmetric] r1 None] \<open>found\<close> have
      k: "fd_payload d' = Some payload \<and> b64_decode (concat (fd_chunks d')) = Some payload
        \<and> contains (fd_buffer d1) (sha256_hex payload)" by blast
    have "fd_buffer d1 = rest" using consume_buffer [OF c] by simp
    then have "contains (fd_buffer d) (fd_buffer d1)"
      using sublist_append_leftI [of rest "line @ [CHR 0x0A]"] by (simp add: contains_def buf)
    with k show ?thesis unfolding contains_def by (meson sublist_order.order.trans)
  next
    case (Some x)
    with 1(2) p \<open>found\<close> c r1 have d': "d' = d1\<lparr>fd_payload := Some payload\<rparr>" "x = payload"
      by (auto simp: drain.simps [of d])
    with c r1 Some consume_Some [of ?line "d\<lparr>fd_buffer := rest\<rparr>" d1 payload] have
      k: "b64_decode (concat (fd_chunks d1)) = Some payload" "suffix (sha256_hex payload) ?line" by auto
    have "sublist (sha256_hex payload) line"
      using suffix_imp_sublist [OF k(2)] prefix_imp_sublist [OF pre] by (rule sublist_order.order.trans)
    then have "sublist (sha256_hex payload) (fd_buffer d)"
      unfolding buf by (rule sublist_order.order.trans) (rule sublist_append_rightI)
    with k(1) d' show ?thesis by (simp add: contains_def)
  qed
qed

lemma feed_Some:
  assumes "feed data d = (d', Inr (Some payload))"
  shows "b64_decode (concat (fd_chunks d')) = Some payload
    \<and> contains (fd_buffer d @ data) (sha256_hex payload)"
  using assms drain_Some [of "d\<lparr>fd_buffer := fd_buffer d @ data\<rparr>" d' payload]
  by (auto simp: feed_def split: if_splits)

end
