(* ===== verification/Documents.thy ===== *)
theory Documents
  imports StoreMark
begin

section \<open>Reading a document of one's own (model/agentwire.py, oci.py)\<close>

text \<open>
  The parsers of the model begin alike: bytes that are not JSON, or not an object, are refused
  for the parser's own reason. \<open>load_document\<close> is that beginning; the request, the reply and the
  image documents follow. An object is its list of members, as \<open>json.loads\<close> builds it.
\<close>

type_synonym members = "(str \<times> json) list"

definition load_document :: "refusal_reason \<Rightarrow> bytes \<Rightarrow> members res" where
  "load_document reason payload =
     rbind (rcatch (parse_document payload) (\<lambda>e. e = JSONDecodeError \<or> e = UnicodeDecodeError)
              (Inl (Refusal reason)))
       (\<lambda>j. case j of JObj d \<Rightarrow> Inr d | _ \<Rightarrow> Inl (Refusal reason))"

definition member :: "members \<Rightarrow> str \<Rightarrow> json" where
  "member d key = dict_get d key JNull"

text \<open>The tests \<open>isinstance(value, str)\<close> and \<open>isinstance(value, dict)\<close>, with the value.\<close>

fun as_text :: "json \<Rightarrow> str option" where
  "as_text (JStr s) = Some s"
| "as_text j = None"

fun as_object :: "json \<Rightarrow> members option" where
  "as_object (JObj d) = Some d"
| "as_object j = None"

lemma as_text_Some [simp]: "as_text j = Some s \<longleftrightarrow> j = JStr s"
  by (cases j) auto

lemma as_object_Some [simp]: "as_object j = Some d \<longleftrightarrow> j = JObj d"
  by (cases j) auto

text \<open>Whether a number a document holds equals an integer; a float may, a boolean is asked about apart.\<close>

fun equals_int :: "json \<Rightarrow> int \<Rightarrow> bool" where
  "equals_int (JInt i) n \<longleftrightarrow> i = n"
| "equals_int (JFloat (Finite m e)) n \<longleftrightarrow>
     (if 0 \<le> e then m * 10 ^ nat e = n else m = n * 10 ^ nat (- e))"
| "equals_int (JBool b) n \<longleftrightarrow> (if b then 1 else 0) = n"
| "equals_int j n \<longleftrightarrow> False"

fun is_json_bool :: "json \<Rightarrow> bool" where
  "is_json_bool (JBool b) \<longleftrightarrow> True"
| "is_json_bool j \<longleftrightarrow> False"

definition is_hex_digest :: "str \<Rightarrow> bool" where
  "is_hex_digest s \<longleftrightarrow> length s = 64 \<and> list_all is_hex s"

definition DIGEST_PREFIX :: str where "DIGEST_PREFIX = ''sha256:''"

definition is_prefixed_digest :: "str \<Rightarrow> bool" where
  "is_prefixed_digest s \<longleftrightarrow> starts_with s DIGEST_PREFIX \<and> is_hex_digest (drop (length DIGEST_PREFIX) s)"

definition prefixed :: "json \<Rightarrow> refusal_reason \<Rightarrow> str res" where
  "prefixed j reason =
     (case j of JStr s \<Rightarrow> if is_prefixed_digest s then Inr s else Inl (Refusal reason)
      | _ \<Rightarrow> Inl (Refusal reason))"

lemma parse_document_Inl: "parse_document p = Inl e \<Longrightarrow> e = JSONDecodeError \<or> e = UnicodeDecodeError"
  by (auto simp: parse_document_def json_loads_str_def split: if_splits option.splits prod.splits)

lemma load_document_Inl: "load_document reason p = Inl e \<Longrightarrow> e = Refusal reason"
  by (cases "parse_document p")
    (auto simp: load_document_def split: json.splits if_splits dest!: parse_document_Inl)

lemma load_document_canonical:
  "plain_json (JObj d) \<Longrightarrow> load_document reason (canonical (JObj d)) = Inr (sort_key fst (sort_members d))"
  by (simp add: load_document_def read_value_canonical)

lemma member_sorted:
  "distinct (map fst d) \<Longrightarrow> member (sort_key fst (sort_members d)) k = (case map_of d k of None \<Rightarrow> JNull | Some j \<Rightarrow> sort_json j)"
  by (simp add: member_def dict_get_def map_of_sort_key keys_sort_members map_of_sort_members
        split: option.splits)

lemma parse_prefixed: "is_prefixed_digest s \<Longrightarrow> \<exists>d. parse_digest s = Inr d \<and> digest_str d = s \<and> digest_ok d"
proof -
  assume s: "is_prefixed_digest s"
  then obtain h where h: "s = DIGEST_PREFIX @ h" "is_hex_digest h"
    by (auto simp: is_prefixed_digest_def starts_with_def prefix_def)
  have "partition_on CHR '':'' s = (''sha256'', True, h)"
    using partition_on_append [of "CHR '':''" "''sha256''" h] by (simp add: h(1) DIGEST_PREFIX_def)
  with h show ?thesis
    by (simp add: parse_digest_def DIGEST_ALGORITHM_def digest_str_def digest_ok_def is_hex_digest_def DIGEST_PREFIX_def)
qed

subsection \<open>agentwire.py\<close>

definition PROTOCOL_VERSION :: int where "PROTOCOL_VERSION = 1"

definition protocol :: "members \<Rightarrow> unit res" where
  "protocol d =
     (if is_json_bool (member d ''protocol'') \<or> \<not> equals_int (member d ''protocol'') PROTOCOL_VERSION
      then Inl (Refusal PROTOCOL_MISMATCH) else Inr ())"

record agent_request =
  rq_host_version :: str
  rq_unit :: probe_id
  rq_arguments :: members
  rq_agent_digest :: digest

definition named_unit :: "str \<Rightarrow> probe_id res" where
  "named_unit s = rcatch (mk_dotted_name s) is_refusal (Inl (Refusal REQUEST_MALFORMED))"

definition request_parse :: "bytes \<Rightarrow> agent_request res" where
  "request_parse payload =
     rbind (load_document REQUEST_MALFORMED payload) (\<lambda>d.
     rbind (protocol d) (\<lambda>_.
       case (as_text (member d ''host_version''), as_text (member d ''unit''),
             as_object (dict_get d ''arguments'' (JObj [])), as_text (member d ''agent_digest'')) of
         (Some host_version, Some unit, Some arguments, Some digest) \<Rightarrow>
           if \<not> is_hex_digest digest then Inl (Refusal REQUEST_MALFORMED)
           else rbind (named_unit unit) (\<lambda>named.
                rbind (mk_digest digest) (\<lambda>dg.
                  Inr \<lparr>rq_host_version = host_version, rq_unit = named, rq_arguments = arguments,
                       rq_agent_digest = dg\<rparr>))
       | _ \<Rightarrow> Inl (Refusal REQUEST_MALFORMED)))"

definition request_document :: "agent_request \<Rightarrow> json" where
  "request_document r = JObj
     [(''protocol'', JInt PROTOCOL_VERSION), (''host_version'', JStr (rq_host_version r)),
      (''unit'', JStr (name_value (rq_unit r))), (''arguments'', JObj (rq_arguments r)),
      (''agent_digest'', JStr (digest_hex (rq_agent_digest r)))]"

record agent_reply =
  rp_unit :: probe_id
  rp_observations :: members

definition answering :: "agent_request \<Rightarrow> members \<Rightarrow> agent_reply" where
  "answering r observations = \<lparr>rp_unit = rq_unit r, rp_observations = observations\<rparr>"

definition reply_document :: "agent_reply \<Rightarrow> json" where
  "reply_document r = JObj
     [(''protocol'', JInt PROTOCOL_VERSION), (''unit'', JStr (name_value (rp_unit r))),
      (''observations'', JObj (rp_observations r))]"

definition reply_parse :: "bytes \<Rightarrow> agent_reply res" where
  "reply_parse payload =
     rbind (load_document REQUEST_MALFORMED payload) (\<lambda>d.
     rbind (protocol d) (\<lambda>_.
       case (as_text (member d ''unit''), as_object (member d ''observations'')) of
         (Some unit, Some observations) \<Rightarrow>
           rbind (named_unit unit) (\<lambda>named. Inr \<lparr>rp_unit = named, rp_observations = observations\<rparr>)
       | _ \<Rightarrow> Inl (Refusal REQUEST_MALFORMED)))"

definition handshake :: "str \<Rightarrow> json" where
  "handshake agent_version = JObj [(''protocol'', JInt PROTOCOL_VERSION), (''agent_version'', JStr agent_version)]"

text \<open>What the host sends is what the guest reads, its arguments with their keys in order.\<close>

definition request_ok :: "agent_request \<Rightarrow> bool" where
  "request_ok r \<longleftrightarrow> list_all is_ascii (rq_host_version r) \<and> dotted_name_ok (rq_unit r)
     \<and> plain_json (JObj (rq_arguments r)) \<and> digest_ok (rq_agent_digest r)"

lemma named_unit_ok: "dotted_name_ok n \<Longrightarrow> named_unit (name_value n) = Inr n"
  by (cases n) (simp add: named_unit_def mk_dotted_name_def dotted_name_ok_def)

lemma plain_request: "request_ok r \<Longrightarrow> plain_json (request_document r)"
  by (simp add: request_ok_def request_document_def name_ascii digest_ascii)

lemma request_roundtrip:
  assumes "request_ok r"
  shows "request_parse (canonical (request_document r)) =
    Inr (r\<lparr>rq_arguments := sort_key fst (sort_members (rq_arguments r))\<rparr>)"
proof -
  obtain d where d: "request_document r = JObj d" "distinct (map fst d)"
    "map_of d ''protocol'' = Some (JInt 1)" "map_of d ''host_version'' = Some (JStr (rq_host_version r))"
    "map_of d ''unit'' = Some (JStr (name_value (rq_unit r)))"
    "map_of d ''arguments'' = Some (JObj (rq_arguments r))"
    "map_of d ''agent_digest'' = Some (JStr (digest_hex (rq_agent_digest r)))"
    by (simp add: request_document_def PROTOCOL_VERSION_def)
  let ?s = "sort_key fst (sort_members d)"
  have l: "load_document REQUEST_MALFORMED (canonical (request_document r)) = Inr ?s"
    using plain_request [OF assms] d(1) by (simp add: load_document_canonical)
  have m: "member ?s ''protocol'' = JInt 1" "member ?s ''host_version'' = JStr (rq_host_version r)"
    "member ?s ''unit'' = JStr (name_value (rq_unit r))"
    "dict_get ?s ''arguments'' x = JObj (sort_key fst (sort_members (rq_arguments r)))"
    "member ?s ''agent_digest'' = JStr (digest_hex (rq_agent_digest r))" for x
    using d by (simp_all add: member_sorted dict_get_def map_of_sort_key keys_sort_members map_of_sort_members)
  have "is_hex_digest (digest_hex (rq_agent_digest r))"
    using assms by (simp add: request_ok_def is_hex_digest_def digest_ok_def)
  with assms l m show ?thesis
    by (simp add: mk_digest_hex request_parse_def protocol_def PROTOCOL_VERSION_def named_unit_ok request_ok_def)
qed

definition reply_ok :: "agent_reply \<Rightarrow> bool" where
  "reply_ok r \<longleftrightarrow> dotted_name_ok (rp_unit r) \<and> plain_json (JObj (rp_observations r))"

lemma reply_roundtrip:
  assumes "reply_ok r"
  shows "reply_parse (canonical (reply_document r)) =
    Inr (r\<lparr>rp_observations := sort_key fst (sort_members (rp_observations r))\<rparr>)"
proof -
  obtain d where d: "reply_document r = JObj d" "distinct (map fst d)"
    "map_of d ''protocol'' = Some (JInt 1)" "map_of d ''unit'' = Some (JStr (name_value (rp_unit r)))"
    "map_of d ''observations'' = Some (JObj (rp_observations r))"
    by (simp add: reply_document_def PROTOCOL_VERSION_def)
  let ?s = "sort_key fst (sort_members d)"
  have "plain_json (reply_document r)" using assms by (simp add: reply_ok_def reply_document_def name_ascii)
  then have l: "load_document REQUEST_MALFORMED (canonical (reply_document r)) = Inr ?s"
    using d(1) by (simp add: load_document_canonical)
  have m: "member ?s ''protocol'' = JInt 1" "member ?s ''unit'' = JStr (name_value (rp_unit r))"
    "member ?s ''observations'' = JObj (sort_key fst (sort_members (rp_observations r)))"
    using d by (simp_all add: member_sorted)
  with assms l show ?thesis
    by (simp add: reply_parse_def protocol_def PROTOCOL_VERSION_def named_unit_ok reply_ok_def)
qed

text \<open>Whatever is sent, a request is read or refused: no other error leaves the parser.\<close>

lemma named_unit_Inl: "named_unit s = Inl e \<Longrightarrow> e = Refusal REQUEST_MALFORMED"
  by (auto simp: named_unit_def mk_dotted_name_def rcatch_def split: if_splits sum.splits)

lemma protocol_Inl: "protocol d = Inl e \<Longrightarrow> e = Refusal PROTOCOL_MISMATCH"
  by (auto simp: protocol_def split: if_splits)

lemma request_parse_Inl:
  "request_parse payload = Inl e \<Longrightarrow> e = Refusal REQUEST_MALFORMED \<or> e = Refusal PROTOCOL_MISMATCH"
  by (auto simp: request_parse_def rbind_eq_Inl mk_digest_def is_hex_digest_def
      split: option.splits if_splits dest!: load_document_Inl protocol_Inl named_unit_Inl)

subsection \<open>oci.py\<close>

definition CONFIG_KEY :: str where "CONFIG_KEY = ''config''"
definition DIGEST_KEY :: str where "DIGEST_KEY = ''digest''"

record frozen_image =
  fi_profile :: str
  fi_digest :: digest
  fi_image_id :: image_id

definition frozen_parse :: "bytes \<Rightarrow> frozen_image res" where
  "frozen_parse payload =
     rbind (load_document MALFORMED_IMAGE_DOCUMENT payload) (\<lambda>d.
       case member d ''profile'' of
         JStr profile \<Rightarrow>
           if profile = [] then Inl (Refusal MALFORMED_IMAGE_DOCUMENT)
           else
             rbind (rbind (prefixed (member d ''digest'') MALFORMED_IMAGE_DOCUMENT) parse_digest) (\<lambda>digest.
             rbind (rbind (prefixed (member d ''image_id'') MALFORMED_IMAGE_DOCUMENT) parse_digest) (\<lambda>image.
               Inr \<lparr>fi_profile = profile, fi_digest = digest, fi_image_id = image\<rparr>))
       | _ \<Rightarrow> Inl (Refusal MALFORMED_IMAGE_DOCUMENT))"

definition config_digest :: "bytes \<Rightarrow> image_id res" where
  "config_digest payload =
     rbind (load_document MALFORMED_OCI_MANIFEST payload) (\<lambda>d.
       case member d CONFIG_KEY of
         JObj config \<Rightarrow> rbind (prefixed (member config DIGEST_KEY) MALFORMED_OCI_MANIFEST) parse_digest
       | _ \<Rightarrow> Inl (Refusal MALFORMED_OCI_MANIFEST))"

lemma prefixed_Inl: "prefixed j reason = Inl e \<Longrightarrow> e = Refusal reason"
  by (auto simp: prefixed_def split: json.splits if_splits)

lemma prefixed_digest_Inl: "rbind (prefixed j reason) parse_digest = Inl e \<Longrightarrow> e = Refusal reason"
  using parse_prefixed
  by (fastforce simp: rbind_eq_Inl prefixed_def split: json.splits if_splits)

lemma frozen_parse_Inl:
  assumes "frozen_parse payload = Inl e"
  shows "e = Refusal MALFORMED_IMAGE_DOCUMENT"
proof (cases "load_document MALFORMED_IMAGE_DOCUMENT payload")
  case (Inl e')
  with assms show ?thesis by (simp add: frozen_parse_def load_document_Inl)
next
  case (Inr d)
  with assms show ?thesis
    by (cases "member d ''profile''")
      (auto simp: frozen_parse_def rbind_eq_Inl [of "rbind m f" for m f] split: if_splits dest: prefixed_digest_Inl)
qed

lemma config_digest_Inl:
  assumes "config_digest payload = Inl e"
  shows "e = Refusal MALFORMED_OCI_MANIFEST"
proof (cases "load_document MALFORMED_OCI_MANIFEST payload")
  case (Inl e')
  with assms show ?thesis by (simp add: config_digest_def load_document_Inl)
next
  case (Inr d)
  with assms show ?thesis
    by (cases "member d CONFIG_KEY") (auto simp: config_digest_def dest: prefixed_digest_Inl)
qed

end
