(* ===== verification/Builds.thy ===== *)
theory Builds
  imports Documents Claims SafePaths
begin

section \<open>Build records and artifact inventories (model/builds.py, model/bundles.py)\<close>

text \<open>
  The record a build leaves, when a parent build may be built upon, and the signed inventory of
  an artifact directory. A record reads back as it was written; a parent is accepted only when
  its three documents agree; an inventory names no path outside its directory.
\<close>

datatype profile = FEDORA | CACHYOS

fun profile_value :: "profile \<Rightarrow> str" where
  "profile_value FEDORA = ''fedora''"
| "profile_value CACHYOS = ''cachyos''"

definition profile_reviewed :: "profile \<Rightarrow> bool" where
  "profile_reviewed p \<longleftrightarrow> p = FEDORA"

datatype artifact_kind =
  IMAGE | QCOW2 | INSTALLER | LIVE | NVIDIA | FINGERPRINT_RPMS | FINGERPRINT_IMAGE

fun artifact_kind_value :: "artifact_kind \<Rightarrow> str" where
  "artifact_kind_value IMAGE = ''image''"
| "artifact_kind_value QCOW2 = ''qcow2''"
| "artifact_kind_value INSTALLER = ''installer''"
| "artifact_kind_value LIVE = ''live''"
| "artifact_kind_value NVIDIA = ''nvidia''"
| "artifact_kind_value FINGERPRINT_RPMS = ''fingerprint-rpms''"
| "artifact_kind_value FINGERPRINT_IMAGE = ''fingerprint-image''"

definition artifact_kinds :: "artifact_kind list" where
  "artifact_kinds = [IMAGE, QCOW2, INSTALLER, LIVE, NVIDIA, FINGERPRINT_RPMS, FINGERPRINT_IMAGE]"

definition ROOT_KINDS :: "artifact_kind list" where "ROOT_KINDS = [IMAGE, FINGERPRINT_RPMS]"
definition PACKAGE_KINDS :: "artifact_kind list" where "PACKAGE_KINDS = [NVIDIA, FINGERPRINT_RPMS]"

definition GUEST_SCRIPTS :: "(artifact_kind, str) dict" where
  "GUEST_SCRIPTS =
     [(IMAGE, ''build.sh''), (LIVE, ''live-artifact.sh''), (NVIDIA, ''nvidia-build.py''),
      (FINGERPRINT_RPMS, ''fingerprint-rpms.py''), (FINGERPRINT_IMAGE, ''fingerprint-image.py'')]"

definition kind_derived :: "artifact_kind \<Rightarrow> bool" where
  "kind_derived k \<longleftrightarrow> k \<notin> set ROOT_KINDS"

definition kind_packaged :: "artifact_kind \<Rightarrow> bool" where
  "kind_packaged k \<longleftrightarrow> k \<in> set PACKAGE_KINDS"

definition guest_script :: "artifact_kind \<Rightarrow> str" where
  "guest_script k = (case map_of GUEST_SCRIPTS k of None \<Rightarrow> ''disk-artifact.sh'' | Some s \<Rightarrow> s)"

datatype build_status = PASS | FAIL

fun build_status_value :: "build_status \<Rightarrow> str" where
  "build_status_value PASS = ''PASS''"
| "build_status_value FAIL = ''FAIL''"

record build_record =
  br_status :: build_status
  br_kind :: artifact_kind
  br_profile :: profile
  br_source :: digest
  br_remote :: remote_path
  br_parent :: "build_id option"
  br_test_access :: bool

definition build_document :: "build_record \<Rightarrow> json" where
  "build_document r = JObj
     [(''status'', JStr (build_status_value (br_status r))),
      (''kind'', JStr (artifact_kind_value (br_kind r))),
      (''profile'', JStr (profile_value (br_profile r))),
      (''source_sha256'', JStr (digest_hex (br_source r))),
      (''remote'', JStr (remote_path_value (br_remote r))),
      (''parent_build'', (case br_parent r of None \<Rightarrow> JNull | Some b \<Rightarrow> JStr (identifier_value b))),
      (''test_access'', JBool (br_test_access r))]"

definition item_text :: "members \<Rightarrow> str \<Rightarrow> (str \<Rightarrow> 'a res) \<Rightarrow> 'a res" where
  "item_text d key f = rbind (of_option KeyError (map_of d key)) (f \<circ> py_str)"

definition build_fields :: "members \<Rightarrow> build_record res" where
  "build_fields d =
     rbind (item_text d ''status'' (enum_of build_status_value [PASS, FAIL])) (\<lambda>status.
     rbind (item_text d ''kind'' (enum_of artifact_kind_value artifact_kinds)) (\<lambda>kind.
     rbind (item_text d ''profile'' (enum_of profile_value [FEDORA, CACHYOS])) (\<lambda>prof.
     rbind (item_text d ''source_sha256'' mk_digest) (\<lambda>source.
     rbind (item_text d ''remote'' mk_remote_path) (\<lambda>remote.
     rbind (if member d ''parent_build'' = JNull then Inr None
            else map_sum id Some (parse_hex_identifier (py_str (member d ''parent_build'')))) (\<lambda>parent.
       Inr \<lparr>br_status = status, br_kind = kind, br_profile = prof, br_source = source,
            br_remote = remote, br_parent = parent,
            br_test_access = py_bool (dict_get d ''test_access'' (JBool False))\<rparr>))))))"

definition build_parse :: "bytes \<Rightarrow> build_record res" where
  "build_parse payload =
     rbind (load_document BUILD_RECORD_MALFORMED payload) (\<lambda>d.
       rcatch (build_fields d) (\<lambda>e. e = KeyError \<or> is_value_error e \<or> is_refusal e)
         (Inl (Refusal BUILD_RECORD_MALFORMED)))"

definition require_frozen :: "build_record \<Rightarrow> frozen_image \<Rightarrow> bytes \<Rightarrow> frozen_image res" where
  "require_frozen built frozen manifest =
     (if br_status built \<noteq> PASS \<or> br_kind built \<noteq> IMAGE then Inl (Refusal BUILD_PARENT_NOT_COMPLETE)
      else if fi_digest frozen \<noteq> digest_bytes manifest then Inl (Refusal FROZEN_IMAGE_MISMATCH)
      else rbind (config_digest manifest) (\<lambda>named.
             if named \<noteq> fi_image_id frozen then Inl (Refusal FROZEN_IMAGE_MISMATCH) else Inr frozen))"

lemma require_frozen_Inr:
  "require_frozen r frozen manifest = Inr img \<longleftrightarrow>
     img = frozen \<and> br_status r = PASS \<and> br_kind r = IMAGE
   \<and> fi_digest frozen = digest_bytes manifest \<and> config_digest manifest = Inr (fi_image_id frozen)"
  by (auto simp: require_frozen_def rbind_eq_Inr)

lemma require_frozen_Inl:
  "require_frozen r frozen manifest = Inl e \<Longrightarrow>
     e \<in> {Refusal BUILD_PARENT_NOT_COMPLETE, Refusal FROZEN_IMAGE_MISMATCH, Refusal MALFORMED_OCI_MANIFEST}"
  by (auto simp: require_frozen_def rbind_eq_Inl split: if_splits dest: config_digest_Inl)

lemma artifact_kind_back: "enum_of artifact_kind_value artifact_kinds (artifact_kind_value k) = Inr k"
proof (rule enum_of_value)
  show "inj_on artifact_kind_value (set artifact_kinds)"
    by (auto simp: inj_on_def artifact_kinds_def)
  show "k \<in> set artifact_kinds" by (cases k) (simp_all add: artifact_kinds_def)
qed

lemma build_enums_back:
  "enum_of build_status_value [PASS, FAIL] (build_status_value s) = Inr s"
  "enum_of profile_value [FEDORA, CACHYOS] (profile_value p) = Inr p"
  by (cases s; simp add: enum_of_def) (cases p; simp add: enum_of_def)

definition build_ok :: "build_record \<Rightarrow> bool" where
  "build_ok r \<longleftrightarrow> digest_ok (br_source r) \<and> (\<forall>b. br_parent r = Some b \<longrightarrow> hex_identifier_ok b)
     \<and> mk_remote_path (remote_path_value (br_remote r)) = Inr (br_remote r)"

lemma class_ascii: "is_lower c \<or> is_upper c \<or> is_digit c \<or> c \<in> set ''._/-'' \<Longrightarrow> is_ascii c"
  by (auto simp: is_lower_def is_upper_def is_digit_def is_ascii_def byte_of_def less_eq_char_def)

lemma remote_ascii: "mk_remote_path s = Inr r \<Longrightarrow> list_all is_ascii s"
  unfolding mk_remote_path_def fullmatch_SAFE_REMOTE_PATH
  by (auto simp: list_all_iff split: if_splits intro!: class_ascii)

lemma build_values_ascii [simp]:
  "list_all is_ascii (build_status_value s)" "list_all is_ascii (artifact_kind_value k)"
  "list_all is_ascii (profile_value p)"
proof -
  show "list_all is_ascii (build_status_value s)" by (cases s) simp_all
  show "list_all is_ascii (artifact_kind_value k)" by (cases k) simp_all
  show "list_all is_ascii (profile_value p)" by (cases p) simp_all
qed

lemma build_roundtrip:
  assumes "build_ok r"
  shows "build_parse (canonical (build_document r)) = Inr r"
proof -
  obtain d where d: "build_document r = JObj d" "distinct (map fst d)"
    "map_of d ''status'' = Some (JStr (build_status_value (br_status r)))"
    "map_of d ''kind'' = Some (JStr (artifact_kind_value (br_kind r)))"
    "map_of d ''profile'' = Some (JStr (profile_value (br_profile r)))"
    "map_of d ''source_sha256'' = Some (JStr (digest_hex (br_source r)))"
    "map_of d ''remote'' = Some (JStr (remote_path_value (br_remote r)))"
    "map_of d ''parent_build'' = Some (case br_parent r of None \<Rightarrow> JNull | Some b \<Rightarrow> JStr (identifier_value b))"
    "map_of d ''test_access'' = Some (JBool (br_test_access r))"
    by (simp add: build_document_def)
  let ?s = "sort_key fst (sort_members d)"
  have "plain_json (build_document r)"
    using assms by (auto simp: build_document_def build_ok_def digest_ascii identifier_ascii remote_ascii split: option.splits)
  then have l: "load_document BUILD_RECORD_MALFORMED (canonical (build_document r)) = Inr ?s"
    using d(1) by (simp add: load_document_canonical)
  have get: "map_of ?s k = map_option sort_json (map_of d k)" for k
    using d(2) by (simp add: map_of_sort_key keys_sort_members map_of_sort_members)
  have p: "member ?s ''parent_build'' = (case br_parent r of None \<Rightarrow> JNull | Some b \<Rightarrow> JStr (identifier_value b))"
    using d by (auto simp: member_sorted split: option.splits)
  have b: "parse_hex_identifier (identifier_value x) = Inr x" if "br_parent r = Some x" for x
    using assms that by (cases x) (simp add: build_ok_def parse_hex_identifier_def)
  have i: "item_text ?s ''status'' (enum_of build_status_value [PASS, FAIL]) = Inr (br_status r)"
    "item_text ?s ''kind'' (enum_of artifact_kind_value artifact_kinds) = Inr (br_kind r)"
    "item_text ?s ''profile'' (enum_of profile_value [FEDORA, CACHYOS]) = Inr (br_profile r)"
    "item_text ?s ''source_sha256'' mk_digest = Inr (br_source r)"
    "item_text ?s ''remote'' mk_remote_path = Inr (br_remote r)"
    using d(3-7) assms
    by (simp_all add: item_text_def get build_enums_back artifact_kind_back build_ok_def mk_digest_hex del: mk_digest_Inr)
  have "build_fields ?s = Inr r"
    using b d(9) by (cases "br_parent r") (simp_all add: build_fields_def i p dict_get_def get)
  with l show ?thesis by (simp add: build_parse_def)
qed

subsection \<open>bundles.py\<close>

definition MANIFEST_NAME :: str where "MANIFEST_NAME = ''artifacts.json''"
definition SIGNATURE_NAME :: str where "SIGNATURE_NAME = ''artifacts.sig''"
definition BUNDLED_KEY_NAME :: str where "BUNDLED_KEY_NAME = ''development-signing.pub''"
definition OCI_MANIFEST_NAMES :: "str list" where
  "OCI_MANIFEST_NAMES = [''manifest.json'', ''payload-manifest.json'']"
definition BUNDLE_SCHEMA :: int where "BUNDLE_SCHEMA = 1"

definition relative_path :: "str \<Rightarrow> str res" where
  "relative_path name =
     (if name = [] \<or> starts_with name ''/'' then Inl (Refusal MALFORMED_ARTIFACT_MANIFEST)
      else if ''..'' \<in> set (split_on CHR ''/'' name) then Inl (Refusal MALFORMED_ARTIFACT_MANIFEST)
      else Inr name)"

definition bundle_file :: "(str, digest) dict \<Rightarrow> str \<times> json \<Rightarrow> (str, digest) dict res" where
  "bundle_file files nj = (case as_text (snd nj) of
     None \<Rightarrow> Inl (Refusal MALFORMED_ARTIFACT_MANIFEST)
   | Some digest \<Rightarrow>
       if \<not> is_hex_digest digest then Inl (Refusal MALFORMED_ARTIFACT_MANIFEST)
       else rbind (relative_path (fst nj)) (\<lambda>name.
            rbind (mk_digest digest) (\<lambda>dg. Inr (dict_set name dg files))))"

definition bundle_files :: "members \<Rightarrow> (str, digest) dict res" where
  "bundle_files d =
     (case as_object (member d ''files'') of
        None \<Rightarrow> Inl (Refusal MALFORMED_ARTIFACT_MANIFEST)
      | Some listed \<Rightarrow>
          if listed = [] then Inl (Refusal MALFORMED_ARTIFACT_MANIFEST)
          else rfold bundle_file [] listed)"

record artifact_manifest =
  am_digest :: digest
  am_files :: "(str, digest) dict"
  am_purpose :: "str option"

definition manifest_parse :: "bytes \<Rightarrow> artifact_manifest res" where
  "manifest_parse payload =
     rbind (load_document MALFORMED_ARTIFACT_MANIFEST payload) (\<lambda>d.
       if is_json_bool (member d ''schema'') \<or> \<not> equals_int (member d ''schema'') BUNDLE_SCHEMA
       then Inl (Refusal MALFORMED_ARTIFACT_MANIFEST)
       else
         rbind (rbind (prefixed (member d ''digest'') MALFORMED_ARTIFACT_MANIFEST) parse_digest) (\<lambda>digest.
         rbind (bundle_files d) (\<lambda>files.
           Inr \<lparr>am_digest = digest, am_files = files, am_purpose = as_text (member d ''purpose'')\<rparr>)))"

definition permitted_paths :: "artifact_manifest \<Rightarrow> str set" where
  "permitted_paths m = set (map fst (am_files m)) \<union> {MANIFEST_NAME, SIGNATURE_NAME, BUNDLED_KEY_NAME}"

definition oci_manifest_names :: "artifact_manifest \<Rightarrow> str list" where
  "oci_manifest_names m = filter (\<lambda>name. dict_has (am_files m) name) OCI_MANIFEST_NAMES"

definition inside :: "str \<Rightarrow> bool" where
  "inside path \<longleftrightarrow> path \<noteq> [] \<and> \<not> starts_with path ''/'' \<and> ''..'' \<notin> set (split_on CHR ''/'' path)"

lemma relative_path_Inr: "relative_path n = Inr p \<longleftrightarrow> p = n \<and> inside n"
  by (auto simp: relative_path_def inside_def)

lemma bundle_files_inside:
  assumes "bundle_files d = Inr files"
  shows "files \<noteq> [] \<and> (\<forall>(n, dg) \<in> set files. inside n \<and> digest_ok dg)"
proof -
  from assms obtain listed where l: "listed \<noteq> []" "rfold bundle_file [] listed = Inr files"
    by (auto simp: bundle_files_def split: option.splits if_splits)
  let ?good = "\<lambda>t. \<forall>(n, dg) \<in> set t. inside n \<and> digest_ok dg"
  have step: "t \<noteq> [] \<and> ?good t" if good: "?good s" and one: "bundle_file s x = Inr t" for s x t
  proof -
    from one obtain n dg where t: "t = dict_set n dg s" "inside n" "digest_ok dg"
      by (auto simp: bundle_file_def rbind_eq_Inr relative_path_Inr split: option.splits if_splits)
    with good set_dict_set [of n dg s] show ?thesis by fastforce
  qed
  obtain x xs where x: "listed = x # xs" using l(1) by (cases listed) auto
  with l(2) obtain t where t: "bundle_file [] x = Inr t" "rfold bundle_file t xs = Inr files"
    by (auto simp: rbind_eq_Inr)
  have start: "t \<noteq> [] \<and> ?good t" using step [OF _ t(1)] by simp
  show ?thesis
  proof (rule rfold_invariant [OF t(2), of "\<lambda>t. t \<noteq> [] \<and> ?good t"])
    fix s y s' assume "s \<noteq> [] \<and> ?good s" "bundle_file s y = Inr s'"
    then show "s' \<noteq> [] \<and> ?good s'" using step by blast
  qed (rule start)
qed

end
