(* ===== verification/Extents.thy ===== *)
theory Extents
  imports KernelValues JsonProps
begin

section \<open>Shared extents as the kernel is asked for them (model/extents.py)\<close>

text \<open>
  The request and reply of \<open>FIDEDUPERANGE\<close> are packed by \<open>struct\<close> in the x86\_64 layout, least
  significant byte first; a value that does not fit its field is a \<open>struct.error\<close>. A file is
  submitted as ranges that cover its aligned prefix once, in order, none longer than a chunk.
\<close>

definition FIDEDUPERANGE :: int where "FIDEDUPERANGE = 3222836278"
definition CHUNK :: mib where "CHUNK = Mib 16"
definition ALIGNMENT :: int where "ALIGNMENT = 4096"
definition SAME_DATA :: int where "SAME_DATA = 0"
definition DIFFERS :: int where "DIFFERS = 1"

fun le_bytes :: "nat \<Rightarrow> int \<Rightarrow> bytes" where
  "le_bytes 0 v = []"
| "le_bytes (Suc n) v = char_of (nat (v mod 256)) # le_bytes n (v div 256)"

fun le_value :: "bytes \<Rightarrow> int" where
  "le_value [] = 0"
| "le_value (c # s) = int (byte_of c) + 256 * le_value s"

definition pack_unsigned :: "nat \<Rightarrow> int \<Rightarrow> bytes res" where
  "pack_unsigned n v = (if 0 \<le> v \<and> v < 256 ^ n then Inr (le_bytes n v) else Inl StructError)"

definition pack_signed :: "nat \<Rightarrow> int \<Rightarrow> bytes res" where
  "pack_signed n v =
     (if - (256 ^ n div 2) \<le> v \<and> v < 256 ^ n div 2 then Inr (le_bytes n (v mod 256 ^ n)) else Inl StructError)"

definition unpack_signed :: "bytes \<Rightarrow> int" where
  "unpack_signed s =
     (let v = le_value s in if v < 256 ^ length s div 2 then v else v - 256 ^ length s)"

definition HEADER_SIZE :: nat where "HEADER_SIZE = 24"
definition INFO_SIZE :: nat where "INFO_SIZE = 32"

record dedupe_range =
  dr_offset :: int
  dr_length :: int

definition mk_dedupe_range :: "int \<Rightarrow> int \<Rightarrow> dedupe_range res" where
  "mk_dedupe_range offset len =
     (if offset < 0 \<or> len \<le> 0 \<or> \<not> (offset mod ALIGNMENT = 0 \<and> len mod ALIGNMENT = 0)
      then Inl (Refusal FIXTURE_REQUEST_MALFORMED)
      else Inr \<lparr>dr_offset = offset, dr_length = len\<rparr>)"

record dedupe_outcome =
  do_bytes_deduped :: int
  do_status :: int

definition outcome_complete :: "dedupe_outcome \<Rightarrow> bool" where
  "outcome_complete o1 \<longleftrightarrow> do_status o1 = SAME_DATA"

definition outcome_differed :: "dedupe_outcome \<Rightarrow> bool" where
  "outcome_differed o1 \<longleftrightarrow> do_status o1 = DIFFERS"

definition info_buffer :: "int \<Rightarrow> int \<Rightarrow> int \<Rightarrow> int \<Rightarrow> bytes res" where
  "info_buffer descriptor offset deduped status =
     map_sum id concat (rmapM id
       [pack_signed 8 descriptor, pack_unsigned 8 offset, pack_unsigned 8 deduped, pack_signed 4 status,
        pack_unsigned 4 0])"

definition header_buffer :: "dedupe_range \<Rightarrow> bytes res" where
  "header_buffer extent =
     map_sum id concat (rmapM id
       [pack_unsigned 8 (dr_offset extent), pack_unsigned 8 (dr_length extent), pack_unsigned 2 1,
        pack_unsigned 2 0, pack_unsigned 4 0])"

definition request_buffer :: "dedupe_range \<Rightarrow> int \<Rightarrow> bytes res" where
  "request_buffer extent target_descriptor =
     rbind (header_buffer extent) (\<lambda>header.
     rbind (info_buffer target_descriptor (dr_offset extent) 0 0) (\<lambda>info. Inr (header @ info)))"

definition outcome_of :: "bytes \<Rightarrow> dedupe_outcome res" where
  "outcome_of buffer =
     (if length buffer < HEADER_SIZE + INFO_SIZE then Inl StructError
      else
        (let info = drop HEADER_SIZE buffer
         in Inr \<lparr>do_bytes_deduped = le_value (take 8 (drop 16 info)),
                 do_status = unpack_signed (take 4 (drop 24 info))\<rparr>))"

definition shareable_length :: "int \<Rightarrow> int" where
  "shareable_length total_size = total_size div ALIGNMENT * ALIGNMENT"

text \<open>\<open>range(0, total, step)\<close>.\<close>

definition py_range :: "int \<Rightarrow> int \<Rightarrow> int list" where
  "py_range tot step = map (\<lambda>k. int k * step) [0..<nat ((tot + step - 1) div step)]"

definition spans :: "int \<Rightarrow> dedupe_range list res" where
  "spans total_size =
     (let tot = shareable_length total_size
      in rmapM (\<lambda>offset. mk_dedupe_range offset (min (mib_bytes CHUNK) (tot - offset)))
           (py_range tot (mib_bytes CHUNK)))"

subsection \<open>The layout\<close>

lemma length_le_bytes [simp]: "length (le_bytes n v) = n"
  by (induction n arbitrary: v) simp_all

lemma le_value_le_bytes: "0 \<le> v \<Longrightarrow> v < 256 ^ n \<Longrightarrow> le_value (le_bytes n v) = v"
proof (induction n arbitrary: v)
  case (Suc n)
  have "v < 256 * 256 ^ n" using Suc.prems(2) by simp
  then have "v div 256 < 256 ^ n" by linarith
  moreover have "int (byte_of (char_of (nat (v mod 256)))) = v mod 256" by simp
  ultimately show ?case using Suc by (simp add: Suc.IH)
qed simp

lemma le_value_append: "le_value (a @ b) = le_value a + 256 ^ length a * le_value b"
  by (induction a) (simp_all add: algebra_simps)

lemma unpack_pack_signed:
  assumes "pack_signed n v = Inr b"
  shows "length b = n \<and> (0 < n \<longrightarrow> unpack_signed b = v)"
proof -
  let ?m = "256 ^ n :: int"
  from assms have v: "- (?m div 2) \<le> v" "v < ?m div 2" "b = le_bytes n (v mod ?m)"
    by (auto simp: pack_signed_def split: if_splits)
  have m: "le_value b = v mod ?m"
    unfolding v(3) by (rule le_value_le_bytes) simp_all
  have "unpack_signed b = v" if "0 < n"
  proof -
    have even: "?m div 2 + ?m div 2 = ?m" using that by (cases n) auto
    show ?thesis
    proof (cases "0 \<le> v")
      case True
      then have "v mod ?m = v" using v(2) even by (intro mod_pos_pos_trivial) auto
      with v(2) m v(3) show ?thesis by (simp add: unpack_signed_def Let_def)
    next
      case False
      then have "(v + ?m) mod ?m = v + ?m" using v(1) even by (intro mod_pos_pos_trivial) auto
      then have "v mod ?m = v + ?m" by simp
      with v m even show ?thesis by (simp add: unpack_signed_def Let_def)
    qed
  qed
  with v(3) show ?thesis by simp
qed

text \<open>A reply the kernel wrote into the buffer reads back as its count and its status.\<close>

lemma outcome_of_reply:
  assumes "header_buffer extent = Inr header" "info_buffer descriptor offset deduped status = Inr info"
  shows "outcome_of (header @ info) = Inr \<lparr>do_bytes_deduped = deduped, do_status = status\<rparr>"
proof -
  from assms(1) have h: "length header = HEADER_SIZE"
    by (auto simp: header_buffer_def result_simps pack_unsigned_def HEADER_SIZE_def split: if_splits)
  from assms(2) obtain d f c s z where p: "pack_signed 8 descriptor = Inr d" "pack_unsigned 8 offset = Inr f"
    "pack_unsigned 8 deduped = Inr c" "pack_signed 4 status = Inr s" "pack_unsigned 4 0 = Inr z"
    "info = d @ f @ c @ s @ z"
    by (auto simp: info_buffer_def result_simps)
  have l: "length d = 8" "length f = 8" "length c = 8" "length s = 4" "length z = 4"
    using p unpack_pack_signed [OF p(1)] unpack_pack_signed [OF p(4)]
    by (auto simp: pack_unsigned_def split: if_splits)
  have "le_value c = deduped" using p(3) by (auto simp: pack_unsigned_def le_value_le_bytes split: if_splits)
  moreover have "unpack_signed s = status" using unpack_pack_signed [OF p(4)] by simp
  ultimately show ?thesis
    using h l by (simp add: outcome_of_def INFO_SIZE_def p(6))
qed

subsection \<open>The ranges of a file\<close>

lemma chunk_bytes: "mib_bytes CHUNK = 16777216"
  by (simp add: mib_bytes_def CHUNK_def BYTES_PER_MEBIBYTE_def)

lemma spans_total:
  "spans total_size = Inr (map (\<lambda>offset. \<lparr>dr_offset = offset, dr_length = min 16777216 (shareable_length total_size - offset)\<rparr>)
                       (py_range (shareable_length total_size) 16777216))"
proof -
  let ?t = "shareable_length total_size"
  have aligned: "?t mod 4096 = 0" by (simp add: shareable_length_def ALIGNMENT_def)
  have "mk_dedupe_range offset (min 16777216 (?t - offset)) =
      Inr \<lparr>dr_offset = offset, dr_length = min 16777216 (?t - offset)\<rparr>"
    if "offset \<in> set (py_range ?t 16777216)" for offset
  proof -
    from that obtain k where k: "offset = int k * 16777216" "k < nat ((?t + 16777216 - 1) div 16777216)"
      by (auto simp: py_range_def)
    then have "int k < (?t + 16777215) div 16777216" by simp
    then have "int k * 16777216 < ?t" by linarith
    moreover have d: "(4096 :: int) dvd int k * 16777216" by (rule dvd_mult) simp
    moreover have "4096 dvd ?t - int k * 16777216" using aligned d by (intro dvd_diff) (simp_all add: dvd_eq_mod_eq_0)
    ultimately show ?thesis
      unfolding mk_dedupe_range_def ALIGNMENT_def k(1) by (auto simp: min_def dvd_eq_mod_eq_0)
  qed
  then show ?thesis
    unfolding spans_def Let_def chunk_bytes by (intro rmapM_Inr_map) simp
qed

text \<open>\<open>covers start rs\<close>: the ranges follow one another from \<open>start\<close>; their lengths add up.\<close>

fun covers :: "int \<Rightarrow> dedupe_range list \<Rightarrow> bool" where
  "covers start [] \<longleftrightarrow> True"
| "covers start (r # rs) \<longleftrightarrow> dr_offset r = start \<and> covers (start + dr_length r) rs"

lemma spans_cover_from:
  assumes "0 < step" "0 \<le> tot" "n = nat ((tot + step - 1) div step)" "k \<le> n"
  shows "covers (min tot (int k * step))
     (map (\<lambda>i. \<lparr>dr_offset = int i * step, dr_length = min step (tot - int i * step)\<rparr>) [k..<n])
   \<and> sum_list (map dr_length (map (\<lambda>i. \<lparr>dr_offset = int i * step, dr_length = min step (tot - int i * step)\<rparr>) [k..<n]))
     = tot - min tot (int k * step)"
  using assms(4)
proof (induction k rule: inc_induct)
  case base
  have "tot \<le> int n * step"
  proof -
    have "tot + step - 1 < ((tot + step - 1) div step + 1) * step"
      using assms(1) by (metis add.commute add_less_cancel_left div_mult_mod_eq distrib_right mult_1 pos_mod_bound)
    moreover have "0 \<le> (tot + step - 1) div step" using assms(1,2) by (simp add: pos_imp_zdiv_nonneg_iff)
    ultimately show ?thesis using assms(3) by (simp add: distrib_right)
  qed
  then show ?case by simp
next
  case (step k)
  have lt: "int k * step < tot"
  proof -
    have "int k + 1 \<le> (tot + step - 1) div step" using step(2) assms(3) by linarith
    then have "(int k + 1) * step \<le> (tot + step - 1) div step * step"
      using assms(1) by (intro mult_right_mono) simp_all
    also have "\<dots> \<le> tot + step - 1"
      using assms(1) by (metis add_le_cancel_left div_mult_mod_eq le_add_same_cancel1 pos_mod_sign)
    finally have "(int k + 1) * step \<le> tot + step - 1" .
    then show ?thesis by (simp add: distrib_right)
  qed
  have n: "[k..<n] = k # [Suc k..<n]" using step(2) by (simp add: upt_conv_Cons)
  have "min tot (int (Suc k) * step) = int k * step + min step (tot - int k * step)"
    by (simp add: min_def distrib_right)
  with step(3) lt show ?case by (simp add: n)
qed

lemma spans_cover:
  assumes "spans total_size = Inr rs" "0 \<le> total_size"
  shows "covers 0 rs \<and> sum_list (map dr_length rs) = shareable_length total_size
    \<and> (\<forall>r \<in> set rs. 0 < dr_length r \<and> dr_length r \<le> mib_bytes CHUNK
         \<and> dr_offset r mod ALIGNMENT = 0 \<and> dr_length r mod ALIGNMENT = 0)"
proof -
  let ?t = "shareable_length total_size"
  have t: "0 \<le> ?t" using assms(2) by (simp add: shareable_length_def ALIGNMENT_def)
  have rs: "rs = map (\<lambda>i. \<lparr>dr_offset = int i * 16777216, dr_length = min 16777216 (?t - int i * 16777216)\<rparr>)
      [0..<nat ((?t + 16777216 - 1) div 16777216)]"
    using assms(1) by (simp add: spans_total py_range_def comp_def)
  have "covers 0 rs \<and> sum_list (map dr_length rs) = ?t"
    using spans_cover_from [of 16777216 ?t _ 0] t unfolding rs by simp
  moreover have "0 < dr_length r \<and> dr_length r \<le> mib_bytes CHUNK
      \<and> dr_offset r mod ALIGNMENT = 0 \<and> dr_length r mod ALIGNMENT = 0" if "r \<in> set rs" for r
  proof -
    have "list_all2 (\<lambda>x y. mk_dedupe_range x (min (mib_bytes CHUNK) (?t - x)) = Inr y) (py_range ?t (mib_bytes CHUNK)) rs"
      using assms(1) by (simp add: spans_def Let_def rmapM_eq_Inr)
    with that obtain x where "mk_dedupe_range x (min (mib_bytes CHUNK) (?t - x)) = Inr r"
      by (fastforce simp: list_all2_conv_all_nth in_set_conv_nth)
    then show ?thesis by (auto simp: mk_dedupe_range_def split: if_splits)
  qed
  ultimately show ?thesis by blast
qed

end
