(* ===== verification/Locks.thy ===== *)
theory Locks
  imports Documents KernelValues
begin

section \<open>Reviewed locks (model/sourcelock.py, model/pinnedfiles.py, model/pins.py)\<close>

text \<open>
  The source lock and the pinned file sets, checked whole before anything is fetched. A lock that
  parses holds only images pinned to the digest it records, https addresses, plain filenames, no
  filename twice. White space is the ASCII one.
\<close>

definition LOCK_SCHEMA :: int where "LOCK_SCHEMA = 1"
definition IMAGE_NAMES :: "str list" where "IMAGE_NAMES = [''base'', ''image_builder'']"
definition DEFAULT_ARCHIVE_SUFFIX :: str where "DEFAULT_ARCHIVE_SUFFIX = ''.tar.gz''"

definition is_object_id :: "str \<Rightarrow> bool" where
  "is_object_id s \<longleftrightarrow> (length s = 40 \<or> length s = 64) \<and> list_all is_hex s"

definition is_pinned_reference :: "str \<Rightarrow> bool" where
  "is_pinned_reference s = (case partition_on CHR ''@'' s of (name, found, rest) \<Rightarrow>
     found \<and> name \<noteq> [] \<and> \<not> list_ex is_space name \<and> is_prefixed_digest rest)"

record locked_image =
  li_name :: str
  li_reference :: str
  li_digest :: digest

definition parse_image :: "str \<Rightarrow> json \<Rightarrow> locked_image res" where
  "parse_image name e =
     (case as_object e of
        None \<Rightarrow> Inl (Refusal LOCK_IMAGE_MISSING)
      | Some d \<Rightarrow>
          rbind (prefixed (member d ''digest'') LOCK_IMAGE_DIGEST_MALFORMED) (\<lambda>digest.
            case as_text (member d ''reference'') of
              None \<Rightarrow> Inl (Refusal LOCK_IMAGE_REFERENCE_MUTABLE)
            | Some reference \<Rightarrow>
                if \<not> is_pinned_reference reference \<or> \<not> ends_with reference (CHR ''@'' # digest)
                then Inl (Refusal LOCK_IMAGE_REFERENCE_MUTABLE)
                else rbind (parse_digest digest) (\<lambda>dg.
                       Inr \<lparr>li_name = name, li_reference = reference, li_digest = dg\<rparr>)))"

record locked_source =
  ls_name :: str
  ls_url :: https_url
  ls_sha256 :: digest
  ls_filename :: basename
  ls_commit :: "str option"

definition parse_commit :: "json \<Rightarrow> str option res" where
  "parse_commit j =
     (if j = JNull then Inr None
      else case as_text j of
             Some c \<Rightarrow> if is_object_id c then Inr (Some c) else Inl (Refusal LOCK_COMMIT_NOT_OBJECT_ID)
           | None \<Rightarrow> Inl (Refusal LOCK_COMMIT_NOT_OBJECT_ID))"

definition checksum_of :: "json \<Rightarrow> digest res" where
  "checksum_of j =
     (case as_text j of
        Some c \<Rightarrow> if is_hex_digest c then mk_digest c else Inl (Refusal LOCK_CHECKSUM_MALFORMED)
      | None \<Rightarrow> Inl (Refusal LOCK_CHECKSUM_MALFORMED))"

definition parse_source :: "str \<times> json \<Rightarrow> locked_source res" where
  "parse_source ne = (case ne of (name, e) \<Rightarrow>
     (case as_object e of
        None \<Rightarrow> Inl (Refusal LOCK_ENTRY_MALFORMED)
      | Some d \<Rightarrow>
          rbind (checksum_of (member d ''sha256'')) (\<lambda>checksum.
          rbind (parse_commit (member d ''commit'')) (\<lambda>commit.
          rbind (mk_https_url (py_str (dict_get d ''url'' (JStr [])))) (\<lambda>url.
          rbind (mk_basename (py_str (dict_get d ''filename'' (JStr (name @ DEFAULT_ARCHIVE_SUFFIX))))) (\<lambda>filename.
            Inr \<lparr>ls_name = name, ls_url = url, ls_sha256 = checksum, ls_filename = filename, ls_commit = commit\<rparr>))))))"

record source_lock =
  sk_images :: "locked_image list"
  sk_sources :: "locked_source list"

definition unseen :: "str list \<Rightarrow> locked_source \<Rightarrow> str list res" where
  "unseen seen s =
     (if basename_value (ls_filename s) \<in> set seen then Inl (Refusal LOCK_FILENAME_DUPLICATE)
      else Inr (basename_value (ls_filename s) # seen))"

definition parse_sources :: "members \<Rightarrow> locked_source list res" where
  "parse_sources d =
     (case as_object (member d ''sources'') of
        None \<Rightarrow> Inl (Refusal LOCK_SOURCES_EMPTY)
      | Some listed \<Rightarrow>
          if listed = [] then Inl (Refusal LOCK_SOURCES_EMPTY)
          else rbind (rmapM parse_source listed) (\<lambda>parsed.
               rbind (rfold unseen [] parsed) (\<lambda>_. Inr parsed)))"

definition parse_lock :: "json \<Rightarrow> source_lock res" where
  "parse_lock document =
     (case as_object document of
        None \<Rightarrow> Inl (Refusal LOCK_SCHEMA_UNSUPPORTED)
      | Some d \<Rightarrow>
          if is_json_bool (member d ''schema'') \<or> \<not> equals_int (member d ''schema'') LOCK_SCHEMA
          then Inl (Refusal LOCK_SCHEMA_UNSUPPORTED)
          else rbind (rmapM (\<lambda>name. parse_image name (member d name)) IMAGE_NAMES) (\<lambda>images.
               rbind (parse_sources d) (\<lambda>sources.
                 Inr \<lparr>sk_images = images, sk_sources = sources\<rparr>)))"

subsection \<open>What a lock that parses holds\<close>

definition image_pinned :: "locked_image \<Rightarrow> bool" where
  "image_pinned i \<longleftrightarrow> (\<exists>name. li_reference i = name @ CHR ''@'' # digest_str (li_digest i)
     \<and> name \<noteq> [] \<and> CHR ''@'' \<notin> set name) \<and> digest_ok (li_digest i)"

definition source_pinned :: "locked_source \<Rightarrow> bool" where
  "source_pinned s \<longleftrightarrow> digest_ok (ls_sha256 s)
     \<and> (\<exists>rest. url_value (ls_url s) = HTTPS_SCHEME @ rest)
     \<and> mk_basename (basename_value (ls_filename s)) = Inr (ls_filename s)
     \<and> (\<forall>c. ls_commit s = Some c \<longrightarrow> is_object_id c)"

lemma hex_not_at: "is_hex c \<Longrightarrow> c \<noteq> CHR ''@''"
  by (auto simp: is_hex_def is_digit_def)

lemma prefixed_no_at:
  assumes "is_prefixed_digest s"
  shows "CHR ''@'' \<notin> set s"
proof -
  from assms obtain h where h: "s = DIGEST_PREFIX @ h" "is_hex_digest h"
    by (auto simp: is_prefixed_digest_def starts_with_def prefix_def)
  have "CHR ''@'' \<notin> set h" using h(2) hex_not_at unfolding is_hex_digest_def list_all_iff by blast
  then show ?thesis by (simp add: h(1) DIGEST_PREFIX_def)
qed

lemma parse_image_Inr:
  assumes "parse_image name e = Inr i"
  obtains d digest reference dg where "as_object e = Some d"
    "prefixed (member d ''digest'') LOCK_IMAGE_DIGEST_MALFORMED = Inr digest"
    "as_text (member d ''reference'') = Some reference"
    "is_pinned_reference reference" "ends_with reference (CHR ''@'' # digest)"
    "parse_digest digest = Inr dg" "i = \<lparr>li_name = name, li_reference = reference, li_digest = dg\<rparr>"
proof -
  obtain d where d: "as_object e = Some d" using assms by (cases "as_object e") (simp_all add: parse_image_def)
  obtain digest where g: "prefixed (member d ''digest'') LOCK_IMAGE_DIGEST_MALFORMED = Inr digest"
    using assms d by (cases "prefixed (member d ''digest'') LOCK_IMAGE_DIGEST_MALFORMED") (simp_all add: parse_image_def)
  obtain reference where r: "as_text (member d ''reference'') = Some reference"
    using assms d g by (cases "as_text (member d ''reference'')") (simp_all add: parse_image_def)
  have ok: "is_pinned_reference reference \<and> ends_with reference (CHR ''@'' # digest)"
    using assms d g r by (simp add: parse_image_def split: if_splits)
  obtain dg where dg: "parse_digest digest = Inr dg"
    using assms d g r ok by (cases "parse_digest digest") (simp_all add: parse_image_def)
  show ?thesis
    using assms d g r ok dg by (intro that [OF d g r]) (auto simp: parse_image_def)
qed

lemma parse_image_pinned:
  assumes "parse_image name e = Inr i"
  shows "image_pinned i"
proof -
  from assms obtain d digest reference dg where p: "as_object e = Some d"
    "prefixed (member d ''digest'') LOCK_IMAGE_DIGEST_MALFORMED = Inr digest"
    "is_pinned_reference reference" "ends_with reference (CHR ''@'' # digest)"
    "parse_digest digest = Inr dg" "i = \<lparr>li_name = name, li_reference = reference, li_digest = dg\<rparr>"
    by (rule parse_image_Inr)
  have dig: "is_prefixed_digest digest"
    using p(2) by (auto simp: prefixed_def split: json.splits if_splits)
  with parse_prefixed [OF dig] p(5) have d: "digest_str dg = digest" "digest_ok dg" by auto
  from p(3) obtain n r where n: "partition_on CHR ''@'' reference = (n, True, r)" "n \<noteq> []" "is_prefixed_digest r"
    by (auto simp: is_pinned_reference_def split: prod.splits)
  have ref: "reference = n @ CHR ''@'' # r" "CHR ''@'' \<notin> set n" using partition_on_found [OF n(1)] by auto
  from p(4) obtain m where m: "reference = m @ CHR ''@'' # digest"
    by (auto simp: ends_with_def suffix_def)
  have "CHR ''@'' \<notin> set r" "CHR ''@'' \<notin> set digest" by (rule prefixed_no_at, fact)+
  then have "rev (takeWhile (\<lambda>c. c \<noteq> CHR ''@'') (rev (m @ CHR ''@'' # digest))) = digest"
    "rev (takeWhile (\<lambda>c. c \<noteq> CHR ''@'') (rev (n @ CHR ''@'' # r))) = r"
    by (auto simp: takeWhile_append)
  with m ref(1) have "r = digest" by metis
  with ref n(2) d p(6) show ?thesis by (auto simp: image_pinned_def)
qed

lemma parse_source_pinned: "parse_source ne = Inr s \<Longrightarrow> source_pinned s"
proof -
  assume a: "parse_source ne = Inr s"
  obtain name e where ne: "ne = (name, e)" by fastforce
  from a ne obtain d where p: "checksum_of (member d ''sha256'') = Inr (ls_sha256 s)"
    "parse_commit (member d ''commit'') = Inr (ls_commit s)"
    "mk_https_url (py_str (dict_get d ''url'' (JStr []))) = Inr (ls_url s)"
    "mk_basename (py_str (dict_get d ''filename'' (JStr (name @ DEFAULT_ARCHIVE_SUFFIX)))) = Inr (ls_filename s)"
    by (auto simp: parse_source_def rbind_eq_Inr split: option.splits)
  have "digest_ok (ls_sha256 s)"
    using p(1) by (auto simp: checksum_of_def split: option.splits if_splits)
  moreover have "\<forall>c. ls_commit s = Some c \<longrightarrow> is_object_id c"
    using p(2) by (auto simp: parse_commit_def split: option.splits if_splits)
  moreover have "\<exists>rest. url_value (ls_url s) = HTTPS_SCHEME @ rest"
    using p(3) by (auto simp: mk_https_url_Inr)
  moreover have "mk_basename (basename_value (ls_filename s)) = Inr (ls_filename s)"
    using p(4) mk_basename_plain [OF p(4)] by simp
  ultimately show ?thesis by (simp add: source_pinned_def)
qed

lemma unseen_distinct:
  "rfold unseen seen xs = Inr seen' \<Longrightarrow>
     distinct (map (basename_value \<circ> ls_filename) xs)
     \<and> set (map (basename_value \<circ> ls_filename) xs) \<inter> set seen = {}"
proof (induction xs arbitrary: seen)
  case (Cons x xs)
  then obtain t where t: "unseen seen x = Inr t" "rfold unseen t xs = Inr seen'" by (auto simp: rbind_eq_Inr)
  from t(1) have "basename_value (ls_filename x) \<notin> set seen" "t = basename_value (ls_filename x) # seen"
    by (auto simp: unseen_def split: if_splits)
  with Cons.IH [OF t(2)] show ?case by auto
qed simp

lemma rmapM_all:
  "rmapM f xs = Inr ys \<Longrightarrow> (\<And>x y. f x = Inr y \<Longrightarrow> P y) \<Longrightarrow> \<forall>y \<in> set ys. P y"
  by (induction xs arbitrary: ys) (auto simp: rbind_eq_Inr)

lemma parse_lock_pinned:
  assumes "parse_lock document = Inr l"
  shows "(\<forall>i \<in> set (sk_images l). image_pinned i) \<and> map li_name (sk_images l) = IMAGE_NAMES
    \<and> sk_sources l \<noteq> [] \<and> (\<forall>s \<in> set (sk_sources l). source_pinned s)
    \<and> distinct (map (basename_value \<circ> ls_filename) (sk_sources l))"
proof -
  from assms obtain d where d: "rmapM (\<lambda>name. parse_image name (member d name)) IMAGE_NAMES = Inr (sk_images l)"
    "parse_sources d = Inr (sk_sources l)"
    by (auto simp: parse_lock_def rbind_eq_Inr split: option.splits if_splits)
  from d(2) obtain listed t where s: "listed \<noteq> []" "rmapM parse_source listed = Inr (sk_sources l)"
    "rfold unseen [] (sk_sources l) = Inr t"
    by (auto simp: parse_sources_def rbind_eq_Inr split: option.splits if_splits)
  have "parse_image name e = Inr i \<Longrightarrow> li_name i = name" for name e i
    by (auto simp: parse_image_def rbind_eq_Inr split: option.splits if_splits)
  then have "map li_name (sk_images l) = IMAGE_NAMES"
    using d(1) by (auto simp: rmapM_eq_Inr list_all2_conv_all_nth intro!: nth_equalityI)
  moreover have "\<forall>i \<in> set (sk_images l). image_pinned i"
    using rmapM_all [OF d(1)] parse_image_pinned by blast
  moreover have "\<forall>s \<in> set (sk_sources l). source_pinned s"
    using rmapM_all [OF s(2)] parse_source_pinned by blast
  moreover have "sk_sources l \<noteq> []" using s(1) rmapM_length [OF s(2)] by auto
  ultimately show ?thesis using unseen_distinct [OF s(3)] by simp
qed

subsection \<open>pinnedfiles.py\<close>

record pinned_file =
  pf_name :: str
  pf_sha256 :: digest

definition parse_pinned_file :: "str \<times> json \<Rightarrow> pinned_file res" where
  "parse_pinned_file nc = (case nc of (name, checksum) \<Rightarrow>
     if name = [] then Inl (Refusal LOCK_ENTRY_MALFORMED)
     else rbind (rmapM mk_basename (split_on CHR ''/'' name)) (\<lambda>_.
          rbind (checksum_of checksum) (\<lambda>digest. Inr \<lparr>pf_name = name, pf_sha256 = digest\<rparr>)))"

definition pinned_url :: "pinned_file \<Rightarrow> https_url \<Rightarrow> https_url res" where
  "pinned_url f base = mk_https_url (url_value base @ pf_name f)"

record pinned_file_set =
  ps_version :: str
  ps_base :: https_url
  ps_files :: "pinned_file list"

definition pinned_names :: "pinned_file_set \<Rightarrow> str list" where
  "pinned_names s = map pf_name (ps_files s)"

definition parse_pinned_set :: "json \<Rightarrow> pinned_file_set res" where
  "parse_pinned_set document =
     (case as_object document of
        None \<Rightarrow> Inl (Refusal LOCK_SCHEMA_UNSUPPORTED)
      | Some d \<Rightarrow>
          (case as_text (member d ''version'') of
             None \<Rightarrow> Inl (Refusal LOCK_ENTRY_MALFORMED)
           | Some version \<Rightarrow>
               if version = [] then Inl (Refusal LOCK_ENTRY_MALFORMED)
               else rbind (mk_https_url (py_str (dict_get d ''base_url'' (JStr [])))) (\<lambda>base.
                 case as_object (member d ''files'') of
                   None \<Rightarrow> Inl (Refusal LOCK_SOURCES_EMPTY)
                 | Some listed \<Rightarrow>
                     if listed = [] then Inl (Refusal LOCK_SOURCES_EMPTY)
                     else rbind (rmapM parse_pinned_file listed) (\<lambda>files.
                            Inr \<lparr>ps_version = version, ps_base = base, ps_files = files\<rparr>))))"

definition plain_component :: "str \<Rightarrow> bool" where
  "plain_component c \<longleftrightarrow> c \<noteq> [] \<and> CHR ''/'' \<notin> set c \<and> c \<noteq> ''.'' \<and> c \<noteq> ''..''"

lemma parse_pinned_file_plain:
  assumes "parse_pinned_file nc = Inr f"
  shows "(\<forall>c \<in> set (split_on CHR ''/'' (pf_name f)). plain_component c) \<and> digest_ok (pf_sha256 f)"
proof -
  obtain name checksum where nc: "nc = (name, checksum)" by fastforce
  have "name \<noteq> []" using assms nc by (cases "name = []") (simp_all add: parse_pinned_file_def)
  with assms nc have r: "rbind (rmapM mk_basename (split_on CHR ''/'' name))
     (\<lambda>_. rbind (checksum_of checksum) (\<lambda>digest. Inr \<lparr>pf_name = name, pf_sha256 = digest\<rparr>)) = Inr f"
    by (simp add: parse_pinned_file_def)
  obtain bs where bs: "rmapM mk_basename (split_on CHR ''/'' name) = Inr bs"
    using r by (cases "rmapM mk_basename (split_on CHR ''/'' name)") simp_all
  obtain d where d: "checksum_of checksum = Inr d" "f = \<lparr>pf_name = name, pf_sha256 = d\<rparr>"
    using r bs by (cases "checksum_of checksum") simp_all
  note b = bs d
  have "plain_component c" if "c \<in> set (split_on CHR ''/'' name)" for c
  proof -
    have "\<exists>v. mk_basename c = Inr v"
      using b(1) that by (auto simp: rmapM_eq_Inr list_all2_conv_all_nth in_set_conv_nth)
    then show ?thesis using mk_basename_plain by (auto simp: plain_component_def)
  qed
  moreover have "digest_ok (pf_sha256 f)"
    using b(2,3) by (auto simp: checksum_of_def split: option.splits if_splits)
  ultimately show ?thesis using b(3) by simp
qed

text \<open>The address of a pinned file is its base and its name, and is an https address whenever the base is one.\<close>

lemma pinned_url_https:
  assumes "mk_https_url v = Inr base"
  shows "pinned_url f base = Inr (HttpsUrl (v @ pf_name f))"
proof -
  from assms obtain rest where r: "base = HttpsUrl v" "rest \<noteq> []" "v = HTTPS_SCHEME @ rest"
    unfolding mk_https_url_Inr by blast
  have "v @ pf_name f = HTTPS_SCHEME @ (rest @ pf_name f)" "rest @ pf_name f \<noteq> []"
    using r(2,3) by simp_all
  then have "mk_https_url (v @ pf_name f) = Inr (HttpsUrl (v @ pf_name f))"
    unfolding mk_https_url_Inr by blast
  with r(1) show ?thesis by (simp add: pinned_url_def)
qed

subsection \<open>pins.py\<close>

datatype verification_level = TLS_ONLY | CHECKSUM | SIGNED

fun verification_level_value :: "verification_level \<Rightarrow> str" where
  "verification_level_value TLS_ONLY = ''tls-only''"
| "verification_level_value CHECKSUM = ''checksum''"
| "verification_level_value SIGNED = ''signed''"

definition cryptographically_bound :: "verification_level \<Rightarrow> bool" where
  "cryptographically_bound v \<longleftrightarrow> v \<noteq> TLS_ONLY"

record archive_coordinate =
  ac_project :: str
  ac_version :: str
  ac_filename :: str

definition coordinate_path :: "archive_coordinate \<Rightarrow> str" where
  "coordinate_path c = ac_project c @ ''/'' @ ac_version c @ ''/'' @ ac_filename c"

record review_record =
  rv_reviewer :: str
  rv_date :: str

record pinned_artifact =
  pa_coordinate :: archive_coordinate
  pa_sha256 :: digest
  pa_verification :: verification_level
  pa_reviewed :: review_record

definition artifact_url :: "pinned_artifact \<Rightarrow> str \<Rightarrow> str" where
  "artifact_url a base = rstrip_with (\<lambda>c. c = CHR ''/'') base @ ''/'' @ coordinate_path (pa_coordinate a)"

end
