(* ===== verification/WireTheorems.thy ===== *)
theory WireTheorems
  imports SerialFrame Builds Extents Locks
begin

section \<open>Properties of what crosses a boundary\<close>

text \<open>
  Frames from a guest, documents to and from the agent, build records, artifact inventories,
  reviewed locks and the ranges handed to the kernel: what is written reads back, what a peer
  sends cannot exceed the bounds, and what is accepted names nothing outside its place.
\<close>

definition ex_token :: token where "ex_token = HexIdentifier (replicate 32 CHR ''c'')"
definition ex_sha :: digest where "ex_sha = Digest (replicate 64 CHR ''a'')"

lemma ex_token_ok: "hex_identifier_ok ex_token"
  by (simp add: ex_token_def hex_identifier_ok_def is_hex_def less_eq_char_def list_all_iff)

lemma ex_sha_ok: "digest_ok ex_sha"
  by (simp add: ex_sha_def digest_ok_def is_hex_def less_eq_char_def list_all_iff)

subsection \<open>Frames\<close>

text \<open>
  C33. A payload within the limit, framed for a token and read line by line with that token, is the payload,
  unless it is empty: the empty payload is framed by a trailer that counts no chunks, and reading that
  frame is refused as incomplete.
\<close>

theorem frame_reads_back:
  assumes "hex_identifier_ok tok" "int (length payload) \<le> limit_value cap" "limit_value cap \<le> limit_value TRANSFER_LIMIT"
  shows "decode_lines (frame_encode payload tok) tok cap =
    (if payload = [] then Inl (Refusal FRAME_INCOMPLETE) else Inr payload)"
  using frame_roundtrip [OF assms(1) _ assms(2,3)] empty_frame_refused [OF assms(1)] by simp

theorem frame_reads_back_witness:
  "decode_lines (frame_encode ''hello'' ex_token) ex_token (Limit 5) = Inr ''hello''
   \<and> decode_lines (frame_encode [] ex_token) ex_token (Limit 5) = Inl (Refusal FRAME_INCOMPLETE)"
  using frame_reads_back [OF ex_token_ok, of "''hello''" "Limit 5"] frame_reads_back [OF ex_token_ok, of "[]" "Limit 5"]
  by (simp add: TRANSFER_LIMIT_def)

text \<open>The decoder as it is fed: each step takes some bytes and still waits for more.\<close>

inductive waits :: "frame_decoder \<Rightarrow> frame_decoder \<Rightarrow> bool" where
  waits_start: "waits d d"
| waits_feed: "waits d d1 \<Longrightarrow> fd_payload d1 = None \<Longrightarrow> feed data d1 = (d2, Inr None) \<Longrightarrow> waits d d2"

text \<open>C34. Whatever bytes a guest sends, in whatever pieces, a decoder still waiting holds at most one
  line's worth of unread bytes and no more encoded text than the transfer limit allows.\<close>

theorem decoder_memory_bounded:
  assumes "waits (decoder_new tok cap) d" "0 < limit_value cap"
  shows "pending_bytes d \<le> 1024 \<and> int (sum_list (map length (fd_chunks d))) \<le> (limit_value cap + 2) div 3 * 4"
proof -
  have "decoder_ok d \<and> pending_bytes d \<le> limit_nat FRAME_LINE_LIMIT \<and> fd_encoded_limit d = (limit_value cap + 2) div 3 * 4"
    using assms
  proof (induction "decoder_new tok cap" d rule: waits.induct)
    case waits_start
    then show ?case
      using decoder_new_ok [of cap tok] by (simp add: decoder_new_def pending_bytes_def)
  next
    case (waits_feed d1 data d2)
    then have "decoder_ok d1" "fd_encoded_limit d1 = (limit_value cap + 2) div 3 * 4" by auto
    then have "decoder_ok (d1\<lparr>fd_buffer := fd_buffer d1 @ data\<rparr>)"
      "fd_encoded_limit (d1\<lparr>fd_buffer := fd_buffer d1 @ data\<rparr>) = (limit_value cap + 2) div 3 * 4"
      by (simp_all add: decoder_ok_def)
    with drain_ok [of "d1\<lparr>fd_buffer := fd_buffer d1 @ data\<rparr>" d2 "Inr None"] waits_feed(3,4) show ?case
      by (simp add: feed_def)
  qed
  then show ?thesis by (simp add: decoder_ok_def FRAME_LINE_LIMIT_def limit_nat_def)
qed

lemma ex_feed: "feed ''noise'' (decoder_new ex_token (Limit 5)) =
    (decoder_new ex_token (Limit 5)\<lparr>fd_buffer := ''noise''\<rparr>, Inr None)"
  by (simp add: feed_def decoder_new_def drain.simps drop_noise_def FRAME_LINE_LIMIT_def limit_nat_def)

theorem decoder_memory_bounded_witness:
  "pending_bytes (decoder_new ex_token (Limit 5)\<lparr>fd_buffer := ''noise''\<rparr>) \<le> 1024"
proof -
  have "waits (decoder_new ex_token (Limit 5)) (decoder_new ex_token (Limit 5)\<lparr>fd_buffer := ''noise''\<rparr>)"
    by (rule waits_feed [OF waits_start _ ex_feed]) (simp add: decoder_new_def)
  from decoder_memory_bounded [OF this] show ?thesis by simp
qed

text \<open>A decoder answers with a payload only if the chunks it kept decode to it and its digest arrived
  among the bytes: a frame cut, reordered or altered is never answered with other bytes under the
  same digest unless that digest was sent.\<close>

theorem payload_matches_its_digest:
  assumes "feed data d = (d', Inr (Some payload))"
  shows "b64_decode (concat (fd_chunks d')) = Some payload \<and> contains (fd_buffer d @ data) (sha256_hex payload)"
  using assms by (rule feed_Some)

lemma decode_lines_feeds:
  "decode_from d ls = Inr payload \<Longrightarrow> \<exists>d1 d2 line. line \<in> set ls \<and> feed (line @ [CHR 0x0A]) d1 = (d2, Inr (Some payload))"
proof (induction ls arbitrary: d)
  case (Cons l ls)
  obtain d' r where f: "feed (l @ [CHR 0x0A]) d = (d', r)" by (cases "feed (l @ [CHR 0x0A]) d")
  show ?case
  proof (cases r)
    case (Inr o1)
    with Cons f show ?thesis by (cases o1) (auto, blast)
  qed (use Cons f in auto)
qed simp

theorem payload_matches_its_digest_witness:
  "\<exists>d d' data. feed data d = (d', Inr (Some ''hello'')) \<and> b64_decode (concat (fd_chunks d')) = Some ''hello''"
proof -
  have "decode_from (decoder_new ex_token (Limit 5)) (frame_encode ''hello'' ex_token) = Inr ''hello''"
    using frame_roundtrip [OF ex_token_ok, of "''hello''" "Limit 5"] by (simp add: decode_lines_def TRANSFER_LIMIT_def)
  from decode_lines_feeds [OF this] payload_matches_its_digest show ?thesis by blast
qed

subsection \<open>Documents\<close>

text \<open>A request the host writes is the request the agent reads, its arguments with their keys in
  order.\<close>

theorem request_reads_back:
  assumes "request_ok r"
  shows "request_parse (canonical (request_document r)) =
    Inr (r\<lparr>rq_arguments := sort_key fst (sort_members (rq_arguments r))\<rparr>)"
  using assms by (rule request_roundtrip)

definition ex_request :: agent_request where
  "ex_request = \<lparr>rq_host_version = ''1.0'', rq_unit = DottedName ''boot'', rq_arguments = [(''b'', JInt 2), (''a'', JNull)],
     rq_agent_digest = ex_sha\<rparr>"

theorem request_reads_back_witness:
  "request_parse (canonical (request_document ex_request)) =
     Inr (ex_request\<lparr>rq_arguments := [(''a'', JNull), (''b'', JInt 2)]\<rparr>)"
proof -
  have "dotted_name_ok (DottedName ''boot'')" by (simp add: dotted_name_ok_def) code_simp
  then have "request_ok ex_request"
    using ex_sha_ok by (simp add: request_ok_def ex_request_def is_ascii_def byte_of_def)
  from request_reads_back [OF this] show ?thesis by (simp add: ex_request_def)
qed

text \<open>A build record reads back as it was written.\<close>

theorem build_record_reads_back:
  "build_ok r \<Longrightarrow> build_parse (canonical (build_document r)) = Inr r"
  by (rule build_roundtrip)

definition ex_build :: build_record where
  "ex_build = \<lparr>br_status = Builds.PASS, br_kind = IMAGE, br_profile = FEDORA, br_source = ex_sha,
     br_remote = RemotePath ''/srv/build'', br_parent = Some ex_token, br_test_access = False\<rparr>"

theorem build_record_reads_back_witness: "build_parse (canonical (build_document ex_build)) = Inr ex_build"
proof -
  have "mk_remote_path ''/srv/build'' = Inr (RemotePath ''/srv/build'')"
    by (simp only: mk_remote_path_def) code_simp
  then have "build_ok ex_build"
    using ex_sha_ok ex_token_ok by (simp add: build_ok_def ex_build_def)
  then show ?thesis by (rule build_record_reads_back)
qed

text \<open>A parent build is built upon exactly when its record says an image build passed, the frozen
  document names the manifest on disk by its digest, and that manifest names the frozen image.\<close>

theorem parent_accepted_exactly:
  "require_frozen r frozen manifest = Inr img \<longleftrightarrow>
     img = frozen \<and> br_status r = Builds.PASS \<and> br_kind r = IMAGE
   \<and> fi_digest frozen = digest_bytes manifest \<and> config_digest manifest = Inr (fi_image_id frozen)"
  by (rule require_frozen_Inr)

text \<open>C35. An inventory that is accepted lists at least one file, and no name in it leaves the directory:
  none is empty, absolute or climbs.\<close>

theorem inventory_stays_inside:
  assumes "bundle_files d = Inr files"
  shows "files \<noteq> [] \<and> (\<forall>(n, dg) \<in> set files. inside n \<and> digest_ok dg)"
  using assms by (rule bundle_files_inside)

theorem inventory_stays_inside_witness:
  "\<exists>files. bundle_files [(''files'', JObj [(''oci/index.json'', JStr (replicate 64 CHR ''a''))])] = Inr files
     \<and> (\<forall>(n, dg) \<in> set files. inside n)"
proof -
  have h: "is_hex_digest (replicate 64 CHR ''a'')" "mk_digest (replicate 64 CHR ''a'') = Inr ex_sha"
    using ex_sha_ok by (simp_all add: is_hex_digest_def digest_ok_def ex_sha_def)
  have "relative_path ''oci/index.json'' = Inr ''oci/index.json''"
    by (simp add: relative_path_def starts_with_def)
  then have "bundle_files [(''files'', JObj [(''oci/index.json'', JStr (replicate 64 CHR ''a''))])] = Inr [(''oci/index.json'', ex_sha)]"
    using h by (simp add: bundle_files_def member_def bundle_file_def del: mk_digest_Inr)
  from inventory_stays_inside [OF this] this show ?thesis by auto
qed

text \<open>C36. A lock that parses is pinned: each image by the digest it records, each source by its checksum,
  from an https address into a plain filename used once, at a whole commit when it names one.\<close>

theorem lock_is_pinned:
  assumes "parse_lock document = Inr l"
  shows "(\<forall>i \<in> set (sk_images l). image_pinned i) \<and> map li_name (sk_images l) = IMAGE_NAMES
    \<and> sk_sources l \<noteq> [] \<and> (\<forall>s \<in> set (sk_sources l). source_pinned s)
    \<and> distinct (map (basename_value \<circ> ls_filename) (sk_sources l))"
  using assms by (rule parse_lock_pinned)

abbreviation ex_hex :: str where "ex_hex \<equiv> replicate 64 CHR ''a''"

definition ex_lock :: json where
  "ex_lock = JObj
     [(''schema'', JInt 1),
      (''base'', JObj [(''digest'', JStr (''sha256:'' @ ex_hex)), (''reference'', JStr (''x@sha256:'' @ ex_hex))]),
      (''image_builder'', JObj [(''digest'', JStr (''sha256:'' @ ex_hex)), (''reference'', JStr (''x@sha256:'' @ ex_hex))]),
      (''sources'', JObj [(''s'', JObj [(''sha256'', JStr ex_hex), (''url'', JStr ''https://e/s'')])])]"

lemma ex_lock_parses: "\<exists>l. parse_lock ex_lock = Inr l"
proof -
  have hex: "is_hex_digest ex_hex" "mk_digest ex_hex = Inr ex_sha"
    using ex_sha_ok by (simp_all add: is_hex_digest_def digest_ok_def ex_sha_def)
  have pre: "is_prefixed_digest (''sha256:'' @ ex_hex)"
    using hex(1) by (simp add: is_prefixed_digest_def DIGEST_PREFIX_def starts_with_def)
  from parse_prefixed [OF pre] obtain read where dg: "parse_digest (''sha256:'' @ ex_hex) = Inr read" by auto
  have "partition_on CHR ''@'' (''x'' @ CHR ''@'' # (''sha256:'' @ ex_hex)) = (''x'', True, ''sha256:'' @ ex_hex)"
    by (rule partition_on_append) simp
  then have "is_pinned_reference (''x@sha256:'' @ ex_hex)"
    using pre by (simp add: is_pinned_reference_def is_space_def)
  moreover have "ends_with (''x@sha256:'' @ ex_hex) (CHR ''@'' # (''sha256:'' @ ex_hex))"
    unfolding ends_with_def by (rule suffixI [of _ "''x''"]) simp
  ultimately have img: "\<exists>i. parse_image n (JObj [(''digest'', JStr (''sha256:'' @ ex_hex)), (''reference'', JStr (''x@sha256:'' @ ex_hex))]) = Inr i" for n
    using pre dg by (simp add: parse_image_def member_def prefixed_def)
  have name: "mk_basename ''s.tar.gz'' = Inr (Basename ''s.tar.gz'')"
    by (simp only: mk_basename_def) code_simp
  have url: "mk_https_url ''https://e/s'' = Inr (HttpsUrl ''https://e/s'')"
    by (simp add: mk_https_url_def HTTPS_SCHEME_def starts_with_def)
  have "\<exists>s. parse_source (''s'', JObj [(''sha256'', JStr ex_hex), (''url'', JStr ''https://e/s'')]) = Inr s"
    using hex name url
    by (simp add: parse_source_def checksum_of_def member_def parse_commit_def dict_get_def DEFAULT_ARCHIVE_SUFFIX_def
        del: mk_digest_Inr)
  then obtain s where "parse_source (''s'', JObj [(''sha256'', JStr ex_hex), (''url'', JStr ''https://e/s'')]) = Inr s" ..
  moreover obtain i j where "parse_image ''base'' (JObj [(''digest'', JStr (''sha256:'' @ ex_hex)), (''reference'', JStr (''x@sha256:'' @ ex_hex))]) = Inr i"
    "parse_image ''image_builder'' (JObj [(''digest'', JStr (''sha256:'' @ ex_hex)), (''reference'', JStr (''x@sha256:'' @ ex_hex))]) = Inr j"
    using img by metis
  ultimately show ?thesis
    by (simp add: parse_lock_def ex_lock_def member_def LOCK_SCHEMA_def IMAGE_NAMES_def parse_sources_def unseen_def)
qed

theorem lock_is_pinned_witness:
  "\<exists>l. parse_lock ex_lock = Inr l \<and> (\<forall>i \<in> set (sk_images l). image_pinned i)"
  using ex_lock_parses lock_is_pinned by blast

subsection \<open>Ranges\<close>

text \<open>C37. The ranges a file is submitted in follow one another from its start, cover its aligned length
  exactly, and each is positive, aligned and no longer than a chunk.\<close>

theorem ranges_cover_the_file:
  assumes "spans total_size = Inr rs" "0 \<le> total_size"
  shows "covers 0 rs \<and> sum_list (map dr_length rs) = shareable_length total_size
    \<and> (\<forall>r \<in> set rs. 0 < dr_length r \<and> dr_length r \<le> mib_bytes CHUNK
         \<and> dr_offset r mod ALIGNMENT = 0 \<and> dr_length r mod ALIGNMENT = 0)"
  using assms by (rule spans_cover)

theorem ranges_cover_the_file_witness:
  "\<exists>rs. spans 20000000 = Inr rs \<and> covers 0 rs \<and> sum_list (map dr_length rs) = 19996672"
proof -
  obtain rs where rs: "spans 20000000 = Inr rs" using spans_total by blast
  from ranges_cover_the_file [OF rs] rs show ?thesis by (auto simp: shareable_length_def ALIGNMENT_def)
qed

end
