(* ===== verification/Clock.thy ===== *)
theory Clock
  imports PortIO KernelValues Claims
begin

section \<open>Time (ports/clock.py, adapters/fakes/fake_clock.py)\<close>

text \<open>
  The clock is a port over a state \<open>'w\<close>. \<open>wait\<close> polls a condition under a backoff until it holds or
  the deadline passes; the loop may run for ever on a clock that stands still, so it is a partial
  function and not returning is \<open>None\<close>. The locale \<open>ticking\<close> states what a clock promises, that
  sleeping takes at least the span slept, and proves that then every wait returns, within a number
  of polls the policy fixes. The manual clock of the test bundle interprets it.
\<close>

record 'w clock_port =
  cp_environment :: environment_kind
  cp_now :: "('w, instant) io"
  cp_stamp :: "('w, str) io"
  cp_sleep :: "elapsed \<Rightarrow> ('w, unit) io"

subsection \<open>A loop that polls\<close>

text \<open>One round answers with a value or asks for another round; an exception ends the loop.\<close>

partial_function (option) io_loop :: "(nat \<Rightarrow> ('w, 'a option) io) \<Rightarrow> nat \<Rightarrow> 'w \<Rightarrow> ('w \<times> 'a res) option" where
  "io_loop body n w =
     (case body n w of
        (w', Inl e) \<Rightarrow> Some (w', Inl e)
      | (w', Inr (Some x)) \<Rightarrow> Some (w', Inr x)
      | (w', Inr None) \<Rightarrow> io_loop body (n + 1) w')"

text \<open>How a loop that returns ended: with the last round, in a state every round before it kept.\<close>

lemma io_loop_last:
  assumes "io_loop body n w = Some z" "P w" "\<And>k. io_keeps P (body k)"
  shows "\<exists>k v. P v \<and> (case snd z of Inr x \<Rightarrow> body k v = (fst z, Inr (Some x)) | Inl e \<Rightarrow> body k v = (fst z, Inl e))"
proof -
  let ?Q = "\<lambda>b v z. b = body \<longrightarrow> P v \<longrightarrow> (\<exists>k v. P v \<and>
    (case snd z of Inr x \<Rightarrow> body k v = (fst z, Inr (Some x)) | Inl e \<Rightarrow> body k v = (fst z, Inl e)))"
  have "?Q body w z"
  proof (rule io_loop.raw_induct [OF _ assms(1), where P = "\<lambda>b m v z. ?Q b v z"])
    fix loop b m v z
    assume IH: "\<And>b m v z. loop b m v = Some z \<Longrightarrow> ?Q b v z"
      and z: "(case b m v of (w', Inl e) \<Rightarrow> Some (w', Inl e) | (w', Inr None) \<Rightarrow> loop b (m + 1) w'
        | (w', Inr (Some x)) \<Rightarrow> Some (w', Inr x)) = Some z"
    show "?Q b v z"
    proof (intro impI)
      assume b: "b = body" and "P v"
      obtain v' r where r: "body m v = (v', r)" by (cases "body m v")
      show "\<exists>k v. P v \<and> (case snd z of Inr x \<Rightarrow> body k v = (fst z, Inr (Some x)) | Inl e \<Rightarrow> body k v = (fst z, Inl e))"
      proof (cases "r = Inr None")
        case True
        with io_keepsD [OF assms(3) \<open>P v\<close>, of m v'] r IH [of body "m + 1" v' z] z b show ?thesis by simp
      next
        case False
        with r z b \<open>P v\<close> show ?thesis
          by (intro exI [of _ m] exI [of _ v]) (auto split: sum.splits option.splits)
      qed
    qed
  qed
  with assms(2) show ?thesis by simp
qed

subsection \<open>wait\<close>

definition wait_round ::
  "('w, instant) io \<Rightarrow> (elapsed \<Rightarrow> ('w, unit) io) \<Rightarrow> ('w, bool) io \<Rightarrow> wait_policy \<Rightarrow> instant
     \<Rightarrow> nat \<Rightarrow> ('w, elapsed option) io" where
  "wait_round now sleep condition policy started attempt =
     io_bind condition (\<lambda>holds.
       if holds
       then io_bind now (\<lambda>t. io_bind (io_lift (mk_elapsed (instant_seconds t - instant_seconds started)))
              (\<lambda>e. io_return (Some e)))
       else io_bind now (\<lambda>t.
         if expired_at \<lparr>deadline_budget = deadline_budget (policy_deadline policy), deadline_started = started\<rparr> t
         then io_raise PortFailure
         else io_bind (io_lift (delay (policy_backoff policy) attempt)) (\<lambda>d.
              io_bind (sleep d) (\<lambda>_. io_return None))))"

definition wait ::
  "('w, instant) io \<Rightarrow> (elapsed \<Rightarrow> ('w, unit) io) \<Rightarrow> ('w, bool) io \<Rightarrow> wait_policy
     \<Rightarrow> 'w \<Rightarrow> ('w \<times> elapsed res) option" where
  "wait now sleep condition policy w =
     (case now w of
        (w', Inl e) \<Rightarrow> Some (w', Inl e)
      | (w', Inr started) \<Rightarrow> io_loop (wait_round now sleep condition policy started) 0 w')"

abbreviation wait_until :: "'w clock_port \<Rightarrow> ('w, bool) io \<Rightarrow> wait_policy \<Rightarrow> 'w \<Rightarrow> ('w \<times> elapsed res) option" where
  "wait_until port \<equiv> wait (cp_now port) (cp_sleep port)"

subsection \<open>Every wait returns\<close>

text \<open>What a policy needs: delays that do not shrink below its first span, which is not nothing.\<close>

definition backoff_moves :: "backoff \<Rightarrow> bool" where
  "backoff_moves b \<longleftrightarrow> backoff_ok b \<and> 1 \<le> backoff_factor b
     \<and> 0 < elapsed_seconds (backoff_first b) \<and> 0 < elapsed_seconds (backoff_ceiling b)"

definition least_delay :: "backoff \<Rightarrow> rat" where
  "least_delay b = min (elapsed_seconds (backoff_first b)) (elapsed_seconds (backoff_ceiling b))"

lemma delay_moves:
  assumes "backoff_moves b"
  obtains d where "delay b n = Inr d" "least_delay b \<le> elapsed_seconds d" "0 < least_delay b"
    "elapsed_seconds d \<le> elapsed_seconds (backoff_ceiling b)"
proof -
  from assms have b: "backoff_ok b" "1 \<le> backoff_factor b" "0 < least_delay b"
    by (simp_all add: backoff_moves_def least_delay_def)
  from delay_ok [OF b(1), of n] obtain d where d: "delay b n = Inr d"
    "elapsed_seconds d \<le> elapsed_seconds (backoff_ceiling b)" by blast
  from that [OF d(1) _ b(3) d(2)] delay_lower [OF b(1,2) d(1)] show ?thesis by (simp add: least_delay_def)
qed

locale ticking =
  fixes port :: "'w clock_port" and time :: "'w \<Rightarrow> rat"
  assumes now_spec: "\<exists>w'. cp_now port w = (w', Inr (Instant (time w'))) \<and> time w \<le> time w'"
    and sleep_spec: "0 \<le> elapsed_seconds d \<Longrightarrow>
      \<exists>w'. cp_sleep port d w = (w', Inr ()) \<and> time w + elapsed_seconds d \<le> time w'"
begin

lemma round_moves:
  assumes "backoff_moves (policy_backoff policy)"
    and "\<And>v v' r. condition v = (v', r) \<Longrightarrow> time v \<le> time v'"
    and "wait_round (cp_now port) (cp_sleep port) condition policy started k w = (w', Inr None)"
  shows "time w + least_delay (policy_backoff policy) \<le> time w'"
    and "time w - instant_seconds started \<le> elapsed_seconds (deadline_budget (policy_deadline policy))"
proof -
  from assms(3) obtain w1 where c: "condition w = (w1, Inr False)"
    by (auto simp: wait_round_def io_bind_Inr io_bind_def io_return_def split: if_splits prod.splits sum.splits)
  from now_spec [of w1] obtain w2 where n: "cp_now port w1 = (w2, Inr (Instant (time w2)))" "time w1 \<le> time w2" by blast
  from delay_moves [OF assms(1), of k] obtain d where d: "delay (policy_backoff policy) k = Inr d"
    "least_delay (policy_backoff policy) \<le> elapsed_seconds d" "0 < least_delay (policy_backoff policy)" by blast
  with sleep_spec [of d w2] obtain w3 where s: "cp_sleep port d w2 = (w3, Inr ())" "time w2 + elapsed_seconds d \<le> time w3"
    by auto
  from assms(2) [OF c] have "time w \<le> time w1" .
  with assms(3) c n d s show "time w + least_delay (policy_backoff policy) \<le> time w'"
    "time w - instant_seconds started \<le> elapsed_seconds (deadline_budget (policy_deadline policy))"
    by (auto simp: wait_round_def io_bind_def io_return_def io_raise_def io_lift_def expired_at_def split: if_splits)
qed

lemma loop_returns:
  assumes b: "backoff_moves (policy_backoff policy)" and c: "\<And>v v' r. condition v = (v', r) \<Longrightarrow> time v \<le> time v'"
  shows "elapsed_seconds (deadline_budget (policy_deadline policy)) - (time w - instant_seconds started)
        < of_nat n * least_delay (policy_backoff policy) \<Longrightarrow>
     \<exists>z. io_loop (wait_round (cp_now port) (cp_sleep port) condition policy started) k w = Some z"
proof (induction n arbitrary: k w)
  case 0
  let ?body = "wait_round (cp_now port) (cp_sleep port) condition policy started"
  obtain w' r where r: "?body k w = (w', r)" by (cases "?body k w")
  have "r \<noteq> Inr None"
  proof
    assume "r = Inr None"
    with round_moves(2) [OF b c, where started = started and k = k and w = w and w' = w'] r 0 show False by simp
  qed
  with r show ?case by (subst io_loop.simps) (auto split: sum.splits option.splits)
next
  case (Suc n)
  let ?body = "wait_round (cp_now port) (cp_sleep port) condition policy started"
  obtain w' r where r: "?body k w = (w', r)" by (cases "?body k w")
  show ?case
  proof (cases "r = Inr None")
    case True
    with round_moves(1) [OF b c, where started = started and k = k and w = w and w' = w'] r
    have "time w + least_delay (policy_backoff policy) \<le> time w'" by simp
    with Suc.prems have "elapsed_seconds (deadline_budget (policy_deadline policy)) - (time w' - instant_seconds started)
        < of_nat n * least_delay (policy_backoff policy)" by (simp add: algebra_simps)
    from Suc.IH [OF this] r True show ?thesis by (subst io_loop.simps) simp
  next
    case False
    with r show ?thesis by (subst io_loop.simps) (auto split: sum.splits option.splits)
  qed
qed

lemma wait_returns:
  assumes "backoff_moves (policy_backoff policy)" "\<And>v v' r. condition v = (v', r) \<Longrightarrow> time v \<le> time v'"
  shows "\<exists>z. wait_until port condition policy w = Some z"
proof -
  from now_spec [of w] obtain w' where n: "cp_now port w = (w', Inr (Instant (time w')))" by blast
  have "0 < least_delay (policy_backoff policy)" using delay_moves [OF assms(1)] by blast
  then obtain n where "elapsed_seconds (deadline_budget (policy_deadline policy))
      < of_nat n * least_delay (policy_backoff policy)"
    using reals_Archimedean3 ex_less_of_nat_mult by blast
  with loop_returns [OF assms, where w = w' and started = "Instant (time w')" and k = 0 and n = n] n
  show ?thesis by (simp add: wait_def)
qed

end

text \<open>A wait that answers found its condition to hold; what every call keeps holds when it ends.\<close>

lemma wait_round_keeps:
  assumes "io_keeps P now" "io_keeps P condition" "\<And>d. io_keeps P (sleep d)"
  shows "io_keeps P (wait_round now sleep condition policy started k)"
  unfolding wait_round_def by (intro io_keeping assms)

lemma wait_round_done:
  "wait_round now sleep condition policy started k v = (z, Inr (Some e)) \<Longrightarrow>
     \<exists>v' t. condition v = (v', Inr True) \<and> now v' = (z, Inr t)"
  by (auto simp: wait_round_def io_bind_Inr io_lift_bind_Inr split: if_splits)

lemma wait_last:
  assumes w: "wait now sleep condition policy w = Some (z, r)" and p: "P w"
    and k: "io_keeps P now" "io_keeps P condition" "\<And>d. io_keeps P (sleep d)"
  shows "P z \<and> (\<forall>e. r = Inr e \<longrightarrow> (\<exists>v v' t. P v \<and> condition v = (v', Inr True) \<and> now v' = (z, Inr t)))"
proof -
  obtain w' x where n: "now w = (w', x)" by (cases "now w")
  have p': "P w'" using io_keepsD [OF k(1) p n] .
  show ?thesis
  proof (cases x)
    case (Inl e)
    with n w p' show ?thesis by (auto simp: wait_def)
  next
    case (Inr started)
    let ?body = "wait_round now sleep condition policy started"
    from n Inr w have l: "io_loop ?body 0 w' = Some (z, r)" by (simp add: wait_def)
    have keeps: "P v'" if "P v" "?body k v = (v', y)" for k v v' y
      using io_keepsD [OF wait_round_keeps [OF k] that] .
    from io_loop_last [where P = P, OF l p'] wait_round_keeps [OF k]
    have "\<exists>k v. P v \<and> (case r of Inr e \<Rightarrow> ?body k v = (z, Inr (Some e)) | Inl e \<Rightarrow> ?body k v = (z, Inl e))"
      by (simp only: fst_conv snd_conv)
    then obtain k v where v: "P v" "case r of Inr e \<Rightarrow> ?body k v = (z, Inr (Some e)) | Inl e \<Rightarrow> ?body k v = (z, Inl e)"
      by blast
    then have "P z" using keeps by (cases r) auto
    moreover have "\<exists>v v' t. P v \<and> condition v = (v', Inr True) \<and> now v' = (z, Inr t)" if "r = Inr e" for e
      using v that wait_round_done [of now sleep condition policy started k v z e] by auto
    ultimately show ?thesis by blast
  qed
qed

subsection \<open>The manual clock\<close>

record manual_clock =
  mk_now :: instant
  mk_slept :: "elapsed list"

definition EPOCH :: instant where "EPOCH = Instant 0"

text \<open>
  \<open>datetime\<close>: a moment is counted in whole microseconds, a half rounded to even; a date is
  an ordinal day, the first of January of the year 1 being day 1, and lies within the years 1 to 9999.
\<close>

definition FIXED_ORIGIN :: int where "FIXED_ORIGIN = 739617"
definition MAXIMUM_ORDINAL :: int where "MAXIMUM_ORDINAL = 3652059"
definition DAY_MICROSECONDS :: int where "DAY_MICROSECONDS = 86400000000"

definition round_half_even :: "rat \<Rightarrow> int" where
  "round_half_even x =
     (let low = \<lfloor>x\<rfloor>; rest = x - of_int low
      in if rest < 1 / 2 then low else if 1 / 2 < rest then low + 1 else if even low then low else low + 1)"

definition is_leap :: "nat \<Rightarrow> bool" where
  "is_leap y \<longleftrightarrow> 4 dvd y \<and> (\<not> 100 dvd y \<or> 400 dvd y)"

definition month_lengths :: "nat \<Rightarrow> nat list" where
  "month_lengths y = [31, if is_leap y then 29 else 28, 31, 30, 31, 30, 31, 31, 30, 31, 30, 31]"

definition year_length :: "nat \<Rightarrow> nat" where
  "year_length y = (if is_leap y then 366 else 365)"

fun year_of :: "nat \<Rightarrow> nat \<Rightarrow> nat \<times> nat" where
  "year_of days y = (if year_length y \<le> days \<and> 0 < year_length y then year_of (days - year_length y) (y + 1) else (y, days))"

declare year_of.simps [simp del]

fun month_of :: "nat \<Rightarrow> nat \<Rightarrow> nat list \<Rightarrow> nat \<times> nat" where
  "month_of days m [] = (m, days)"
| "month_of days m (l # ls) = (if l \<le> days then month_of (days - l) (m + 1) ls else (m, days))"

definition padded :: "nat \<Rightarrow> nat \<Rightarrow> str" where
  "padded width n = zfill width (str_of_nat n)"

definition isoformat :: "int \<Rightarrow> nat \<Rightarrow> str" where
  "isoformat ordinal micros =
     (case year_of (nat (ordinal - 1)) 1 of (y, days) \<Rightarrow> case month_of days 1 (month_lengths y) of (m, day) \<Rightarrow>
        let seconds = micros div 1000000; fraction = micros mod 1000000
        in padded 4 y @ ''-'' @ padded 2 m @ ''-'' @ padded 2 (day + 1) @ ''T'' @ padded 2 (seconds div 3600) @ '':''
             @ padded 2 (seconds div 60 mod 60) @ '':'' @ padded 2 (seconds mod 60)
             @ (if fraction = 0 then [] else ''.'' @ padded 6 fraction) @ ''+00:00'')"

definition manual_now :: "(manual_clock, instant) io" where
  "manual_now = io_read mk_now"

definition manual_stamp :: "(manual_clock, str) io" where
  "manual_stamp = io_ask (\<lambda>c.
     let micros = round_half_even (instant_seconds (mk_now c) * 1000000);
         ordinal = FIXED_ORIGIN + micros div DAY_MICROSECONDS
     in if ordinal < 1 \<or> MAXIMUM_ORDINAL < ordinal then Inl OverflowError
        else Inr (isoformat ordinal (nat (micros mod DAY_MICROSECONDS))))"

definition manual_advance :: "elapsed \<Rightarrow> (manual_clock, unit) io" where
  "manual_advance d c = (c\<lparr>mk_now := Instant (instant_seconds (mk_now c) + elapsed_seconds d)\<rparr>, Inr ())"

definition manual_sleep :: "elapsed \<Rightarrow> (manual_clock, unit) io" where
  "manual_sleep d c = manual_advance d (c\<lparr>mk_slept := mk_slept c @ [d]\<rparr>)"

definition manual_clock_port :: "manual_clock clock_port" where
  "manual_clock_port = \<lparr>cp_environment = SIMULATED, cp_now = manual_now, cp_stamp = manual_stamp, cp_sleep = manual_sleep\<rparr>"

interpretation mk: ticking manual_clock_port "\<lambda>c. instant_seconds (mk_now c)"
  by unfold_locales (simp_all add: manual_clock_port_def manual_now_def manual_sleep_def manual_advance_def)

end
