(* ===== verification/Machines.thy ===== *)
theory Machines
  imports SafePaths
begin

section \<open>Virtual machine descriptions (model/machines.py)\<close>

text \<open>
  Every device is a constructor of one datatype. \<open>vm_build\<close> is the gate every description passes;
  \<open>vm_render\<close> is the argument vector. The lemmas say which descriptions the gate lets through;
  \<open>CommandLine\<close> says what is in the vector.
\<close>

definition MAXIMUM_EXTRA_DISKS :: nat where "MAXIMUM_EXTRA_DISKS = 2"
definition LOOPBACK :: str where "LOOPBACK = ''127.0.0.1''"
definition QEMU_PROGRAM :: str where "QEMU_PROGRAM = ''qemu-system-x86_64''"
definition SERIAL_CHARDEV :: str where "SERIAL_CHARDEV = ''apex-serial''"
definition SOCKET_PATH_LIMIT :: nat where "SOCKET_PATH_LIMIT = 108"
definition USB_BUS :: str where "USB_BUS = ''apex-usb''"
definition USB_ROOT_PORT :: str where "USB_ROOT_PORT = USB_BUS @ ''.0''"
definition USB_CONTROLLER :: str where "USB_CONTROLLER = ''qemu-xhci,id='' @ USB_BUS"
definition USB_FIXTURE_SERIAL :: str where "USB_FIXTURE_SERIAL = ''apex-usb-fixture''"

datatype vm_role = BUILDER | TEST

fun vm_role_value :: "vm_role \<Rightarrow> str" where
  "vm_role_value BUILDER = ''builder''"
| "vm_role_value TEST = ''test''"

definition vm_roles :: "vm_role list" where "vm_roles = [BUILDER, TEST]"

definition is_disposable :: "vm_role \<Rightarrow> bool" where
  "is_disposable r \<longleftrightarrow> r = TEST"

datatype medium = LIVE | INSTALLER

fun medium_value :: "medium \<Rightarrow> str" where
  "medium_value LIVE = ''live''"
| "medium_value INSTALLER = ''installer''"

definition media :: "medium list" where "media = [LIVE, INSTALLER]"

subsection \<open>Devices\<close>

record machine =
  mc_processors :: int
  mc_memory :: mib

record firmware =
  fw_code :: safe_path
  fw_variables :: safe_path
  fw_code_read_only :: bool

record extra_disk =
  xd_path :: safe_path
  xd_index :: nat

record usb_storage =
  us_path :: safe_path
  us_boot_first :: bool

record restricted_net =
  rn_forwarded_port :: tcp_port
  rn_role :: vm_role

datatype serial = SerialFile safe_path | SerialSocket safe_path safe_path

datatype monitor_socket = MonitorSocket (monitor_path: safe_path)

datatype usb_controller = UsbController

datatype qemu_device =
    Machine machine
  | Firmware firmware
  | Display
  | Monitor monitor_socket
  | Serial serial
  | RootDisk safe_path bool
  | ExtraDisk extra_disk
  | Cdrom safe_path
  | Usb usb_controller
  | UsbStorage usb_storage
  | Net restricted_net
  | NoNetwork
  | BootFromCdrom

text \<open>A socket's path is bounded by the kernel, in bytes.\<close>

definition mk_serial_socket :: "safe_path \<Rightarrow> safe_path \<Rightarrow> serial res" where
  "mk_serial_socket path logfile =
     (if SOCKET_PATH_LIMIT \<le> length (safe_path_str path) then Inl (Refusal SOCKET_PATH_TOO_LONG)
      else Inr (SerialSocket path logfile))"

definition render_machine :: "machine \<Rightarrow> str list" where
  "render_machine m =
     [''-machine'', ''q35,accel=kvm'', ''-cpu'', ''host'', ''-smp'', str_of_int (mc_processors m),
      ''-m'', str_of_int (mib_value (mc_memory m))]"

definition render_firmware :: "firmware \<Rightarrow> str list res" where
  "render_firmware f =
     (if \<not> fw_code_read_only f then Inl InternalDefect
      else Inr [''-drive'', ''if=pflash,format=raw,readonly=on,file='' @ safe_path_str (fw_code f),
                ''-drive'', ''if=pflash,format=raw,file='' @ safe_path_str (fw_variables f)])"

definition render_display :: "str list" where
  "render_display = [''-display'', ''none'', ''-vga'', ''none'', ''-device'', ''virtio-vga'', ''-monitor'', ''none'']"

definition render_monitor :: "monitor_socket \<Rightarrow> str list" where
  "render_monitor m = [''-qmp'', ''unix:'' @ safe_path_str (monitor_path m) @ '',server=on,wait=off'']"

fun render_serial :: "serial \<Rightarrow> str list" where
  "render_serial (SerialFile path) = [''-serial'', ''file:'' @ safe_path_str path]"
| "render_serial (SerialSocket path logfile) =
     [''-chardev'', ''socket,id='' @ SERIAL_CHARDEV @ '',path='' @ safe_path_str path @ '',server=on,wait=off,''
         @ ''logfile='' @ safe_path_str logfile @ '',logappend=on'',
      ''-serial'', ''chardev:'' @ SERIAL_CHARDEV]"

definition render_root_disk :: "safe_path \<Rightarrow> bool \<Rightarrow> str list" where
  "render_root_disk path discard_unmap =
     [''-drive'', (''if=virtio,format=qcow2,file='' @ safe_path_str path) @ (if discard_unmap then '',discard=unmap'' else [])]"

definition render_extra_disk :: "extra_disk \<Rightarrow> str list" where
  "render_extra_disk x =
     (let name = ''apex-other-'' @ str_of_nat (xd_index x)
      in [''-drive'', ''if=none,id='' @ name @ '',format=qcow2,file='' @ safe_path_str (xd_path x),
          ''-device'', ''virtio-blk-pci,drive='' @ name @ '',serial='' @ name])"

definition render_cdrom :: "safe_path \<Rightarrow> str list" where
  "render_cdrom path = [''-drive'', ''file='' @ safe_path_str path @ '',format=raw,media=cdrom,readonly=on'']"

definition render_usb_controller :: "str list" where
  "render_usb_controller = [''-device'', USB_CONTROLLER]"

definition render_usb_storage :: "usb_storage \<Rightarrow> str list" where
  "render_usb_storage u =
     [''-drive'', ''if=none,id=apex-boot-usb,format=qcow2,file='' @ safe_path_str (us_path u),
      ''-device'', (''usb-storage,bus='' @ USB_ROOT_PORT @ '',drive=apex-boot-usb,serial=apex-ventoy-fixture'')
         @ (if us_boot_first u then '',bootindex=1'' else [])]"

definition render_net :: "restricted_net \<Rightarrow> str list" where
  "render_net n =
     (let restriction = (if is_disposable (rn_role n) then '',restrict=on'' else []);
          forward = ''hostfwd=tcp:'' @ LOOPBACK @ '':'' @ tcp_port_str (rn_forwarded_port n) @ ''-:22''
      in [''-netdev'', ''user,id=net0'' @ restriction @ '','' @ forward, ''-device'', ''virtio-net-pci,netdev=net0''])"

fun render_device :: "qemu_device \<Rightarrow> str list res" where
  "render_device (Machine m) = Inr (render_machine m)"
| "render_device (Firmware f) = render_firmware f"
| "render_device Display = Inr render_display"
| "render_device (Monitor m) = Inr (render_monitor m)"
| "render_device (Serial s) = Inr (render_serial s)"
| "render_device (RootDisk p d) = Inr (render_root_disk p d)"
| "render_device (ExtraDisk x) = Inr (render_extra_disk x)"
| "render_device (Cdrom p) = Inr (render_cdrom p)"
| "render_device (Usb c) = Inr render_usb_controller"
| "render_device (UsbStorage u) = Inr (render_usb_storage u)"
| "render_device (Net n) = Inr (render_net n)"
| "render_device NoNetwork = Inr [''-nic'', ''none'']"
| "render_device BootFromCdrom = Inr [''-boot'', ''order=d'']"

subsection \<open>Descriptions\<close>

record vm_resources =
  vr_memory :: mib
  vr_processors :: int

record vm_spec =
  vm_role :: vm_role
  vm_resources :: vm_resources
  vm_devices :: "qemu_device list"
  vm_extra_disks :: "safe_path list"

text \<open>The keyword arguments of \<open>VmSpec.build\<close>.\<close>

record vm_request =
  rq_role :: vm_role
  rq_resources :: vm_resources
  rq_root_disk :: safe_path
  rq_firmware :: firmware
  rq_monitor :: monitor_socket
  rq_serial :: serial
  rq_extra_disks :: "safe_path list"
  rq_seed :: "safe_path option"
  rq_network :: "restricted_net option"
  rq_usb :: "usb_controller option"
  rq_boot_usb :: "usb_storage option"
  rq_boot_from_cdrom :: bool

definition is_socket :: "serial \<Rightarrow> bool" where
  "is_socket s = (case s of SerialFile p \<Rightarrow> False | SerialSocket p l \<Rightarrow> True)"

definition require_disposable_for :: "vm_request \<Rightarrow> unit res" where
  "require_disposable_for q =
     (if is_disposable (rq_role q) then Inr ()
      else
        (let wanted = [rq_extra_disks q \<noteq> [], is_socket (rq_serial q), rq_usb q \<noteq> None, rq_boot_usb q \<noteq> None]
         in if True \<in> set wanted then Inl (Refusal DEVICE_NOT_PERMITTED_FOR_ROLE) else Inr ()))"

definition require_consistent :: "vm_request \<Rightarrow> unit res" where
  "require_consistent q =
     (if rq_boot_from_cdrom q \<and> rq_seed q = None then Inl (Refusal TOPOLOGY_INCONSISTENT)
      else if rq_boot_usb q = None then Inr ()
      else if rq_usb q = None \<or> rq_seed q \<noteq> None \<or> rq_network q \<noteq> None \<or> length (rq_extra_disks q) \<noteq> 1
      then Inl (Refusal TOPOLOGY_INCONSISTENT)
      else Inr ())"

definition attached_disks :: "vm_request \<Rightarrow> safe_path list" where
  "attached_disks q = rq_root_disk q # rq_extra_disks q @ (case rq_boot_usb q of None \<Rightarrow> [] | Some u \<Rightarrow> [us_path u])"

definition devices_of :: "vm_request \<Rightarrow> qemu_device list" where
  "devices_of q =
     [Machine \<lparr>mc_processors = vr_processors (rq_resources q), mc_memory = vr_memory (rq_resources q)\<rparr>,
      Display, Monitor (rq_monitor q), Serial (rq_serial q), Firmware (rq_firmware q),
      RootDisk (rq_root_disk q) (rq_role q = BUILDER)]
     @ (case rq_seed q of None \<Rightarrow> [] | Some p \<Rightarrow> [Cdrom p])
     @ (case rq_usb q of None \<Rightarrow> [] | Some c \<Rightarrow> [Usb c])
     @ map (\<lambda>(index, path). ExtraDisk \<lparr>xd_path = path, xd_index = index\<rparr>)
         (zip [1..<length (rq_extra_disks q) + 1] (rq_extra_disks q))
     @ (case rq_boot_usb q of None \<Rightarrow> [] | Some u \<Rightarrow> [UsbStorage u])
     @ [case rq_network q of Some n \<Rightarrow> Net n | None \<Rightarrow> NoNetwork]
     @ (if rq_boot_from_cdrom q then [BootFromCdrom] else [])"

definition vm_build :: "vm_request \<Rightarrow> vm_spec res" where
  "vm_build q =
     rbind (require_disposable_for q) (\<lambda>_.
     rbind (require_consistent q) (\<lambda>_.
       if MAXIMUM_EXTRA_DISKS < length (rq_extra_disks q) then Inl (Refusal TOO_MANY_DEVICES)
       else if card (set (map safe_path_str (attached_disks q))) \<noteq> length (attached_disks q)
       then Inl (Refusal DUPLICATE_DEVICE)
       else Inr \<lparr>vm_role = rq_role q, vm_resources = rq_resources q, vm_devices = devices_of q,
                 vm_extra_disks = rq_extra_disks q\<rparr>))"

definition vm_render :: "vm_spec \<Rightarrow> argv res" where
  "vm_render s =
     rbind (rmapM render_device (vm_devices s)) (\<lambda>rendered.
       argv_of (QEMU_PROGRAM # [''-name'', ''apex-'' @ vm_role_value (vm_role s)] @ concat rendered))"

subsection \<open>Identity and ownership\<close>

record vm_identity =
  vi_process :: int
  vi_pidfd_inode :: int
  vi_boot_ticks :: int
  vi_monitor_socket_inode :: int

record owned_test_vm =
  ot_identity :: vm_identity
  ot_role :: vm_role

definition mk_owned_test_vm :: "vm_identity \<Rightarrow> vm_role \<Rightarrow> owned_test_vm res" where
  "mk_owned_test_vm i r =
     (if \<not> is_disposable r then Inl (Refusal NOT_A_DISPOSABLE_MACHINE)
      else Inr \<lparr>ot_identity = i, ot_role = r\<rparr>)"

subsection \<open>What the gate lets through\<close>

lemma vm_build_Inr:
  "vm_build q = Inr s \<longleftrightarrow>
     (rq_role q = BUILDER \<longrightarrow>
        rq_extra_disks q = [] \<and> \<not> is_socket (rq_serial q) \<and> rq_usb q = None \<and> rq_boot_usb q = None)
   \<and> (rq_boot_from_cdrom q \<longrightarrow> rq_seed q \<noteq> None)
   \<and> (rq_boot_usb q \<noteq> None \<longrightarrow>
        rq_usb q \<noteq> None \<and> rq_seed q = None \<and> rq_network q = None \<and> length (rq_extra_disks q) = 1)
   \<and> length (rq_extra_disks q) \<le> 2 \<and> distinct (attached_disks q)
   \<and> s = \<lparr>vm_role = rq_role q, vm_resources = rq_resources q, vm_devices = devices_of q,
          vm_extra_disks = rq_extra_disks q\<rparr>"
proof -
  have d: "card (set (map safe_path_str (attached_disks q))) = length (attached_disks q) \<longleftrightarrow> distinct (attached_disks q)"
  proof -
    have "inj_on safe_path_str A" for A by (auto simp: inj_on_def safe_path.expand)
    then show ?thesis
      by (metis card_distinct distinct_card distinct_map length_map)
  qed
  have r: "is_disposable (rq_role q) \<longleftrightarrow> rq_role q \<noteq> BUILDER"
    by (cases "rq_role q") (simp_all add: is_disposable_def)
  show ?thesis
    unfolding vm_build_def d
    by (auto simp: rbind_eq_Inr require_disposable_for_def require_consistent_def r MAXIMUM_EXTRA_DISKS_def not_less
        split: if_splits)
qed

lemma vm_build_Inl:
  "vm_build q = Inl e \<Longrightarrow> e \<in> {Refusal DEVICE_NOT_PERMITTED_FOR_ROLE, Refusal TOPOLOGY_INCONSISTENT,
     Refusal TOO_MANY_DEVICES, Refusal DUPLICATE_DEVICE}"
  by (auto simp: vm_build_def rbind_eq_Inl require_disposable_for_def require_consistent_def Let_def split: if_splits)

text \<open>Rendering fails only for firmware code that is not attached read-only.\<close>

lemma vm_render_total:
  assumes "vm_build q = Inr s" "fw_code_read_only (rq_firmware q)"
  shows "\<exists>a. vm_render s = Inr a"
proof -
  have "\<exists>args. render_device d = Inr args" if "d \<in> set (devices_of q)" for d
    using that assms(2) by (auto simp: devices_of_def render_firmware_def split: option.splits if_splits)
  then obtain g where "\<And>d. d \<in> set (devices_of q) \<Longrightarrow> render_device d = Inr (g d)" by metis
  then have "rmapM render_device (devices_of q) = Inr (map g (devices_of q))" by (rule rmapM_Inr_map)
  moreover have "vm_devices s = devices_of q" using assms(1) by (simp add: vm_build_Inr)
  ultimately show ?thesis by (simp add: vm_render_def argv_of_def)
qed

end
