(* ===== verification/Defaults.thy ===== *)
theory Defaults
  imports Clock SafePaths Machines
begin

section \<open>The declared numbers and names (config/defaults.py)\<close>

text \<open>
  Every name, limit, deadline and wait policy the program declares. \<open>declared_waits_move\<close> shows that each of
  those policies satisfies what \<open>ticking.wait_returns\<close> asks of one.
\<close>

definition BUILDER_SSH_PORT :: tcp_port where "BUILDER_SSH_PORT = TcpPort 22244"
definition GUEST_SSH_PORT :: tcp_port where "GUEST_SSH_PORT = TcpPort 22245"
definition DEFAULT_RECORD_MODE :: file_mode where "DEFAULT_RECORD_MODE = FileMode 384"
definition DOCUMENT_LIMIT :: limit where "DOCUMENT_LIMIT = Limit (4 * 1024 * 1024)"

definition seconds_deadline :: "rat \<Rightarrow> deadline" where
  "seconds_deadline s = \<lparr>deadline_budget = Elapsed s, deadline_started = Instant 0\<rparr>"

definition policy :: "rat \<Rightarrow> rat \<Rightarrow> rat \<Rightarrow> rat \<Rightarrow> str \<Rightarrow> wait_policy" where
  "policy budget first highest factor description =
     \<lparr>policy_deadline = seconds_deadline budget,
      policy_backoff = exponential (Elapsed first) (Elapsed highest) factor,
      policy_description = description\<rparr>"

definition PARTITION_APPEARS :: wait_policy where
  "PARTITION_APPEARS = policy 5 (1 / 10) (1 / 10) 1 ''the partition node appears''"
definition WINDOW_APPEARS :: wait_policy where
  "WINDOW_APPEARS = policy 30 1 1 1 ''the probe's window is presented''"
definition BARS_APPEAR :: wait_policy where
  "BARS_APPEAR = policy 45 1 1 1 ''the render probe's bars are visible''"
definition GREETER_APPEARS :: wait_policy where
  "GREETER_APPEARS = policy 60 1 1 1 ''GDM presents a greeter session on the seat''"
definition SESSION_APPEARS :: wait_policy where
  "SESSION_APPEARS = policy 90 1 1 1 ''the account's Wayland session appears on the seat''"
definition SHELL_STARTS :: wait_policy where
  "SHELL_STARTS = policy 90 1 1 1 ''GNOME Shell reports its startup complete''"
definition OVERVIEW_SETTLES :: wait_policy where
  "OVERVIEW_SETTLES = policy 15 (1 / 2) (1 / 2) 1 ''the Shell's Overview reaches the expected state''"
definition BOOT_READY :: wait_policy where
  "BOOT_READY = policy 240 (1 / 20) 2 2 ''the guest answers on its monitor socket''"
definition SHUTDOWN :: wait_policy where
  "SHUTDOWN = policy 45 (1 / 10) 2 2 ''the guest process exits''"
definition GUEST_READY :: wait_policy where
  "GUEST_READY = policy 240 2 2 1 ''the guest answers over ssh and systemd reports the system running''"

definition declared_waits :: "wait_policy list" where
  "declared_waits = [PARTITION_APPEARS, WINDOW_APPEARS, BARS_APPEAR, GREETER_APPEARS, SESSION_APPEARS,
     SHELL_STARTS, OVERVIEW_SETTLES, BOOT_READY, SHUTDOWN, GUEST_READY]"

definition MACHINE_LOCK :: str where "MACHINE_LOCK = ''machine''"
definition INTENT_NAME :: str where "INTENT_NAME = ''machine-intent.json''"
definition LEASE_NAME :: str where "LEASE_NAME = ''machine.json''"
definition RUNS_DIRECTORY :: str where "RUNS_DIRECTORY = ''vm-runs''"
definition MONITOR_SOCKET_NAME :: str where "MONITOR_SOCKET_NAME = ''qmp.sock''"
definition SERIAL_SOCKET_NAME :: str where "SERIAL_SOCKET_NAME = ''serial.sock''"
definition HYPERVISOR_LOG_NAME :: str where "HYPERVISOR_LOG_NAME = ''qemu.log''"
definition POWER_LOSS_RECORD :: str where "POWER_LOSS_RECORD = ''power-loss.json''"
definition TEST_MACHINE_MINIMUM_FREE :: gib where "TEST_MACHINE_MINIMUM_FREE = Gib 12"
definition MONITOR_APPEARS :: deadline where "MONITOR_APPEARS = seconds_deadline 10"
definition QMP_DEADLINE :: deadline where "QMP_DEADLINE = seconds_deadline 10"
definition IMAGE_TOOL_DEADLINE :: deadline where "IMAGE_TOOL_DEADLINE = seconds_deadline 120"

record builder_defaults =
  bd_processors :: int
  bd_memory :: mib
  bd_reserve :: mib
  bd_disk :: gib
  bd_minimum_free :: gib
  bd_ssh_port :: tcp_port
  bd_firmware_code :: str
  bd_firmware_variables :: str

definition BUILDER_DEFAULTS :: builder_defaults where
  "BUILDER_DEFAULTS =
     \<lparr>bd_processors = 4, bd_memory = Mib 6144, bd_reserve = Mib 1536, bd_disk = Gib 160,
      bd_minimum_free = Gib 180, bd_ssh_port = BUILDER_SSH_PORT,
      bd_firmware_code = ''/usr/share/OVMF/OVMF_CODE_4M.fd'',
      bd_firmware_variables = ''/usr/share/OVMF/OVMF_VARS_4M.fd''\<rparr>"

record test_machine_defaults =
  tm_processors :: int
  tm_memory :: mib
  tm_ssh_port :: tcp_port

definition TEST_MACHINE :: test_machine_defaults where
  "TEST_MACHINE = \<lparr>tm_processors = 4, tm_memory = Mib 4096, tm_ssh_port = GUEST_SSH_PORT\<rparr>"

definition BUILDER_DISK_NAME :: str where "BUILDER_DISK_NAME = ''builder.qcow2''"
definition BUILDER_SEED_NAME :: str where "BUILDER_SEED_NAME = ''seed.iso''"
definition BUILDER_VARIABLES_NAME :: str where "BUILDER_VARIABLES_NAME = ''builder-vars.fd''"
definition BUILDER_SERIAL_LOG_NAME :: str where "BUILDER_SERIAL_LOG_NAME = ''builder-serial.log''"
definition TEST_SERIAL_LOG_NAME :: str where "TEST_SERIAL_LOG_NAME = ''test-serial.log''"
definition RUN_RECORD_NAME :: str where "RUN_RECORD_NAME = ''run.json''"
definition CANDIDATE_HISTORY_DIRECTORY :: str where "CANDIDATE_HISTORY_DIRECTORY = ''candidate-history''"
definition MAXIMUM_TEST_EXTRA_DISKS :: nat where "MAXIMUM_TEST_EXTRA_DISKS = 2"

subsection \<open>Names, limits and deadlines\<close>

definition SOURCE_PATHS :: "str list" where
  "SOURCE_PATHS = [''Containerfile'', ''config'', ''guest'', ''rpms'', ''system_files'', ''live'', ''tools'']"
definition EXPORT_DIRECTORY :: str where "EXPORT_DIRECTORY = ''exports''"
definition SOURCE_ARCHIVE_NAME :: str where "SOURCE_ARCHIVE_NAME = ''source.tar''"
definition SOURCE_MANIFEST_NAME :: str where "SOURCE_MANIFEST_NAME = ''source-manifest.json''"
definition SOURCES_DIRECTORY :: str where "SOURCES_DIRECTORY = ''sources''"
definition LOCK_COPY_NAME :: str where "LOCK_COPY_NAME = ''sources.lock.json''"
definition FINGERPRINT_TESTS_DIRECTORY :: str where "FINGERPRINT_TESTS_DIRECTORY = ''fingerprint-tests''"
definition FINGERPRINT_SOURCES_NAME :: str where "FINGERPRINT_SOURCES_NAME = ''fingerprint-sources''"
definition FINGERPRINT_LOCK_DIRECTORY :: str where "FINGERPRINT_LOCK_DIRECTORY = ''config''"
definition FINGERPRINT_LOCK_NAME :: str where "FINGERPRINT_LOCK_NAME = ''fingerprint-tests.lock.json''"
definition FINGERPRINT_OUTPUT_DIRECTORY :: str where "FINGERPRINT_OUTPUT_DIRECTORY = ''output/fingerprint''"
definition FINGERPRINT_PACKAGES :: "str list" where "FINGERPRINT_PACKAGES = [''fprintd'', ''libfprint'']"
definition FINGERPRINT_TEST_PACKAGES :: "str list" where
  "FINGERPRINT_TEST_PACKAGES = [''python3-dbusmock'', ''python3-gobject'', ''python3-cairo'', ''dbus-daemon'']"
definition FINGERPRINT_TEST_DEADLINE :: deadline where "FINGERPRINT_TEST_DEADLINE = seconds_deadline 180"
definition RPM_NEVRA_FORMAT :: str where
  "RPM_NEVRA_FORMAT = ''%{NAME}-%{VERSION}-%{RELEASE}.%{ARCH}'' @ [CHR 0x5C] @ ''n''"
definition RPM_EVRA_FORMAT :: str where "RPM_EVRA_FORMAT = ''%{NAME}-%{EVR}.%{ARCH}'' @ [CHR 0x5C] @ ''n''"
definition RUNTIME_BASE :: str where "RUNTIME_BASE = ''~/.local/share/apex-fedora''"
definition HOST_SETTINGS_FILE :: str where "HOST_SETTINGS_FILE = ''~/.config/apex-fedora/settings.toml''"
definition PROBE_DEADLINE :: deadline where "PROBE_DEADLINE = seconds_deadline 20"
definition OBSERVATION_DEADLINE :: deadline where "OBSERVATION_DEADLINE = seconds_deadline 15"
definition OBSERVATION_LIMIT :: limit where "OBSERVATION_LIMIT = CAPTURE_LIMIT"
definition LIVE_ROOT_TOKEN :: str where "LIVE_ROOT_TOKEN = ''root=live:CDLABEL=Apex-Live''"
definition SETTLE_DEADLINE :: deadline where "SETTLE_DEADLINE = seconds_deadline 25"
definition INITRD_RELEASE :: str where "INITRD_RELEASE = ''/etc/initrd-release''"
definition MOUNTS :: str where "MOUNTS = ''/proc/mounts''"
definition SYSROOT :: str where "SYSROOT = ''/sysroot''"
definition PROTECTION_LATCH :: str where "PROTECTION_LATCH = ''/run/apex-protection-failed''"
definition LIVE_GUARD :: str where "LIVE_GUARD = ''/usr/libexec/apex/live-disk-guard.sh''"
definition OSTREE_BOOTED :: str where "OSTREE_BOOTED = ''/run/ostree-booted''"
definition INSTALLER_MARKER :: str where "INSTALLER_MARKER = ''/usr/share/apex/installer-payload.json''"
definition BOOT_ID :: str where "BOOT_ID = ''/proc/sys/kernel/random/boot_id''"
definition LOG_LIMIT :: limit where "LOG_LIMIT = Limit (2 * 1024 * 1024)"
definition LOG_ERROR_LIMIT :: nat where "LOG_ERROR_LIMIT = 4096"
definition INSTALLER_QUERY_DEADLINE :: deadline where "INSTALLER_QUERY_DEADLINE = seconds_deadline 5"
definition ANACONDA_DEADLINE :: deadline where "ANACONDA_DEADLINE = seconds_deadline 35"
definition INSTALLER_PAYLOAD :: str where "INSTALLER_PAYLOAD = ''/usr/share/apex/payload''"
definition INSTALLER_TRUST :: str where "INSTALLER_TRUST = ''/usr/share/apex/installer-trust''"
definition INSTALLER_PREFLIGHT_RECORD :: str where
  "INSTALLER_PREFLIGHT_RECORD = ''/run/apex/installer-preflight.json''"
definition INSTALLER_FAULT_DIRECTORY :: str where "INSTALLER_FAULT_DIRECTORY = ''/run/apex-installer-fault''"
definition CONTAINER_POLICY :: str where "CONTAINER_POLICY = ''/etc/containers/policy.json''"
definition ANACONDA_LOG :: str where "ANACONDA_LOG = ''/tmp/anaconda.log''"
definition SIGNING_DEADLINE :: deadline where "SIGNING_DEADLINE = seconds_deadline 60"
definition DOWNLOAD_DEADLINE :: deadline where "DOWNLOAD_DEADLINE = seconds_deadline 1200"
definition DOWNLOAD_CONNECT_TIMEOUT :: elapsed where "DOWNLOAD_CONNECT_TIMEOUT = Elapsed 20"
definition DOWNLOAD_RETRIES :: nat where "DOWNLOAD_RETRIES = 2"
definition SSH_CONNECT_TIMEOUT :: elapsed where "SSH_CONNECT_TIMEOUT = Elapsed 5"
definition GUEST_COMMAND_DEADLINE :: deadline where "GUEST_COMMAND_DEADLINE = seconds_deadline 300"
definition TRANSFER_DEADLINE :: deadline where "TRANSFER_DEADLINE = seconds_deadline 1800"
definition BUILD_DEADLINE :: deadline where "BUILD_DEADLINE = seconds_deadline (4 * 3600)"
definition ENGINE_QUERY_DEADLINE :: deadline where "ENGINE_QUERY_DEADLINE = seconds_deadline 120"
definition ENGINE_BUILD_DEADLINE :: deadline where "ENGINE_BUILD_DEADLINE = seconds_deadline 3600"
definition BUILDER_USER :: str where "BUILDER_USER = ''builder''"
definition BUILDER_OWNER :: str where "BUILDER_OWNER = ''builder:builder''"
definition BUILDER_KEY_NAME :: str where "BUILDER_KEY_NAME = ''builder_ed25519''"
definition KNOWN_HOSTS_NAME :: str where "KNOWN_HOSTS_NAME = ''known_hosts''"
definition BUILDER_MARKER :: str where "BUILDER_MARKER = ''/etc/apex-builder''"
definition BUILDER_MARKER_TEXT :: str where "BUILDER_MARKER_TEXT = ''apex-isolated-builder-v1''"
definition VIRTUALISERS :: "str set" where "VIRTUALISERS = {''kvm'', ''qemu''}"
definition PACKAGE_INSTALL_DEADLINE :: deadline where "PACKAGE_INSTALL_DEADLINE = seconds_deadline 1800"
definition SHELL_THEME_SOURCE :: str where "SHELL_THEME_SOURCE = ''/usr/share/apex/shell-theme-source.json''"
definition WINDOW_SETTLE :: elapsed where "WINDOW_SETTLE = Elapsed 3"
definition SHELL_SETTLE :: elapsed where "SHELL_SETTLE = Elapsed 2"
definition ESCAPE_KEY :: str where "ESCAPE_KEY = ''esc''"
definition RETURN_KEY :: str where "RETURN_KEY = ''ret''"
definition OVERVIEW_KEY :: str where "OVERVIEW_KEY = ''meta_l''"
definition KEY_INTERVAL :: elapsed where "KEY_INTERVAL = Elapsed (1 / 10)"
definition GREETER_SETTLE :: elapsed where "GREETER_SETTLE = Elapsed 3"
definition PROMPT_SETTLE :: elapsed where "PROMPT_SETTLE = Elapsed 1"
definition WELCOME_SETTLE :: elapsed where "WELCOME_SETTLE = Elapsed 1"
definition SEAT :: str where "SEAT = ''seat0''"
definition GREETER_CLASS :: str where "GREETER_CLASS = ''greeter''"
definition WAYLAND_SESSION :: str where "WAYLAND_SESSION = ''wayland''"
definition SHELL_STARTED_MESSAGE :: str where "SHELL_STARTED_MESSAGE = ''f3ea493c22934e26811cd62abe8e203a''"
definition TEST_ACCESS_DIRECTORY :: str where "TEST_ACCESS_DIRECTORY = ''test-access''"
definition TEST_ACCOUNT :: str where "TEST_ACCOUNT = ''apex-test''"
definition TEST_ACCOUNT_DESCRIPTION :: str where "TEST_ACCOUNT_DESCRIPTION = ''Disposable Apex VM test account''"
definition TEST_KEY_NAME :: str where "TEST_KEY_NAME = ''id_ed25519''"
definition TEST_KEY_COMMENT :: str where "TEST_KEY_COMMENT = ''apex-disposable-test''"
definition TEST_BLUEPRINT_NAME :: str where "TEST_BLUEPRINT_NAME = ''blueprint.toml''"
definition REMOTE_BLUEPRINT_NAME :: str where "REMOTE_BLUEPRINT_NAME = ''test-blueprint.toml''"
definition TEST_KERNEL_APPEND :: str where "TEST_KERNEL_APPEND = ''systemd.wants=sshd.service''"
definition PASSWORD_HASH_DEADLINE :: deadline where "PASSWORD_HASH_DEADLINE = seconds_deadline 30"
definition CREDENTIALS_NAME :: str where "CREDENTIALS_NAME = ''credentials.json''"
definition SHELL_SHORTCUT :: "str list" where "SHELL_SHORTCUT = [''meta_l'', ''s'']"
definition SCREENS_DIRECTORY :: str where "SCREENS_DIRECTORY = ''screens''"
definition GTK_THEME_NAME :: str where "GTK_THEME_NAME = ''Adwaita-dark''"
definition SHELL_THEME_NAME :: str where "SHELL_THEME_NAME = ''Shadcn-Graphite''"
definition GTK_THEME :: str where "GTK_THEME = [CHR 0x27] @ GTK_THEME_NAME @ [CHR 0x27]"
definition SHELL_THEME :: str where "SHELL_THEME = [CHR 0x27] @ SHELL_THEME_NAME @ [CHR 0x27]"
definition WAYLAND_DISPLAY :: str where "WAYLAND_DISPLAY = ''GdkWaylandDisplay''"
definition BUILD_LOCK :: remote_path where "BUILD_LOCK = RemotePath ''/run/apex-build.lock''"
definition REMOTE_PREFIX :: str where "REMOTE_PREFIX = ''/var/tmp/apex-''"
definition REMOTE_DIRECTORY_MODE :: str where "REMOTE_DIRECTORY_MODE = ''700''"
definition AGENT_DIRECTORY :: str where "AGENT_DIRECTORY = ''agent''"
definition AGENT_WHEEL_NAME :: str where "AGENT_WHEEL_NAME = ''apex-agent.whl''"
definition AGENT_LIBRARY :: str where "AGENT_LIBRARY = ''lib''"
definition AGENT_REPLY_LIMIT :: limit where "AGENT_REPLY_LIMIT = Limit (32 * 1024 * 1024)"
definition INITIAL_VARIABLES_NAME :: str where "INITIAL_VARIABLES_NAME = ''initial-vars.fd''"
definition VARIABLES_NAME :: str where "VARIABLES_NAME = ''test-vars.fd''"
definition COMPARISON_RECORD :: str where "COMPARISON_RECORD = ''disk-comparison.json''"
definition FIRMWARE_VARIABLES_LIMIT :: limit where "FIRMWARE_VARIABLES_LIMIT = Limit (8 * 1024 * 1024)"
definition MONITOR_POLL :: elapsed where "MONITOR_POLL = Elapsed (1 / 20)"
definition REAP_DEADLINE :: deadline where "REAP_DEADLINE = seconds_deadline 5"
definition QMP_LINE_LIMIT :: limit where "QMP_LINE_LIMIT = Limit (1024 * 1024)"
definition SCREEN_LIMIT :: limit where "SCREEN_LIMIT = Limit (64 * 1024 * 1024)"
definition KEY_HOLD_MILLISECONDS :: nat where "KEY_HOLD_MILLISECONDS = 40"
definition BUILDER_HOSTNAME :: str where "BUILDER_HOSTNAME = ''apex-builder''"
definition BUILDER_INSTANCE_PREFIX :: str where "BUILDER_INSTANCE_PREFIX = ''apex-builder-''"
definition BUILDER_KEY_COMMENT :: str where "BUILDER_KEY_COMMENT = ''apex-local-builder''"
definition BUILDER_KEY_TYPE :: str where "BUILDER_KEY_TYPE = ''ed25519''"
definition BUILDER_MARKER_MODE :: str where "BUILDER_MARKER_MODE = ''0600''"
definition PUBLIC_KEY_SUFFIX :: str where "PUBLIC_KEY_SUFFIX = ''.pub''"
definition USER_DATA_NAME :: str where "USER_DATA_NAME = ''user-data''"
definition META_DATA_NAME :: str where "META_DATA_NAME = ''meta-data''"
definition SEED_VOLUME :: str where "SEED_VOLUME = ''cidata''"
definition PACKAGEKIT_UNIT :: str where "PACKAGEKIT_UNIT = ''packagekit.service''"
definition KEYGEN_DEADLINE :: deadline where "KEYGEN_DEADLINE = seconds_deadline 60"
definition FINGERPRINT_WORK_PREFIX :: str where "FINGERPRINT_WORK_PREFIX = ''/var/tmp/apex-fingerprint-''"
definition PAYLOAD_TAG_PREFIX :: str where "PAYLOAD_TAG_PREFIX = ''localhost/apex-payload:''"
definition PAYLOAD_MANIFEST_NAME :: str where "PAYLOAD_MANIFEST_NAME = ''payload-manifest.json''"
definition TEST_DISK_NAME :: str where "TEST_DISK_NAME = ''disk.qcow2''"
definition TEST_EXTRA_DISK_PREFIX :: str where "TEST_EXTRA_DISK_PREFIX = ''other-''"
definition TEST_BOOT_USB_NAME :: str where "TEST_BOOT_USB_NAME = ''boot-usb.qcow2''"
definition HOTPLUG_OVERLAY_NAME :: str where "HOTPLUG_OVERLAY_NAME = ''hotplug-usb.qcow2''"
definition HOTPLUG_RECORD :: str where "HOTPLUG_RECORD = ''hotplug-request.json''"
definition SERIAL_LOCK_NAME :: str where "SERIAL_LOCK_NAME = ''serial-console.lock''"
definition SERIAL_CONNECT_TIMEOUT :: elapsed where "SERIAL_CONNECT_TIMEOUT = Elapsed 5"
definition SERIAL_HANDSHAKE_DEADLINE :: deadline where "SERIAL_HANDSHAKE_DEADLINE = seconds_deadline 45"
definition SERIAL_TRANSFER_LIMIT :: limit where "SERIAL_TRANSFER_LIMIT = Limit (16 * 1024 * 1024)"
definition FAULT_REQUEST_NAME :: str where "FAULT_REQUEST_NAME = ''fault-request.json''"
definition FAULT_GUEST_NAME :: str where "FAULT_GUEST_NAME = ''fault-guest.json''"
definition FAULT_RESULT_NAME :: str where "FAULT_RESULT_NAME = ''fault-result.json''"
definition PUBLIC_KEY_LIMIT :: limit where "PUBLIC_KEY_LIMIT = Limit 4096"
definition RESUME_PREFIX :: str where "RESUME_PREFIX = ''before-resume-''"
definition TRUST_WORK_PREFIX :: str where "TRUST_WORK_PREFIX = ''/var/tmp/apex-trust-''"
definition DEVELOPMENT_KEY_PATH :: str where "DEVELOPMENT_KEY_PATH = ''/var/lib/apex/signing/local-dev.key''"
definition TRUST_DIRECTORY :: str where "TRUST_DIRECTORY = ''trust''"
definition DEVELOPMENT_KEY_NAME :: str where "DEVELOPMENT_KEY_NAME = ''development.pub''"
definition DEVELOPMENT_RECORD_NAME :: str where "DEVELOPMENT_RECORD_NAME = ''development.json''"
definition DEVELOPMENT_PURPOSE :: str where "DEVELOPMENT_PURPOSE = ''local-development-only''"
definition DEVELOPMENT_SOURCE :: str where
  "DEVELOPMENT_SOURCE = ''authenticated builder ssh; not the artifact bundle''"
definition SIGNATURE_TESTS_DIRECTORY :: str where "SIGNATURE_TESTS_DIRECTORY = ''signature-tests''"
definition GIT_PROOFS_DIRECTORY :: str where "GIT_PROOFS_DIRECTORY = ''git-proofs''"
definition RESULTS_NAME :: str where "RESULTS_NAME = ''results.json''"
definition OPERATOR_NOTE_KIND :: str where "OPERATOR_NOTE_KIND = ''.json''"
definition PROOF_LIMIT :: limit where "PROOF_LIMIT = Limit (64 * 1024 * 1024)"
definition KEY_CHECK_DEADLINE :: deadline where "KEY_CHECK_DEADLINE = seconds_deadline 30"
definition GUEST_KEY_NAME :: str where "GUEST_KEY_NAME = ''guest_ed25519''"
definition REPOSITORY_RULE_FLOOR :: "nat \<times> nat \<times> nat" where "REPOSITORY_RULE_FLOOR = (13, 6, 5)"
definition SOURCE_BLOB_LIMIT :: byte_count where "SOURCE_BLOB_LIMIT = ByteCount (20 * 1024 * 1024)"
definition HOOK_GIT_DEADLINE :: deadline where "HOOK_GIT_DEADLINE = seconds_deadline 120"
definition HOOK_CONTENT_LIMIT :: limit where "HOOK_CONTENT_LIMIT = Limit (64 * 1024 * 1024)"
definition HOOK_MARKER :: str where "HOOK_MARKER = ''# apex-local-hook''"
definition HOOK_MODE :: file_mode where "HOOK_MODE = FileMode 493"
definition HOST_TOOLS :: "str list" where
  "HOST_TOOLS = [''python3'', ''qemu-system-x86_64'', ''qemu-img'', ''ssh'', ''ssh-keygen'', ''curl'', ''uv'']"
definition HARDWARE_OBSERVATIONS_DIRECTORY :: str where "HARDWARE_OBSERVATIONS_DIRECTORY = ''hardware-observations''"
definition OBSERVATIONS_NAME :: str where "OBSERVATIONS_NAME = ''observations.json''"
definition SNAPSHOT_READ_LIMIT :: limit where "SNAPSHOT_READ_LIMIT = Limit (256 * 1024)"
definition SNAPSHOT_COMMAND_DEADLINE :: deadline where "SNAPSHOT_COMMAND_DEADLINE = seconds_deadline 15"
definition NVIDIA_LOCK_PATH :: str where "NVIDIA_LOCK_PATH = ''config/nvidia.lock.json''"
definition NVIDIA_OUTPUT_DIRECTORY :: str where "NVIDIA_OUTPUT_DIRECTORY = ''nvidia''"
definition NVIDIA_REPORT_NAME :: str where "NVIDIA_REPORT_NAME = ''results.json''"
definition NVIDIA_LOCK_COPY :: str where "NVIDIA_LOCK_COPY = ''sources/nvidia.lock.json''"
definition NVIDIA_VERIFICATION_NAME :: str where "NVIDIA_VERIFICATION_NAME = ''nvidia-verification.json''"
definition NVIDIA_KMOD_PACKAGE :: str where "NVIDIA_KMOD_PACKAGE = ''kmod-apex-nvidia-open''"
definition KERNEL_CONFIG_NAME :: str where "KERNEL_CONFIG_NAME = ''kernel-config.txt''"
definition VENTOY_LOCK_PATH :: str where "VENTOY_LOCK_PATH = ''config/ventoy-test.lock.json''"
definition VENTOY_INPUTS_DIRECTORY :: str where "VENTOY_INPUTS_DIRECTORY = ''ventoy-inputs''"
definition VENTOY_SUMS_NAME :: str where "VENTOY_SUMS_NAME = ''ventoy-sha256.txt''"
definition VENTOY_WORK_DIRECTORY :: str where "VENTOY_WORK_DIRECTORY = ''ventoy''"
definition LIVE_ISO_RELATIVE :: str where "LIVE_ISO_RELATIVE = ''live/Apex-Live.iso''"
definition GPGV_HOME :: str where "GPGV_HOME = ''gpgv''"
definition GPGV_DEADLINE :: deadline where "GPGV_DEADLINE = seconds_deadline 60"
definition UBUNTU_SIGNATURE_LOG :: str where "UBUNTU_SIGNATURE_LOG = ''ubuntu-signature.log''"
definition UBUNTU_VERIFICATION_NAME :: str where "UBUNTU_VERIFICATION_NAME = ''ubuntu-verification.json''"
definition LIVE_VERIFICATION_NAME :: str where "LIVE_VERIFICATION_NAME = ''live-verification.json''"
definition INPUTS_LOCK_NAME :: str where "INPUTS_LOCK_NAME = ''inputs.lock.json''"
definition MEDIA_EXECUTION_NAME :: str where "MEDIA_EXECUTION_NAME = ''execution.json''"
definition FINGERPRINT_OBSERVATIONS_DIRECTORY :: str where
  "FINGERPRINT_OBSERVATIONS_DIRECTORY = ''fingerprint-observations''"
definition TRACE_EVENTS_NAME :: str where "TRACE_EVENTS_NAME = ''events.jsonl''"
definition TRACE_SUMMARY_NAME :: str where "TRACE_SUMMARY_NAME = ''summary.json''"
definition TRACE_EVENT_LIMIT :: nat where "TRACE_EVENT_LIMIT = 2000"
definition TRACE_ERROR_LIMIT :: nat where "TRACE_ERROR_LIMIT = 20"
definition TRACE_LINE_LIMIT :: limit where "TRACE_LINE_LIMIT = Limit (256 * 1024)"
definition TRACE_RAW_LIMIT :: limit where "TRACE_RAW_LIMIT = Limit (256 * 1024)"
definition BUS_QUERY_DEADLINE :: deadline where "BUS_QUERY_DEADLINE = seconds_deadline 2"
definition KERNEL_RELEASE :: str where "KERNEL_RELEASE = ''/proc/sys/kernel/osrelease''"
definition DIALOG_TESTS_DIRECTORY :: str where "DIALOG_TESTS_DIRECTORY = ''fingerprint-dialog-tests''"
definition ELAN_TESTS_DIRECTORY :: str where "ELAN_TESTS_DIRECTORY = ''elan-diagnostics-tests''"
definition DIALOG_LOCK_PATH :: str where "DIALOG_LOCK_PATH = ''config/gnome-fingerprint.lock.json''"
definition ELAN_LOCK_PATH :: str where "ELAN_LOCK_PATH = ''config/elan-diagnostics.lock.json''"
definition DIALOG_HARNESS_PATH :: str where "DIALOG_HARNESS_PATH = ''tests/fixtures/fingerprint-dialog-harness.c''"
definition ELAN_HARNESS_PATH :: str where "ELAN_HARNESS_PATH = ''tests/fixtures/elan-diagnostics-harness.c''"
definition PATCH_WORK_DIRECTORY :: str where "PATCH_WORK_DIRECTORY = ''work''"
definition COMPILE_DEADLINE :: deadline where "COMPILE_DEADLINE = seconds_deadline 300"
definition HARNESS_CASE_DEADLINE :: deadline where "HARNESS_CASE_DEADLINE = seconds_deadline 5"
definition COMPACTIONS_DIRECTORY :: str where "COMPACTIONS_DIRECTORY = ''compactions''"
definition COMPRESSED_DISK_NAME :: str where "COMPRESSED_DISK_NAME = ''builder-compressed.qcow2''"
definition CONVERT_LOG_NAME :: str where "CONVERT_LOG_NAME = ''convert.log''"
definition FINALISE_PREFIX :: str where "FINALISE_PREFIX = ''finalize-''"
definition COMPACTION_RESERVE :: gib where "COMPACTION_RESERVE = Gib 4"
definition COMPACTION_DEADLINE :: deadline where "COMPACTION_DEADLINE = seconds_deadline (4 * 3600)"
definition COMPRESSION_TYPE :: str where "COMPRESSION_TYPE = ''zstd''"
definition CONVERT_THREADS :: str where "CONVERT_THREADS = ''2''"
definition FINGERPRINT_RPMS_LOCK_PATH :: str where
  "FINGERPRINT_RPMS_LOCK_PATH = ''config/fingerprint-rpms.lock.json''"
definition FINGERPRINT_REQUEST_NAME :: str where "FINGERPRINT_REQUEST_NAME = ''fingerprint-request.json''"
definition FINGERPRINT_INPUTS_DIRECTORY :: str where "FINGERPRINT_INPUTS_DIRECTORY = ''inputs''"
definition FINGERPRINT_PACKAGES_DIRECTORY :: str where "FINGERPRINT_PACKAGES_DIRECTORY = ''packages''"
definition FINGERPRINT_MOCK_DIRECTORY :: str where "FINGERPRINT_MOCK_DIRECTORY = ''mock''"
definition FINGERPRINT_REPODATA_PREFIX :: str where "FINGERPRINT_REPODATA_PREFIX = ''packages/repodata/''"
definition FINGERPRINT_VENDOR_SUFFIX :: str where "FINGERPRINT_VENDOR_SUFFIX = ''apex1''"
definition FINGERPRINT_VERIFICATION_NAME :: str where "FINGERPRINT_VERIFICATION_NAME = ''verified.json''"
definition UPDATE_WORK_PREFIX :: str where "UPDATE_WORK_PREFIX = ''/var/tmp/apex-update-''"
definition GRUB_REPAIR_PATH :: str where "GRUB_REPAIR_PATH = ''guest/fix-grub-fragment.py''"
definition RETRY_PRESET_PATH :: str where "RETRY_PRESET_PATH = ''system_files/usr/share/apex/greenboot.conf''"
definition FIXTURE_DISK_NAME :: str where "FIXTURE_DISK_NAME = ''fixture-disk.json''"
definition FIXTURE_DISK_SCOPE :: str where
  "FIXTURE_DISK_SCOPE = ''Fresh installed recovery fixture; boot is NOT TESTED''"
definition FINGERPRINT_TEST_LOCK :: remote_path where
  "FINGERPRINT_TEST_LOCK = RemotePath ''/run/apex-fingerprint-test.lock''"
definition SMOKE_SCRIPT_NAME :: str where "SMOKE_SCRIPT_NAME = ''test.py''"
definition SMOKE_INPUTS_NAME :: str where "SMOKE_INPUTS_NAME = ''inputs.json''"
definition SMOKE_LOG_NAME :: str where "SMOKE_LOG_NAME = ''test.log''"
definition GTK_REQUEST_NAME :: str where "GTK_REQUEST_NAME = ''request.json''"
definition GTK_LOG_NAME :: str where "GTK_LOG_NAME = ''execution.log''"
definition GTK_LOCK_NAME :: str where "GTK_LOCK_NAME = ''test.lock''"
definition GTK_INPUT_FILES :: "str list" where
  "GTK_INPUT_FILES = [''guest/fingerprint-gtk.py'', ''guest/fingerprint-gtk.c'', ''guest/fingerprint-gtk-service.py'',
     ''config/fingerprint-rpms.lock.json'', ''rpms/patches/gnome-fingerprint-retain-claim.patch'']"
definition SMOKE_SCRIPT_PATH :: str where "SMOKE_SCRIPT_PATH = ''guest/fingerprint-rpm-smoke.py''"
definition CHECK_DEADLINE :: deadline where "CHECK_DEADLINE = seconds_deadline 1800"
definition CHECK_OUTPUT_LIMIT :: limit where "CHECK_OUTPUT_LIMIT = Limit (16 * 1024 * 1024)"
definition SYSTEM_STATES :: "str set" where "SYSTEM_STATES = {''running'', ''degraded''}"
definition REBOOT_EXITS :: "int set" where "REBOOT_EXITS = {0, 255}"
definition UPDATE_OPERATION_DEADLINE :: deadline where "UPDATE_OPERATION_DEADLINE = seconds_deadline 900"
definition UPDATE_UPLOAD_PREFIX :: str where "UPDATE_UPLOAD_PREFIX = ''/var/tmp/apex-update-''"
definition UPDATE_SENTINEL_NAME :: str where "UPDATE_SENTINEL_NAME = ''apex-update-sentinel.txt''"
definition UPDATE_REPORT_NAME :: str where "UPDATE_REPORT_NAME = ''update.json''"
definition RECOVERY_REPORT_NAME :: str where "RECOVERY_REPORT_NAME = ''recovery.json''"
definition INITRAMFS_REPORT_NAME :: str where "INITRAMFS_REPORT_NAME = ''initramfs.json''"

lemmas declared_wait_defs = PARTITION_APPEARS_def WINDOW_APPEARS_def BARS_APPEAR_def GREETER_APPEARS_def
  SESSION_APPEARS_def SHELL_STARTS_def OVERVIEW_SETTLES_def BOOT_READY_def SHUTDOWN_def GUEST_READY_def

lemma declared_waits_move: "p \<in> set declared_waits \<Longrightarrow> backoff_moves (policy_backoff p)"
  by (auto simp: declared_waits_def declared_wait_defs policy_def exponential_def backoff_moves_def backoff_ok_def)

lemma shutdown_moves: "backoff_moves (policy_backoff SHUTDOWN)"
  by (rule declared_waits_move) (simp add: declared_waits_def)

end
