(* ===== verification/Leases.thy ===== *)
theory Leases
  imports Defaults Documents FilesPort
begin

section \<open>The records of a machine (provisioning/leases.py)\<close>

text \<open>
  The intent written before a machine is started and the lease written after, as documents and as
  files below the runtime root. The port is any \<open>files_port\<close>. A document that was written reads
  back as the record it was written from (\<open>intent_back\<close>, \<open>lease_back\<close>); over a file store the same
  holds of the file (\<open>read_lease_written\<close>).
\<close>

definition LEASE_SCHEMA :: int where "LEASE_SCHEMA = 1"

record machine_intent =
  mi_role :: vm_role
  mi_run :: run_id
  mi_run_directory :: safe_path
  mi_monitor :: safe_path
  mi_command :: argv
  mi_written_at :: str
  mi_witness :: environment_kind

definition intent_members :: "machine_intent \<Rightarrow> members" where
  "intent_members i =
     [(''schema'', JInt LEASE_SCHEMA), (''role'', JStr (vm_role_value (mi_role i))),
      (''witness'', JStr (environment_value (mi_witness i))), (''run'', JStr (identifier_value (mi_run i))),
      (''run_directory'', JStr (safe_path_str (mi_run_directory i))),
      (''monitor'', JStr (safe_path_str (mi_monitor i))),
      (''command'', JList (map JStr (argv_arguments (mi_command i)))), (''written_at'', JStr (mi_written_at i))]"

definition intent_document :: "machine_intent \<Rightarrow> json" where
  "intent_document i = JObj (intent_members i)"

definition lease_fault :: "exn \<Rightarrow> bool" where
  "lease_fault e \<longleftrightarrow> e = KeyError \<or> e = TypeError \<or> is_value_error e"

definition lease_item :: "members \<Rightarrow> str \<Rightarrow> json res" where
  "lease_item d key = of_option KeyError (map_of d key)"

definition command_of :: "json \<Rightarrow> str list res" where
  "command_of j = (case j of
     JList items \<Rightarrow> (if list_all (\<lambda>c. as_text c \<noteq> None) items then Inr (map (\<lambda>c. the (as_text c)) items) else Inl TypeError)
   | _ \<Rightarrow> Inl TypeError)"

text \<open>\<open>SafePath(Path(value))\<close> of a value that must be a text.\<close>

definition lease_path :: "json \<Rightarrow> safe_path res" where
  "lease_path j = (case as_text j of None \<Rightarrow> Inl TypeError | Some s \<Rightarrow> mk_safe_path (path_text s))"

definition intent_fields :: "members \<Rightarrow> machine_intent res" where
  "intent_fields d =
     rbind (rbind (lease_item d ''command'') command_of) (\<lambda>command.
     rbind (rbind (lease_item d ''role'') (\<lambda>j. enum_of vm_role_value vm_roles (py_str j))) (\<lambda>role.
     rbind (rbind (lease_item d ''run'') (\<lambda>j. parse_hex_identifier (py_str j))) (\<lambda>run.
     rbind (rbind (lease_item d ''run_directory'') lease_path) (\<lambda>directory.
     rbind (rbind (lease_item d ''monitor'') lease_path) (\<lambda>monitor.
     rbind (argv_of command) (\<lambda>argv.
     rbind (lease_item d ''written_at'') (\<lambda>written.
     rbind (rbind (lease_item d ''witness'') (\<lambda>j. environment_of (py_str j))) (\<lambda>witness.
       Inr \<lparr>mi_role = role, mi_run = run, mi_run_directory = directory, mi_monitor = monitor, mi_command = argv,
            mi_written_at = py_str written, mi_witness = witness\<rparr>))))))))"

definition intent_parse :: "members \<Rightarrow> machine_intent res" where
  "intent_parse d = rcatch (intent_fields d) lease_fault (Inl (Refusal LEASE_MALFORMED))"

record machine_lease =
  ml_intent :: machine_intent
  ml_identity :: vm_identity
  ml_released :: bool

definition identity_members :: "vm_identity \<Rightarrow> members" where
  "identity_members i =
     [(''process'', JInt (vi_process i)), (''pidfd_inode'', JInt (vi_pidfd_inode i)),
      (''boot_ticks'', JInt (vi_boot_ticks i)), (''monitor_socket_inode'', JInt (vi_monitor_socket_inode i))]"

definition lease_members :: "machine_lease \<Rightarrow> members" where
  "lease_members l =
     [(''schema'', JInt LEASE_SCHEMA), (''intent'', intent_document (ml_intent l)),
      (''identity'', JObj (identity_members (ml_identity l))), (''released'', JBool (ml_released l))]"

definition lease_document :: "machine_lease \<Rightarrow> json" where
  "lease_document l = JObj (lease_members l)"

definition identity_fields :: "members \<Rightarrow> vm_identity res" where
  "identity_fields d =
     rbind (rbind (lease_item d ''process'') py_int) (\<lambda>a.
     rbind (rbind (lease_item d ''pidfd_inode'') py_int) (\<lambda>b.
     rbind (rbind (lease_item d ''boot_ticks'') py_int) (\<lambda>c.
     rbind (rbind (lease_item d ''monitor_socket_inode'') py_int) (\<lambda>m.
       Inr \<lparr>vi_process = a, vi_pidfd_inode = b, vi_boot_ticks = c, vi_monitor_socket_inode = m\<rparr>))))"

definition lease_parse :: "members \<Rightarrow> machine_lease res" where
  "lease_parse d =
     (case (as_object (member d ''intent''), as_object (member d ''identity'')) of
        (Some i, Some v) \<Rightarrow>
          rbind (rcatch (identity_fields v) lease_fault (Inl (Refusal LEASE_MALFORMED))) (\<lambda>identity.
          rbind (intent_parse i) (\<lambda>intent.
            Inr \<lparr>ml_intent = intent, ml_identity = identity,
                 ml_released = py_bool (dict_get d ''released'' (JBool False))\<rparr>))
      | _ \<Rightarrow> Inl (Refusal LEASE_MALFORMED))"

definition release :: "machine_lease \<Rightarrow> machine_lease" where
  "release l = l\<lparr>ml_released := True\<rparr>"

subsection \<open>The files\<close>

definition document_bytes :: "json \<Rightarrow> bytes" where
  "document_bytes d = canonical d @ [CHR 0x0A]"

definition write_document :: "'w files_port \<Rightarrow> safe_path res \<Rightarrow> json \<Rightarrow> ('w, unit) io" where
  "write_document port target d =
     io_bind (io_lift target) (\<lambda>path.
     io_bind (fp_write_atomic port path (document_bytes d) DEFAULT_RECORD_MODE) (\<lambda>_. io_return ()))"

definition write_intent :: "'w files_port \<Rightarrow> host \<Rightarrow> machine_intent \<Rightarrow> runtime_root \<Rightarrow> ('w, unit) io" where
  "write_intent port h i rt = write_document port (root_child h rt INTENT_NAME) (intent_document i)"

definition write_lease :: "'w files_port \<Rightarrow> host \<Rightarrow> machine_lease \<Rightarrow> runtime_root \<Rightarrow> ('w, unit) io" where
  "write_lease port h l rt =
     io_then (write_document port (root_child h rt LEASE_NAME) (lease_document l))
       (write_document port (safe_path_div (mi_run_directory (ml_intent l)) LEASE_NAME) (lease_document l))"

definition write_record :: "'w files_port \<Rightarrow> safe_path \<Rightarrow> json \<Rightarrow> ('w, unit) io" where
  "write_record port target d = write_document port (Inr target) d"

definition loaded_object :: "bytes \<Rightarrow> members res" where
  "loaded_object payload =
     rbind (rcatch (parse_document payload) (\<lambda>e. e = JSONDecodeError) (Inl (Refusal LEASE_MALFORMED))) (\<lambda>j.
       case as_object j of None \<Rightarrow> Inl (Refusal LEASE_MALFORMED) | Some d \<Rightarrow> Inr d)"

definition read_object :: "'w files_port \<Rightarrow> safe_path res \<Rightarrow> ('w, members option) io" where
  "read_object port target =
     io_bind (io_lift target) (\<lambda>path.
     io_bind (fp_exists port path) (\<lambda>there.
       if \<not> there then io_return None
       else io_bind (fp_read_bytes port path (limit_value DOCUMENT_LIMIT)) (\<lambda>payload.
              io_lift (map_sum id Some (loaded_object payload)))))"

definition parsed_option :: "(members \<Rightarrow> 'a res) \<Rightarrow> members option \<Rightarrow> 'a option res" where
  "parsed_option parse d = (case d of None \<Rightarrow> Inr None | Some m \<Rightarrow> map_sum id Some (parse m))"

definition read_intent :: "'w files_port \<Rightarrow> host \<Rightarrow> runtime_root \<Rightarrow> ('w, machine_intent option) io" where
  "read_intent port h rt =
     io_bind (read_object port (root_child h rt INTENT_NAME)) (\<lambda>d. io_lift (parsed_option intent_parse d))"

definition read_lease :: "'w files_port \<Rightarrow> host \<Rightarrow> runtime_root \<Rightarrow> ('w, machine_lease option) io" where
  "read_lease port h rt =
     io_bind (read_object port (root_child h rt LEASE_NAME)) (\<lambda>d. io_lift (parsed_option lease_parse d))"

subsection \<open>A record reads back\<close>

definition path_ok :: "safe_path \<Rightarrow> bool" where
  "path_ok p \<longleftrightarrow> CHR '','' \<notin> set (safe_path_str p) \<and> path_text (safe_path_str p) = safe_path_str p
     \<and> list_all is_ascii (safe_path_str p)"

definition intent_ok :: "machine_intent \<Rightarrow> bool" where
  "intent_ok i \<longleftrightarrow> hex_identifier_ok (mi_run i) \<and> path_ok (mi_run_directory i) \<and> path_ok (mi_monitor i)
     \<and> argv_arguments (mi_command i) \<noteq> [] \<and> list_all (list_all is_ascii) (argv_arguments (mi_command i))
     \<and> list_all is_ascii (mi_written_at i)"

lemma lease_path_back: "path_ok p \<Longrightarrow> lease_path (JStr (safe_path_str p)) = Inr p"
  by (cases p) (simp add: lease_path_def path_ok_def)

lemma enums_back [simp]:
  "enum_of vm_role_value vm_roles (vm_role_value r) = Inr r"
  by (cases r) (simp_all add: enum_of_def vm_roles_def)

lemma lease_item_sorted:
  "distinct (map fst m) \<Longrightarrow>
     lease_item (sort_key fst (sort_members m)) key = of_option KeyError (map_option sort_json (map_of m key))"
  by (simp add: lease_item_def map_of_sort_key keys_sort_members map_of_sort_members)

lemma intent_keys: "distinct (map fst (intent_members i))"
  by (simp add: intent_members_def)

lemma intent_items [simp]:
  "map_of (intent_members i) ''role'' = Some (JStr (vm_role_value (mi_role i)))"
  "map_of (intent_members i) ''witness'' = Some (JStr (environment_value (mi_witness i)))"
  "map_of (intent_members i) ''run'' = Some (JStr (identifier_value (mi_run i)))"
  "map_of (intent_members i) ''run_directory'' = Some (JStr (safe_path_str (mi_run_directory i)))"
  "map_of (intent_members i) ''monitor'' = Some (JStr (safe_path_str (mi_monitor i)))"
  "map_of (intent_members i) ''command'' = Some (JList (map JStr (argv_arguments (mi_command i))))"
  "map_of (intent_members i) ''written_at'' = Some (JStr (mi_written_at i))"
  by (simp_all add: intent_members_def)

lemma command_back: "command_of (JList (sort_items (map JStr xs))) = Inr xs"
  using sort_items_text [of id xs] by (simp add: command_of_def list_all_iff comp_def)

lemma run_back: "hex_identifier_ok r \<Longrightarrow> parse_hex_identifier (identifier_value r) = Inr r"
  by (simp add: parse_hex_identifier_def)

lemma intent_back:
  assumes "intent_ok i"
  shows "intent_parse (sort_key fst (sort_members (intent_members i))) = Inr i"
proof -
  have "intent_fields (sort_key fst (sort_members (intent_members i))) = Inr i"
    using assms
    by (simp add: intent_fields_def lease_item_sorted [OF intent_keys] command_back lease_path_back argv_of_def
        intent_ok_def run_back)
  then show ?thesis by (simp add: intent_parse_def)
qed

lemma lease_keys: "distinct (map fst (lease_members l))" "distinct (map fst (identity_members i))"
  by (simp_all add: lease_members_def identity_members_def)

lemma lease_items [simp]:
  "map_of (lease_members l) ''intent'' = Some (JObj (intent_members (ml_intent l)))"
  "map_of (lease_members l) ''identity'' = Some (JObj (identity_members (ml_identity l)))"
  "map_of (lease_members l) ''released'' = Some (JBool (ml_released l))"
  by (simp_all add: lease_members_def intent_document_def)

lemma identity_back: "identity_fields (sort_key fst (sort_members (identity_members i))) = Inr i"
  by (simp add: identity_fields_def lease_item_sorted [OF lease_keys(2)]) (simp add: identity_members_def)

lemma lease_back:
  assumes "intent_ok (ml_intent l)"
  shows "lease_parse (sort_key fst (sort_members (lease_members l))) = Inr l"
  using intent_back [OF assms] identity_back [of "ml_identity l"]
  by (simp add: lease_parse_def member_sorted [OF lease_keys(1)] dict_get_def map_of_sort_key keys_sort_members
      lease_keys map_of_sort_members)

lemma names_ascii: "list_all is_ascii (vm_role_value r)" "list_all is_ascii (environment_value w)"
  by (cases r; simp add: is_ascii_def byte_of_def) (cases w; simp add: is_ascii_def byte_of_def)

lemma intent_keys_ascii: "list_all (list_all is_ascii) (map fst (intent_members i))"
  by (simp add: intent_members_def is_ascii_def byte_of_def)

lemma intent_values_plain: "intent_ok i \<Longrightarrow> list_all plain_json (map snd (intent_members i))"
  using names_ascii by (auto simp: intent_members_def intent_ok_def path_ok_def plain_items_text list_all_iff [of "list_all is_ascii"] dest: identifier_ascii)

lemma plain_object:
  "distinct (map fst m) \<Longrightarrow> list_all (list_all is_ascii) (map fst m) \<Longrightarrow> list_all plain_json (map snd m) \<Longrightarrow> plain_json (JObj m)"
  by (force simp: plain_members_all list_all_iff)

lemma plain_intent: "intent_ok i \<Longrightarrow> plain_json (intent_document i)"
  unfolding intent_document_def by (intro plain_object intent_keys intent_keys_ascii intent_values_plain)

lemma plain_lease: "intent_ok (ml_intent l) \<Longrightarrow> plain_json (lease_document l)"
  using plain_intent [of "ml_intent l"] by (simp add: lease_document_def lease_members_def identity_members_def is_ascii_def byte_of_def)

subsection \<open>A file reads back\<close>

lemma loaded_object_back:
  assumes "plain_json (JObj m)"
  shows "loaded_object (document_bytes (JObj m)) = Inr (sort_key fst (sort_members m))"
  using parse_document_line [OF assms] by (simp add: loaded_object_def document_bytes_def)

text \<open>A lease that reads back whole, running or released.\<close>

definition lease_fits :: "machine_lease \<Rightarrow> bool" where
  "lease_fits l \<longleftrightarrow> intent_ok (ml_intent l)
     \<and> int (length (document_bytes (lease_document l))) \<le> limit_value DOCUMENT_LIMIT
     \<and> int (length (document_bytes (lease_document (release l)))) \<le> limit_value DOCUMENT_LIMIT"

definition intent_fits :: "machine_intent \<Rightarrow> bool" where
  "intent_fits i \<longleftrightarrow> intent_ok i \<and> int (length (document_bytes (intent_document i))) \<le> limit_value DOCUMENT_LIMIT"

lemma release_simps [simp]:
  "ml_intent (release l) = ml_intent l" "ml_identity (release l) = ml_identity l" "ml_released (release l)"
  "release (release l) = release l"
  by (simp_all add: release_def)

lemma lease_fits_release: "lease_fits l \<Longrightarrow> lease_fits (release l)"
  by (simp add: lease_fits_def)

lemma document_limit_pos [simp]: "0 < limit_value DOCUMENT_LIMIT"
  by (simp add: DOCUMENT_LIMIT_def)

context file_store
begin

lemma write_document_spec:
  assumes "plain w"
  shows "\<exists>w'. write_document port (Inr p) d w = (w', Inr ()) \<and> content w' = (content w)(p \<mapsto> document_bytes d) \<and> plain w'"
proof -
  from write_spec [OF assms, of p "document_bytes d" DEFAULT_RECORD_MODE]
  obtain w' where "fp_write_atomic port p (document_bytes d) DEFAULT_RECORD_MODE w = (w', Inr (digest_bytes (document_bytes d)))"
    "content w' = (content w)(p \<mapsto> document_bytes d)" "plain w'" by blast
  then show ?thesis by (simp add: write_document_def io_bind_step)
qed

lemma read_object_spec:
  assumes "plain w" "content w p = Some b" "int (length b) \<le> limit_value DOCUMENT_LIMIT"
  shows "read_object port (Inr p) w = (w, map_sum id Some (loaded_object b))"
proof -
  from exists_spec [OF assms(1)] assms(2) have "fp_exists port p w = (w, Inr True)" by simp
  with read_whole [OF assms(1,2,3)] show ?thesis by (simp add: read_object_def io_bind_step)
qed

text \<open>Where there is no file, there is no object, or a directory is in its place.\<close>

lemma read_object_none:
  assumes "plain w" "content w p = None"
  shows "read_object port (Inr p) w \<in> {(w, Inr None), (w, Inl PortFailure)}"
proof -
  from exists_pure [OF assms(1), of p] obtain b where "fp_exists port p w = (w, Inr b)" by blast
  with read_missing [OF assms] show ?thesis by (cases b) (simp_all add: read_object_def io_bind_step)
qed

lemma read_lease_written:
  assumes "plain w" "root_child h rt LEASE_NAME = Inr p" "lease_fits l"
    and "content w p = Some (document_bytes (lease_document l))"
  shows "read_lease port h rt w = (w, Inr (Some l))"
  using read_object_spec [OF assms(1,4)] assms(2,3) loaded_object_back [of "lease_members l"] plain_lease [of l]
  by (simp add: read_lease_def lease_fits_def io_bind_step parsed_option_def lease_back lease_document_def)

lemma read_intent_written:
  assumes "plain w" "root_child h rt INTENT_NAME = Inr p" "intent_fits i"
    and "content w p = Some (document_bytes (intent_document i))"
  shows "read_intent port h rt w = (w, Inr (Some i))"
  using read_object_spec [OF assms(1,4)] assms(2,3) loaded_object_back [of "intent_members i"] plain_intent [of i]
  by (simp add: read_intent_def intent_fits_def io_bind_step parsed_option_def intent_back intent_document_def)

lemma read_lease_none:
  assumes "plain w" "root_child h rt LEASE_NAME = Inr p" "content w p = None"
  shows "read_lease port h rt w \<in> {(w, Inr None), (w, Inl PortFailure)}"
  using read_object_none [OF assms(1,3)] assms(2)
  by (auto simp: read_lease_def io_bind_def parsed_option_def)

end

end
