(* ===== verification/Triples.thy ===== *)
theory Triples
  imports PortIO
begin

section \<open>What an operation establishes\<close>

text \<open>
  An operation that may not return gives an option. A triple says what holds after an operation
  that began where \<open>P\<close> holds: \<open>Q\<close> of its value, or \<open>E\<close> when it raised. One rule for each way
  operations are put together; \<open>io_keeps\<close> is the triple whose three conditions are one.
\<close>

subsection \<open>Operations that may not return\<close>

type_synonym ('s, 'a) pio = "'s \<Rightarrow> ('s \<times> 'a res) option"

definition pio_bind :: "('s, 'a) pio \<Rightarrow> ('a \<Rightarrow> ('s, 'b) pio) \<Rightarrow> ('s, 'b) pio" where
  "pio_bind m f s = (case m s of None \<Rightarrow> None | Some (s', Inl e) \<Rightarrow> Some (s', Inl e) | Some (s', Inr x) \<Rightarrow> f x s')"

definition pio :: "('s, 'a) io \<Rightarrow> ('s, 'a) pio" where
  "pio m s = Some (m s)"

definition pio_catch :: "('s, 'a) pio \<Rightarrow> (exn \<Rightarrow> bool) \<Rightarrow> ('s, 'a) pio \<Rightarrow> ('s, 'a) pio" where
  "pio_catch m handles h s =
     (case m s of Some (s', Inl e) \<Rightarrow> if handles e then h s' else Some (s', Inl e) | r \<Rightarrow> r)"

text \<open>\<open>try: m finally: f\<close>: what \<open>f\<close> raises replaces what \<open>m\<close> gave.\<close>

definition io_finally :: "('s, 'a) io \<Rightarrow> ('s, unit) io \<Rightarrow> ('s, 'a) io" where
  "io_finally m f s = (case m s of (s1, r) \<Rightarrow> case f s1 of (s2, Inl e) \<Rightarrow> (s2, Inl e) | (s2, Inr u) \<Rightarrow> (s2, r))"

definition pio_finally :: "('s, 'a) pio \<Rightarrow> ('s, unit) io \<Rightarrow> ('s, 'a) pio" where
  "pio_finally m f s =
     (case m s of None \<Rightarrow> None
      | Some (s1, r) \<Rightarrow> (case f s1 of (s2, Inl e) \<Rightarrow> Some (s2, Inl e) | (s2, Inr u) \<Rightarrow> Some (s2, r)))"

subsection \<open>Triples\<close>

definition triple :: "('s \<Rightarrow> bool) \<Rightarrow> ('s, 'a) io \<Rightarrow> ('a \<Rightarrow> 's \<Rightarrow> bool) \<Rightarrow> ('s \<Rightarrow> bool) \<Rightarrow> bool" where
  "triple P m Q E \<longleftrightarrow> (\<forall>s. P s \<longrightarrow> (case m s of (s', Inr x) \<Rightarrow> Q x s' | (s', Inl e) \<Rightarrow> E s'))"

named_theorems triples \<open>one rule for each way operations are put together\<close>

lemma tripleI:
  "(\<And>s s' x. P s \<Longrightarrow> m s = (s', Inr x) \<Longrightarrow> Q x s') \<Longrightarrow> (\<And>s s' e. P s \<Longrightarrow> m s = (s', Inl e) \<Longrightarrow> E s')
     \<Longrightarrow> triple P m Q E"
  by (auto simp: triple_def split: prod.splits sum.splits)

lemma tripleD:
  "triple P m Q E \<Longrightarrow> P s \<Longrightarrow> m s = (s', Inr x) \<Longrightarrow> Q x s'"
  "triple P m Q E \<Longrightarrow> P s \<Longrightarrow> m s = (s', Inl e) \<Longrightarrow> E s'"
  unfolding triple_def by (erule allE [of _ s], simp)+

lemma triple_bind [triples]:
  "triple P m Q E \<Longrightarrow> (\<And>x. triple (Q x) (f x) R E) \<Longrightarrow> triple P (io_bind m f) R E"
  by (fastforce simp: triple_def io_bind_def split: prod.splits sum.splits)

lemma triple_then [triples]: "triple P m (\<lambda>_. Q) E \<Longrightarrow> triple Q n R E \<Longrightarrow> triple P (io_then m n) R E"
  unfolding io_then_def by (rule triple_bind)

lemma triple_return [triples]: "(\<And>s. P s \<Longrightarrow> Q x s) \<Longrightarrow> triple P (io_return x) Q E"
  by (simp add: triple_def)

lemma triple_raise [triples]: "(\<And>s. P s \<Longrightarrow> E s) \<Longrightarrow> triple P (io_raise e) Q E"
  by (simp add: triple_def)

lemma triple_lift [triples]:
  "(\<And>s x. r = Inr x \<Longrightarrow> P s \<Longrightarrow> Q x s) \<Longrightarrow> (\<And>s. P s \<Longrightarrow> E s) \<Longrightarrow> triple P (io_lift r) Q E"
  by (cases r) (simp_all add: triple_def)

lemma triple_if [triples]:
  "(b \<Longrightarrow> triple P m Q E) \<Longrightarrow> (\<not> b \<Longrightarrow> triple P n Q E) \<Longrightarrow> triple P (if b then m else n) Q E"
  by simp

lemma triple_option [triples]:
  "(x = None \<Longrightarrow> triple P m Q E) \<Longrightarrow> (\<And>y. x = Some y \<Longrightarrow> triple P (f y) Q E)
     \<Longrightarrow> triple P (case x of None \<Rightarrow> m | Some y \<Rightarrow> f y) Q E"
  by (cases x) simp_all

lemma triple_pre: "triple P m Q E \<Longrightarrow> (\<And>s. P' s \<Longrightarrow> P s) \<Longrightarrow> triple P' m Q E"
  by (auto simp: triple_def)

lemma triple_pure: "(b \<Longrightarrow> triple P m Q E) \<Longrightarrow> triple (\<lambda>s. P s \<and> b) m Q E"
  by (auto simp: triple_def)

lemma triple_conseq:
  "triple P m Q E \<Longrightarrow> (\<And>s. P' s \<Longrightarrow> P s) \<Longrightarrow> (\<And>x s. Q x s \<Longrightarrow> Q' x s) \<Longrightarrow> (\<And>s. E s \<Longrightarrow> E' s) \<Longrightarrow> triple P' m Q' E'"
  by (fastforce simp: triple_def split: prod.splits sum.splits)

lemma triple_keeps: "io_keeps P m \<Longrightarrow> (\<And>s. P s \<Longrightarrow> E s) \<Longrightarrow> triple P m (\<lambda>_. P) E"
  by (rule tripleI) (blast dest: io_keepsD)+

lemma triple_finally [triples]:
  "triple P m Q E \<Longrightarrow> (\<And>x. triple (Q x) f (\<lambda>_. R x) F) \<Longrightarrow> triple E f (\<lambda>_. F) F \<Longrightarrow> triple P (io_finally m f) R F"
  by (fastforce simp: triple_def io_finally_def split: prod.splits sum.splits)

definition ptriple :: "('s \<Rightarrow> bool) \<Rightarrow> ('s, 'a) pio \<Rightarrow> ('a \<Rightarrow> 's \<Rightarrow> bool) \<Rightarrow> ('s \<Rightarrow> bool) \<Rightarrow> bool" where
  "ptriple P m Q E \<longleftrightarrow>
     (\<forall>s. P s \<longrightarrow> (case m s of None \<Rightarrow> True | Some (s', Inr x) \<Rightarrow> Q x s' | Some (s', Inl e) \<Rightarrow> E s'))"

lemma ptripleI:
  "(\<And>s s' x. P s \<Longrightarrow> m s = Some (s', Inr x) \<Longrightarrow> Q x s') \<Longrightarrow> (\<And>s s' e. P s \<Longrightarrow> m s = Some (s', Inl e) \<Longrightarrow> E s')
     \<Longrightarrow> ptriple P m Q E"
  by (auto simp: ptriple_def split: option.splits prod.splits sum.splits)

lemma ptripleD:
  "ptriple P m Q E \<Longrightarrow> P s \<Longrightarrow> m s = Some (s', Inr x) \<Longrightarrow> Q x s'"
  "ptriple P m Q E \<Longrightarrow> P s \<Longrightarrow> m s = Some (s', Inl e) \<Longrightarrow> E s'"
  unfolding ptriple_def by (erule allE [of _ s], simp)+

lemma ptriple_conseq:
  "ptriple P m Q E \<Longrightarrow> (\<And>s. P' s \<Longrightarrow> P s) \<Longrightarrow> (\<And>x s. Q x s \<Longrightarrow> Q' x s) \<Longrightarrow> (\<And>s. E s \<Longrightarrow> E' s) \<Longrightarrow> ptriple P' m Q' E'"
  by (fastforce simp: ptriple_def split: option.splits prod.splits sum.splits)

lemma ptriple_pio [triples]: "triple P m Q E \<Longrightarrow> ptriple P (pio m) Q E"
  by (auto simp: ptriple_def triple_def pio_def split: prod.splits sum.splits)

lemma ptriple_bind [triples]:
  "ptriple P m Q E \<Longrightarrow> (\<And>x. ptriple (Q x) (f x) R E) \<Longrightarrow> ptriple P (pio_bind m f) R E"
  by (fastforce simp: ptriple_def pio_bind_def split: option.splits prod.splits sum.splits)

lemma ptriple_if [triples]:
  "(b \<Longrightarrow> ptriple P m Q E) \<Longrightarrow> (\<not> b \<Longrightarrow> ptriple P n Q E) \<Longrightarrow> ptriple P (if b then m else n) Q E"
  by simp

lemma ptriple_catch [triples]:
  "ptriple P m Q E \<Longrightarrow> ptriple E h Q F \<Longrightarrow> (\<And>s. E s \<Longrightarrow> F s) \<Longrightarrow> ptriple P (pio_catch m p h) Q F"
  by (fastforce simp: ptriple_def pio_catch_def split: option.splits prod.splits sum.splits)

lemma ptriple_finally [triples]:
  "ptriple P m Q E \<Longrightarrow> (\<And>x. triple (Q x) f (\<lambda>_. R x) F) \<Longrightarrow> triple E f (\<lambda>_. F) F \<Longrightarrow> ptriple P (pio_finally m f) R F"
  by (fastforce simp: ptriple_def triple_def pio_finally_def split: option.splits prod.splits sum.splits)

text \<open>Operations that return: each part returns, so the whole does.\<close>

lemma pio_returns:
  "pio q s \<noteq> None"
  "(m s \<noteq> None) \<Longrightarrow> (\<And>x s'. f x s' \<noteq> None) \<Longrightarrow> pio_bind m f s \<noteq> None"
  "m s \<noteq> None \<Longrightarrow> (\<And>s'. g s' \<noteq> None) \<Longrightarrow> pio_catch m p g s \<noteq> None"
  "m s \<noteq> None \<Longrightarrow> pio_finally m k s \<noteq> None"
  "(b \<Longrightarrow> m s \<noteq> None) \<Longrightarrow> (\<not> b \<Longrightarrow> g s \<noteq> None) \<Longrightarrow> (if b then m else g) s \<noteq> None"
  by (auto simp: pio_def pio_bind_def pio_catch_def pio_finally_def split: option.splits prod.splits sum.splits)

end
