(* ===== verification/Hypervisor.thy ===== *)
theory Hypervisor
  imports Leases MemoryFiles Triples
begin

section \<open>The ports a machine is run through, and their fakes\<close>

text \<open>
  ports/hypervisor.py, ports/locking.py and ports/qmp.py as records of operations over one state
  \<open>'w\<close>, so that an operation on one port may change what another answers, as a guest that is told
  to power down leaves the process table. A context manager is its enter and its exit. The fakes of
  the test bundle follow: \<open>fake_qemu\<close>, \<open>memory_locks\<close> and \<open>scripted_qmp\<close>.
\<close>

subsection \<open>The ports\<close>

record host_capacity =
  hc_available_memory :: mib
  hc_free_space :: byte_count
  hc_kvm_accessible :: bool

record 'w hypervisor_port =
  hv_environment :: environment_kind
  hv_capacity :: "runtime_root \<Rightarrow> ('w, host_capacity) io"
  hv_spawn :: "vm_spec \<Rightarrow> safe_path \<Rightarrow> safe_path \<Rightarrow> deadline \<Rightarrow> ('w, vm_identity) io"
  hv_running :: "vm_identity \<Rightarrow> ('w, bool) io"
  hv_terminate :: "vm_identity \<Rightarrow> ('w, unit) io"

datatype lock_scope = LockScope (scope_name: str)

datatype acquisition_policy = AcquisitionPolicy (acquisition_budget: "elapsed option")

definition immediate :: acquisition_policy where "immediate = AcquisitionPolicy None"
definition wait_for :: "elapsed \<Rightarrow> acquisition_policy" where "wait_for budget = AcquisitionPolicy (Some budget)"

record lock_lease =
  ll_scope :: lock_scope
  ll_holder :: str

record 'w lock_port =
  lk_environment :: environment_kind
  lk_acquire :: "lock_scope \<Rightarrow> acquisition_policy \<Rightarrow> ('w, lock_lease) io"
  lk_release :: "lock_lease \<Rightarrow> ('w, unit) io"
  lk_holder :: "lock_scope \<Rightarrow> ('w, str option) io"

record qmp_command =
  qc_name :: str
  qc_arguments :: members

record 'w qmp_port =
  qp_environment :: environment_kind
  qp_connect :: "safe_path \<Rightarrow> deadline \<Rightarrow> ('w, unit) io"
  qp_execute :: "qmp_command \<Rightarrow> ('w, json) io"
  qp_close :: "('w, unit) io"

record 'w machine_ports =
  mp_files :: "'w files_port"
  mp_clock :: "'w clock_port"
  mp_hypervisor :: "'w hypervisor_port"
  mp_locks :: "'w lock_port"
  mp_monitor :: "'w qmp_port"

text \<open>\<open>with ports.locks.acquire(scope, policy):\<close>\<close>

definition locked :: "'w machine_ports \<Rightarrow> lock_scope \<Rightarrow> acquisition_policy \<Rightarrow> ('w, 'a) io \<Rightarrow> ('w, 'a) io" where
  "locked ports scope pol body =
     io_bind (lk_acquire (mp_locks ports) scope pol) (\<lambda>lease. io_finally body (lk_release (mp_locks ports) lease))"

definition locked_pio :: "'w machine_ports \<Rightarrow> lock_scope \<Rightarrow> acquisition_policy \<Rightarrow> ('w, 'a) pio \<Rightarrow> ('w, 'a) pio" where
  "locked_pio ports scope pol body =
     pio_bind (pio (lk_acquire (mp_locks ports) scope pol)) (\<lambda>lease. pio_finally body (lk_release (mp_locks ports) lease))"

subsection \<open>fake_hypervisor.py\<close>

record spawned =
  sp_spec :: vm_spec
  sp_monitor :: safe_path
  sp_log :: safe_path
  sp_identity :: vm_identity

record fake_qemu =
  fq_capacity :: host_capacity
  fq_exits_at_once :: bool
  fq_issued :: int
  fq_alive :: "(int, vm_identity) dict"
  fq_spawned :: "spawned list"
  fq_terminated :: "vm_identity list"

definition AMPLE :: host_capacity where
  "AMPLE = \<lparr>hc_available_memory = Mib 16384, hc_free_space = ByteCount (gib_bytes (Gib 500)), hc_kvm_accessible = True\<rparr>"

definition qemu_new :: "host_capacity \<Rightarrow> bool \<Rightarrow> fake_qemu" where
  "qemu_new capacity exits_at_once =
     \<lparr>fq_capacity = capacity, fq_exits_at_once = exits_at_once, fq_issued = 0, fq_alive = [], fq_spawned = [], fq_terminated = []\<rparr>"

definition qemu_capacity :: "runtime_root \<Rightarrow> (fake_qemu, host_capacity) io" where
  "qemu_capacity rt = io_read fq_capacity"

definition qemu_spawn :: "vm_spec \<Rightarrow> safe_path \<Rightarrow> safe_path \<Rightarrow> deadline \<Rightarrow> (fake_qemu, vm_identity) io" where
  "qemu_spawn spec monitor logfile limit q =
     (if fq_exits_at_once q then (q, Inl PortFailure)
      else
        (let issued = fq_issued q + 1;
             identity = \<lparr>vi_process = 1000 + issued, vi_pidfd_inode = 2000 + issued,
               vi_boot_ticks = (let s = elapsed_seconds (deadline_budget limit) in if 0 \<le> s then \<lfloor>s\<rfloor> else \<lceil>s\<rceil>) + issued,
               vi_monitor_socket_inode = 3000 + issued\<rparr>
         in (q\<lparr>fq_issued := issued, fq_alive := dict_set (vi_process identity) identity (fq_alive q),
               fq_spawned := fq_spawned q @ [\<lparr>sp_spec = spec, sp_monitor = monitor, sp_log = logfile, sp_identity = identity\<rparr>]\<rparr>,
             Inr identity)))"

definition qemu_exit :: "vm_identity \<Rightarrow> fake_qemu \<Rightarrow> fake_qemu" where
  "qemu_exit identity q = q\<lparr>fq_alive := AList.delete (vi_process identity) (fq_alive q)\<rparr>"

definition qemu_running :: "vm_identity \<Rightarrow> (fake_qemu, bool) io" where
  "qemu_running identity = io_read (\<lambda>q. map_of (fq_alive q) (vi_process identity) = Some identity)"

definition qemu_terminate :: "vm_identity \<Rightarrow> (fake_qemu, unit) io" where
  "qemu_terminate identity q =
     (case map_of (fq_alive q) (vi_process identity) of
        None \<Rightarrow> (q, Inl (Refusal MACHINE_NOT_RUNNING))
      | Some found \<Rightarrow>
          if found \<noteq> identity then (q, Inl (Refusal MACHINE_IDENTITY_CHANGED))
          else (q\<lparr>fq_alive := AList.delete (vi_process identity) (fq_alive q),
                  fq_terminated := fq_terminated q @ [identity]\<rparr>, Inr ()))"

subsection \<open>fake_locking.py\<close>

record memory_locks =
  ml_held :: "(str, str) dict"
  ml_issued :: nat
  ml_waits :: "acquisition_policy list"

definition locks_new :: memory_locks where "locks_new = \<lparr>ml_held = [], ml_issued = 0, ml_waits = []\<rparr>"

definition locks_holder :: "lock_scope \<Rightarrow> (memory_locks, str option) io" where
  "locks_holder scope = io_read (\<lambda>l. map_of (ml_held l) (scope_name scope))"

definition locks_acquire :: "lock_scope \<Rightarrow> acquisition_policy \<Rightarrow> (memory_locks, lock_lease) io" where
  "locks_acquire scope pol l =
     (case map_of (ml_held l) (scope_name scope) of
        Some current \<Rightarrow> (l\<lparr>ml_waits := ml_waits l @ [pol]\<rparr>, Inl (Refusal LOCK_HELD))
      | None \<Rightarrow>
          (let identity = ''holder '' @ str_of_nat (ml_issued l + 1)
           in (l\<lparr>ml_issued := ml_issued l + 1, ml_held := dict_set (scope_name scope) identity (ml_held l)\<rparr>,
               Inr \<lparr>ll_scope = scope, ll_holder = identity\<rparr>)))"

definition locks_release :: "lock_lease \<Rightarrow> (memory_locks, unit) io" where
  "locks_release lease l = (l\<lparr>ml_held := AList.delete (scope_name (ll_scope lease)) (ml_held l)\<rparr>, Inr ())"

subsection \<open>fake_qmp.py\<close>

text \<open>What a guest does on a command is the test's to say: here, what it does to the process table.\<close>

record scripted_qmp =
  sq_replies :: "(str, json) dict"
  sq_reachable :: bool
  sq_executed :: "qmp_command list"
  sq_connections :: "safe_path list"
  sq_reactions :: "(str, fake_qemu \<Rightarrow> fake_qemu) dict"
  sq_listeners :: "(str, qmp_command \<Rightarrow> fake_qemu \<Rightarrow> fake_qemu) dict"

definition qmp_new :: "(str, json) dict \<Rightarrow> bool \<Rightarrow> scripted_qmp" where
  "qmp_new replies reachable =
     \<lparr>sq_replies = replies, sq_reachable = reachable, sq_executed = [], sq_connections = [], sq_reactions = [], sq_listeners = []\<rparr>"

definition qmp_react :: "str \<Rightarrow> (fake_qemu \<Rightarrow> fake_qemu) \<Rightarrow> scripted_qmp \<Rightarrow> scripted_qmp" where
  "qmp_react name effect m = m\<lparr>sq_reactions := dict_set name effect (sq_reactions m)\<rparr>"

definition qmp_react_to :: "str \<Rightarrow> (qmp_command \<Rightarrow> fake_qemu \<Rightarrow> fake_qemu) \<Rightarrow> scripted_qmp \<Rightarrow> scripted_qmp" where
  "qmp_react_to name effect m = m\<lparr>sq_listeners := dict_set name effect (sq_listeners m)\<rparr>"

definition qmp_reply :: "str \<Rightarrow> json \<Rightarrow> scripted_qmp \<Rightarrow> scripted_qmp" where
  "qmp_reply name value m = m\<lparr>sq_replies := dict_set name value (sq_replies m)\<rparr>"

definition scripted_connect :: "safe_path \<Rightarrow> deadline \<Rightarrow> (fake_qemu \<times> scripted_qmp, unit) io" where
  "scripted_connect path limit qm =
     (if \<not> sq_reachable (snd qm) then (qm, Inl PortFailure)
      else ((fst qm, (snd qm)\<lparr>sq_connections := sq_connections (snd qm) @ [path]\<rparr>), Inr ()))"

definition scripted_execute :: "qmp_command \<Rightarrow> (fake_qemu \<times> scripted_qmp, json) io" where
  "scripted_execute command qm =
     (case qm of (q, m) \<Rightarrow>
        let m1 = m\<lparr>sq_executed := sq_executed m @ [command]\<rparr>; name = qc_name command
        in case map_of (sq_replies m) name of
             None \<Rightarrow> ((q, m1), Inl PortFailure)
           | Some answer \<Rightarrow>
               let q1 = (case map_of (sq_reactions m) name of None \<Rightarrow> q | Some effect \<Rightarrow> effect q);
                   q2 = (case map_of (sq_listeners m) name of None \<Rightarrow> q1 | Some effect \<Rightarrow> effect command q1)
               in ((q2, m1), Inr answer))"

end
