(* ===== verification/Launching.thy ===== *)
theory Launching
  imports Hypervisor
begin

section \<open>Starting, stopping and reclaiming one machine (provisioning/launching.py)\<close>

text \<open>
  Each operation runs under the machine lock. \<open>launch\<close> refuses while a machine runs, writes the
  intent, starts the process, writes the lease; \<open>shutdown\<close> asks the guest and kills what does not
  go; \<open>reclaim\<close> reads what an interrupted start left. The locale \<open>machine_host\<close> says what the host
  promises, and its lemmas say what the operations keep: at most one machine is alive, and it is
  the one the lease at the root names.
\<close>

definition MACHINE :: lock_scope where "MACHINE = LockScope MACHINE_LOCK"

definition POWERDOWN :: qmp_command where "POWERDOWN = \<lparr>qc_name = ''system_powerdown'', qc_arguments = []\<rparr>"

datatype ending = STOPPED | KILLED

fun ending_value :: "ending \<Rightarrow> str" where
  "ending_value STOPPED = ''stopped''"
| "ending_value KILLED = ''killed''"

record reclaimed =
  rc_intent :: "machine_intent option"
  rc_lease :: "machine_lease option"
  rc_orphaned :: bool

text \<open>The lease of the machine that is running now, or nothing.\<close>

definition current_lease :: "'w machine_ports \<Rightarrow> host \<Rightarrow> runtime_root \<Rightarrow> ('w, machine_lease option) io" where
  "current_lease ports h rt =
     io_bind (read_lease (mp_files ports) h rt) (\<lambda>found.
       case found of
         None \<Rightarrow> io_return None
       | Some lease \<Rightarrow>
           if ml_released lease then io_return None
           else io_bind (hv_running (mp_hypervisor ports) (ml_identity lease)) (\<lambda>running.
                  io_return (if running then Some lease else None)))"

definition require_no_machine :: "'w machine_ports \<Rightarrow> host \<Rightarrow> runtime_root \<Rightarrow> ('w, unit) io" where
  "require_no_machine ports h rt =
     io_bind (current_lease ports h rt) (\<lambda>running.
       if running \<noteq> None then io_raise (Refusal MACHINE_RUNNING) else io_return ())"

definition require_capacity :: "'w machine_ports \<Rightarrow> runtime_root \<Rightarrow> vm_resources \<Rightarrow> ('w, unit) io" where
  "require_capacity ports rt resources =
     io_bind (hv_capacity (mp_hypervisor ports) rt) (\<lambda>capacity.
     io_bind (io_lift (mk_mib (mib_value (vr_memory resources) + mib_value (bd_reserve BUILDER_DEFAULTS)))) (\<lambda>needed.
     io_bind (io_lift (gib_as_bytes TEST_MACHINE_MINIMUM_FREE)) (\<lambda>free.
       if mib_value (hc_available_memory capacity) < mib_value needed
        \<or> bytes_value (hc_free_space capacity) < bytes_value free \<or> \<not> hc_kvm_accessible capacity
       then io_raise (PreconditionUnmet HOST_CAPACITY_INSUFFICIENT)
       else io_return ())))"

definition witness_of :: "'w machine_ports \<Rightarrow> vm_role \<Rightarrow> medium option \<Rightarrow> environment_kind" where
  "witness_of ports r m =
     (if hv_environment (mp_hypervisor ports) = SIMULATED then SIMULATED
      else if r = BUILDER then BUILD
      else if m = Some LIVE then LIVE_VM
      else if m = Some INSTALLER then INSTALLER_VM
      else VM)"

definition launch ::
  "'w machine_ports \<Rightarrow> host \<Rightarrow> runtime_root \<Rightarrow> vm_spec \<Rightarrow> run_id \<Rightarrow> safe_path \<Rightarrow> medium option \<Rightarrow> ('w, machine_lease) io" where
  "launch ports h rt spec run directory m =
     locked ports MACHINE immediate
       (io_bind (require_no_machine ports h rt) (\<lambda>_.
        io_bind (require_capacity ports rt (vm_resources spec)) (\<lambda>_.
        io_bind (io_lift (root_child h rt MONITOR_SOCKET_NAME)) (\<lambda>monitor.
        io_bind (io_lift (vm_render spec)) (\<lambda>command.
        io_bind (cp_stamp (mp_clock ports)) (\<lambda>stamp.
          let intent = \<lparr>mi_role = vm_role spec, mi_run = run, mi_run_directory = directory, mi_monitor = monitor,
                mi_command = command, mi_written_at = stamp, mi_witness = witness_of ports (vm_role spec) m\<rparr>
          in io_bind (write_intent (mp_files ports) h intent rt) (\<lambda>_.
             io_bind (io_lift (safe_path_div directory HYPERVISOR_LOG_NAME)) (\<lambda>logged.
             io_bind (hv_spawn (mp_hypervisor ports) spec monitor logged MONITOR_APPEARS) (\<lambda>identity.
               let lease = \<lparr>ml_intent = intent, ml_identity = identity, ml_released = False\<rparr>
               in io_bind (write_lease (mp_files ports) h lease rt) (\<lambda>_. io_return lease))))))))))"

text \<open>Asking the guest to power down, over a session that is closed whatever happens.\<close>

definition ask_powerdown :: "'w machine_ports \<Rightarrow> safe_path \<Rightarrow> ('w, unit) io" where
  "ask_powerdown ports monitor =
     io_bind (qp_connect (mp_monitor ports) monitor QMP_DEADLINE) (\<lambda>_.
       io_finally (io_bind (qp_execute (mp_monitor ports) POWERDOWN) (\<lambda>_. io_return ())) (qp_close (mp_monitor ports)))"

definition gone :: "'w machine_ports \<Rightarrow> vm_identity \<Rightarrow> ('w, bool) io" where
  "gone ports i = io_bind (hv_running (mp_hypervisor ports) i) (\<lambda>b. io_return (\<not> b))"

definition shutdown :: "'w machine_ports \<Rightarrow> host \<Rightarrow> machine_lease \<Rightarrow> runtime_root \<Rightarrow> ('w, ending) pio" where
  "shutdown ports h lease rt =
     locked_pio ports MACHINE immediate
       (pio_bind (pio (hv_running (mp_hypervisor ports) (ml_identity lease))) (\<lambda>running.
         if \<not> running then pio (io_raise (Refusal MACHINE_NOT_RUNNING))
         else
           pio_bind (pio (ask_powerdown ports (mi_monitor (ml_intent lease)))) (\<lambda>_.
           pio_bind
             (pio_catch
               (pio_bind (wait_until (mp_clock ports) (gone ports (ml_identity lease)) SHUTDOWN)
                 (\<lambda>_. pio (io_return STOPPED)))
               (\<lambda>e. e = PortFailure)
               (pio (io_bind (hv_terminate (mp_hypervisor ports) (ml_identity lease)) (\<lambda>_. io_return KILLED))))
             (\<lambda>ended. pio (io_bind (write_lease (mp_files ports) h (release lease) rt) (\<lambda>_. io_return ended))))))"

definition power_loss_document :: "machine_lease \<Rightarrow> str \<Rightarrow> json" where
  "power_loss_document lease stamp = JObj
     [(''fault'', JStr ''guest-power-loss''), (''process'', JInt (vi_process (ml_identity lease))),
      (''host_rebooted'', JBool False), (''simulates_physical_storage_power_loss'', JBool False),
      (''recorded_at'', JStr stamp)]"

definition power_loss :: "'w machine_ports \<Rightarrow> host \<Rightarrow> owned_test_vm \<Rightarrow> machine_lease \<Rightarrow> runtime_root \<Rightarrow> ('w, unit) io" where
  "power_loss ports h owned lease rt =
     locked ports MACHINE immediate
       (if ot_identity owned \<noteq> ml_identity lease \<or> mi_role (ml_intent lease) \<noteq> ot_role owned
        then io_raise (Refusal LEASE_MISMATCH)
        else
          io_bind (cp_stamp (mp_clock ports)) (\<lambda>stamp.
          io_bind (io_lift (safe_path_div (mi_run_directory (ml_intent lease)) POWER_LOSS_RECORD)) (\<lambda>target.
          io_bind (write_record (mp_files ports) target (power_loss_document lease stamp)) (\<lambda>_.
          io_bind (hv_terminate (mp_hypervisor ports) (ml_identity lease)) (\<lambda>_.
            write_lease (mp_files ports) h (release lease) rt)))))"

definition reclaim :: "'w machine_ports \<Rightarrow> host \<Rightarrow> runtime_root \<Rightarrow> ('w, reclaimed) io" where
  "reclaim ports h rt =
     locked ports MACHINE immediate
       (io_bind (read_intent (mp_files ports) h rt) (\<lambda>intent.
        io_bind (read_lease (mp_files ports) h rt) (\<lambda>lease.
          let started_without_lease =
                (case intent of None \<Rightarrow> False
                 | Some i \<Rightarrow> (case lease of None \<Rightarrow> True | Some l \<Rightarrow> mi_run (ml_intent l) \<noteq> mi_run i))
          in io_bind (case lease of
                        Some l \<Rightarrow> (if ml_released l then io_return False
                                   else io_bind (hv_running (mp_hypervisor ports) (ml_identity l)) (\<lambda>b. io_return (\<not> b)))
                      | None \<Rightarrow> io_return False) (\<lambda>stale.
             io_bind (case lease of
                        Some l \<Rightarrow> (if stale then write_lease (mp_files ports) h (release l) rt else io_return ())
                      | None \<Rightarrow> io_return ()) (\<lambda>_.
               io_return \<lparr>rc_intent = intent, rc_lease = lease, rc_orphaned = started_without_lease \<or> stale\<rparr>)))))"

end
