(* ===== verification/MachineHost.thy ===== *)
theory MachineHost
  imports Launching
begin

section \<open>What the operations on a machine keep\<close>

text \<open>
  The locale \<open>machine_host\<close> is what launching.py relies on of its five ports: files that keep what
  is written, a clock that moves, a process table \<open>alive\<close> that only a spawn adds to and that
  \<open>hv_running\<close> reports, a termination that removes the process it names, and other calls that
  leave the files and start nothing. A state is \<open>guarded\<close> when the lease at the root names
  the only machine that may be alive. Every operation keeps that, whether it returns or raises.
\<close>

definition resting ::
  "('w \<Rightarrow> safe_path \<Rightarrow> bytes option) \<Rightarrow> ('w \<Rightarrow> bool) \<Rightarrow> ('w \<Rightarrow> vm_identity set)
     \<Rightarrow> (safe_path \<Rightarrow> bytes option) \<Rightarrow> vm_identity set \<Rightarrow> 'w \<Rightarrow> bool" where
  "resting content plain alive c a w \<longleftrightarrow> plain w \<and> content w = c \<and> alive w \<subseteq> a"

definition quiet ::
  "('w \<Rightarrow> safe_path \<Rightarrow> bytes option) \<Rightarrow> ('w \<Rightarrow> bool) \<Rightarrow> ('w \<Rightarrow> vm_identity set) \<Rightarrow> ('w, 'a) io \<Rightarrow> bool" where
  "quiet content plain alive m \<longleftrightarrow> (\<forall>c a. io_keeps (resting content plain alive c a) m)"

definition holder :: "machine_lease \<Rightarrow> vm_identity set" where
  "holder l = (if ml_released l then {} else {ml_identity l})"

definition guarded ::
  "('w \<Rightarrow> safe_path \<Rightarrow> bytes option) \<Rightarrow> ('w \<Rightarrow> bool) \<Rightarrow> ('w \<Rightarrow> vm_identity set) \<Rightarrow> safe_path \<Rightarrow> 'w \<Rightarrow> bool" where
  "guarded content plain alive p w \<longleftrightarrow> plain w \<and>
     (case content w p of
        None \<Rightarrow> alive w = {}
      | Some b \<Rightarrow> \<exists>l. b = document_bytes (lease_document l) \<and> lease_fits l \<and> alive w \<subseteq> holder l)"

lemma guarded_rests:
  "guarded content plain alive p w \<Longrightarrow> resting content plain alive (content w) (alive w) w' \<Longrightarrow> guarded content plain alive p w'"
  by (auto simp: guarded_def resting_def split: option.splits)

lemma resting_refl: "plain w \<Longrightarrow> resting content plain alive (content w) (alive w) w"
  by (simp add: resting_def)

lemma quiet_rests:
  "quiet content plain alive m \<Longrightarrow> plain w \<Longrightarrow> m w = (w', r) \<Longrightarrow> resting content plain alive (content w) (alive w) w'"
  using resting_refl [of plain w content alive] by (auto simp: quiet_def dest: io_keepsD)

lemma quiet_bind: "quiet c p a m \<Longrightarrow> (\<And>x. quiet c p a (f x)) \<Longrightarrow> quiet c p a (io_bind m f)"
  by (auto simp: quiet_def)

lemma quiet_simple: "quiet c p a (io_return x)" "quiet c p a (io_raise e)" "quiet c p a (io_lift r)"
  by (auto simp: quiet_def)

lemma quiet_if: "quiet c p a m \<Longrightarrow> quiet c p a n \<Longrightarrow> quiet c p a (if b then m else n)"
  by simp

lemma quiet_finally: "quiet c p a m \<Longrightarrow> quiet c p a f \<Longrightarrow> quiet c p a (io_finally m f)"
  by (fastforce simp: quiet_def io_keeps_def io_finally_def split: prod.splits sum.splits)

lemmas quiet_rules = quiet_bind quiet_simple quiet_if quiet_finally

locale machine_host = file_store "mp_files ports" content plain + ticking "mp_clock ports" time
  for ports :: "'w machine_ports" and content :: "'w \<Rightarrow> safe_path \<Rightarrow> bytes option" and plain :: "'w \<Rightarrow> bool"
    and time :: "'w \<Rightarrow> rat" +
  fixes alive :: "'w \<Rightarrow> vm_identity set"
  assumes running_spec: "plain w \<Longrightarrow> \<exists>w'. hv_running (mp_hypervisor ports) i w = (w', Inr (i \<in> alive w'))
        \<and> resting content plain alive (content w) (alive w) w'"
    and running_time: "hv_running (mp_hypervisor ports) i w = (w', r) \<Longrightarrow> time w \<le> time w'"
    and spawn_spec: "plain w \<Longrightarrow> hv_spawn (mp_hypervisor ports) spec monitor logfile d w = (w', Inr i) \<Longrightarrow>
        resting content plain alive (content w) (insert i (alive w)) w'"
    and spawn_failed: "plain w \<Longrightarrow> hv_spawn (mp_hypervisor ports) spec monitor logfile d w = (w', Inl e) \<Longrightarrow>
        resting content plain alive (content w) (alive w) w'"
    and terminate_spec: "plain w \<Longrightarrow> hv_terminate (mp_hypervisor ports) i w = (w', Inr ()) \<Longrightarrow>
        i \<in> alive w \<and> resting content plain alive (content w) (alive w - {i}) w'"
    and terminate_failed: "plain w \<Longrightarrow> hv_terminate (mp_hypervisor ports) i w = (w', Inl e) \<Longrightarrow>
        resting content plain alive (content w) (alive w) w'"
    and write_alive: "plain w \<Longrightarrow> fp_write_atomic (mp_files ports) p b m w = (w', written) \<Longrightarrow> alive w' \<subseteq> alive w"
    and release_spec: "plain w \<Longrightarrow> \<exists>w'. lk_release (mp_locks ports) k w = (w', Inr ())
        \<and> resting content plain alive (content w) (alive w) w'"
    and acquire_quiet: "quiet content plain alive (lk_acquire (mp_locks ports) scope pol)"
    and capacity_quiet: "quiet content plain alive (hv_capacity (mp_hypervisor ports) rt)"
    and stamp_quiet: "quiet content plain alive (cp_stamp (mp_clock ports))"
    and now_quiet: "quiet content plain alive (cp_now (mp_clock ports))"
    and sleep_quiet: "quiet content plain alive (cp_sleep (mp_clock ports) t)"
    and connect_quiet: "quiet content plain alive (qp_connect (mp_monitor ports) p d)"
    and execute_quiet: "quiet content plain alive (qp_execute (mp_monitor ports) c)"
    and close_quiet: "quiet content plain alive (qp_close (mp_monitor ports))"
begin

lemmas quiet_ports = acquire_quiet capacity_quiet stamp_quiet now_quiet sleep_quiet connect_quiet execute_quiet close_quiet

text \<open>A state with at most the machines of \<open>a\<close> alive, guarded at \<open>p\<close>.\<close>

definition attended :: "safe_path \<Rightarrow> vm_identity set \<Rightarrow> 'w \<Rightarrow> bool" where
  "attended p a w \<longleftrightarrow> guarded content plain alive p w \<and> alive w \<subseteq> a"

lemma holds_plain: "attended p a w \<Longrightarrow> plain w"
  by (simp add: attended_def guarded_def)

lemma holds_rests: "attended p a w \<Longrightarrow> resting content plain alive (content w) (alive w) w' \<Longrightarrow> attended p a w'"
  using guarded_rests [of content plain alive p w w'] by (auto simp: attended_def resting_def)

lemma quiet_holds: "quiet content plain alive m \<Longrightarrow> io_keeps (attended p a) m"
  by (rule io_keepsI) (blast dest: holds_plain intro: holds_rests quiet_rests)

lemma quiet_triple: "quiet content plain alive m \<Longrightarrow> (\<And>s. attended p a s \<Longrightarrow> E s) \<Longrightarrow> triple (attended p a) m (\<lambda>_. attended p a) E"
  by (rule triple_keeps [OF quiet_holds])

lemma running_holds:
  "triple (attended p a) (hv_running (mp_hypervisor ports) i)
     (\<lambda>b. if b then (\<lambda>w. attended p a w \<and> i \<in> alive w) else attended p (a - {i})) (\<lambda>_. False)"
proof (rule tripleI)
  fix s s' b assume h: "attended p a s" and r: "hv_running (mp_hypervisor ports) i s = (s', Inr b)"
  from running_spec [OF holds_plain [OF h], of i] r
  have "b = (i \<in> alive s')" and "resting content plain alive (content s) (alive s) s'" by auto
  with holds_rests [OF h] show "(if b then (\<lambda>w. attended p a w \<and> i \<in> alive w) else attended p (a - {i})) s'"
    by (auto simp: attended_def)
next
  fix s s' e assume h: "attended p a s" and r: "hv_running (mp_hypervisor ports) i s = (s', Inl e)"
  from running_spec [OF holds_plain [OF h], of i] r show False by auto
qed

lemma terminate_holds:
  "triple (attended p a) (hv_terminate (mp_hypervisor ports) i) (\<lambda>_. attended p (a - {i})) (attended p a)"
proof (rule tripleI)
  fix s s' x assume h: "attended p a s" and r: "hv_terminate (mp_hypervisor ports) i s = (s', Inr x)"
  from terminate_spec [OF holds_plain [OF h], of i s'] r
  have t: "resting content plain alive (content s) (alive s - {i}) s'" by simp
  then have "resting content plain alive (content s) (alive s) s'" by (auto simp: resting_def)
  from holds_rests [OF h this] t show "attended p (a - {i}) s'" by (auto simp: attended_def resting_def)
next
  fix s s' e assume h: "attended p a s" and r: "hv_terminate (mp_hypervisor ports) i s = (s', Inl e)"
  from holds_rests [OF h terminate_failed [OF holds_plain [OF h] r]] show "attended p a s'" .
qed

lemma release_triple:
  assumes "\<And>s. R s \<Longrightarrow> plain s" "\<And>s s'. R s \<Longrightarrow> resting content plain alive (content s) (alive s) s' \<Longrightarrow> R s'"
  shows "triple R (lk_release (mp_locks ports) k) (\<lambda>_. R) F"
proof (rule tripleI)
  fix s s' x assume "R s" "lk_release (mp_locks ports) k s = (s', Inr x)"
  with release_spec [of s k] assms show "R s'" by fastforce
next
  fix s s' e assume "R s" "lk_release (mp_locks ports) k s = (s', Inl e)"
  with release_spec [of s k] assms(1) show "F s'" by fastforce
qed

lemma locked_triple:
  assumes "triple (attended p a) body Q E" "\<And>s. attended p a s \<Longrightarrow> E s"
    and "\<And>x s s'. Q x s \<Longrightarrow> resting content plain alive (content s) (alive s) s' \<Longrightarrow> Q x s'"
    and "\<And>s s'. E s \<Longrightarrow> resting content plain alive (content s) (alive s) s' \<Longrightarrow> E s'"
    and "\<And>x s. Q x s \<Longrightarrow> plain s" "\<And>s. E s \<Longrightarrow> plain s"
  shows "triple (attended p a) (locked ports scope pol body) Q E"
  unfolding locked_def
  by (rule triple_bind [OF quiet_triple [OF acquire_quiet assms(2)]], assumption)
     (rule triple_finally [OF assms(1)], (rule release_triple, (erule assms(5,6) assms(3,4), (assumption)?)+)+)

end

subsection \<open>The records\<close>

lemma path_join_last: "path_join base rel = rel \<or> (\<exists>b. path_join base rel = b @ rel)"
  by (auto simp: path_join_def)

lemma safe_path_div_other:
  "safe_path_div d m = Inr x \<Longrightarrow> \<not> starts_with m ''/'' \<Longrightarrow> \<not> starts_with n ''/'' \<Longrightarrow> CHR '','' \<notin> set n
     \<Longrightarrow> \<exists>q. safe_path_div d n = Inr q"
  by (auto simp: safe_path_div_def path_join_def split: if_splits)

lemma log_then_lease: "safe_path_div d HYPERVISOR_LOG_NAME = Inr x \<Longrightarrow> \<exists>q. safe_path_div d LEASE_NAME = Inr q"
  by (erule safe_path_div_other) (simp_all add: HYPERVISOR_LOG_NAME_def LEASE_NAME_def starts_with_def)

context machine_host
begin

lemma write_document_rests:
  assumes "plain w" "write_document (mp_files ports) (Inr q) d w = (w', r)"
  shows "r = Inr () \<and> content w' = (content w)(q \<mapsto> document_bytes d) \<and> plain w' \<and> alive w' \<subseteq> alive w"
proof -
  from write_document_spec [OF assms(1), of q d] assms(2)
  have s: "r = Inr ()" "content w' = (content w)(q \<mapsto> document_bytes d)" "plain w'" by auto
  obtain v x where v: "fp_write_atomic (mp_files ports) q (document_bytes d) DEFAULT_RECORD_MODE w = (v, x)"
    by (cases "fp_write_atomic (mp_files ports) q (document_bytes d) DEFAULT_RECORD_MODE w")
  with assms(2) have "w' = v" by (auto simp: write_document_def io_bind_def split: sum.splits)
  with write_alive [OF assms(1) v] s show ?thesis by simp
qed

lemma write_document_triple:
  assumes "\<And>s. P s \<Longrightarrow> plain s"
    and "\<And>s s'. P s \<Longrightarrow> plain s' \<Longrightarrow> content s' = (content s)(q \<mapsto> document_bytes d) \<Longrightarrow> alive s' \<subseteq> alive s \<Longrightarrow> Q s'"
  shows "triple P (write_document (mp_files ports) (Inr q) d) (\<lambda>_. Q) E"
proof (rule tripleI)
  fix s s' x assume "P s" "write_document (mp_files ports) (Inr q) d s = (s', Inr x)"
  with write_document_rests [OF assms(1)] assms(2) show "Q s'" by blast
next
  fix s s' e assume "P s" "write_document (mp_files ports) (Inr q) d s = (s', Inl e)"
  with write_document_rests [OF assms(1), of s q d s' "Inl e"] show "E s'" by simp
qed

text \<open>A record beside the lease at the root leaves it as it was.\<close>

lemma write_beside:
  "q \<noteq> p \<Longrightarrow> triple (attended p a) (write_document (mp_files ports) (Inr q) d) (\<lambda>_. attended p a) E"
  by (rule write_document_triple) (auto simp: attended_def guarded_def split: option.splits)

text \<open>Writing a lease when no machine but its own is alive.\<close>

definition leased :: "safe_path \<Rightarrow> machine_lease \<Rightarrow> 'w \<Rightarrow> bool" where
  "leased p l w \<longleftrightarrow> plain w \<and> content w p = Some (document_bytes (lease_document l)) \<and> alive w \<subseteq> holder l"

lemma leased_plain: "leased p l w \<Longrightarrow> plain w"
  by (simp add: leased_def)

lemma leased_guarded: "leased p l w \<Longrightarrow> lease_fits l \<Longrightarrow> guarded content plain alive p w"
  by (auto simp: leased_def guarded_def)

lemma leased_holds: "leased p l w \<Longrightarrow> lease_fits l \<Longrightarrow> attended p (holder l) w"
  by (simp add: attended_def leased_guarded) (simp add: leased_def)

lemma leased_rests: "leased p l w \<Longrightarrow> resting content plain alive (content w) (alive w) w' \<Longrightarrow> leased p l w'"
  by (auto simp: leased_def resting_def)

lemma write_lease_holds:
  assumes "root_child h rt LEASE_NAME = Inr p"
  shows "triple (\<lambda>w. plain w \<and> alive w \<subseteq> holder l) (write_lease (mp_files ports) h l rt) (\<lambda>_. leased p l)
    (\<lambda>w. leased p l w \<and> (\<forall>q. safe_path_div (mi_run_directory (ml_intent l)) LEASE_NAME \<noteq> Inr q))"
  unfolding write_lease_def assms
proof (rule triple_then [where Q = "leased p l"], rule write_document_triple)
  show "triple (leased p l)
     (write_document (mp_files ports) (safe_path_div (mi_run_directory (ml_intent l)) LEASE_NAME) (lease_document l))
     (\<lambda>_. leased p l)
     (\<lambda>w. leased p l w \<and> (\<forall>q. safe_path_div (mi_run_directory (ml_intent l)) LEASE_NAME \<noteq> Inr q))"
  proof (cases "safe_path_div (mi_run_directory (ml_intent l)) LEASE_NAME")
    case (Inl e)
    then show ?thesis by (simp add: write_document_def triple_def io_bind_def)
  next
    case (Inr q)
    show ?thesis unfolding Inr by (rule write_document_triple) (auto simp: leased_def)
  qed
qed (auto simp: leased_def)

lemma write_release_holds:
  assumes "root_child h rt LEASE_NAME = Inr p" "lease_fits l"
  shows "triple (attended p {}) (write_lease (mp_files ports) h (release l) rt) (\<lambda>_. leased p (release l)) (attended p {})"
  by (rule triple_conseq [OF write_lease_holds [OF assms(1)]])
    (use leased_holds [of p "release l"] lease_fits_release [OF assms(2)] in \<open>auto simp: attended_def guarded_def holder_def\<close>)

subsection \<open>The lease that was read\<close>

lemma read_lease_result:
  assumes p: "root_child h rt LEASE_NAME = Inr p" and h: "attended p a s"
  obtains "read_lease (mp_files ports) h rt s = (s, Inr None)" "attended p {} s"
  | "read_lease (mp_files ports) h rt s = (s, Inl PortFailure)"
  | l where "read_lease (mp_files ports) h rt s = (s, Inr (Some l))" "attended p (a \<inter> holder l) s" "lease_fits l"
proof (cases "content s p")
  case None
  with h have "attended p {} s" by (simp add: attended_def guarded_def)
  with read_lease_none [OF holds_plain [OF h] p None] that(1,2) show thesis by blast
next
  case (Some b)
  with h obtain l where l: "b = document_bytes (lease_document l)" "lease_fits l" "alive s \<subseteq> holder l"
    by (auto simp: attended_def guarded_def)
  with read_lease_written [OF holds_plain [OF h] p l(2)] Some h that(3) show thesis by (auto simp: attended_def)
qed

lemma read_lease_holds:
  assumes p: "root_child h rt LEASE_NAME = Inr p"
  shows "triple (attended p a) (read_lease (mp_files ports) h rt)
     (\<lambda>r. case r of None \<Rightarrow> attended p {} | Some l \<Rightarrow> (\<lambda>w. attended p (a \<inter> holder l) w \<and> lease_fits l)) (attended p a)"
proof (rule tripleI)
  fix s s' r assume h: "attended p a s" and r: "read_lease (mp_files ports) h rt s = (s', Inr r)"
  from read_lease_result [OF p h] show "(case r of None \<Rightarrow> attended p {} | Some l \<Rightarrow> (\<lambda>w. attended p (a \<inter> holder l) w \<and> lease_fits l)) s'"
    by cases (use r in auto)
next
  fix s s' e assume h: "attended p a s" and r: "read_lease (mp_files ports) h rt s = (s', Inl e)"
  from read_lease_result [OF p h] show "attended p a s'" by cases (use r h in auto)
qed

lemma holds_mono: "attended p a w \<Longrightarrow> a \<subseteq> b \<Longrightarrow> attended p b w"
  by (auto simp: attended_def)

lemma current_lease_holds:
  assumes p: "root_child h rt LEASE_NAME = Inr p"
  shows "triple (attended p a) (current_lease ports h rt) (\<lambda>l. if l = None then attended p {} else attended p a) (attended p a)"
  unfolding current_lease_def
proof (rule triple_bind [OF read_lease_holds [OF p]], rule triple_option)
  show "triple ((case r of None \<Rightarrow> attended p {} | Some l \<Rightarrow> (\<lambda>w. attended p (a \<inter> holder l) w \<and> lease_fits l)))
      (io_return None) (\<lambda>l. if l = None then attended p {} else attended p a) (attended p a)" if "r = None" for r :: "machine_lease option"
    using that by (intro triple_return) simp
  fix r :: "machine_lease option" and l assume r: "r = Some l"
  let ?b = "a \<inter> holder l"
  have run: "triple (attended p ?b) (io_bind (hv_running (mp_hypervisor ports) (ml_identity l))
      (\<lambda>running. io_return (if running then Some l else None)))
      (\<lambda>l. if l = None then attended p {} else attended p a) (attended p a)" if "\<not> ml_released l"
  proof (rule triple_bind [OF running_holds, THEN triple_conseq])
    show "triple (if b then (\<lambda>w. attended p ?b w \<and> ml_identity l \<in> alive w) else attended p (?b - {ml_identity l}))
        (io_return (if b then Some l else None))
        (\<lambda>l. if l = None then attended p {} else attended p a) (\<lambda>_. False)" for b
      using that holds_mono [of p ?b _ a] holds_mono [of p "?b - {ml_identity l}" _ "{}"]
      by (intro triple_return) (auto simp: holder_def split: if_splits)
  qed simp_all
  show "triple (case r of None \<Rightarrow> attended p {} | Some l \<Rightarrow> (\<lambda>w. attended p (a \<inter> holder l) w \<and> lease_fits l))
      (if ml_released l then io_return None
       else io_bind (hv_running (mp_hypervisor ports) (ml_identity l)) (\<lambda>running. io_return (if running then Some l else None)))
      (\<lambda>l. if l = None then attended p {} else attended p a) (attended p a)"
    unfolding r option.case
    by (rule triple_if, intro triple_return, simp add: holder_def, rule triple_pre [OF run]) auto
qed

lemma require_no_machine_holds:
  assumes "root_child h rt LEASE_NAME = Inr p"
  shows "triple (attended p a) (require_no_machine ports h rt) (\<lambda>_. attended p {}) (attended p a)"
  unfolding require_no_machine_def
  by (rule triple_bind [OF current_lease_holds [OF assms]]) (auto intro: triple_return triple_raise)

end

subsection \<open>Launching\<close>

context machine_host
begin

lemma require_capacity_quiet: "quiet content plain alive (require_capacity ports rt resources)"
  unfolding require_capacity_def by (intro quiet_rules capacity_quiet)

lemma quiet_attended: "quiet content plain alive m \<Longrightarrow> a \<subseteq> b \<Longrightarrow> triple (attended p a) m (\<lambda>_. attended p a) (attended p b)"
  by (rule quiet_triple) (auto intro: holds_mono)

lemma lift_attended: "a \<subseteq> b \<Longrightarrow> triple (attended p a) (io_lift r) (\<lambda>_. attended p a) (attended p b)"
  by (rule quiet_attended) (rule quiet_simple)

lemma spawn_holds:
  "triple (attended p {}) (hv_spawn (mp_hypervisor ports) spec monitor logfile d)
     (\<lambda>i w. plain w \<and> alive w \<subseteq> {i}) (attended p {})"
proof (rule tripleI)
  fix s s' i assume h: "attended p {} s" and w: "hv_spawn (mp_hypervisor ports) spec monitor logfile d s = (s', Inr i)"
  from spawn_spec [OF holds_plain [OF h] w] h show "plain s' \<and> alive s' \<subseteq> {i}" by (auto simp: resting_def attended_def)
next
  fix s s' e assume h: "attended p {} s" and w: "hv_spawn (mp_hypervisor ports) spec monitor logfile d s = (s', Inl e)"
  from holds_rests [OF h spawn_failed [OF holds_plain [OF h] w]] show "attended p {} s'" .
qed

lemma write_intent_holds:
  assumes "root_child h rt INTENT_NAME \<noteq> Inr p"
  shows "triple (attended p a) (write_intent (mp_files ports) h i rt) (\<lambda>_. attended p a) (attended p a)"
proof (cases "root_child h rt INTENT_NAME")
  case (Inl e)
  then show ?thesis by (simp add: write_intent_def write_document_def triple_def io_bind_def)
next
  case (Inr q)
  with assms show ?thesis unfolding write_intent_def Inr by (intro write_beside) simp
qed

text \<open>What was started is what the lease that is returned names.\<close>

lemma launch_holds:
  assumes p: "root_child h rt LEASE_NAME = Inr p" and i: "root_child h rt INTENT_NAME \<noteq> Inr p"
  shows "triple (attended p a) (launch ports h rt spec run directory m) (\<lambda>l. leased p l) (attended p a)"
proof -
  let ?E = "attended p a"
  have logged: "triple (attended p {}) (io_lift (safe_path_div directory HYPERVISOR_LOG_NAME))
      (\<lambda>x w. attended p {} w \<and> safe_path_div directory HYPERVISOR_LOG_NAME = Inr x) ?E"
    by (rule triple_lift) (auto intro: holds_mono)
  have last: "triple (\<lambda>w. plain w \<and> alive w \<subseteq> {i})
      (io_bind (write_lease (mp_files ports) h \<lparr>ml_intent = it, ml_identity = i, ml_released = False\<rparr> rt)
        (\<lambda>_. io_return \<lparr>ml_intent = it, ml_identity = i, ml_released = False\<rparr>)) (\<lambda>l. leased p l) ?E"
    if x: "safe_path_div (mi_run_directory it) HYPERVISOR_LOG_NAME = Inr x" for it i x
    using log_then_lease [OF x]
    by (intro triple_bind [OF triple_conseq [OF write_lease_holds [OF p]]] triple_return) (auto simp: holder_def)
  have spawned: "triple (\<lambda>w. attended p {} w \<and> safe_path_div (mi_run_directory it) HYPERVISOR_LOG_NAME = Inr x)
      (io_bind (hv_spawn (mp_hypervisor ports) spec monitor x MONITOR_APPEARS) (\<lambda>i.
        io_bind (write_lease (mp_files ports) h \<lparr>ml_intent = it, ml_identity = i, ml_released = False\<rparr> rt)
          (\<lambda>_. io_return \<lparr>ml_intent = it, ml_identity = i, ml_released = False\<rparr>))) (\<lambda>l. leased p l) ?E"
    for it x monitor
    by (rule triple_pure, rule triple_bind [OF triple_conseq [OF spawn_holds]], assumption, assumption, erule holds_mono, simp)
      (rule last)
  show ?thesis
    unfolding launch_def Let_def
    apply (rule locked_triple)
         apply (rule triple_bind [OF require_no_machine_holds [OF p]])
         apply (rule triple_bind [OF quiet_attended [OF require_capacity_quiet]], simp)
         apply (rule triple_bind [OF lift_attended], simp)+
         apply (rule triple_bind [OF quiet_attended [OF stamp_quiet]], simp)
         apply (rule triple_bind [OF triple_conseq [OF write_intent_holds [OF i, where a = "{}"]]], assumption, assumption)
          apply (erule holds_mono, simp)
         apply (rule triple_bind [OF logged], rule triple_pre [OF spawned], simp)
        apply (auto intro: holds_rests leased_rests leased_plain holds_plain)
    done
qed

subsection \<open>Stopping\<close>

text \<open>A machine that runs is the only one.\<close>

lemma running_alone: "attended p a w \<Longrightarrow> i \<in> alive w \<Longrightarrow> attended p {i} w"
  by (auto simp: attended_def guarded_def holder_def split: option.splits if_splits)

lemma locked_ptriple:
  assumes "ptriple (attended p a) body Q E" "\<And>s. attended p a s \<Longrightarrow> E s"
    and "\<And>x s s'. Q x s \<Longrightarrow> resting content plain alive (content s) (alive s) s' \<Longrightarrow> Q x s'"
    and "\<And>s s'. E s \<Longrightarrow> resting content plain alive (content s) (alive s) s' \<Longrightarrow> E s'"
    and "\<And>x s. Q x s \<Longrightarrow> plain s" "\<And>s. E s \<Longrightarrow> plain s"
  shows "ptriple (attended p a) (locked_pio ports scope pol body) Q E"
  unfolding locked_pio_def
  by (rule ptriple_bind [OF ptriple_pio [OF quiet_triple [OF acquire_quiet assms(2)]]], assumption)
     (rule ptriple_finally [OF assms(1)], (rule release_triple, (erule assms(5,6) assms(3,4), (assumption)?)+)+)

lemma ask_powerdown_quiet: "quiet content plain alive (ask_powerdown ports monitor)"
  unfolding ask_powerdown_def by (intro quiet_rules connect_quiet execute_quiet close_quiet)

lemma gone_holds:
  "triple (attended p a) (gone ports i) (\<lambda>b. if b then attended p (a - {i}) else attended p a) (\<lambda>_. False)"
  unfolding gone_def
  by (rule triple_bind [OF running_holds], rule triple_return) (simp split: if_splits)

lemma gone_keeps: "io_keeps (attended p a) (gone ports i)"
proof (rule io_keepsI)
  fix s s' r assume "attended p a s" "gone ports i s = (s', r)"
  with tripleD [OF gone_holds, of p a s i s'] show "attended p a s'"
    by (cases r) (auto split: if_splits intro: holds_mono)
qed

lemma wait_gone_holds:
  "ptriple (attended p a) (wait_until (mp_clock ports) (gone ports i) pol) (\<lambda>_. attended p (a - {i})) (attended p a)"
proof (rule ptripleI)
  note keeps = quiet_holds [OF now_quiet] gone_keeps quiet_holds [OF sleep_quiet]
  fix s s' e assume h: "attended p a s" and w: "wait_until (mp_clock ports) (gone ports i) pol s = Some (s', Inr e)"
  from wait_last [OF w h keeps] obtain v v' t where v: "attended p a v" "gone ports i v = (v', Inr True)"
    "cp_now (mp_clock ports) v' = (s', Inr t)" by auto
  from tripleD(1) [OF gone_holds v(1,2)] have "attended p (a - {i}) v'" by simp
  from io_keepsD [OF keeps(1) this v(3)] show "attended p (a - {i}) s'" .
next
  note keeps = quiet_holds [OF now_quiet] gone_keeps quiet_holds [OF sleep_quiet]
  fix s s' e assume h: "attended p a s" and w: "wait_until (mp_clock ports) (gone ports i) pol s = Some (s', Inl e)"
  from wait_last [OF w h keeps] show "attended p a s'" by simp
qed

lemma shutdown_holds:
  assumes p: "root_child h rt LEASE_NAME = Inr p" and f: "lease_fits l"
  shows "ptriple (attended p a) (shutdown ports h l rt) (\<lambda>_. leased p (release l)) (attended p a)"
proof -
  let ?i = "ml_identity l"
  have asked: "triple (attended p a) (hv_running (mp_hypervisor ports) ?i)
      (\<lambda>b. if b then attended p (a \<inter> {?i}) else attended p a) (attended p a)"
  proof (rule triple_conseq [OF running_holds [where p = p and a = a]])
    show "(if b then attended p (a \<inter> {?i}) else attended p a) s"
      if "(if b then (\<lambda>w. attended p a w \<and> ?i \<in> alive w) else attended p (a - {?i})) s" for b s
      using that running_alone [of p a s ?i] holds_mono [of p "a - {?i}" s a] by (auto simp: attended_def split: if_splits)
  qed simp_all
  have stop: "ptriple (attended p (a \<inter> {?i}))
      (pio_catch (pio_bind (wait_until (mp_clock ports) (gone ports ?i) SHUTDOWN) (\<lambda>_. pio (io_return STOPPED)))
        (\<lambda>e. e = PortFailure)
        (pio (io_bind (hv_terminate (mp_hypervisor ports) ?i) (\<lambda>_. io_return KILLED))))
      (\<lambda>_. attended p {}) (attended p (a \<inter> {?i}))"
    by (rule ptriple_catch, rule ptriple_bind [OF wait_gone_holds], rule ptriple_pio, rule triple_return, erule holds_mono, blast,
        rule ptriple_pio, rule triple_bind [OF terminate_holds], rule triple_return, erule holds_mono, blast)
  let ?rest = "pio_bind (pio (ask_powerdown ports (mi_monitor (ml_intent l)))) (\<lambda>_.
       pio_bind (pio_catch (pio_bind (wait_until (mp_clock ports) (gone ports ?i) SHUTDOWN) (\<lambda>_. pio (io_return STOPPED)))
           (\<lambda>e. e = PortFailure) (pio (io_bind (hv_terminate (mp_hypervisor ports) ?i) (\<lambda>_. io_return KILLED))))
         (\<lambda>ended. pio (io_bind (write_lease (mp_files ports) h (release l) rt) (\<lambda>_. io_return ended))))"
  have rest: "ptriple (attended p (a \<inter> {?i})) ?rest
      (\<lambda>_. leased p (release l)) (attended p a)"
    by (rule ptriple_bind [OF ptriple_pio [OF quiet_attended [OF ask_powerdown_quiet]]], blast,
        rule ptriple_bind [OF ptriple_conseq [OF stop]], assumption, assumption, erule holds_mono, blast,
        rule ptriple_pio, rule triple_bind [OF triple_conseq [OF write_release_holds [OF p f]]], assumption, assumption,
        erule holds_mono, blast, rule triple_return)
  have chosen: "ptriple (if running then attended p (a \<inter> {?i}) else attended p a)
       (if \<not> running then pio (io_raise (Refusal MACHINE_NOT_RUNNING)) else ?rest)
       (\<lambda>_. leased p (release l)) (attended p a)" for running
    by (cases running) (simp_all add: rest ptriple_pio triple_raise)
  show ?thesis
    unfolding shutdown_def
    by (rule locked_ptriple, rule ptriple_bind [OF ptriple_pio [OF asked]], rule chosen)
      (auto intro: holds_rests leased_rests leased_plain holds_plain)
qed

text \<open>A shutdown returns, whatever the guest does.\<close>

lemma shutdown_returns: "shutdown ports h l rt w \<noteq> None"
proof -
  have move: "gone ports i v = (v', r) \<Longrightarrow> time v \<le> time v'" for i v v' r
    using running_time [of i v] by (auto simp: gone_def io_bind_def split: prod.splits sum.splits)
  have wait: "wait_until (mp_clock ports) (gone ports i) SHUTDOWN v \<noteq> None" for i v
    using wait_returns [OF shutdown_moves, of "gone ports i" v] move by auto
  show ?thesis
    unfolding shutdown_def locked_pio_def by (intro pio_returns wait)
qed

lemma terminate_alone:
  "triple (attended p a) (hv_terminate (mp_hypervisor ports) i) (\<lambda>_. attended p {}) (attended p a)"
proof (rule tripleI)
  fix s s' x assume h: "attended p a s" and r: "hv_terminate (mp_hypervisor ports) i s = (s', Inr x)"
  with terminate_spec [OF holds_plain [OF h], of i s'] have "i \<in> alive s" by simp
  from tripleD(1) [OF terminate_holds running_alone [OF h this] r] show "attended p {} s'" by simp
next
  fix s s' e assume h: "attended p a s" and r: "hv_terminate (mp_hypervisor ports) i s = (s', Inl e)"
  from tripleD(2) [OF terminate_holds h r] show "attended p a s'" .
qed

lemma power_loss_holds:
  assumes p: "root_child h rt LEASE_NAME = Inr p" and f: "lease_fits l"
    and beside: "safe_path_div (mi_run_directory (ml_intent l)) POWER_LOSS_RECORD \<noteq> Inr p"
  shows "triple (attended p a) (power_loss ports h owned l rt) (\<lambda>_. leased p (release l)) (attended p a)"
proof -
  have target: "triple (attended p a) (io_lift (safe_path_div (mi_run_directory (ml_intent l)) POWER_LOSS_RECORD))
      (\<lambda>t w. attended p a w \<and> t \<noteq> p) (attended p a)"
    by (rule triple_lift) (use beside in auto)
  show ?thesis
    unfolding power_loss_def write_record_def
    by (rule locked_triple, rule triple_if, rule triple_raise, assumption,
        rule triple_bind [OF quiet_attended [OF stamp_quiet order_refl]], rule triple_bind [OF target],
        rule triple_bind [OF triple_pure [OF write_beside]], assumption, rule triple_bind [OF terminate_alone],
        rule triple_conseq [OF write_release_holds [OF p f]])
      (auto intro: holds_rests leased_rests leased_plain holds_plain holds_mono)
qed

subsection \<open>Reclaiming\<close>

lemma read_object_same: "plain w \<Longrightarrow> read_object (mp_files ports) t w = (w', r) \<Longrightarrow> w' = w"
proof -
  assume plain: "plain w" and r: "read_object (mp_files ports) t w = (w', r)"
  show "w' = w"
  proof (cases t)
    case (Inr q)
    have "\<exists>x. fp_read_bytes (mp_files ports) q (limit_value DOCUMENT_LIMIT) w = (w, x)"
      using read_spec [OF plain document_limit_pos, of q] read_missing [OF plain, of q "limit_value DOCUMENT_LIMIT"]
      by (cases "content w q") auto
    with exists_pure [OF plain, of q] r Inr show ?thesis
      by (auto simp: read_object_def io_bind_def split: if_splits sum.splits)
  qed (use r in \<open>simp add: read_object_def io_bind_def\<close>)
qed

lemma read_intent_same: "plain w \<Longrightarrow> read_intent (mp_files ports) h rt w = (w', r) \<Longrightarrow> w' = w"
  by (auto simp: read_intent_def io_bind_def dest: read_object_same split: prod.splits sum.splits)

lemma read_intent_holds: "triple (attended p a) (read_intent (mp_files ports) h rt) (\<lambda>_. attended p a) (attended p a)"
  by (rule tripleI) (auto dest: read_intent_same [OF holds_plain])

lemma reclaim_holds:
  assumes p: "root_child h rt LEASE_NAME = Inr p"
  shows "triple (attended p a) (reclaim ports h rt) (\<lambda>_. attended p a) (attended p a)"
proof -
  let ?got = "\<lambda>r w. case r of None \<Rightarrow> attended p {} w | Some l \<Rightarrow> attended p (a \<inter> holder l) w \<and> lease_fits l"
  have stale: "triple (?got r) (case r of
        Some l \<Rightarrow> (if ml_released l then io_return False
                   else io_bind (hv_running (mp_hypervisor ports) (ml_identity l)) (\<lambda>b. io_return (\<not> b)))
      | None \<Rightarrow> io_return False)
      (\<lambda>b w. attended p a w \<and> (b \<longrightarrow> (\<exists>l. r = Some l \<and> lease_fits l \<and> attended p {} w))) (attended p a)"
    for r :: "machine_lease option"
  proof (cases r)
    case None
    then show ?thesis by (auto intro!: triple_return intro: holds_mono)
  next
    case (Some l)
    let ?run = "hv_running (mp_hypervisor ports) (ml_identity l)"
    have asked: "triple (attended p (a \<inter> holder l)) ?run (\<lambda>b w. attended p a w \<and> (\<not> b \<longrightarrow> attended p {} w)) (attended p a)"
      if "\<not> ml_released l"
    proof (rule triple_conseq [OF running_holds [where p = p and a = "a \<inter> holder l"]])
      show "attended p a s \<and> (\<not> b \<longrightarrow> attended p {} s)"
        if "(if b then (\<lambda>w. attended p (a \<inter> holder l) w \<and> ml_identity l \<in> alive w)
              else attended p (a \<inter> holder l - {ml_identity l})) s" for b s
        using that \<open>\<not> ml_released l\<close> holds_mono [of p "a \<inter> holder l" s a] holds_mono [of p "a \<inter> holder l - {ml_identity l}" s a]
          holds_mono [of p "a \<inter> holder l - {ml_identity l}" s "{}"] by (auto simp: holder_def split: if_splits)
    qed simp_all
    have run: "triple (\<lambda>w. attended p (a \<inter> holder l) w \<and> lease_fits l) (io_bind ?run (\<lambda>b. io_return (\<not> b)))
        (\<lambda>b w. attended p a w \<and> (b \<longrightarrow> lease_fits l \<and> attended p {} w)) (attended p a)" if "\<not> ml_released l"
      by (rule triple_pure, rule triple_bind [OF asked [OF that]], rule triple_return) simp
    show ?thesis
      unfolding Some option.case
      by (rule triple_if, rule triple_return) (auto intro: holds_mono triple_conseq [OF run])
  qed
  have freed: "triple (\<lambda>w. attended p a w \<and> (b \<longrightarrow> (\<exists>l. r = Some l \<and> lease_fits l \<and> attended p {} w)))
      (case r of Some l \<Rightarrow> (if b then write_lease (mp_files ports) h (release l) rt else io_return ()) | None \<Rightarrow> io_return ())
      (\<lambda>_. attended p a) (attended p a)"
    for r :: "machine_lease option" and b
  proof (cases r)
    case (Some l)
    have "triple (\<lambda>w. attended p {} w \<and> lease_fits l) (write_lease (mp_files ports) h (release l) rt)
        (\<lambda>_. attended p a) (attended p a)"
      by (rule triple_pure, rule triple_conseq [OF write_release_holds [OF p]])
        (use leased_holds [of p "release l"] in \<open>auto intro: holds_mono lease_fits_release simp: holder_def\<close>)
    then have "triple (\<lambda>w. attended p a w \<and> (\<exists>k. r = Some k \<and> lease_fits k \<and> attended p {} w))
        (write_lease (mp_files ports) h (release l) rt) (\<lambda>_. attended p a) (attended p a)"
      by (rule triple_pre) (auto simp: Some)
    then show ?thesis by (cases b) (auto simp: Some intro: triple_return)
  qed (auto intro: triple_return)
  show ?thesis
    unfolding reclaim_def Let_def
    by (rule locked_triple, rule triple_bind [OF read_intent_holds], rule triple_bind [OF read_lease_holds [OF p]],
        rule triple_bind [OF triple_pre [OF stale]], simp split: option.splits, rule triple_bind [OF freed], rule triple_return)
      (auto intro: holds_rests holds_plain)
qed

text \<open>While the machine of the lease runs, a launch is refused before anything is written or started.\<close>

lemma launch_when_running:
  assumes "plain w" "root_child h rt LEASE_NAME = Inr p" "lease_fits l" "\<not> ml_released l"
    and "content w p = Some (document_bytes (lease_document l))"
    and acquired: "lk_acquire (mp_locks ports) MACHINE immediate w = (w1, Inr k)"
    and running: "hv_running (mp_hypervisor ports) (ml_identity l) w1 = (w2, Inr True)"
  shows "\<exists>w3. launch ports h rt spec run directory m w = (w3, Inl (Refusal MACHINE_RUNNING))
    \<and> resting content plain alive (content w) (alive w) w3"
proof -
  from quiet_rests [OF acquire_quiet assms(1) acquired] have r1: "resting content plain alive (content w) (alive w) w1" .
  then have w1: "plain w1" "content w1 = content w" by (simp_all add: resting_def)
  from read_lease_written [OF w1(1) assms(2,3)] assms(5) w1(2)
  have "read_lease (mp_files ports) h rt w1 = (w1, Inr (Some l))" by simp
  with running assms(4) have "require_no_machine ports h rt w1 = (w2, Inl (Refusal MACHINE_RUNNING))"
    by (simp add: require_no_machine_def current_lease_def io_bind_def)
  moreover from running_spec [OF w1(1), of "ml_identity l"] running
  have r2: "resting content plain alive (content w1) (alive w1) w2" by auto
  moreover from r2 release_spec [of w2 k] obtain w3 where "lk_release (mp_locks ports) k w2 = (w3, Inr ())"
    "resting content plain alive (content w2) (alive w2) w3" by (auto simp: resting_def)
  ultimately show ?thesis using acquired r1 by (auto simp: launch_def locked_def io_bind_def io_finally_def resting_def)
qed

text \<open>A start that was interrupted between the intent and the lease is reported.\<close>

lemma reclaim_reports:
  assumes "plain w" "root_child h rt INTENT_NAME = Inr q" "intent_fits i"
    and "content w q = Some (document_bytes (intent_document i))"
    and "root_child h rt LEASE_NAME = Inr p"
    and "content w p = None \<or> (\<exists>l. lease_fits l \<and> content w p = Some (document_bytes (lease_document l))
      \<and> mi_run (ml_intent l) \<noteq> mi_run i)"
    and r: "reclaim ports h rt w = (w', Inr r)"
  shows "rc_orphaned r \<and> rc_intent r = Some i"
proof -
  from r obtain w1 k where acquired: "lk_acquire (mp_locks ports) MACHINE immediate w = (w1, Inr k)"
    by (auto simp: reclaim_def locked_def io_bind_def split: prod.splits sum.splits)
  from quiet_rests [OF acquire_quiet assms(1) acquired] have w1: "plain w1" "content w1 = content w" by (simp_all add: resting_def)
  from read_intent_written [OF w1(1) assms(2,3)] assms(4) w1(2)
  have i: "read_intent (mp_files ports) h rt w1 = (w1, Inr (Some i))" by simp
  from assms(6) read_lease_none [OF w1(1) assms(5)] read_lease_written [OF w1(1) assms(5)] w1(2)
  obtain x where l: "read_lease (mp_files ports) h rt w1 = (w1, x)"
    and x: "\<And>y. x = Inr (Some y) \<Longrightarrow> mi_run (ml_intent y) \<noteq> mi_run i" by fastforce
  from r acquired i l x show ?thesis
    by (auto simp: reclaim_def Let_def locked_def io_finally_def io_bind_Inr io_bind_step split: prod.splits sum.splits option.splits)
qed

end

end
