(* ===== verification/Bench.thy ===== *)
theory Bench
  imports MachineHost
begin

section \<open>The machine operations on the fakes\<close>

text \<open>
  The five fakes side by side in one state, as the tests of the provisioning package hold them, each
  port acting on its part. The interpretation \<open>bench\<close> discharges the laws of \<open>machine_host\<close> for it;
  a bench is plain when its files are and when what the guest does on a monitor command starts no
  machine. The steps are the calls a host can make and a guest that halts on its own.
\<close>

subsection \<open>A port that acts on a part of a state\<close>

definition inside :: "('w \<Rightarrow> 's) \<Rightarrow> ('s \<Rightarrow> 'w \<Rightarrow> 'w) \<Rightarrow> ('s, 'a) io \<Rightarrow> ('w, 'a) io" where
  "inside get put m w = (case m (get w) of (s, r) \<Rightarrow> (put s w, r))"

lemma inside_iff: "inside get put m w = (w', r) \<longleftrightarrow> (\<exists>s. m (get w) = (s, r) \<and> w' = put s w)"
  by (auto simp: inside_def split: prod.splits)

lemma inside_step: "m (get w) = (s, r) \<Longrightarrow> inside get put m w = (put s w, r)"
  by (simp add: inside_def)

definition files_inside :: "('w \<Rightarrow> 's) \<Rightarrow> ('s \<Rightarrow> 'w \<Rightarrow> 'w) \<Rightarrow> 's files_port \<Rightarrow> 'w files_port" where
  "files_inside get put port =
     \<lparr>fp_environment = fp_environment port,
      fp_read_bytes = (\<lambda>p l. inside get put (fp_read_bytes port p l)),
      fp_write_atomic = (\<lambda>p b m. inside get put (fp_write_atomic port p b m)),
      fp_append_line = (\<lambda>p b m. inside get put (fp_append_line port p b m)),
      fp_make_directory = (\<lambda>p m. inside get put (fp_make_directory port p m)),
      fp_copy = (\<lambda>p q. inside get put (fp_copy port p q)), fp_link = (\<lambda>p q. inside get put (fp_link port p q)),
      fp_reserve = (\<lambda>p n m. inside get put (fp_reserve port p n m)),
      fp_patch = (\<lambda>p i b. inside get put (fp_patch port p i b)), fp_remove = (\<lambda>p. inside get put (fp_remove port p)),
      fp_free_space = (\<lambda>p. inside get put (fp_free_space port p)), fp_exists = (\<lambda>p. inside get put (fp_exists port p)),
      fp_mode_of = (\<lambda>p. inside get put (fp_mode_of port p)), fp_list_tree = (\<lambda>p. inside get put (fp_list_tree port p)),
      fp_list_directory = (\<lambda>p. inside get put (fp_list_directory port p)),
      fp_resolve = (\<lambda>p. inside get put (fp_resolve port p)), fp_inspect = (\<lambda>p. inside get put (fp_inspect port p)),
      fp_identity = (\<lambda>p. inside get put (fp_identity port p)), fp_replace = (\<lambda>p q. inside get put (fp_replace port p q))\<rparr>"

text \<open>A file store inside a state is a file store of the state.\<close>

lemma file_store_inside:
  fixes get :: "'w \<Rightarrow> 's"
  assumes fs: "file_store port content plain"
    and lens: "\<And>s w. get (put s w) = s" "\<And>w. put (get w) w = w" "\<And>s w. side (put s w) = side w"
  shows "file_store (files_inside get put port) (\<lambda>w. content (get w)) (\<lambda>w. plain (get w) \<and> side w)"
proof
  have again: "put s (put s w) = put s w" for s w
    using lens(2) [of "put s w"] lens(1) by simp
  fix w w' :: 'w and p q :: safe_path and b :: bytes and m :: file_mode and limit :: int and there :: bool and d :: digest
  assume w: "plain (get w) \<and> side w"
  show "\<exists>b. fp_exists (files_inside get put port) p w = (w, Inr b)"
    using file_store.exists_pure [OF fs, of "get w" p] w by (auto simp: files_inside_def inside_def lens)
  show "fp_exists (files_inside get put port) p w = (w, Inr True)" if "content (get w) p \<noteq> None"
    using file_store.exists_spec [OF fs, of "get w" p] w that by (simp add: files_inside_def inside_def lens)
  show "fp_read_bytes (files_inside get put port) p limit w = (w, Inr (take (nat limit) b))"
    if "0 < limit" "content (get w) p = Some b"
    using file_store.read_spec [OF fs, of "get w" limit p b] w that by (simp add: files_inside_def inside_def lens)
  show "fp_read_bytes (files_inside get put port) p limit w = (w, Inl PortFailure)" if "content (get w) p = None"
    using file_store.read_missing [OF fs, of "get w" p limit] w that by (simp add: files_inside_def inside_def lens)
  show "\<exists>w'. fp_write_atomic (files_inside get put port) p b m w = (w', Inr (digest_bytes b))
      \<and> content (get w') = (content (get w))(p \<mapsto> b) \<and> plain (get w') \<and> side w'"
    using file_store.write_spec [OF fs, of "get w" p b m] w by (auto simp: files_inside_def inside_def lens)
  show "\<exists>w'. fp_append_line (files_inside get put port) p b m w = (w', Inr ())
      \<and> content (get w') = (content (get w))(p \<mapsto> appended (content (get w) p) b) \<and> plain (get w') \<and> side w'"
    using file_store.append_spec [OF fs, of "get w" p b m] w by (auto simp: files_inside_def inside_def lens)
  assume q: "q \<noteq> p" "\<not> starts_with (safe_path_str p) (safe_path_str q @ ''/'')"
    and e: "fp_exists (files_inside get put port) q w = (w, Inr there)"
  then obtain s where s: "fp_exists port q (get w) = (s, Inr there)" by (auto simp: files_inside_def inside_iff)
  with file_store.exists_pure [OF fs, of "get w" q] w have e': "fp_exists port q (get w) = (get w, Inr there)" by auto
  show "fp_exists (files_inside get put port) q w' = (w', Inr there)"
    if "fp_write_atomic (files_inside get put port) p b m w = (w', Inr d)"
    using that file_store.write_exists [OF fs _ _ q e', of b m _ d] w by (auto simp: files_inside_def inside_iff lens inside_step again)
  show "fp_exists (files_inside get put port) q w' = (w', Inr there)"
    if "fp_append_line (files_inside get put port) p b m w = (w', Inr ())"
    using that file_store.append_exists [OF fs _ _ q e', of b m] w by (auto simp: files_inside_def inside_iff lens inside_step again)
qed

subsection \<open>The bench\<close>

record bench =
  bn_files :: memory_files
  bn_clock :: manual_clock
  bn_qemu :: fake_qemu
  bn_locks :: memory_locks
  bn_monitor :: scripted_qmp

definition on_clock :: "(manual_clock, 'a) io \<Rightarrow> (bench, 'a) io" where
  "on_clock = inside bn_clock (\<lambda>s. bn_clock_update (\<lambda>_. s))"

definition on_qemu :: "(fake_qemu, 'a) io \<Rightarrow> (bench, 'a) io" where
  "on_qemu = inside bn_qemu (\<lambda>s. bn_qemu_update (\<lambda>_. s))"

definition on_locks :: "(memory_locks, 'a) io \<Rightarrow> (bench, 'a) io" where
  "on_locks = inside bn_locks (\<lambda>s. bn_locks_update (\<lambda>_. s))"

definition on_monitor :: "(fake_qemu \<times> scripted_qmp, 'a) io \<Rightarrow> (bench, 'a) io" where
  "on_monitor = inside (\<lambda>w. (bn_qemu w, bn_monitor w)) (\<lambda>(q, m) w. w\<lparr>bn_qemu := q, bn_monitor := m\<rparr>)"

definition bench_ports :: "bench machine_ports" where
  "bench_ports =
     \<lparr>mp_files = files_inside bn_files (\<lambda>s. bn_files_update (\<lambda>_. s)) memory_port,
      mp_clock = \<lparr>cp_environment = SIMULATED, cp_now = on_clock manual_now, cp_stamp = on_clock manual_stamp,
        cp_sleep = (\<lambda>d. on_clock (manual_sleep d))\<rparr>,
      mp_hypervisor = \<lparr>hv_environment = SIMULATED, hv_capacity = (\<lambda>rt. on_qemu (qemu_capacity rt)),
        hv_spawn = (\<lambda>spec monitor logfile d. on_qemu (qemu_spawn spec monitor logfile d)),
        hv_running = (\<lambda>i. on_qemu (qemu_running i)), hv_terminate = (\<lambda>i. on_qemu (qemu_terminate i))\<rparr>,
      mp_locks = \<lparr>lk_environment = SIMULATED, lk_acquire = (\<lambda>scope pol. on_locks (locks_acquire scope pol)),
        lk_release = (\<lambda>k. on_locks (locks_release k)), lk_holder = (\<lambda>scope. on_locks (locks_holder scope))\<rparr>,
      mp_monitor = \<lparr>qp_environment = SIMULATED, qp_connect = (\<lambda>p d. on_monitor (scripted_connect p d)),
        qp_execute = (\<lambda>c. on_monitor (scripted_execute c)), qp_close = io_return ()\<rparr>\<rparr>"

definition bench_content :: "bench \<Rightarrow> safe_path \<Rightarrow> bytes option" where
  "bench_content w = memory_content (bn_files w)"

text \<open>The machines that are running.\<close>

definition qemu_alive :: "fake_qemu \<Rightarrow> vm_identity set" where
  "qemu_alive q = {i. map_of (fq_alive q) (vi_process i) = Some i}"

definition bench_alive :: "bench \<Rightarrow> vm_identity set" where
  "bench_alive w = qemu_alive (bn_qemu w)"

definition starts_nothing :: "scripted_qmp \<Rightarrow> bool" where
  "starts_nothing m \<longleftrightarrow>
     (\<forall>(name, effect) \<in> set (sq_reactions m). \<forall>q. qemu_alive (effect q) \<subseteq> qemu_alive q)
   \<and> (\<forall>(name, effect) \<in> set (sq_listeners m). \<forall>c q. qemu_alive (effect c q) \<subseteq> qemu_alive q)"

definition bench_plain :: "bench \<Rightarrow> bool" where
  "bench_plain w \<longleftrightarrow> memory_plain (bn_files w) \<and> starts_nothing (bn_monitor w)"

definition bench_time :: "bench \<Rightarrow> rat" where
  "bench_time w = instant_seconds (mk_now (bn_clock w))"

lemma qemu_alive_simps [simp]:
  "qemu_alive (q\<lparr>fq_issued := n\<rparr>) = qemu_alive q" "qemu_alive (q\<lparr>fq_spawned := sp\<rparr>) = qemu_alive q"
  "qemu_alive (q\<lparr>fq_terminated := t\<rparr>) = qemu_alive q"
  by (simp_all add: qemu_alive_def)

lemma qemu_alive_spawn: "qemu_alive (q\<lparr>fq_alive := dict_set (vi_process i) i (fq_alive q)\<rparr>) \<subseteq> insert i (qemu_alive q)"
  by (auto simp: qemu_alive_def)

lemma qemu_alive_exit: "qemu_alive (q\<lparr>fq_alive := AList.delete (vi_process i) (fq_alive q)\<rparr>) \<subseteq> qemu_alive q - {i}"
  by (auto simp: qemu_alive_def delete_conv)

lemma qemu_running_apply: "qemu_running i q = (q, Inr (i \<in> qemu_alive q))"
  by (simp add: qemu_running_def qemu_alive_def)

lemma starts_nothing_reaction:
  "starts_nothing m \<Longrightarrow> map_of (sq_reactions m) name = Some f \<Longrightarrow> qemu_alive (f q) \<subseteq> qemu_alive q"
  "starts_nothing m \<Longrightarrow> map_of (sq_listeners m) name = Some g \<Longrightarrow> qemu_alive (g c q) \<subseteq> qemu_alive q"
  by (fastforce simp: starts_nothing_def dest: map_of_SomeD)+

lemma starts_nothing_simps [simp]:
  "starts_nothing (m\<lparr>sq_executed := x\<rparr>) = starts_nothing m" "starts_nothing (m\<lparr>sq_connections := y\<rparr>) = starts_nothing m"
  by (simp_all add: starts_nothing_def)

lemma scripted_execute_quiet:
  assumes "starts_nothing m" "scripted_execute c (q, m) = ((q', m'), r)"
  shows "starts_nothing m' \<and> qemu_alive q' \<subseteq> qemu_alive q"
proof -
  have f: "qemu_alive (case map_of (sq_reactions m) (qc_name c) of None \<Rightarrow> q | Some f \<Rightarrow> f q) \<subseteq> qemu_alive q"
    using starts_nothing_reaction(1) [OF assms(1)] by (auto split: option.splits)
  have g: "qemu_alive (case map_of (sq_listeners m) (qc_name c) of None \<Rightarrow> v | Some f \<Rightarrow> f c v) \<subseteq> qemu_alive v" for v
    using starts_nothing_reaction(2) [OF assms(1)] by (auto split: option.splits)
  show ?thesis
  proof (cases "map_of (sq_replies m) (qc_name c)")
    case None
    with assms show ?thesis by (auto simp: scripted_execute_def Let_def)
  next
    case (Some answer)
    with assms(2) have "q' = (case map_of (sq_listeners m) (qc_name c) of
        None \<Rightarrow> (case map_of (sq_reactions m) (qc_name c) of None \<Rightarrow> q | Some f \<Rightarrow> f q)
      | Some f \<Rightarrow> f c (case map_of (sq_reactions m) (qc_name c) of None \<Rightarrow> q | Some f \<Rightarrow> f q))"
      "m' = m\<lparr>sq_executed := sq_executed m @ [c]\<rparr>" by (simp_all add: scripted_execute_def Let_def)
    with f g assms(1) show ?thesis by (simp only: starts_nothing_simps) blast
  qed
qed

lemma bench_quietI:
  "(\<And>w w' r. bench_plain w \<Longrightarrow> m w = (w', r) \<Longrightarrow>
     bench_plain w' \<and> bench_content w' = bench_content w \<and> bench_alive w' \<subseteq> bench_alive w)
   \<Longrightarrow> quiet bench_content bench_plain bench_alive m"
  unfolding quiet_def by (intro allI io_keepsI) (fastforce simp: resting_def)

text \<open>A call on the clock or the locks leaves the files, the processes and the monitor.\<close>

lemma bench_parts [simp]:
  "bench_plain (bn_clock_update c w) = bench_plain w" "bench_plain (bn_locks_update k w) = bench_plain w"
  "bench_content (bn_clock_update c w) = bench_content w" "bench_content (bn_locks_update k w) = bench_content w"
  "bench_alive (bn_clock_update c w) = bench_alive w" "bench_alive (bn_locks_update k w) = bench_alive w"
  "bench_plain (bn_qemu_update q w) = bench_plain w" "bench_content (bn_qemu_update q w) = bench_content w"
  "bench_alive (bn_files_update f w) = bench_alive w" "bench_time (bn_qemu_update q w) = bench_time w"
  by (simp_all add: bench_plain_def bench_content_def bench_alive_def bench_time_def)

lemma on_clock_quiet: "quiet bench_content bench_plain bench_alive (on_clock m)"
  by (rule bench_quietI) (auto simp: on_clock_def inside_iff)

lemma on_locks_quiet: "quiet bench_content bench_plain bench_alive (on_locks m)"
  by (rule bench_quietI) (auto simp: on_locks_def inside_iff)

lemma on_monitor_quiet:
  assumes "\<And>q n q' n' r. starts_nothing n \<Longrightarrow> m (q, n) = ((q', n'), r) \<Longrightarrow> starts_nothing n' \<and> qemu_alive q' \<subseteq> qemu_alive q"
  shows "quiet bench_content bench_plain bench_alive (on_monitor m)"
proof (rule bench_quietI)
  fix w w' r assume w: "bench_plain w" and r: "on_monitor m w = (w', r)"
  from r obtain q n where m: "m (bn_qemu w, bn_monitor w) = ((q, n), r)" and w': "w' = w\<lparr>bn_qemu := q, bn_monitor := n\<rparr>"
    by (auto simp: on_monitor_def inside_iff)
  from assms [OF _ m] w have "starts_nothing n" "qemu_alive q \<subseteq> qemu_alive (bn_qemu w)" by (simp_all add: bench_plain_def)
  with w w' show "bench_plain w' \<and> bench_content w' = bench_content w \<and> bench_alive w' \<subseteq> bench_alive w"
    by (simp add: bench_plain_def bench_content_def bench_alive_def)
qed

lemma on_qemu_apply:
  "on_qemu m w = (w', r) \<longleftrightarrow> (\<exists>q. m (bn_qemu w) = (q, r) \<and> w' = bn_qemu_update (\<lambda>_. q) w)"
  by (simp add: on_qemu_def inside_iff)

lemma bench_alive_qemu [simp]: "bench_alive (bn_qemu_update (\<lambda>_. q) w) = qemu_alive q"
  by (simp add: bench_alive_def)

lemma bench_files: "file_store (mp_files bench_ports) bench_content bench_plain"
proof -
  have "file_store (files_inside bn_files (\<lambda>s. bn_files_update (\<lambda>_. s)) memory_port)
      (\<lambda>w. memory_content (bn_files w)) (\<lambda>w. memory_plain (bn_files w) \<and> starts_nothing (bn_monitor w))"
    by (rule file_store_inside [OF mem.file_store_axioms]) simp_all
  then show ?thesis by (simp add: bench_ports_def bench_content_def [abs_def] bench_plain_def [abs_def])
qed

lemma bench_ticks: "ticking (mp_clock bench_ports) bench_time"
  by unfold_locales
    (simp_all add: bench_ports_def on_clock_def inside_def manual_now_def manual_sleep_def manual_advance_def bench_time_def)

lemma qemu_spawn_Inr:
  "qemu_spawn spec monitor logfile d q = (q', Inr i) \<Longrightarrow> fq_alive q' = dict_set (vi_process i) i (fq_alive q)"
  by (auto simp: qemu_spawn_def Let_def split: if_splits)

lemma qemu_spawn_alive:
  "qemu_spawn spec monitor logfile d q = (q', Inr i) \<Longrightarrow> qemu_alive q' \<subseteq> insert i (qemu_alive q)"
  "qemu_spawn spec monitor logfile d q = (q', Inl e) \<Longrightarrow> q' = q"
proof -
  assume s: "qemu_spawn spec monitor logfile d q = (q', Inr i)"
  show "qemu_alive q' \<subseteq> insert i (qemu_alive q)"
    unfolding qemu_alive_def qemu_spawn_Inr [OF s] by auto
next
  assume "qemu_spawn spec monitor logfile d q = (q', Inl e)"
  then show "q' = q" by (simp add: qemu_spawn_def Let_def split: if_splits)
qed

lemma qemu_terminate_alive:
  "qemu_terminate i q = (q', Inr ()) \<Longrightarrow> i \<in> qemu_alive q \<and> qemu_alive q' \<subseteq> qemu_alive q - {i}"
  "qemu_terminate i q = (q', Inl e) \<Longrightarrow> q' = q"
proof -
  assume t: "qemu_terminate i q = (q', Inr ())"
  then have "i \<in> qemu_alive q" by (auto simp: qemu_terminate_def qemu_alive_def split: option.splits if_splits)
  moreover from t have "qemu_alive q' = qemu_alive (q\<lparr>fq_alive := AList.delete (vi_process i) (fq_alive q)\<rparr>)"
    by (auto simp: qemu_terminate_def split: option.splits if_splits)
  ultimately show "i \<in> qemu_alive q \<and> qemu_alive q' \<subseteq> qemu_alive q - {i}" using qemu_alive_exit [of i q] by simp
next
  assume "qemu_terminate i q = (q', Inl e)"
  then show "q' = q" by (auto simp: qemu_terminate_def split: option.splits if_splits)
qed

lemma on_qemu_rests:
  assumes "bench_plain w" "on_qemu m w = (w', r)"
    and "\<And>q'. m (bn_qemu w) = (q', r) \<Longrightarrow> qemu_alive q' \<subseteq> a"
  shows "resting bench_content bench_plain bench_alive (bench_content w) a w'"
  using assms by (auto simp: on_qemu_apply resting_def)

lemma write_bench_alive:
  "fp_write_atomic (mp_files bench_ports) p b m w = (w', r) \<Longrightarrow> bench_alive w' = bench_alive w"
  by (auto simp: bench_ports_def files_inside_def inside_iff)

interpretation bench: machine_host bench_ports bench_content bench_plain bench_time bench_alive
proof (intro machine_host.intro bench_files bench_ticks machine_host_axioms.intro)
  fix w w' :: bench and i :: vm_identity and e :: exn and r :: "bool res" and p d k spec
    and b :: bytes and m :: file_mode and written :: "digest res" and monitor logfile :: safe_path
  show "bench_time w \<le> bench_time w'" if "hv_running (mp_hypervisor bench_ports) i w = (w', r)"
    using that by (auto simp: bench_ports_def on_qemu_apply)
  show "bench_alive w' \<subseteq> bench_alive w" if "fp_write_atomic (mp_files bench_ports) p b m w = (w', written)"
    using write_bench_alive [OF that] by simp
  assume w: "bench_plain w"
  show "\<exists>w'. hv_running (mp_hypervisor bench_ports) i w = (w', Inr (i \<in> bench_alive w'))
      \<and> resting bench_content bench_plain bench_alive (bench_content w) (bench_alive w) w'"
    using w by (simp add: bench_ports_def on_qemu_apply resting_def qemu_running_apply) (simp add: bench_alive_def)
  show "\<exists>w'. lk_release (mp_locks bench_ports) k w = (w', Inr ())
      \<and> resting bench_content bench_plain bench_alive (bench_content w) (bench_alive w) w'"
    using w by (simp add: bench_ports_def on_locks_def inside_def locks_release_def resting_def)
  show "resting bench_content bench_plain bench_alive (bench_content w) (insert i (bench_alive w)) w'"
    if "hv_spawn (mp_hypervisor bench_ports) spec monitor logfile d w = (w', Inr i)"
    using w that qemu_spawn_alive(1) [of spec monitor logfile d "bn_qemu w"]
    by (auto simp: bench_ports_def bench_alive_def intro!: on_qemu_rests)
  show "resting bench_content bench_plain bench_alive (bench_content w) (bench_alive w) w'"
    if "hv_spawn (mp_hypervisor bench_ports) spec monitor logfile d w = (w', Inl e)"
    using w that by (auto simp: bench_ports_def bench_alive_def intro!: on_qemu_rests dest: qemu_spawn_alive(2))
  show "i \<in> bench_alive w \<and> resting bench_content bench_plain bench_alive (bench_content w) (bench_alive w - {i}) w'"
    if "hv_terminate (mp_hypervisor bench_ports) i w = (w', Inr ())"
    using w that qemu_terminate_alive(1) [of i "bn_qemu w"]
    by (auto simp: bench_ports_def bench_alive_def on_qemu_apply resting_def)
  show "resting bench_content bench_plain bench_alive (bench_content w) (bench_alive w) w'"
    if "hv_terminate (mp_hypervisor bench_ports) i w = (w', Inl e)"
    using w that by (auto simp: bench_ports_def bench_alive_def intro!: on_qemu_rests dest: qemu_terminate_alive(2))
next
  show "quiet bench_content bench_plain bench_alive (hv_capacity (mp_hypervisor bench_ports) rt)" for rt
    by (rule bench_quietI) (simp add: bench_ports_def on_qemu_def inside_def qemu_capacity_def)
  show "quiet bench_content bench_plain bench_alive (qp_connect (mp_monitor bench_ports) p d)" for p d
    unfolding bench_ports_def machine_ports.simps qmp_port.simps
    by (rule on_monitor_quiet) (auto simp: scripted_connect_def split: if_splits)
  show "quiet bench_content bench_plain bench_alive (qp_execute (mp_monitor bench_ports) c)" for c
    unfolding bench_ports_def machine_ports.simps qmp_port.simps by (rule on_monitor_quiet) (rule scripted_execute_quiet)
qed (simp_all add: bench_ports_def on_clock_quiet on_locks_quiet quiet_simple)

subsection \<open>Every state the calls lead to\<close>

definition bench_new :: "host_capacity \<Rightarrow> scripted_qmp \<Rightarrow> bench" where
  "bench_new capacity monitor =
     \<lparr>bn_files = memory_new None, bn_clock = \<lparr>mk_now = EPOCH, mk_slept = []\<rparr>, bn_qemu = qemu_new capacity False,
      bn_locks = locks_new, bn_monitor = monitor\<rparr>"

text \<open>
  One call of a host, whatever it answers, or a guest that halts. The records a call writes fit the
  limit they are read back with.
\<close>

inductive bench_step :: "host \<Rightarrow> runtime_root \<Rightarrow> bench \<Rightarrow> bench \<Rightarrow> bool" for h rt where
  launched: "launch bench_ports h rt spec run directory m w = (w', r) \<Longrightarrow> (\<And>l. r = Inr l \<Longrightarrow> lease_fits l)
     \<Longrightarrow> bench_step h rt w w'"
| stopped: "lease_fits l \<Longrightarrow> shutdown bench_ports h l rt w = Some (w', ending) \<Longrightarrow> bench_step h rt w w'"
| cut: "lease_fits l \<Longrightarrow> safe_path_div (mi_run_directory (ml_intent l)) POWER_LOSS_RECORD \<noteq> root_child h rt LEASE_NAME
     \<Longrightarrow> power_loss bench_ports h owned l rt w = (w', u) \<Longrightarrow> bench_step h rt w w'"
| reclaimed: "reclaim bench_ports h rt w = (w', x) \<Longrightarrow> bench_step h rt w w'"
| halted: "bench_step h rt w (bn_qemu_update (qemu_exit i) w)"
| slept: "bench_step h rt w (bn_clock_update c w)"

inductive bench_reaches :: "host \<Rightarrow> runtime_root \<Rightarrow> bench \<Rightarrow> bench \<Rightarrow> bool" for h rt where
  here: "bench_reaches h rt w w"
| further: "bench_reaches h rt w v \<Longrightarrow> bench_step h rt v u \<Longrightarrow> bench_reaches h rt w u"

abbreviation bench_guarded :: "safe_path \<Rightarrow> bench \<Rightarrow> bool" where
  "bench_guarded \<equiv> guarded bench_content bench_plain bench_alive"

lemma attended_all: "bench.attended p UNIV w \<longleftrightarrow> bench_guarded p w"
  by (simp add: bench.attended_def)

lemma bench_step_guarded:
  assumes "bench_step h rt w w'" "bench_guarded p w"
    and p: "root_child h rt LEASE_NAME = Inr p" and q: "root_child h rt INTENT_NAME \<noteq> Inr p"
  shows "bench_guarded p w'"
  using assms(1)
proof cases
  case (launched spec run directory m r)
  with tripleD [OF bench.launch_holds [OF p q], of UNIV w spec run directory m w'] assms(2) show ?thesis
    by (cases r) (auto simp: attended_all intro: bench.leased_guarded)
next
  case (stopped l ending)
  with ptripleD [OF bench.shutdown_holds [OF p], of l UNIV w w'] assms(2) lease_fits_release [of l] show ?thesis
    by (cases ending) (auto simp: attended_all intro: bench.leased_guarded)
next
  case (cut l owned u)
  with tripleD [OF bench.power_loss_holds [OF p], of l UNIV w owned w'] assms(2) p lease_fits_release [of l] show ?thesis
    by (cases u) (auto simp: attended_all intro: bench.leased_guarded)
next
  case (reclaimed x)
  with tripleD [OF bench.reclaim_holds [OF p], of UNIV w w'] assms(2) show ?thesis
    by (cases x) (auto simp: attended_all)
next
  case (halted i)
  have "resting bench_content bench_plain bench_alive (bench_content w) (bench_alive w) w'"
    using assms(2) qemu_alive_exit [of i "bn_qemu w"]
    unfolding halted resting_def guarded_def by (auto simp: qemu_exit_def bench_alive_def)
  with assms(2) show ?thesis by (rule guarded_rests)
next
  case (slept c)
  with assms(2) show ?thesis by (simp add: guarded_def split: option.splits)
qed

lemma bench_new_guarded: "starts_nothing m \<Longrightarrow> bench_guarded p (bench_new capacity m)"
  by (simp add: guarded_def bench_new_def bench_plain_def bench_content_def bench_alive_def qemu_alive_def qemu_new_def
      memory_plain_def memory_new_def memory_content_def)

lemma reachable_guarded:
  assumes "bench_reaches h rt w w'" "bench_guarded p w"
    and "root_child h rt LEASE_NAME = Inr p" "root_child h rt INTENT_NAME \<noteq> Inr p"
  shows "bench_guarded p w'"
  using assms by (induction) (auto intro: bench_step_guarded)

lemma guarded_one:
  "bench_guarded p w \<Longrightarrow> bench_alive w = {}
     \<or> (\<exists>l. bench_content w p = Some (document_bytes (lease_document l)) \<and> \<not> ml_released l \<and> bench_alive w = {ml_identity l})"
  by (auto simp: guarded_def holder_def split: option.splits if_splits)

end
