(* ===== verification/PyBytes.thy ===== *)
theory PyBytes
  imports PyRegex "HOL-Library.Word"
begin

unbundle bit_operations_syntax

section \<open>Bytes read as one wide integer\<close>

text \<open>
  \<open>int.from_bytes\<close> and \<open>int.to_bytes\<close>, big endian, and what a bitwise operation on two wide
  integers does to the bytes they stand for: it does it to each pair of bytes. Also the strided
  slice \<open>b[i::n]\<close>, \<open>bytes.translate\<close>, and \<open>bytes.split\<close> on white space or on a byte with a limit.
\<close>

fun from_be :: "bytes \<Rightarrow> nat" where
  "from_be b = foldl (\<lambda>n c. 256 * n + of_char c) 0 b"

fun to_be :: "nat \<Rightarrow> nat \<Rightarrow> bytes" where
  "to_be 0 v = []"
| "to_be (Suc n) v = to_be n (v div 256) @ [char_of (v mod 256)]"

text \<open>\<open>v.to_bytes(n, "big")\<close> has a value when \<open>v\<close> fits in \<open>n\<close> bytes.\<close>

definition to_bytes_big :: "nat \<Rightarrow> nat \<Rightarrow> bytes option" where
  "to_bytes_big n v = (if v < 256 ^ n then Some (to_be n v) else None)"

fun every :: "nat \<Rightarrow> 'a list \<Rightarrow> 'a list" where
  "every n [] = []"
| "every n (x # xs) = x # every n (drop (n - 1) xs)"

definition translated :: "bytes \<Rightarrow> bytes \<Rightarrow> bytes" where
  "translated table b = map (\<lambda>c. table ! of_char c) b"

fun split_limited :: "nat \<Rightarrow> 'a \<Rightarrow> 'a list \<Rightarrow> 'a list list" where
  "split_limited 0 c s = [s]"
| "split_limited (Suc n) c s =
     (case partition_on c s of (h, found, t) \<Rightarrow> if found then h # split_limited n c t else [s])"

definition split_blank :: "(char \<Rightarrow> bool) \<Rightarrow> str \<Rightarrow> str list" where
  "split_blank p s =
     filter (\<lambda>w. w \<noteq> []) (split_on CHR '' '' (map (\<lambda>c. if p c then CHR '' '' else c) s))"

subsection \<open>A wide integer and its bytes\<close>

lemma from_be_Nil [simp]: "from_be [] = 0"
  by simp

lemma from_be_snoc [simp]: "from_be (b @ [c]) = 256 * from_be b + of_char c"
  by simp

declare from_be.simps [simp del]

lemma of_char_bound [simp]: "(of_char c :: nat) < 256"
  using nat_of_char_less_256 [of c] by (simp add: of_char_def)

lemma from_be_bound: "from_be b < 256 ^ length b"
proof (induction b rule: rev_induct)
  case (snoc c b)
  have "(of_char c :: nat) < 256" by simp
  with snoc.IH have "256 * from_be b + of_char c < 256 * (from_be b + 1)" by simp
  also have "\<dots> \<le> 256 * 256 ^ length b" using snoc.IH by (simp del: mult_Suc_right)
  finally show ?case by simp
qed simp

lemma to_be_from_be: "to_be (length b) (from_be b) = b"
proof (induction b rule: rev_induct)
  case (snoc c b)
  have "(of_char c :: nat) < 256" by simp
  then have "(256 * from_be b + of_char c) div 256 = from_be b"
    "(256 * from_be b + of_char c) mod 256 = (of_char c :: nat)" by simp_all
  with snoc.IH show ?case by simp
qed simp

lemma to_bytes_from_be: "length b = n \<Longrightarrow> to_bytes_big n (from_be b) = Some b"
  using from_be_bound [of b] to_be_from_be [of b] by (auto simp: to_bytes_big_def)

text \<open>A bitwise operation on two numbers works on the low byte and on the rest apart.\<close>

lemma byte_parts: "(x :: nat) = 256 * drop_bit 8 x + take_bit 8 x"
  by (simp add: drop_bit_eq_div take_bit_eq_mod)

lemma parts_of_byte:
  "c < 256 \<Longrightarrow> drop_bit 8 (256 * n + c) = n" "c < 256 \<Longrightarrow> take_bit 8 (256 * n + c) = (c :: nat)"
  by (simp_all add: drop_bit_eq_div take_bit_eq_mod)

lemma and_byte:
  assumes "c < 256" "d < 256"
  shows "(256 * n + c) AND (256 * m + d) = 256 * (n AND m) + ((c :: nat) AND d)"
  using assms byte_parts [of "(256 * n + c) AND (256 * m + d)"]
  by (simp add: parts_of_byte)

lemma xor_byte:
  assumes "c < 256" "d < 256"
  shows "(256 * n + c) XOR (256 * m + d) = 256 * (n XOR m) + ((c :: nat) XOR d)"
  using assms byte_parts [of "(256 * n + c) XOR (256 * m + d)"]
  by (simp add: parts_of_byte)

lemma byte_closed:
  assumes "(c :: nat) < 256" "d < 256"
  shows "c AND d < 256" "c XOR d < 256"
proof -
  have "take_bit 8 c = c" "take_bit 8 d = d" using assms by (simp_all add: take_bit_eq_mod)
  then have "take_bit 8 (c AND d) = c AND d" "take_bit 8 (c XOR d) = c XOR d" by simp_all
  moreover have "take_bit 8 (c AND d) < 2 ^ 8" "take_bit 8 (c XOR d) < 2 ^ 8"
    by (rule take_bit_nat_less_exp)+
  ultimately show "c AND d < 256" "c XOR d < 256" by simp_all
qed

definition char_and :: "char \<Rightarrow> char \<Rightarrow> char" where
  "char_and c d = char_of ((of_char c :: nat) AND of_char d)"

definition char_xor :: "char \<Rightarrow> char \<Rightarrow> char" where
  "char_xor c d = char_of ((of_char c :: nat) XOR of_char d)"

lemma of_char_bitwise [simp]:
  "of_char (char_and c d) = ((of_char c :: nat) AND of_char d)"
  "of_char (char_xor c d) = ((of_char c :: nat) XOR of_char d)"
  by (simp_all add: char_and_def char_xor_def byte_closed)

lemma map2_snoc: "length a = length b \<Longrightarrow> map2 f (a @ [x]) (b @ [y]) = map2 f a b @ [f x y]"
  by simp

lemma rev_induct2 [consumes 1, case_names Nil snoc]:
  assumes "length a = length b" "P [] []"
    and "\<And>a x b y. length a = length b \<Longrightarrow> P a b \<Longrightarrow> P (a @ [x]) (b @ [y])"
  shows "P a b"
  using assms(1)
proof (induction a arbitrary: b rule: rev_induct)
  case Nil
  then show ?case using assms(2) by simp
next
  case (snoc x a)
  then show ?case by (cases b rule: rev_cases) (auto intro: assms(3))
qed

lemma from_be_and: "length a = length b \<Longrightarrow> from_be a AND from_be b = from_be (map2 char_and a b)"
  by (induction a b rule: rev_induct2) (simp_all add: and_byte map2_snoc del: map_append zip_append)

lemma from_be_xor: "length a = length b \<Longrightarrow> from_be a XOR from_be b = from_be (map2 char_xor a b)"
  by (induction a b rule: rev_induct2) (simp_all add: xor_byte map2_snoc del: map_append zip_append)

subsection \<open>Slices\<close>

lemma length_translated [simp]: "length (translated t b) = length b"
  by (simp add: translated_def)

text \<open>A list read three at a time.\<close>

fun triples :: "'a list \<Rightarrow> ('a \<times> 'a \<times> 'a) list" where
  "triples (a # b # c # s) = (a, b, c) # triples s"
| "triples _ = []"

lemma not_thrice: "Suc 0 \<noteq> 3 * n" "Suc (Suc 0) \<noteq> 3 * n"
  by presburger+

lemma length_triples: "length s = 3 * n \<Longrightarrow> length (triples s) = n"
proof (induction s arbitrary: n rule: triples.induct)
  case (1 a b c s)
  have "length s = 3 * (n - 1)" using 1(2) by simp
  from 1(1) [OF this] 1(2) show ?case by simp
qed (simp_all add: not_thrice)

lemma every_channel:
  "length s = 3 * n \<Longrightarrow> every 3 s = map fst (triples s) \<and> every 3 (drop 1 s) = map (fst \<circ> snd) (triples s)
     \<and> every 3 (drop 2 s) = map (snd \<circ> snd) (triples s)"
proof (induction s arbitrary: n rule: triples.induct)
  case (1 a b c s)
  have "length s = 3 * (n - 1)" using 1(2) by simp
  from 1(1) [OF this] show ?case by (cases s rule: triples.cases) auto
qed (auto simp: not_thrice)

lemma nth_triples:
  "length s = 3 * n \<Longrightarrow> i < n \<Longrightarrow> triples s ! i = (s ! (3 * i), s ! (3 * i + 1), s ! (3 * i + 2))"
proof (induction s arbitrary: n i rule: triples.induct)
  case (1 a b c s)
  have l: "length s = 3 * (n - 1)" using 1(2) by simp
  show ?case
  proof (cases i)
    case (Suc j)
    with 1(3) have "j < n - 1" by simp
    from 1(1) [OF l this] Suc show ?thesis by (simp add: numeral_3_eq_3)
  qed simp
qed (auto simp: not_thrice)

end
