(* ===== verification/Screens.thy ===== *)
theory Screens
  imports PyBytes Errors PyJson
begin

unbundle bit_operations_syntax

section \<open>Screenshots and the judgements over them (model/screens.py)\<close>

text \<open>
  A frame is a binary PPM. The two judgements are written the way the module writes them: a row's
  colour classes by translating each channel and joining the channels as wide integers, the
  pixels that changed by walking only the spans where the two rows differ. Beside each stands the
  plain reading, pixel by pixel, and the lemmas that show the two agree: \<open>classes_pixels\<close>,
  \<open>changed_pixels_count\<close>, and for whole frames \<open>swatches_rows\<close> and \<open>surface_change_counts\<close>.
\<close>

definition MAGIC :: bytes where "MAGIC = ''P6''"
definition MAXIMUM :: bytes where "MAXIMUM = ''255''"
definition CHANNELS :: nat where "CHANNELS = 3"
definition SCREEN_NOT_TESTED :: str where "SCREEN_NOT_TESTED = ''NOT TESTED''"
definition ROW_STRIDE :: nat where "ROW_STRIDE = 4"
definition BAR_RUN :: nat where "BAR_RUN = 80"
definition BAR_GAP :: nat where "BAR_GAP = 4"
definition BAR_ROWS :: nat where "BAR_ROWS = 20"
definition RED_LEAST :: nat where "RED_LEAST = 180"
definition OTHERS_UNDER_RED :: nat where "OTHERS_UNDER_RED = 90"
definition GREEN_LEAST :: nat where "GREEN_LEAST = 140"
definition RED_UNDER_GREEN :: nat where "RED_UNDER_GREEN = 100"
definition BLUE_UNDER_GREEN :: nat where "BLUE_UNDER_GREEN = 120"
definition BLUE_LEAST :: nat where "BLUE_LEAST = 180"
definition RED_UNDER_BLUE :: nat where "RED_UNDER_BLUE = 100"
definition GREEN_UNDER_BLUE :: nat where "GREEN_UNDER_BLUE = 120"
definition TOP_BAR_ROWS :: nat where "TOP_BAR_ROWS = 40"
definition CHANGE :: nat where "CHANGE = 20"
definition MINIMUM_CHANGED :: nat where "MINIMUM_CHANGED = 5000"
definition CHANGED_SHARE :: nat where "CHANGED_SHARE = 100"

lemmas screen_limits = RED_LEAST_def OTHERS_UNDER_RED_def GREEN_LEAST_def RED_UNDER_GREEN_def
  BLUE_UNDER_GREEN_def BLUE_LEAST_def RED_UNDER_BLUE_def GREEN_UNDER_BLUE_def

definition class_none :: nat where "class_none = 0"
definition class_red :: nat where "class_red = 1"
definition class_green :: nat where "class_green = 2"
definition class_blue :: nat where "class_blue = 3"

lemmas class_defs = class_none_def class_red_def class_green_def class_blue_def

definition table_of :: "(nat \<Rightarrow> bool) \<Rightarrow> bytes" where
  "table_of test = map (\<lambda>v. if test v then CHR 0x01 else CHR 0x00) [0..<256]"

definition RED_HIGH :: bytes where "RED_HIGH = table_of (\<lambda>v. RED_LEAST < v)"
definition UNDER_RED :: bytes where "UNDER_RED = table_of (\<lambda>v. v < OTHERS_UNDER_RED)"
definition GREEN_HIGH :: bytes where "GREEN_HIGH = table_of (\<lambda>v. GREEN_LEAST < v)"
definition RED_LOW_FOR_GREEN :: bytes where "RED_LOW_FOR_GREEN = table_of (\<lambda>v. v < RED_UNDER_GREEN)"
definition BLUE_LOW_FOR_GREEN :: bytes where "BLUE_LOW_FOR_GREEN = table_of (\<lambda>v. v < BLUE_UNDER_GREEN)"
definition BLUE_HIGH :: bytes where "BLUE_HIGH = table_of (\<lambda>v. BLUE_LEAST < v)"
definition RED_LOW_FOR_BLUE :: bytes where "RED_LOW_FOR_BLUE = table_of (\<lambda>v. v < RED_UNDER_BLUE)"
definition GREEN_LOW_FOR_BLUE :: bytes where "GREEN_LOW_FOR_BLUE = table_of (\<lambda>v. v < GREEN_UNDER_BLUE)"

lemmas table_defs = RED_HIGH_def UNDER_RED_def GREEN_HIGH_def RED_LOW_FOR_GREEN_def BLUE_LOW_FOR_GREEN_def
  BLUE_HIGH_def RED_LOW_FOR_BLUE_def GREEN_LOW_FOR_BLUE_def

text \<open>\<open>c{n,}\<close> and \<open>c{0,n}\<close>.\<close>

definition at_least :: "nat \<Rightarrow> char \<Rightarrow> pattern" where
  "at_least n c = RSeq (rep n (RClass (\<lambda>x. x = c))) (RStar (RClass (\<lambda>x. x = c)))"

definition at_most :: "nat \<Rightarrow> char \<Rightarrow> pattern" where
  "at_most n c = up_to n (RClass (\<lambda>x. x = c))"

definition BARS :: pattern where
  "BARS =
     (let gap = at_most BAR_GAP (char_of class_none)
      in RSeq (at_least BAR_RUN (char_of class_red)) (RSeq gap
           (RSeq (at_least BAR_RUN (char_of class_green)) (RSeq gap (at_least BAR_RUN (char_of class_blue))))))"

subsection \<open>Frames\<close>

record frame =
  fr_width :: nat
  fr_height :: nat
  fr_pixels :: bytes

text \<open>\<open>int\<close> refuses a literal of more than 4300 digits with a value error of its own.\<close>

definition INT_DIGITS :: nat where "INT_DIGITS = 4300"

definition dimension :: "bytes \<Rightarrow> nat res" where
  "dimension item = (if INT_DIGITS < length item then Inl ValueError else Inr (nat_of_digits item))"

definition frame_parse :: "bytes \<Rightarrow> frame res" where
  "frame_parse payload =
     (case split_limited 3 CHR 0x0A payload of
        [magic, dims, maximum, pixels] \<Rightarrow>
          if strip_with is_byte_space magic \<noteq> MAGIC \<or> strip_with is_byte_space maximum \<noteq> MAXIMUM
          then Inl (Refusal MALFORMED_SCREEN_FRAME)
          else (case split_blank is_byte_space dims of
                  [w, h] \<Rightarrow>
                    if \<not> list_all is_digit w \<or> \<not> list_all is_digit h then Inl (Refusal MALFORMED_SCREEN_FRAME)
                    else rbind (dimension w) (\<lambda>width. rbind (dimension h) (\<lambda>height.
                      if width = 0 \<or> height = 0 \<or> length pixels \<noteq> width * height * CHANNELS
                      then Inl (Refusal MALFORMED_SCREEN_FRAME)
                      else Inr \<lparr>fr_width = width, fr_height = height, fr_pixels = pixels\<rparr>))
                | _ \<Rightarrow> Inl (Refusal MALFORMED_SCREEN_FRAME))
      | _ \<Rightarrow> Inl (Refusal MALFORMED_SCREEN_FRAME))"

definition frame_ok :: "frame \<Rightarrow> bool" where
  "frame_ok f \<longleftrightarrow> 0 < fr_width f \<and> 0 < fr_height f \<and> length (fr_pixels f) = fr_width f * fr_height f * CHANNELS"

lemma frame_parse_ok: "frame_parse payload = Inr f \<Longrightarrow> frame_ok f"
  by (auto simp: frame_parse_def frame_ok_def rbind_eq_Inr split: list.splits if_splits)

definition stride :: "frame \<Rightarrow> nat" where
  "stride f = fr_width f * CHANNELS"

definition row :: "frame \<Rightarrow> nat \<Rightarrow> bytes" where
  "row f i = take (stride f) (drop (i * stride f) (fr_pixels f))"

lemma length_row:
  assumes "frame_ok f" "i < fr_height f"
  shows "length (row f i) = 3 * fr_width f"
proof -
  have "(i + 1) * stride f \<le> fr_height f * stride f" using assms(2) by (intro mult_le_mono1) simp
  with assms(1) show ?thesis by (simp add: row_def stride_def frame_ok_def CHANNELS_def algebra_simps)
qed

subsection \<open>Bars and changes, as recorded\<close>

record bars =
  ba_width :: nat
  ba_height :: nat
  ba_matched_rows :: nat

definition bars_visible :: "bars \<Rightarrow> bool" where
  "bars_visible b \<longleftrightarrow> BAR_ROWS \<le> ba_matched_rows b"

definition bars_document :: "bars \<Rightarrow> (str \<times> json) list" where
  "bars_document b =
     [(''width'', JInt (int (ba_width b))), (''height'', JInt (int (ba_height b))),
      (''matched_rows_at_stride_four'', JInt (int (ba_matched_rows b))),
      (''minimum_rows'', JInt (int BAR_ROWS)), (''visible'', JBool (bars_visible b))]"

record surface_delta =
  sc_changed_pixels :: nat
  sc_minimum_pixels :: nat

definition change_visible :: "surface_delta \<Rightarrow> bool" where
  "change_visible c \<longleftrightarrow> sc_minimum_pixels c \<le> sc_changed_pixels c"

definition change_document :: "surface_delta \<Rightarrow> (str \<times> json) list" where
  "change_document c =
     [(''changed_pixels'', JInt (int (sc_changed_pixels c))),
      (''minimum_pixels'', JInt (int (sc_minimum_pixels c))),
      (''visible'', JBool (change_visible c)), (''visual_identification'', JStr SCREEN_NOT_TESTED)]"

subsection \<open>The judgements as the module computes them\<close>

definition wide :: "bytes \<Rightarrow> bytes \<Rightarrow> bytes \<Rightarrow> nat" where
  "wide a b c = (from_be a AND from_be b) AND from_be c"

definition classes :: "bytes \<Rightarrow> nat \<Rightarrow> bytes res" where
  "classes r width =
     (let red = every CHANNELS (drop 0 r); green = every CHANNELS (drop 1 r); blue = every CHANNELS (drop 2 r);
          reds = wide (translated RED_HIGH red) (translated UNDER_RED green) (translated UNDER_RED blue);
          greens = wide (translated GREEN_HIGH green) (translated RED_LOW_FOR_GREEN red)
                     (translated BLUE_LOW_FOR_GREEN blue);
          blues = wide (translated BLUE_HIGH blue) (translated RED_LOW_FOR_BLUE red)
                     (translated GREEN_LOW_FOR_BLUE green)
      in of_option OverflowError
           (to_bytes_big width (reds * class_red + greens * class_green + blues * class_blue)))"

definition sampled_rows :: "frame \<Rightarrow> nat list" where
  "sampled_rows f = filter (\<lambda>i. i mod ROW_STRIDE = 0) [0..<fr_height f]"

definition swatches :: "frame \<Rightarrow> bars res" where
  "swatches f =
     map_sum id (\<lambda>matched. \<lparr>ba_width = fr_width f, ba_height = fr_height f, ba_matched_rows = matched\<rparr>)
       (rfold (\<lambda>matched i. rbind (classes (row f i) (fr_width f)) (\<lambda>cs.
                 Inr (if research BARS cs then matched + 1 else matched)))
          0 (sampled_rows f))"

text \<open>\<open>DIFFERING.finditer\<close>: where each longest run of bytes that are not zero starts and ends.\<close>

fun differing_spans :: "nat \<Rightarrow> nat option \<Rightarrow> bytes \<Rightarrow> (nat \<times> nat) list" where
  "differing_spans i None [] = []"
| "differing_spans i (Some s) [] = [(s, i)]"
| "differing_spans i None (c # cs) = differing_spans (i + 1) (if c = CHR 0x00 then None else Some i) cs"
| "differing_spans i (Some s) (c # cs) =
     (if c = CHR 0x00 then (s, i) # differing_spans (i + 1) None cs
      else differing_spans (i + 1) (Some s) cs)"

definition byte_at :: "bytes \<Rightarrow> nat \<Rightarrow> nat res" where
  "byte_at b i = (if i < length b then Inr (of_char (b ! i)) else Inl IndexError)"

definition moved_by :: "bytes \<Rightarrow> bytes \<Rightarrow> nat \<Rightarrow> nat res" where
  "moved_by first second pixel =
     map_sum id Max (map_sum id set (rmapM (\<lambda>channel.
        rbind (byte_at first (pixel * CHANNELS + channel)) (\<lambda>a.
        rbind (byte_at second (pixel * CHANNELS + channel)) (\<lambda>b.
          Inr (nat \<bar>int a - int b\<bar>)))) [0..<CHANNELS]))"

definition count_pixel :: "bytes \<Rightarrow> bytes \<Rightarrow> nat \<Rightarrow> nat \<Rightarrow> nat res" where
  "count_pixel first second counted pixel =
     rbind (moved_by first second pixel) (\<lambda>moved. Inr (if CHANGE \<le> moved then counted + 1 else counted))"

definition count_span :: "bytes \<Rightarrow> bytes \<Rightarrow> nat \<times> nat \<Rightarrow> nat \<times> nat \<Rightarrow> (nat \<times> nat) res" where
  "count_span first second state span =
     (case state of (counted, next_pixel) \<Rightarrow> case span of (s, e) \<Rightarrow>
        let start = max (s div CHANNELS) next_pixel; stop = (e - 1) div CHANNELS + 1
        in map_sum id (\<lambda>counted'. (counted', stop)) (rfold (count_pixel first second) counted [start..<stop]))"

definition changed_pixels :: "bytes \<Rightarrow> bytes \<Rightarrow> nat res" where
  "changed_pixels first second =
     rbind (of_option OverflowError (to_bytes_big (length first) (from_be first XOR from_be second))) (\<lambda>differing.
       map_sum id fst (rfold (count_span first second) (0, 0) (differing_spans 0 None differing)))"

definition surface_change :: "frame \<Rightarrow> frame \<Rightarrow> surface_delta res" where
  "surface_change before after =
     (if (fr_width before, fr_height before) \<noteq> (fr_width after, fr_height after)
      then Inl (Refusal SCREEN_SIZE_CHANGED)
      else map_sum id (\<lambda>changed. \<lparr>sc_changed_pixels = changed,
               sc_minimum_pixels = max MINIMUM_CHANGED (fr_width before * fr_height before div CHANGED_SHARE)\<rparr>)
             (rfold (\<lambda>changed i.
                if row before i \<noteq> row after i
                then map_sum id (\<lambda>n. changed + n) (changed_pixels (row before i) (row after i))
                else Inr changed)
              0 [min TOP_BAR_ROWS (fr_height before)..<fr_height before]))"

subsection \<open>The colour classes are those of the pixels\<close>

type_synonym pixel = "char \<times> char \<times> char"

definition is_red :: "pixel \<Rightarrow> bool" where
  "is_red p = (case p of (r, g, b) \<Rightarrow> 180 < (of_char r :: nat) \<and> (of_char g :: nat) < 90 \<and> (of_char b :: nat) < 90)"

definition is_green :: "pixel \<Rightarrow> bool" where
  "is_green p = (case p of (r, g, b) \<Rightarrow> 140 < (of_char g :: nat) \<and> (of_char r :: nat) < 100 \<and> (of_char b :: nat) < 120)"

definition is_blue :: "pixel \<Rightarrow> bool" where
  "is_blue p = (case p of (r, g, b) \<Rightarrow> 180 < (of_char b :: nat) \<and> (of_char r :: nat) < 100 \<and> (of_char g :: nat) < 120)"

definition pixel_class :: "pixel \<Rightarrow> nat" where
  "pixel_class p = (if is_red p then class_red else if is_green p then class_green
     else if is_blue p then class_blue else class_none)"

definition mark :: "('a \<Rightarrow> bool) \<Rightarrow> 'a \<Rightarrow> char" where
  "mark test x = (if test x then CHR 0x01 else CHR 0x00)"

lemma translated_table:
  "translated (table_of test) (map f xs) = map (mark (\<lambda>x. test (of_char (f x)))) xs"
  by (simp add: translated_def table_of_def mark_def)

lemma char_of_bits: "char_of (0 :: nat) = CHR 0x00" "char_of (Suc 0) = CHR 0x01"
  by code_simp+

lemma char_and_mark: "char_and (mark p x) (mark q x) = mark (\<lambda>x. p x \<and> q x) x"
  by (simp add: mark_def char_and_def char_of_bits)

lemma map2_map: "map2 f (map g xs) (map h xs) = map (\<lambda>x. f (g x) (h x)) xs"
  by (induction xs) simp_all

lemma wide_marks:
  "wide (map (mark p) xs) (map (mark q) xs) (map (mark r) xs) = from_be (map (mark (\<lambda>x. p x \<and> q x \<and> r x)) xs)"
  by (simp add: wide_def from_be_and map2_map char_and_mark conj_assoc)

lemma colours:
  "is_red = (\<lambda>p. RED_LEAST < of_char (fst p) \<and> of_char (fst (snd p)) < OTHERS_UNDER_RED \<and> of_char (snd (snd p)) < OTHERS_UNDER_RED)"
  "is_green = (\<lambda>p. GREEN_LEAST < of_char (fst (snd p)) \<and> of_char (fst p) < RED_UNDER_GREEN \<and> of_char (snd (snd p)) < BLUE_UNDER_GREEN)"
  "is_blue = (\<lambda>p. BLUE_LEAST < of_char (snd (snd p)) \<and> of_char (fst p) < RED_UNDER_BLUE \<and> of_char (fst (snd p)) < GREEN_UNDER_BLUE)"
  by (auto simp: fun_eq_iff is_red_def is_green_def is_blue_def screen_limits)

text \<open>The three classes exclude one another, so the sum of the scaled masks is the class of each pixel.\<close>

lemma class_sum:
  "(if is_red x then 1 else 0) * class_red + (if is_green x then 1 else 0) * class_green
     + (if is_blue x then 1 else 0) * class_blue = pixel_class x"
  by (auto simp: pixel_class_def is_red_def is_green_def is_blue_def class_defs)

lemma marks_summed:
  "from_be (map (mark is_red) xs) * class_red + from_be (map (mark is_green) xs) * class_green
     + from_be (map (mark is_blue) xs) * class_blue = from_be (map (\<lambda>x. char_of (pixel_class x)) xs)"
proof (induction xs rule: rev_induct)
  case (snoc x xs)
  have c: "of_char (mark q x) = (if q x then 1 else 0 :: nat)" for q
    by (simp add: mark_def)
  have "pixel_class x < 256" by (simp add: pixel_class_def class_defs)
  then have "of_char (char_of (pixel_class x)) = pixel_class x" by simp
  with snoc.IH class_sum [of x] show ?case
    by (simp add: c add_mult_distrib)
qed simp

lemma classes_pixels:
  assumes "length r = 3 * w"
  shows "classes r w = Inr (map (\<lambda>p. char_of (pixel_class p)) (triples r))"
proof -
  note channels = every_channel [OF assms]
  have "classes r w = of_option OverflowError (to_bytes_big w
      (from_be (map (mark is_red) (triples r)) * class_red + from_be (map (mark is_green) (triples r)) * class_green
        + from_be (map (mark is_blue) (triples r)) * class_blue))"
    using channels by (simp add: classes_def CHANNELS_def table_defs translated_table wide_marks Let_def colours)
  then show ?thesis
    by (simp add: marks_summed to_bytes_from_be length_triples [OF assms])
qed

subsection \<open>Walking the differing spans counts the changed pixels\<close>

text \<open>A pixel changed when one of its channels moved by the threshold.\<close>

definition pixel_changed :: "bytes \<Rightarrow> bytes \<Rightarrow> nat \<Rightarrow> bool" where
  "pixel_changed a b p \<longleftrightarrow>
     (\<exists>c < CHANNELS. int CHANGE \<le> \<bar>int (of_char (a ! (p * CHANNELS + c))) - int (of_char (b ! (p * CHANNELS + c)))\<bar>)"

lemma moved_by_pixel:
  assumes "length a = 3 * n" "length b = 3 * n" "p < n"
  shows "\<exists>m. moved_by a b p = Inr m \<and> (CHANGE \<le> m \<longleftrightarrow> pixel_changed a b p)"
proof -
  let ?d = "\<lambda>c. nat \<bar>int (of_char (a ! (p * CHANNELS + c))) - int (of_char (b ! (p * CHANNELS + c)))\<bar>"
  have i: "p * CHANNELS + c < length a \<and> p * CHANNELS + c < length b" if "c < CHANNELS" for c
    using that assms by (simp add: CHANNELS_def)
  have "moved_by a b p = Inr (Max (set (map ?d [0..<CHANNELS])))"
    unfolding moved_by_def by (subst rmapM_Inr_map [where g = ?d]) (auto simp: byte_at_def i)
  moreover have "CHANGE \<le> Max (set (map ?d [0..<CHANNELS])) \<longleftrightarrow> (\<exists>c < CHANNELS. CHANGE \<le> ?d c)"
    by (subst Max_ge_iff) (auto simp: CHANNELS_def)
  moreover have "(\<exists>c < CHANNELS. CHANGE \<le> ?d c) \<longleftrightarrow> pixel_changed a b p"
    unfolding pixel_changed_def by (intro ex_cong) (auto simp: nat_le_iff le_nat_iff)
  ultimately show ?thesis by blast
qed

lemma count_pixels:
  assumes "length a = 3 * n" "length b = 3 * n" "\<forall>p \<in> set ps. p < n"
  shows "rfold (count_pixel a b) k ps = Inr (k + length (filter (pixel_changed a b) ps))"
  using assms(3)
proof (induction ps arbitrary: k)
  case (Cons p ps)
  from moved_by_pixel [OF assms(1,2), of p] Cons.prems obtain m where
    "moved_by a b p = Inr m" "CHANGE \<le> m \<longleftrightarrow> pixel_changed a b p" by auto
  with Cons show ?case by (auto simp: count_pixel_def)
qed simp

text \<open>The spans found: in order, apart from one another, and over every byte that is not zero.\<close>

fun spans_apart :: "nat \<Rightarrow> nat \<Rightarrow> (nat \<times> nat) list \<Rightarrow> bool" where
  "spans_apart lo hi [] = True"
| "spans_apart lo hi ((s, e) # sp) = (lo \<le> s \<and> s < e \<and> e \<le> hi \<and> spans_apart e hi sp)"

definition covered :: "(nat \<times> nat) list \<Rightarrow> nat \<Rightarrow> bool" where
  "covered sp i \<longleftrightarrow> (\<exists>(s, e) \<in> set sp. s \<le> i \<and> i < e)"

lemma covered_simps [simp]: "\<not> covered [] i" "covered ((s, e) # sp) i \<longleftrightarrow> s \<le> i \<and> i < e \<or> covered sp i"
  by (auto simp: covered_def)

lemma spans_apart_weaken: "spans_apart lo hi sp \<Longrightarrow> lo' \<le> lo \<Longrightarrow> spans_apart lo' hi sp"
  by (cases sp) auto

lemma spans_apart_covered: "spans_apart lo hi sp \<Longrightarrow> covered sp i \<Longrightarrow> lo \<le> i \<and> i < hi"
  by (induction sp arbitrary: lo) force+

lemma differing_spans_apart:
  "spans_apart i (i + length cs) (differing_spans i None cs)"
  "s < i \<Longrightarrow> spans_apart s (i + length cs) (differing_spans i (Some s) cs)"
proof (induction cs arbitrary: i s)
  case (Cons c cs)
  { case 1
    from Cons(1) [of "i + 1"] Cons(2) [of i "i + 1"] show ?case by (auto intro: spans_apart_weaken) }
  { case 2
    with Cons(1) [of "i + 1"] Cons(2) [of s "i + 1"] show ?case by (auto intro: spans_apart_weaken) }
qed simp_all

lemma differing_spans_cover:
  "(case st of None \<Rightarrow> True | Some s \<Rightarrow> s < i) \<Longrightarrow>
     (\<forall>k. (case st of None \<Rightarrow> False | Some s \<Rightarrow> s \<le> k \<and> k < i) \<longrightarrow> covered (differing_spans i st cs) k)
   \<and> (\<forall>j < length cs. cs ! j \<noteq> CHR 0x00 \<longrightarrow> covered (differing_spans i st cs) (i + j))"
proof (induction i st cs rule: differing_spans.induct)
  case (3 i c cs)
  from 3 show ?case
    by (cases "c = CHR 0x00") (simp_all add: All_less_Suc2)
next
  case (4 i s c cs)
  show ?case
  proof (cases "c = CHR 0x00")
    case True
    from 4(1) [OF True] have "\<forall>j < length cs. cs ! j \<noteq> CHR 0x00 \<longrightarrow> covered (differing_spans (i + 1) None cs) (i + 1 + j)"
      by simp
    with True show ?thesis by (simp add: All_less_Suc2)
  next
    case False
    from 4(2) [OF False] 4(3) False show ?thesis by (simp add: All_less_Suc2)
  qed
qed simp_all

lemma differing_covered:
  assumes "j < length d" "d ! j \<noteq> CHR 0x00"
  shows "covered (differing_spans 0 None d) j"
  using differing_spans_cover [where st = None and i = 0 and cs = d] assms by simp

lemma char_xor_zero: "char_xor c d = CHR 0x00 \<longleftrightarrow> c = d"
proof
  assume "char_xor c d = CHR 0x00"
  then have "(of_char (char_xor c d) :: nat) = 0" by simp
  then have "(of_char c :: nat) = of_char d" by (metis of_char_bitwise(2) xor.assoc xor.left_neutral xor_self_eq)
  then show "c = d" by simp
qed (simp add: char_xor_def char_of_bits)

text \<open>Counting span by span visits each changed pixel once, although spans may share a pixel.\<close>

lemma count_spans:
  assumes "length a = 3 * n" "length b = 3 * n"
    and "spans_apart lo (3 * n) sp" "start \<le> lo div 3 + 1" "start \<le> n"
    and "\<forall>p. start \<le> p \<and> p < n \<and> pixel_changed a b p \<longrightarrow> (\<exists>i. i div 3 = p \<and> covered sp i)"
  shows "map_sum id fst (rfold (count_span a b) (k, start) sp) =
    Inr (k + card {p. start \<le> p \<and> p < n \<and> pixel_changed a b p})"
  using assms(3-6)
proof (induction sp arbitrary: lo k start)
  case Nil
  then have "{p. start \<le> p \<and> p < n \<and> pixel_changed a b p} = {}" by simp
  then show ?case by simp
next
  case (Cons se sp)
  obtain s e where se: "se = (s, e)" by (cases se) auto
  with Cons.prems(1) have se_ok: "lo \<le> s" "s < e" "e \<le> 3 * n" "spans_apart e (3 * n) sp" by auto
  let ?from = "max (s div 3) start" and ?stop = "(e - 1) div 3 + 1"
  have stop: "?stop \<le> n" "?stop \<le> e div 3 + 1" "start \<le> ?stop" "?from \<le> ?stop"
    using se_ok Cons.prems(2) by auto
  have later: "e \<le> i" if "covered sp i" for i
    using spans_apart_covered [OF se_ok(4) that] by simp
  have from_here: "s div 3 \<le> p" if "start \<le> p" "p < n" "pixel_changed a b p" for p
  proof -
    from that Cons.prems(4) obtain i where i: "i div 3 = p" "covered (se # sp) i" by blast
    then have "s \<le> i" using later [of i] se_ok(2) by (auto simp: se)
    with i(1) show ?thesis using div_le_mono [of s i 3] by simp
  qed
  let ?in = "filter (pixel_changed a b) [?from..<?stop]"
  have counted: "rfold (count_pixel a b) k [?from..<?stop] = Inr (k + length ?in)"
    using stop(1) by (intro count_pixels [OF assms(1,2)]) auto
  have parts: "{p. start \<le> p \<and> p < n \<and> pixel_changed a b p} =
      set ?in \<union> {p. ?stop \<le> p \<and> p < n \<and> pixel_changed a b p}"
    using from_here stop(1,3) div_le_mono [of s "e - 1" 3] se_ok(2) by (auto simp: not_le)
  have "card {p. start \<le> p \<and> p < n \<and> pixel_changed a b p} =
      length ?in + card {p. ?stop \<le> p \<and> p < n \<and> pixel_changed a b p}"
  proof -
    have "card (set ?in \<union> {p. ?stop \<le> p \<and> p < n \<and> pixel_changed a b p}) =
        card (set ?in) + card {p. ?stop \<le> p \<and> p < n \<and> pixel_changed a b p}"
      by (rule card_Un_disjoint) auto
    moreover have "card (set ?in) = length ?in" by (rule distinct_card) (simp del: upt_Suc)
    ultimately show ?thesis by (simp only: parts)
  qed
  then have total: "k + length ?in + card {p. ?stop \<le> p \<and> p < n \<and> pixel_changed a b p} =
      k + card {p. start \<le> p \<and> p < n \<and> pixel_changed a b p}" by (simp only: add.assoc)
  have rest: "\<forall>p. ?stop \<le> p \<and> p < n \<and> pixel_changed a b p \<longrightarrow> (\<exists>i. i div 3 = p \<and> covered sp i)"
  proof (intro allI impI, elim conjE)
    fix p assume p: "?stop \<le> p" "p < n" "pixel_changed a b p"
    with stop(3) Cons.prems(4) obtain i where i: "i div 3 = p" "covered (se # sp) i" by (meson le_trans)
    have "\<not> i < e" using p(1) i(1) div_le_mono [of i "e - 1" 3] by auto
    with i se show "\<exists>i. i div 3 = p \<and> covered sp i" by auto
  qed
  have "count_span a b (k, start) se = Inr (k + length ?in, ?stop)"
    unfolding se count_span_def prod.case CHANNELS_def Let_def counted by (simp only: map_sum.simps)
  then show ?case
    using Cons.IH [OF se_ok(4) stop(2,1) rest, of "k + length ?in"]
    by (simp only: rfold.simps rbind_Inr total)
qed

lemma changed_pixels_count:
  assumes "length a = 3 * n" "length b = 3 * n"
  shows "changed_pixels a b = Inr (card {p. p < n \<and> pixel_changed a b p})"
proof -
  let ?d = "map2 char_xor a b"
  have d: "of_option OverflowError (to_bytes_big (length a) (from_be a XOR from_be b)) = Inr ?d"
    using assms by (simp add: from_be_xor to_bytes_from_be)
  have "\<exists>i. i div 3 = p \<and> covered (differing_spans 0 None ?d) i" if "p < n" "pixel_changed a b p" for p
  proof -
    from that(2) obtain c where c: "c < CHANNELS"
      "int CHANGE \<le> \<bar>int (of_char (a ! (p * CHANNELS + c))) - int (of_char (b ! (p * CHANNELS + c)))\<bar>"
      unfolding pixel_changed_def by blast
    have neq: "a ! (p * CHANNELS + c) \<noteq> b ! (p * CHANNELS + c)"
    proof
      assume "a ! (p * CHANNELS + c) = b ! (p * CHANNELS + c)"
      with c(2) show False by (simp add: CHANGE_def)
    qed
    let ?i = "p * CHANNELS + c"
    have i: "?i < length a" "?i < length b" "?i div 3 = p" using c(1) that(1) assms by (simp_all add: CHANNELS_def)
    then have "?d ! ?i \<noteq> CHR 0x00" using neq by (simp add: char_xor_zero)
    with i differing_covered [of ?i ?d] show ?thesis by auto
  qed
  moreover have "spans_apart 0 (3 * n) (differing_spans 0 None ?d)"
    using differing_spans_apart(1) [of 0 ?d] assms by simp
  ultimately show ?thesis
    using count_spans [OF assms, of 0 "differing_spans 0 None ?d" 0 0] d
    by (simp add: changed_pixels_def)
qed

subsection \<open>The judgements, pixel by pixel\<close>

definition pixel_at :: "frame \<Rightarrow> nat \<Rightarrow> nat \<Rightarrow> pixel" where
  "pixel_at f x y = (let i = 3 * (y * fr_width f + x) in (fr_pixels f ! i, fr_pixels f ! (i + 1), fr_pixels f ! (i + 2)))"

definition apart_by :: "nat \<Rightarrow> char \<Rightarrow> char \<Rightarrow> bool" where
  "apart_by k c d \<longleftrightarrow> int k \<le> \<bar>int (of_char c) - int (of_char d)\<bar>"

definition moved_far :: "pixel \<Rightarrow> pixel \<Rightarrow> bool" where
  "moved_far p q = (case (p, q) of ((r, g, b), (r', g', b')) \<Rightarrow>
     apart_by CHANGE r r' \<or> apart_by CHANGE g g' \<or> apart_by CHANGE b b')"

definition shows_bars :: "nat list \<Rightarrow> bool" where
  "shows_bars cs \<longleftrightarrow> (\<exists>before r gap g gap' b after.
     cs = before @ replicate r class_red @ replicate gap class_none @ replicate g class_green
            @ replicate gap' class_none @ replicate b class_blue @ after
     \<and> 80 \<le> r \<and> 80 \<le> g \<and> 80 \<le> b \<and> gap \<le> 4 \<and> gap' \<le> 4)"

lemma nth_row:
  assumes "frame_ok f" "y < fr_height f" "i < 3 * fr_width f"
  shows "row f y ! i = fr_pixels f ! (3 * (y * fr_width f) + i)"
  using assms length_row [OF assms(1,2)] by (simp add: row_def stride_def CHANNELS_def algebra_simps)

lemma triples_row:
  assumes "frame_ok f" "y < fr_height f"
  shows "triples (row f y) = map (\<lambda>x. pixel_at f x y) [0..<fr_width f]"
proof (rule nth_equalityI)
  have l: "length (row f y) = 3 * fr_width f" by (rule length_row [OF assms])
  then show "length (triples (row f y)) = length (map (\<lambda>x. pixel_at f x y) [0..<fr_width f])"
    by (simp add: length_triples)
  fix x assume "x < length (triples (row f y))"
  with l have x: "x < fr_width f" by (simp add: length_triples)
  then show "triples (row f y) ! x = map (\<lambda>x. pixel_at f x y) [0..<fr_width f] ! x"
    using nth_triples [OF l x] nth_row [OF assms] by (simp add: pixel_at_def Let_def algebra_simps)
qed

lemma pixel_changed_at:
  assumes "frame_ok f" "frame_ok g" "fr_width g = fr_width f" "y < fr_height f" "y < fr_height g" "x < fr_width f"
  shows "pixel_changed (row f y) (row g y) x \<longleftrightarrow> moved_far (pixel_at f x y) (pixel_at g x y)"
proof -
  have c: "(\<exists>c < CHANNELS. P c) \<longleftrightarrow> P 0 \<or> P 1 \<or> P 2" for P
    by (auto simp: CHANNELS_def numeral_3_eq_3 less_Suc_eq numeral_2_eq_2)
  show ?thesis
    using assms unfolding pixel_changed_def c
    by (simp add: nth_row moved_far_def apart_by_def pixel_at_def Let_def CHANNELS_def algebra_simps)
qed

text \<open>Three wide bars side by side, in the colour classes of a row.\<close>

lemma fullmatch_run:
  "fullmatch (at_least n c) s \<longleftrightarrow> (\<exists>m. s = replicate m c \<and> n \<le> m)"
proof -
  have r: "list_all (\<lambda>x. x = c) s \<longleftrightarrow> s = replicate (length s) c" for s
    by (induction s) auto
  have "(\<exists>a b. s = a @ b \<and> length a = n \<and> list_all (\<lambda>x. x = c) a \<and> list_all (\<lambda>x. x = c) b)
      \<longleftrightarrow> n \<le> length s \<and> list_all (\<lambda>x. x = c) s"
  proof
    assume "n \<le> length s \<and> list_all (\<lambda>x. x = c) s"
    then show "\<exists>a b. s = a @ b \<and> length a = n \<and> list_all (\<lambda>x. x = c) a \<and> list_all (\<lambda>x. x = c) b"
      by (intro exI [of _ "take n s"] exI [of _ "drop n s"]) (auto simp: list_all_iff dest: in_set_takeD in_set_dropD)
  qed auto
  also have "\<dots> \<longleftrightarrow> (\<exists>m. s = replicate m c \<and> n \<le> m)"
    using r [of s] by (metis length_replicate)
  finally show ?thesis
    by (simp add: at_least_def fullmatch_seq fullmatch_rep_class fullmatch_star_class conj_assoc)
qed

lemma fullmatch_up_to:
  "fullmatch (at_most n c) s \<longleftrightarrow> (\<exists>m. s = replicate m c \<and> m \<le> n)"
  unfolding at_most_def
proof (induction n arbitrary: s)
  case (Suc n)
  show ?case
  proof (cases s)
    case (Cons x t)
    have "(\<exists>m. x # t = replicate m c \<and> m \<le> Suc n) \<longleftrightarrow> x = c \<and> (\<exists>m. t = replicate m c \<and> m \<le> n)"
      by (metis Suc_le_mono length_Cons length_replicate list.inject replicate_Suc)
    with Cons Suc.IH [of t] show ?thesis by simp
  qed (auto intro: exI [of _ 0])
qed auto

lemma fullmatch_BARS:
  "fullmatch BARS m \<longleftrightarrow> (\<exists>r gap g gap' b.
     m = replicate r (char_of class_red) @ replicate gap (char_of class_none) @ replicate g (char_of class_green)
           @ replicate gap' (char_of class_none) @ replicate b (char_of class_blue)
     \<and> 80 \<le> r \<and> 80 \<le> g \<and> 80 \<le> b \<and> gap \<le> 4 \<and> gap' \<le> 4)"
  unfolding BARS_def Let_def fullmatch_seq fullmatch_run fullmatch_up_to BAR_RUN_def BAR_GAP_def by blast

lemma research_bars:
  assumes "\<forall>k \<in> set cs. k < 256"
  shows "research BARS (map char_of cs) \<longleftrightarrow> shows_bars cs"
proof
  have chars: "map (of_char :: char \<Rightarrow> nat) (map char_of cs) = cs"
    using assms by (simp add: map_idI)
  have of_class: "of_char (char_of class_red) = class_red" "of_char (char_of class_none) = class_none"
    "of_char (char_of class_green) = class_green" "of_char (char_of class_blue) = class_blue"
    by (simp_all add: class_defs)
  assume "research BARS (map char_of cs)"
  then obtain a m c where m: "map char_of cs = a @ m @ c" "fullmatch BARS m"
    unfolding research_iff by blast
  then have "cs = map of_char a @ map of_char m @ map of_char c"
    using chars by (metis map_append)
  with m(2) show "shows_bars cs"
    unfolding fullmatch_BARS shows_bars_def
    by (elim exE conjE) (hypsubst, simp only: map_append map_replicate of_class append_assoc, blast)
next
  assume "shows_bars cs"
  then obtain a r gap g gap' b c where bars: "80 \<le> r" "80 \<le> g" "80 \<le> b" "gap \<le> 4" "gap' \<le> 4"
    and cs: "cs = a @ replicate r class_red @ replicate gap class_none @ replicate g class_green
      @ replicate gap' class_none @ replicate b class_blue @ c"
    unfolding shows_bars_def by blast
  from bars have "fullmatch BARS (replicate r (char_of class_red) @ replicate gap (char_of class_none)
      @ replicate g (char_of class_green) @ replicate gap' (char_of class_none) @ replicate b (char_of class_blue))"
    unfolding fullmatch_BARS by blast
  then have "\<exists>m. map char_of cs = map char_of a @ m @ map char_of c \<and> fullmatch BARS m"
    by (intro exI conjI) (simp_all add: cs)
  then show "research BARS (map char_of cs)" unfolding research_iff by blast
qed

lemma rfold_count:
  assumes "\<forall>y \<in> set ys. f y = Inr (g y)"
  shows "rfold (\<lambda>n y. rbind (f y) (\<lambda>c. Inr (if p c then n + 1 else n))) k ys =
    Inr (k + length (filter (\<lambda>y. p (g y)) ys))"
  using assms by (induction ys arbitrary: k) auto

lemma length_filter_upt: "length (filter p [0..<n]) = card {i. i < n \<and> p i}"
  by (simp add: length_filter_conv_card cong: conj_cong)

text \<open>A judgement of bars counts the sampled rows that show them.\<close>

lemma swatches_rows:
  assumes "frame_ok f"
  shows "swatches f = Inr \<lparr>ba_width = fr_width f, ba_height = fr_height f,
    ba_matched_rows = card {y. y < fr_height f \<and> y mod 4 = 0
      \<and> shows_bars (map (\<lambda>x. pixel_class (pixel_at f x y)) [0..<fr_width f])}\<rparr>"
proof -
  let ?cs = "\<lambda>y. map (\<lambda>x. pixel_class (pixel_at f x y)) [0..<fr_width f]"
  have "classes (row f y) (fr_width f) = Inr (map char_of (?cs y))" if "y \<in> set (sampled_rows f)" for y
    using that classes_pixels [OF length_row [OF assms]] triples_row [OF assms]
    by (simp add: sampled_rows_def comp_def)
  then have "rfold (\<lambda>matched i. rbind (classes (row f i) (fr_width f)) (\<lambda>cs. Inr (if research BARS cs then matched + 1 else matched)))
      0 (sampled_rows f) = Inr (0 + length (filter (\<lambda>y. research BARS (map char_of (?cs y))) (sampled_rows f)))"
    by (intro rfold_count) blast
  also have "(\<lambda>y. research BARS (map char_of (?cs y))) = (\<lambda>y. shows_bars (?cs y))"
    by (intro ext research_bars) (auto simp: pixel_class_def class_defs)
  also have "length (filter (\<lambda>y. shows_bars (?cs y)) (sampled_rows f)) =
      card {y. y < fr_height f \<and> y mod 4 = 0 \<and> shows_bars (?cs y)}"
    by (simp add: sampled_rows_def ROW_STRIDE_def length_filter_upt)
  finally show ?thesis by (simp add: swatches_def)
qed

text \<open>A judgement of change counts the pixels below the top bar that moved far.\<close>

definition changed_below :: "frame \<Rightarrow> frame \<Rightarrow> (nat \<times> nat) set" where
  "changed_below before after = {(x, y). x < fr_width before \<and> 40 \<le> y \<and> y < fr_height before
     \<and> moved_far (pixel_at before x y) (pixel_at after x y)}"

lemma surface_change_counts:
  assumes "frame_ok before" "frame_ok after" "fr_width after = fr_width before" "fr_height after = fr_height before"
  shows "surface_change before after = Inr \<lparr>sc_changed_pixels = card (changed_below before after),
    sc_minimum_pixels = max 5000 (fr_width before * fr_height before div 100)\<rparr>"
proof -
  let ?h = "fr_height before" and ?w = "fr_width before"
  let ?moved = "\<lambda>y. {x. x < ?w \<and> moved_far (pixel_at before x y) (pixel_at after x y)}"
  let ?step = "\<lambda>changed i. if row before i \<noteq> row after i
      then map_sum id (\<lambda>n. changed + n) (changed_pixels (row before i) (row after i)) else Inr changed"
  have step: "?step k y = Inr (k + card (?moved y))" if y: "y < ?h" for k y
  proof -
    have "length (row before y) = 3 * ?w" "length (row after y) = 3 * ?w"
      using y assms by (simp_all add: length_row)
    from changed_pixels_count [OF this] have "changed_pixels (row before y) (row after y) =
        Inr (card {x. x < ?w \<and> pixel_changed (row before y) (row after y) x})" .
    moreover have "{x. x < ?w \<and> pixel_changed (row before y) (row after y) x} = ?moved y"
      using y assms by (auto simp: pixel_changed_at)
    moreover have "?moved y = {}" if "row before y = row after y"
      using y assms that by (auto simp: pixel_changed_at [symmetric] pixel_changed_def CHANGE_def)
    ultimately show ?thesis by simp
  qed
  have "rfold ?step k ys = Inr (k + (\<Sum>y \<leftarrow> ys. card (?moved y)))" if "\<forall>y \<in> set ys. y < ?h" for k ys
    using that by (induction ys arbitrary: k) (simp_all add: step)
  moreover have "(\<Sum>y \<leftarrow> [min 40 ?h..<?h]. card (?moved y)) = card (changed_below before after)"
  proof -
    have "card (changed_below before after) = card (\<Union>y \<in> {min 40 ?h..<?h}. (\<lambda>x. (x, y)) ` ?moved y)"
      by (rule arg_cong [where f = card]) (auto simp: changed_below_def)
    also have "\<dots> = (\<Sum>y \<in> {min 40 ?h..<?h}. card ((\<lambda>x. (x, y)) ` ?moved y))"
      by (rule card_UN_disjoint) auto
    also have "\<dots> = (\<Sum>y \<in> {min 40 ?h..<?h}. card (?moved y))"
      by (intro sum.cong refl card_image) (auto simp: inj_on_def)
    finally show ?thesis by (simp add: interv_sum_list_conv_sum_set_nat)
  qed
  ultimately show ?thesis
    using assms(3,4) by (simp add: surface_change_def TOP_BAR_ROWS_def MINIMUM_CHANGED_def CHANGED_SHARE_def)
qed

end
