(* ===== verification/CommandLine.thy ===== *)
theory CommandLine
  imports Machines
begin

section \<open>The devices and the command line of a machine, specified apart\<close>

text \<open>
  Two specifications that do not mention how a description is put together or rendered. \<open>belongs q d\<close>
  says of each device whether the request \<open>q\<close> has it, and \<open>place\<close> where it stands; together they
  fix the devices of a description. \<open>ROWS\<close> lists every argument of a command line: an option, and
  the comma separated parts of its value, each a fixed text, a path of the description after a
  fixed text, or a number between two fixed texts.
\<close>

subsection \<open>The devices of a description\<close>

fun belongs :: "vm_request \<Rightarrow> qemu_device \<Rightarrow> bool" where
  "belongs q (Machine m) \<longleftrightarrow> mc_processors m = vr_processors (rq_resources q) \<and> mc_memory m = vr_memory (rq_resources q)"
| "belongs q (Firmware f) \<longleftrightarrow> f = rq_firmware q"
| "belongs q Display \<longleftrightarrow> True"
| "belongs q (Monitor m) \<longleftrightarrow> m = rq_monitor q"
| "belongs q (Serial s) \<longleftrightarrow> s = rq_serial q"
| "belongs q (RootDisk path discard_unmap) \<longleftrightarrow> path = rq_root_disk q \<and> (discard_unmap \<longleftrightarrow> rq_role q = BUILDER)"
| "belongs q (ExtraDisk x) \<longleftrightarrow>
     1 \<le> xd_index x \<and> xd_index x \<le> length (rq_extra_disks q) \<and> xd_path x = rq_extra_disks q ! (xd_index x - 1)"
| "belongs q (Cdrom path) \<longleftrightarrow> rq_seed q = Some path"
| "belongs q (Usb c) \<longleftrightarrow> rq_usb q = Some c"
| "belongs q (UsbStorage u) \<longleftrightarrow> rq_boot_usb q = Some u"
| "belongs q (Net n) \<longleftrightarrow> rq_network q = Some n"
| "belongs q NoNetwork \<longleftrightarrow> rq_network q = None"
| "belongs q BootFromCdrom \<longleftrightarrow> rq_boot_from_cdrom q"

fun place :: "qemu_device \<Rightarrow> nat" where
  "place (Machine m) = 0"
| "place Display = 1"
| "place (Monitor m) = 2"
| "place (Serial s) = 3"
| "place (Firmware f) = 4"
| "place (RootDisk path discard_unmap) = 5"
| "place (Cdrom path) = 6"
| "place (Usb c) = 7"
| "place (ExtraDisk x) = 10 + xd_index x"
| "place (UsbStorage u) = 20"
| "place (Net n) = 21"
| "place NoNetwork = 21"
| "place BootFromCdrom = 22"

definition in_place :: "qemu_device list \<Rightarrow> bool" where
  "in_place devices \<longleftrightarrow> sorted_wrt (\<lambda>d e. place d < place e) devices"

lemma ascending_unique:
  fixes f :: "'a \<Rightarrow> nat"
  assumes "sorted_wrt (\<lambda>x y. f x < f y) xs" "sorted_wrt (\<lambda>x y. f x < f y) ys" "set xs = set ys"
  shows "xs = ys"
proof -
  have s: "sorted_wrt (<) (map f xs)" "sorted_wrt (<) (map f ys)" using assms(1,2) by (simp_all add: sorted_wrt_map)
  then have "map f xs = map f ys" using assms(3) by (intro strict_sorted_equal) simp_all
  moreover have "inj_on f (set xs \<union> set ys)"
    using s(1) assms(3) by (simp add: strict_sorted_iff distinct_map)
  ultimately show ?thesis by (rule map_inj_on)
qed

lemma extra_disk_belongs:
  "ExtraDisk x \<in> set (map (\<lambda>(index, path). ExtraDisk \<lparr>xd_path = path, xd_index = index\<rparr>) (zip [1..<length ps + 1] ps)) \<longleftrightarrow>
     1 \<le> xd_index x \<and> xd_index x \<le> length ps \<and> xd_path x = ps ! (xd_index x - 1)"
proof -
  have "(n, p) \<in> set (zip [1..<length ps + 1] ps) \<longleftrightarrow> 1 \<le> n \<and> n \<le> length ps \<and> p = ps ! (n - 1)" for n p
    by (auto simp: in_set_zip simp del: upt_Suc intro!: exI [of _ "n - 1"])
  moreover have "ExtraDisk x = ExtraDisk \<lparr>xd_path = p, xd_index = n\<rparr> \<longleftrightarrow> n = xd_index x \<and> p = xd_path x" for n p
    by (cases x) auto
  moreover have "ExtraDisk x \<in> set (map (\<lambda>(index, path). ExtraDisk \<lparr>xd_path = path, xd_index = index\<rparr>) zs) \<longleftrightarrow>
      (\<exists>n p. (n, p) \<in> set zs \<and> ExtraDisk x = ExtraDisk \<lparr>xd_path = p, xd_index = n\<rparr>)" for zs by force
  ultimately show ?thesis by (simp del: upt_Suc)
qed

lemma devices_belong: "d \<in> set (devices_of q) \<longleftrightarrow> belongs q d"
proof (cases d)
  case (ExtraDisk x)
  then have "d \<in> set (devices_of q) \<longleftrightarrow>
      ExtraDisk x \<in> set (map (\<lambda>(index, path). ExtraDisk \<lparr>xd_path = path, xd_index = index\<rparr>) (zip [1..<length (rq_extra_disks q) + 1] (rq_extra_disks q)))"
    by (auto simp: devices_of_def split: option.splits)
  then show ?thesis unfolding extra_disk_belongs by (simp add: ExtraDisk)
next
  case (Machine m)
  then show ?thesis by (cases m) (auto simp: devices_of_def split: option.splits)
qed (auto simp: devices_of_def split: option.splits)

lemma extra_disks_in_place:
  fixes ps :: "safe_path list"
  assumes "length ps \<le> 2"
  defines "xs \<equiv> map (\<lambda>(index, path). ExtraDisk \<lparr>xd_path = path, xd_index = index\<rparr>) (zip [1..<length ps + 1] ps)"
  shows "in_place xs \<and> (\<forall>d \<in> set xs. 10 < place d \<and> place d < 20)"
proof -
  consider "ps = []" | a where "ps = [a]" | a b where "ps = [a, b]"
    using assms(1) by (cases ps; cases "tl ps"; cases "tl (tl ps)") auto
  then show ?thesis by cases (simp_all add: xs_def in_place_def)
qed

lemma devices_in_place:
  assumes "length (rq_extra_disks q) \<le> 2"
  shows "in_place (devices_of q)"
proof -
  define xs where "xs = map (\<lambda>(index, path). ExtraDisk \<lparr>xd_path = path, xd_index = index\<rparr>)
      (zip [1..<length (rq_extra_disks q) + 1] (rq_extra_disks q))"
  have b: "10 < place d \<and> place d < 20" if "d \<in> set xs" for d
    using extra_disks_in_place [OF assms] that unfolding xs_def by blast
  have x: "sorted_wrt (\<lambda>d e. place d < place e) xs"
    using extra_disks_in_place [OF assms] unfolding xs_def in_place_def by blast
  show ?thesis
    unfolding in_place_def devices_of_def xs_def [symmetric]
    by (cases "rq_seed q"; cases "rq_usb q"; cases "rq_boot_usb q"; cases "rq_network q"; cases "rq_boot_from_cdrom q")
      (auto simp: sorted_wrt_append x dest!: b)
qed

text \<open>A list of devices in their places that holds what belongs to a request is the list of its devices.\<close>

lemma devices_specified:
  assumes "length (rq_extra_disks q) \<le> 2"
  shows "devices = devices_of q \<longleftrightarrow> (\<forall>d. d \<in> set devices \<longleftrightarrow> belongs q d) \<and> in_place devices"
  using devices_belong devices_in_place [OF assms] ascending_unique [of place devices "devices_of q"]
  by (auto simp: in_place_def)

subsection \<open>The arguments of a command line\<close>

datatype part =
    Fixed str
  | Path str          \<comment> \<open>a path of the description after this text\<close>
  | Number str str    \<comment> \<open>a number between these texts\<close>

fun part_matches :: "str list \<Rightarrow> part \<Rightarrow> str \<Rightarrow> bool" where
  "part_matches paths (Fixed t) s \<longleftrightarrow> s = t"
| "part_matches paths (Path t) s \<longleftrightarrow> (\<exists>p \<in> set paths. s = t @ p)"
| "part_matches paths (Number t u) s \<longleftrightarrow> (\<exists>i. s = t @ str_of_int i @ u)"

definition ROWS :: "(str \<times> part list) list" where
  "ROWS =
     [(''-name'', [Fixed ''apex-builder'']), (''-name'', [Fixed ''apex-test'']),
      (''-machine'', [Fixed ''q35'', Fixed ''accel=kvm'']), (''-cpu'', [Fixed ''host'']),
      (''-smp'', [Number [] []]), (''-m'', [Number [] []]),
      (''-drive'', [Fixed ''if=pflash'', Fixed ''format=raw'', Fixed ''readonly=on'', Path ''file='']),
      (''-drive'', [Fixed ''if=pflash'', Fixed ''format=raw'', Path ''file='']),
      (''-drive'', [Fixed ''if=virtio'', Fixed ''format=qcow2'', Path ''file='']),
      (''-drive'', [Fixed ''if=virtio'', Fixed ''format=qcow2'', Path ''file='', Fixed ''discard=unmap'']),
      (''-drive'', [Fixed ''if=none'', Number ''id=apex-other-'' [], Fixed ''format=qcow2'', Path ''file='']),
      (''-drive'', [Path ''file='', Fixed ''format=raw'', Fixed ''media=cdrom'', Fixed ''readonly=on'']),
      (''-drive'', [Fixed ''if=none'', Fixed ''id=apex-boot-usb'', Fixed ''format=qcow2'', Path ''file='']),
      (''-display'', [Fixed ''none'']), (''-vga'', [Fixed ''none'']), (''-monitor'', [Fixed ''none'']),
      (''-qmp'', [Path ''unix:'', Fixed ''server=on'', Fixed ''wait=off'']),
      (''-serial'', [Path ''file:'']), (''-serial'', [Fixed ''chardev:apex-serial'']),
      (''-chardev'', [Fixed ''socket'', Fixed ''id=apex-serial'', Path ''path='', Fixed ''server=on'', Fixed ''wait=off'',
         Path ''logfile='', Fixed ''logappend=on'']),
      (''-device'', [Fixed ''virtio-vga'']),
      (''-device'', [Fixed ''virtio-blk-pci'', Number ''drive=apex-other-'' [], Number ''serial=apex-other-'' []]),
      (''-device'', [Fixed ''qemu-xhci'', Fixed ''id=apex-usb'']),
      (''-device'', [Fixed ''usb-storage'', Fixed ''bus=apex-usb.0'', Fixed ''drive=apex-boot-usb'',
         Fixed ''serial=apex-ventoy-fixture'']),
      (''-device'', [Fixed ''usb-storage'', Fixed ''bus=apex-usb.0'', Fixed ''drive=apex-boot-usb'',
         Fixed ''serial=apex-ventoy-fixture'', Fixed ''bootindex=1'']),
      (''-device'', [Fixed ''virtio-net-pci'', Fixed ''netdev=net0'']),
      (''-netdev'', [Fixed ''user'', Fixed ''id=net0'', Number ''hostfwd=tcp:127.0.0.1:'' ''-:22'']),
      (''-netdev'', [Fixed ''user'', Fixed ''id=net0'', Fixed ''restrict=on'', Number ''hostfwd=tcp:127.0.0.1:'' ''-:22'']),
      (''-nic'', [Fixed ''none'']), (''-boot'', [Fixed ''order=d''])]"

text \<open>An option with its value is a row; a command line is options with their values, in turn.\<close>

definition rows_for :: "str \<Rightarrow> part list list" where
  "rows_for option_name = map snd (filter (\<lambda>row. fst row = option_name) ROWS)"

definition argument_listed :: "str list \<Rightarrow> str \<Rightarrow> str \<Rightarrow> bool" where
  "argument_listed paths option_name v \<longleftrightarrow>
     list_ex (\<lambda>parts. list_all2 (part_matches paths) parts (split_on CHR '','' v)) (rows_for option_name)"

fun all_listed :: "str list \<Rightarrow> str list \<Rightarrow> bool" where
  "all_listed paths [] \<longleftrightarrow> True"
| "all_listed paths [option_name] \<longleftrightarrow> False"
| "all_listed paths (option_name # v # rest) \<longleftrightarrow> argument_listed paths option_name v \<and> all_listed paths rest"

fun device_paths :: "qemu_device \<Rightarrow> safe_path list" where
  "device_paths (Firmware f) = [fw_code f, fw_variables f]"
| "device_paths (Monitor m) = [monitor_path m]"
| "device_paths (Serial (SerialFile p)) = [p]"
| "device_paths (Serial (SerialSocket p l)) = [p, l]"
| "device_paths (RootDisk p d) = [p]"
| "device_paths (ExtraDisk x) = [xd_path x]"
| "device_paths (Cdrom p) = [p]"
| "device_paths (UsbStorage u) = [us_path u]"
| "device_paths _ = []"

definition spec_paths :: "vm_spec \<Rightarrow> safe_path list" where
  "spec_paths s = concat (map device_paths (vm_devices s))"

definition plain_path :: "safe_path \<Rightarrow> bool" where
  "plain_path p \<longleftrightarrow> mk_safe_path (safe_path_str p) = Inr p"

lemma plain_path_iff: "plain_path p \<longleftrightarrow> CHR '','' \<notin> set (safe_path_str p)"
  by (cases p) (simp add: plain_path_def)

lemma all_listed_append: "all_listed paths xs \<Longrightarrow> all_listed paths ys \<Longrightarrow> all_listed paths (xs @ ys)"
  by (induction paths xs rule: all_listed.induct) auto

lemma all_listed_concat: "\<forall>xs \<in> set xss. all_listed paths xs \<Longrightarrow> all_listed paths (concat xss)"
  by (induction xss) (simp_all add: all_listed_append)

lemma number_plain: "CHR '','' \<notin> set (str_of_nat n)" "CHR '','' \<notin> set (str_of_int i)"
  using str_of_nat_digits [of "CHR '',''"]
  by (auto simp: str_of_int_def is_digit_def split: if_splits)

lemma number_nat: "str_of_nat n = str_of_int (int n)"
  by (simp add: str_of_int_def)

text \<open>The rows of each option.\<close>

lemma rows_for_simps:
  "rows_for ''-name'' =
     [[Fixed ''apex-builder''],
      [Fixed ''apex-test'']]"
  "rows_for ''-machine'' =
     [[Fixed ''q35'', Fixed ''accel=kvm'']]"
  "rows_for ''-cpu'' =
     [[Fixed ''host'']]"
  "rows_for ''-smp'' =
     [[Number [] []]]"
  "rows_for ''-m'' =
     [[Number [] []]]"
  "rows_for ''-drive'' =
     [[Fixed ''if=pflash'', Fixed ''format=raw'', Fixed ''readonly=on'', Path ''file=''],
      [Fixed ''if=pflash'', Fixed ''format=raw'', Path ''file=''],
      [Fixed ''if=virtio'', Fixed ''format=qcow2'', Path ''file=''],
      [Fixed ''if=virtio'', Fixed ''format=qcow2'', Path ''file='', Fixed ''discard=unmap''],
      [Fixed ''if=none'', Number ''id=apex-other-'' [], Fixed ''format=qcow2'', Path ''file=''],
      [Path ''file='', Fixed ''format=raw'', Fixed ''media=cdrom'', Fixed ''readonly=on''],
      [Fixed ''if=none'', Fixed ''id=apex-boot-usb'', Fixed ''format=qcow2'', Path ''file='']]"
  "rows_for ''-display'' =
     [[Fixed ''none'']]"
  "rows_for ''-vga'' =
     [[Fixed ''none'']]"
  "rows_for ''-monitor'' =
     [[Fixed ''none'']]"
  "rows_for ''-qmp'' =
     [[Path ''unix:'', Fixed ''server=on'', Fixed ''wait=off'']]"
  "rows_for ''-serial'' =
     [[Path ''file:''],
      [Fixed ''chardev:apex-serial'']]"
  "rows_for ''-chardev'' =
     [[Fixed ''socket'', Fixed ''id=apex-serial'', Path ''path='', Fixed ''server=on'', Fixed ''wait=off'', Path ''logfile='', Fixed ''logappend=on'']]"
  "rows_for ''-device'' =
     [[Fixed ''virtio-vga''],
      [Fixed ''virtio-blk-pci'', Number ''drive=apex-other-'' [], Number ''serial=apex-other-'' []],
      [Fixed ''qemu-xhci'', Fixed ''id=apex-usb''],
      [Fixed ''usb-storage'', Fixed ''bus=apex-usb.0'', Fixed ''drive=apex-boot-usb'', Fixed ''serial=apex-ventoy-fixture''],
      [Fixed ''usb-storage'', Fixed ''bus=apex-usb.0'', Fixed ''drive=apex-boot-usb'', Fixed ''serial=apex-ventoy-fixture'', Fixed ''bootindex=1''],
      [Fixed ''virtio-net-pci'', Fixed ''netdev=net0'']]"
  "rows_for ''-netdev'' =
     [[Fixed ''user'', Fixed ''id=net0'', Number ''hostfwd=tcp:127.0.0.1:'' ''-:22''],
      [Fixed ''user'', Fixed ''id=net0'', Fixed ''restrict=on'', Number ''hostfwd=tcp:127.0.0.1:'' ''-:22'']]"
  "rows_for ''-nic'' =
     [[Fixed ''none'']]"
  "rows_for ''-boot'' =
     [[Fixed ''order=d'']]"
  by code_simp+

lemmas listed_simps = argument_listed_def rows_for_simps

lemmas row_simps = listed_simps split_on_no_sep split_on_append_sep number_plain plain_path_iff

lemma device_listed:
  assumes "render_device d = Inr args" "list_all plain_path (device_paths d)" "safe_path_str ` set (device_paths d) \<subseteq> set paths"
  shows "all_listed paths args"
proof (cases d)
  case (Machine m)
  with assms show ?thesis by (auto simp: render_machine_def row_simps)
next
  case (Firmware f)
  with assms show ?thesis by (auto simp: render_firmware_def row_simps split: if_splits)
next
  case Display
  with assms show ?thesis by (auto simp: render_display_def row_simps)
next
  case (Monitor m)
  with assms show ?thesis by (auto simp: render_monitor_def row_simps)
next
  case (Serial s)
  with assms show ?thesis by (cases s) (auto simp: row_simps SERIAL_CHARDEV_def)
next
  case (RootDisk p b)
  with assms show ?thesis by (auto simp: render_root_disk_def row_simps)
next
  case (ExtraDisk x)
  with assms show ?thesis by (auto simp: render_extra_disk_def Let_def row_simps number_nat)
next
  case (Cdrom p)
  with assms show ?thesis by (auto simp: render_cdrom_def row_simps)
next
  case (Usb c)
  with assms show ?thesis by (auto simp: render_usb_controller_def USB_CONTROLLER_def USB_BUS_def row_simps)
next
  case (UsbStorage u)
  with assms show ?thesis by (auto simp: render_usb_storage_def USB_ROOT_PORT_def USB_BUS_def row_simps)
next
  case (Net n)
  with assms show ?thesis by (auto simp: render_net_def LOOPBACK_def tcp_port_str_def Let_def row_simps)
next
  case NoNetwork
  with assms show ?thesis by (auto simp: row_simps)
next
  case BootFromCdrom
  with assms show ?thesis by (auto simp: row_simps)
qed

lemma vm_arguments_listed:
  assumes "vm_render s = Inr a" "list_all plain_path (spec_paths s)"
  shows "\<exists>rest. argv_arguments a = ''qemu-system-x86_64'' # rest \<and> all_listed (map safe_path_str (spec_paths s)) rest"
proof -
  let ?paths = "map safe_path_str (spec_paths s)"
  from assms(1) obtain rendered where r: "rmapM render_device (vm_devices s) = Inr rendered"
    "argv_arguments a = ''qemu-system-x86_64'' # [''-name'', ''apex-'' @ vm_role_value (vm_role s)] @ concat rendered"
    by (auto simp: vm_render_def rbind_eq_Inr argv_of_def QEMU_PROGRAM_def)
  have "all_listed ?paths args" if "args \<in> set rendered" for args
  proof -
    from r(1) that obtain d where d: "d \<in> set (vm_devices s)" "render_device d = Inr args"
      by (blast dest: rmapM_produced)
    with assms(2) have "list_all plain_path (device_paths d)" "safe_path_str ` set (device_paths d) \<subseteq> set ?paths"
      by (auto simp: spec_paths_def list_all_iff)
    with device_listed [OF d(2)] show ?thesis by blast
  qed
  moreover have "all_listed ?paths [''-name'', ''apex-'' @ vm_role_value (vm_role s)]"
    by (cases "vm_role s") (simp_all add: row_simps)
  ultimately have "all_listed ?paths ([''-name'', ''apex-'' @ vm_role_value (vm_role s)] @ concat rendered)"
    by (intro all_listed_append all_listed_concat) blast+
  with r(2) show ?thesis by blast
qed

end
