(* ===== verification/MachineTheorems.thy ===== *)
theory MachineTheorems
  imports Bench Screens CommandLine JsonBound
begin

section \<open>Properties of the machine and of its screen\<close>

text \<open>
  What the calls of a host lead to on the bench of fakes, which machines are assembled and what their command line
  may hold, and that waiting ends; the witnesses run one machine.
\<close>

subsection \<open>A bench to try things on\<close>

definition ex_machine_host :: host where
  "ex_machine_host = \<lparr>host_expand = id, host_resolve = id, host_is_symlink = (\<lambda>p. False),
     host_is_dir = (\<lambda>p. True), host_is_file = (\<lambda>p. True), host_mode = (\<lambda>p. 448)\<rparr>"

definition ex_request :: vm_request where
  "ex_request =
     \<lparr>rq_role = TEST, rq_resources = \<lparr>vr_memory = Mib 4096, vr_processors = 4\<rparr>, rq_root_disk = SafePath ''/r/d'',
      rq_firmware = \<lparr>fw_code = SafePath ''/c'', fw_variables = SafePath ''/v'', fw_code_read_only = True\<rparr>,
      rq_monitor = MonitorSocket (SafePath ''/r/qmp.sock''), rq_serial = SerialFile (SafePath ''/r/s''),
      rq_extra_disks = [], rq_seed = None, rq_network = None, rq_usb = None, rq_boot_usb = None,
      rq_boot_from_cdrom = False\<rparr>"

definition ex_spec :: vm_spec where
  "ex_spec = \<lparr>vm_role = TEST, vm_resources = rq_resources ex_request, vm_devices = devices_of ex_request, vm_extra_disks = []\<rparr>"

definition ex_run :: run_id where
  "ex_run = HexIdentifier (replicate 32 CHR ''a'')"

definition ex_identity :: vm_identity where
  "ex_identity = \<lparr>vi_process = 1001, vi_pidfd_inode = 2001, vi_boot_ticks = 11, vi_monitor_socket_inode = 3001\<rparr>"

text \<open>A guest that halts when it is told to.\<close>

definition ex_monitor :: scripted_qmp where
  "ex_monitor = qmp_react ''system_powerdown'' (qemu_exit ex_identity) (qmp_new [(''system_powerdown'', JObj [])] True)"

definition ex_bench :: bench where
  "ex_bench = bench_new AMPLE ex_monitor"

text \<open>The days before the year \<open>n + 1\<close>.\<close>

definition days_before :: "nat \<Rightarrow> nat" where
  "days_before n = 365 * n + n div 4 + n div 400 - n div 100"

lemma days_before_Suc: "days_before (Suc n) = days_before n + year_length (Suc n)"
proof -
  have step: "Suc n div k = n div k + (if k dvd Suc n then 1 else 0)" for k
    by (simp add: div_Suc dvd_eq_mod_eq_0)
  have le: "n div 100 \<le> n div 4" by (simp add: div_le_mono2)
  have d: "400 dvd Suc n \<Longrightarrow> 100 dvd Suc n" "100 dvd Suc n \<Longrightarrow> 4 dvd Suc n" by presburger+
  show ?thesis
    unfolding days_before_def year_length_def is_leap_def step
    using le d by (cases "4 dvd Suc n"; cases "100 dvd Suc n"; cases "400 dvd Suc n") (simp_all add: algebra_simps)
qed

lemma year_of_days_before: "year_of (days_before n + d) 1 = year_of d (Suc n)"
proof (induction n arbitrary: d)
  case (Suc n)
  have "year_of (days_before (Suc n) + d) 1 = year_of (days_before n + (year_length (Suc n) + d)) 1"
    by (simp add: days_before_Suc ac_simps)
  also have "\<dots> = year_of (year_length (Suc n) + d) (Suc n)" by (rule Suc.IH)
  also have "\<dots> = year_of d (Suc (Suc n))" by (subst year_of.simps) (simp add: year_length_def)
  finally show ?case .
qed (simp add: days_before_def)

lemma year_2026: "year_of 739616 (Suc 0) = (2026, 0)"
proof -
  have "year_of 0 2026 = (2026, 0)" by (subst year_of.simps) (simp add: year_length_def is_leap_def)
  with year_of_days_before [of 2025 0] show ?thesis by (simp add: days_before_def)
qed

lemma first_stamp: "isoformat 739617 0 = ''2026-01-01T00:00:00+00:00''"
  by (simp add: isoformat_def year_2026 month_lengths_def padded_def zfill_def str_of_nat.simps digit_char_def char_of_def bit_0)
lemma ex_root:
  "root_child ex_machine_host (RuntimeRoot ''/r'') LEASE_NAME = Inr (SafePath ''/r/machine.json'')"
  "root_child ex_machine_host (RuntimeRoot ''/r'') INTENT_NAME = Inr (SafePath ''/r/machine-intent.json'')"
  "root_child ex_machine_host (RuntimeRoot ''/r'') MONITOR_SOCKET_NAME = Inr (SafePath ''/r/qmp.sock'')"
  "safe_path_div (SafePath ''/r/w'') HYPERVISOR_LOG_NAME = Inr (SafePath ''/r/w/qemu.log'')"
  "safe_path_div (SafePath ''/r/w'') LEASE_NAME = Inr (SafePath ''/r/w/machine.json'')"
  by (simp_all add: root_child_Inr ex_machine_host_def LEASE_NAME_def INTENT_NAME_def MONITOR_SOCKET_NAME_def
      HYPERVISOR_LOG_NAME_def path_join_def starts_with_def ends_with_def suffix_def is_relative_to_def safe_path_div_def)

definition ex_command :: "str list" where
  "ex_command = [''qemu-system-x86_64'', ''-name'', ''apex-test'', ''-machine'', ''q35,accel=kvm'', ''-cpu'', ''host'',
     ''-smp'', ''4'', ''-m'', ''4096'', ''-display'', ''none'', ''-vga'', ''none'', ''-device'', ''virtio-vga'', ''-monitor'',
     ''none'', ''-qmp'', ''unix:/r/qmp.sock,server=on,wait=off'', ''-serial'', ''file:/r/s'', ''-drive'',
     ''if=pflash,format=raw,readonly=on,file=/c'', ''-drive'', ''if=pflash,format=raw,file=/v'', ''-drive'',
     ''if=virtio,format=qcow2,file=/r/d'', ''-nic'', ''none'']"

lemma ex_render: "map_sum id argv_arguments (vm_render ex_spec) = Inr ex_command"
  by (simp add: vm_render_def ex_spec_def ex_request_def devices_of_def render_machine_def render_firmware_def render_display_def render_monitor_def render_root_disk_def QEMU_PROGRAM_def argv_of_def ex_command_def str_of_int_def str_of_nat.simps digit_char_def char_of_def bit_0)


definition ex_intent :: machine_intent where
  "ex_intent = \<lparr>mi_role = TEST, mi_run = ex_run, mi_run_directory = SafePath ''/r/w'', mi_monitor = SafePath ''/r/qmp.sock'',
     mi_command = Argv ex_command, mi_written_at = ''2026-01-01T00:00:00+00:00'', mi_witness = SIMULATED\<rparr>"

definition ex_lease :: machine_lease where
  "ex_lease = \<lparr>ml_intent = ex_intent,
     ml_identity = ex_identity, ml_released = False\<rparr>"

lemma bench_write:
  "write_document (mp_files bench_ports) (Inr q) d w
     = (bn_files_update (\<lambda>f. fst (memory_write_atomic q (document_bytes d) DEFAULT_RECORD_MODE f)) w, Inr ())"
  by (simp add: write_document_def bench_ports_def files_inside_def inside_def memory_port_def memory_write_atomic_def Let_def io_bind_def)

lemma ex_rendered: "vm_render ex_spec = Inr (Argv ex_command)"
  using ex_render by (cases "vm_render ex_spec"; cases "projr (vm_render ex_spec)") auto

lemma ex_unleased: "require_no_machine bench_ports ex_machine_host (RuntimeRoot ''/r'') (bn_locks_update k ex_bench) = (bn_locks_update k ex_bench, Inr ())"
  by (simp add: require_no_machine_def current_lease_def read_lease_def read_object_def ex_root bench_ports_def files_inside_def
      inside_def memory_port_def memory_exists_def memory_has_def memory_canonical_def ex_bench_def bench_new_def memory_new_def
      io_bind_def parsed_option_def dict_has_def Let_def numeral_2_eq_2)

lemma ex_capacity: "require_capacity bench_ports (RuntimeRoot ''/r'') (vm_resources ex_spec) (bn_locks_update k ex_bench) = (bn_locks_update k ex_bench, Inr ())"
  by (simp add: require_capacity_def bench_ports_def on_qemu_def inside_def qemu_capacity_def ex_bench_def bench_new_def qemu_new_def
      AMPLE_def ex_spec_def ex_request_def BUILDER_DEFAULTS_def mk_mib_def gib_as_bytes_def TEST_MACHINE_MINIMUM_FREE_def io_bind_def
      mk_byte_count_def gib_bytes_def BYTES_PER_GIBIBYTE_def)

lemma ex_stamp: "cp_stamp (mp_clock bench_ports) (bn_locks_update k ex_bench) = (bn_locks_update k ex_bench, Inr ''2026-01-01T00:00:00+00:00'')"
  by (simp add: bench_ports_def on_clock_def inside_def manual_stamp_def ex_bench_def bench_new_def EPOCH_def round_half_even_def
      FIXED_ORIGIN_def DAY_MICROSECONDS_def MAXIMUM_ORDINAL_def first_stamp)


lemma bench_acquire:
  "ml_held (bn_locks w) = [] \<Longrightarrow> \<exists>k. lk_acquire (mp_locks bench_ports) scope pol w
     = (bn_locks_update (\<lambda>_. (bn_locks w)\<lparr>ml_issued := ml_issued (bn_locks w) + 1, ml_held := [(scope_name scope, k)]\<rparr>) w,
        Inr \<lparr>ll_scope = scope, ll_holder = k\<rparr>)"
  by (simp add: bench_ports_def on_locks_def inside_def locks_acquire_def Let_def)

lemma bench_content_write [simp]:
  "bench_content (bn_files_update (\<lambda>f. fst (memory_write_atomic p b m (g f))) w)
     = (bench_content (bn_files_update g w))(p \<mapsto> b)"
  by (simp add: bench_content_def memory_write_atomic_def note_write_def fresh_inode_def store_file_def Let_def
      memory_content_def fun_eq_iff safe_path.expand)

lemma ex_spawn:
  assumes "bn_qemu v = bn_qemu ex_bench"
  shows "hv_spawn (mp_hypervisor bench_ports) ex_spec (SafePath ''/r/qmp.sock'') l MONITOR_APPEARS v
    = (bn_qemu_update (\<lambda>_. fst (qemu_spawn ex_spec (SafePath ''/r/qmp.sock'') l MONITOR_APPEARS (bn_qemu ex_bench))) v,
       Inr (ml_identity ex_lease))"
    "qemu_alive (fst (qemu_spawn ex_spec (SafePath ''/r/qmp.sock'') l MONITOR_APPEARS (bn_qemu ex_bench))) = {ml_identity ex_lease}"
  using assms by (auto simp: bench_ports_def on_qemu_def inside_def qemu_spawn_def Let_def ex_bench_def bench_new_def
      qemu_new_def ex_lease_def ex_identity_def MONITOR_APPEARS_def seconds_deadline_def qemu_alive_def)

lemma ex_launch:
  "\<exists>w. launch bench_ports ex_machine_host (RuntimeRoot ''/r'') ex_spec ex_run (SafePath ''/r/w'') None ex_bench = (w, Inr ex_lease)
     \<and> bench_content w (SafePath ''/r/machine.json'') = Some (document_bytes (lease_document ex_lease))
     \<and> bench_alive w = {ml_identity ex_lease} \<and> ml_held (bn_locks w) = [] \<and> bn_monitor w = bn_monitor ex_bench"
proof -
  have env: "hv_environment (mp_hypervisor bench_ports) = SIMULATED" by (simp add: bench_ports_def)
  have rel: "lk_release (mp_locks bench_ports) k v = (bn_locks_update (\<lambda>l. l\<lparr>ml_held := AList.delete (scope_name (ll_scope k)) (ml_held l)\<rparr>) v, Inr ())" for k v
    by (simp add: bench_ports_def on_locks_def inside_def locks_release_def)
  have held: "ml_held (bn_locks ex_bench) = []" by (simp add: ex_bench_def bench_new_def locks_new_def)
  from bench_acquire [OF held, of MACHINE immediate] obtain k where
    k: "lk_acquire (mp_locks bench_ports) MACHINE immediate ex_bench
     = (bn_locks_update (\<lambda>_. (bn_locks ex_bench)\<lparr>ml_issued := ml_issued (bn_locks ex_bench) + 1, ml_held := [(scope_name MACHINE, k)]\<rparr>) ex_bench,
        Inr \<lparr>ll_scope = MACHINE, ll_holder = k\<rparr>)" by blast
  have intent: "\<lparr>mi_role = vm_role ex_spec, mi_run = ex_run, mi_run_directory = SafePath ''/r/w'', mi_monitor = SafePath ''/r/qmp.sock'',
      mi_command = Argv ex_command, mi_written_at = ''2026-01-01T00:00:00+00:00'', mi_witness = SIMULATED\<rparr> = ex_intent"
    by (simp add: ex_intent_def ex_spec_def)
  have lease: "\<lparr>ml_intent = ex_intent, ml_identity = ml_identity ex_lease, ml_released = False\<rparr> = ex_lease"
    by (simp add: ex_lease_def)
  have dir: "mi_run_directory (ml_intent ex_lease) = SafePath ''/r/w''" by (simp add: ex_lease_def ex_intent_def)
  show ?thesis
    by (simp add: launch_def locked_def io_finally_def io_bind_def k ex_unleased ex_capacity ex_root ex_rendered ex_stamp
        write_intent_def write_lease_def io_then_def bench_write witness_of_def env rel ex_spawn Let_def intent lease dir comp_def)
qed

lemma ex_intent_ok: "intent_ok ex_intent"
  by (simp add: intent_ok_def ex_intent_def ex_run_def hex_identifier_ok_def path_ok_def path_text_def path_root_def
      starts_with_def is_ascii_def byte_of_def ex_command_def is_hex_def list_all_iff)

lemma ex_lease_fits: "lease_fits ex_lease"
proof -
  have weigh: "length (document_bytes (lease_document l)) \<le> weight (lease_document l) + 1" if "intent_ok (ml_intent l)" for l
    using canonical_length [OF plain_lease [OF that]] by (simp add: document_bytes_def)
  have i: "ml_intent ex_lease = ex_intent" by (simp add: ex_lease_def)
  have "weight (lease_document ex_lease) < 1000000" "weight (lease_document (release ex_lease)) < 1000000"
    by (simp_all add: lease_document_def lease_members_def intent_document_def intent_members_def identity_members_def
        ex_lease_def ex_identity_def ex_intent_def ex_command_def ex_run_def release_def LEASE_SCHEMA_def str_of_int_def str_of_nat.simps)
  with weigh [of ex_lease] weigh [of "release ex_lease"] ex_intent_ok i show ?thesis
    by (simp add: lease_fits_def DOCUMENT_LIMIT_def)
qed


lemma ex_starts_nothing: "starts_nothing (bn_monitor ex_bench)"
  using qemu_alive_exit [of ex_identity]
  by (auto simp: ex_bench_def bench_new_def starts_nothing_def ex_monitor_def qmp_react_def qmp_new_def qemu_exit_def)

lemma ex_launched:
  "\<exists>w. launch bench_ports ex_machine_host (RuntimeRoot ''/r'') ex_spec ex_run (SafePath ''/r/w'') None ex_bench = (w, Inr ex_lease)
     \<and> bench_guarded (SafePath ''/r/machine.json'') w \<and> bench_alive w = {ml_identity ex_lease} \<and> ml_held (bn_locks w) = []
     \<and> bn_monitor w = bn_monitor ex_bench
     \<and> bench_content w (SafePath ''/r/machine.json'') = Some (document_bytes (lease_document ex_lease))"
proof -
  obtain w where w: "launch bench_ports ex_machine_host (RuntimeRoot ''/r'') ex_spec ex_run (SafePath ''/r/w'') None ex_bench
      = (w, Inr ex_lease)" "bench_alive w = {ml_identity ex_lease}" "ml_held (bn_locks w) = []" "bn_monitor w = bn_monitor ex_bench"
    "bench_content w (SafePath ''/r/machine.json'') = Some (document_bytes (lease_document ex_lease))" using ex_launch by blast
  have "bench_guarded (SafePath ''/r/machine.json'') ex_bench"
    using bench_new_guarded [of "bn_monitor ex_bench"] ex_starts_nothing by (simp add: ex_bench_def bench_new_def)
  with tripleD(1) [OF bench.launch_holds [OF ex_root(1)], of UNIV ex_bench] w(1) ex_root(2)
  have "bench.leased (SafePath ''/r/machine.json'') ex_lease w" by (auto simp: attended_all)
  with w ex_lease_fits show ?thesis by (blast intro: bench.leased_guarded)
qed

lemma ex_stopped:
  assumes "bench_alive w = {ml_identity ex_lease}" "ml_held (bn_locks w) = []" "bn_monitor w = bn_monitor ex_bench"
  shows "\<exists>w'. shutdown bench_ports ex_machine_host ex_lease (RuntimeRoot ''/r'') w = Some (w', Inr STOPPED)"
proof -
  have running: "hv_running (mp_hypervisor bench_ports) i v = (v, Inr (i \<in> bench_alive v))" for i v
    by (simp add: bench_ports_def on_qemu_apply qemu_running_apply bench_alive_def)
  have ask: "\<exists>m. ask_powerdown bench_ports p v = (v\<lparr>bn_qemu := qemu_exit ex_identity (bn_qemu v), bn_monitor := m\<rparr>, Inr ())"
    if "bn_monitor v = bn_monitor ex_bench" for p v
    using that by (simp add: ask_powerdown_def bench_ports_def on_monitor_def inside_def scripted_connect_def scripted_execute_def
        ex_bench_def bench_new_def ex_monitor_def qmp_react_def qmp_new_def POWERDOWN_def io_bind_def io_finally_def Let_def)
      (rule exI, rule refl)
  have now: "cp_now (mp_clock bench_ports) v = (v, Inr (mk_now (bn_clock v)))" for v
    by (simp add: bench_ports_def on_clock_def inside_def manual_now_def)
  have waited: "wait_until (mp_clock bench_ports) (gone bench_ports i) pol v = Some (v, Inr (Elapsed 0))"
    if "i \<notin> bench_alive v" for i v pol
    using that by (simp add: wait_def now io_loop.simps [of _ 0] wait_round_def gone_def running io_bind_def mk_elapsed_def)
  have rel: "lk_release (mp_locks bench_ports) k v
      = (bn_locks_update (\<lambda>l. l\<lparr>ml_held := AList.delete (scope_name (ll_scope k)) (ml_held l)\<rparr>) v, Inr ())" for k v
    by (simp add: bench_ports_def on_locks_def inside_def locks_release_def)
  have dir: "mi_run_directory (ml_intent ex_lease) = SafePath ''/r/w''" by (simp add: ex_lease_def ex_intent_def)
  from bench_acquire [OF assms(2), of MACHINE immediate] obtain f k where
    k: "lk_acquire (mp_locks bench_ports) MACHINE immediate w = (bn_locks_update f w, Inr \<lparr>ll_scope = MACHINE, ll_holder = k\<rparr>)"
    by blast
  from ask [of "bn_locks_update f w" "mi_monitor (ml_intent ex_lease)"] assms(3) obtain m where
    m: "ask_powerdown bench_ports (mi_monitor (ml_intent ex_lease)) (bn_locks_update f w)
      = ((bn_locks_update f w)\<lparr>bn_qemu := qemu_exit ex_identity (bn_qemu w), bn_monitor := m\<rparr>, Inr ())" by auto
  let ?v = "(bn_locks_update f w)\<lparr>bn_qemu := qemu_exit ex_identity (bn_qemu w), bn_monitor := m\<rparr>"
  have "ml_identity ex_lease \<notin> bench_alive ?v"
    using qemu_alive_exit [of ex_identity "bn_qemu w"] by (auto simp: bench_alive_def qemu_exit_def ex_lease_def)
  from waited [OF this] have wt: "wait_until (mp_clock bench_ports) (gone bench_ports (ml_identity ex_lease)) SHUTDOWN ?v
      = Some (?v, Inr (Elapsed 0))" .
  show ?thesis
    using assms(1)
    by (simp add: shutdown_def locked_pio_def pio_bind_def pio_def pio_catch_def pio_finally_def k running m wt io_bind_def
        write_lease_def io_then_def ex_root bench_write dir rel)
qed

subsection \<open>One machine at a time\<close>

text \<open>
  C3. Whatever calls a host makes from an empty bench, in whatever order and whatever they answer,
  at most one machine is alive, and when one is, the lease at the root is not released and names it.
\<close>

theorem one_machine:
  assumes "bench_reaches h rt (bench_new capacity monitor) w" "starts_nothing monitor"
    and "root_child h rt LEASE_NAME = Inr p" "root_child h rt INTENT_NAME \<noteq> Inr p"
  shows "bench_alive w = {} \<or> (\<exists>l. bench_content w p = Some (document_bytes (lease_document l))
    \<and> \<not> ml_released l \<and> bench_alive w = {ml_identity l})"
  by (rule guarded_one [OF reachable_guarded [OF assms(1) bench_new_guarded [OF assms(2)] assms(3,4)]])

theorem one_machine_witness:
  "\<exists>w. bench_reaches ex_machine_host (RuntimeRoot ''/r'') ex_bench w \<and> bench_alive w = {ml_identity ex_lease}
     \<and> (bench_alive w = {} \<or> (\<exists>l. bench_content w (SafePath ''/r/machine.json'') = Some (document_bytes (lease_document l))
          \<and> \<not> ml_released l \<and> bench_alive w = {ml_identity l}))"
proof -
  obtain w where w: "launch bench_ports ex_machine_host (RuntimeRoot ''/r'') ex_spec ex_run (SafePath ''/r/w'') None ex_bench
      = (w, Inr ex_lease)" "bench_alive w = {ml_identity ex_lease}" using ex_launched by blast
  have "bench_step ex_machine_host (RuntimeRoot ''/r'') ex_bench w" using w(1) ex_lease_fits by (auto intro: bench_step.launched)
  then have r: "bench_reaches ex_machine_host (RuntimeRoot ''/r'') ex_bench w" by (rule bench_reaches.further [OF bench_reaches.here])
  have "starts_nothing ex_monitor" "root_child ex_machine_host (RuntimeRoot ''/r'') INTENT_NAME \<noteq> Inr (SafePath ''/r/machine.json'')"
    using ex_starts_nothing ex_root(2) by (simp_all add: ex_bench_def bench_new_def)
  from one_machine [OF r [unfolded ex_bench_def] this(1) ex_root(1) this(2)] r w(2) show ?thesis by blast
qed

text \<open>
  While the machine that the lease at the root names is running, \<open>launch\<close> is refused with
  \<open>MACHINE_RUNNING\<close>; no file changes and nothing is started.
\<close>

theorem launch_refused_while_running:
  assumes "bench_plain w" "root_child h rt LEASE_NAME = Inr p" "ml_held (bn_locks w) = []"
    and "bench_content w p = Some (document_bytes (lease_document l))" "lease_fits l" "\<not> ml_released l"
    and "ml_identity l \<in> bench_alive w"
  shows "\<exists>w'. launch bench_ports h rt spec run directory m w = (w', Inl (Refusal MACHINE_RUNNING))
    \<and> bench_content w' = bench_content w \<and> bench_alive w' \<subseteq> bench_alive w"
proof -
  from bench_acquire [OF assms(3), of MACHINE immediate] obtain k where
    k: "lk_acquire (mp_locks bench_ports) MACHINE immediate w
     = (bn_locks_update (\<lambda>_. (bn_locks w)\<lparr>ml_issued := ml_issued (bn_locks w) + 1, ml_held := [(scope_name MACHINE, k)]\<rparr>) w,
        Inr \<lparr>ll_scope = MACHINE, ll_holder = k\<rparr>)" by blast
  have "hv_running (mp_hypervisor bench_ports) (ml_identity l) (bn_locks_update f w) = (bn_locks_update f w, Inr True)" for f
    using assms(7) by (simp add: bench_ports_def on_qemu_apply qemu_running_apply bench_alive_def)
  from bench.launch_when_running [OF assms(1,2,5,6,4) k this, of spec run directory m] show ?thesis by (auto simp: resting_def)
qed

theorem launch_refused_while_running_witness:
  "\<exists>w w'. bench_alive w = {ml_identity ex_lease}
     \<and> launch bench_ports ex_machine_host (RuntimeRoot ''/r'') ex_spec ex_run (SafePath ''/r/w'') None w
         = (w', Inl (Refusal MACHINE_RUNNING)) \<and> bench_content w' = bench_content w"
proof -
  obtain w where w: "bench_guarded (SafePath ''/r/machine.json'') w" "bench_alive w = {ml_identity ex_lease}"
    "ml_held (bn_locks w) = []"
    "bench_content w (SafePath ''/r/machine.json'') = Some (document_bytes (lease_document ex_lease))" using ex_launched by blast
  moreover from w(1) have "bench_plain w" by (simp add: guarded_def)
  moreover have "\<not> ml_released ex_lease" "ml_identity ex_lease \<in> bench_alive w" using w(2) by (simp_all add: ex_lease_def)
  ultimately show ?thesis
    using launch_refused_while_running [OF _ ex_root(1) w(3,4) ex_lease_fits, of ex_spec ex_run "SafePath ''/r/w''" None] by blast
qed

text \<open>
  C7. Shutting a machine down returns, whatever the guest does. When it does not raise, no machine
  is alive afterwards and the lease at the root is the released one.
\<close>

theorem shutdown_ends_the_machine:
  assumes "bench_guarded p w" "root_child h rt LEASE_NAME = Inr p" "lease_fits l"
  shows "\<exists>w' r. shutdown bench_ports h l rt w = Some (w', r)
    \<and> (\<forall>ended. r = Inr ended \<longrightarrow> bench_alive w' = {}
         \<and> bench_content w' p = Some (document_bytes (lease_document (release l))))"
proof -
  from bench.shutdown_returns [of h l rt w] obtain w' r where s: "shutdown bench_ports h l rt w = Some (w', r)" by auto
  have "bench_alive w' = {} \<and> bench_content w' p = Some (document_bytes (lease_document (release l)))" if "r = Inr ended" for ended
    using ptripleD(1) [OF bench.shutdown_holds [OF assms(2,3)], of UNIV w w' ended] s assms(1) that
    by (simp add: attended_all bench.leased_def holder_def)
  with s show ?thesis by blast
qed

theorem shutdown_ends_the_machine_witness:
  "\<exists>w w'. bench_alive w = {ml_identity ex_lease}
     \<and> shutdown bench_ports ex_machine_host ex_lease (RuntimeRoot ''/r'') w = Some (w', Inr STOPPED)
     \<and> bench_alive w' = {}
     \<and> bench_content w' (SafePath ''/r/machine.json'') = Some (document_bytes (lease_document (release ex_lease)))"
proof -
  obtain w where w: "bench_guarded (SafePath ''/r/machine.json'') w" "bench_alive w = {ml_identity ex_lease}"
    "ml_held (bn_locks w) = []" "bn_monitor w = bn_monitor ex_bench"
    using ex_launched by blast
  from shutdown_ends_the_machine [OF w(1) ex_root(1) ex_lease_fits] obtain w' r where
    s: "shutdown bench_ports ex_machine_host ex_lease (RuntimeRoot ''/r'') w = Some (w', r)"
    "\<forall>ended. r = Inr ended \<longrightarrow> bench_alive w' = {}
         \<and> bench_content w' (SafePath ''/r/machine.json'') = Some (document_bytes (lease_document (release ex_lease)))" by blast
  with ex_stopped [OF w(2,3,4)] have "r = Inr STOPPED" by auto
  with s w(2) show ?thesis by blast
qed

text \<open>
  A start that was interrupted after the intent was written, so that there is no lease or the
  lease of another run, is what \<open>reclaim\<close> reports as orphaned, with that intent.
\<close>

theorem interrupted_start_is_reported:
  assumes "bench_plain w" "root_child h rt INTENT_NAME = Inr q" "intent_fits i"
    and "bench_content w q = Some (document_bytes (intent_document i))" "root_child h rt LEASE_NAME = Inr p"
    and "bench_content w p = None \<or> (\<exists>l. lease_fits l \<and> bench_content w p = Some (document_bytes (lease_document l))
      \<and> mi_run (ml_intent l) \<noteq> mi_run i)"
    and "reclaim bench_ports h rt w = (w', Inr found)"
  shows "rc_orphaned found \<and> rc_intent found = Some i"
  by (rule bench.reclaim_reports [OF assms])

lemma ex_intent_fits: "intent_fits ex_intent"
proof -
  have "length (document_bytes (intent_document ex_intent)) \<le> weight (intent_document ex_intent) + 1"
    using canonical_length [OF plain_intent [OF ex_intent_ok]] by (simp add: document_bytes_def)
  moreover have "weight (intent_document ex_intent) < 1000000"
    by (simp add: intent_document_def intent_members_def ex_intent_def ex_command_def ex_run_def LEASE_SCHEMA_def
        str_of_int_def str_of_nat.simps)
  ultimately show ?thesis using ex_intent_ok by (simp add: intent_fits_def DOCUMENT_LIMIT_def)
qed

definition ex_interrupted :: bench where
  "ex_interrupted = fst (write_intent (mp_files bench_ports) ex_machine_host ex_intent (RuntimeRoot ''/r'') ex_bench)"

theorem interrupted_start_is_reported_witness:
  "\<exists>w found. reclaim bench_ports ex_machine_host (RuntimeRoot ''/r'') ex_interrupted = (w, Inr found)
     \<and> rc_orphaned found \<and> rc_intent found = Some ex_intent"
proof -
  have w: "ex_interrupted = bn_files_update (\<lambda>f. fst (memory_write_atomic (SafePath ''/r/machine-intent.json'')
      (document_bytes (intent_document ex_intent)) DEFAULT_RECORD_MODE f)) ex_bench"
    by (simp add: ex_interrupted_def write_intent_def ex_root bench_write)
  have content: "bench_content ex_interrupted (SafePath ''/r/machine-intent.json'') = Some (document_bytes (intent_document ex_intent))"
    "bench_content ex_interrupted (SafePath ''/r/machine.json'') = None"
    unfolding w by (simp_all add: bench_content_write [where g = "\<lambda>f. f"]) (simp add: bench_content_def ex_bench_def bench_new_def
        memory_new_def memory_content_def)
  have "bench_plain ex_bench" using ex_starts_nothing
    by (simp add: bench_plain_def ex_bench_def bench_new_def memory_plain_def memory_new_def)
  then have plain: "bench_plain ex_interrupted"
    by (simp add: w bench_plain_def memory_plain_def memory_write_atomic_def note_write_def fresh_inode_def store_file_def Let_def)
  have locks: "ml_held (bn_locks ex_interrupted) = []" by (simp add: w ex_bench_def bench_new_def locks_new_def)
  from bench_acquire [OF locks, of MACHINE immediate] obtain f k where
    k: "lk_acquire (mp_locks bench_ports) MACHINE immediate ex_interrupted
      = (bn_locks_update f ex_interrupted, Inr \<lparr>ll_scope = MACHINE, ll_holder = k\<rparr>)" by blast
  let ?v = "bn_locks_update f ex_interrupted"
  have i: "read_intent (mp_files bench_ports) ex_machine_host (RuntimeRoot ''/r'') ?v = (?v, Inr (Some ex_intent))"
    using bench.read_intent_written [OF _ ex_root(2) ex_intent_fits, of ?v] plain content(1) by simp
  have l: "read_lease (mp_files bench_ports) ex_machine_host (RuntimeRoot ''/r'') ?v = (?v, Inr None)"
    by (simp add: w read_lease_def read_object_def ex_root bench_ports_def files_inside_def inside_def memory_port_def
        memory_exists_def memory_has_def memory_canonical_def ex_bench_def bench_new_def memory_new_def io_bind_def
        parsed_option_def dict_has_def Let_def numeral_2_eq_2 memory_write_atomic_def note_write_def fresh_inode_def
        store_file_def starts_with_def)
  have "\<exists>v found. reclaim bench_ports ex_machine_host (RuntimeRoot ''/r'') ex_interrupted = (v, Inr found)"
    by (simp add: reclaim_def locked_def io_bind_def io_finally_def k i l Let_def)
      (simp add: bench_ports_def on_locks_def inside_def locks_release_def)
  then obtain v found where "reclaim bench_ports ex_machine_host (RuntimeRoot ''/r'') ex_interrupted = (v, Inr found)" by blast
  with interrupted_start_is_reported [OF plain ex_root(2) ex_intent_fits content(1) ex_root(1) disjI1 [OF content(2)] this]
  show ?thesis by blast
qed

text \<open>A lease that was written is the lease that is read.\<close>

theorem lease_reads_back:
  assumes "memory_plain fs" "root_child h rt LEASE_NAME = Inr p" "lease_fits l"
    and "write_lease memory_port h l rt fs = (fs', Inr ())"
  shows "read_lease memory_port h rt fs' = (fs', Inr (Some l))"
proof -
  from file_store.write_document_spec [OF mem.file_store_axioms assms(1)] obtain fs1 where
    a: "write_document memory_port (Inr p) (lease_document l) fs = (fs1, Inr ())"
    "memory_content fs1 = (memory_content fs)(p \<mapsto> document_bytes (lease_document l))" "memory_plain fs1" by blast
  from a(1) assms(2,4) obtain q where q: "write_document memory_port (Inr q) (lease_document l) fs1 = (fs', Inr ())"
    by (cases "safe_path_div (mi_run_directory (ml_intent l)) LEASE_NAME")
      (auto simp: write_lease_def io_then_def io_bind_def write_document_def)
  with file_store.write_document_spec [OF mem.file_store_axioms a(3), of q "lease_document l"] a(2)
  have "memory_plain fs'" "memory_content fs' p = Some (document_bytes (lease_document l))" by auto
  from file_store.read_lease_written [OF mem.file_store_axioms this(1) assms(2,3) this(2)] show ?thesis .
qed

theorem lease_reads_back_witness:
  "\<exists>fs. read_lease memory_port ex_machine_host (RuntimeRoot ''/r'') fs = (fs, Inr (Some ex_lease))"
proof -
  have p: "memory_plain (memory_new None)" by (simp add: memory_plain_def memory_new_def)
  have dir: "mi_run_directory (ml_intent ex_lease) = SafePath ''/r/w''" by (simp add: ex_lease_def ex_intent_def)
  obtain fs where "write_lease memory_port ex_machine_host ex_lease (RuntimeRoot ''/r'') (memory_new None) = (fs, Inr ())"
    by (simp add: write_lease_def ex_root dir io_then_def write_document_def io_bind_def memory_port_def memory_write_atomic_def Let_def)
  from lease_reads_back [OF p ex_root(1) ex_lease_fits this] show ?thesis by blast
qed

text \<open>C30. Every wait the program declares returns on a clock that sleeps as long as it is told to.\<close>

theorem declared_waits_return:
  assumes "pol \<in> set declared_waits"
    and "\<And>c c' r. condition c = (c', r) \<Longrightarrow> instant_seconds (mk_now c) \<le> instant_seconds (mk_now c')"
  shows "\<exists>c' r. wait_until manual_clock_port condition pol c = Some (c', r)"
  using mk.wait_returns [OF declared_waits_move [OF assms(1)] assms(2), where w = c] by auto

theorem declared_waits_return_witness:
  "\<exists>c' r. wait_until manual_clock_port (io_return False) BOOT_READY \<lparr>mk_now = EPOCH, mk_slept = []\<rparr> = Some (c', r)"
  by (rule declared_waits_return) (simp_all add: declared_waits_def)

subsection \<open>What a machine is started with\<close>

text \<open>
  C22. A machine is assembled exactly when the request gives a builder no device kept for disposable
  machines, boots from a drive that is attached, boots from USB with the controller, one other disk
  and neither cdrom nor network, and attaches at most two extra disks and no disk twice. What is assembled
  has the role and the size that were asked for and exactly the devices that belong to the request, in
  their places: one machine, display, monitor, serial line, firmware and root disk, whose discards are
  passed on for a builder; the seed as a cdrom, the USB controller and the USB drive when they were
  asked for; the extra disks under the numbers of their places; the network asked for, or the device that
  switches networking off; and the boot order when booting from the cdrom was asked for.
\<close>

theorem machine_assembled_exactly:
  "vm_build q = Inr s \<longleftrightarrow>
     (rq_role q = BUILDER \<longrightarrow>
        rq_extra_disks q = [] \<and> (\<exists>p. rq_serial q = SerialFile p) \<and> rq_usb q = None \<and> rq_boot_usb q = None)
   \<and> (rq_boot_from_cdrom q \<longrightarrow> rq_seed q \<noteq> None)
   \<and> (rq_boot_usb q \<noteq> None \<longrightarrow>
        rq_usb q \<noteq> None \<and> rq_seed q = None \<and> rq_network q = None \<and> length (rq_extra_disks q) = 1)
   \<and> length (rq_extra_disks q) \<le> 2
   \<and> distinct (rq_root_disk q # rq_extra_disks q @ (case rq_boot_usb q of None \<Rightarrow> [] | Some u \<Rightarrow> [us_path u]))
   \<and> vm_role s = rq_role q \<and> vm_resources s = rq_resources q \<and> vm_extra_disks s = rq_extra_disks q
   \<and> (\<forall>d. d \<in> set (vm_devices s) \<longleftrightarrow> belongs q d) \<and> in_place (vm_devices s)"
proof -
  have "\<not> is_socket (rq_serial q) \<longleftrightarrow> (\<exists>p. rq_serial q = SerialFile p)"
    by (cases "rq_serial q") (simp_all add: is_socket_def)
  then show ?thesis
    unfolding vm_build_Inr attached_disks_def
    using devices_specified [of q "vm_devices s"] by (auto simp: vm_spec.equality)
qed

theorem machine_assembled_exactly_witness: "vm_build ex_request = Inr ex_spec"
proof -
  have "length (rq_extra_disks ex_request) \<le> 2" "vm_devices ex_spec = devices_of ex_request"
    by (simp_all add: ex_request_def ex_spec_def)
  with devices_specified [of ex_request "vm_devices ex_spec"] show ?thesis
    unfolding machine_assembled_exactly by (simp add: ex_request_def ex_spec_def)
qed

text \<open>
  C8. The command line of a machine is the program followed by options with their values, and each is a row
  of a fixed list: cut at its commas, the value consists of the fixed texts of its row, a path of the
  description where the row has a path, and a number where it has one. So no path and no number of a
  request can bring in an option, a key, a device model or a forwarded address that the list does not have;
  and files are named only where a disk, the firmware, a socket or a log is attached, by the paths that the
  description gives. Which paths those are is not decided here: a description that was given a device node
  as its root disk names it.
\<close>

theorem command_line_is_closed:
  assumes "vm_render s = Inr command" "list_all plain_path (spec_paths s)"
  shows "\<exists>rest. argv_arguments command = ''qemu-system-x86_64'' # rest
    \<and> all_listed (map safe_path_str (spec_paths s)) rest"
  by (rule vm_arguments_listed [OF assms])

theorem command_line_is_closed_witness:
  "\<exists>rest. ex_command = ''qemu-system-x86_64'' # rest
     \<and> all_listed [''/r/qmp.sock'', ''/r/s'', ''/c'', ''/v'', ''/r/d''] rest
     \<and> \<not> all_listed [''/r/qmp.sock'', ''/r/s'', ''/c'', ''/v'', ''/r/d''] (rest @ [''-device'', ''vfio-pci,host=01:00.0''])"
proof -
  have p: "spec_paths ex_spec = map SafePath [''/r/qmp.sock'', ''/r/s'', ''/c'', ''/v'', ''/r/d'']"
    by (simp add: spec_paths_def ex_spec_def ex_request_def devices_of_def)
  have "list_all plain_path (spec_paths ex_spec)" by (simp add: p plain_path_iff)
  from command_line_is_closed [OF ex_rendered this] obtain rest where
    r: "ex_command = ''qemu-system-x86_64'' # rest" "all_listed [''/r/qmp.sock'', ''/r/s'', ''/c'', ''/v'', ''/r/d''] rest"
    by (auto simp: p)
  have "\<not> argument_listed paths ''-device'' ''vfio-pci,host=01:00.0''" for paths
    by (simp add: listed_simps)
  then have "\<not> all_listed paths (xs @ [''-device'', ''vfio-pci,host=01:00.0''])" if "all_listed paths xs" for paths xs
    using that by (induction paths xs rule: all_listed.induct) auto
  with r show ?thesis by blast
qed

end
