(* ===== verification/ScreenTheorems.thy ===== *)
theory ScreenTheorems
  imports Screens
begin

section \<open>Properties of the judgements over a screen\<close>

text \<open>
  Both judgements are computed over bytes and wide integers; each is equal to a count over pixels.
\<close>

lemma triples_replicate: "triples (concat (replicate n [a, b, c]) @ s) = replicate n (a, b, c) @ triples s"
  by (induction n) auto

text \<open>
  C31. \<open>swatches\<close>, which translates channels through tables and joins them as wide integers, counts
  the sampled rows on which at least eighty pixels in a row are red, then as many green, then as
  many blue, with at most four others between them.
\<close>

theorem swatches_counts_rows:
  assumes "frame_ok f"
  shows "swatches f = Inr \<lparr>ba_width = fr_width f, ba_height = fr_height f,
    ba_matched_rows = card {y. y < fr_height f \<and> y mod 4 = 0
      \<and> shows_bars (map (\<lambda>x. pixel_class (pixel_at f x y)) [0..<fr_width f])}\<rparr>"
  by (rule swatches_rows [OF assms])

definition ex_bars :: frame where
  "ex_bars = \<lparr>fr_width = 240, fr_height = 1,
     fr_pixels = concat (replicate 80 [CHR 0xFF, CHR 0x00, CHR 0x00]) @ concat (replicate 80 [CHR 0x00, CHR 0xFF, CHR 0x00])
       @ concat (replicate 80 [CHR 0x00, CHR 0x00, CHR 0xFF])\<rparr>"

theorem swatches_counts_rows_witness:
  "swatches ex_bars = Inr \<lparr>ba_width = 240, ba_height = 1, ba_matched_rows = 1\<rparr>"
proof -
  have ok: "frame_ok ex_bars" by (simp add: frame_ok_def ex_bars_def CHANNELS_def length_concat sum_list_replicate)
  have r: "row ex_bars 0 = fr_pixels ex_bars"
    using ok by (simp add: row_def stride_def frame_ok_def ex_bars_def CHANNELS_def)
  have "map (\<lambda>x. pixel_class (pixel_at ex_bars x 0)) [0..<240] = map pixel_class (triples (fr_pixels ex_bars))"
    using triples_row [OF ok, of 0] r by (simp add: ex_bars_def comp_def)
  also have "\<dots> = [] @ replicate 80 class_red @ replicate 0 class_none @ replicate 80 class_green
      @ replicate 0 class_none @ replicate 80 class_blue @ []"
    using triples_replicate [of 80 "CHR 0x00" "CHR 0x00" "CHR 0xFF" "[]"]
    by (simp add: ex_bars_def triples_replicate pixel_class_def is_red_def is_green_def is_blue_def)
  finally have "shows_bars (map (\<lambda>x. pixel_class (pixel_at ex_bars x 0)) [0..<240])"
    unfolding shows_bars_def
    by (intro exI [of _ "[]"] exI [of _ "80 :: nat"] exI [of _ "0 :: nat"] conjI) simp_all
  then have "{y. y < fr_height ex_bars \<and> y mod 4 = 0
      \<and> shows_bars (map (\<lambda>x. pixel_class (pixel_at ex_bars x y)) [0..<fr_width ex_bars])} = {0}"
    by (auto simp: ex_bars_def)
  with swatches_counts_rows [OF ok] show ?thesis by (simp add: ex_bars_def)
qed

text \<open>
  C32. \<open>surface_change\<close>, which looks only where the bytes of two rows differ, counts the pixels below
  the top bar that have a channel which moved by twenty or more.
\<close>

theorem surface_change_counts_pixels:
  assumes "frame_ok before" "frame_ok after" "fr_width after = fr_width before" "fr_height after = fr_height before"
  shows "surface_change before after = Inr \<lparr>sc_changed_pixels = card (changed_below before after),
    sc_minimum_pixels = max 5000 (fr_width before * fr_height before div 100)\<rparr>"
  by (rule surface_change_counts [OF assms])

definition ex_dark :: frame where
  "ex_dark = \<lparr>fr_width = 1, fr_height = 41, fr_pixels = replicate 123 (CHR 0x00)\<rparr>"

definition ex_lit :: frame where
  "ex_lit = \<lparr>fr_width = 1, fr_height = 41, fr_pixels = replicate 122 (CHR 0x00) @ [CHR 0xFF]\<rparr>"

theorem surface_change_counts_pixels_witness:
  "surface_change ex_dark ex_lit = Inr \<lparr>sc_changed_pixels = 1, sc_minimum_pixels = 5000\<rparr>"
proof -
  have ok: "frame_ok ex_dark" "frame_ok ex_lit" by (simp_all add: frame_ok_def ex_dark_def ex_lit_def CHANNELS_def)
  have "moved_far (pixel_at ex_dark 0 40) (pixel_at ex_lit 0 40)"
    by (simp add: moved_far_def pixel_at_def ex_dark_def ex_lit_def apart_by_def nth_append CHANGE_def)
  then have "changed_below ex_dark ex_lit = {(0, 40)}"
    by (auto simp: changed_below_def ex_dark_def less_Suc_eq)
  with surface_change_counts_pixels [OF ok] show ?thesis by (simp add: ex_dark_def ex_lit_def)
qed

end
