(* ===== verification/Release.thy ===== *)
theory Release
  imports Registry PyJson
begin

section \<open>Releases (model/release.py, targeting/)\<close>

text \<open>
  A release profile is what was chosen for a release; it holds no digest. The registry of profiles
  is sealed once and exactly one of them is supported; an upgrade plan reads two profiles and writes
  nothing. Digits are ASCII digits. \<open>current_release\<close> cannot fail on a registry that was sealed, and
  a plan lists exactly the fields in which two profiles differ.
\<close>

subsection \<open>model/release.py\<close>

datatype dist_tag = DistTag (tag_value: str)

definition tag_applied :: "dist_tag \<Rightarrow> str \<Rightarrow> str \<Rightarrow> str" where
  "tag_applied tag build vendor_suffix =
     build @ ''.'' @ tag_value tag @ (if vendor_suffix = [] then [] else CHR ''.'' # vendor_suffix)"

datatype version_constraint = Exactly str | AtLeast str | SameAsImage

text \<open>\<open>_ordered\<close>: the digits of each chunk as one number, a chunk without digits being nothing.\<close>

definition ordered :: "str \<Rightarrow> nat list" where
  "ordered value =
     map (\<lambda>chunk. let digits = filter is_digit chunk in if digits = [] then 0 else nat_of_digits digits)
       (split_on CHR ''.'' (map (\<lambda>c. if c = CHR ''-'' then CHR ''.'' else c) value))"

text \<open>Tuples compare by their first difference, and a prefix comes before what it starts.\<close>

fun tuple_le :: "nat list \<Rightarrow> nat list \<Rightarrow> bool" where
  "tuple_le [] ys = True"
| "tuple_le (x # xs) [] = False"
| "tuple_le (x # xs) (y # ys) = (x < y \<or> (x = y \<and> tuple_le xs ys))"

fun satisfied_by :: "version_constraint \<Rightarrow> str \<Rightarrow> str \<Rightarrow> bool" where
  "satisfied_by (Exactly v) declared observed = (observed = v)"
| "satisfied_by (AtLeast v) declared observed = tuple_le (ordered v) (ordered observed)"
| "satisfied_by SameAsImage declared observed = (declared = observed)"

record upstream_signal =
  us_structural :: str
  us_prose :: str
  us_validated_against :: profile_id

record release_profile =
  rp_id :: profile_id
  rp_major :: int
  rp_os_id :: str
  rp_os_release_version_id :: str
  rp_dist_tag :: dist_tag
  rp_mock_root :: str
  rp_efi_vendor_directory :: str
  rp_architecture :: str
  rp_supported :: bool
  rp_refusal :: "refusal_reason option"

definition mk_release_profile :: "release_profile \<Rightarrow> release_profile res" where
  "mk_release_profile p = (if rp_supported p \<and> rp_refusal p \<noteq> None then Inl RegistrationError else Inr p)"

definition render_nevra :: "release_profile \<Rightarrow> str \<Rightarrow> str \<Rightarrow> str \<Rightarrow> str \<Rightarrow> str \<Rightarrow> nevra" where
  "render_nevra p name version build architecture vendor_suffix =
     \<lparr>nevra_name = name, nevra_epoch = 0, nevra_version = version,
      nevra_release = tag_applied (rp_dist_tag p) build vendor_suffix, nevra_architecture = architecture\<rparr>"

record desktop_profile =
  dp_id :: profile_id
  dp_major :: int
  dp_control_centre_version :: str
  dp_extension_floor :: int
  dp_extension_ceiling :: int
  dp_shell_started_message_id :: str

lemma tuple_le_refl: "tuple_le xs xs"
  by (induction xs) auto

lemma tuple_le_total: "tuple_le xs ys \<or> tuple_le ys xs"
  by (induction xs ys rule: tuple_le.induct) auto

lemma tuple_le_trans: "tuple_le xs ys \<Longrightarrow> tuple_le ys zs \<Longrightarrow> tuple_le xs zs"
proof (induction xs ys arbitrary: zs rule: tuple_le.induct)
  case (3 x xs y ys)
  then show ?case by (cases zs) auto
qed auto

lemma tuple_le_antisym: "tuple_le xs ys \<Longrightarrow> tuple_le ys xs \<Longrightarrow> xs = ys"
  by (induction xs ys rule: tuple_le.induct) (auto elim: tuple_le.elims)

text \<open>What a version satisfies, every later one satisfies.\<close>

lemma at_least_mono:
  "satisfied_by (AtLeast v) d observed \<Longrightarrow> tuple_le (ordered observed) (ordered later) \<Longrightarrow> satisfied_by (AtLeast v) d' later"
  by (auto intro: tuple_le_trans)

subsection \<open>targeting/releases\<close>

record release_collector =
  rl_collector :: "release_profile registry"
  rl_sealed :: "release_profile sealed_registry option"

definition releases_new :: release_collector where
  "releases_new = \<lparr>rl_collector = registry_new ''release'', rl_sealed = None\<rparr>"

definition declare_release :: "release_collector \<Rightarrow> release_profile \<Rightarrow> provenance \<Rightarrow> release_collector res" where
  "declare_release rs p at =
     rbind (registry_add (rl_collector rs) (name_value (rp_id p)) p at) (\<lambda>r. Inr (rs\<lparr>rl_collector := r\<rparr>))"

text \<open>Discovery imports the modules, which declare; it is the parameter \<open>imported\<close>.\<close>

definition releases_sealed :: "(release_collector \<Rightarrow> release_collector res) \<Rightarrow> release_collector \<Rightarrow> (release_profile sealed_registry \<times> release_collector) res" where
  "releases_sealed imported rs =
     (case rl_sealed rs of
        Some s \<Rightarrow> Inr (s, rs)
      | None \<Rightarrow>
          rbind (imported rs) (\<lambda>rs1.
          rbind (registry_seal (rl_collector rs1)) (\<lambda>(candidate, r).
            if length (filter (\<lambda>(name, p). rp_supported p) (sealed_items candidate)) \<noteq> 1 then Inl RegistrationError
            else Inr (candidate, rs1\<lparr>rl_collector := r, rl_sealed := Some candidate\<rparr>))))"

definition registered_releases :: "(release_collector \<Rightarrow> release_collector res) \<Rightarrow> release_collector \<Rightarrow> (release_profile list \<times> release_collector) res" where
  "registered_releases imported rs =
     rbind (releases_sealed imported rs) (\<lambda>(s, rs'). Inr (map snd (sort_key fst (sealed_items s)), rs'))"

definition lookup_release ::
  "(release_collector \<Rightarrow> release_collector res) \<Rightarrow> release_collector \<Rightarrow> profile_id \<Rightarrow> (release_profile option \<times> release_collector) res" where
  "lookup_release imported rs name =
     rbind (releases_sealed imported rs) (\<lambda>(held, rs').
       if sealed_contains held (name_value name)
       then map_sum id (\<lambda>p. (Some p, rs')) (sealed_lookup held (name_value name)) else Inr (None, rs'))"

text \<open>
  \<open>next\<close> of a generator that yields nothing raises \<open>StopIteration\<close>, which \<open>exn\<close> does not name;
  \<open>current_release_supported\<close> shows that the branch is not taken.
\<close>

definition current_release :: "(release_collector \<Rightarrow> release_collector res) \<Rightarrow> release_collector \<Rightarrow> (release_profile \<times> release_collector) res" where
  "current_release imported rs =
     rbind (registered_releases imported rs) (\<lambda>(ps, rs').
       case find rp_supported ps of Some p \<Rightarrow> Inr (p, rs') | None \<Rightarrow> Inl InternalDefect)"

text \<open>A sealed registry has one supported release, and it is the current one.\<close>

lemma filter_sort_key: "filter P (sort_key f xs) = sort_key f (filter P xs)" for f :: "'a \<Rightarrow> 'b :: linorder"
  by (rule filter_sort)

lemma find_filter: "find P xs = (case filter P xs of [] \<Rightarrow> None | x # _ \<Rightarrow> Some x)"
  by (induction xs) auto

lemma current_release_supported:
  assumes "releases_sealed imported rs = Inr (s, rs')"
    and "length (filter (\<lambda>(name, p). rp_supported p) (sealed_items s)) = 1"
  shows "\<exists>name p. filter (\<lambda>(name, p). rp_supported p) (sealed_items s) = [(name, p)]
    \<and> current_release imported rs = Inr (p, rs')"
proof -
  from assms(2) obtain name p where one: "filter (\<lambda>(name, p). rp_supported p) (sealed_items s) = [(name, p)]"
    by (cases "filter (\<lambda>(name, p). rp_supported p) (sealed_items s)") auto
  have "filter rp_supported (map snd xs) = map snd (filter (\<lambda>(name, p). rp_supported p) xs)" for xs :: "(str \<times> release_profile) list"
    by (induction xs) auto
  then have "find rp_supported (map snd (sort_key fst (sealed_items s))) = Some p"
    by (simp add: find_filter filter_sort_key one)
  with assms(1) one show ?thesis by (simp add: current_release_def registered_releases_def)
qed

lemma releases_sealed_first:
  "rl_sealed rs = None \<Longrightarrow> releases_sealed imported rs = Inr (s, rs') \<Longrightarrow>
     length (filter (\<lambda>(name, p). rp_supported p) (sealed_items s)) = 1 \<and> rl_sealed rs' = Some s"
  by (auto simp: releases_sealed_def rbind_eq_Inr split: if_splits)

subsection \<open>targeting/upgrading.py\<close>

definition MODULE_SUFFIX :: str where "MODULE_SUFFIX = ''_release.py''"

record field_change =
  fc_field :: str
  fc_current :: str
  fc_target :: str

record upgrade_plan =
  up_current :: profile_id
  up_target :: profile_id
  up_changes :: "field_change list"
  up_pins_to_review :: "str list"
  up_capabilities_reobserved :: "str list"
  up_quirks_to_rematch :: "str list"
  up_attestations_to_redo :: "str list"

definition change_members :: "field_change \<Rightarrow> json" where
  "change_members c = JObj [(''field'', JStr (fc_field c)), (''current'', JStr (fc_current c)), (''target'', JStr (fc_target c))]"

definition upgrade_document :: "upgrade_plan \<Rightarrow> json" where
  "upgrade_document p = JObj
     [(''current'', JStr (name_value (up_current p))), (''target'', JStr (name_value (up_target p))),
      (''changes'', JList (map change_members (up_changes p))),
      (''pins_to_review'', JList (map JStr (up_pins_to_review p))),
      (''capabilities_reobserved'', JList (map JStr (up_capabilities_reobserved p))),
      (''quirks_to_rematch'', JList (map JStr (up_quirks_to_rematch p))),
      (''attestations_to_redo'', JList (map JStr (up_attestations_to_redo p))), (''writes'', JList [])]"

text \<open>The fields of a profile in the order they are declared, by kind of value.\<close>

datatype field_value = FText str | FInt int | FBool bool | FTag dist_tag | FReason "refusal_reason option"

definition profile_fields :: "release_profile \<Rightarrow> (str \<times> field_value) list" where
  "profile_fields p =
     [(''id'', FText (name_value (rp_id p))), (''major'', FInt (rp_major p)), (''os_id'', FText (rp_os_id p)),
      (''os_release_version_id'', FText (rp_os_release_version_id p)), (''dist_tag'', FTag (rp_dist_tag p)),
      (''mock_root'', FText (rp_mock_root p)), (''efi_vendor_directory'', FText (rp_efi_vendor_directory p)),
      (''architecture'', FText (rp_architecture p)), (''supported'', FBool (rp_supported p)),
      (''refusal'', FReason (rp_refusal p))]"

fun field_rendered :: "field_value \<Rightarrow> str" where
  "field_rendered (FText s) = s"
| "field_rendered (FInt i) = str_of_int i"
| "field_rendered (FBool b) = (if b then ''True'' else ''False'')"
| "field_rendered (FTag t) = tag_value t"
| "field_rendered (FReason None) = ''None''"
| "field_rendered (FReason (Some r)) = reason_value r"

definition changes :: "release_profile \<Rightarrow> release_profile \<Rightarrow> field_change list" where
  "changes current target =
     map (\<lambda>(x, y). \<lparr>fc_field = fst x, fc_current = field_rendered (snd x), fc_target = field_rendered (snd y)\<rparr>)
       (filter (\<lambda>(x, y). snd x \<noteq> snd y) (zip (profile_fields current) (profile_fields target)))"

definition markers :: "release_profile \<Rightarrow> str list" where
  "markers p = [tag_value (rp_dist_tag p), rp_mock_root p]"

definition pins_to_review :: "release_profile \<Rightarrow> (str, str) dict \<Rightarrow> str list" where
  "pins_to_review current locks =
     concat (map (\<lambda>(name, text).
       let named = filter (\<lambda>m. contains text m) (markers current)
       in if named = [] then [] else [name @ '': names '' @ join '', '' named]) (sort_key fst locks))"

text \<open>\<open>isinstance(value, SameAsImage)\<close>: no type a profile declares for a field has such a value.\<close>

fun is_same_as_image :: "field_value \<Rightarrow> bool" where
  "is_same_as_image (FText s) = False"
| "is_same_as_image (FInt i) = False"
| "is_same_as_image (FBool b) = False"
| "is_same_as_image (FTag t) = False"
| "is_same_as_image (FReason r) = False"

definition reobserved :: "release_profile \<Rightarrow> str list" where
  "reobserved current = map fst (filter (\<lambda>(name, v). is_same_as_image v) (profile_fields current))"

definition upgrade_plan_of ::
  "release_profile \<Rightarrow> release_profile \<Rightarrow> (str, str) dict \<Rightarrow> str list \<Rightarrow> str list \<Rightarrow> upgrade_plan" where
  "upgrade_plan_of current target locks attestations quirks =
     \<lparr>up_current = rp_id current, up_target = rp_id target, up_changes = changes current target,
      up_pins_to_review = pins_to_review current locks, up_capabilities_reobserved = reobserved current,
      up_quirks_to_rematch = quirks, up_attestations_to_redo = sort attestations\<rparr>"

definition quoted :: "str \<Rightarrow> str" where
  "quoted s = CHR 0x22 # s @ [CHR 0x22]"

text \<open>The text of the module to write, every field carried over from the release in use.\<close>

definition release_template :: "profile_id \<Rightarrow> release_profile \<Rightarrow> str" where
  "release_template target current = concat (map (\<lambda>line. line @ [CHR 0x0A])
     [concat [CHR 0x22 # CHR 0x22 # CHR 0x22 # name_value target,
        '', declared and chosen field by field; nothing observed belongs here.'', [CHR 0x22, CHR 0x22, CHR 0x22]],
      [],
      ''from __future__ import annotations'',
      [],
      ''from apex.kernel import identifiers'',
      ''from apex.model import release'',
      ''from apex.targeting import releases'',
      [],
      ''PROFILE = releases.declare(release.ReleaseProfile('',
      concat [''    id=identifiers.ProfileId('', quoted (name_value target), ''),''],
      concat [''    major='', str_of_int (rp_major current), '',''],
      concat [''    os_id='', quoted (rp_os_id current), '',''],
      concat [''    os_release_version_id='', quoted (rp_os_release_version_id current), '',''],
      concat [''    dist_tag=release.DistTag('', quoted (tag_value (rp_dist_tag current)), ''),''],
      concat [''    mock_root='', quoted (rp_mock_root current), '',''],
      concat [''    efi_vendor_directory='', quoted (rp_efi_vendor_directory current), '',''],
      concat [''    architecture='', quoted (rp_architecture current), '',''],
      ''    supported=False,'',
      ''))''])"

definition release_module_name :: "profile_id \<Rightarrow> str" where
  "release_module_name target = filter (\<lambda>c. c \<noteq> CHR ''-'' \<and> c \<noteq> CHR ''.'') (name_value target) @ MODULE_SUFFIX"

lemma changes_none: "changes p q = [] \<longleftrightarrow> profile_fields p = profile_fields q"
  by (simp add: changes_def profile_fields_def)

lemma profile_fields_inj: "profile_fields p = profile_fields q \<longleftrightarrow> p = q"
proof
  assume "profile_fields p = profile_fields q"
  then show "p = q" by (cases p; cases q) (auto simp: profile_fields_def dotted_name.expand)
qed simp

lemma zip_changes:
  "length xs = length ys \<Longrightarrow> map fst xs = map fst ys \<Longrightarrow> distinct (map fst xs) \<Longrightarrow>
     field \<in> (\<lambda>(x, y). fst x) ` set (filter (\<lambda>(x, y). snd x \<noteq> snd y) (zip xs ys))
       \<longleftrightarrow> map_of xs field \<noteq> map_of ys field"
proof (induction xs ys rule: list_induct2)
  case (Cons x xs y ys)
  have out: "map_of xs (fst x) = None" "map_of ys (fst x) = None"
  proof -
    from Cons.prems have "set (map fst xs) = set (map fst ys)" "fst x \<notin> set (map fst xs)" by simp_all
    then show "map_of xs (fst x) = None" "map_of ys (fst x) = None" by (simp_all add: map_of_eq_None_iff)
  qed
  show ?case
  proof (cases "field = fst x")
    case True
    have "field \<notin> (\<lambda>(x, y). fst x) ` set (filter (\<lambda>(x, y). snd x \<noteq> snd y) (zip xs ys))"
      using Cons.IH Cons.prems out True by simp
    with True Cons.prems show ?thesis by (cases x; cases y) auto
  next
    case False
    with Cons show ?thesis by (cases x; cases y) auto
  qed
qed simp

text \<open>A plan has a change for every field that differs and for no other.\<close>

lemma changes_fields:
  "field \<in> fc_field ` set (changes p q) \<longleftrightarrow> map_of (profile_fields p) field \<noteq> map_of (profile_fields q) field"
proof -
  have c: "fc_field ` set (changes p q) =
      (\<lambda>(x, y). fst x) ` set (filter (\<lambda>(x, y). snd x \<noteq> snd y) (zip (profile_fields p) (profile_fields q)))"
    unfolding changes_def by (force simp: image_iff split: prod.splits)
  have "length (profile_fields p) = length (profile_fields q)" "map fst (profile_fields p) = map fst (profile_fields q)"
    "distinct (map fst (profile_fields p))" by (simp_all add: profile_fields_def)
  from zip_changes [OF this, of field] show ?thesis unfolding c .
qed

end
