(* ===== verification/Columns.thy ===== *)
theory Columns
  imports StoreReaders Leases
begin

section \<open>The table of a store and the selection of a candidate\<close>

text \<open>
  attestation/columns.py lays out what a reading and its evaluation state, one row a check, with
  where its record came from; attestation/selecting.py makes a digest the candidate under test and
  archives the one before it.
\<close>

subsection \<open>columns.py\<close>

datatype origin = OriginImported | OriginRecorded | OriginAbsent

fun origin_value :: "origin \<Rightarrow> str" where
  "origin_value OriginImported = ''imported''"
| "origin_value OriginRecorded = ''recorded''"
| "origin_value OriginAbsent = ''absent''"

record table_row =
  tr_check :: str
  tr_verdict :: verdict
  tr_origin :: origin
  tr_limits :: "scope_limit list"
  tr_withheld :: "verdict option"

record table =
  tb_version :: int
  tb_strict :: bool
  tb_ready :: bool
  tb_imported :: nat
  tb_counts :: "(str, nat) dict"
  tb_rows :: "table_row list"
  tb_faults :: "str list"

definition origin_of :: "attestation option \<Rightarrow> origin" where
  "origin_of found =
     (case found of
        None \<Rightarrow> OriginAbsent
      | Some a \<Rightarrow> if at_kind a = RECORDED then OriginRecorded else OriginImported)"

definition sorted_limits :: "scope_limit set \<Rightarrow> scope_limit list" where
  "sorted_limits ls = sort_key scope_limit_value (filter (\<lambda>l. l \<in> ls) scope_limits_all)"

definition by_check :: "attestation list \<Rightarrow> (str, attestation) dict" where
  "by_check as = foldl (\<lambda>d a. dict_set (at_check a) a d) [] as"

definition stated_before :: "withheld list \<Rightarrow> (str, verdict) dict" where
  "stated_before ws = foldl (\<lambda>d w. dict_set (wh_check w) (wh_stated w) d) [] ws"

definition table_row_of :: "store_reading \<Rightarrow> readiness \<Rightarrow> withheld list \<Rightarrow> str \<Rightarrow> table_row res" where
  "table_row_of reading outcome ws name =
     rbind (verdict_of outcome name) (\<lambda>v.
       let found = map_of (by_check (sr_attestations reading)) name
       in Inr \<lparr>tr_check = name, tr_verdict = v, tr_origin = origin_of found,
               tr_limits = (case found of None \<Rightarrow> [] | Some a \<Rightarrow> sorted_limits (at_limits a)),
               tr_withheld = map_of (stated_before ws) name\<rparr>)"

definition tabulate :: "store_reading \<Rightarrow> readiness \<Rightarrow> withheld list \<Rightarrow> bool \<Rightarrow> table res" where
  "tabulate reading outcome ws strict =
     rbind (rmapM (table_row_of reading outcome ws) (sort (map fst (rd_verdicts outcome)))) (\<lambda>rows.
       Inr \<lparr>tb_version = sr_version reading, tb_strict = strict, tb_ready = rd_ready outcome,
            tb_imported = length (filter (\<lambda>row. tr_origin row = OriginImported) rows),
            tb_counts = rd_counts outcome, tb_rows = rows, tb_faults = rd_faults outcome @ sr_faults reading\<rparr>)"

definition row_document :: "table_row \<Rightarrow> json" where
  "row_document row = JObj
     [(''check'', JStr (tr_check row)), (''verdict'', JStr (stored_name (tr_verdict row))),
      (''origin'', JStr (origin_value (tr_origin row))),
      (''limits'', JList (map (\<lambda>l. JStr (scope_limit_value l)) (tr_limits row))),
      (''withheld'', case tr_withheld row of None \<Rightarrow> JNull | Some v \<Rightarrow> JStr (stored_name v))]"

definition table_document :: "table \<Rightarrow> json" where
  "table_document t = JObj
     [(''version'', JInt (tb_version t)), (''strict'', JBool (tb_strict t)), (''ready'', JBool (tb_ready t)),
      (''imported'', JInt (int (tb_imported t))),
      (''counts'', JObj (map (\<lambda>(name, n). (name, JInt (int n))) (sort_key fst (tb_counts t)))),
      (''checks'', JList (map row_document (tb_rows t))), (''faults'', JList (map JStr (tb_faults t)))]"

text \<open>
  A table is always made. It has a row for each stated check, in order, with its verdict, and loses
  no fault of the reading or of the evaluation.
\<close>

lemma rmapM_total: "(\<And>x. x \<in> set xs \<Longrightarrow> f x = Inr (g x)) \<Longrightarrow> rmapM f xs = Inr (map g xs)"
  by (induction xs) auto

lemma tabulate_rows:
  assumes "distinct (map fst (rd_verdicts outcome))"
  shows "\<exists>t. tabulate reading outcome ws strict = Inr t
    \<and> map tr_check (tb_rows t) = sort (map fst (rd_verdicts outcome))
    \<and> (\<forall>row \<in> set (tb_rows t). map_of (rd_verdicts outcome) (tr_check row) = Some (tr_verdict row))
    \<and> set (tb_faults t) = set (rd_faults outcome) \<union> set (sr_faults reading) \<and> tb_ready t = rd_ready outcome"
proof -
  let ?keys = "sort (map fst (rd_verdicts outcome))"
  let ?row = "\<lambda>name. projr (table_row_of reading outcome ws name)"
  have row: "\<exists>r. table_row_of reading outcome ws name = Inr r \<and> tr_check r = name
      \<and> map_of (rd_verdicts outcome) name = Some (tr_verdict r)" if "name \<in> set ?keys" for name
  proof -
    from that obtain v where "map_of (rd_verdicts outcome) name = Some v"
      by (auto simp: map_of_eq_None_iff dest!: not_None_eq [THEN iffD1, rotated])
        (metis map_of_eq_None_iff not_None_eq fst_conv image_eqI)
    then show ?thesis by (simp add: table_row_of_def verdict_of_def Let_def)
  qed
  then have "rmapM (table_row_of reading outcome ws) ?keys = Inr (map ?row ?keys)"
    by (intro rmapM_total) fastforce
  moreover have names: "tr_check (?row n) = n" and verdicts: "map_of (rd_verdicts outcome) n = Some (tr_verdict (?row n))"
    if "n \<in> set ?keys" for n
    using row [OF that] by auto
  have "map tr_check (map ?row ?keys) = ?keys"
    using names by (simp add: comp_def del: set_sort) (rule map_idI, simp)
  moreover have "\<forall>r \<in> set (map ?row ?keys). map_of (rd_verdicts outcome) (tr_check r) = Some (tr_verdict r)"
    using names verdicts by (simp add: image_iff del: set_sort)
  ultimately show ?thesis by (simp add: tabulate_def comp_def)
qed

text \<open>An imported row is a check whose record was imported, and only such a row carries a legacy limit.\<close>

lemma by_check_found: "map_of (by_check as) name = Some a \<Longrightarrow> a \<in> set as \<and> at_check a = name"
proof -
  have "map_of (foldl (\<lambda>d a. dict_set (at_check a) a d) d as) name = Some a \<Longrightarrow>
      (a \<in> set as \<and> at_check a = name) \<or> map_of d name = Some a" for d
    by (induction as arbitrary: d) (fastforce split: if_splits)+
  from this [of "[]"] show "map_of (by_check as) name = Some a \<Longrightarrow> ?thesis" by (simp add: by_check_def)
qed

subsection \<open>selecting.py\<close>

definition SELECTED_NOTE :: str where
  "SELECTED_NOTE = ''Candidate selected for testing, not approved for installation''"

record selected =
  se_digest :: digest
  se_build :: build_id
  se_previous :: "digest option"
  se_archived :: "safe_path option"

definition selected_document :: "selected \<Rightarrow> json" where
  "selected_document s = JObj
     [(''selected'', JObj [(''digest'', JStr (digest_str (se_digest s))), (''build_id'', JStr (identifier_value (se_build s)))]),
      (''previous'', case se_previous s of None \<Rightarrow> JNull | Some d \<Rightarrow> JStr (digest_str d)),
      (''archived'', case se_archived s of None \<Rightarrow> JNull | Some p \<Rightarrow> JStr (safe_path_str p)),
      (''note'', JStr SELECTED_NOTE)]"

text \<open>\<open>loaded["digest"]\<close>: an index into what is no object raises \<open>TypeError\<close>.\<close>

definition loaded_digest :: "bytes \<Rightarrow> digest res" where
  "loaded_digest payload =
     rcatch
       (rbind (parse_document payload) (\<lambda>j.
        rbind (case j of JObj d \<Rightarrow> of_option KeyError (map_of d ''digest'') | _ \<Rightarrow> Inl TypeError) (\<lambda>v.
          parse_digest (py_str v))))
       (\<lambda>e. e = JSONDecodeError \<or> e = KeyError \<or> e = TypeError) (Inl (Refusal MALFORMED_IDENTIFIER))"

definition previous_candidate :: "'w files_port \<Rightarrow> safe_path \<Rightarrow> ('w, digest option) io" where
  "previous_candidate port target =
     io_bind (fp_exists port target) (\<lambda>there.
       if \<not> there then io_return None
       else io_bind (fp_read_bytes port target (limit_value DOCUMENT_LIMIT)) (\<lambda>payload.
              io_lift (map_sum id Some (loaded_digest payload))))"

definition candidate_document :: "digest \<Rightarrow> build_id \<Rightarrow> json \<Rightarrow> json" where
  "candidate_document d build verification = JObj
     [(''digest'', JStr (digest_str d)), (''build_id'', JStr (identifier_value build)), (''verification'', verification)]"

definition select_candidate ::
  "'w files_port \<Rightarrow> host \<Rightarrow> runtime_root \<Rightarrow> digest \<Rightarrow> build_id \<Rightarrow> json \<Rightarrow> run_id \<Rightarrow> ('w, selected) io" where
  "select_candidate port h rt d build verification run =
     io_bind (io_lift (root_child h rt CANDIDATE_NAME)) (\<lambda>target.
     io_bind (previous_candidate port target) (\<lambda>previous.
     io_bind
       (if previous \<noteq> None \<and> previous \<noteq> Some d
        then io_bind (io_lift (root_child h rt (CANDIDATE_HISTORY_DIRECTORY @ ''/'' @ identifier_value run))) (\<lambda>archive.
             io_bind (fp_make_directory port archive PRIVATE_DIRECTORY_MODE) (\<lambda>_.
             io_bind (io_lift (safe_path_div archive CANDIDATE_NAME)) (\<lambda>archived.
             io_bind (fp_copy port target archived) (\<lambda>_. io_return (Some archived)))))
        else io_return None) (\<lambda>archived.
     io_bind (fp_write_atomic port target (document_bytes (candidate_document d build verification)) DEFAULT_RECORD_MODE) (\<lambda>_.
       io_return \<lparr>se_digest = d, se_build = build, se_previous = previous, se_archived = archived\<rparr>))))"

end
