(* ===== verification/GuestShell.thy ===== *)
theory GuestShell
  imports FilesPort KernelValues Machines
begin

section \<open>Reaching a guest over its shell (ports/guestshell.py)\<close>

text \<open>
  A command is a script of argument vectors joined by \<open>&&\<close>, rendered with the quoting of \<open>shlex\<close>.
  What a POSIX shell makes of the text is defined beside it: the tokens of section 2.3 of the shell
  command language, as far as a rendering uses them (a character that starts an expansion or
  another operator gives no reading; assignments and reserved words are not told from other words, so a
  script is read right when no step begins with one), and the AND-OR list, whose operators associate to the left with equal
  precedence. Reading a rendered script gives the words that were composed; running it is running
  the steps in order as long as no tolerated step follows one that is not.
\<close>

subsection \<open>Targets, steps and scripts\<close>

definition USER_NAME :: pattern where
  "USER_NAME = RSeq (RClass (\<lambda>c. is_lower c \<or> c = CHR ''_''))
     (RStar (RClass (\<lambda>c. is_lower c \<or> is_digit c \<or> c = CHR ''_'' \<or> c = CHR ''-'')))"

definition SUDO :: "str list" where "SUDO = [''sudo'']"
definition SUDO_ASKING :: "str list" where "SUDO_ASKING = [''sudo'', ''-k'', ''-S'', ''-p'', []]"
definition UNSHARE_MOUNTS :: "str list" where
  "UNSHARE_MOUNTS = [''unshare'', ''--mount'', ''--propagation'', ''slave'']"

record guest_target =
  gt_user :: str
  gt_port :: tcp_port
  gt_key :: safe_path
  gt_known_hosts :: safe_path

definition mk_guest_target :: "str \<Rightarrow> tcp_port \<Rightarrow> safe_path \<Rightarrow> safe_path \<Rightarrow> guest_target res" where
  "mk_guest_target user p key known =
     (if \<not> fullmatch USER_NAME user then Inl (Refusal MALFORMED_IDENTIFIER)
      else Inr \<lparr>gt_user = user, gt_port = p, gt_key = key, gt_known_hosts = known\<rparr>)"

definition guest_address :: "guest_target \<Rightarrow> str" where
  "guest_address t = gt_user t @ ''@'' @ LOOPBACK"

text \<open>\<open>shlex.quote\<close> and \<open>shlex.join\<close>\<close>

definition shell_safe :: "char \<Rightarrow> bool" where
  "shell_safe c \<longleftrightarrow> is_lower c \<or> is_upper c \<or> is_digit c \<or> c \<in> set ''%+,-./:=@_''"

definition quote_char :: "char \<Rightarrow> str" where
  "quote_char c = (if c = CHR 0x27 then [CHR 0x27, CHR 0x22, CHR 0x27, CHR 0x22, CHR 0x27] else [c])"

definition shell_quote :: "str \<Rightarrow> str" where
  "shell_quote s =
     (if s = [] then [CHR 0x27, CHR 0x27]
      else if list_all shell_safe s then s
      else CHR 0x27 # concat (map quote_char s) @ [CHR 0x27])"

definition shell_join :: "str list \<Rightarrow> str" where
  "shell_join ws = join '' '' (map shell_quote ws)"

record guest_step =
  st_argv :: argv
  st_quiet_errors :: bool
  st_tolerated :: bool

definition guest_step_of :: "str list \<Rightarrow> guest_step res" where
  "guest_step_of arguments =
     rbind (argv_of arguments) (\<lambda>a. Inr \<lparr>st_argv = a, st_quiet_errors = False, st_tolerated = False\<rparr>)"

definition step_rendered :: "guest_step \<Rightarrow> str" where
  "step_rendered s =
     shell_join (argv_arguments (st_argv s))
       @ (if st_quiet_errors s then '' 2>/dev/null'' else []) @ (if st_tolerated s then '' || true'' else [])"

datatype remote_script = RemoteScript (script_steps: "guest_step list")

definition remote_script_of :: "guest_step list \<Rightarrow> remote_script res" where
  "remote_script_of steps =
     (if steps = [] then Inl (Refusal SHELL_STRING_NOT_ACCEPTED) else Inr (RemoteScript steps))"

definition script_rendered :: "remote_script \<Rightarrow> str" where
  "script_rendered script = join '' && '' (map step_rendered (script_steps script))"

definition under_lock :: "remote_script \<Rightarrow> remote_path \<Rightarrow> bool \<Rightarrow> bool \<Rightarrow> guest_step res" where
  "under_lock script lock asking private_mounts =
     guest_step_of
       ((if asking then SUDO_ASKING else SUDO) @ [''flock'', ''-n'', remote_path_value lock]
        @ (if private_mounts then UNSHARE_MOUNTS else []) @ [''bash'', ''-c'', script_rendered script])"

record guest_run =
  gr_script :: remote_script
  gr_deadline :: deadline
  gr_limit :: output_limit
  gr_transcript :: "safe_path option"
  gr_stdin :: "bytes option"

record 'w guest_port =
  gp_environment :: environment_kind
  gp_run :: "guest_target \<Rightarrow> guest_run \<Rightarrow> ('w, completed_run) io"
  gp_send :: "guest_target \<Rightarrow> safe_path \<Rightarrow> remote_path \<Rightarrow> deadline \<Rightarrow> ('w, unit) io"
  gp_receive :: "guest_target \<Rightarrow> remote_path \<Rightarrow> safe_path \<Rightarrow> bool \<Rightarrow> deadline \<Rightarrow> ('w, unit) io"

subsection \<open>How a shell reads\<close>

datatype sh_token = Word str | IoNumber str | AndIf | OrIf | Great

datatype sh_mode = Plain | Single | Double

text \<open>The word being read, with whether a part of it was quoted.\<close>

type_synonym sh_word = "(str \<times> bool) option"

definition emit :: "sh_word \<Rightarrow> sh_token list \<Rightarrow> sh_token list" where
  "emit w ts = (case w of None \<Rightarrow> ts | Some (s, q) \<Rightarrow> Word s # ts)"

definition emit_number :: "sh_word \<Rightarrow> sh_token list \<Rightarrow> sh_token list" where
  "emit_number w ts =
     (case w of None \<Rightarrow> ts | Some (s, q) \<Rightarrow> (if \<not> q \<and> list_all is_digit s then IoNumber s else Word s) # ts)"

definition grown :: "sh_word \<Rightarrow> str \<Rightarrow> bool \<Rightarrow> sh_word" where
  "grown w t q = (case w of None \<Rightarrow> Some (t, q) | Some (s, q') \<Rightarrow> Some (s @ t, q' \<or> q))"

fun sh_tokens :: "sh_mode \<Rightarrow> sh_word \<Rightarrow> str \<Rightarrow> sh_token list option" where
  "sh_tokens Plain w [] = Some (emit w [])"
| "sh_tokens Single w [] = None"
| "sh_tokens Double w [] = None"
| "sh_tokens Single w (c # s) =
     (if c = CHR 0x27 then sh_tokens Plain w s else sh_tokens Single (grown w [c] True) s)"
| "sh_tokens Double w (c # s) =
     (if c = CHR 0x22 then sh_tokens Plain w s
      else if c \<in> {CHR ''$'', CHR 0x60, CHR 0x5C} then None
      else sh_tokens Double (grown w [c] True) s)"
| "sh_tokens Plain w (c # s) =
     (if c = CHR '' '' then map_option (emit w) (sh_tokens Plain None s)
      else if c = CHR 0x27 then sh_tokens Single (grown w [] True) s
      else if c = CHR 0x22 then sh_tokens Double (grown w [] True) s
      else if c = CHR ''>'' then map_option (\<lambda>ts. emit_number w (Great # ts)) (sh_tokens Plain None s)
      else if shell_safe c then sh_tokens Plain (grown w [c] False) s
      else (case s of
              [] \<Rightarrow> None
            | d # s' \<Rightarrow>
                if c = CHR ''&'' \<and> d = CHR ''&'' then map_option (\<lambda>ts. emit w (AndIf # ts)) (sh_tokens Plain None s')
                else if c = CHR ''|'' \<and> d = CHR ''|'' then map_option (\<lambda>ts. emit w (OrIf # ts)) (sh_tokens Plain None s')
                else None))"

text \<open>A simple command is its words and its redirections; a list of them is joined by operators.\<close>

record sh_command =
  sc_words :: "str list"
  sc_redirects :: "(str \<times> str) list"

datatype sh_operator = And | Or

definition no_command :: sh_command where "no_command = \<lparr>sc_words = [], sc_redirects = []\<rparr>"

definition emptied :: "sh_command \<Rightarrow> bool" where
  "emptied c \<longleftrightarrow> sc_words c = [] \<and> sc_redirects c = []"

text \<open>An operator with no command beside it is a syntax error.\<close>

fun sh_parse :: "sh_operator \<Rightarrow> sh_command \<Rightarrow> sh_token list \<Rightarrow> (sh_operator \<times> sh_command) list option" where
  "sh_parse oper c [] = (if emptied c then None else Some [(oper, c)])"
| "sh_parse oper c (AndIf # ts) =
     (if emptied c then None else map_option (\<lambda>cs. (oper, c) # cs) (sh_parse And no_command ts))"
| "sh_parse oper c (OrIf # ts) =
     (if emptied c then None else map_option (\<lambda>cs. (oper, c) # cs) (sh_parse Or no_command ts))"
| "sh_parse oper c (Word w # ts) = sh_parse oper (c\<lparr>sc_words := sc_words c @ [w]\<rparr>) ts"
| "sh_parse oper c (IoNumber n # Great # Word w # ts) =
     sh_parse oper (c\<lparr>sc_redirects := sc_redirects c @ [(n, w)]\<rparr>) ts"
| "sh_parse oper c (Great # Word w # ts) = sh_parse oper (c\<lparr>sc_redirects := sc_redirects c @ [(''1'', w)]\<rparr>) ts"
| "sh_parse oper c _ = None"

definition sh_read :: "str \<Rightarrow> (sh_operator \<times> sh_command) list option" where
  "sh_read text = (case sh_tokens Plain None text of None \<Rightarrow> None | Some ts \<Rightarrow> sh_parse And no_command ts)"

text \<open>An AND-OR list from left to right: a command runs when the status so far asks for it.\<close>

fun sh_run :: "(sh_command \<Rightarrow> 's \<Rightarrow> 's \<times> bool) \<Rightarrow> (sh_operator \<times> sh_command) list \<Rightarrow> 's \<Rightarrow> bool \<Rightarrow> 's \<times> bool" where
  "sh_run exec [] s ok = (s, ok)"
| "sh_run exec ((oper, c) # cs) s ok =
     (if ok = (oper = And) then (case exec c s of (s', ok') \<Rightarrow> sh_run exec cs s' ok') else sh_run exec cs s ok)"

definition shell_runs :: "(sh_command \<Rightarrow> 's \<Rightarrow> 's \<times> bool) \<Rightarrow> str \<Rightarrow> 's \<Rightarrow> ('s \<times> bool) option" where
  "shell_runs exec text s = map_option (\<lambda>cs. sh_run exec cs s True) (sh_read text)"

subsection \<open>A rendered script is read as it was composed\<close>

definition reads :: "str \<Rightarrow> sh_token list \<Rightarrow> bool" where
  "reads t ts \<longleftrightarrow> (\<forall>s. s = [] \<or> hd s = CHR '' '' \<longrightarrow>
     sh_tokens Plain None (t @ s) = map_option ((@) ts) (sh_tokens Plain None s))"

lemma map_option_append [simp]: "map_option ((@) []) m = m" "map_option ((@) a) (map_option ((@) b) m) = map_option ((@) (a @ b)) m"
  by (cases m; simp)+

lemma reads_nil [simp]: "reads [] []"
  by (simp add: reads_def)

lemma reads_whole: "reads t ts \<Longrightarrow> sh_tokens Plain None t = Some ts"
  unfolding reads_def by (drule spec [of _ "[]"]) (simp add: emit_def)

lemma emit_None [simp]: "emit None = id"
  by (simp add: emit_def fun_eq_iff)

lemma reads_space: "reads a ts \<Longrightarrow> reads b us \<Longrightarrow> reads (a @ CHR '' '' # b) (ts @ us)"
  by (simp add: reads_def option.map_id)

lemma grown_grown [simp]: "grown (Some (a, q)) b q' = Some (a @ b, q \<or> q')" "grown None b q = Some (b, q)"
  by (simp_all add: grown_def)

lemma shell_safe_plain: "shell_safe c \<Longrightarrow> c \<notin> {CHR '' '', CHR 0x27, CHR 0x22, CHR ''>''}"
  by (auto simp: shell_safe_def is_lower_def is_upper_def is_digit_def less_eq_char_def)

lemma sh_tokens_safe:
  "list_all shell_safe u \<Longrightarrow> sh_tokens Plain (Some (a, q)) (u @ s) = sh_tokens Plain (Some (a @ u, q)) s"
  using shell_safe_plain by (induction u arbitrary: a) simp_all

lemma sh_tokens_single:
  "sh_tokens Single (Some (a, True)) (concat (map quote_char u) @ CHR 0x27 # s) = sh_tokens Plain (Some (a @ u, True)) s"
  by (induction u arbitrary: a) (simp_all add: quote_char_def)

lemma sh_tokens_quote: "\<exists>q. sh_tokens Plain None (shell_quote x @ s) = sh_tokens Plain (Some (x, q)) s"
proof (cases "x = [] \<or> \<not> list_all shell_safe x")
  case True
  then show ?thesis using sh_tokens_single [of "[]" x s]
    by (intro exI [of _ True]) (auto simp: shell_quote_def)
next
  case False
  then obtain c u where x: "x = c # u" "shell_safe c" "list_all shell_safe u" by (cases x) auto
  with shell_safe_plain [of c] sh_tokens_safe [of u "[c]" False s] show ?thesis
    by (intro exI [of _ False]) (simp add: shell_quote_def)
qed

lemma sh_tokens_end:
  "s = [] \<or> hd s = CHR '' '' \<Longrightarrow> sh_tokens Plain (Some (x, q)) s = map_option ((#) (Word x)) (sh_tokens Plain None s)"
  by (cases s) (auto simp: emit_def fun_eq_iff option.map_comp comp_def intro: map_option_cong)

lemma append_one [simp]: "(@) [x] = (#) x" "(@) [x, y, z] = (\<lambda>ts. x # y # z # ts)"
  by (simp_all add: fun_eq_iff)

lemma reads_quote: "reads (shell_quote x) [Word x]"
  using sh_tokens_quote [of x] sh_tokens_end [of _ x] unfolding reads_def append_one(1) by metis

lemma reads_join: "(\<And>x. x \<in> set xs \<Longrightarrow> reads (f x) (g x)) \<Longrightarrow> reads (join '' '' (map f xs)) (concat (map g xs))"
proof (induction xs)
  case (Cons x xs)
  show ?case
  proof (cases xs)
    case Nil
    with Cons.prems show ?thesis by simp
  next
    case (Cons y ys)
    with Cons.IH Cons.prems have "reads (f x @ CHR '' '' # join '' '' (map f xs)) (g x @ concat (map g xs))"
      by (intro reads_space) simp_all
    with Cons show ?thesis by simp
  qed
qed simp

lemma reads_words: "reads (shell_join ws) (map Word ws)"
  using reads_join [of ws shell_quote "\<lambda>x. [Word x]"] by (simp add: shell_join_def reads_quote)

lemma reads_fixed:
  "reads ''2>/dev/null'' [IoNumber ''2'', Great, Word ''/dev/null'']" "reads ''||'' [OrIf]" "reads ''true'' [Word ''true'']"
  "reads ''&&'' [AndIf]"
  by (simp_all add: reads_def emit_def emit_number_def shell_safe_def char_class_defs less_eq_char_def
      sh_tokens_end option.map_comp comp_def)

definition step_tokens :: "guest_step \<Rightarrow> sh_token list" where
  "step_tokens st = map Word (argv_arguments (st_argv st))
     @ (if st_quiet_errors st then [IoNumber ''2'', Great, Word ''/dev/null''] else [])
     @ (if st_tolerated st then [OrIf, Word ''true''] else [])"

lemma reads_step: "reads (step_rendered st) (step_tokens st)"
proof -
  note words = reads_words [of "argv_arguments (st_argv st)"]
  note quiet = reads_space [OF words reads_fixed(1)]
  note orelse = reads_space [OF reads_fixed(2,3)]
  show ?thesis using words quiet reads_space [OF words orelse] reads_space [OF quiet orelse]
    by (cases "st_quiet_errors st"; cases "st_tolerated st") (simp_all add: step_rendered_def step_tokens_def)
qed

definition script_tokens :: "remote_script \<Rightarrow> sh_token list" where
  "script_tokens script = join [AndIf] (map step_tokens (script_steps script))"

lemma reads_and: "reads a ts \<Longrightarrow> reads b us \<Longrightarrow> reads (a @ '' && '' @ b) (ts @ [AndIf] @ us)"
  using reads_space [OF reads_space [OF _ reads_fixed(4)], of a ts b us] by simp

lemma reads_script: "reads (script_rendered script) (script_tokens script)"
proof -
  have "reads (join '' && '' (map step_rendered ss)) (join [AndIf] (map step_tokens ss))" for ss
  proof (induction ss)
    case (Cons st ss)
    then show ?case
      using reads_step [of st] reads_and [OF reads_step [of st] Cons.IH] by (cases ss) simp_all
  qed simp
  then show ?thesis by (simp add: script_rendered_def script_tokens_def)
qed

definition step_command :: "guest_step \<Rightarrow> sh_command" where
  "step_command st =
     \<lparr>sc_words = argv_arguments (st_argv st),
      sc_redirects = (if st_quiet_errors st then [(''2'', ''/dev/null'')] else [])\<rparr>"

definition true_command :: sh_command where "true_command = \<lparr>sc_words = [''true''], sc_redirects = []\<rparr>"

definition step_list :: "guest_step \<Rightarrow> (sh_operator \<times> sh_command) list" where
  "step_list st = (And, step_command st) # (if st_tolerated st then [(Or, true_command)] else [])"

text \<open>A step of a script that was made by \<open>Step.of\<close> names a program.\<close>

definition step_ok :: "guest_step \<Rightarrow> bool" where
  "step_ok st \<longleftrightarrow> argv_arguments (st_argv st) \<noteq> []"

lemma sh_parse_words: "sh_parse oper c (map Word ws @ ts) = sh_parse oper (c\<lparr>sc_words := sc_words c @ ws\<rparr>) ts"
  by (induction ws arbitrary: c) simp_all

lemma sh_parse_step:
  assumes "step_ok st"
  shows "sh_parse And no_command (step_tokens st) = Some (step_list st)"
    and "sh_parse And no_command (step_tokens st @ AndIf # ts) = map_option ((@) (step_list st)) (sh_parse And no_command ts)"
  using assms
  by (auto simp: step_ok_def step_tokens_def sh_parse_words step_list_def step_command_def true_command_def no_command_def
      emptied_def option.map_comp comp_def fun_eq_iff intro!: map_option_cong)

lemma sh_read_script:
  assumes "script_steps script \<noteq> []" "list_all step_ok (script_steps script)"
  shows "sh_read (script_rendered script) = Some (concat (map step_list (script_steps script)))"
proof -
  have "sh_parse And no_command (join [AndIf] (map step_tokens ss)) = Some (concat (map step_list ss))"
    if "ss \<noteq> []" "list_all step_ok ss" for ss
    using that
  proof (induction ss)
    case (Cons st ss)
    then show ?case by (cases ss) (simp_all add: sh_parse_step)
  qed simp
  with assms reads_whole [OF reads_script, of script] show ?thesis by (simp add: sh_read_def script_tokens_def)
qed

text \<open>A script under the lock is one command, whose last word is the script itself.\<close>

lemma under_lock_words:
  "under_lock script lock asking private = Inr st \<Longrightarrow>
     last (argv_arguments (st_argv st)) = script_rendered script
       \<and> sh_read (step_rendered st) = Some [(And, step_command st)]"
proof -
  assume u: "under_lock script lock asking private = Inr st"
  then have st: "step_ok st" "\<not> st_tolerated st" "last (argv_arguments (st_argv st)) = script_rendered script"
    by (auto simp: under_lock_def guest_step_of_def argv_of_def step_ok_def SUDO_def SUDO_ASKING_def split: if_splits)
  have "step_rendered st = script_rendered (RemoteScript [st])" by (simp add: script_rendered_def)
  with st sh_read_script [of "RemoteScript [st]"] show ?thesis by (simp add: step_list_def)
qed

subsection \<open>What a script does\<close>

text \<open>The steps in order, stopping at the first that fails and is not tolerated.\<close>

fun run_steps :: "(sh_command \<Rightarrow> 's \<Rightarrow> 's \<times> bool) \<Rightarrow> guest_step list \<Rightarrow> 's \<Rightarrow> 's \<times> bool" where
  "run_steps exec [] s = (s, True)"
| "run_steps exec (st # sts) s =
     (case exec (step_command st) s of (s', ok) \<Rightarrow> if ok \<or> st_tolerated st then run_steps exec sts s' else (s', False))"

text \<open>Tolerated steps come first.\<close>

definition tolerated_first :: "guest_step list \<Rightarrow> bool" where
  "tolerated_first steps \<longleftrightarrow> list_all (\<lambda>st. \<not> st_tolerated st) (dropWhile st_tolerated steps)"

lemma step_list_simps [simp]:
  "\<not> st_tolerated st \<Longrightarrow> step_list st = [(And, step_command st)]"
  "st_tolerated st \<Longrightarrow> step_list st = [(And, step_command st), (Or, true_command)]"
  by (simp_all add: step_list_def)

lemma sh_run_stopped: "list_all (\<lambda>st. \<not> st_tolerated st) sts \<Longrightarrow> sh_run exec (concat (map step_list sts)) s False = (s, False)"
  by (induction sts) simp_all

lemma sh_run_plain:
  "list_all (\<lambda>st. \<not> st_tolerated st) sts \<Longrightarrow> sh_run exec (concat (map step_list sts)) s True = run_steps exec sts s"
proof (induction sts arbitrary: s)
  case (Cons st sts)
  obtain s' ok where "exec (step_command st) s = (s', ok)" by (cases "exec (step_command st) s")
  with Cons sh_run_stopped [of sts exec s'] show ?case by (cases ok) simp_all
qed simp

lemma sh_run_steps:
  assumes "\<And>s. exec true_command s = (s, True)"
  shows "tolerated_first sts \<Longrightarrow> sh_run exec (concat (map step_list sts)) s True = run_steps exec sts s"
proof (induction sts arbitrary: s)
  case (Cons st sts)
  show ?case
  proof (cases "st_tolerated st")
    case True
    obtain s' ok where "exec (step_command st) s = (s', ok)" by (cases "exec (step_command st) s")
    with True Cons assms show ?thesis by (cases ok) (simp_all add: tolerated_first_def)
  next
    case False
    with Cons.prems show ?thesis
      using sh_run_plain [of "st # sts" exec s] by (simp only: tolerated_first_def dropWhile.simps if_False)
  qed
qed simp

end
