(* ===== verification/HostPorts.thy ===== *)
theory HostPorts
  imports GuestShell Hypervisor Clock
begin

section \<open>The host's ports, bundled (ports/)\<close>

text \<open>
  The protocols of ports/process.py, ids.py, digesting.py, archives.py, downloading.py and signing.py
  as records of operations over one state, and the bundle of ports/portset.py. The environment a
  bundle may attest to is the meet of its members', so one fake makes it unable to
  authorise a result; the bundle a stage plans with refuses every call and touches nothing. The
  fakes that answer from a table or a counter follow.
\<close>

subsection \<open>The protocols\<close>

record run_options =
  ro_stdin :: "bytes option"
  ro_transcript :: "safe_path option"
  ro_cwd :: "safe_path option"
  ro_variables :: "(str, str) dict option"
  ro_dropping :: "capability set"

definition no_options :: run_options where
  "no_options = \<lparr>ro_stdin = None, ro_transcript = None, ro_cwd = None, ro_variables = None, ro_dropping = {}\<rparr>"

record 'w process_port =
  pp_environment :: environment_kind
  pp_run :: "argv \<Rightarrow> deadline \<Rightarrow> output_limit \<Rightarrow> run_options \<Rightarrow> ('w, completed_run) io"
  pp_locate :: "str \<Rightarrow> ('w, str option) io"

record 'w identity_port =
  ip_environment :: environment_kind
  ip_run_id :: "('w, run_id) io"
  ip_token :: "('w, token) io"

record 'w digest_port =
  dp_environment :: environment_kind
  dp_file :: "safe_path \<Rightarrow> ('w, digest) io"
  dp_forget :: "('w, unit) io"

record source_set =
  ss_root :: source_root
  ss_relative_paths :: "str list"

record bundle_candidate =
  bc_path :: str
  bc_mode :: file_mode
  bc_payload :: bytes

record bundled_file =
  bf_path :: str
  bf_mode :: file_mode
  bf_digest :: digest

record source_bundle =
  sb_archive :: safe_path
  sb_archive_digest :: digest
  sb_files :: "bundled_file list"
  sb_merkle_root :: merkle_root_id
  sb_reads :: int

type_synonym screen = "bundle_candidate \<Rightarrow> unit res"

definition admit_all :: screen where
  "admit_all candidate = Inr ()"

record 'w archive_port =
  ar_environment :: environment_kind
  ar_pack :: "safe_path \<Rightarrow> safe_path \<Rightarrow> str \<Rightarrow> ('w, unit) io"
  ar_extract :: "safe_path \<Rightarrow> safe_path \<Rightarrow> ('w, unit) io"
  ar_members :: "safe_path \<Rightarrow> ('w, str list) io"
  ar_bundle :: "source_set \<Rightarrow> safe_path \<Rightarrow> screen \<Rightarrow> ('w, source_bundle) io"

record 'w download_port =
  dw_environment :: environment_kind
  dw_fetch :: "https_url \<Rightarrow> safe_path \<Rightarrow> digest \<Rightarrow> deadline \<Rightarrow> ('w, digest) io"

record 'w signing_port =
  sg_environment :: environment_kind
  sg_verify :: "bytes \<Rightarrow> bytes \<Rightarrow> regular_file \<Rightarrow> ('w, bool) io"
  sg_sign :: "bytes \<Rightarrow> regular_file \<Rightarrow> ('w, bytes) io"
  sg_generate_key_pair :: "safe_path \<Rightarrow> safe_path \<Rightarrow> ('w, unit) io"

subsection \<open>portset.py\<close>

record 'w host_ports =
  hp_processes :: "'w process_port"
  hp_files :: "'w files_port"
  hp_clock :: "'w clock_port"
  hp_identities :: "'w identity_port"
  hp_locks :: "'w lock_port"
  hp_digests :: "'w digest_port"
  hp_archives :: "'w archive_port"
  hp_signing :: "'w signing_port"
  hp_downloads :: "'w download_port"
  hp_hypervisor :: "'w hypervisor_port"
  hp_monitor :: "'w qmp_port"
  hp_guest :: "'w guest_port"

definition member_environments :: "'w host_ports \<Rightarrow> environment_kind list" where
  "member_environments ports =
     [pp_environment (hp_processes ports), fp_environment (hp_files ports), cp_environment (hp_clock ports),
      ip_environment (hp_identities ports), lk_environment (hp_locks ports), dp_environment (hp_digests ports),
      ar_environment (hp_archives ports), sg_environment (hp_signing ports), dw_environment (hp_downloads ports),
      hv_environment (hp_hypervisor ports), qp_environment (hp_monitor ports), gp_environment (hp_guest ports)]"

definition bundle_environment :: "'w host_ports \<Rightarrow> environment_kind res" where
  "bundle_environment ports = meet_environments (member_environments ports)"

definition bundle_attestable :: "'w host_ports \<Rightarrow> environment_kind option \<Rightarrow> environment_kind res" where
  "bundle_attestable ports expected = rbind (bundle_environment ports) (\<lambda>k. require_attestable k expected)"

text \<open>The part of the bundle a machine is run through.\<close>

definition machine_part :: "'w host_ports \<Rightarrow> 'w machine_ports" where
  "machine_part ports =
     \<lparr>mp_files = hp_files ports, mp_clock = hp_clock ports, mp_hypervisor = hp_hypervisor ports,
      mp_locks = hp_locks ports, mp_monitor = hp_monitor ports\<rparr>"

text \<open>Weakest member: one fake and nothing is attested; an attested environment is every member's.\<close>

lemma bundle_attestable_all:
  "bundle_attestable ports expected = Inr k \<Longrightarrow>
     k \<noteq> SIMULATED \<and> (\<forall>m \<in> set (member_environments ports). m = k) \<and> (expected = None \<or> expected = Some k)"
  by (auto simp: bundle_attestable_def bundle_environment_def meet_environments_Inr rbind_eq_Inr require_attestable_Inr
      split: if_splits)

lemma bundle_with_fake:
  "SIMULATED \<in> set (member_environments ports) \<Longrightarrow> bundle_attestable ports expected = Inl (Refusal SIMULATED_ENVIRONMENT)"
  by (auto simp: bundle_attestable_def bundle_environment_def meet_environments_def member_environments_def
      require_attestable_def ATTESTABLE_def)

subsection \<open>planning.py\<close>

text \<open>Whatever is called, the call raises an internal defect.\<close>

abbreviation refuse :: "('w, 'a) io" where
  "refuse \<equiv> io_raise InternalDefect"

definition planning_files :: "'w files_port" where
  "planning_files =
     \<lparr>fp_environment = SIMULATED, fp_read_bytes = \<lambda>_ _. refuse, fp_write_atomic = \<lambda>_ _ _. refuse,
      fp_append_line = \<lambda>_ _ _. refuse, fp_make_directory = \<lambda>_ _. refuse, fp_copy = \<lambda>_ _. refuse,
      fp_link = \<lambda>_ _. refuse, fp_reserve = \<lambda>_ _ _. refuse, fp_patch = \<lambda>_ _ _. refuse, fp_remove = \<lambda>_. refuse,
      fp_free_space = \<lambda>_. refuse, fp_exists = \<lambda>_. refuse, fp_mode_of = \<lambda>_. refuse, fp_list_tree = \<lambda>_. refuse,
      fp_list_directory = \<lambda>_. refuse, fp_resolve = \<lambda>_. refuse, fp_inspect = \<lambda>_. refuse, fp_identity = \<lambda>_. refuse,
      fp_replace = \<lambda>_ _. refuse\<rparr>"

definition for_planning :: "'w host_ports" where
  "for_planning =
     \<lparr>hp_processes = \<lparr>pp_environment = SIMULATED, pp_run = \<lambda>_ _ _ _. refuse, pp_locate = \<lambda>_. refuse\<rparr>,
      hp_files = planning_files,
      hp_clock = \<lparr>cp_environment = SIMULATED, cp_now = refuse, cp_stamp = refuse, cp_sleep = \<lambda>_. refuse\<rparr>,
      hp_identities = \<lparr>ip_environment = SIMULATED, ip_run_id = refuse, ip_token = refuse\<rparr>,
      hp_locks = \<lparr>lk_environment = SIMULATED, lk_acquire = \<lambda>_ _. refuse, lk_release = \<lambda>_. refuse, lk_holder = \<lambda>_. refuse\<rparr>,
      hp_digests = \<lparr>dp_environment = SIMULATED, dp_file = \<lambda>_. refuse, dp_forget = refuse\<rparr>,
      hp_archives = \<lparr>ar_environment = SIMULATED, ar_pack = \<lambda>_ _ _. refuse, ar_extract = \<lambda>_ _. refuse,
        ar_members = \<lambda>_. refuse, ar_bundle = \<lambda>_ _ _. refuse\<rparr>,
      hp_signing = \<lparr>sg_environment = SIMULATED, sg_verify = \<lambda>_ _ _. refuse, sg_sign = \<lambda>_ _. refuse,
        sg_generate_key_pair = \<lambda>_ _. refuse\<rparr>,
      hp_downloads = \<lparr>dw_environment = SIMULATED, dw_fetch = \<lambda>_ _ _ _. refuse\<rparr>,
      hp_hypervisor = \<lparr>hv_environment = SIMULATED, hv_capacity = \<lambda>_. refuse, hv_spawn = \<lambda>_ _ _ _. refuse,
        hv_running = \<lambda>_. refuse, hv_terminate = \<lambda>_. refuse\<rparr>,
      hp_monitor = \<lparr>qp_environment = SIMULATED, qp_connect = \<lambda>_ _. refuse, qp_execute = \<lambda>_. refuse, qp_close = refuse\<rparr>,
      hp_guest = \<lparr>gp_environment = SIMULATED, gp_run = \<lambda>_ _. refuse, gp_send = \<lambda>_ _ _ _. refuse,
        gp_receive = \<lambda>_ _ _ _ _. refuse\<rparr>\<rparr>"

lemma planning_attests_nothing: "bundle_attestable for_planning expected = Inl (Refusal SIMULATED_ENVIRONMENT)"
  by (rule bundle_with_fake) (simp add: for_planning_def member_environments_def planning_files_def)

subsection \<open>fake_ids.py\<close>

fun hex_of_nat :: "nat \<Rightarrow> str" where
  "hex_of_nat n = (if n < 16 then [hex_digit n] else hex_of_nat (n div 16) @ [hex_digit (n mod 16)])"

declare hex_of_nat.simps [simp del]

text \<open>The state is the number of identifiers issued.\<close>

definition sequence_next :: "(nat, hex_identifier) io" where
  "sequence_next n = (n + 1, mk_hex_identifier (zfill 32 (hex_of_nat (n + 1))))"

definition sequence_identities :: "nat identity_port" where
  "sequence_identities = \<lparr>ip_environment = SIMULATED, ip_run_id = sequence_next, ip_token = sequence_next\<rparr>"

text \<open>Identifiers are told apart by the number they write, so no two that are issued are the same.\<close>

definition hex_number :: "str \<Rightarrow> nat" where
  "hex_number s = foldl (\<lambda>n c. 16 * n + the (hex_val c)) 0 s"

lemma hex_number_of_nat: "hex_number (hex_of_nat n) = n"
proof (induction n rule: hex_of_nat.induct)
  case (1 n)
  then show ?case by (subst hex_of_nat.simps) (simp add: hex_number_def hex_val_digit)
qed

lemma hex_number_zeros: "hex_number (zfill w s) = hex_number s"
proof -
  have "foldl (\<lambda>n c. 16 * n + the (hex_val c)) 0 (replicate k CHR ''0'') = 0" for k
    by (induction k) (simp_all add: hex_val_def is_digit_def less_eq_char_def byte_of_def)
  then show ?thesis by (simp add: hex_number_def zfill_def)
qed

lemma sequence_next_value: "sequence_next n = (m, Inr i) \<Longrightarrow> m = n + 1 \<and> hex_number (identifier_value i) = n + 1"
  by (auto simp: sequence_next_def hex_number_zeros hex_number_of_nat)

lemma sequence_distinct:
  "io_mapM (\<lambda>_. sequence_next) xs n = (m, Inr is) \<Longrightarrow>
     distinct is \<and> (\<forall>i \<in> set is. n < hex_number (identifier_value i))"
proof (induction xs arbitrary: n m "is")
  case (Cons x xs)
  then obtain n' i js where i: "sequence_next n = (n', Inr i)" "io_mapM (\<lambda>_. sequence_next) xs n' = (m, Inr js)" "is = i # js"
    unfolding io_mapM_Inr by blast
  with Cons.IH [OF i(2)] sequence_next_value [OF i(1)] show ?case by force
qed simp

subsection \<open>fake_process.py\<close>

record process_reply =
  py_exit_code :: int
  py_stdout :: bytes
  py_stderr :: bytes
  py_delay :: elapsed
  py_missing :: bool

record scripted_process =
  sp_replies :: "(str list, process_reply) dict"
  sp_known :: "(str, str) dict"
  sp_calls :: "argv list"
  sp_transcripts :: "safe_path list"
  sp_directories :: "safe_path option list"
  sp_variables :: "(str, str) dict option list"
  sp_restrictions :: "capability set list"

definition process_new :: "(str list, process_reply) dict \<Rightarrow> (str, str) dict \<Rightarrow> scripted_process" where
  "process_new replies known =
     \<lparr>sp_replies = replies, sp_known = known, sp_calls = [], sp_transcripts = [], sp_directories = [],
      sp_variables = [], sp_restrictions = []\<rparr>"

definition process_locate :: "str \<Rightarrow> (scripted_process, str option) io" where
  "process_locate program = io_read (\<lambda>p. map_of (sp_known p) program)"

definition process_expect :: "str list \<Rightarrow> process_reply \<Rightarrow> scripted_process \<Rightarrow> scripted_process" where
  "process_expect a reply p = p\<lparr>sp_replies := dict_set a reply (sp_replies p)\<rparr>"

definition process_noted :: "argv \<Rightarrow> run_options \<Rightarrow> scripted_process \<Rightarrow> scripted_process" where
  "process_noted a opts p = p\<lparr>
     sp_calls := sp_calls p @ [a],
     sp_directories := sp_directories p @ [ro_cwd opts],
     sp_variables := sp_variables p @ [ro_variables opts],
     sp_restrictions := sp_restrictions p @ [ro_dropping opts],
     sp_transcripts := sp_transcripts p @ (case ro_transcript opts of None \<Rightarrow> [] | Some t \<Rightarrow> [t])\<rparr>"

text \<open>The captured part of two streams, or nothing of them when they went to a transcript.\<close>

definition captured :: "int \<Rightarrow> bytes \<Rightarrow> bytes \<Rightarrow> output_limit \<Rightarrow> safe_path option \<Rightarrow> completed_run res" where
  "captured code stdout stderr l transcript =
     (if transcript \<noteq> None
      then Inr \<lparr>run_exit_code = code, run_stdout = [], run_stderr = [], run_truncated = False\<rparr>
      else rbind (mk_limit (output_limit_value l)) (\<lambda>bound.
             let out = bounded_take stdout bound; err = bounded_take stderr bound
             in Inr \<lparr>run_exit_code = code, run_stdout = bounded_data out, run_stderr = bounded_data err,
                     run_truncated = bounded_truncated out \<or> bounded_truncated err\<rparr>))"

definition process_run ::
  "argv \<Rightarrow> deadline \<Rightarrow> output_limit \<Rightarrow> run_options \<Rightarrow> (scripted_process, completed_run) io" where
  "process_run a due l opts p =
     (process_noted a opts p,
      case map_of (sp_replies p) (argv_arguments a) of
        None \<Rightarrow> Inl PortFailure
      | Some reply \<Rightarrow>
          if py_missing reply then Inl PortFailure
          else if elapsed_seconds (deadline_budget due) < elapsed_seconds (py_delay reply) then Inl PortFailure
          else captured (py_exit_code reply) (py_stdout reply) (py_stderr reply) l (ro_transcript opts))"

definition scripted_process_port :: "scripted_process process_port" where
  "scripted_process_port = \<lparr>pp_environment = SIMULATED, pp_run = process_run, pp_locate = process_locate\<rparr>"

subsection \<open>fake_guestshell.py\<close>

record guest_reply =
  gy_exit_code :: int
  gy_stdout :: bytes
  gy_stderr :: bytes

record guest_sent =
  gs_local :: safe_path
  gs_remote :: remote_path

record guest_received =
  gc_remote :: remote_path
  gc_into :: safe_path
  gc_recursive :: bool

record scripted_guest =
  sc_replies :: "(str, guest_reply) dict"
  sc_strict :: bool
  sc_runs :: "guest_run list"
  sc_targets :: "guest_target list"
  sc_sent :: "guest_sent list"
  sc_received :: "guest_received list"

definition guest_new :: "(str, guest_reply) dict \<Rightarrow> bool \<Rightarrow> scripted_guest" where
  "guest_new replies strict =
     \<lparr>sc_replies = replies, sc_strict = strict, sc_runs = [], sc_targets = [], sc_sent = [], sc_received = []\<rparr>"

definition guest_expect :: "str \<Rightarrow> guest_reply \<Rightarrow> scripted_guest \<Rightarrow> scripted_guest" where
  "guest_expect script reply g = g\<lparr>sc_replies := dict_set script reply (sc_replies g)\<rparr>"

definition scripted_guest_run :: "guest_target \<Rightarrow> guest_run \<Rightarrow> (scripted_guest, completed_run) io" where
  "scripted_guest_run target run g =
     (g\<lparr>sc_targets := sc_targets g @ [target], sc_runs := sc_runs g @ [run]\<rparr>,
      let text = script_rendered (gr_script run)
      in case map_of (sc_replies g) text of
           Some reply \<Rightarrow> captured (gy_exit_code reply) (gy_stdout reply) (gy_stderr reply) (gr_limit run) (gr_transcript run)
         | None \<Rightarrow>
             if sc_strict g then Inl PortFailure
             else captured 0 (text @ (case gr_stdin run of None \<Rightarrow> [] | Some b \<Rightarrow> b)) [] (gr_limit run) (gr_transcript run))"

definition scripted_guest_send :: "guest_target \<Rightarrow> safe_path \<Rightarrow> remote_path \<Rightarrow> deadline \<Rightarrow> (scripted_guest, unit) io" where
  "scripted_guest_send target local remote due g =
     (g\<lparr>sc_targets := sc_targets g @ [target], sc_sent := sc_sent g @ [\<lparr>gs_local = local, gs_remote = remote\<rparr>]\<rparr>, Inr ())"

definition scripted_guest_receive ::
  "guest_target \<Rightarrow> remote_path \<Rightarrow> safe_path \<Rightarrow> bool \<Rightarrow> deadline \<Rightarrow> (scripted_guest, unit) io" where
  "scripted_guest_receive target remote into recursive due g =
     (g\<lparr>sc_targets := sc_targets g @ [target],
        sc_received := sc_received g @ [\<lparr>gc_remote = remote, gc_into = into, gc_recursive = recursive\<rparr>]\<rparr>, Inr ())"

definition scripted_guest_port :: "scripted_guest guest_port" where
  "scripted_guest_port =
     \<lparr>gp_environment = SIMULATED, gp_run = scripted_guest_run, gp_send = scripted_guest_send,
      gp_receive = scripted_guest_receive\<rparr>"

text \<open>What a run returns is within the limit it was asked for.\<close>

lemma captured_bounded:
  "captured code out err l transcript = Inr r \<Longrightarrow>
     transcript = None \<longrightarrow> int (length (run_stdout r)) \<le> output_limit_value l \<and> int (length (run_stderr r)) \<le> output_limit_value l"
  by (auto simp: captured_def Let_def rbind_eq_Inr bounded_take_def limit_nat_def mk_limit_def min_def split: if_splits)

end
