(* ===== verification/PyDecode.thy ===== *)
theory PyDecode
  imports PyJson
begin

section \<open>Decoding with replacement\<close>

text \<open>
  \<open>bytes.decode(errors="replace")\<close>: what is well formed is kept; each longest start of a sequence that is not
  becomes U+FFFD, whose encoding is \<open>REPLACEMENT\<close>. A text stands for its encoding, so decoding what is
  well formed changes nothing.
\<close>

definition REPLACEMENT :: str where "REPLACEMENT = [CHR 0xEF, CHR 0xBF, CHR 0xBD]"

text \<open>The ranges the bytes after a leading byte must lie in, or nothing for a byte that leads nothing.\<close>

definition utf8_tail :: "char \<Rightarrow> (nat \<times> nat) list option" where
  "utf8_tail c =
     (let b = byte_of c in
      if b < 0x80 then Some []
      else if 0xC2 \<le> b \<and> b \<le> 0xDF then Some [(0x80, 0xBF)]
      else if 0xE0 \<le> b \<and> b \<le> 0xEF then
        Some [(if b = 0xE0 then 0xA0 else 0x80, if b = 0xED then 0x9F else 0xBF), (0x80, 0xBF)]
      else if 0xF0 \<le> b \<and> b \<le> 0xF4 then
        Some [(if b = 0xF0 then 0x90 else 0x80, if b = 0xF4 then 0x8F else 0xBF), (0x80, 0xBF), (0x80, 0xBF)]
      else None)"

text \<open>How many bytes fit the ranges, in order.\<close>

fun fitting :: "(nat \<times> nat) list \<Rightarrow> bytes \<Rightarrow> nat" where
  "fitting ((lo, hi) # rs) (c # s) = (if cont lo hi c then Suc (fitting rs s) else 0)"
| "fitting _ _ = 0"

function (sequential) decode_replacing :: "bytes \<Rightarrow> str" where
  "decode_replacing [] = []"
| "decode_replacing (c # s) =
     (case utf8_tail c of
        None \<Rightarrow> REPLACEMENT @ decode_replacing s
      | Some rs \<Rightarrow>
          let n = fitting rs s
          in if n = length rs then c # take n s @ decode_replacing (drop n s)
             else REPLACEMENT @ decode_replacing (drop n s))"
  by pat_completeness auto
termination
  by (relation "measure length") (auto simp: le_imp_less_Suc)

lemma decode_replacing_ascii: "list_all is_ascii s \<Longrightarrow> decode_replacing s = s"
  by (induction s) (simp_all add: utf8_tail_def is_ascii_def)

lemma decode_replacing_step:
  "utf8_tail c = Some rs \<Longrightarrow> fitting rs s = length rs \<Longrightarrow>
     decode_replacing (c # s) = c # take (length rs) s @ decode_replacing (drop (length rs) s)"
  by (simp add: Let_def)

declare decode_replacing.simps [simp del]

lemma decode_replacing_ok: "utf8_ok True s \<Longrightarrow> decode_replacing s = s"
proof (induction "True" s rule: utf8_ok.induct)
  case (2 c s)
  let ?b = "byte_of c"
  from "2.prems" consider "?b < 0x80" | "0xC2 \<le> ?b" "?b \<le> 0xDF" | "0xE0 \<le> ?b" "?b \<le> 0xEF" | "0xF0 \<le> ?b" "?b \<le> 0xF4"
    by (auto simp: Let_def split: if_splits)
  then show ?case
  proof cases
    case 1
    with 2 show ?thesis using decode_replacing_step [of c "[]" s] by (simp add: utf8_tail_def)
  next
    case b: 2
    with "2.prems" obtain d s' where "s = d # s'" "cont 0x80 0xBF d" "utf8_ok True s'" by (cases s) auto
    with b "2.hyps"(2) [OF refl] show ?thesis using decode_replacing_step [of c _ s] by (simp add: utf8_tail_def Let_def)
  next
    case b: 3
    with "2.prems" obtain d e s' where "s = d # e # s'" "cont 0x80 0xBF e" "utf8_ok True s'"
      "cont (if ?b = 0xE0 then 0xA0 else 0x80) (if ?b = 0xED then 0x9F else 0xBF) d"
      by (cases s; cases "tl s") (auto simp: Let_def)
    with b "2.hyps"(3) [OF refl] show ?thesis using decode_replacing_step [of c _ s] by (simp add: utf8_tail_def Let_def)
  next
    case b: 4
    with "2.prems" obtain d e f s' where "s = d # e # f # s'" "cont 0x80 0xBF e" "cont 0x80 0xBF f" "utf8_ok True s'"
      "cont (if ?b = 0xF0 then 0x90 else 0x80) (if ?b = 0xF4 then 0x8F else 0xBF) d"
      by (cases s; cases "tl s"; cases "tl (tl s)") (auto simp: Let_def)
    with b "2.hyps"(4) [OF refl] show ?thesis using decode_replacing_step [of c _ s] by (simp add: utf8_tail_def Let_def)
  qed
qed (simp add: decode_replacing.simps)

end
