(* ===== verification/FingerprintTrace.thy ===== *)
theory FingerprintTrace
  imports HostPorts PyDecode PyCoerce StoreMark
begin

section \<open>Bus traffic reduced to ownership events (verification/fingerprinttrace.py)\<close>

text \<open>
  A trace is fed one parsed bus message at a time and keeps, of a call, its serial and device; of a
  reply, that it answered a pending call and how; of a status, the status; and who left the bus.
  A message that is malformed raises after it may have changed what the trace
  inferred, so an operation returns the state with its result. The lemmas say that what is kept
  holds no text but the trace's own words, bus names, device paths and error names
  (\<open>feed_keeps_clean\<close>), that a capture is bounded, and that the owners a faultless capture
  reports are those its events say (\<open>consume_replays\<close>).
\<close>

subsection \<open>Names and patterns\<close>

definition SERVICE :: str where "SERVICE = ''net.reactivated.Fprint''"
definition INTERFACE :: str where "INTERFACE = SERVICE @ ''.Device''"
definition BUS :: str where "BUS = ''org.freedesktop.DBus''"
definition OWNER_CHANGED :: str where "OWNER_CHANGED = ''NameOwnerChanged''"
definition ALREADY_IN_USE :: str where "ALREADY_IN_USE = SERVICE @ ''.Error.AlreadyInUse''"

abbreviation digits_pattern :: pattern where "digits_pattern \<equiv> plus (RClass is_digit)"

definition DEVICE_PATH :: pattern where
  "DEVICE_PATH = RSeq (lit ''/net/reactivated/Fprint/Device/'') digits_pattern"
definition UNIQUE_NAME :: pattern where
  "UNIQUE_NAME = RSeq (lit '':'') (RSeq digits_pattern (RSeq (lit ''.'') digits_pattern))"
definition ERROR_NAME :: pattern where
  "ERROR_NAME = RSeq (lit (SERVICE @ ''.Error.'')) (plus (RClass (\<lambda>c. is_lower c \<or> is_upper c)))"

definition METHODS :: "str list" where
  "METHODS = [''Claim'', ''Release'', ''EnrollStart'', ''EnrollStop'', ''VerifyStart'', ''VerifyStop'']"
definition STATUS_SIGNALS :: "str list" where
  "STATUS_SIGNALS = [''EnrollStatus'', ''VerifyStatus'']"
definition STATUSES :: "str list" where
  "STATUSES =
     [''enroll-stage-passed'', ''enroll-completed'', ''enroll-failed'', ''enroll-data-full'', ''enroll-disconnected'',
      ''enroll-unknown-error'', ''enroll-retry-scan'', ''enroll-swipe-too-short'', ''enroll-finger-not-centered'',
      ''enroll-remove-and-retry'', ''enroll-duplicate'', ''verify-match'', ''verify-no-match'', ''verify-retry-scan'',
      ''verify-swipe-too-short'', ''verify-finger-not-centered'', ''verify-remove-and-retry'', ''verify-disconnected'',
      ''verify-unknown-error'']"

definition OBSERVED :: str where "OBSERVED = ''OBSERVED''"
definition INCOMPLETE :: str where "INCOMPLETE = ''INCOMPLETE''"
definition UNKNOWN :: str where "UNKNOWN = ''UNKNOWN''"
definition NOT_TESTED_TEXT :: str where "NOT_TESTED_TEXT = ''NOT TESTED''"
definition OTHER_ERROR :: str where "OTHER_ERROR = ''OTHER''"
definition TRACE_SCOPE :: str where "TRACE_SCOPE = ''fprintd ownership observations, not hardware acceptance''"
definition MALFORMED :: str where "MALFORMED = ''Malformed monitor event''"
definition SIZE_LIMIT :: str where "SIZE_LIMIT = ''Capture size limit reached''"
definition PARTIAL :: str where "PARTIAL = ''Partial final monitor event''"

definition PROCESS_QUERY :: argv where
  "PROCESS_QUERY = Argv [''busctl'', ''--system'', ''--auto-start=no'', ''--timeout=1'', ''call'', BUS,
     ''/org/freedesktop/DBus'', BUS, ''GetConnectionUnixProcessID'', ''s'']"

definition unique_name :: "str \<Rightarrow> bool" where
  "unique_name s = fullmatch UNIQUE_NAME s"

definition unique :: "json \<Rightarrow> bool" where
  "unique value = (case value of JStr s \<Rightarrow> unique_name s | _ \<Rightarrow> False)"

abbreviation unknown_client :: json where "unknown_client \<equiv> JObj [(''status'', JStr UNKNOWN)]"

text \<open>\<open>PROCESS_ANSWER\<close>: \<open>u ([1-9][0-9]*)\s*\<close>, with the group it captures.\<close>

definition process_answer :: "str \<Rightarrow> nat option" where
  "process_answer text =
     (case strip_prefix ''u '' text of
        None \<Rightarrow> None
      | Some rest \<Rightarrow>
          let number = takeWhile is_digit rest; blanks = dropWhile is_digit rest
          in if number \<noteq> [] \<and> hd number \<noteq> CHR ''0'' \<and> list_all is_space blanks then Some (nat_of_digits number) else None)"

definition io_catch :: "('w, 'a) io \<Rightarrow> (exn \<Rightarrow> bool) \<Rightarrow> ('w, 'a) io \<Rightarrow> ('w, 'a) io" where
  "io_catch m handles h w = (case m w of (w', Inl e) \<Rightarrow> if handles e then h w' else (w', Inl e) | (w', Inr x) \<Rightarrow> (w', Inr x))"

text \<open>\<open>int\<close> raises for a text of more digits than this; the number has no leading zero.\<close>

definition INT_DIGITS_LIMIT :: nat where "INT_DIGITS_LIMIT = 4300"

definition client_process :: "'w host_ports \<Rightarrow> str \<Rightarrow> ('w, json) io" where
  "client_process ports name =
     (if \<not> unique_name name then io_return unknown_client
      else
        io_bind
          (io_catch
            (io_bind (pp_run (hp_processes ports) (argv_extended PROCESS_QUERY [name]) BUS_QUERY_DEADLINE
                        output_limit_default no_options) (\<lambda>r. io_return (Some r)))
            (\<lambda>e. e = PortFailure) (io_return None)) (\<lambda>answered.
          case answered of
            None \<Rightarrow> io_return unknown_client
          | Some r \<Rightarrow>
              (case process_answer (decode_replacing (run_stdout r)) of
                 None \<Rightarrow> io_return unknown_client
               | Some pid \<Rightarrow>
                   if \<not> succeeded r then io_return unknown_client
                   else if INT_DIGITS_LIMIT < length (str_of_nat pid) then io_raise ValueError
                   else io_catch
                     (io_bind (io_lift (mk_safe_path (''/proc/'' @ str_of_nat pid @ ''/exe''))) (\<lambda>link.
                      io_bind (fp_resolve (hp_files ports) link) (\<lambda>program.
                        io_return (JObj [(''status'', JStr OBSERVED), (''pid'', JInt (int pid)),
                          (''executable'', JStr (path_name (safe_path_str program)))]))))
                     (\<lambda>e. e = PortFailure) (io_return unknown_client))))"

subsection \<open>The trace\<close>

record trace_pending =
  pd_method :: str
  pd_device :: str
  pd_destination :: str

record trace =
  tc_clients :: "(str, json) dict"
  tc_pending :: "(str \<times> int, trace_pending) dict"
  tc_owners :: "(str, str option) dict"
  tc_disconnected :: "str list"
  tc_events :: "members list"
  tc_errors :: "str list"

definition trace_new :: trace where
  "trace_new = \<lparr>tc_clients = [], tc_pending = [], tc_owners = [], tc_disconnected = [], tc_events = [], tc_errors = []\<rparr>"

text \<open>\<open>message.get(key)\<close>\<close>

abbreviation get :: "members \<Rightarrow> str \<Rightarrow> json" where
  "get m key \<equiv> dict_get m key JNull"

text \<open>Membership in a set of texts: a list or an object cannot be hashed.\<close>

definition member_in :: "json \<Rightarrow> str list \<Rightarrow> bool res" where
  "member_in j words = (case j of JStr s \<Rightarrow> Inr (s \<in> set words) | JList _ \<Rightarrow> Inl TypeError | JObj _ \<Rightarrow> Inl TypeError | _ \<Rightarrow> Inr False)"

definition dict_without :: "'k \<Rightarrow> ('k, 'v) dict \<Rightarrow> ('k, 'v) dict" where
  "dict_without k d = filter (\<lambda>(k', v). k' \<noteq> k) d"

text \<open>What a call says: its client, serial, method, device and destination, or nothing when it is no call of interest.\<close>

definition call_parts :: "members \<Rightarrow> (str \<times> int \<times> str \<times> str \<times> str) option res" where
  "call_parts m =
     (if get m ''interface'' \<noteq> JStr INTERFACE then Inr None
      else rbind (member_in (get m ''member'') METHODS) (\<lambda>known.
        if \<not> known then Inr None
        else case (get m ''member'', get m ''path'', get m ''sender'', get m ''destination'') of
          (JStr method, JStr path, JStr client, JStr destination) \<Rightarrow>
            if \<not> fullmatch DEVICE_PATH path then Inr None
            else if \<not> unique_name client \<or> \<not> (destination = SERVICE \<or> unique_name destination) then Inr None
            else (case get m ''cookie'' of
                    JInt serial \<Rightarrow> if serial \<le> 0 then Inl ValueError else Inr (Some (client, serial, method, path, destination))
                  | _ \<Rightarrow> Inl ValueError)
        | _ \<Rightarrow> Inr None))"

definition call_event :: "str \<Rightarrow> int \<Rightarrow> str \<Rightarrow> str \<Rightarrow> members" where
  "call_event client serial method path =
     [(''kind'', JStr ''call''), (''client'', JStr client), (''serial'', JInt serial), (''method'', JStr method),
      (''device'', JStr path)]"

text \<open>A part of the state \<open>('w \<times> trace)\<close>: what acts on the trace alone.\<close>

definition on_trace :: "(trace, 'a) io \<Rightarrow> ('w \<times> trace, 'a) io" where
  "on_trace m wt = (case m (snd wt) of (t, r) \<Rightarrow> ((fst wt, t), r))"

type_synonym 'w lookup = "(str \<Rightarrow> ('w, json) io) option"

definition known_client :: "'w lookup \<Rightarrow> str \<Rightarrow> ('w \<times> trace, unit) io" where
  "known_client lookup client =
     io_bind (io_read (\<lambda>wt. dict_has (tc_clients (snd wt)) client)) (\<lambda>known.
       if known then io_return ()
       else io_bind (case lookup of Some f \<Rightarrow> on_port (f client) | None \<Rightarrow> io_return unknown_client) (\<lambda>found.
              on_trace (\<lambda>t. (t\<lparr>tc_clients := dict_set client found (tc_clients t)\<rparr>, Inr ()))))"

definition trace_call :: "'w lookup \<Rightarrow> members \<Rightarrow> ('w \<times> trace, members option) io" where
  "trace_call lookup m =
     io_bind (io_lift (call_parts m)) (\<lambda>parts.
       case parts of
         None \<Rightarrow> io_return None
       | Some (client, serial, method, path, destination) \<Rightarrow>
           io_bind (known_client lookup client) (\<lambda>_.
             on_trace (\<lambda>t.
               (t\<lparr>tc_pending := dict_set (client, serial)
                     \<lparr>pd_method = method, pd_device = path, pd_destination = destination\<rparr> (tc_pending t)\<rparr>,
                Inr (Some (call_event client serial method path))))))"

definition last_owner :: "trace \<Rightarrow> str \<Rightarrow> str option" where
  "last_owner t device = (case map_of (tc_owners t) device of Some (Some owner) \<Rightarrow> Some owner | _ \<Rightarrow> None)"

definition or_unknown :: "str option \<Rightarrow> json" where
  "or_unknown previous = JStr (case previous of None \<Rightarrow> UNKNOWN | Some p \<Rightarrow> if p = [] then UNKNOWN else p)"

definition error_fields :: "trace \<Rightarrow> trace_pending \<Rightarrow> str \<Rightarrow> json \<Rightarrow> members" where
  "error_fields t call client name =
     (let previous = last_owner t (pd_device call)
      in [(''error'', JStr (case name of JStr s \<Rightarrow> if fullmatch ERROR_NAME s then s else OTHER_ERROR | _ \<Rightarrow> OTHER_ERROR)),
          (''last_observed_owner'', or_unknown previous),
          (''caller_was_last_owner'', case previous of None \<Rightarrow> JNull | Some p \<Rightarrow> if p = [] then JNull else JBool (p = client))])"

definition claim_fields :: "trace \<Rightarrow> trace_pending \<Rightarrow> members" where
  "claim_fields t call =
     (let previous = last_owner t (pd_device call)
      in [(''previous_owner'', or_unknown previous),
          (''after_previous_disconnect'', JBool (case previous of None \<Rightarrow> False | Some p \<Rightarrow> p \<noteq> [] \<and> p \<in> set (tc_disconnected t)))])"

definition reply_event :: "trace_pending \<Rightarrow> str \<Rightarrow> int \<Rightarrow> str \<Rightarrow> members" where
  "reply_event call client serial kind =
     [(''kind'', JStr ''reply''), (''client'', JStr client), (''serial'', JInt serial), (''method'', JStr (pd_method call)),
      (''device'', JStr (pd_device call)), (''outcome'', JStr (if kind = ''method_return'' then ''OK'' else ''ERROR''))]"

text \<open>The reply to a pending call, which has been taken off the pending ones.\<close>

definition answered :: "members \<Rightarrow> str \<Rightarrow> trace_pending \<Rightarrow> str \<Rightarrow> int \<Rightarrow> trace \<Rightarrow> trace \<times> members" where
  "answered m kind call client serial t =
     (let event = reply_event call client serial kind
      in if kind = ''error'' then (t, event @ error_fields t call client (get m ''error_name''))
         else if pd_method call = ''Claim''
         then (t\<lparr>tc_owners := dict_set (pd_device call) (Some client) (tc_owners t)\<rparr>, event @ claim_fields t call)
         else if pd_method call = ''Release'' \<and> last_owner t (pd_device call) = Some client
         then (t\<lparr>tc_owners := dict_set (pd_device call) None (tc_owners t)\<rparr>, event)
         else (t, event))"

definition trace_reply :: "members \<Rightarrow> str \<Rightarrow> (trace, members option) io" where
  "trace_reply m kind t =
     (case (get m ''destination'', get m ''reply_cookie'') of
        (JStr client, JInt serial) \<Rightarrow>
          if \<not> unique_name client then (t, Inr None)
          else (case (map_of (tc_pending t) (client, serial), get m ''sender'') of
            (Some call, JStr sender) \<Rightarrow>
              if \<not> unique_name sender then (t, Inr None)
              else if unique_name (pd_destination call) \<and> sender \<noteq> pd_destination call then (t, Inl ValueError)
              else (case answered m kind call client serial (t\<lparr>tc_pending := dict_without (client, serial) (tc_pending t)\<rparr>) of
                      (t', event) \<Rightarrow> (t', Inr (Some event)))
          | _ \<Rightarrow> (t, Inr None))
      | _ \<Rightarrow> (t, Inr None))"

text \<open>The declared type and the data of a payload.\<close>

definition payload_parts :: "members \<Rightarrow> json \<times> json" where
  "payload_parts m =
     (case get m ''payload'' of JObj p \<Rightarrow> (get p ''type'', dict_get p ''data'' (JList [])) | _ \<Rightarrow> (JNull, JList []))"

definition trace_status :: "members \<Rightarrow> str \<Rightarrow> members res" where
  "trace_status m signal =
     (case (get m ''path'', payload_parts m) of
        (JStr path, JStr shape, JList [status, JBool done]) \<Rightarrow>
          if \<not> fullmatch DEVICE_PATH path \<or> shape \<noteq> ''sb'' then Inl ValueError
          else Inr [(''kind'', JStr ''status''), (''device'', JStr path), (''signal'', JStr signal),
                    (''status'', JStr (case status of JStr s \<Rightarrow> if s \<in> set STATUSES then s else UNKNOWN | _ \<Rightarrow> UNKNOWN)),
                    (''done'', JBool done)]
      | _ \<Rightarrow> Inl ValueError)"

definition or_none :: "str \<Rightarrow> json" where
  "or_none s = (if s = [] then JNull else JStr s)"

definition owner_change :: "members \<Rightarrow> (trace, members option) io" where
  "owner_change m t =
     (case payload_parts m of
        (JStr shape, JList [a, b, c]) \<Rightarrow>
          if shape \<noteq> ''sss'' then (t, Inl ValueError)
          else
            let name = py_str a; old = py_str b; new = py_str c
            in if dict_has (tc_clients t) name \<and> old = name \<and> new = []
               then (t\<lparr>tc_disconnected := List.insert name (tc_disconnected t)\<rparr>,
                     Inr (Some [(''kind'', JStr ''client-disconnected''), (''client'', JStr name)]))
               else if name = SERVICE \<and> (old = [] \<or> unique_name old) \<and> (new = [] \<or> unique_name new)
               then (t\<lparr>tc_owners := [], tc_pending := []\<rparr>,
                     Inr (Some [(''kind'', JStr ''daemon-owner-changed''), (''old'', or_none old), (''new'', or_none new)]))
               else (t, Inr None)
      | _ \<Rightarrow> (t, Inl ValueError))"

definition trace_signal :: "members \<Rightarrow> (trace, members option) io" where
  "trace_signal m t =
     (case (if get m ''interface'' = JStr INTERFACE then member_in (get m ''member'') STATUS_SIGNALS else Inr False) of
        Inl e \<Rightarrow> (t, Inl e)
      | Inr True \<Rightarrow> (t, map_sum id Some (trace_status m (py_str (get m ''member''))))
      | Inr False \<Rightarrow>
          if get m ''sender'' = JStr BUS \<and> get m ''interface'' = JStr BUS \<and> get m ''member'' = JStr OWNER_CHANGED
          then owner_change m t else (t, Inr None))"

text \<open>\<open>int\<close> of a number that is not whole drops its fraction.\<close>

definition truncated :: "rat \<Rightarrow> int" where
  "truncated x = (if x < 0 then - \<lfloor>- x\<rfloor> else \<lfloor>x\<rfloor>)"

definition stamped :: "('w, instant) io \<Rightarrow> members \<Rightarrow> members \<Rightarrow> ('w \<times> trace, members) io" where
  "stamped now m event =
     (case get m ''timestamp-realtime'' of
        JInt timestamp \<Rightarrow>
          if timestamp \<le> 0 then io_raise ValueError
          else io_bind (on_port now) (\<lambda>t.
            let whole = event @ [(''bus_realtime_us'', JInt timestamp),
                                 (''observed_monotonic_ns'', JInt (truncated (instant_seconds t * 1000000000)))]
            in on_trace (\<lambda>tr. (tr\<lparr>tc_events := tc_events tr @ [whole]\<rparr>, Inr whole)))
      | _ \<Rightarrow> io_raise ValueError)"

definition event_of :: "'w lookup \<Rightarrow> members \<Rightarrow> ('w \<times> trace, members option) io" where
  "event_of lookup m =
     (case get m ''type'' of
        JStr kind \<Rightarrow>
          if kind = ''method_call'' then trace_call lookup m
          else if kind = ''method_return'' \<or> kind = ''error'' then on_trace (trace_reply m kind)
          else if kind = ''signal'' then on_trace (trace_signal m)
          else io_return None
      | _ \<Rightarrow> io_return None)"

definition trace_feed :: "('w, instant) io \<Rightarrow> 'w lookup \<Rightarrow> json \<Rightarrow> ('w \<times> trace, members option) io" where
  "trace_feed now lookup message =
     (case message of
        JObj m \<Rightarrow>
          if dict_has m ''payload'' \<and> (\<nexists>p. get m ''payload'' = JObj p) then io_raise ValueError
          else io_bind (event_of lookup m) (\<lambda>event.
            case event of
              None \<Rightarrow> io_return None
            | Some e \<Rightarrow> io_bind (stamped now m e) (\<lambda>whole. io_return (Some whole)))
      | _ \<Rightarrow> io_raise ValueError)"

definition event_has :: "str \<Rightarrow> json \<Rightarrow> members \<Rightarrow> bool" where
  "event_has key v event \<longleftrightarrow> map_of event key = Some v"

definition complete :: "trace \<Rightarrow> bool" where
  "complete t \<longleftrightarrow> tc_errors t = [] \<and> tc_pending t = [] \<and> tc_events t \<noteq> []"

definition trace_summary :: "trace \<Rightarrow> members" where
  "trace_summary t =
     [(''scope'', JStr TRACE_SCOPE), (''initial_ownership'', JStr UNKNOWN), (''fingerprint_acceptance'', JStr NOT_TESTED_TEXT),
      (''capture_status'', JStr (if complete t then OBSERVED else INCOMPLETE)), (''errors'', JList (map JStr (tc_errors t))),
      (''clients'', JObj (tc_clients t)),
      (''last_observed_owners'', JObj (map (\<lambda>(d, o'). (d, case o' of None \<Rightarrow> JNull | Some s \<Rightarrow> JStr s)) (tc_owners t))),
      (''disconnected_clients'', JList (map JStr (sort (tc_disconnected t)))),
      (''pending_replies'', JInt (int (length (tc_pending t)))), (''event_count'', JInt (int (length (tc_events t)))),
      (''claim_denials'', JInt (int (length (filter (event_has ''error'' (JStr ALREADY_IN_USE)) (tc_events t))))),
      (''successful_releases'', JInt (int (length (filter
         (\<lambda>e. event_has ''method'' (JStr ''Release'') e \<and> event_has ''outcome'' (JStr ''OK'') e) (tc_events t))))),
      (''claims_after_disconnect'', JInt (int (length (filter
         (event_has ''after_previous_disconnect'' (JBool True)) (tc_events t)))))]"

subsection \<open>A capture\<close>

definition trace_line :: "bytes \<Rightarrow> json res" where
  "trace_line line = (if limit_value TRACE_LINE_LIMIT < int (length line) then Inl ValueError else parse_document line)"

definition trace_error :: "str \<Rightarrow> ('w \<times> trace, unit) io" where
  "trace_error e = on_trace (\<lambda>t. (t\<lparr>tc_errors := tc_errors t @ [e]\<rparr>, Inr ()))"

text \<open>What a malformed line may raise; the line counts as an error, and anything else ends the capture.\<close>

definition malformed :: "exn \<Rightarrow> bool" where
  "malformed e \<longleftrightarrow> is_value_error e \<or> e = TypeError \<or> e = KeyError"

definition fed_line :: "('w, instant) io \<Rightarrow> 'w lookup \<Rightarrow> bytes \<Rightarrow> ('w \<times> trace, members option option) io" where
  "fed_line now lookup line =
     io_catch (io_bind (io_lift (trace_line line)) (\<lambda>message.
                 io_bind (trace_feed now lookup message) (\<lambda>event. io_return (Some event))))
       malformed (io_return None)"

text \<open>The lines one after another; \<open>consumed\<close> counts the bytes read.\<close>

fun consume_lines :: "('w, instant) io \<Rightarrow> 'w lookup \<Rightarrow> bytes list \<Rightarrow> nat \<Rightarrow> ('w \<times> trace, bytes list) io" where
  "consume_lines now lookup [] consumed = io_return []"
| "consume_lines now lookup (line # rest) consumed =
     (let consumed' = consumed + length line + 1
      in if strip_with is_byte_space line = [] then consume_lines now lookup rest consumed'
         else if limit_value TRACE_RAW_LIMIT < int consumed' then io_bind (trace_error SIZE_LIMIT) (\<lambda>_. io_return [])
         else io_bind (fed_line now lookup line) (\<lambda>outcome.
           case outcome of
             None \<Rightarrow>
               io_bind (trace_error MALFORMED) (\<lambda>_.
               io_bind (io_read (\<lambda>wt. TRACE_ERROR_LIMIT \<le> length (tc_errors (snd wt)))) (\<lambda>enough.
                 if enough then io_return [] else consume_lines now lookup rest consumed'))
           | Some event \<Rightarrow>
               let kept = (case event of None \<Rightarrow> [] | Some e \<Rightarrow> [canonical (JObj e)])
               in io_bind (io_read (\<lambda>wt. TRACE_EVENT_LIMIT \<le> length (tc_events (snd wt)))) (\<lambda>enough.
                    if enough then io_bind (trace_error SIZE_LIMIT) (\<lambda>_. io_return kept)
                    else io_bind (consume_lines now lookup rest consumed') (\<lambda>later. io_return (kept @ later)))))"

definition trace_consume :: "('w, instant) io \<Rightarrow> 'w lookup \<Rightarrow> bytes \<Rightarrow> ('w \<times> trace, bytes list) io" where
  "trace_consume now lookup stream = consume_lines now lookup (split_on CHR 0x0A stream) 0"

text \<open>Whether the stream ends within a line that is not blank.\<close>

definition ends_partial :: "bytes \<Rightarrow> bool" where
  "ends_partial stream \<longleftrightarrow> stream \<noteq> [] \<and> \<not> ends_with stream [CHR 0x0A]
     \<and> strip_with is_byte_space (last (split_on CHR 0x0A stream)) \<noteq> []"

definition trace_of :: "('w, instant) io \<Rightarrow> 'w lookup \<Rightarrow> bytes \<Rightarrow> ('w, bytes list \<times> trace) io" where
  "trace_of now lookup stream w =
     (case io_bind (trace_consume now lookup stream) (\<lambda>events.
             if ends_partial stream then io_bind (trace_error PARTIAL) (\<lambda>_. io_return events) else io_return events) (w, trace_new) of
        ((w', t), Inl e) \<Rightarrow> (w', Inl e)
      | ((w', t), Inr events) \<Rightarrow> (w', Inr (events, t)))"

record trace_captured =
  tp_directory :: safe_path
  tp_summary :: members

definition captured_observed :: "trace_captured \<Rightarrow> bool" where
  "captured_observed c \<longleftrightarrow> map_of (tp_summary c) ''capture_status'' = Some (JStr OBSERVED)"

definition read_text :: "'w files_port \<Rightarrow> str \<Rightarrow> ('w, str) io" where
  "read_text port path =
     io_bind (io_lift (mk_safe_path path)) (\<lambda>p.
     io_bind (fp_read_bytes port p (limit_value DOCUMENT_LIMIT)) (\<lambda>b. io_return (strip (decode_replacing b))))"

definition trace_capture ::
  "'w host_ports \<Rightarrow> host \<Rightarrow> runtime_root \<Rightarrow> bytes \<Rightarrow> bool \<Rightarrow> ('w, trace_captured) io" where
  "trace_capture ports h rt stream lookup_clients =
     io_bind (cp_stamp (hp_clock ports)) (\<lambda>started.
     io_bind (ip_token (hp_identities ports)) (\<lambda>tok.
     io_bind (io_lift (root_child h rt (FINGERPRINT_OBSERVATIONS_DIRECTORY @ ''/'' @ identifier_value tok))) (\<lambda>directory.
     io_bind (trace_of (cp_now (hp_clock ports)) (if lookup_clients then Some (client_process ports) else None) stream)
       (\<lambda>(events, t).
     io_bind (io_lift (safe_path_div directory TRACE_EVENTS_NAME)) (\<lambda>events_path.
     io_bind (fp_write_atomic (hp_files ports) events_path (concat (map (\<lambda>l. l @ [CHR 0x0A]) events)) DEFAULT_RECORD_MODE) (\<lambda>_.
     io_bind (read_text (hp_files ports) KERNEL_RELEASE) (\<lambda>kernel.
     io_bind (read_text (hp_files ports) BOOT_ID) (\<lambda>boot.
       let summary = trace_summary t @ [(''started_at'', JStr started), (''kernel'', JStr kernel), (''boot_id'', JStr boot)]
       in io_bind (io_lift (safe_path_div directory TRACE_SUMMARY_NAME)) (\<lambda>summary_path.
          io_bind (fp_write_atomic (hp_files ports) summary_path (document_bytes (JObj summary)) DEFAULT_RECORD_MODE) (\<lambda>_.
            io_return \<lparr>tp_directory = directory, tp_summary = summary\<rparr>))))))))))"

subsection \<open>What is kept holds no text but the trace's own\<close>

definition OWN_WORDS :: "str list" where
  "OWN_WORDS =
     METHODS @ STATUS_SIGNALS @ STATUSES
       @ [''call'', ''reply'', ''status'', ''client-disconnected'', ''daemon-owner-changed'', ''OK'', ''ERROR'', UNKNOWN, OTHER_ERROR]"

definition EVENT_KEYS :: "str list" where
  "EVENT_KEYS =
     [''kind'', ''client'', ''serial'', ''method'', ''device'', ''outcome'', ''error'', ''last_observed_owner'',
      ''caller_was_last_owner'', ''previous_owner'', ''after_previous_disconnect'', ''signal'', ''status'', ''done'',
      ''old'', ''new'', ''bus_realtime_us'', ''observed_monotonic_ns'']"

definition clean_text :: "str \<Rightarrow> bool" where
  "clean_text s \<longleftrightarrow> s \<in> set OWN_WORDS \<or> unique_name s \<or> fullmatch DEVICE_PATH s \<or> fullmatch ERROR_NAME s"

fun clean_value :: "json \<Rightarrow> bool" where
  "clean_value (JStr s) = clean_text s"
| "clean_value (JList js) = False"
| "clean_value (JObj m) = False"
| "clean_value j = True"

definition clean_event :: "members \<Rightarrow> bool" where
  "clean_event e \<longleftrightarrow> list_all (\<lambda>(k, v). k \<in> set EVENT_KEYS \<and> clean_value v) e"

definition clean_trace :: "trace \<Rightarrow> bool" where
  "clean_trace t \<longleftrightarrow>
     list_all clean_event (tc_events t) \<and> (\<forall>k \<in> set (map fst (tc_clients t)). unique_name k)
     \<and> (\<forall>(k, call) \<in> set (tc_pending t). unique_name (fst k) \<and> pd_method call \<in> set METHODS \<and> fullmatch DEVICE_PATH (pd_device call))
     \<and> (\<forall>(d, owner) \<in> set (tc_owners t). fullmatch DEVICE_PATH d \<and> (\<forall>p. owner = Some p \<longrightarrow> unique_name p))"

lemma clean_texts [simp]:
  "unique_name s \<Longrightarrow> clean_text s" "fullmatch DEVICE_PATH s \<Longrightarrow> clean_text s" "fullmatch ERROR_NAME s \<Longrightarrow> clean_text s"
  "s \<in> set METHODS \<Longrightarrow> clean_text s" "s \<in> set STATUSES \<Longrightarrow> clean_text s" "s \<in> set STATUS_SIGNALS \<Longrightarrow> clean_text s"
  by (simp_all add: clean_text_def OWN_WORDS_def)

lemma clean_words [simp]:
  "clean_text ''call''" "clean_text ''reply''" "clean_text ''status''" "clean_text ''client-disconnected''"
  "clean_text ''daemon-owner-changed''" "clean_text ''OK''" "clean_text ''ERROR''" "clean_text UNKNOWN" "clean_text OTHER_ERROR"
  by (simp_all add: clean_text_def OWN_WORDS_def)

lemma clean_event_simps [simp]:
  "clean_event []" "clean_event ((k, v) # e) \<longleftrightarrow> k \<in> set EVENT_KEYS \<and> clean_value v \<and> clean_event e"
  "clean_event (e @ f) \<longleftrightarrow> clean_event e \<and> clean_event f"
  by (simp_all add: clean_event_def)

text \<open>What the events of a trace say of who holds a device.\<close>

definition owner_in :: "(str, str option) dict \<Rightarrow> str \<Rightarrow> str option" where
  "owner_in owners device = (case map_of owners device of Some (Some p) \<Rightarrow> Some p | _ \<Rightarrow> None)"

definition replay_owner :: "(str, str option) dict \<Rightarrow> members \<Rightarrow> (str, str option) dict" where
  "replay_owner owners e =
     (if event_has ''kind'' (JStr ''daemon-owner-changed'') e then []
      else if event_has ''kind'' (JStr ''reply'') e \<and> event_has ''outcome'' (JStr ''OK'') e
      then (case (map_of e ''method'', map_of e ''client'', map_of e ''device'') of
              (Some (JStr method), Some (JStr client), Some (JStr device)) \<Rightarrow>
                if method = ''Claim'' then dict_set device (Some client) owners
                else if method = ''Release'' \<and> owner_in owners device = Some client then dict_set device None owners
                else owners
            | _ \<Rightarrow> owners)
      else owners)"

text \<open>What one message does to a trace: no event, or one clean event that says what became of the owners.\<close>

definition steps_if :: "bool \<Rightarrow> trace \<Rightarrow> trace \<Rightarrow> members option res \<Rightarrow> bool" where
  "steps_if clean t t' r \<longleftrightarrow> tc_events t' = tc_events t \<and> tc_errors t' = tc_errors t \<and> (clean \<longrightarrow> clean_trace t')
     \<and> (case r of
          Inl e \<Rightarrow> True
        | Inr None \<Rightarrow> tc_owners t' = tc_owners t
        | Inr (Some e) \<Rightarrow> tc_owners t' = replay_owner (tc_owners t) e \<and> (clean \<longrightarrow> clean_event e))"

abbreviation steps :: "trace \<Rightarrow> trace \<Rightarrow> members option res \<Rightarrow> bool" where
  "steps t \<equiv> steps_if (clean_trace t) t"

lemma steps_same [simp]: "steps t t (Inl e)" "steps t t (Inr None)"
  by (simp_all add: steps_if_def)

lemma METHODS_simps: "s \<in> set METHODS \<longleftrightarrow> s \<in> {''Claim'', ''Release'', ''EnrollStart'', ''EnrollStop'', ''VerifyStart'', ''VerifyStop''}"
  by (simp add: METHODS_def)

lemma call_parts_ok:
  "call_parts m = Inr (Some (client, serial, method, path, destination)) \<Longrightarrow>
     unique_name client \<and> method \<in> set METHODS \<and> fullmatch DEVICE_PATH path"
  by (auto simp: call_parts_def member_in_def rbind_eq_Inr split: if_splits json.splits)

lemma clean_clients:
  "clean_trace t \<Longrightarrow> unique_name c \<Longrightarrow> clean_trace (t\<lparr>tc_clients := dict_set c j (tc_clients t)\<rparr>)"
  by (auto simp: clean_trace_def keys_dict_set)

lemma steps_call:
  assumes "trace_call lookup m (w, t) = ((w', t'), r)"
  shows "steps t t' r"
proof (cases "call_parts m")
  case (Inr parts)
  show ?thesis
  proof (cases parts)
    case (Some p)
    obtain client serial mname path destination where p: "p = (client, serial, mname, path, destination)" by (cases p)
    with Inr Some call_parts_ok have ok: "unique_name client" "mname \<in> set METHODS" "fullmatch DEVICE_PATH path" by blast+
    obtain w1 t1 x where k: "known_client lookup client (w, t) = ((w1, t1), x)" by (metis prod.exhaust_sel)
    have t1: "t1 = t \<or> (\<exists>j. t1 = t\<lparr>tc_clients := dict_set client j (tc_clients t)\<rparr>)"
      using k by (auto simp: known_client_def io_bind_def on_port_def on_trace_def split: if_splits option.splits prod.splits sum.splits)
    have c1: "clean_trace t \<Longrightarrow> clean_trace t1" using t1 clean_clients ok(1) by blast
    have same: "tc_events t1 = tc_events t" "tc_errors t1 = tc_errors t" "tc_owners t1 = tc_owners t" using t1 by auto
    show ?thesis
    proof (cases x)
      case (Inl e)
      with assms Inr Some p k c1 same show ?thesis by (auto simp: trace_call_def io_bind_step steps_if_def)
    next
      case x: (Inr u)
      let ?t2 = "t1\<lparr>tc_pending := dict_set (client, serial) \<lparr>pd_method = mname, pd_device = path, pd_destination = destination\<rparr> (tc_pending t1)\<rparr>"
      from assms Inr Some p k x have r: "t' = ?t2" "r = Inr (Some (call_event client serial mname path))"
        by (auto simp: trace_call_def io_bind_step on_trace_def)
      have "clean_trace ?t2" if "clean_trace t1"
        using that ok set_dict_set [of "(client, serial)" _ "tc_pending t1"] by (fastforce simp: clean_trace_def)
      with r c1 same ok show ?thesis
        by (simp add: steps_if_def replay_owner_def event_has_def call_event_def EVENT_KEYS_def)
    qed
  qed (use assms Inr in \<open>auto simp: trace_call_def\<close>)
qed (use assms in \<open>auto simp: trace_call_def\<close>)

lemma clean_pending:
  "clean_trace t \<Longrightarrow> map_of (tc_pending t) (client, serial) = Some call \<Longrightarrow>
     unique_name client \<and> pd_method call \<in> set METHODS \<and> fullmatch DEVICE_PATH (pd_device call)"
  by (auto simp: clean_trace_def dest!: map_of_SomeD)

lemma clean_owner: "clean_trace t \<Longrightarrow> last_owner t d = Some p \<Longrightarrow> unique_name p"
  by (auto simp: clean_trace_def last_owner_def dest!: map_of_SomeD split: option.splits)

lemma clean_without: "clean_trace t \<Longrightarrow> clean_trace (t\<lparr>tc_pending := dict_without k (tc_pending t)\<rparr>)"
  by (auto simp: clean_trace_def dict_without_def)

lemma clean_owned:
  assumes "clean_trace t" "fullmatch DEVICE_PATH d" "\<And>p. owner = Some p \<Longrightarrow> unique_name p"
  shows "clean_trace (t\<lparr>tc_owners := dict_set d owner (tc_owners t)\<rparr>)"
  using assms set_dict_set [of d owner "tc_owners t"] by (fastforce simp: clean_trace_def)

lemma clean_or_unknown: "clean_trace t \<Longrightarrow> clean_value (or_unknown (last_owner t d))"
  using clean_owner [of t d] by (simp add: or_unknown_def split: option.splits)

lemma clean_error_fields: "clean_trace t \<Longrightarrow> clean_event (error_fields t call client name)"
  using clean_or_unknown [of t "pd_device call"]
  by (simp add: error_fields_def Let_def EVENT_KEYS_def split: option.splits json.splits)

lemma clean_claim_fields: "clean_trace t \<Longrightarrow> clean_event (claim_fields t call)"
  using clean_or_unknown [of t "pd_device call"] by (simp add: claim_fields_def Let_def EVENT_KEYS_def split: option.splits)

lemma answered_steps:
  assumes "answered m kind call client serial t = (t', e)" "kind = ''method_return'' \<or> kind = ''error''"
    and ok: "C \<Longrightarrow> clean_trace t" "C \<Longrightarrow> unique_name client"
      "C \<Longrightarrow> pd_method call \<in> set METHODS \<and> fullmatch DEVICE_PATH (pd_device call)"
  shows "steps_if C t t' (Inr (Some e))"
proof -
  have clean: "clean_event (reply_event call client serial kind)" if C
    using ok [OF that] by (simp add: reply_event_def EVENT_KEYS_def)
  have o: "last_owner t d = owner_in (tc_owners t) d" for d by (simp add: last_owner_def owner_in_def)
  consider "kind = ''error''" | "kind = ''method_return''" "pd_method call = ''Claim''"
    | "kind = ''method_return''" "pd_method call = ''Release''" "last_owner t (pd_device call) = Some client"
    | "kind = ''method_return''" "pd_method call \<noteq> ''Claim''" "pd_method call \<noteq> ''Release'' \<or> last_owner t (pd_device call) \<noteq> Some client"
    using assms(2) by blast
  then show ?thesis
  proof cases
    case 1
    with assms(1) have "t' = t" "e = reply_event call client serial kind @ error_fields t call client (get m ''error_name'')"
      by (auto simp: answered_def Let_def)
    with clean clean_error_fields 1 ok(1) show ?thesis
      by (simp add: steps_if_def replay_owner_def event_has_def reply_event_def)
  next
    case 2
    with assms(1) have "t' = t\<lparr>tc_owners := dict_set (pd_device call) (Some client) (tc_owners t)\<rparr>"
      "e = reply_event call client serial kind @ claim_fields t call" by (auto simp: answered_def Let_def)
    with clean clean_claim_fields 2 clean_owned [of t "pd_device call" "Some client"] ok show ?thesis
      by (simp add: steps_if_def replay_owner_def event_has_def reply_event_def)
  next
    case 3
    with assms(1) have "t' = t\<lparr>tc_owners := dict_set (pd_device call) None (tc_owners t)\<rparr>"
      "e = reply_event call client serial kind" by (auto simp: answered_def Let_def)
    with clean 3 clean_owned [of t "pd_device call" None] ok o show ?thesis
      by (simp add: steps_if_def replay_owner_def event_has_def reply_event_def)
  next
    case 4
    with assms(1) have "t' = t" "e = reply_event call client serial kind" by (auto simp: answered_def Let_def)
    with clean 4 o ok(1) show ?thesis
      by (auto simp: steps_if_def replay_owner_def event_has_def reply_event_def)
  qed
qed

lemma trace_reply_cases:
  assumes "trace_reply m kind t = (t', r)"
  obtains "t' = t" "r = Inr None \<or> r = Inl ValueError"
    | client serial call e where "map_of (tc_pending t) (client, serial) = Some call" "r = Inr (Some e)" "unique_name client"
      "answered m kind call client serial (t\<lparr>tc_pending := dict_without (client, serial) (tc_pending t)\<rparr>) = (t', e)"
  using assms by (auto simp: trace_reply_def split: json.splits option.splits if_splits prod.splits)

lemma steps_reply:
  assumes "trace_reply m kind t = (t', r)" "kind = ''method_return'' \<or> kind = ''error''"
  shows "steps t t' r"
  using assms(1)
proof (cases rule: trace_reply_cases)
  case (2 client serial call e)
  let ?t1 = "t\<lparr>tc_pending := dict_without (client, serial) (tc_pending t)\<rparr>"
  have "steps_if (clean_trace t) ?t1 t' (Inr (Some e))"
    using clean_pending [OF _ 2(1)] clean_without by (intro answered_steps [OF 2(4) assms(2)]) auto
  with 2(2) show ?thesis by (simp add: steps_if_def)
qed auto

lemma trace_status_Inr:
  "trace_status m s = Inr e \<Longrightarrow> \<exists>path status done. fullmatch DEVICE_PATH path
     \<and> e = [(''kind'', JStr ''status''), (''device'', JStr path), (''signal'', JStr s),
           (''status'', JStr (case status of JStr u \<Rightarrow> if u \<in> set STATUSES then u else UNKNOWN | _ \<Rightarrow> UNKNOWN)), (''done'', JBool done)]"
  by (simp add: trace_status_def split: prod.splits json.splits list.splits if_splits) blast+

lemma clean_status: "clean_text (case status of JStr u \<Rightarrow> if u \<in> set STATUSES then u else UNKNOWN | _ \<Rightarrow> UNKNOWN)"
  by (simp split: json.splits)

lemma steps_status: "s \<in> set STATUS_SIGNALS \<Longrightarrow> steps t t (map_sum id Some (trace_status m s))"
proof (cases "trace_status m s")
  case (Inr e)
  assume "s \<in> set STATUS_SIGNALS"
  with trace_status_Inr [OF Inr] Inr clean_status show ?thesis
    by (auto simp: steps_if_def replay_owner_def event_has_def EVENT_KEYS_def simp del: json.case)
qed simp

lemma owner_change_cases:
  assumes "owner_change m t = (t', r)"
  obtains "t' = t" "r = Inr None \<or> r = Inl ValueError"
    | name where "dict_has (tc_clients t) name" "t' = t\<lparr>tc_disconnected := List.insert name (tc_disconnected t)\<rparr>"
      "r = Inr (Some [(''kind'', JStr ''client-disconnected''), (''client'', JStr name)])"
    | old new where "t' = t\<lparr>tc_owners := [], tc_pending := []\<rparr>" "old = [] \<or> unique_name old" "new = [] \<or> unique_name new"
      "r = Inr (Some [(''kind'', JStr ''daemon-owner-changed''), (''old'', or_none old), (''new'', or_none new)])"
proof (cases "\<exists>a b c. payload_parts m = (JStr ''sss'', JList [a, b, c])")
  case True
  then obtain a b c where p: "payload_parts m = (JStr ''sss'', JList [a, b, c])" by blast
  consider "dict_has (tc_clients t) (py_str a) \<and> py_str b = py_str a \<and> py_str c = []"
    | "\<not> (dict_has (tc_clients t) (py_str a) \<and> py_str b = py_str a \<and> py_str c = [])"
      "py_str a = SERVICE \<and> (py_str b = [] \<or> unique_name (py_str b)) \<and> (py_str c = [] \<or> unique_name (py_str c))"
    | "\<not> (dict_has (tc_clients t) (py_str a) \<and> py_str b = py_str a \<and> py_str c = [])"
      "\<not> (py_str a = SERVICE \<and> (py_str b = [] \<or> unique_name (py_str b)) \<and> (py_str c = [] \<or> unique_name (py_str c)))" by blast
  then show thesis
  proof cases
    case 1
    with p assms show thesis by (intro that(2) [of "py_str a"]) (simp_all add: owner_change_def Let_def)
  next
    case 2
    from 2(1) p assms 2(2) have "t' = t\<lparr>tc_owners := [], tc_pending := []\<rparr>"
      "r = Inr (Some [(''kind'', JStr ''daemon-owner-changed''), (''old'', or_none (py_str b)), (''new'', or_none (py_str c))])"
      unfolding owner_change_def Let_def by auto
    with 2(2) show thesis by (intro that(3)) auto
  next
    case 3
    with p assms show thesis unfolding owner_change_def Let_def by (intro that(1)) auto
  qed
next
  case False
  with assms have "t' = t \<and> r = Inl ValueError"
    by (simp add: owner_change_def split: prod.splits json.splits list.splits)
  with that(1) show thesis by blast
qed

lemma steps_owner_change:
  assumes "owner_change m t = (t', r)"
  shows "steps t t' r"
  using assms
proof (cases rule: owner_change_cases)
  case (2 name)
  then have "unique_name name" if "clean_trace t" using that by (auto simp: clean_trace_def dict_has_def)
  with 2 show ?thesis by (auto simp: steps_if_def replay_owner_def event_has_def EVENT_KEYS_def clean_trace_def)
next
  case (3 old new)
  then show ?thesis by (auto simp: steps_if_def replay_owner_def event_has_def EVENT_KEYS_def clean_trace_def or_none_def)
qed auto

lemma steps_signal:
  assumes "trace_signal m t = (t', r)"
  shows "steps t t' r"
proof (cases "if get m ''interface'' = JStr INTERFACE then member_in (get m ''member'') STATUS_SIGNALS else Inr False")
  case (Inl e)
  with assms show ?thesis by (auto simp: trace_signal_def)
next
  case (Inr b)
  show ?thesis
  proof (cases b)
    case True
    with Inr have "py_str (get m ''member'') \<in> set STATUS_SIGNALS"
      by (auto simp: member_in_def split: if_splits json.splits)
    with True Inr assms steps_status show ?thesis by (auto simp: trace_signal_def)
  next
    case False
    with Inr assms steps_owner_change show ?thesis by (auto simp: trace_signal_def split: if_splits)
  qed
qed

lemma steps_event:
  assumes "event_of lookup m (w, t) = ((w', t'), r)"
  shows "steps t t' r"
  using assms steps_call steps_reply steps_signal
  by (auto simp: event_of_def on_trace_def split: json.splits if_splits prod.splits)

text \<open>One message adds at most the one event it yields.\<close>

definition feeds :: "trace \<Rightarrow> trace \<Rightarrow> members option res \<Rightarrow> bool" where
  "feeds t t' r \<longleftrightarrow> tc_errors t' = tc_errors t \<and> (clean_trace t \<longrightarrow> clean_trace t')
     \<and> (case r of
          Inl e \<Rightarrow> tc_events t' = tc_events t
        | Inr None \<Rightarrow> tc_events t' = tc_events t \<and> tc_owners t' = tc_owners t
        | Inr (Some e) \<Rightarrow> tc_events t' = tc_events t @ [e] \<and> tc_owners t' = replay_owner (tc_owners t) e)"

lemma replay_more:
  "map_of extra ''kind'' = None \<Longrightarrow> map_of extra ''outcome'' = None \<Longrightarrow> map_of extra ''method'' = None \<Longrightarrow>
     map_of extra ''client'' = None \<Longrightarrow> map_of extra ''device'' = None \<Longrightarrow> replay_owner owners (e @ extra) = replay_owner owners e"
proof -
  have *: "map_of extra k = None \<Longrightarrow> map_of (e @ extra) k = map_of e k" for k
    by (simp add: map_add_def split: option.splits)
  assume "map_of extra ''kind'' = None" "map_of extra ''outcome'' = None" "map_of extra ''method'' = None"
    "map_of extra ''client'' = None" "map_of extra ''device'' = None"
  note * [OF this(1)] * [OF this(2)] * [OF this(3)] * [OF this(4)] * [OF this(5)]
  then show ?thesis unfolding replay_owner_def event_has_def by (simp only:)
qed

lemma clean_add: "clean_trace t \<Longrightarrow> clean_event e \<Longrightarrow> clean_trace (t\<lparr>tc_events := tc_events t @ [e]\<rparr>)"
  by (simp add: clean_trace_def)

lemma stamped_cases:
  assumes "stamped now m e (w, t) = ((w', t'), r)"
  shows "(t' = t \<and> (\<exists>x. r = Inl x)) \<or> (\<exists>a b. t' = t\<lparr>tc_events := tc_events t @ [e @ [(''bus_realtime_us'', JInt a), (''observed_monotonic_ns'', JInt b)]]\<rparr>
    \<and> r = Inr (e @ [(''bus_realtime_us'', JInt a), (''observed_monotonic_ns'', JInt b)]))"
  using assms
  by (auto simp: stamped_def io_bind_def on_trace_def Let_def split: json.splits if_splits prod.splits sum.splits)

lemma trace_feed_feeds:
  assumes "trace_feed now lookup message (w, t) = ((w', t'), r)"
  shows "feeds t t' r"
proof (cases "\<exists>m. message = JObj m \<and> trace_feed now lookup message =
    io_bind (event_of lookup m) (\<lambda>event. case event of None \<Rightarrow> io_return None
      | Some e \<Rightarrow> io_bind (stamped now m e) (\<lambda>whole. io_return (Some whole)))")
  case False
  with assms have "t' = t" "r = Inl ValueError"
    by (auto simp: trace_feed_def split: json.splits if_splits)
  then show ?thesis by (simp add: feeds_def)
next
  case True
  then obtain m where m: "trace_feed now lookup message =
    io_bind (event_of lookup m) (\<lambda>event. case event of None \<Rightarrow> io_return None
      | Some e \<Rightarrow> io_bind (stamped now m e) (\<lambda>whole. io_return (Some whole)))" by blast
  obtain w1 t1 x where e: "event_of lookup m (w, t) = ((w1, t1), x)" by (metis prod.exhaust_sel)
  note s = steps_event [OF e]
  show ?thesis
  proof (cases "\<exists>e. x = Inr (Some e)")
    case False
    then obtain y where "x = Inl y \<or> x = Inr None" by (cases x) auto
    with s assms m e show ?thesis by (auto simp: io_bind_step steps_if_def feeds_def)
  next
    case True
    then obtain ev where x: "x = Inr (Some ev)" by blast
    obtain w2 t2 y where st: "stamped now m ev (w1, t1) = ((w2, t2), y)" by (metis prod.exhaust_sel)
    from assms m e x st have t': "t' = t2" "r = map_sum id Some y" by (cases y; auto simp: io_bind_step)+
    from stamped_cases [OF st] show ?thesis
    proof
      assume "t2 = t1 \<and> (\<exists>z. y = Inl z)"
      with s x t' show ?thesis by (auto simp: steps_if_def feeds_def)
    next
      assume "\<exists>a b. t2 = t1\<lparr>tc_events := tc_events t1 @ [ev @ [(''bus_realtime_us'', JInt a), (''observed_monotonic_ns'', JInt b)]]\<rparr>
        \<and> y = Inr (ev @ [(''bus_realtime_us'', JInt a), (''observed_monotonic_ns'', JInt b)])"
      then obtain a b where t2: "t2 = t1\<lparr>tc_events := tc_events t1 @ [ev @ [(''bus_realtime_us'', JInt a), (''observed_monotonic_ns'', JInt b)]]\<rparr>"
        and y: "y = Inr (ev @ [(''bus_realtime_us'', JInt a), (''observed_monotonic_ns'', JInt b)])" by blast
      have "clean_trace t2" if "clean_trace t"
        unfolding t2 using s x that by (intro clean_add) (simp_all add: steps_if_def EVENT_KEYS_def)
      with t' t2 y s x show ?thesis by (simp add: feeds_def steps_if_def replay_more)
    qed
  qed
qed

lemma fed_line_cases:
  assumes "fed_line now lookup line (w, t) = ((w', t'), Inr outcome)"
  shows "case outcome of Some event \<Rightarrow> feeds t t' (Inr event) | None \<Rightarrow> \<exists>e. feeds t t' (Inl e)"
proof (cases "trace_line line")
  case (Inl e)
  with assms have "t' = t" "outcome = None" by (auto simp: fed_line_def io_catch_def split: if_splits)
  then show ?thesis by (simp add: feeds_def)
next
  case (Inr message)
  obtain w1 t1 x where f: "trace_feed now lookup message (w, t) = ((w1, t1), x)" by (metis prod.exhaust_sel)
  with assms Inr trace_feed_feeds [OF f] show ?thesis
    by (cases x) (auto simp: fed_line_def io_catch_def io_bind_step split: if_splits)
qed

subsection \<open>A capture is bounded, clean and faithful\<close>

text \<open>What reading lines makes of a trace: the events it adds are those it returns, in order.\<close>

definition consumes :: "trace \<Rightarrow> trace \<Rightarrow> bytes list \<Rightarrow> bool" where
  "consumes t t' lines \<longleftrightarrow> (\<exists>es errs.
     tc_events t' = tc_events t @ es \<and> lines = map (\<lambda>e. canonical (JObj e)) es \<and> tc_errors t' = tc_errors t @ errs
     \<and> (clean_trace t \<longrightarrow> clean_trace t') \<and> (errs = [] \<longrightarrow> tc_owners t' = foldl replay_owner (tc_owners t) es))"

lemma consumes_refl [simp]: "consumes t t []"
  by (simp add: consumes_def)

lemma clean_error: "clean_trace (t\<lparr>tc_errors := es\<rparr>) = clean_trace t"
  by (simp add: clean_trace_def)

lemma consumes_error [simp]: "consumes t (t\<lparr>tc_errors := tc_errors t @ [e]\<rparr>) []"
  by (simp add: consumes_def clean_error)

lemma consumes_trans: "consumes t u xs \<Longrightarrow> consumes u v ys \<Longrightarrow> consumes t v (xs @ ys)"
proof -
  assume "consumes t u xs" "consumes u v ys"
  then obtain es errs fs ferrs where *: "tc_events u = tc_events t @ es" "xs = map (\<lambda>e. canonical (JObj e)) es"
    "tc_errors u = tc_errors t @ errs" "clean_trace t \<longrightarrow> clean_trace u" "errs = [] \<longrightarrow> tc_owners u = foldl replay_owner (tc_owners t) es"
    "tc_events v = tc_events u @ fs" "ys = map (\<lambda>e. canonical (JObj e)) fs" "tc_errors v = tc_errors u @ ferrs"
    "clean_trace u \<longrightarrow> clean_trace v" "ferrs = [] \<longrightarrow> tc_owners v = foldl replay_owner (tc_owners u) fs"
    unfolding consumes_def by blast
  then show ?thesis unfolding consumes_def by (intro exI [of _ "es @ fs"] exI [of _ "errs @ ferrs"]) simp
qed

lemma consumes_fed:
  "feeds t t' (Inr event) \<Longrightarrow> consumes t t' (case event of None \<Rightarrow> [] | Some e \<Rightarrow> [canonical (JObj e)])"
  unfolding consumes_def feeds_def
  by (cases event) (auto intro: exI [of _ "[]"] exI [of _ "[e]" for e])

lemma consumes_malformed: "feeds t t' (Inl e) \<Longrightarrow> consumes t (t'\<lparr>tc_errors := tc_errors t' @ [MALFORMED]\<rparr>) []"
  by (simp add: consumes_def feeds_def clean_error)

text \<open>The numbers of events and errors while reading goes on, and when it has stopped.\<close>

definition within_bounds :: "trace \<Rightarrow> bool" where
  "within_bounds t \<longleftrightarrow> length (tc_events t) < TRACE_EVENT_LIMIT \<and> length (tc_errors t) < TRACE_ERROR_LIMIT"

definition at_bounds :: "trace \<Rightarrow> bool" where
  "at_bounds t \<longleftrightarrow> length (tc_events t) \<le> TRACE_EVENT_LIMIT \<and> length (tc_errors t) \<le> TRACE_ERROR_LIMIT"

lemma within_at: "within_bounds t \<Longrightarrow> at_bounds t"
  by (simp add: within_bounds_def at_bounds_def)

lemma trace_error_run [simp]: "trace_error e (w, t) = ((w, t\<lparr>tc_errors := tc_errors t @ [e]\<rparr>), Inr ())"
  by (simp add: trace_error_def on_trace_def)

lemma bounds_error: "within_bounds t \<Longrightarrow> at_bounds (t\<lparr>tc_errors := tc_errors t @ [e]\<rparr>)"
  by (simp add: within_bounds_def at_bounds_def)

lemma consume_lines_consumes:
  "consume_lines now lookup lines n (w, t) = ((w', t'), Inr out) \<Longrightarrow> within_bounds t \<Longrightarrow> consumes t t' out \<and> at_bounds t'"
proof (induction lines arbitrary: n w t out)
  case Nil
  then show ?case by (auto intro: within_at)
next
  case (Cons line rest)
  let ?n = "n + length line + 1"
  show ?case
  proof (cases "strip_with is_byte_space line = [] \<or> limit_value TRACE_RAW_LIMIT < int ?n")
    case True
    with Cons show ?thesis by (auto simp: io_bind_step bounds_error split: if_splits)
  next
    case False
    obtain w1 t1 x where f: "fed_line now lookup line (w, t) = ((w1, t1), x)" by (metis prod.exhaust_sel)
    with False Cons.prems(1) obtain outcome where x: "x = Inr outcome" by (cases x) (auto simp: io_bind_step)
    note fed = fed_line_cases [OF f [unfolded x]]
    show ?thesis
    proof (cases outcome)
      case None
      with fed obtain e where e: "feeds t t1 (Inl e)" by auto
      let ?t2 = "t1\<lparr>tc_errors := tc_errors t1 @ [MALFORMED]\<rparr>"
      have c: "consumes t ?t2 []" using consumes_malformed [OF e] .
      from e Cons.prems(2) have b: "at_bounds ?t2" "length (tc_events ?t2) < TRACE_EVENT_LIMIT"
        by (simp_all add: feeds_def within_bounds_def at_bounds_def)
      show ?thesis
      proof (cases "TRACE_ERROR_LIMIT \<le> length (tc_errors ?t2)")
        case True
        with False Cons.prems(1) f x None c b show ?thesis by (simp add: io_bind_step)
      next
        case False': False
        with False Cons.prems(1) f x None have "consume_lines now lookup rest ?n (w1, ?t2) = ((w', t'), Inr out)"
          by (simp add: io_bind_step)
        from Cons.IH [OF this] b False' consumes_trans [OF c] show ?thesis by (simp add: within_bounds_def)
      qed
    next
      case (Some event)
      with fed have e: "feeds t t1 (Inr event)" by simp
      let ?kept = "case event of None \<Rightarrow> [] | Some e \<Rightarrow> [canonical (JObj e)]"
      note c = consumes_fed [OF e]
      from e Cons.prems(2) have b: "length (tc_errors t1) < TRACE_ERROR_LIMIT" "length (tc_events t1) \<le> TRACE_EVENT_LIMIT"
        by (auto simp: feeds_def within_bounds_def split: option.splits)
      show ?thesis
      proof (cases "TRACE_EVENT_LIMIT \<le> length (tc_events t1)")
        case True
        with False Cons.prems(1) f x Some have r: "t' = t1\<lparr>tc_errors := tc_errors t1 @ [SIZE_LIMIT]\<rparr>" "out = ?kept"
          by (auto simp: io_bind_step Let_def)
        with consumes_trans [OF c consumes_error] b show ?thesis by (simp add: at_bounds_def)
      next
        case False': False
        with False Cons.prems(1) f x Some obtain later where
          l: "consume_lines now lookup rest ?n (w1, t1) = ((w', t'), Inr later)" "out = ?kept @ later"
          by (auto simp: io_bind_step Let_def io_bind_Inr)
        from Cons.IH [OF l(1)] b False' consumes_trans [OF c] l(2) show ?thesis by (simp add: within_bounds_def)
      qed
    qed
  qed
qed

lemma within_new: "within_bounds trace_new" "clean_trace trace_new"
  by (simp_all add: within_bounds_def trace_new_def TRACE_EVENT_LIMIT_def TRACE_ERROR_LIMIT_def clean_trace_def)

text \<open>
  A capture: its lines are the events of its trace, all clean; it is bounded; and the owners it ends with are
  those its events say, when it had no error.
\<close>

lemma trace_of_faithful:
  assumes "trace_of now lookup stream w = (w', Inr (lines, t))"
  shows "lines = map (\<lambda>e. canonical (JObj e)) (tc_events t) \<and> list_all clean_event (tc_events t)
    \<and> length (tc_events t) \<le> TRACE_EVENT_LIMIT \<and> length (tc_errors t) \<le> TRACE_ERROR_LIMIT + 1
    \<and> (tc_errors t = [] \<longrightarrow> tc_owners t = foldl replay_owner [] (tc_events t))"
proof -
  from assms obtain w1 t1 where c: "consume_lines now lookup (split_on CHR 0x0A stream) 0 (w, trace_new) = ((w1, t1), Inr lines)"
    and t: "t = t1 \<or> t = t1\<lparr>tc_errors := tc_errors t1 @ [PARTIAL]\<rparr>"
    by (auto simp: trace_of_def trace_consume_def io_bind_def split: prod.splits sum.splits if_splits)
  from consume_lines_consumes [OF c within_new(1)] have "consumes trace_new t1 lines" and b: "at_bounds t1" by simp_all
  then obtain es errs where e: "tc_events t1 = es" "lines = map (\<lambda>e. canonical (JObj e)) es" "tc_errors t1 = errs"
    "clean_trace t1" "errs = [] \<longrightarrow> tc_owners t1 = foldl replay_owner [] es"
    using within_new(2) by (auto simp: consumes_def trace_new_def)
  with t b show ?thesis by (auto simp: at_bounds_def clean_trace_def)
qed

text \<open>A summary says that it observed only where every line was understood, no call is left open and something was seen.\<close>

lemma summary_observed:
  "map_of (trace_summary t) ''capture_status'' = Some (JStr OBSERVED) \<longleftrightarrow> tc_errors t = [] \<and> tc_pending t = [] \<and> tc_events t \<noteq> []"
  by (simp add: trace_summary_def complete_def OBSERVED_def INCOMPLETE_def)

end
