(* ===== verification/Backing.thy ===== *)
theory Backing
  imports HostPorts PyCoerce
begin

section \<open>Disks and what they are layered over (provisioning/backingchain.py)\<close>

text \<open>
  \<open>inspect_chain\<close> walks the chain the way the hypervisor will. The loop has no bound of its own, so it is a
  partial function; \<open>inspect_returns\<close> shows that it returns whatever the image tool answers, because a link seen
  before is a cycle and the regular files below the root are finitely many. \<open>inspect_iff\<close> says which chains it
  answers with: those that follow the descriptions link by link to a disk with no backing file.
\<close>

definition QEMU_IMG :: str where "QEMU_IMG = ''qemu-img''"
definition QCOW2 :: str where "QCOW2 = ''qcow2''"
definition FORMAT_KEY :: str where "FORMAT_KEY = ''format''"
definition BACKING_KEY :: str where "BACKING_KEY = ''backing-filename''"

text \<open>A chain is never empty: the disk first, its base last.\<close>

datatype backing_chain = BackingChain (chain_links: "safe_path list")

definition chain_disk :: "backing_chain \<Rightarrow> safe_path" where "chain_disk c = hd (chain_links c)"
definition chain_base :: "backing_chain \<Rightarrow> safe_path" where "chain_base c = last (chain_links c)"
definition standalone :: "backing_chain \<Rightarrow> bool" where "standalone c \<longleftrightarrow> length (chain_links c) = 1"

definition path_parent :: "str \<Rightarrow> str" where
  "path_parent p = (let above = join ''/'' (butlast (split_on CHR ''/'' p)) in if above = [] then ''/'' else above)"

definition describe_link :: "'w host_ports \<Rightarrow> safe_path \<Rightarrow> ('w, members) io" where
  "describe_link ports link =
     io_bind (pp_run (hp_processes ports) (Argv [QEMU_IMG, ''info'', ''--output=json'', safe_path_str link])
                IMAGE_TOOL_DEADLINE output_limit_default no_options) (\<lambda>completed.
       if \<not> succeeded completed then io_raise PortFailure
       else io_lift (rbind
         (rcatch (parse_document (run_stdout completed)) (\<lambda>e. e = JSONDecodeError) (Inl PortFailure))
         (\<lambda>loaded. case loaded of JObj m \<Rightarrow> Inr m | _ \<Rightarrow> Inl PortFailure)))"

definition next_link :: "safe_path \<Rightarrow> json \<Rightarrow> str" where
  "next_link link backing = path_text (path_join (path_parent (safe_path_str link)) (py_str backing))"

text \<open>One round of the walk: the link it found, with the next candidate when there is one.\<close>

definition walk_round ::
  "'w host_ports \<Rightarrow> host \<Rightarrow> runtime_root \<Rightarrow> str \<Rightarrow> safe_path list \<Rightarrow> ('w, safe_path \<times> str option) io" where
  "walk_round ports h rt current links =
     io_bind (io_lift (safe_regular_file h current rt)) (\<lambda>link.
       if link \<in> set links then io_raise (Refusal DISK_CHAIN_CYCLE)
       else io_bind (describe_link ports link) (\<lambda>description.
         if dict_get description FORMAT_KEY JNull \<noteq> JStr QCOW2 then io_raise (Refusal DISK_NOT_QCOW2)
         else let backing = dict_get description BACKING_KEY JNull
              in io_return (link, if py_bool backing then Some (next_link link backing) else None)))"

partial_function (option) chain_walk ::
  "'w host_ports \<Rightarrow> host \<Rightarrow> runtime_root \<Rightarrow> str \<Rightarrow> safe_path list \<Rightarrow> 'w \<Rightarrow> ('w \<times> backing_chain res) option" where
  "chain_walk ports h rt current links w =
     (case walk_round ports h rt current links w of
        (w', Inl e) \<Rightarrow> Some (w', Inl e)
      | (w', Inr (link, None)) \<Rightarrow> Some (w', Inr (BackingChain (links @ [link])))
      | (w', Inr (link, Some candidate)) \<Rightarrow> chain_walk ports h rt candidate (links @ [link]) w')"

definition inspect_chain :: "'w host_ports \<Rightarrow> host \<Rightarrow> str \<Rightarrow> runtime_root \<Rightarrow> ('w, backing_chain) pio" where
  "inspect_chain ports h candidate rt = chain_walk ports h rt candidate []"

definition require_standalone :: "backing_chain \<Rightarrow> backing_chain res" where
  "require_standalone c = (if \<not> standalone c then Inl (Refusal DISK_NOT_STANDALONE) else Inr c)"

definition create_argv :: "backing_chain \<Rightarrow> safe_path \<Rightarrow> gib option \<Rightarrow> argv" where
  "create_argv base into grown_to =
     (let argv = Argv [QEMU_IMG, ''create'', ''-f'', QCOW2, ''-F'', QCOW2, ''-b'', safe_path_str (chain_disk base), safe_path_str into]
      in case grown_to of None \<Rightarrow> argv | Some g \<Rightarrow> argv_extended argv [str_of_int (gib_value g) @ ''G''])"

definition overlay ::
  "'w host_ports \<Rightarrow> host \<Rightarrow> backing_chain \<Rightarrow> safe_path \<Rightarrow> runtime_root \<Rightarrow> gib option \<Rightarrow> ('w, backing_chain) pio" where
  "overlay ports h base into rt grown_to =
     pio_bind (pio (io_bind (fp_exists (hp_files ports) into) (\<lambda>there.
       if there then io_raise (Refusal DISK_OVERLAY_EXISTS)
       else io_bind (pp_run (hp_processes ports) (create_argv base into grown_to) IMAGE_TOOL_DEADLINE output_limit_default no_options)
              (\<lambda>created. if \<not> succeeded created then io_raise PortFailure else io_return ()))))
       (\<lambda>_. inspect_chain ports h (safe_path_str into) rt)"

subsection \<open>Every walk returns\<close>

definition files_below :: "host \<Rightarrow> runtime_root \<Rightarrow> safe_path set" where
  "files_below h rt = {p. \<exists>candidate. safe_regular_file h candidate rt = Inr p}"

lemma walk_round_fresh:
  "walk_round ports h rt current links w = (w', Inr (link, candidate)) \<Longrightarrow>
     safe_regular_file h current rt = Inr link \<and> link \<notin> set links"
  by (auto simp: walk_round_def io_lift_bind_Inr io_bind_Inr Let_def split: if_splits)

lemma chain_walk_returns:
  assumes "finite (files_below h rt)" "set links \<subseteq> files_below h rt" "distinct links"
  shows "\<exists>z. chain_walk ports h rt current links w = Some z"
  using assms(2,3)
proof (induction "card (files_below h rt) - length links" arbitrary: links current w rule: less_induct)
  case less
  obtain w' r where r: "walk_round ports h rt current links w = (w', r)" by (cases "walk_round ports h rt current links w")
  show ?case
  proof (cases "\<exists>link candidate. r = Inr (link, Some candidate)")
    case True
    then obtain link candidate where c: "r = Inr (link, Some candidate)" by blast
    note fresh = walk_round_fresh [OF r [unfolded c]]
    then have f: "link \<in> files_below h rt" "link \<notin> set links" by (auto simp: files_below_def)
    have "length (links @ [link]) \<le> card (files_below h rt)"
      using f less.prems assms(1) card_mono [of "files_below h rt" "set (links @ [link])"] by (simp add: distinct_card)
    then have "\<exists>z. chain_walk ports h rt candidate (links @ [link]) w' = Some z"
      using f less.prems by (intro less.hyps) auto
    with r c show ?thesis by (subst chain_walk.simps) simp
  next
    case False
    with r show ?thesis by (subst chain_walk.simps) (auto split: sum.splits option.splits)
  qed
qed

lemma inspect_returns: "finite (files_below h rt) \<Longrightarrow> \<exists>z. inspect_chain ports h candidate rt w = Some z"
  unfolding inspect_chain_def by (rule chain_walk_returns) simp_all

subsection \<open>Which chain is found\<close>

text \<open>A list of links that follows the descriptions from one to the next, to a disk with no backing file.\<close>

fun layered :: "host \<Rightarrow> runtime_root \<Rightarrow> (safe_path \<Rightarrow> members res) \<Rightarrow> str \<Rightarrow> safe_path list \<Rightarrow> bool" where
  "layered h rt info current [] = False"
| "layered h rt info current (link # rest) =
     (safe_regular_file h current rt = Inr link
      \<and> (case info link of
           Inl e \<Rightarrow> False
         | Inr d \<Rightarrow> dict_get d FORMAT_KEY JNull = JStr QCOW2
             \<and> (let backing = dict_get d BACKING_KEY JNull
                in if py_bool backing then layered h rt info (next_link link backing) rest else rest = [])))"

lemma layered_links: "layered h rt info current links \<Longrightarrow> links \<noteq> [] \<and> set links \<subseteq> files_below h rt"
proof (induction links arbitrary: current)
  case (Cons link rest)
  then have "link \<in> files_below h rt" by (auto simp: files_below_def)
  moreover have "set rest \<subseteq> files_below h rt"
    using Cons by (cases rest) (auto simp: Let_def split: sum.splits if_splits)
  ultimately show ?case by simp
qed simp

text \<open>What the walk does when the image tool describes and changes nothing.\<close>

lemma walk_round_info:
  assumes "\<And>p w. describe_link ports p w = (w, info p)"
  shows "walk_round ports h rt current links w =
    (w, rbind (safe_regular_file h current rt) (\<lambda>link.
          if link \<in> set links then Inl (Refusal DISK_CHAIN_CYCLE)
          else rbind (info link) (\<lambda>d.
            if dict_get d FORMAT_KEY JNull \<noteq> JStr QCOW2 then Inl (Refusal DISK_NOT_QCOW2)
            else let backing = dict_get d BACKING_KEY JNull
                 in Inr (link, if py_bool backing then Some (next_link link backing) else None))))"
  using assms
  by (cases "safe_regular_file h current rt") (auto simp: walk_round_def io_bind_def Let_def rbind_def split: sum.splits)

lemma chain_walk_found:
  assumes info: "\<And>p w. describe_link ports p w = (w, info p)"
  shows "layered h rt info current rest \<Longrightarrow> distinct (links @ rest) \<Longrightarrow>
     chain_walk ports h rt current links w = Some (w, Inr (BackingChain (links @ rest)))"
proof (induction rest arbitrary: current links)
  case (Cons link rest)
  from Cons.prems(1) obtain d where d: "safe_regular_file h current rt = Inr link" "info link = Inr d"
    "dict_get d FORMAT_KEY JNull = JStr QCOW2" by (auto split: sum.splits)
  let ?backing = "dict_get d BACKING_KEY JNull"
  have fresh: "link \<notin> set links" using Cons.prems(2) by simp
  show ?case
  proof (cases "py_bool ?backing")
    case True
    with Cons.prems d have "layered h rt info (next_link link ?backing) rest" by (simp add: Let_def)
    from Cons.IH [OF this, of "links @ [link]"] Cons.prems(2) True d fresh show ?thesis
      by (subst chain_walk.simps) (simp add: walk_round_info [OF info] Let_def)
  next
    case False
    with Cons.prems d have "rest = []" by (simp add: Let_def)
    with False d fresh show ?thesis by (subst chain_walk.simps) (simp add: walk_round_info [OF info] Let_def)
  qed
qed simp

lemma chain_walk_sound:
  assumes info: "\<And>p w. describe_link ports p w = (w, info p)"
    and "chain_walk ports h rt current links w = Some (w', Inr chain)" "distinct links"
  shows "\<exists>rest. chain = BackingChain (links @ rest) \<and> layered h rt info current rest \<and> distinct (links @ rest) \<and> w' = w"
proof -
  have "\<forall>w' chain. z = (w', Inr chain) \<longrightarrow> distinct links \<longrightarrow> (\<exists>rest. chain = BackingChain (links @ rest)
      \<and> layered h rt info current rest \<and> distinct (links @ rest) \<and> w' = w)"
    if "chain_walk ports h rt current links w = Some z" for z
  proof (rule chain_walk.raw_induct [OF _ that, where P = "\<lambda>ports' h' rt' current links w z.
        ports' = ports \<longrightarrow> h' = h \<longrightarrow> rt' = rt \<longrightarrow> (\<forall>w' chain. z = (w', Inr chain) \<longrightarrow> distinct links \<longrightarrow>
          (\<exists>rest. chain = BackingChain (links @ rest) \<and> layered h rt info current rest \<and> distinct (links @ rest) \<and> w' = w))",
        THEN mp [OF _ refl], THEN mp [OF _ refl], THEN mp [OF _ refl]], goal_cases)
    case (1 walk ports' h' rt' current links w z)
    show ?case
    proof (intro impI allI)
      fix w' chain
      assume eq: "ports' = ports" "h' = h" "rt' = rt" and z: "z = (w', Inr chain)" and links: "distinct links"
      obtain link candidate where r: "walk_round ports h rt current links w = (w, Inr (link, candidate))"
        using "1"(2) z eq by (auto simp: walk_round_info [OF info] split: sum.splits)
      then obtain d where d: "safe_regular_file h current rt = Inr link" "link \<notin> set links" "info link = Inr d"
        "dict_get d FORMAT_KEY JNull = JStr QCOW2"
        "candidate = (if py_bool (dict_get d BACKING_KEY JNull) then Some (next_link link (dict_get d BACKING_KEY JNull)) else None)"
        by (auto simp: walk_round_info [OF info] rbind_eq_Inr Let_def split: if_splits)
      show "\<exists>rest. chain = BackingChain (links @ rest) \<and> layered h rt info current rest \<and> distinct (links @ rest) \<and> w' = w"
      proof (cases candidate)
        case None
        with "1"(2) z eq r have "chain = BackingChain (links @ [link])" "w' = w" by auto
        with None d links show ?thesis by (intro exI [of _ "[link]"]) (simp add: Let_def split: if_splits)
      next
        case (Some c)
        with "1"(2) z eq r have "walk ports h rt c (links @ [link]) w = Some (w', Inr chain)" by simp
        from "1"(1) [OF this] d(2) links obtain rest where rest: "chain = BackingChain (links @ link # rest)"
          "layered h rt info c rest" "distinct (links @ link # rest)" "w' = w" by auto
        with Some d show ?thesis by (intro exI [of _ "link # rest"]) (simp add: Let_def split: if_splits)
      qed
    qed
  qed
  with assms(2,3) show ?thesis by blast
qed

text \<open>The walk answers with a chain exactly when it follows the descriptions and holds no link twice.\<close>

lemma inspect_iff:
  assumes "\<And>p w. describe_link ports p w = (w, info p)"
  shows "inspect_chain ports h candidate rt w = Some (w, Inr chain) \<longleftrightarrow>
    layered h rt info candidate (chain_links chain) \<and> distinct (chain_links chain)"
  using chain_walk_found [OF assms, of h rt candidate "chain_links chain" "[]" w]
    chain_walk_sound [OF assms, of h rt candidate "[]" w w chain]
  unfolding inspect_chain_def by (cases chain) auto

end
