(* ===== verification/Settings.thy ===== *)
theory Settings
  imports Defaults StoreMark Locks PyCoerce
begin

section \<open>Settings (config/loader.py, layers.py, overrides.py) and the reviewed pins\<close>

text \<open>
  The settings are assembled once: the builder table of the host's file over the defaults, the
  declared environment over that, each field with the layer it came from. What the TOML reader makes
  of the file is an argument, in the types a JSON document has; the file system answers through \<open>disk\<close>.
  A variable of the namespace that nobody declared refuses the whole load, and a load that
  succeeds is consistent and explains every field.
\<close>

subsection \<open>layers.py and overrides.py\<close>

datatype layer = LAYER_DEFAULT | LAYER_PROFILE | LAYER_HOST_FILE | LAYER_ENVIRONMENT

fun layer_value :: "layer \<Rightarrow> str" where
  "layer_value LAYER_DEFAULT = ''default''"
| "layer_value LAYER_PROFILE = ''profile''"
| "layer_value LAYER_HOST_FILE = ''host-file''"
| "layer_value LAYER_ENVIRONMENT = ''environment''"

definition NAMESPACE :: str where "NAMESPACE = ''APEX_''"

record environment_override =
  eo_variable :: str
  eo_field :: str
  eo_summary :: str

definition DECLARED :: "environment_override list" where
  "DECLARED =
     [\<lparr>eo_variable = ''APEX_STATE_DIR'', eo_field = ''runtime_root'',
       eo_summary = ''where the runtime state, exports and evidence live''\<rparr>]"

definition GUEST_VARIABLES :: "str list" where
  "GUEST_VARIABLES =
     [''APEX_BAD_INITRD'', ''APEX_DIAGNOSTIC_HELPERS'', ''APEX_DIALOG_STATE'', ''APEX_EFFECT_TRACE'', ''APEX_EFI'',
      ''APEX_ELAN_STATUS_DIAGNOSTICS'', ''APEX_EXTRACTED_HANDLERS'', ''APEX_FAULT'', ''APEX_FINGERPRINT_IMAGE_TEST'',
      ''APEX_LINUX'', ''APEX_RECOVERY_FIXTURE'', ''APEX_RECOVERY_OBSERVATION'', ''APEX_RECOVERY_REPORT'',
      ''APEX_TEST_DIGEST'', ''APEX_TEST_DISK'', ''APEX_TEST_PASSWORD_FILE'', ''APEX_TEST_SSH_KEY'', ''APEX_TEST_USER'',
      ''APEX_UPDATE_ACCESS'', ''APEX_UPDATE_ACTION'', ''APEX_UPDATE_FIXTURE'', ''APEX_WINDOWS'', ''APEX_WRONG_PUBLIC_KEY'']"

definition TOOLING_VARIABLES :: "str list" where
  "TOOLING_VARIABLES = [''APEX_PYTHON'', ''APEX_CHAIN_KEY'']"

subsection \<open>loader.py\<close>

definition BUILDER_FIELDS :: "str list" where
  "BUILDER_FIELDS =
     [''processors'', ''memory_mib'', ''reserve_mib'', ''disk_gib'', ''minimum_free_gib'', ''firmware_code'', ''firmware_variables'']"

record builder_settings =
  bs_processors :: int
  bs_memory :: mib
  bs_reserve :: mib
  bs_disk :: gib
  bs_minimum_free :: gib
  bs_firmware_code :: str
  bs_firmware_variables :: str

type_synonym origins = "(str, layer) dict"

record settings =
  se_builder :: builder_settings
  se_runtime_root :: str
  se_origins :: origins

definition explain :: "settings \<Rightarrow> str \<Rightarrow> layer res" where
  "explain s field = of_option (Refusal UNKNOWN_SETTING) (map_of (se_origins s) field)"

text \<open>The file is what its reader made of it, or nothing where there is no file.\<close>

definition builder_table :: "members res option \<Rightarrow> members res" where
  "builder_table host_file =
     (case host_file of
        None \<Rightarrow> Inr []
      | Some loaded \<Rightarrow>
          rbind loaded (\<lambda>document.
            case dict_get document ''builder'' (JObj []) of
              JObj table \<Rightarrow>
                if list_all (\<lambda>(key, v). key \<in> set BUILDER_FIELDS) table then Inr table else Inl (Refusal UNKNOWN_SETTING)
            | _ \<Rightarrow> Inl (Refusal UNKNOWN_SETTING)))"

definition check_variable :: "(str, str) dict \<Rightarrow> str \<times> str \<Rightarrow> (str, str) dict res" where
  "check_variable applied nv =
     (case nv of (name, value) \<Rightarrow>
        if \<not> starts_with name NAMESPACE then Inr applied
        else if name \<in> set GUEST_VARIABLES \<or> name \<in> set TOOLING_VARIABLES then Inr applied
        else (case map_of (map (\<lambda>o'. (eo_variable o', eo_field o')) DECLARED) name of
                None \<Rightarrow> Inl (Refusal UNKNOWN_SETTING)
              | Some field \<Rightarrow> Inr (dict_set field value applied)))"

definition check_environment :: "(str, str) dict \<Rightarrow> (str, str) dict res" where
  "check_environment environment = rfold check_variable [] (sort_key fst environment)"

definition without_unit :: "str \<Rightarrow> str" where
  "without_unit key =
     (let a = (if ends_with key ''_mib'' then take (length key - 4) key else key)
      in if ends_with a ''_gib'' then take (length a - 4) a else a)"

definition pick :: "members \<Rightarrow> str \<Rightarrow> int \<Rightarrow> origins \<Rightarrow> (int \<times> origins) res" where
  "pick table key fallback origins =
     (let field = ''builder.'' @ without_unit key
      in case map_of table key of
           None \<Rightarrow> Inr (fallback, dict_set field LAYER_DEFAULT origins)
         | Some (JInt i) \<Rightarrow> Inr (i, dict_set field LAYER_HOST_FILE origins)
         | Some _ \<Rightarrow> Inl (Refusal INCONSISTENT_SETTINGS))"

definition pick_path :: "host \<Rightarrow> members \<Rightarrow> str \<Rightarrow> str \<Rightarrow> origins \<Rightarrow> (str \<times> origins) res" where
  "pick_path h table key fallback origins =
     (let field = ''builder.'' @ key
      in case map_of table key of
           None \<Rightarrow> Inr (path_text fallback, dict_set field LAYER_DEFAULT origins)
         | Some (JStr s) \<Rightarrow>
             if s = [] then Inl (Refusal INCONSISTENT_SETTINGS)
             else Inr (host_expand h (path_text s), dict_set field LAYER_HOST_FILE origins)
         | Some _ \<Rightarrow> Inl (Refusal INCONSISTENT_SETTINGS))"

definition load_builder :: "host \<Rightarrow> members \<Rightarrow> (builder_settings \<times> origins) res" where
  "load_builder h table =
     rbind (pick table ''processors'' (bd_processors BUILDER_DEFAULTS) []) (\<lambda>(processors, o1).
     rbind (pick table ''memory_mib'' (mib_value (bd_memory BUILDER_DEFAULTS)) o1) (\<lambda>(m, o2).
     rbind (mk_mib m) (\<lambda>memory.
     rbind (pick table ''reserve_mib'' (mib_value (bd_reserve BUILDER_DEFAULTS)) o2) (\<lambda>(r, o3).
     rbind (mk_mib r) (\<lambda>reserve.
     rbind (pick table ''disk_gib'' (gib_value (bd_disk BUILDER_DEFAULTS)) o3) (\<lambda>(d, o4).
     rbind (mk_gib d) (\<lambda>disk.
     rbind (pick table ''minimum_free_gib'' (gib_value (bd_minimum_free BUILDER_DEFAULTS)) o4) (\<lambda>(f, o5).
     rbind (mk_gib f) (\<lambda>minimum_free.
     rbind (pick_path h table ''firmware_code'' (bd_firmware_code BUILDER_DEFAULTS) o5) (\<lambda>(code, o6).
     rbind (pick_path h table ''firmware_variables'' (bd_firmware_variables BUILDER_DEFAULTS) o6) (\<lambda>(variables, o7).
       Inr (\<lparr>bs_processors = processors, bs_memory = memory, bs_reserve = reserve, bs_disk = disk,
             bs_minimum_free = minimum_free, bs_firmware_code = code, bs_firmware_variables = variables\<rparr>, o7))))))))))))"

definition load_settings :: "host \<Rightarrow> members res option \<Rightarrow> (str, str) dict \<Rightarrow> settings res" where
  "load_settings h host_file environment =
     rbind (builder_table host_file) (\<lambda>table.
     rbind (load_builder h table) (\<lambda>(builder, origins).
       if mib_value (bs_memory builder) \<le> mib_value (bs_reserve builder) then Inl (Refusal INCONSISTENT_SETTINGS)
       else rbind (check_environment environment) (\<lambda>applied.
         case map_of applied ''runtime_root'' of
           Some supplied \<Rightarrow> Inr \<lparr>se_builder = builder, se_runtime_root = host_expand h (path_text supplied),
                             se_origins = dict_set ''runtime_root'' LAYER_ENVIRONMENT origins\<rparr>
         | None \<Rightarrow> Inr \<lparr>se_builder = builder, se_runtime_root = host_expand h ''~/.local/share/apex-fedora/runtime'',
                         se_origins = dict_set ''runtime_root'' LAYER_DEFAULT origins\<rparr>)))"

definition settings_root :: "host \<Rightarrow> settings \<Rightarrow> str list \<Rightarrow> runtime_root res" where
  "settings_root h s permitted = resolve_root h (se_runtime_root s) permitted"

subsection \<open>What a load promises\<close>

definition known_variable :: "str \<Rightarrow> bool" where
  "known_variable name \<longleftrightarrow> \<not> starts_with name NAMESPACE \<or> name \<in> set GUEST_VARIABLES \<or> name \<in> set TOOLING_VARIABLES
     \<or> name \<in> eo_variable ` set DECLARED"

definition SETTING_FIELDS :: "str list" where
  "SETTING_FIELDS =
     [''builder.processors'', ''builder.memory'', ''builder.reserve'', ''builder.disk'', ''builder.minimum_free'',
      ''builder.firmware_code'', ''builder.firmware_variables'', ''runtime_root'']"

lemma check_variable_known: "check_variable applied (name, value) = Inr applied' \<Longrightarrow> known_variable name"
  by (auto simp: check_variable_def known_variable_def DECLARED_def split: if_splits option.splits)

lemma rfold_all: "rfold f s xs = Inr t \<Longrightarrow> (\<And>s x t. f s x = Inr t \<Longrightarrow> P x) \<Longrightarrow> x \<in> set xs \<Longrightarrow> P x"
  by (induction xs arbitrary: s) (auto simp: rbind_eq_Inr)

lemma check_environment_known:
  assumes "check_environment environment = Inr applied" "(name, value) \<in> set environment"
  shows "known_variable name"
proof -
  have "known_variable (fst (name, value))"
    by (rule rfold_all [OF assms(1) [unfolded check_environment_def], where P = "\<lambda>nv. known_variable (fst nv)"])
      (use check_variable_known assms(2) in \<open>auto split: prod.splits\<close>)
  then show ?thesis by simp
qed

lemma pick_keys: "pick table key fallback o1 = Inr (v, o2) \<Longrightarrow> dom (map_of o2) = insert (''builder.'' @ without_unit key) (dom (map_of o1))"
  by (auto simp: pick_def Let_def split: option.splits json.splits)

lemma pick_path_keys:
  "pick_path h table key fallback o1 = Inr (v, o2) \<Longrightarrow> dom (map_of o2) = insert (''builder.'' @ key) (dom (map_of o1))"
  by (auto simp: pick_path_def Let_def split: option.splits json.splits if_splits)

lemma without_units [simp]:
  "without_unit ''processors'' = ''processors''" "without_unit ''memory_mib'' = ''memory''" "without_unit ''reserve_mib'' = ''reserve''"
  "without_unit ''disk_gib'' = ''disk''" "without_unit ''minimum_free_gib'' = ''minimum_free''"
  by (simp_all add: without_unit_def ends_with_def suffix_to_prefix)

lemma rbind_pair: "rbind m (\<lambda>(a, b). f a b) = Inr y \<longleftrightarrow> (\<exists>a b. m = Inr (a, b) \<and> f a b = Inr y)"
  by (auto simp: rbind_eq_Inr)

lemma mk_quantity_Inr: "mk_mib i = Inr m \<Longrightarrow> 0 \<le> mib_value m" "mk_gib i = Inr g \<Longrightarrow> 0 \<le> gib_value g"
  by (auto simp: mk_mib_def mk_gib_def split: if_splits)

lemma load_builder_Inr:
  assumes "load_builder h table = Inr (b, os)"
  shows "dom (map_of os) = set (butlast SETTING_FIELDS) \<and> 0 \<le> mib_value (bs_memory b) \<and> 0 \<le> mib_value (bs_reserve b)
    \<and> 0 \<le> gib_value (bs_disk b) \<and> 0 \<le> gib_value (bs_minimum_free b)"
proof -
  from assms obtain processors o1 m o2 memory r o3 reserve d o4 disk f o5 free code o6 variables where
    p: "pick table ''processors'' (bd_processors BUILDER_DEFAULTS) [] = Inr (processors, o1)"
      "pick table ''memory_mib'' (mib_value (bd_memory BUILDER_DEFAULTS)) o1 = Inr (m, o2)"
      "pick table ''reserve_mib'' (mib_value (bd_reserve BUILDER_DEFAULTS)) o2 = Inr (r, o3)"
      "pick table ''disk_gib'' (gib_value (bd_disk BUILDER_DEFAULTS)) o3 = Inr (d, o4)"
      "pick table ''minimum_free_gib'' (gib_value (bd_minimum_free BUILDER_DEFAULTS)) o4 = Inr (f, o5)"
    and q: "pick_path h table ''firmware_code'' (bd_firmware_code BUILDER_DEFAULTS) o5 = Inr (code, o6)"
      "pick_path h table ''firmware_variables'' (bd_firmware_variables BUILDER_DEFAULTS) o6 = Inr (variables, os)"
    and v: "mk_mib m = Inr memory" "mk_mib r = Inr reserve" "mk_gib d = Inr disk" "mk_gib f = Inr free"
    and b: "b = \<lparr>bs_processors = processors, bs_memory = memory, bs_reserve = reserve, bs_disk = disk,
             bs_minimum_free = free, bs_firmware_code = code, bs_firmware_variables = variables\<rparr>"
    unfolding load_builder_def rbind_pair by (elim exE conjE) (auto simp: rbind_eq_Inr)
  note dom = p [THEN pick_keys] q [THEN pick_path_keys]
  have "dom (map_of os) = set (butlast SETTING_FIELDS)"
    unfolding dom by (simp add: SETTING_FIELDS_def insert_commute)
  with mk_quantity_Inr(1) [OF v(1)] mk_quantity_Inr(1) [OF v(2)] mk_quantity_Inr(2) [OF v(3)] mk_quantity_Inr(2) [OF v(4)]
  show ?thesis by (simp add: b)
qed

lemma load_settings_Inr:
  assumes "load_settings h host_file environment = Inr s"
  shows "0 \<le> mib_value (bs_reserve (se_builder s)) \<and> mib_value (bs_reserve (se_builder s)) < mib_value (bs_memory (se_builder s))
    \<and> 0 \<le> gib_value (bs_disk (se_builder s)) \<and> 0 \<le> gib_value (bs_minimum_free (se_builder s))
    \<and> (\<forall>name value. (name, value) \<in> set environment \<longrightarrow> known_variable name)
    \<and> (\<forall>field. (\<exists>l. explain s field = Inr l) \<longleftrightarrow> field \<in> set SETTING_FIELDS)"
proof -
  from assms obtain table bo where t': "load_builder h table = Inr bo"
    and r: "(case bo of (builder, origins) \<Rightarrow>
       if mib_value (bs_memory builder) \<le> mib_value (bs_reserve builder) then Inl (Refusal INCONSISTENT_SETTINGS)
       else rbind (check_environment environment) (\<lambda>applied.
         case map_of applied ''runtime_root'' of
           Some supplied \<Rightarrow> Inr \<lparr>se_builder = builder, se_runtime_root = host_expand h (path_text supplied),
                             se_origins = dict_set ''runtime_root'' LAYER_ENVIRONMENT origins\<rparr>
         | None \<Rightarrow> Inr \<lparr>se_builder = builder, se_runtime_root = host_expand h ''~/.local/share/apex-fedora/runtime'',
                         se_origins = dict_set ''runtime_root'' LAYER_DEFAULT origins\<rparr>)) = Inr s"
    unfolding load_settings_def rbind_eq_Inr by blast
  obtain b os where bo: "bo = (b, os)" by (cases bo)
  from r bo obtain applied where m: "mib_value (bs_reserve b) < mib_value (bs_memory b)"
    and c: "check_environment environment = Inr applied" by (auto simp: rbind_eq_Inr split: if_splits)
  from r bo c m have s: "se_builder s = b" "\<exists>l. se_origins s = dict_set ''runtime_root'' l os"
    by (auto split: option.splits)
  note t = t' [unfolded bo]
  have fields: "set SETTING_FIELDS = insert ''runtime_root'' (set (butlast SETTING_FIELDS))" by (auto simp: SETTING_FIELDS_def)
  have e: "(\<exists>l. explain s field = Inr l) \<longleftrightarrow> field \<in> dom (map_of (se_origins s))" for field
    by (auto simp: explain_def of_option_def split: option.splits)
  have "dom (map_of (se_origins s)) = set SETTING_FIELDS"
  proof -
    from s(2) obtain l where l: "se_origins s = dict_set ''runtime_root'' l os" ..
    from load_builder_Inr [OF t] have "dom (map_of os) = set (butlast SETTING_FIELDS)" by simp
    then show ?thesis unfolding fields l map_of_dict_set dom_fun_upd by simp
  qed
  with e have "(\<exists>l. explain s field = Inr l) \<longleftrightarrow> field \<in> set SETTING_FIELDS" for field by simp
  with load_builder_Inr [OF t] check_environment_known [OF c] m s(1) show ?thesis by simp
qed

subsection \<open>The reviewed locks read out of a checkout (sourcepins.py, fingerprintpins.py, builderpins.py)\<close>

definition SOURCES_LOCK_PATH :: str where "SOURCES_LOCK_PATH = ''config/sources.lock.json''"
definition FINGERPRINT_LOCK_PATH :: str where "FINGERPRINT_LOCK_PATH = ''config/fingerprint-tests.lock.json''"
definition BUILDER_LOCK_PATH :: str where "BUILDER_LOCK_PATH = ''config/builder-base.lock.json''"
definition BASE_ENTRY :: str where "BASE_ENTRY = ''base_image''"

definition reviewed_document :: "disk \<Rightarrow> str \<Rightarrow> (bytes \<times> json) res" where
  "reviewed_document d candidate =
     (if host_is_symlink (disk_host d) candidate then Inl (Refusal PATH_IS_A_SYMLINK)
      else if \<not> host_is_file (disk_host d) candidate then Inl (Refusal LOCK_MISSING)
      else rbind
        (rcatch (parse_document (disk_bytes d candidate)) (\<lambda>e. e = JSONDecodeError \<or> e = UnicodeDecodeError)
          (Inl (Refusal LOCK_UNREADABLE)))
        (\<lambda>parsed. Inr (disk_bytes d candidate, parsed)))"

record reviewed_lock =
  rw_lock :: source_lock
  rw_document :: bytes

definition load_sources :: "disk \<Rightarrow> source_root \<Rightarrow> reviewed_lock res" where
  "load_sources d repository =
     rbind (reviewed_document d (path_join (source_root_path repository) SOURCES_LOCK_PATH)) (\<lambda>(document, parsed).
     rbind (parse_lock parsed) (\<lambda>lock. Inr \<lparr>rw_lock = lock, rw_document = document\<rparr>))"

record reviewed_files =
  rf_files :: pinned_file_set
  rf_document :: bytes

definition load_fingerprint_files :: "disk \<Rightarrow> source_root \<Rightarrow> reviewed_files res" where
  "load_fingerprint_files d repository =
     rbind (reviewed_document d (path_join (source_root_path repository) FINGERPRINT_LOCK_PATH)) (\<lambda>(document, parsed).
     rbind (parse_pinned_set parsed) (\<lambda>files. Inr \<lparr>rf_files = files, rf_document = document\<rparr>))"

record reviewed_base =
  rb_source :: locked_source
  rb_document :: bytes

text \<open>\<open>parsed.get("schema") != 1\<close>: a boolean equals the number it stands for.\<close>

definition base_of :: "json \<Rightarrow> locked_source res" where
  "base_of parsed =
     (case parsed of
        JObj m \<Rightarrow>
          if \<not> equals_int (member m ''schema'') LOCK_SCHEMA then Inl (Refusal LOCK_SCHEMA_UNSUPPORTED)
          else parse_source (BASE_ENTRY, member m BASE_ENTRY)
      | _ \<Rightarrow> Inl (Refusal LOCK_SCHEMA_UNSUPPORTED))"

definition load_base :: "disk \<Rightarrow> source_root \<Rightarrow> reviewed_base res" where
  "load_base d repository =
     rbind (reviewed_document d (path_join (source_root_path repository) BUILDER_LOCK_PATH)) (\<lambda>(document, parsed).
     rbind (base_of parsed) (\<lambda>source. Inr \<lparr>rb_source = source, rb_document = document\<rparr>))"

lemma base_pinned: "base_of parsed = Inr s \<Longrightarrow> source_pinned s"
  by (cases parsed) (auto simp: base_of_def parse_source_pinned split: if_splits)

lemma load_base_pinned: "load_base d repository = Inr b \<Longrightarrow> source_pinned (rb_source b)"
  using base_pinned by (auto simp: load_base_def rbind_pair rbind_eq_Inr)

subsection \<open>locksurvey.py\<close>

text \<open>The files of the directory that the survey's pattern names, links left out.\<close>

definition LOCKS_DIRECTORY :: str where "LOCKS_DIRECTORY = ''config''"
definition LOCK_SUFFIX :: str where "LOCK_SUFFIX = ''.lock.json''"

definition reviewed_locks :: "disk \<Rightarrow> source_root \<Rightarrow> (str, str) dict" where
  "reviewed_locks d repository =
     (let directory = path_join (source_root_path repository) LOCKS_DIRECTORY
      in map (\<lambda>path. (path_name path, disk_bytes d path))
           (filter (\<lambda>path. host_is_file (disk_host d) path \<and> \<not> host_is_symlink (disk_host d) path)
             (sort (map (path_join directory) (filter (\<lambda>name. ends_with name LOCK_SUFFIX) (disk_names d directory))))))"

subsection \<open>toolchain.py\<close>

definition PYTHON_VERSION :: str where "PYTHON_VERSION = ''3.14.4''"

definition PINS :: "(str, str) dict" where
  "PINS = [(''ruff'', ''0.14.5''), (''mypy'', ''1.18.2''), (''pyright'', ''1.1.407''), (''vulture'', ''2.14''),
     (''pytest'', ''9.1.1''), (''pylint'', ''4.0.8''), (''import-linter'', ''2.15'')]"

definition PACKAGE :: str where "PACKAGE = ''src/apex''"
definition SOURCE_TREES :: "str list" where "SOURCE_TREES = [''src'', ''tools/migration'']"
definition TEST_TREES :: "str list" where
  "TEST_TREES = [''tests/unit'', ''tests/pipelines'', ''tests/architecture'', ''tests/contract'', ''tests/property'', ''tests/support'']"
definition DEAD_CODE_TREES :: "str list" where
  "DEAD_CODE_TREES = [PACKAGE, ''tools/migration''] @ TEST_TREES @ [''tests/integration'']"
definition ARCHITECTURE_TESTS :: str where "ARCHITECTURE_TESTS = ''tests/architecture''"
definition DEAD_CODE_CONFIDENCE :: str where "DEAD_CODE_CONFIDENCE = ''80''"
definition DUPLICATE_RULE :: str where "DUPLICATE_RULE = ''R0801''"

definition tool_pin :: "str \<Rightarrow> str res" where
  "tool_pin name = rbind (of_option KeyError (map_of PINS name)) (\<lambda>version. Inr (name @ ''=='' @ version))"

definition uv_command :: "str \<Rightarrow> str list \<Rightarrow> str list res" where
  "uv_command python tools =
     rbind (rmapM (\<lambda>name. rbind (tool_pin name) (\<lambda>p. Inr [''--with'', p])) tools) (\<lambda>withs.
       Inr ([''uv'', ''run'', ''--no-project'', ''--python'', python] @ concat withs))"

subsection \<open>budgets.py\<close>

definition MODULE_LINE_LIMIT :: nat where "MODULE_LINE_LIMIT = 400"
definition FUNCTION_STATEMENT_LIMIT :: nat where "FUNCTION_STATEMENT_LIMIT = 40"
definition FUNCTION_COMPLEXITY_LIMIT :: nat where "FUNCTION_COMPLEXITY_LIMIT = 8"
definition FAN_IN_LIMIT :: nat where "FAN_IN_LIMIT = 40"
definition COMMENT_LINE_BUDGET :: nat where "COMMENT_LINE_BUDGET = 40"
definition FAN_IN_EXEMPT :: "str list" where
  "FAN_IN_EXEMPT =
     [''apex.kernel'', ''apex.config.defaults'', ''apex.ports.portset'', ''apex.agent.agentports'', ''apex.pipeline.stages'',
      ''apex.pipeline.effects'', ''apex.composition.keys'', ''apex.verification.verifykeys'', ''apex.ports.guestshell'']"
definition PACKAGE_LINE_BUDGETS :: "(str, nat) dict" where
  "PACKAGE_LINE_BUDGETS =
     [(''kernel'', 1500), (''assets'', 100), (''model'', 1900), (''ports'', 1100), (''registry'', 800), (''pipeline'', 1200),
      (''config'', 900), (''targeting'', 600), (''attestation'', 3600), (''composition'', 2600), (''verification'', 8000),
      (''generating'', 800), (''provisioning'', 2500), (''trust'', 1200), (''agent'', 6400), (''workspace'', 2400),
      (''adapters'', 3100), (''cli'', 3800), (''wiring'', 300)]"

end
