(* ===== verification/TestRuns.thy ===== *)
theory TestRuns
  imports Backing Settings Launching PyDecode
begin

section \<open>Disposable test runs (provisioning/runrecord.py, testspec.py, resuming.py, comparing.py, hotplugging.py)\<close>

text \<open>
  A run is laid out once: each disk it touches is a fresh overlay over a source below the root, the
  firmware variables are copied twice, and a record says what the run was started from. Resuming
  rebuilds the machine from the record, comparing reads every overlay against its source, and a fixture
  is hot-plugged at most once, registered before the monitor is asked. The record reads back
  (\<open>run_record_back\<close>); resuming and preparing describe a machine through one definition.
\<close>

subsection \<open>runrecord.py\<close>

definition RUN_SCHEMA :: int where "RUN_SCHEMA = 1"

record run_layer =
  ly_source :: str
  ly_overlay :: str

definition layer_members :: "run_layer \<Rightarrow> members" where
  "layer_members l = [(''source'', JStr (ly_source l)), (''overlay'', JStr (ly_overlay l))]"

definition layer_parse :: "json \<Rightarrow> run_layer res" where
  "layer_parse entry =
     (case entry of
        JObj m \<Rightarrow>
          rbind (lease_item m ''source'') (\<lambda>s. rbind (lease_item m ''overlay'') (\<lambda>v.
            Inr \<lparr>ly_source = path_text (py_str s), ly_overlay = path_text (py_str v)\<rparr>))
      | _ \<Rightarrow> Inl TypeError)"

record run_record =
  rr_run :: run_id
  rr_disk :: run_layer
  rr_extras :: "run_layer list"
  rr_iso :: "str option"
  rr_medium :: "medium option"
  rr_guest_ssh :: bool
  rr_serial_console :: bool
  rr_usb_bus :: bool
  rr_boot_usb :: "run_layer option"

definition run_members :: "run_record \<Rightarrow> members" where
  "run_members r =
     [(''schema'', JInt RUN_SCHEMA), (''run'', JStr (identifier_value (rr_run r))),
      (''disk'', JObj (layer_members (rr_disk r))), (''extras'', JList (map (\<lambda>l. JObj (layer_members l)) (rr_extras r))),
      (''iso'', case rr_iso r of None \<Rightarrow> JNull | Some p \<Rightarrow> JStr p),
      (''medium'', case rr_medium r of None \<Rightarrow> JNull | Some m \<Rightarrow> JStr (medium_value m)),
      (''guest_ssh'', JBool (rr_guest_ssh r)), (''serial_console'', JBool (rr_serial_console r)),
      (''usb_bus'', JBool (rr_usb_bus r)),
      (''boot_usb'', case rr_boot_usb r of None \<Rightarrow> JNull | Some l \<Rightarrow> JObj (layer_members l))]"

definition parse_unless_null :: "(json \<Rightarrow> 'a res) \<Rightarrow> json \<Rightarrow> 'a option res" where
  "parse_unless_null parse j = (if j = JNull then Inr None else map_sum id Some (parse j))"

definition run_fields :: "members \<Rightarrow> run_record res" where
  "run_fields d =
     rbind (lease_item d ''extras'') (\<lambda>extras.
       case extras of
         JList items \<Rightarrow>
           rbind (rbind (lease_item d ''run'') (\<lambda>j. parse_hex_identifier (py_str j))) (\<lambda>run.
           rbind (rbind (lease_item d ''disk'') layer_parse) (\<lambda>disk.
           rbind (rmapM layer_parse items) (\<lambda>layers.
           rbind (parse_unless_null (\<lambda>j. Inr (path_text (py_str j))) (member d ''iso'')) (\<lambda>iso.
           rbind (parse_unless_null (\<lambda>j. enum_of medium_value media (py_str j)) (member d ''medium'')) (\<lambda>med.
           rbind (lease_item d ''guest_ssh'') (\<lambda>ssh.
           rbind (lease_item d ''serial_console'') (\<lambda>console.
           rbind (lease_item d ''usb_bus'') (\<lambda>bus.
           rbind (parse_unless_null layer_parse (member d ''boot_usb'')) (\<lambda>boot.
             Inr \<lparr>rr_run = run, rr_disk = disk, rr_extras = layers, rr_iso = iso, rr_medium = med,
                  rr_guest_ssh = py_bool ssh, rr_serial_console = py_bool console, rr_usb_bus = py_bool bus,
                  rr_boot_usb = boot\<rparr>)))))))))
       | _ \<Rightarrow> Inl TypeError)"

definition run_parse :: "members \<Rightarrow> run_record res" where
  "run_parse d = rcatch (run_fields d) lease_fault (Inl (Refusal LEASE_MALFORMED))"

text \<open>Every overlay the run wrote, the hot-plugged fixture last.\<close>

definition run_layers :: "run_record \<Rightarrow> run_layer option \<Rightarrow> run_layer list" where
  "run_layers r hotplug =
     rr_disk r # rr_extras r @ (case rr_boot_usb r of None \<Rightarrow> [] | Some l \<Rightarrow> [l])
       @ (case hotplug of None \<Rightarrow> [] | Some l \<Rightarrow> [l])"

definition write_run :: "'w files_port \<Rightarrow> safe_path \<Rightarrow> run_record \<Rightarrow> ('w, unit) io" where
  "write_run port directory r = write_document port (safe_path_div directory RUN_RECORD_NAME) (JObj (run_members r))"

definition read_run :: "'w files_port \<Rightarrow> safe_path \<Rightarrow> ('w, run_record) io" where
  "read_run port directory =
     io_bind (read_object port (safe_path_div directory RUN_RECORD_NAME)) (\<lambda>found.
       case found of None \<Rightarrow> io_raise (Refusal PATH_NOT_A_REGULAR_FILE) | Some d \<Rightarrow> io_lift (run_parse d))"

subsection \<open>testspec.py\<close>

record test_request =
  tq_disk :: str
  tq_iso :: "str option"
  tq_medium :: "medium option"
  tq_extra_disks :: "str list"
  tq_guest_ssh :: bool
  tq_serial_console :: bool
  tq_usb_bus :: bool
  tq_boot_usb :: "str option"

definition require_usb_consistent :: "test_request \<Rightarrow> unit res" where
  "require_usb_consistent q =
     (if tq_boot_usb q = None then Inr ()
      else if \<not> tq_usb_bus q then Inl (Refusal TOPOLOGY_INCONSISTENT)
      else if tq_iso q \<noteq> None \<or> tq_guest_ssh q \<or> length (tq_extra_disks q) \<noteq> 1 then Inl (Refusal TOPOLOGY_INCONSISTENT)
      else Inr ())"

definition mk_test_request :: "test_request \<Rightarrow> test_request res" where
  "mk_test_request q =
     rbind (require_usb_consistent q) (\<lambda>_.
       if tq_medium q \<noteq> None \<and> tq_iso q = None then Inl (Refusal TOPOLOGY_INCONSISTENT)
       else if tq_iso q \<noteq> None \<and> tq_medium q = None then Inl (Refusal TOPOLOGY_INCONSISTENT)
       else if MAXIMUM_TEST_EXTRA_DISKS < length (tq_extra_disks q) then Inl (Refusal TOO_MANY_DEVICES)
       else Inr q)"

record prepared =
  pr_run :: run_id
  pr_run_directory :: safe_path
  pr_spec :: vm_spec
  pr_medium :: "medium option"

text \<open>What \<open>describe\<close> is given besides the settings and the run's directory.\<close>

record test_disks =
  td_disk :: safe_path
  td_extras :: "safe_path list"
  td_variables :: safe_path
  td_iso :: "str option"
  td_guest_ssh :: bool
  td_serial_console :: bool
  td_usb_bus :: bool
  td_boot_usb :: "safe_path option"

definition lift_option :: "('a \<Rightarrow> 'b res) \<Rightarrow> 'a option \<Rightarrow> 'b option res" where
  "lift_option f x = (case x of None \<Rightarrow> Inr None | Some y \<Rightarrow> map_sum id Some (f y))"

definition describe_test :: "host \<Rightarrow> settings \<Rightarrow> runtime_root \<Rightarrow> safe_path \<Rightarrow> test_disks \<Rightarrow> vm_spec res" where
  "describe_test h s rt directory t =
     rbind (safe_path_div directory TEST_SERIAL_LOG_NAME) (\<lambda>log_path.
     rbind (if td_serial_console t
            then rbind (root_child h rt SERIAL_SOCKET_NAME) (\<lambda>socket. mk_serial_socket socket log_path)
            else Inr (SerialFile log_path)) (\<lambda>serial.
     rbind (adopt_regular_file h (bs_firmware_code (se_builder s))) (\<lambda>code.
     rbind (lift_option (\<lambda>p. safe_regular_file h p rt) (td_iso t)) (\<lambda>seed.
     rbind (mk_safe_path (regular_file_path code)) (\<lambda>code_path.
     rbind (root_child h rt MONITOR_SOCKET_NAME) (\<lambda>monitor.
       vm_build
         \<lparr>rq_role = TEST, rq_resources = \<lparr>vr_memory = tm_memory TEST_MACHINE, vr_processors = tm_processors TEST_MACHINE\<rparr>,
          rq_root_disk = td_disk t,
          rq_firmware = \<lparr>fw_code = code_path, fw_variables = td_variables t, fw_code_read_only = True\<rparr>,
          rq_monitor = MonitorSocket monitor, rq_serial = serial, rq_extra_disks = td_extras t, rq_seed = seed,
          rq_network = (if td_guest_ssh t then Some \<lparr>rn_forwarded_port = tm_ssh_port TEST_MACHINE, rn_role = TEST\<rparr> else None),
          rq_usb = (if td_usb_bus t then Some UsbController else None),
          rq_boot_usb = map_option (\<lambda>p. \<lparr>us_path = p, us_boot_first = True\<rparr>) (td_boot_usb t),
          rq_boot_from_cdrom = (td_iso t \<noteq> None)\<rparr>))))))"

definition test_overlay :: "'w host_ports \<Rightarrow> host \<Rightarrow> str \<Rightarrow> safe_path \<Rightarrow> runtime_root \<Rightarrow> ('w, safe_path) pio" where
  "test_overlay ports h source into rt =
     pio_bind (inspect_chain ports h source rt) (\<lambda>chain.
     pio_bind (overlay ports h chain into rt None) (\<lambda>fresh. pio (io_return (chain_disk fresh))))"

definition test_variables :: "'w host_ports \<Rightarrow> host \<Rightarrow> settings \<Rightarrow> safe_path \<Rightarrow> ('w, safe_path) io" where
  "test_variables ports h s directory =
     io_bind (io_lift (adopt_regular_file h (bs_firmware_variables (se_builder s)))) (\<lambda>adopted.
     io_bind (io_lift (mk_safe_path (regular_file_path adopted))) (\<lambda>source.
     io_bind (io_lift (safe_path_div directory VARIABLES_NAME)) (\<lambda>written.
     io_bind (fp_copy (hp_files ports) source written) (\<lambda>_.
     io_bind (io_lift (safe_path_div directory INITIAL_VARIABLES_NAME)) (\<lambda>initial.
     io_bind (fp_copy (hp_files ports) source initial) (\<lambda>_. io_return written))))))"

fun pio_mapM :: "('a \<Rightarrow> ('s, 'b) pio) \<Rightarrow> 'a list \<Rightarrow> ('s, 'b list) pio" where
  "pio_mapM f [] = pio (io_return [])"
| "pio_mapM f (x # xs) = pio_bind (f x) (\<lambda>y. pio_bind (pio_mapM f xs) (\<lambda>ys. pio (io_return (y # ys))))"

definition extra_disk_name :: "nat \<Rightarrow> str" where
  "extra_disk_name index = TEST_EXTRA_DISK_PREFIX @ str_of_nat index @ ''.qcow2''"

definition prepare_test ::
  "'w host_ports \<Rightarrow> host \<Rightarrow> settings \<Rightarrow> runtime_root \<Rightarrow> test_request \<Rightarrow> run_id \<Rightarrow> ('w, prepared) pio" where
  "prepare_test ports h s rt q run =
     pio_bind (pio (io_bind (io_lift (root_child h rt (RUNS_DIRECTORY @ ''/'' @ identifier_value run))) (\<lambda>directory.
                    io_bind (fp_make_directory (hp_files ports) directory PRIVATE_DIRECTORY_MODE) (\<lambda>_. io_return directory))))
       (\<lambda>directory.
     pio_bind (pio_bind (pio (io_lift (safe_path_div directory TEST_DISK_NAME))) (\<lambda>into. test_overlay ports h (tq_disk q) into rt)) (\<lambda>disk.
     pio_bind (pio_mapM (\<lambda>(index, source).
                 pio_bind (pio (io_lift (safe_path_div directory (extra_disk_name index)))) (\<lambda>into. test_overlay ports h source into rt))
                 (zip [1..<length (tq_extra_disks q) + 1] (tq_extra_disks q))) (\<lambda>extras.
     pio_bind (case tq_boot_usb q of
                 None \<Rightarrow> pio (io_return None)
               | Some source \<Rightarrow>
                   pio_bind (pio (io_lift (safe_path_div directory TEST_BOOT_USB_NAME))) (\<lambda>into.
                   pio_bind (test_overlay ports h source into rt) (\<lambda>p. pio (io_return (Some (source, p)))))) (\<lambda>boot.
     pio (io_bind (test_variables ports h s directory) (\<lambda>variables.
       let r = \<lparr>rr_run = run, rr_disk = \<lparr>ly_source = tq_disk q, ly_overlay = safe_path_str disk\<rparr>,
                rr_extras = map2 (\<lambda>source p. \<lparr>ly_source = source, ly_overlay = safe_path_str p\<rparr>) (tq_extra_disks q) extras,
                rr_iso = tq_iso q, rr_medium = tq_medium q, rr_guest_ssh = tq_guest_ssh q,
                rr_serial_console = tq_serial_console q, rr_usb_bus = tq_usb_bus q,
                rr_boot_usb = map_option (\<lambda>(source, p). \<lparr>ly_source = source, ly_overlay = safe_path_str p\<rparr>) boot\<rparr>
       in io_bind (write_run (hp_files ports) directory r) (\<lambda>_.
          io_bind (io_lift (describe_test h s rt directory
             \<lparr>td_disk = disk, td_extras = extras, td_variables = variables, td_iso = tq_iso q, td_guest_ssh = tq_guest_ssh q,
              td_serial_console = tq_serial_console q, td_usb_bus = tq_usb_bus q, td_boot_usb = map_option snd boot\<rparr>)) (\<lambda>spec.
            io_return \<lparr>pr_run = run, pr_run_directory = directory, pr_spec = spec, pr_medium = tq_medium q\<rparr>))))))))"

subsection \<open>resuming.py\<close>

definition preserved_names :: "token \<Rightarrow> (str \<times> str) list" where
  "preserved_names stamp =
     [(VARIABLES_NAME, RESUME_PREFIX @ identifier_value stamp @ ''-vars.fd''),
      (TEST_SERIAL_LOG_NAME, RESUME_PREFIX @ identifier_value stamp @ ''-serial.log''),
      (RUN_RECORD_NAME, RESUME_PREFIX @ identifier_value stamp @ ''.json'')]"

definition preserve :: "'w files_port \<Rightarrow> safe_path \<Rightarrow> token \<Rightarrow> ('w, unit) io" where
  "preserve port directory stamp =
     io_bind (io_mapM (\<lambda>(name, kept).
       io_bind (io_lift (safe_path_div directory name)) (\<lambda>source.
       io_bind (fp_exists port source) (\<lambda>there.
         if there then io_bind (io_lift (safe_path_div directory kept)) (fp_copy port source) else io_return ())))
       (preserved_names stamp)) (\<lambda>_. io_return ())"

definition resume_test ::
  "'w host_ports \<Rightarrow> host \<Rightarrow> settings \<Rightarrow> runtime_root \<Rightarrow> run_id \<Rightarrow> token \<Rightarrow> bool \<Rightarrow> ('w, prepared) io" where
  "resume_test ports h s rt run stamp without_iso =
     io_bind (io_lift (root_child h rt (RUNS_DIRECTORY @ ''/'' @ identifier_value run))) (\<lambda>directory.
     io_bind (read_run (hp_files ports) directory) (\<lambda>r.
       if rr_usb_bus r \<or> rr_boot_usb r \<noteq> None then io_raise (Refusal TOPOLOGY_INCONSISTENT)
       else io_bind (current_lease (machine_part ports) h rt) (\<lambda>running.
         if running \<noteq> None then io_raise (Refusal MACHINE_RUNNING)
         else io_bind (preserve (hp_files ports) directory stamp) (\<lambda>_.
           let iso = (if without_iso then None else rr_iso r)
           in io_bind (io_lift (safe_path_div directory VARIABLES_NAME)) (\<lambda>variables.
              io_bind (fp_exists (hp_files ports) variables) (\<lambda>there.
                if \<not> there then io_raise (Refusal PATH_NOT_A_REGULAR_FILE)
                else io_bind (io_lift (safe_regular_file h (ly_overlay (rr_disk r)) rt)) (\<lambda>disk.
                     io_bind (io_lift (rmapM (\<lambda>l. safe_regular_file h (ly_overlay l) rt) (rr_extras r))) (\<lambda>extras.
                     io_bind (io_lift (describe_test h s rt directory
                       \<lparr>td_disk = disk, td_extras = extras, td_variables = variables, td_iso = iso, td_guest_ssh = rr_guest_ssh r,
                        td_serial_console = rr_serial_console r, td_usb_bus = False, td_boot_usb = None\<rparr>)) (\<lambda>spec.
                       io_return \<lparr>pr_run = run, pr_run_directory = directory, pr_spec = spec,
                                  pr_medium = (if iso = None then None else rr_medium r)\<rparr>))))))))) "

subsection \<open>comparing.py\<close>

definition UNCHANGED :: int where "UNCHANGED = 0"
definition CHANGED :: int where "CHANGED = 1"
definition COMPARE_METHOD :: str where "COMPARE_METHOD = ''qemu-img compare: complete guest-visible disk contents''"

record layered_disk =
  ld_source :: backing_chain
  ld_overlay :: backing_chain

record disk_observation =
  do_source :: safe_path
  do_overlay :: safe_path
  do_unchanged :: bool
  do_output :: str

record run_comparison =
  cm_disks :: "disk_observation list"
  cm_variables_unchanged :: bool

definition comparison_document :: "run_comparison \<Rightarrow> json" where
  "comparison_document c = JObj
     [(''method'', JStr COMPARE_METHOD),
      (''disks'', JList (map (\<lambda>d. JObj
         [(''source'', JStr (safe_path_str (do_source d))), (''overlay'', JStr (safe_path_str (do_overlay d))),
          (''unchanged'', JBool (do_unchanged d)), (''output'', JStr (do_output d))]) (cm_disks c))),
      (''firmware_variables_unchanged'', JBool (cm_variables_unchanged c))]"

definition compare_argv :: "safe_path \<Rightarrow> safe_path \<Rightarrow> argv" where
  "compare_argv source target =
     Argv [QEMU_IMG, ''compare'', ''-f'', QCOW2, ''-F'', QCOW2, safe_path_str source, safe_path_str target]"

definition compare_one :: "'w host_ports \<Rightarrow> layered_disk \<Rightarrow> ('w, disk_observation) io" where
  "compare_one ports item =
     io_bind (pp_run (hp_processes ports) (compare_argv (chain_disk (ld_source item)) (chain_disk (ld_overlay item)))
                IMAGE_TOOL_DEADLINE output_limit_default no_options) (\<lambda>completed.
       if run_exit_code completed \<notin> {UNCHANGED, CHANGED} then io_raise PortFailure
       else io_return \<lparr>do_source = chain_disk (ld_source item), do_overlay = chain_disk (ld_overlay item),
              do_unchanged = (run_exit_code completed = UNCHANGED), do_output = strip (decode_replacing (run_stdout completed))\<rparr>)"

definition compare_run ::
  "'w host_ports \<Rightarrow> host \<Rightarrow> runtime_root \<Rightarrow> safe_path \<Rightarrow> layered_disk list \<Rightarrow> ('w, run_comparison) io" where
  "compare_run ports h rt directory disks =
     io_bind (current_lease (machine_part ports) h rt) (\<lambda>running.
       if running \<noteq> None then io_raise (Refusal MACHINE_RUNNING)
       else io_bind (io_mapM (compare_one ports) disks) (\<lambda>observations.
         io_bind (io_lift (safe_path_div directory INITIAL_VARIABLES_NAME)) (\<lambda>initial_path.
         io_bind (fp_read_bytes (hp_files ports) initial_path (limit_value FIRMWARE_VARIABLES_LIMIT)) (\<lambda>initial.
         io_bind (io_lift (safe_path_div directory VARIABLES_NAME)) (\<lambda>final_path.
         io_bind (fp_read_bytes (hp_files ports) final_path (limit_value FIRMWARE_VARIABLES_LIMIT)) (\<lambda>final.
           let comparison = \<lparr>cm_disks = observations, cm_variables_unchanged = (initial = final)\<rparr>
           in io_bind (write_document (hp_files ports) (safe_path_div directory COMPARISON_RECORD) (comparison_document comparison))
                (\<lambda>_. io_return comparison)))))))"

subsection \<open>A record of a run reads back\<close>

definition text_path_ok :: "str \<Rightarrow> bool" where
  "text_path_ok p \<longleftrightarrow> path_text p = p \<and> list_all is_ascii p"

definition layer_ok :: "run_layer \<Rightarrow> bool" where
  "layer_ok l \<longleftrightarrow> text_path_ok (ly_source l) \<and> text_path_ok (ly_overlay l)"

definition run_ok :: "run_record \<Rightarrow> bool" where
  "run_ok r \<longleftrightarrow> hex_identifier_ok (rr_run r) \<and> layer_ok (rr_disk r) \<and> list_all layer_ok (rr_extras r)
     \<and> (\<forall>p. rr_iso r = Some p \<longrightarrow> text_path_ok p) \<and> (\<forall>l. rr_boot_usb r = Some l \<longrightarrow> layer_ok l)"

lemma layer_keys: "distinct (map fst (layer_members l))"
  by (simp add: layer_members_def)

lemma layer_back: "layer_ok l \<Longrightarrow> layer_parse (sort_json (JObj (layer_members l))) = Inr l"
  by (simp add: layer_parse_def lease_item_sorted [OF layer_keys])
    (simp add: layer_members_def layer_ok_def text_path_ok_def)

lemma layers_back: "list_all layer_ok ls \<Longrightarrow> rmapM layer_parse (sort_items (map (\<lambda>l. JObj (layer_members l)) ls)) = Inr ls"
  by (induction ls) (simp_all add: layer_back del: sort_json.simps)

lemma run_keys: "distinct (map fst (run_members r))"
  by (simp add: run_members_def)

lemma medium_back: "enum_of medium_value media (medium_value m) = Inr m"
  by (cases m) (simp_all add: enum_of_def media_def)

lemma run_member_sorted: "member (sort_key fst (sort_members (run_members r))) key =
    (case map_of (run_members r) key of None \<Rightarrow> JNull | Some j \<Rightarrow> sort_json j)"
  by (simp add: member_def dict_get_def map_of_sort_key keys_sort_members run_keys map_of_sort_members split: option.splits)

lemma run_items [simp]:
  "map_of (run_members r) ''extras'' = Some (JList (map (\<lambda>l. JObj (layer_members l)) (rr_extras r)))"
  "map_of (run_members r) ''run'' = Some (JStr (identifier_value (rr_run r)))"
  "map_of (run_members r) ''disk'' = Some (JObj (layer_members (rr_disk r)))"
  "map_of (run_members r) ''iso'' = Some (case rr_iso r of None \<Rightarrow> JNull | Some p \<Rightarrow> JStr p)"
  "map_of (run_members r) ''medium'' = Some (case rr_medium r of None \<Rightarrow> JNull | Some m \<Rightarrow> JStr (medium_value m))"
  "map_of (run_members r) ''guest_ssh'' = Some (JBool (rr_guest_ssh r))"
  "map_of (run_members r) ''serial_console'' = Some (JBool (rr_serial_console r))"
  "map_of (run_members r) ''usb_bus'' = Some (JBool (rr_usb_bus r))"
  "map_of (run_members r) ''boot_usb'' = Some (case rr_boot_usb r of None \<Rightarrow> JNull | Some l \<Rightarrow> JObj (layer_members l))"
  by (simp_all add: run_members_def)

lemma run_record_back:
  assumes "run_ok r"
  shows "run_parse (sort_key fst (sort_members (run_members r))) = Inr r"
proof -
  have iso: "parse_unless_null (\<lambda>j. Inr (path_text (py_str j))) (sort_json (case rr_iso r of None \<Rightarrow> JNull | Some p \<Rightarrow> JStr p)) = Inr (rr_iso r)"
    using assms by (cases "rr_iso r") (simp_all add: parse_unless_null_def run_ok_def text_path_ok_def)
  have med: "parse_unless_null (\<lambda>j. enum_of medium_value media (py_str j))
      (sort_json (case rr_medium r of None \<Rightarrow> JNull | Some m \<Rightarrow> JStr (medium_value m))) = Inr (rr_medium r)"
    by (cases "rr_medium r") (simp_all add: parse_unless_null_def medium_back)
  have boot: "parse_unless_null layer_parse
      (sort_json (case rr_boot_usb r of None \<Rightarrow> JNull | Some l \<Rightarrow> JObj (layer_members l))) = Inr (rr_boot_usb r)"
  proof (cases "rr_boot_usb r")
    case (Some l)
    with assms layer_back [of l] show ?thesis by (simp add: parse_unless_null_def run_ok_def)
  qed (simp add: parse_unless_null_def)
  have "run_fields (sort_key fst (sort_members (run_members r))) = Inr r"
    using assms layer_back [of "rr_disk r"] layers_back [of "rr_extras r"] iso med boot run_back [of "rr_run r"]
    by (simp add: run_fields_def lease_item_sorted [OF run_keys] run_member_sorted run_ok_def)
  then show ?thesis by (simp add: run_parse_def)
qed

lemma plain_layer: "layer_ok l \<Longrightarrow> plain_json (JObj (layer_members l))"
  by (simp add: layer_members_def layer_ok_def text_path_ok_def is_ascii_def byte_of_def)

lemma plain_layers: "list_all layer_ok ls \<Longrightarrow> plain_items (map (\<lambda>l. JObj (layer_members l)) ls)"
  by (induction ls) (simp_all add: plain_layer del: plain_json.simps)

lemma medium_ascii: "list_all is_ascii (medium_value m)"
  by (cases m) (simp_all add: is_ascii_def byte_of_def)

lemma plain_run: "run_ok r \<Longrightarrow> plain_json (JObj (run_members r))"
proof -
  assume ok: "run_ok r"
  have items: "list_all plain_json (map snd (run_members r))"
    using ok plain_layer [of "rr_disk r"] plain_layers [of "rr_extras r"] plain_layer [of "the (rr_boot_usb r)"] identifier_ascii [of "rr_run r"]
    by (auto simp: run_members_def run_ok_def text_path_ok_def medium_ascii split: option.splits)
  have keys: "list_all (list_all is_ascii) (map fst (run_members r))"
    by (simp add: run_members_def is_ascii_def byte_of_def)
  from plain_object [OF run_keys keys items] show ?thesis .
qed

text \<open>Written beside the overlays, the record is what is read from there.\<close>

definition run_fits :: "run_record \<Rightarrow> bool" where
  "run_fits r \<longleftrightarrow> run_ok r \<and> int (length (document_bytes (JObj (run_members r)))) \<le> limit_value DOCUMENT_LIMIT"

context file_store
begin

lemma run_written_reads:
  assumes "plain w" "safe_path_div directory RUN_RECORD_NAME = Inr p" "run_fits r"
  shows "\<exists>w'. write_run port directory r w = (w', Inr ()) \<and> read_run port directory w' = (w', Inr r)"
proof -
  from write_document_spec [OF assms(1), of p "JObj (run_members r)"] obtain w' where
    w': "write_document port (Inr p) (JObj (run_members r)) w = (w', Inr ())"
    "content w' = (content w)(p \<mapsto> document_bytes (JObj (run_members r)))" "plain w'" by blast
  then have c: "content w' p = Some (document_bytes (JObj (run_members r)))" by simp
  have "read_run port directory w' = (w', Inr r)"
    using read_object_spec [OF w'(3) c] assms(2,3) loaded_object_back [OF plain_run] run_record_back [of r]
    by (simp add: read_run_def run_fits_def io_bind_step)
  with w'(1) assms(2) show ?thesis by (auto simp: write_run_def)
qed

end

end
