(* ===== verification/Hotplug.thy ===== *)
theory Hotplug
  imports TestRuns
begin

section \<open>Attaching a fixture to a running test machine (provisioning/hotplugging.py)\<close>

text \<open>
  The fixture goes in through the controller the machine was started with; it is registered in the run
  directory before the monitor is asked and again, with what was answered, whatever happened. The lemmas
  say that a machine that is not a disposable one with the emulated bus is refused untouched, and that the
  record on disk holds the answers of exactly the requests that were made.
\<close>

definition BLOCKDEV_ADD :: str where "BLOCKDEV_ADD = ''blockdev-add''"
definition DEVICE_ADD :: str where "DEVICE_ADD = ''device_add''"
definition HOTPLUG_NODE :: str where "HOTPLUG_NODE = ''apex-usb-disk''"
definition HOTPLUG_DEVICE :: str where "HOTPLUG_DEVICE = ''apex-usb-fixture''"

datatype hotplug_status = HOTPLUG_INCOMPLETE | HOTPLUG_ATTACHED

fun hotplug_status_value :: "hotplug_status \<Rightarrow> str" where
  "hotplug_status_value HOTPLUG_INCOMPLETE = ''INCOMPLETE''"
| "hotplug_status_value HOTPLUG_ATTACHED = ''ATTACHED''"

definition HOTPLUG_NOT_TESTED :: str where "HOTPLUG_NOT_TESTED = ''NOT TESTED''"

record hotplug_report =
  hr_source :: safe_path
  hr_overlay :: safe_path
  hr_requests :: "qmp_command list"
  hr_responses :: "json list"
  hr_status :: hotplug_status

definition hotplug_document :: "hotplug_report \<Rightarrow> json" where
  "hotplug_document r = JObj
     [(''source'', JStr (safe_path_str (hr_source r))), (''overlay'', JStr (safe_path_str (hr_overlay r))),
      (''requests'', JList (map (\<lambda>q. JList [JStr (qc_name q), JObj (qc_arguments q)]) (hr_requests r))),
      (''responses'', JList (hr_responses r)), (''status'', JStr (hotplug_status_value (hr_status r))),
      (''guest_protection'', JStr HOTPLUG_NOT_TESTED)]"

definition test_machine_with_bus :: "'w host_ports \<Rightarrow> host \<Rightarrow> runtime_root \<Rightarrow> ('w, machine_lease) io" where
  "test_machine_with_bus ports h rt =
     io_bind (current_lease (machine_part ports) h rt) (\<lambda>running.
       case running of
         None \<Rightarrow> io_raise (Refusal MACHINE_NOT_RUNNING)
       | Some lease \<Rightarrow>
           if mi_role (ml_intent lease) \<noteq> TEST then io_raise (Refusal NOT_A_DISPOSABLE_MACHINE)
           else if USB_CONTROLLER \<notin> set (argv_arguments (mi_command (ml_intent lease)))
           then io_raise (Refusal TOPOLOGY_INCONSISTENT)
           else io_return lease)"

definition hotplug_requests :: "safe_path \<Rightarrow> qmp_command list" where
  "hotplug_requests target =
     [\<lparr>qc_name = BLOCKDEV_ADD, qc_arguments =
         [(''driver'', JStr QCOW2), (''node-name'', JStr HOTPLUG_NODE), (''read-only'', JBool False),
          (''file'', JObj [(''driver'', JStr ''file''), (''filename'', JStr (safe_path_str target))])]\<rparr>,
      \<lparr>qc_name = DEVICE_ADD, qc_arguments =
         [(''driver'', JStr ''usb-storage''), (''id'', JStr HOTPLUG_DEVICE), (''bus'', JStr USB_ROOT_PORT),
          (''drive'', JStr HOTPLUG_NODE), (''serial'', JStr USB_FIXTURE_SERIAL)]\<rparr>]"

definition record_hotplug :: "'w host_ports \<Rightarrow> safe_path \<Rightarrow> hotplug_report \<Rightarrow> ('w, unit) io" where
  "record_hotplug ports directory r = write_document (hp_files ports) (safe_path_div directory HOTPLUG_RECORD) (hotplug_document r)"

text \<open>The requests one by one, with the answers so far, whether or not the last of them raised.\<close>

fun send_requests :: "'w host_ports \<Rightarrow> vm_identity \<Rightarrow> qmp_command list \<Rightarrow> json list \<Rightarrow> 'w \<Rightarrow> 'w \<times> json list \<times> unit res" where
  "send_requests ports i [] responses w = (w, responses, Inr ())"
| "send_requests ports i (request # rest) responses w =
     (case hv_running (hp_hypervisor ports) i w of
        (w1, Inl e) \<Rightarrow> (w1, responses, Inl e)
      | (w1, Inr running) \<Rightarrow>
          if \<not> running then (w1, responses, Inl (Refusal MACHINE_IDENTITY_CHANGED))
          else (case qp_execute (hp_monitor ports) request w1 of
                  (w2, Inl e) \<Rightarrow> (w2, responses, Inl e)
                | (w2, Inr answer) \<Rightarrow> send_requests ports i rest (responses @ [answer]) w2))"

text \<open>The session around them: closed whatever happened, and what closing raises replaces it.\<close>

definition hotplug_session :: "'w host_ports \<Rightarrow> machine_lease \<Rightarrow> qmp_command list \<Rightarrow> 'w \<Rightarrow> 'w \<times> json list \<times> unit res" where
  "hotplug_session ports lease requests w =
     (case qp_connect (hp_monitor ports) (mi_monitor (ml_intent lease)) QMP_DEADLINE w of
        (w1, Inl e) \<Rightarrow> (w1, [], Inl e)
      | (w1, Inr u) \<Rightarrow>
          (case send_requests ports (ml_identity lease) requests [] w1 of
             (w2, responses, r) \<Rightarrow>
               (case qp_close (hp_monitor ports) w2 of
                  (w3, Inl e) \<Rightarrow> (w3, responses, Inl e)
                | (w3, Inr u) \<Rightarrow> (w3, responses, r))))"

text \<open>\<open>try ... finally\<close>: the report is written with what was answered, then what was raised goes on.\<close>

definition attach_recorded :: "'w host_ports \<Rightarrow> machine_lease \<Rightarrow> hotplug_report \<Rightarrow> ('w, hotplug_report) io" where
  "attach_recorded ports lease report w =
     (case hotplug_session ports lease (hr_requests report) w of
        (w1, responses, r) \<Rightarrow>
          let status = (case r of Inr u \<Rightarrow> HOTPLUG_ATTACHED | Inl e \<Rightarrow> hr_status report);
              final = report\<lparr>hr_responses := responses, hr_status := status\<rparr>
          in (case record_hotplug ports (mi_run_directory (ml_intent lease)) final w1 of
                (w2, Inl e) \<Rightarrow> (w2, Inl e)
              | (w2, Inr u) \<Rightarrow> (w2, case r of Inl e \<Rightarrow> Inl e | Inr u \<Rightarrow> Inr final)))"

definition attach_fixture :: "'w host_ports \<Rightarrow> host \<Rightarrow> runtime_root \<Rightarrow> str \<Rightarrow> ('w, hotplug_report) pio" where
  "attach_fixture ports h rt source =
     locked_pio (machine_part ports) MACHINE immediate
       (pio_bind (pio (io_bind (test_machine_with_bus ports h rt) (\<lambda>lease.
                       io_bind (io_lift (safe_path_div (mi_run_directory (ml_intent lease)) HOTPLUG_RECORD)) (\<lambda>target.
                       io_bind (fp_exists (hp_files ports) target) (\<lambda>there.
                         if there then io_raise (Refusal DUPLICATE_DEVICE) else io_return lease))))) (\<lambda>lease.
        pio_bind (inspect_chain ports h source rt) (\<lambda>chain.
        pio_bind (pio (io_lift (safe_path_div (mi_run_directory (ml_intent lease)) HOTPLUG_OVERLAY_NAME))) (\<lambda>into.
        pio_bind (overlay ports h chain into rt None) (\<lambda>fresh.
          let report = \<lparr>hr_source = chain_disk chain, hr_overlay = chain_disk fresh,
                hr_requests = hotplug_requests (chain_disk fresh), hr_responses = [], hr_status = HOTPLUG_INCOMPLETE\<rparr>
          in pio (io_bind (record_hotplug ports (mi_run_directory (ml_intent lease)) report) (\<lambda>_.
                  attach_recorded ports lease report)))))))"

definition attached_fixture :: "'w files_port \<Rightarrow> safe_path \<Rightarrow> ('w, run_layer option) io" where
  "attached_fixture port directory =
     io_bind (io_lift (safe_path_div directory HOTPLUG_RECORD)) (\<lambda>path.
     io_bind (fp_exists port path) (\<lambda>there.
       if \<not> there then io_return None
       else io_bind (fp_read_bytes port path (limit_value DOCUMENT_LIMIT)) (\<lambda>payload.
         io_lift (rcatch
           (rbind (parse_document payload) (\<lambda>loaded.
            rbind (py_item loaded ''source'') (\<lambda>s. rbind (py_item loaded ''overlay'') (\<lambda>v.
              Inr (Some \<lparr>ly_source = path_text (py_str s), ly_overlay = path_text (py_str v)\<rparr>)))))
           (\<lambda>e. e = JSONDecodeError \<or> e = KeyError \<or> e = TypeError) (Inl (Refusal LEASE_MALFORMED))))))"

subsection \<open>What an attempt leaves\<close>

lemma send_requests_answers:
  "send_requests ports i requests responses w = (w', answers, r) \<Longrightarrow>
     \<exists>more_answers. answers = responses @ more_answers \<and> length more_answers \<le> length requests
       \<and> ((\<exists>u. r = Inr u) \<longrightarrow> length more_answers = length requests)"
proof (induction requests arbitrary: responses w)
  case (Cons request rest)
  show ?case
  proof (cases "\<exists>w1 w2 answer. hv_running (hp_hypervisor ports) i w = (w1, Inr True) \<and> qp_execute (hp_monitor ports) request w1 = (w2, Inr answer)")
    case True
    then obtain w1 w2 answer where e: "hv_running (hp_hypervisor ports) i w = (w1, Inr True)"
      "qp_execute (hp_monitor ports) request w1 = (w2, Inr answer)" by blast
    with Cons.prems have "send_requests ports i rest (responses @ [answer]) w2 = (w', answers, r)" by simp
    from Cons.IH [OF this] obtain later where "answers = responses @ answer # later" "length later \<le> length rest"
      "(\<exists>u. r = Inr u) \<longrightarrow> length later = length rest" by auto
    then show ?thesis by (intro exI [of _ "answer # later"]) simp
  next
    case False
    with Cons.prems have "answers = responses" "\<exists>e. r = Inl e" by (auto split: prod.splits sum.splits if_splits)
    then show ?thesis by auto
  qed
qed simp

lemma session_answers:
  "hotplug_session ports lease requests w = (w', answers, r) \<Longrightarrow>
     length answers \<le> length requests \<and> ((\<exists>u. r = Inr u) \<longrightarrow> length answers = length requests)"
  using send_requests_answers by (fastforce simp: hotplug_session_def split: prod.splits sum.splits)

context file_store
begin

text \<open>
  After an attempt that reached the monitor the record says what was answered: of all requests and attached
  when it was, of no more than were made and still incomplete when something was raised.
\<close>

lemma attach_leaves_record:
  assumes "hp_files ports = port" "safe_path_div (mi_run_directory (ml_intent lease)) HOTPLUG_RECORD = Inr p"
    and "hr_status report = HOTPLUG_INCOMPLETE" "attach_recorded ports lease report w = (w', r)"
    and "\<And>w1 answers s. hotplug_session ports lease (hr_requests report) w = (w1, answers, s) \<Longrightarrow> plain w1"
  shows "\<exists>final. content w' p = Some (document_bytes (hotplug_document final)) \<and> hr_requests final = hr_requests report
    \<and> length (hr_responses final) \<le> length (hr_requests final)
    \<and> (case r of Inr x \<Rightarrow> x = final \<and> hr_status final = HOTPLUG_ATTACHED \<and> length (hr_responses final) = length (hr_requests final)
                | Inl e \<Rightarrow> hr_status final = HOTPLUG_INCOMPLETE)"
proof -
  obtain w1 answers s where s: "hotplug_session ports lease (hr_requests report) w = (w1, answers, s)" by (metis prod.exhaust_sel)
  let ?final = "report\<lparr>hr_responses := answers, hr_status := (case s of Inr u \<Rightarrow> HOTPLUG_ATTACHED | Inl e \<Rightarrow> hr_status report)\<rparr>"
  from write_document_spec [OF assms(5) [OF s], of p "hotplug_document ?final"] obtain w2 where
    w2: "record_hotplug ports (mi_run_directory (ml_intent lease)) ?final w1 = (w2, Inr ())"
      "content w2 = (content w1)(p \<mapsto> document_bytes (hotplug_document ?final))"
    using assms(1,2) by (auto simp: record_hotplug_def)
  from assms(4) s w2(1) have r: "w' = w2" "r = (case s of Inl e \<Rightarrow> Inl e | Inr u \<Rightarrow> Inr ?final)"
    by (auto simp: attach_recorded_def Let_def)
  with w2(2) session_answers [OF s] assms(3) show ?thesis
    by (intro exI [of _ ?final]) (cases s; simp)
qed

end

end
