(* ===== verification/Compacting.thy ===== *)
theory Compacting
  imports TestRuns Indented "HOL-Library.Sublist"
begin

section \<open>The builder's disk compacted (provisioning/compacting.py, compactledger.py)\<close>

text \<open>
  The disk is converted into a compressed copy, and the copy is swapped in after every check. The report is
  an object with a document of its own, written after each step: a state beside the world's. \<open>watched\<close> puts a
  log of events beside any ports; the lemmas read off it what happened before a swap (\<open>compact_validates\<close>,
  \<open>finalise_validates\<close>).
\<close>

subsection \<open>Equality of what documents hold\<close>

text \<open>Python's \<open>==\<close>: numbers by value, a boolean as the number it is, an object whatever the order of its keys.\<close>

fun json_number :: "json \<Rightarrow> rat option" where
  "json_number (JInt i) = Some (of_int i)"
| "json_number (JBool b) = Some (if b then 1 else 0)"
| "json_number (JFloat (Finite m e)) = Some (if 0 \<le> e then of_int m * 10 ^ nat e else of_int m / 10 ^ nat (- e))"
| "json_number j = None"

fun py_equal :: "json \<Rightarrow> json \<Rightarrow> bool"
and py_equal_items :: "json list \<Rightarrow> json list \<Rightarrow> bool"
and py_equal_members :: "members \<Rightarrow> members \<Rightarrow> bool" where
  "py_equal (JStr a) k \<longleftrightarrow> k = JStr a"
| "py_equal JNull k \<longleftrightarrow> k = JNull"
| "py_equal (JFloat PosInf) k \<longleftrightarrow> k = JFloat PosInf"
| "py_equal (JFloat NegInf) k \<longleftrightarrow> k = JFloat NegInf"
| "py_equal (JFloat NaN) k \<longleftrightarrow> False"
| "py_equal (JList xs) k \<longleftrightarrow> (case k of JList ys \<Rightarrow> py_equal_items xs ys | _ \<Rightarrow> False)"
| "py_equal (JObj m) k \<longleftrightarrow> (case k of JObj n \<Rightarrow> length m = length n \<and> py_equal_members m n | _ \<Rightarrow> False)"
| "py_equal j k \<longleftrightarrow> (case json_number k of None \<Rightarrow> False | Some q \<Rightarrow> json_number j = Some q)"
| "py_equal_items [] ys \<longleftrightarrow> ys = []"
| "py_equal_items (x # xs) ys \<longleftrightarrow> (case ys of [] \<Rightarrow> False | y # ys' \<Rightarrow> py_equal x y \<and> py_equal_items xs ys')"
| "py_equal_members [] n \<longleftrightarrow> True"
| "py_equal_members ((k, v) # m) n \<longleftrightarrow> (case map_of n k of None \<Rightarrow> False | Some v' \<Rightarrow> py_equal v v') \<and> py_equal_members m n"

subsection \<open>compactledger.py\<close>

record compacted =
  co_report :: safe_path
  co_status :: str
  co_replacement :: str
  co_projected_free :: int

definition compacted_document :: "compacted \<Rightarrow> json" where
  "compacted_document c = JObj
     [(''report'', JStr (safe_path_str (co_report c))), (''status'', JStr (co_status c)),
      (''replacement'', JStr (co_replacement c)), (''projected_free'', JInt (co_projected_free c))]"

text \<open>An operation of the report acts on the world and on the report's document.\<close>

type_synonym ('w, 'a) ledgered = "('w \<times> members, 'a) io"

definition ledger_save :: "'w host_ports \<Rightarrow> safe_path \<Rightarrow> ('w, unit) ledgered" where
  "ledger_save ports path =
     io_bind (io_read snd) (\<lambda>document.
     io_bind (on_port (fp_write_atomic (hp_files ports) path (readable (JObj document) @ [CHR 0x0A]) DEFAULT_RECORD_MODE))
       (\<lambda>_. io_return ()))"

definition dict_update :: "members \<Rightarrow> members \<Rightarrow> members" where
  "dict_update noted d = foldl (\<lambda>d (k, v). dict_set k v d) d noted"

definition ledger_note :: "'w host_ports \<Rightarrow> safe_path \<Rightarrow> members \<Rightarrow> ('w, unit) ledgered" where
  "ledger_note ports path noted = io_then (on_object (dict_update noted)) (ledger_save ports path)"

definition ledger_refuse :: "'w host_ports \<Rightarrow> safe_path \<Rightarrow> refusal_reason \<Rightarrow> str \<Rightarrow> ('w, 'a) ledgered" where
  "ledger_refuse ports path reason detail =
     io_then (ledger_note ports path [(''error'', JStr detail)]) (io_raise (Refusal reason))"

definition command_entry :: "argv \<Rightarrow> completed_run \<Rightarrow> json" where
  "command_entry a c = JObj
     [(''argv'', JList (map JStr (argv_arguments a))), (''returncode'', JInt (run_exit_code c)),
      (''stdout'', JStr (decode_replacing (run_stdout c))), (''stderr'', JStr (decode_replacing (run_stderr c)))]"

definition command_recorded :: "json \<Rightarrow> members \<Rightarrow> members" where
  "command_recorded entry d =
     (case map_of d ''commands'' of Some (JList recorded) \<Rightarrow> dict_set ''commands'' (JList (recorded @ [entry])) d | _ \<Rightarrow> d)"

definition ledger_command :: "'w host_ports \<Rightarrow> safe_path \<Rightarrow> argv \<Rightarrow> safe_path option \<Rightarrow> ('w, bytes) ledgered" where
  "ledger_command ports path a transcript =
     io_bind (on_port (pp_run (hp_processes ports) a COMPACTION_DEADLINE output_limit_default
                (no_options\<lparr>ro_transcript := transcript\<rparr>))) (\<lambda>completed.
     io_bind (on_object (command_recorded (command_entry a completed))) (\<lambda>_.
     io_bind (ledger_save ports path) (\<lambda>_.
       if \<not> succeeded completed
       then ledger_refuse ports path COMPACTION_VALIDATION_FAILED
              (argv_arguments a ! 1 @ '' exited with '' @ str_of_int (run_exit_code completed) @ ''; original retained'')
       else io_return (run_stdout completed))))"

text \<open>\<open>Ledger(ports, path, document)\<close> and what is done with it.\<close>

definition with_ledger :: "'w host_ports \<Rightarrow> safe_path \<Rightarrow> members \<Rightarrow> ('w, 'a) ledgered \<Rightarrow> ('w, 'a) io" where
  "with_ledger ports path document body w =
     (case io_then (ledger_save ports path) body
             (w, if dict_has document ''commands'' then document else dict_set ''commands'' (JList []) document) of
        ((w', d), r) \<Rightarrow> (w', r))"

subsection \<open>The tools and the conditions\<close>

definition PASS :: str where "PASS = ''PASS''"
definition FAIL :: str where "FAIL = ''FAIL''"
definition BLOCKED :: str where "BLOCKED = ''BLOCKED''"
definition NOT_PERFORMED :: str where "NOT_PERFORMED = ''NOT PERFORMED''"
definition PENDING :: str where "PENDING = ''VALIDATED, PENDING ATOMIC REPLACE''"
definition COMPLETE :: str where "COMPLETE = ''COMPLETE''"
definition SHORT_OF_SPACE :: str where
  "SHORT_OF_SPACE = ''Validated copy does not save enough space; original retained''"
definition INFO :: argv where "INFO = Argv [QEMU_IMG, ''info'', ''--output=json'']"
definition CHECK :: argv where "CHECK = Argv [QEMU_IMG, ''check'', ''--output=json'']"
definition COMPARE :: argv where "COMPARE = Argv [QEMU_IMG, ''compare'', ''-f'', QCOW2, ''-F'', QCOW2]"
definition CONVERT :: argv where
  "CONVERT = Argv [QEMU_IMG, ''convert'', ''-f'', QCOW2, ''-O'', QCOW2, ''-c'', ''-o'', ''compression_type='' @ COMPRESSION_TYPE,
     ''-m'', CONVERT_THREADS]"

abbreviation on_path :: "argv \<Rightarrow> safe_path \<Rightarrow> argv" where
  "on_path a p \<equiv> argv_extended a [safe_path_str p]"

abbreviation on_paths :: "argv \<Rightarrow> safe_path \<Rightarrow> safe_path \<Rightarrow> argv" where
  "on_paths a p q \<equiv> argv_extended a [safe_path_str p, safe_path_str q]"

definition information :: "bytes \<Rightarrow> members list res" where
  "information document =
     rbind (parse_document document) (\<lambda>loaded.
       Inr (concat (map (\<lambda>item. case item of JObj m \<Rightarrow> [m] | _ \<Rightarrow> []) (case loaded of JList items \<Rightarrow> items | _ \<Rightarrow> [loaded]))))"

text \<open>\<open>held\<close>: what the image's own format says of it.\<close>

definition format_data :: "members \<Rightarrow> members" where
  "format_data item =
     (case dict_get item ''format-specific'' JNull of
        JObj specific \<Rightarrow> (case dict_get specific ''data'' (JObj []) of JObj held \<Rightarrow> held | _ \<Rightarrow> [])
      | _ \<Rightarrow> [])"

definition loses :: "members \<Rightarrow> bool" where
  "loses item \<longleftrightarrow> py_bool (dict_get item ''snapshots'' JNull) \<or> py_bool (dict_get item ''dirty-flag'' JNull)
     \<or> py_bool (dict_get (format_data item) ''bitmaps'' JNull) \<or> py_bool (dict_get (format_data item) ''corrupt'' JNull)"

definition require_plain :: "'w host_ports \<Rightarrow> safe_path \<Rightarrow> members list \<Rightarrow> ('w, unit) ledgered" where
  "require_plain ports path chain =
     (if chain = [] \<or> dict_get (hd chain) ''format'' JNull \<noteq> JStr QCOW2
      then ledger_refuse ports path COMPACTION_INPUT_UNSAFE ''expected a QCOW2 builder''
      else if list_ex loses chain
      then ledger_refuse ports path COMPACTION_INPUT_UNSAFE ''preserve snapshots and bitmaps or repair corruption before compaction''
      else io_return ())"

definition identity_table :: "(safe_path \<times> file_identity) list \<Rightarrow> members" where
  "identity_table found =
     foldl (\<lambda>d (p, i). dict_set (safe_path_str p) (JObj (map (\<lambda>(k, v). (k, JInt v)) (identity_document i))) d) [] found"

definition identified :: "'w host_ports \<Rightarrow> safe_path list \<Rightarrow> ('w, members) io" where
  "identified ports paths =
     io_bind (io_mapM (\<lambda>p. io_bind (fp_identity (hp_files ports) p) (\<lambda>i. io_return (p, i))) paths)
       (\<lambda>found. io_return (identity_table found))"

definition chain_paths :: "host \<Rightarrow> runtime_root \<Rightarrow> members list \<Rightarrow> safe_path list res" where
  "chain_paths h rt chain =
     rmapM (\<lambda>item. rbind (of_option KeyError (map_of item ''filename''))
       (\<lambda>name. safe_regular_file h (path_text (py_str name)) rt)) chain"

definition identities :: "'w host_ports \<Rightarrow> host \<Rightarrow> runtime_root \<Rightarrow> members list \<Rightarrow> ('w, members \<times> safe_path list) io" where
  "identities ports h rt chain =
     io_bind (io_lift (chain_paths h rt chain)) (\<lambda>paths.
     io_bind (identified ports paths) (\<lambda>table. io_return (table, paths)))"

definition free_now :: "'w host_ports \<Rightarrow> runtime_root \<Rightarrow> ('w, int) io" where
  "free_now ports rt =
     io_bind (io_lift (mk_safe_path (root_path rt))) (\<lambda>p.
     io_bind (fp_free_space (hp_files ports) p) (\<lambda>b. io_return (bytes_value b)))"

definition projected_free ::
  "'w host_ports \<Rightarrow> settings \<Rightarrow> runtime_root \<Rightarrow> safe_path \<Rightarrow> safe_path \<Rightarrow> ('w, int) ledgered" where
  "projected_free ports s rt source path =
     io_bind (on_port (free_now ports rt)) (\<lambda>now_free.
     io_bind (on_port (fp_identity (hp_files ports) source)) (\<lambda>i.
       let projected = now_free + fid_allocated i
       in if projected < gib_bytes (bs_minimum_free (se_builder s))
          then ledger_refuse ports path COMPACTION_SPACE_INSUFFICIENT SHORT_OF_SPACE
          else io_return projected))"

text \<open>The two tables have the keys of the same paths in the same order, so their equality is that of the lists.\<close>

definition require_unchanged ::
  "'w host_ports \<Rightarrow> host \<Rightarrow> runtime_root \<Rightarrow> safe_path \<Rightarrow> members \<Rightarrow> safe_path list \<Rightarrow> ('w, unit) ledgered" where
  "require_unchanged ports h rt path table paths =
     io_bind (on_port (identified ports paths)) (\<lambda>current.
     io_bind (on_port (current_lease (machine_part ports) h rt)) (\<lambda>running.
       if running \<noteq> None \<or> current \<noteq> table
       then ledger_refuse ports path COMPACTION_STATE_CHANGED
              ''a machine started or the builder chain changed during compaction''
       else io_return ()))"

definition require_alone :: "'w host_ports \<Rightarrow> safe_path \<Rightarrow> members list \<Rightarrow> json \<Rightarrow> ('w, unit) ledgered" where
  "require_alone ports path after expected =
     io_bind (require_plain ports path after) (\<lambda>_.
       if py_bool (dict_get (hd after) ''backing-filename'' JNull)
          \<or> \<not> py_equal (dict_get (hd after) ''virtual-size'' JNull) expected
       then ledger_refuse ports path COMPACTION_INPUT_UNSAFE ''the copy must stand alone with the same virtual capacity''
       else io_return ())"

definition fresh_digest :: "'w host_ports \<Rightarrow> safe_path \<Rightarrow> ('w, str) io" where
  "fresh_digest ports path =
     io_bind (dp_forget (hp_digests ports)) (\<lambda>_.
     io_bind (dp_file (hp_digests ports) path) (\<lambda>d. io_return (digest_hex d)))"

definition swap_in ::
  "'w host_ports \<Rightarrow> runtime_root \<Rightarrow> safe_path \<Rightarrow> safe_path \<Rightarrow> safe_path \<Rightarrow> ('w, unit) ledgered" where
  "swap_in ports rt path source target =
     io_bind (ledger_note ports path
       [(''replacement'', JStr PENDING), (''phase'', JStr ''replacing validated builder file'')]) (\<lambda>_.
     io_bind (on_port (fp_replace (hp_files ports) target source)) (\<lambda>_.
     io_bind (on_port (free_now ports rt)) (\<lambda>after.
       ledger_note ports path
         [(''replacement'', JStr COMPLETE), (''free_after'', JInt after), (''status'', JStr PASS), (''phase'', JStr ''complete'')])))"

definition guarded_source :: "'w host_ports \<Rightarrow> host \<Rightarrow> runtime_root \<Rightarrow> ('w, safe_path) pio" where
  "guarded_source ports h rt =
     pio_bind (pio (io_bind (current_lease (machine_part ports) h rt) (\<lambda>running.
       if running \<noteq> None then io_raise (Refusal MACHINE_RUNNING)
       else io_bind (io_lift (safe_regular_file h (path_join (root_path rt) BUILDER_DISK_NAME) rt)) (\<lambda>source.
            io_bind (fp_identity (hp_files ports) source) (\<lambda>i.
              if fid_links i \<noteq> 1 then io_raise (Refusal COMPACTION_INPUT_UNSAFE) else io_return source))))) (\<lambda>source.
     pio_bind (inspect_chain ports h (safe_path_str source) rt) (\<lambda>_. pio (io_return source)))"

subsection \<open>compact\<close>

definition compact_under ::
  "'w host_ports \<Rightarrow> host \<Rightarrow> settings \<Rightarrow> runtime_root \<Rightarrow> safe_path \<Rightarrow> safe_path \<Rightarrow> safe_path \<Rightarrow> ('w, compacted) ledgered" where
  "compact_under ports h s rt path source target =
     io_bind (ledger_command ports path (Argv [QEMU_IMG, ''--version'']) None) (\<lambda>version.
     io_bind (ledger_note ports path [(''version'', JStr (decode_replacing version))]) (\<lambda>_.
     io_bind (ledger_command ports path (argv_extended INFO [''--backing-chain'', safe_path_str source]) None) (\<lambda>described.
     io_bind (io_lift (information described)) (\<lambda>chain.
     io_bind (require_plain ports path chain) (\<lambda>_.
     io_bind (on_port (identities ports h rt chain)) (\<lambda>(table, paths).
     io_bind (on_port (free_now ports rt)) (\<lambda>free_before.
     io_bind (ledger_note ports path
       [(''before'', JObj [(''chain'', JList (map JObj chain)), (''identity'', JObj table), (''free'', JInt free_before)])]) (\<lambda>_.
     io_bind (on_port (fp_identity (hp_files ports) source)) (\<lambda>i.
     io_bind (on_port (free_now ports rt)) (\<lambda>room.
       if room < fid_allocated i + gib_bytes COMPACTION_RESERVE
       then ledger_refuse ports path COMPACTION_SPACE_INSUFFICIENT ''not enough room for a separate compressed copy and reserve''
       else
     io_bind (io_mapM (\<lambda>p. ledger_command ports path (on_path CHECK p) None) paths) (\<lambda>_.
     io_bind (on_port (fresh_digest ports source)) (\<lambda>d.
     io_bind (ledger_note ports path [(''source_sha256'', JStr d)]) (\<lambda>_.
     io_bind (io_lift (mk_safe_path (path_join (path_parent (safe_path_str path)) CONVERT_LOG_NAME))) (\<lambda>transcript.
     io_bind (ledger_command ports path (on_paths CONVERT source target) (Some transcript)) (\<lambda>_.
     io_bind (ledger_command ports path (on_path INFO target) None) (\<lambda>made.
     io_bind (io_lift (information made)) (\<lambda>after.
     io_bind (require_alone ports path after (dict_get (hd chain) ''virtual-size'' JNull)) (\<lambda>_.
     io_bind (ledger_command ports path (on_path CHECK target) None) (\<lambda>_.
     io_bind (ledger_command ports path (on_paths COMPARE source target) None) (\<lambda>_.
     io_bind (require_unchanged ports h rt path table paths) (\<lambda>_.
     io_bind (on_port (fresh_digest ports target)) (\<lambda>c.
     io_bind (ledger_note ports path [(''after'', JObj (hd after)), (''compressed_sha256'', JStr c)]) (\<lambda>_.
     io_bind (projected_free ports s rt source path) (\<lambda>projected.
     io_bind (ledger_note ports path [(''projected_free'', JInt projected)]) (\<lambda>_.
     io_bind (swap_in ports rt path source target) (\<lambda>_.
       io_return \<lparr>co_report = path, co_status = PASS, co_replacement = COMPLETE, co_projected_free = projected\<rparr>
     ))))))))))))))))))))))))))"

definition compact :: "'w host_ports \<Rightarrow> host \<Rightarrow> settings \<Rightarrow> runtime_root \<Rightarrow> ('w, compacted) pio" where
  "compact ports h s rt =
     locked_pio (machine_part ports) MACHINE immediate
       (pio_bind (guarded_source ports h rt) (\<lambda>source.
        pio (io_bind (ip_run_id (hp_identities ports)) (\<lambda>run.
             io_bind (io_lift (root_child h rt (COMPACTIONS_DIRECTORY @ ''/'' @ identifier_value run))) (\<lambda>directory.
             io_bind (fp_make_directory (hp_files ports) directory PRIVATE_DIRECTORY_MODE) (\<lambda>_.
             io_bind (io_lift (safe_path_div directory COMPRESSED_DISK_NAME)) (\<lambda>target.
             io_bind (io_lift (safe_path_div directory ''result.json'')) (\<lambda>path.
               with_ledger ports path
                 [(''status'', JStr FAIL), (''source'', JStr (safe_path_str source)), (''replacement'', JStr NOT_PERFORMED)]
                 (compact_under ports h s rt path source target)))))))))"

subsection \<open>finalise\<close>

text \<open>The entries of the report that say that the copy compared equal.\<close>

definition compared_entries :: "members \<Rightarrow> safe_path \<Rightarrow> safe_path \<Rightarrow> json list" where
  "compared_entries report source target =
     filter (\<lambda>item. case item of
         JObj m \<Rightarrow> dict_get m ''argv'' JNull = JList (map JStr (argv_arguments (on_paths COMPARE source target)))
           \<and> equals_int (dict_get m ''returncode'' JNull) 0
       | _ \<Rightarrow> False)
       (case dict_get report ''commands'' JNull of JList recorded \<Rightarrow> recorded | _ \<Rightarrow> [])"

definition retained ::
  "'w host_ports \<Rightarrow> safe_path \<Rightarrow> safe_path \<Rightarrow> ('w, members \<times> safe_path) io" where
  "retained ports source previous =
     (let unfit = io_raise (Refusal COMPACTION_RETAINED_INELIGIBLE) in
     io_bind (io_lift (safe_path_div previous ''result.json'')) (\<lambda>report_path.
     io_bind (fp_read_bytes (hp_files ports) report_path (limit_value DOCUMENT_LIMIT)) (\<lambda>payload.
     io_bind (io_lift (parse_object payload)) (\<lambda>report.
     io_bind (io_lift (safe_path_div previous COMPRESSED_DISK_NAME)) (\<lambda>target.
       if dict_get report ''source'' JNull \<noteq> JStr (safe_path_str source)
          \<or> dict_get report ''replacement'' JNull \<noteq> JStr NOT_PERFORMED then unfit
       else if dict_get report ''error'' JNull \<noteq> JStr SHORT_OF_SPACE then unfit
       else
     io_bind (io_lift (mk_digest (py_str (dict_get report ''source_sha256'' (JStr []))))) (\<lambda>_.
     io_bind (io_lift (mk_digest (py_str (dict_get report ''compressed_sha256'' (JStr []))))) (\<lambda>_.
       if length (compared_entries report source target) \<noteq> 1 then unfit
       else
     io_bind (fp_exists (hp_files ports) target) (\<lambda>there.
       if \<not> there then unfit
       else
     io_bind (fp_identity (hp_files ports) target) (\<lambda>kept.
       if fid_links kept \<noteq> 1 then unfit
       else
     io_bind (fp_identity (hp_files ports) source) (\<lambda>i.
       if fid_device kept \<noteq> fid_device i then unfit
       else io_return (report, target)))))))))))"

definition require_digest ::
  "'w host_ports \<Rightarrow> safe_path \<Rightarrow> members \<Rightarrow> str \<times> safe_path \<Rightarrow> ('w, unit) ledgered" where
  "require_digest ports path report np =
     (case np of (name, p) \<Rightarrow>
        io_bind (on_port (fresh_digest ports p)) (\<lambda>found.
        io_bind (ledger_note ports path [(name, JStr found)]) (\<lambda>_.
          if dict_get report name JNull \<noteq> JStr found
          then ledger_refuse ports path COMPACTION_STATE_CHANGED ''file content changed since the compaction''
          else io_return ())))"

definition finalise_under ::
  "'w host_ports \<Rightarrow> host \<Rightarrow> settings \<Rightarrow> runtime_root \<Rightarrow> safe_path \<Rightarrow> members \<Rightarrow> safe_path \<Rightarrow> safe_path
     \<Rightarrow> ('w, compacted) ledgered" where
  "finalise_under ports h s rt path report source target =
     io_bind (ledger_command ports path (argv_extended INFO [''--backing-chain'', safe_path_str source]) None) (\<lambda>described.
     io_bind (io_lift (information described)) (\<lambda>chain.
     io_bind (require_plain ports path chain) (\<lambda>_.
     io_bind (on_port (identities ports h rt chain)) (\<lambda>(table, paths).
       if (case dict_get report ''before'' JNull of
             JObj before \<Rightarrow> \<not> py_equal (dict_get before ''identity'' JNull) (JObj table) | _ \<Rightarrow> True)
       then ledger_refuse ports path COMPACTION_STATE_CHANGED ''the original builder chain changed since the compaction''
       else
     io_bind (on_port (fp_identity (hp_files ports) target)) (\<lambda>kept.
     io_bind (ledger_command ports path (on_path INFO target) None) (\<lambda>made.
     io_bind (io_lift (information made)) (\<lambda>after.
     io_bind (require_alone ports path after (dict_get (hd chain) ''virtual-size'' JNull)) (\<lambda>_.
     io_bind (ledger_note ports path [(''phase'', JStr ''hashing original and retained copy'')]) (\<lambda>_.
     io_bind (io_mapM (require_digest ports path report) [(''source_sha256'', source), (''compressed_sha256'', target)]) (\<lambda>_.
     io_bind (io_mapM (\<lambda>p. ledger_command ports path (on_path CHECK p) None) (paths @ [target])) (\<lambda>_.
     io_bind (ledger_note ports path [(''phase'', JStr ''comparing complete guest data'')]) (\<lambda>_.
     io_bind (ledger_command ports path (on_paths COMPARE source target) None) (\<lambda>_.
     io_bind (require_unchanged ports h rt path table paths) (\<lambda>_.
     io_bind (on_port (fp_identity (hp_files ports) target)) (\<lambda>again.
       if identity_document again \<noteq> identity_document kept
       then ledger_refuse ports path COMPACTION_STATE_CHANGED ''the retained copy changed during finalisation''
       else
     io_bind (projected_free ports s rt source path) (\<lambda>projected.
     io_bind (ledger_note ports path [(''projected_free'', JInt projected)]) (\<lambda>_.
     io_bind (swap_in ports rt path source target) (\<lambda>_.
       io_return \<lparr>co_report = path, co_status = PASS, co_replacement = COMPLETE, co_projected_free = projected\<rparr>
     ))))))))))))))))))"

definition finalise :: "'w host_ports \<Rightarrow> host \<Rightarrow> settings \<Rightarrow> runtime_root \<Rightarrow> run_id \<Rightarrow> ('w, compacted) pio" where
  "finalise ports h s rt compaction =
     locked_pio (machine_part ports) MACHINE immediate
       (pio_bind (guarded_source ports h rt) (\<lambda>source.
        pio (io_bind (io_lift (root_child h rt (COMPACTIONS_DIRECTORY @ ''/'' @ identifier_value compaction))) (\<lambda>previous.
             io_bind (retained ports source previous) (\<lambda>(report, target).
             io_bind (ip_token (hp_identities ports)) (\<lambda>tok.
             io_bind (io_lift (safe_path_div previous (FINALISE_PREFIX @ identifier_value tok))) (\<lambda>directory.
             io_bind (fp_make_directory (hp_files ports) directory PRIVATE_DIRECTORY_MODE) (\<lambda>_.
             io_bind (io_lift (safe_path_div directory ''result.json'')) (\<lambda>path.
             io_bind (io_lift (safe_path_div previous ''result.json'')) (\<lambda>report_path.
             io_bind (fresh_digest ports report_path) (\<lambda>d.
               with_ledger ports path
                 [(''status'', JStr BLOCKED), (''phase'', JStr ''validating retained copy''),
                  (''source'', JStr (safe_path_str source)), (''target'', JStr (safe_path_str target)),
                  (''replacement'', JStr NOT_PERFORMED), (''previous_report_sha256'', JStr d),
                  (''previous_run'', JStr (identifier_value compaction))]
                 (finalise_under ports h s rt path report source target))))))))))))"

end
