(* ===== verification/Swaps.thy ===== *)
theory Swaps
  imports Compacting Triples "HOL-Library.Sublist"
begin

section \<open>What precedes a swap\<close>

text \<open>
  \<open>watched\<close> lays a log beside any ports: which image tool ran, with which exit code and output, which file was identified as
  what, how much space was free, and which file was put in the place of which. A swap is logged whether or not
  the port raises. The triples below follow a compaction with what the log must hold so far.
\<close>

subsection \<open>A log beside the ports\<close>

datatype image_event =
    Ran argv int bytes
  | Identified safe_path file_identity
  | Free int
  | Swapped safe_path safe_path

definition noting :: "('w, 'a) io \<Rightarrow> ('a \<Rightarrow> image_event list) \<Rightarrow> ('w \<times> image_event list, 'a) io" where
  "noting m f = io_bind (on_port m) (\<lambda>x. io_bind (on_object (\<lambda>events. events @ f x)) (\<lambda>_. io_return x))"

definition trying :: "image_event \<Rightarrow> ('w, 'a) io \<Rightarrow> ('w \<times> image_event list, 'a) io" where
  "trying e m = io_bind (on_object (\<lambda>events. events @ [e])) (\<lambda>_. on_port m)"

definition watched_files :: "'w files_port \<Rightarrow> ('w \<times> image_event list) files_port" where
  "watched_files port =
     \<lparr>fp_environment = fp_environment port, fp_read_bytes = (\<lambda>p l. on_port (fp_read_bytes port p l)),
      fp_write_atomic = (\<lambda>p b m. on_port (fp_write_atomic port p b m)),
      fp_append_line = (\<lambda>p b m. on_port (fp_append_line port p b m)),
      fp_make_directory = (\<lambda>p m. on_port (fp_make_directory port p m)), fp_copy = (\<lambda>p q. on_port (fp_copy port p q)),
      fp_link = (\<lambda>p q. on_port (fp_link port p q)), fp_reserve = (\<lambda>p b m. on_port (fp_reserve port p b m)),
      fp_patch = (\<lambda>p i b. on_port (fp_patch port p i b)), fp_remove = (\<lambda>p. on_port (fp_remove port p)),
      fp_free_space = (\<lambda>p. noting (fp_free_space port p) (\<lambda>b. [Free (bytes_value b)])),
      fp_exists = (\<lambda>p. on_port (fp_exists port p)), fp_mode_of = (\<lambda>p. on_port (fp_mode_of port p)),
      fp_list_tree = (\<lambda>p. on_port (fp_list_tree port p)), fp_list_directory = (\<lambda>p. on_port (fp_list_directory port p)),
      fp_resolve = (\<lambda>p. on_port (fp_resolve port p)), fp_inspect = (\<lambda>p. on_port (fp_inspect port p)),
      fp_identity = (\<lambda>p. noting (fp_identity port p) (\<lambda>i. [Identified p i])),
      fp_replace = (\<lambda>p q. trying (Swapped p q) (fp_replace port p q))\<rparr>"

definition watched :: "'w host_ports \<Rightarrow> ('w \<times> image_event list) host_ports" where
  "watched ports =
     \<lparr>hp_processes = (let p = hp_processes ports in
        \<lparr>pp_environment = pp_environment p,
         pp_run = (\<lambda>a d l opts. noting (pp_run p a d l opts) (\<lambda>c. [Ran a (run_exit_code c) (run_stdout c)])),
         pp_locate = (\<lambda>s. on_port (pp_locate p s))\<rparr>),
      hp_files = watched_files (hp_files ports),
      hp_clock = (let c = hp_clock ports in
        \<lparr>cp_environment = cp_environment c, cp_now = on_port (cp_now c), cp_stamp = on_port (cp_stamp c),
         cp_sleep = (\<lambda>e. on_port (cp_sleep c e))\<rparr>),
      hp_identities = (let i = hp_identities ports in
        \<lparr>ip_environment = ip_environment i, ip_run_id = on_port (ip_run_id i), ip_token = on_port (ip_token i)\<rparr>),
      hp_locks = (let k = hp_locks ports in
        \<lparr>lk_environment = lk_environment k, lk_acquire = (\<lambda>s p. on_port (lk_acquire k s p)),
         lk_release = (\<lambda>l. on_port (lk_release k l)), lk_holder = (\<lambda>s. on_port (lk_holder k s))\<rparr>),
      hp_digests = (let d = hp_digests ports in
        \<lparr>dp_environment = dp_environment d, dp_file = (\<lambda>p. on_port (dp_file d p)), dp_forget = on_port (dp_forget d)\<rparr>),
      hp_archives = (let a = hp_archives ports in
        \<lparr>ar_environment = ar_environment a, ar_pack = (\<lambda>p q s. on_port (ar_pack a p q s)),
         ar_extract = (\<lambda>p q. on_port (ar_extract a p q)), ar_members = (\<lambda>p. on_port (ar_members a p)),
         ar_bundle = (\<lambda>s p f. on_port (ar_bundle a s p f))\<rparr>),
      hp_signing = (let s = hp_signing ports in
        \<lparr>sg_environment = sg_environment s, sg_verify = (\<lambda>b c f. on_port (sg_verify s b c f)),
         sg_sign = (\<lambda>b f. on_port (sg_sign s b f)), sg_generate_key_pair = (\<lambda>p q. on_port (sg_generate_key_pair s p q))\<rparr>),
      hp_downloads = (let d = hp_downloads ports in
        \<lparr>dw_environment = dw_environment d, dw_fetch = (\<lambda>u p g e. on_port (dw_fetch d u p g e))\<rparr>),
      hp_hypervisor = (let v = hp_hypervisor ports in
        \<lparr>hv_environment = hv_environment v, hv_capacity = (\<lambda>r. on_port (hv_capacity v r)),
         hv_spawn = (\<lambda>s m l d. on_port (hv_spawn v s m l d)), hv_running = (\<lambda>i. on_port (hv_running v i)),
         hv_terminate = (\<lambda>i. on_port (hv_terminate v i))\<rparr>),
      hp_monitor = (let q = hp_monitor ports in
        \<lparr>qp_environment = qp_environment q, qp_connect = (\<lambda>p d. on_port (qp_connect q p d)),
         qp_execute = (\<lambda>c. on_port (qp_execute q c)), qp_close = on_port (qp_close q)\<rparr>),
      hp_guest = (let g = hp_guest ports in
        \<lparr>gp_environment = gp_environment g, gp_run = (\<lambda>t r. on_port (gp_run g t r)),
         gp_send = (\<lambda>t p q d. on_port (gp_send g t p q d)), gp_receive = (\<lambda>t p q b d. on_port (gp_receive g t p q b d))\<rparr>)\<rparr>"

subsection \<open>The log so far\<close>

text \<open>The runs of a log: what was run, with which exit code, and what it wrote.\<close>

type_synonym tool_run = "argv \<times> int \<times> bytes"

fun runs_of :: "image_event list \<Rightarrow> tool_run list" where
  "runs_of [] = []"
| "runs_of (Ran a c x # events) = (a, c, x) # runs_of events"
| "runs_of (e # events) = runs_of events"

lemma runs_of_append [simp]: "runs_of (xs @ ys) = runs_of xs @ runs_of ys"
  by (induction xs rule: runs_of.induct) simp_all

abbreviation run_event :: "tool_run \<Rightarrow> image_event" where
  "run_event t \<equiv> (case t of (a, c, x) \<Rightarrow> Ran a c x)"

definition unswapped :: "image_event list \<Rightarrow> bool" where
  "unswapped events \<longleftrightarrow> (\<forall>p q. Swapped p q \<notin> set events)"

text \<open>
  \<open>so_far runs es\<close>: nothing was swapped, the runs end with \<open>runs\<close>, and the events \<open>es\<close> happened in that order.
\<close>

definition so_far :: "tool_run list \<Rightarrow> image_event list \<Rightarrow> image_event list \<Rightarrow> bool" where
  "so_far runs es events \<longleftrightarrow> unswapped events \<and> suffix runs (runs_of events) \<and> subseq es events"

lemma unswapped_simps [simp]:
  "unswapped []" "unswapped (xs @ ys) \<longleftrightarrow> unswapped xs \<and> unswapped ys" "unswapped (Ran a c x # xs) \<longleftrightarrow> unswapped xs"
  "unswapped (Identified p i # xs) \<longleftrightarrow> unswapped xs" "unswapped (Free n # xs) \<longleftrightarrow> unswapped xs"
  by (auto simp: unswapped_def)

lemma so_far_unswapped: "so_far runs es events \<Longrightarrow> unswapped events"
  by (simp add: so_far_def)

lemma so_far_run: "so_far runs es events \<Longrightarrow> so_far (runs @ [(a, c, x)]) (es @ [Ran a c x]) (events @ [Ran a c x])"
  by (auto simp: so_far_def suffix_def intro: list_emb_append_mono)

lemma so_far_event:
  "so_far runs es events \<Longrightarrow> runs_of [e] = [] \<Longrightarrow> unswapped [e] \<Longrightarrow> so_far runs (es @ [e]) (events @ [e])"
  by (auto simp: so_far_def intro: list_emb_append_mono)

lemma so_far_less: "so_far runs es events \<Longrightarrow> subseq es' es \<Longrightarrow> so_far runs es' events"
  using subseq_order.trans by (auto simp: so_far_def)

subsection \<open>One rule for each operation of the report\<close>

text \<open>A condition on the log, of a state of the ports and of one with the report's document beside it.\<close>

abbreviation log1 :: "(image_event list \<Rightarrow> bool) \<Rightarrow> 'w \<times> image_event list \<Rightarrow> bool" where
  "log1 P wl \<equiv> P (snd wl)"

abbreviation log2 :: "(image_event list \<Rightarrow> bool) \<Rightarrow> ('w \<times> image_event list) \<times> members \<Rightarrow> bool" where
  "log2 P wld \<equiv> P (snd (fst wld))"

text \<open>What may be said of the log when an operation raises: at least that nothing was swapped.\<close>

definition calm :: "(image_event list \<Rightarrow> bool) \<Rightarrow> bool" where
  "calm E \<longleftrightarrow> (\<forall>events. unswapped events \<longrightarrow> E events)"

lemma calmD: "calm E \<Longrightarrow> so_far r es events \<Longrightarrow> E events"
  by (simp add: calm_def so_far_def)

lemma on_port_quiet: "triple (log1 P) (on_port m) (\<lambda>_. log1 P) (log1 P)"
  by (rule tripleI) (auto simp: on_port_def split: prod.splits)

lemma noting_logs: "triple (log1 P) (noting m f) (\<lambda>x. log1 (\<lambda>events. \<exists>before. P before \<and> events = before @ f x)) (log1 P)"
  by (rule tripleI) (auto simp: noting_def io_bind_def on_port_def on_object_def split: prod.splits sum.splits)

lemma on_port_inside:
  "triple (log1 P) m (\<lambda>x. log1 (Q x)) (log1 E) \<Longrightarrow> triple (log2 P) (on_port m) (\<lambda>x. log2 (Q x)) (log2 E)"
  by (fastforce simp: triple_def on_port_def split: prod.splits sum.splits)

lemma watched_simps:
  "pp_run (hp_processes (watched ports)) a d l opts = noting (pp_run (hp_processes ports) a d l opts) (\<lambda>c. [Ran a (run_exit_code c) (run_stdout c)])"
  "fp_identity (hp_files (watched ports)) p = noting (fp_identity (hp_files ports) p) (\<lambda>i. [Identified p i])"
  "fp_free_space (hp_files (watched ports)) p = noting (fp_free_space (hp_files ports) p) (\<lambda>b. [Free (bytes_value b)])"
  "fp_replace (hp_files (watched ports)) p q = trying (Swapped p q) (fp_replace (hp_files ports) p q)"
  "fp_write_atomic (hp_files (watched ports)) p b md = on_port (fp_write_atomic (hp_files ports) p b md)"
  "fp_read_bytes (hp_files (watched ports)) p n = on_port (fp_read_bytes (hp_files ports) p n)"
  "fp_exists (hp_files (watched ports)) p = on_port (fp_exists (hp_files ports) p)"
  "fp_make_directory (hp_files (watched ports)) p md = on_port (fp_make_directory (hp_files ports) p md)"
  "hv_running (hp_hypervisor (watched ports)) i = on_port (hv_running (hp_hypervisor ports) i)"
  "dp_forget (hp_digests (watched ports)) = on_port (dp_forget (hp_digests ports))"
  "dp_file (hp_digests (watched ports)) p = on_port (dp_file (hp_digests ports) p)"
  "ip_run_id (hp_identities (watched ports)) = on_port (ip_run_id (hp_identities ports))"
  "ip_token (hp_identities (watched ports)) = on_port (ip_token (hp_identities ports))"
  "lk_acquire (hp_locks (watched ports)) scope pol = on_port (lk_acquire (hp_locks ports) scope pol)"
  "lk_release (hp_locks (watched ports)) k = on_port (lk_release (hp_locks ports) k)"
  by (simp_all add: watched_def watched_files_def Let_def)

text \<open>What only asks or writes leaves the log alone.\<close>

named_theorems quiet \<open>operations that leave the log alone\<close>

definition silent :: "('w \<times> image_event list, 'a) io \<Rightarrow> bool" where
  "silent m \<longleftrightarrow> (\<forall>wl. snd (fst (m wl)) = snd wl)"

lemma silentD: "silent m \<Longrightarrow> triple (log1 P) m (\<lambda>_. log1 P) (log1 P)"
  by (rule tripleI) (metis fst_conv silent_def)+

lemma silent_simps [quiet]:
  "silent (on_port m)" "silent (io_return x)" "silent (io_raise e)" "silent (io_lift r)"
  by (simp_all add: silent_def on_port_def split: prod.splits)

lemma silent_bind [quiet]: "silent m \<Longrightarrow> (\<And>x. silent (f x)) \<Longrightarrow> silent (io_bind m f)"
  unfolding silent_def io_bind_def by (auto split: prod.splits sum.splits) (metis fst_conv snd_conv)+

lemma silent_if [quiet]: "(b \<Longrightarrow> silent m) \<Longrightarrow> (\<not> b \<Longrightarrow> silent n) \<Longrightarrow> silent (if b then m else n)"
  by simp

lemma silent_option [quiet]:
  "silent m \<Longrightarrow> (\<And>y. silent (f y)) \<Longrightarrow> silent (case x of None \<Rightarrow> m | Some y \<Rightarrow> f y)"
  by (cases x) simp_all

lemma silent_read_object: "silent (read_object (hp_files (watched ports)) target)"
  unfolding read_object_def watched_simps by (intro quiet)

lemma silent_current_lease [quiet]: "silent (current_lease (machine_part (watched ports)) h rt)"
proof -
  have "mp_files (machine_part (watched ports)) = hp_files (watched ports)"
    "mp_hypervisor (machine_part (watched ports)) = hp_hypervisor (watched ports)" by (simp_all add: machine_part_def)
  then show ?thesis
    unfolding current_lease_def read_lease_def watched_simps by (auto intro!: quiet silent_read_object simp: watched_simps)
qed

lemma silent_digest [quiet]: "silent (fresh_digest (watched ports) p)"
  unfolding fresh_digest_def watched_simps by (intro quiet)

subsection \<open>Following a compaction\<close>

lemma triple_ex: "(\<And>x. triple (P x) m Q E) \<Longrightarrow> triple (\<lambda>s. \<exists>x. P x s) m Q E"
  by (rule tripleI) (blast dest: tripleD)+

lemma triple_const: "(b \<Longrightarrow> triple P m Q E) \<Longrightarrow> triple (\<lambda>s. b \<and> P s) m Q E"
  by (auto simp: triple_def)

text \<open>Each rule says what an operation adds to the log, in front of what comes after it.\<close>

named_theorems follows \<open>what an operation adds to the log, in front of the rest\<close>

lemma silent_first:
  assumes "silent m" "calm E" "\<And>x. triple (log1 (so_far r es)) (f x) R (log1 E)"
  shows "triple (log1 (so_far r es)) (io_bind m f) R (log1 E)"
  by (rule triple_bind [OF triple_conseq [OF silentD [OF assms(1), of "so_far r es"]] assms(3)]) (auto simp: calmD [OF assms(2)])

lemma quiet_report:
  assumes "silent m" "calm E" "\<And>x. triple (log2 (so_far r es)) (f x) R (log2 E)"
  shows "triple (log2 (so_far r es)) (io_bind (on_port m) f) R (log2 E)"
  by (rule triple_bind [OF on_port_inside [OF triple_conseq [OF silentD [OF assms(1), of "so_far r es"]]] assms(3)])
    (auto simp: calmD [OF assms(2)])

lemma lift_report [follows]:
  assumes "calm E" "\<And>x. y = Inr x \<Longrightarrow> triple (log2 (so_far r es)) (f x) R (log2 E)"
  shows "triple (log2 (so_far r es)) (io_bind (io_lift y) f) R (log2 E)"
  using assms by (cases y) (auto simp: triple_def calmD [OF assms(1)])

lemma save_quiet: "triple (log2 P) (ledger_save (watched ports) path) (\<lambda>_. log2 P) (log2 P)"
  by (rule tripleI) (auto simp: ledger_save_def watched_simps io_bind_def io_read_def on_port_def split: prod.splits sum.splits)

lemma note_quiet: "triple (log2 P) (ledger_note (watched ports) path noted) (\<lambda>_. log2 P) (log2 P)"
  unfolding ledger_note_def
  by (rule triple_then [OF _ save_quiet]) (rule tripleI, auto simp: on_object_def)

lemma refuse_quiet: "triple (log2 P) (ledger_refuse (watched ports) path reason detail) Q (log2 P)"
  unfolding ledger_refuse_def
  by (rule triple_then [OF note_quiet]) (rule triple_raise)

lemma refuse_follows [follows]:
  "calm E \<Longrightarrow> triple (log2 (so_far r es)) (ledger_refuse (watched ports) path reason detail) Q (log2 E)"
  by (rule triple_conseq [OF refuse_quiet]) (auto simp: calmD)

lemma note_follows [follows]:
  assumes "calm E" "triple (log2 (so_far r es)) (f ()) R (log2 E)"
  shows "triple (log2 (so_far r es)) (io_bind (ledger_note (watched ports) path noted) f) R (log2 E)"
  by (rule triple_bind [OF triple_conseq [OF note_quiet [of "so_far r es"]]]) (use assms in \<open>auto simp: calmD\<close>)

lemma run_logs:
  assumes "calm E"
  shows "triple (log1 (so_far r es)) (pp_run (hp_processes (watched ports)) a d l opts)
    (\<lambda>c. log1 (so_far (r @ [(a, run_exit_code c, run_stdout c)]) (es @ [Ran a (run_exit_code c) (run_stdout c)]))) (log1 E)"
  unfolding watched_simps by (rule triple_conseq [OF noting_logs [of "so_far r es"]]) (auto simp: so_far_run calmD [OF assms])

lemma command_logs:
  assumes "calm E"
  shows "triple (log2 (so_far r es)) (ledger_command (watched ports) path a transcript)
    (\<lambda>x. log2 (so_far (r @ [(a, 0, x)]) (es @ [Ran a 0 x]))) (log2 E)"
  unfolding ledger_command_def
proof (rule triple_bind [OF on_port_inside [OF run_logs [OF assms]]], goal_cases)
  case (1 c)
  have o: "triple (log2 P) (on_object g) (\<lambda>_. log2 P) (log2 E)" for P g by (rule tripleI) (auto simp: on_object_def)
  have s: "triple (log2 (so_far x y)) (ledger_save (watched ports) path) (\<lambda>_. log2 (so_far x y)) (log2 E)" for x y
    by (rule triple_conseq [OF save_quiet [of "so_far x y"]]) (auto simp: calmD [OF assms])
  show ?case
    by (rule triple_bind [OF o triple_bind [OF s]], rule triple_if)
      (auto intro!: refuse_follows triple_return assms simp: succeeded_def)
qed

lemma command_follows [follows]:
  assumes "calm E" "\<And>x. triple (log2 (so_far (r @ [(a, 0, x)]) (es @ [Ran a 0 x]))) (f x) R (log2 E)"
  shows "triple (log2 (so_far r es)) (io_bind (ledger_command (watched ports) path a transcript) f) R (log2 E)"
  by (rule triple_bind [OF command_logs [OF assms(1)] assms(2)])

text \<open>The runs of \<open>g p\<close> for each \<open>p\<close>, each with exit code zero.\<close>

definition ran_each :: "argv list \<Rightarrow> tool_run list \<Rightarrow> bool" where
  "ran_each tools runs \<longleftrightarrow> list_all2 (\<lambda>a t. \<exists>x. t = (a, 0, x)) tools runs"

lemma ran_each_simps [simp]:
  "ran_each [] runs \<longleftrightarrow> runs = []" "ran_each (a # tools) (t # runs) \<longleftrightarrow> (\<exists>x. t = (a, 0, x)) \<and> ran_each tools runs"
  "ran_each tools runs \<Longrightarrow> ran_each tools' runs' \<Longrightarrow> ran_each (tools @ tools') (runs @ runs')"
  by (auto simp: ran_each_def list_all2_appendI)

lemma ran_each_snoc: "ran_each (tools @ [a]) runs \<Longrightarrow> ran_each (tools @ [a, b]) (runs @ [(b, 0, x)])"
  using ran_each_simps(3) [of "tools @ [a]" runs "[b]" "[(b, 0, x)]"] by simp

lemma commands_logs:
  assumes "calm E"
  shows "triple (log2 (so_far r es)) (io_mapM (\<lambda>p. ledger_command (watched ports) path (g p) None) ps)
    (\<lambda>_. log2 (\<lambda>events. \<exists>runs. ran_each (map g ps) runs \<and> so_far (r @ runs) (es @ map run_event runs) events)) (log2 E)"
proof (induction ps arbitrary: r es)
  case (Cons p ps)
  let ?Q = "\<lambda>x events. \<exists>runs. ran_each (map g ps) runs \<and> so_far (r @ (g p, 0, x) # runs) (es @ Ran (g p) 0 x # map run_event runs) events"
  have rest: "triple (log2 (so_far (r @ [(g p, 0, x)]) (es @ [Ran (g p) 0 x])))
      (io_mapM (\<lambda>p. ledger_command (watched ports) path (g p) None) ps) (\<lambda>_. log2 (?Q x)) (log2 E)" for x
    using Cons.IH [of "r @ [(g p, 0, x)]" "es @ [Ran (g p) 0 x]"] by simp
  have all: "\<exists>runs. ran_each (map g (p # ps)) runs \<and> so_far (r @ runs) (es @ map run_event runs) events" if "?Q x events" for x events
  proof -
    from that obtain runs where "ran_each (map g ps) runs" "so_far (r @ (g p, 0, x) # runs) (es @ Ran (g p) 0 x # map run_event runs) events" by blast
    then show ?thesis by (intro exI [of _ "(g p, 0, x) # runs"]) simp
  qed
  show ?case
    unfolding io_mapM.simps by (intro command_follows assms triple_bind [OF rest] triple_return) (rule all)
qed (auto intro!: triple_return)

lemma commands_follow [follows]:
  assumes "calm E"
    and "\<And>x runs. ran_each (map g ps) runs \<Longrightarrow> triple (log2 (so_far (r @ runs) (es @ map run_event runs))) (f x) R (log2 E)"
  shows "triple (log2 (so_far r es)) (io_bind (io_mapM (\<lambda>p. ledger_command (watched ports) path (g p) None) ps) f) R (log2 E)"
proof (rule triple_bind [OF commands_logs [OF assms(1)]], goal_cases)
  case (1 x)
  show ?case by (intro triple_ex triple_const assms(2))
qed

lemma identity_follows [follows]:
  assumes "calm E" "\<And>i. triple (log2 (so_far r (es @ [Identified p i]))) (f i) R (log2 E)"
  shows "triple (log2 (so_far r es)) (io_bind (on_port (fp_identity (hp_files (watched ports)) p)) f) R (log2 E)"
  unfolding watched_simps
  by (rule triple_bind [OF on_port_inside [OF triple_conseq [OF noting_logs [of "so_far r es"]]] assms(2)])
    (auto simp: so_far_event calmD [OF assms(1)])

abbreviation idents :: "(safe_path \<times> file_identity) list \<Rightarrow> image_event list" where
  "idents found \<equiv> map (\<lambda>(p, i). Identified p i) found"

text \<open>Identities of several files: the paths and the events, and the table of them.\<close>

lemma identified_logs:
  assumes "calm E"
  shows "triple (log1 (so_far r es)) (io_mapM (\<lambda>p. io_bind (fp_identity (hp_files (watched ports)) p) (\<lambda>i. io_return (p, i))) ps)
    (\<lambda>found. log1 (\<lambda>events. map fst found = ps \<and> so_far r (es @ idents found) events)) (log1 E)"
proof (induction ps arbitrary: es)
  case (Cons p ps)
  have one: "triple (log1 (so_far r es)) (fp_identity (hp_files (watched ports)) p)
      (\<lambda>i. log1 (so_far r (es @ [Identified p i]))) (log1 E)"
    unfolding watched_simps
    by (rule triple_conseq [OF noting_logs [of "so_far r es"]]) (auto simp: so_far_event calmD [OF assms])
  show ?case
    unfolding io_mapM.simps
  proof (rule triple_bind [OF triple_bind [OF one, where R = "\<lambda>y. log1 (\<lambda>events. fst y = p \<and> so_far r (es @ idents [y]) events)"]], goal_cases)
    case (1 i)
    show ?case by (rule triple_return) simp
  next
    case (2 y)
    show ?case
    proof (rule triple_pre [OF triple_pure [where b = "fst y = p" and P = "log1 (so_far r (es @ idents [y]))"]], goal_cases)
      case 1
      show ?case by (rule triple_bind [OF Cons.IH]) (rule triple_return, use 1 in auto)
    qed auto
  qed
qed (auto intro: triple_return)

lemma identified_follows:
  assumes "calm E"
    and "\<And>found. map fst found = ps \<Longrightarrow> triple (log1 (so_far r (es @ idents found))) (f (identity_table found)) R (log1 E)"
  shows "triple (log1 (so_far r es)) (io_bind (identified (watched ports) ps) f) R (log1 E)"
  unfolding identified_def
proof (rule triple_bind [OF triple_bind [OF identified_logs [OF assms(1)]],
      where Q = "\<lambda>table wl. \<exists>found. map fst found = ps \<and> table = identity_table found \<and> so_far r (es @ idents found) (snd wl)"],
    goal_cases)
  case (2 table)
  show ?case by (intro triple_ex triple_const) (simp add: assms(2))
qed (auto intro: triple_return)

lemma identities_logs:
  assumes E: "calm E"
  shows "triple (log1 (so_far r es)) (identities (watched ports) h rt chain)
    (\<lambda>y. log1 (\<lambda>events. \<exists>found. chain_paths h rt chain = Inr (map fst found)
      \<and> y = (identity_table found, map fst found) \<and> so_far r (es @ idents found) events)) (log1 E)"
  unfolding identities_def
proof (rule triple_bind [OF triple_lift [where Q = "\<lambda>paths wl. chain_paths h rt chain = Inr paths \<and> so_far r es (snd wl)"]], goal_cases)
  case (3 paths)
  show ?case
  proof (rule triple_const, rule identified_follows [OF E])
    fix found :: "(safe_path \<times> file_identity) list"
    assume "chain_paths h rt chain = Inr paths" "map fst found = paths"
    then show "triple (log1 (so_far r (es @ idents found))) (io_return (identity_table found, paths))
      (\<lambda>y. log1 (\<lambda>events. \<exists>found. chain_paths h rt chain = Inr (map fst found)
         \<and> y = (identity_table found, map fst found) \<and> so_far r (es @ idents found) events)) (log1 E)"
      by (intro triple_return) blast
  qed
qed (auto simp: calmD [OF E])

lemma identities_follows [follows]:
  assumes "calm E"
    and "\<And>found. chain_paths h rt chain = Inr (map fst found) \<Longrightarrow>
      triple (log2 (so_far r (es @ idents found))) (f (identity_table found, map fst found)) R (log2 E)"
  shows "triple (log2 (so_far r es)) (io_bind (on_port (identities (watched ports) h rt chain)) f) R (log2 E)"
proof (rule triple_bind [OF on_port_inside [OF identities_logs [OF assms(1)]]], goal_cases)
  case (1 y)
  show ?case by (intro triple_ex triple_const) (simp add: assms(2))
qed

lemma free_logs:
  assumes E: "calm E"
  shows "triple (log1 (so_far r es)) (free_now (watched ports) rt) (\<lambda>n. log1 (so_far r (es @ [Free n]))) (log1 E)"
proof -
  have "triple (log1 (so_far r es)) (fp_free_space (hp_files (watched ports)) p)
      (\<lambda>b. log1 (so_far r (es @ [Free (bytes_value b)]))) (log1 E)" for p
    unfolding watched_simps
    by (rule triple_conseq [OF noting_logs [of "so_far r es"]]) (auto simp: so_far_event calmD [OF E])
  then have "triple (log1 (so_far r es)) (io_bind (fp_free_space (hp_files (watched ports)) p) (\<lambda>b. io_return (bytes_value b)))
      (\<lambda>n. log1 (so_far r (es @ [Free n]))) (log1 E)" for p
    by (rule triple_bind) (auto intro: triple_return)
  then show ?thesis
    unfolding free_now_def
    by (intro triple_bind [OF triple_lift [where Q = "\<lambda>_. log1 (so_far r es)"]]) (auto simp: calmD [OF E])
qed

lemma free_follows [follows]:
  assumes "calm E" "\<And>n. triple (log2 (so_far r (es @ [Free n]))) (f n) R (log2 E)"
  shows "triple (log2 (so_far r es)) (io_bind (on_port (free_now (watched ports) rt)) f) R (log2 E)"
  by (rule triple_bind [OF on_port_inside [OF free_logs [OF assms(1)]] assms(2)])

lemma lease_follows [follows]:
  "calm E \<Longrightarrow> (\<And>x. triple (log2 (so_far r es)) (f x) R (log2 E)) \<Longrightarrow>
     triple (log2 (so_far r es)) (io_bind (on_port (current_lease (machine_part (watched ports)) h rt)) f) R (log2 E)"
  by (rule quiet_report [OF silent_current_lease])

lemma digest_follows [follows]:
  "calm E \<Longrightarrow> (\<And>x. triple (log2 (so_far r es)) (f x) R (log2 E)) \<Longrightarrow>
     triple (log2 (so_far r es)) (io_bind (on_port (fresh_digest (watched ports) p)) f) R (log2 E)"
  by (rule quiet_report [OF silent_digest])

text \<open>A condition that refuses or goes on.\<close>

lemma triple_bind_assoc: "triple P (io_bind m (\<lambda>x. io_bind (g x) f)) Q E \<Longrightarrow> triple P (io_bind (io_bind m g) f) Q E"
proof -
  have "io_bind (io_bind m g) f = io_bind m (\<lambda>x. io_bind (g x) f)"
    by (rule ext) (auto simp: io_bind_def split: prod.splits sum.splits)
  then show "triple P (io_bind m (\<lambda>x. io_bind (g x) f)) Q E \<Longrightarrow> ?thesis" by simp
qed

lemma triple_bind_if: "triple P (if b then io_bind m f else io_bind n f) Q E \<Longrightarrow> triple P (io_bind (if b then m else n) f) Q E"
  by (simp split: if_splits)

lemma triple_bind_return: "triple P (f x) Q E \<Longrightarrow> triple P (io_bind (io_return x) f) Q E"
  by (simp add: triple_def)

lemma refuse_bind [follows]:
  "calm E \<Longrightarrow> triple (log2 (so_far r es)) (io_bind (ledger_refuse (watched ports) path reason detail) f) Q (log2 E)"
  by (rule triple_bind [OF refuse_follows [where Q = "\<lambda>_ _. False"]]) (auto simp: triple_def)

lemmas follow_parts [follows] = triple_bind_if triple_bind_return triple_if

text \<open>An image that loses nothing when it is copied, and a copy that needs no other file.\<close>

definition loses_nothing :: "members list \<Rightarrow> bool" where
  "loses_nothing chain \<longleftrightarrow> chain \<noteq> [] \<and> dict_get (hd chain) ''format'' JNull = JStr ''qcow2''
     \<and> (\<forall>item \<in> set chain. \<not> py_bool (dict_get item ''snapshots'' JNull) \<and> \<not> py_bool (dict_get item ''dirty-flag'' JNull)
          \<and> \<not> py_bool (dict_get (format_data item) ''bitmaps'' JNull) \<and> \<not> py_bool (dict_get (format_data item) ''corrupt'' JNull))"

definition stands_alone :: "members list \<Rightarrow> json \<Rightarrow> bool" where
  "stands_alone copy capacity \<longleftrightarrow> loses_nothing copy \<and> \<not> py_bool (dict_get (hd copy) ''backing-filename'' JNull)
     \<and> py_equal (dict_get (hd copy) ''virtual-size'' JNull) capacity"

lemma plain_follows [follows]:
  assumes "calm E" "loses_nothing chain \<Longrightarrow> triple (log2 (so_far r es)) (f ()) R (log2 E)"
  shows "triple (log2 (so_far r es)) (io_bind (require_plain (watched ports) path chain) f) R (log2 E)"
  unfolding require_plain_def
  by (intro follows assms) (auto simp: loses_nothing_def loses_def list_ex_iff QCOW2_def)

lemma alone_follows [follows]:
  assumes "calm E" "stands_alone copy capacity \<Longrightarrow> triple (log2 (so_far r es)) (f ()) R (log2 E)"
  shows "triple (log2 (so_far r es)) (io_bind (require_alone (watched ports) path copy capacity) f) R (log2 E)"
  unfolding require_alone_def
  by (intro triple_bind_assoc plain_follows follow_parts refuse_bind assms) (auto simp: stands_alone_def)

lemma projected_follows [follows]:
  assumes "calm E"
    and "\<And>n i. gib_bytes (bs_minimum_free (se_builder s)) \<le> n + fid_allocated i \<Longrightarrow>
      triple (log2 (so_far r (es @ [Free n, Identified source i]))) (f (n + fid_allocated i)) R (log2 E)"
  shows "triple (log2 (so_far r es)) (io_bind (projected_free (watched ports) s rt source path) f) R (log2 E)"
  unfolding projected_free_def Let_def
  by (intro triple_bind_assoc follows assms(1)) (use assms(2) in auto)

lemma unchanged_follows [follows]:
  assumes "calm E"
    and "\<And>found. map fst found = paths \<Longrightarrow> identity_table found = table \<Longrightarrow>
      triple (log2 (so_far r (es @ idents found))) (f ()) R (log2 E)"
  shows "triple (log2 (so_far r es)) (io_bind (require_unchanged (watched ports) h rt path table paths) f) R (log2 E)"
proof -
  have "triple (log1 (so_far r es)) (identified (watched ports) paths)
      (\<lambda>y. log1 (\<lambda>events. \<exists>found. map fst found = paths \<and> y = identity_table found \<and> so_far r (es @ idents found) events)) (log1 E)"
    unfolding identified_def
    by (rule triple_bind [OF identified_logs [OF assms(1)]]) (rule triple_return, auto)
  from on_port_inside [OF this] show ?thesis
    unfolding require_unchanged_def
  proof (rule triple_bind_assoc [OF triple_bind], goal_cases)
    case (1 current)
    show ?case
    proof (intro triple_ex triple_const triple_bind_assoc lease_follows assms(1), goal_cases)
      case (1 found running)
      then show ?case by (intro follows assms(1)) (use assms(2) in auto)
    qed
  qed
qed

subsection \<open>What the log holds when a copy was swapped in\<close>

text \<open>Two tables of identities are equal exactly when each file had the same identity at the last time it was asked for.\<close>

lemma map_of_identity_table:
  "map_of (foldl (\<lambda>d (p, i). dict_set (safe_path_str p) (JObj (map (\<lambda>(k, v). (k, JInt v)) (identity_document i))) d) d found) (safe_path_str p)
     = (case map_of (rev found) p of None \<Rightarrow> map_of d (safe_path_str p)
        | Some i \<Rightarrow> Some (JObj (map (\<lambda>(k, v). (k, JInt v)) (identity_document i))))"
  by (induction found rule: rev_induct) (auto simp: safe_path.expand)

lemma identity_document_inj: "identity_document i = identity_document j \<Longrightarrow> i = j"
  by (simp add: identity_document_def)

lemma identity_table_same:
  assumes "identity_table xs = identity_table ys"
  shows "map_of (rev xs) = map_of (rev ys)"
proof
  fix p
  have inj: "map (\<lambda>(k, v). (k, JInt v)) (identity_document i) = map (\<lambda>(k, v). (k, JInt v)) (identity_document j) \<Longrightarrow> i = j" for i j
    by (rule identity_document_inj) (simp add: identity_document_def)
  from assms have "map_of (identity_table xs) (safe_path_str p) = map_of (identity_table ys) (safe_path_str p)" by simp
  then show "map_of (rev xs) p = map_of (rev ys) p"
    unfolding identity_table_def map_of_identity_table by (auto dest: inj split: option.splits)
qed

text \<open>The tools, spelt out.\<close>

definition describe_chain :: "safe_path \<Rightarrow> argv" where
  "describe_chain source = Argv [''qemu-img'', ''info'', ''--output=json'', ''--backing-chain'', safe_path_str source]"

definition describe_image :: "safe_path \<Rightarrow> argv" where
  "describe_image p = Argv [''qemu-img'', ''info'', ''--output=json'', safe_path_str p]"

definition check_image :: "safe_path \<Rightarrow> argv" where
  "check_image p = Argv [''qemu-img'', ''check'', ''--output=json'', safe_path_str p]"

definition compress_image :: "safe_path \<Rightarrow> safe_path \<Rightarrow> argv" where
  "compress_image source target =
     Argv [''qemu-img'', ''convert'', ''-f'', ''qcow2'', ''-O'', ''qcow2'', ''-c'', ''-o'', ''compression_type=zstd'', ''-m'', ''2'',
       safe_path_str source, safe_path_str target]"

definition compare_images :: "safe_path \<Rightarrow> safe_path \<Rightarrow> argv" where
  "compare_images source target =
     Argv [''qemu-img'', ''compare'', ''-f'', ''qcow2'', ''-F'', ''qcow2'', safe_path_str source, safe_path_str target]"

lemma spelt_out:
  "argv_extended INFO [''--backing-chain'', safe_path_str p] = describe_chain p" "on_path INFO p = describe_image p"
  "on_path CHECK p = check_image p" "on_paths CONVERT p q = compress_image p q" "on_paths COMPARE p q = compare_images p q"
  by (simp_all add: describe_chain_def describe_image_def check_image_def compress_image_def compare_images_def argv_extended_def
      INFO_def CHECK_def CONVERT_def COMPARE_def QEMU_IMG_def QCOW2_def COMPRESSION_TYPE_def CONVERT_THREADS_def)

text \<open>
  \<open>names_files h rt chain paths\<close>: \<open>paths\<close> are the files that the chain's description names, all of them and in
  its order, each a regular file below the root.

  \<open>validated h rt s source target tools events\<close>: nothing was swapped before. The last runs are \<open>tools\<close> of the
  files of the chain, each with exit code zero. Among them are the description of the chain, by which it loses
  nothing when copied, and the description of the copy, by which it stands alone with the same capacity. Every
  file of the chain was identified, then the whole of the two disks compared, and every file identified again
  as the same; then the free space and what the source occupies were asked, and make the launch threshold.
\<close>

definition names_files :: "host \<Rightarrow> runtime_root \<Rightarrow> members list \<Rightarrow> safe_path list \<Rightarrow> bool" where
  "names_files h rt chain paths \<longleftrightarrow>
     list_all2 (\<lambda>item p. \<exists>name. map_of item ''filename'' = Some name
        \<and> safe_regular_file h (path_text (py_str name)) rt = Inr p) chain paths"

lemma chain_paths_named: "chain_paths h rt chain = Inr paths \<Longrightarrow> names_files h rt chain paths"
  by (auto simp: chain_paths_def rmapM_eq_Inr names_files_def rbind_eq_Inr of_option_def elim!: list_all2_mono split: option.splits)

definition validated ::
  "host \<Rightarrow> runtime_root \<Rightarrow> settings \<Rightarrow> safe_path \<Rightarrow> safe_path \<Rightarrow> (safe_path list \<Rightarrow> argv list) \<Rightarrow> image_event list \<Rightarrow> bool" where
  "validated h rt s source target tools events \<longleftrightarrow>
     (\<exists>described chain made copy compared before after n i runs.
        information described = Inr chain \<and> loses_nothing chain \<and> names_files h rt chain (map fst before)
        \<and> information made = Inr copy \<and> stands_alone copy (dict_get (hd chain) ''virtual-size'' JNull)
        \<and> map fst after = map fst before \<and> map_of (rev after) = map_of (rev before)
        \<and> gib_bytes (bs_minimum_free (se_builder s)) \<le> n + fid_allocated i
        \<and> ran_each (tools (map fst before)) runs
        \<and> (describe_chain source, 0, described) \<in> set runs \<and> (describe_image target, 0, made) \<in> set runs
        \<and> so_far runs (Ran (describe_chain source) 0 described # idents before
            @ [Ran (compare_images source target) 0 compared] @ idents after @ [Free n, Identified source i]) events)"

definition compact_tools :: "safe_path \<Rightarrow> safe_path \<Rightarrow> safe_path list \<Rightarrow> argv list" where
  "compact_tools source target paths =
     [Argv [''qemu-img'', ''--version''], describe_chain source] @ map check_image paths
       @ [compress_image source target, describe_image target, check_image target, compare_images source target]"

definition finalise_tools :: "safe_path \<Rightarrow> safe_path \<Rightarrow> safe_path list \<Rightarrow> argv list" where
  "finalise_tools source target paths =
     [describe_chain source, describe_image target] @ map check_image (paths @ [target]) @ [compare_images source target]"

definition swapped_in :: "safe_path \<Rightarrow> safe_path \<Rightarrow> (image_event list \<Rightarrow> bool) \<Rightarrow> image_event list \<Rightarrow> bool" where
  "swapped_in source target P events \<longleftrightarrow>
     (\<exists>earlier later. events = earlier @ Swapped target source # later \<and> P earlier \<and> unswapped later)"

definition safely_ended :: "safe_path \<Rightarrow> safe_path \<Rightarrow> (image_event list \<Rightarrow> bool) \<Rightarrow> image_event list \<Rightarrow> bool" where
  "safely_ended source target P events \<longleftrightarrow> unswapped events \<or> swapped_in source target P events"

lemma calm_ended: "calm (safely_ended source target P)"
  by (simp add: calm_def safely_ended_def)

lemma swapped_more: "swapped_in source target P events \<Longrightarrow> unswapped more_events \<Longrightarrow> swapped_in source target P (events @ more_events)"
  by (force simp: swapped_in_def)

lemma subseq_steps:
  "subseq [] []" "subseq xs ys \<Longrightarrow> subseq (a @ xs) (a @ ys)" "subseq xs ys \<Longrightarrow> subseq (x # xs) (x # ys)"
  "subseq xs ys \<Longrightarrow> subseq xs (y # ys)" "subseq xs ys \<Longrightarrow> subseq xs (a @ ys)"
  by (auto intro: list_emb_append_mono)

lemma validatedI:
  assumes "information described = Inr chain" "loses_nothing chain" "chain_paths h rt chain = Inr (map fst before)"
    and "information made = Inr copy" "stands_alone copy (dict_get (hd chain) ''virtual-size'' JNull)"
    and "map fst after = map fst before" "identity_table after = identity_table before"
    and "gib_bytes (bs_minimum_free (se_builder s)) \<le> n + fid_allocated i" "so_far runs es events"
    and "ran_each (tools (map fst before)) runs"
    and "(describe_chain source, 0, described) \<in> set runs" "(describe_image target, 0, made) \<in> set runs"
    and "subseq (Ran (describe_chain source) 0 described # idents before
      @ [Ran (compare_images source target) 0 compared] @ idents after @ [Free n, Identified source i]) es"
  shows "validated h rt s source target tools events"
  using assms so_far_less chain_paths_named identity_table_same unfolding validated_def by blast

lemma swap_logs:
  assumes "\<And>events. so_far r es events \<Longrightarrow> P events"
  shows "triple (log2 (so_far r es)) (swap_in (watched ports) rt path source target)
    (\<lambda>_. log2 (swapped_in source target P)) (log2 (safely_ended source target P))"
  unfolding swap_in_def
proof (rule note_follows [OF calm_ended], rule triple_bind [where Q = "\<lambda>_. log2 (swapped_in source target P)"], goal_cases)
  case 1
  have "swapped_in source target P (events @ [Swapped target source])" if "so_far r es events" for events
    using assms [OF that] unfolding swapped_in_def by (intro exI [of _ events] exI [of _ "[]"]) simp
  then show ?case
    unfolding watched_simps
    by (intro on_port_inside tripleI)
      (auto simp: trying_def io_bind_def on_object_def on_port_def safely_ended_def split: prod.splits)
next
  case (2 u)
  let ?S = "swapped_in source target P" and ?E = "safely_ended source target P"
  have asked: "triple (log1 ?S) (noting m (\<lambda>b. [Free (bytes_value b)])) (\<lambda>_. log1 ?S) (log1 ?E)" for m
    by (rule triple_conseq [OF noting_logs [of ?S]]) (auto simp: safely_ended_def swapped_more)
  have free: "triple (log1 ?S) (free_now (watched ports) rt) (\<lambda>_. log1 ?S) (log1 ?E)"
    unfolding free_now_def watched_simps
    by (intro triple_bind [OF triple_lift [where Q = "\<lambda>_. log1 ?S"]] triple_bind [OF asked] triple_return)
      (auto simp: safely_ended_def)
  show ?case
    by (rule triple_bind [OF on_port_inside [OF free]])
      (rule triple_conseq [OF note_quiet [of "swapped_in source target P"]], auto simp: safely_ended_def)
qed

lemma swap_follows:
  assumes "\<And>events. so_far r es events \<Longrightarrow> P events"
  shows "triple (log2 (so_far r es)) (io_bind (swap_in (watched ports) rt path source target) (\<lambda>_. io_return c))
    (\<lambda>_. log2 (swapped_in source target P)) (log2 (safely_ended source target P))"
  by (rule triple_bind [OF swap_logs [of r es P]]) (auto intro: assms triple_return)

subsection \<open>Both ways to swap in\<close>

lemma triple_pair [follows]: "triple P (g a b) Q E \<Longrightarrow> triple P (case (a, b) of (x, y) \<Rightarrow> g x y) Q E"
  by simp

lemma digest_step_logs:
  assumes "calm E"
  shows "triple (log2 (so_far r es)) (require_digest (watched ports) path report np) (\<lambda>_. log2 (so_far r es)) (log2 E)"
proof -
  have ended: "triple (log2 (so_far r es)) (io_return x) (\<lambda>_. log2 (so_far r es)) (log2 E)" for x :: 'c by (simp add: triple_return)
  show ?thesis unfolding require_digest_def by (cases np) (simp, intro follows assms ended)
qed

lemma digests_follow [follows]:
  assumes "calm E" "\<And>x. triple (log2 (so_far r es)) (f x) R (log2 E)"
  shows "triple (log2 (so_far r es)) (io_bind (io_mapM (require_digest (watched ports) path report) nps) f) R (log2 E)"
proof (rule triple_bind [OF _ assms(2)])
  show "triple (log2 (so_far r es)) (io_mapM (require_digest (watched ports) path report) nps) (\<lambda>_. log2 (so_far r es)) (log2 E)"
  proof (induction nps)
    case (Cons np nps)
    show ?case unfolding io_mapM.simps
      by (rule triple_bind [OF digest_step_logs [OF assms(1)]], rule triple_bind [OF Cons.IH], rule triple_return)
  qed (simp only: io_mapM.simps, rule triple_return)
qed

lemma compact_under_swaps:
  "triple (log2 (so_far [] [])) (compact_under (watched ports) h s rt path source target)
     (\<lambda>_. log2 (swapped_in source target (validated h rt s source target (compact_tools source target))))
     (log2 (safely_ended source target (validated h rt s source target (compact_tools source target))))"
  unfolding compact_under_def
proof (intro follows calm_ended swap_follows, goal_cases)
  case 1
  then show ?case
    unfolding spelt_out
    by - (rule validatedI, assumption+, simp add: compact_tools_def QEMU_IMG_def, simp, simp,
      (simp only: append.simps append_assoc, (rule subseq_steps)+))
qed

lemma finalise_under_swaps:
  "triple (log2 (so_far [] [])) (finalise_under (watched ports) h s rt path report source target)
     (\<lambda>_. log2 (swapped_in source target (validated h rt s source target (finalise_tools source target))))
     (log2 (safely_ended source target (validated h rt s source target (finalise_tools source target))))"
  unfolding finalise_under_def
proof (intro follows calm_ended swap_follows, goal_cases)
  case 1
  then show ?case
    unfolding spelt_out
    by - (rule validatedI, assumption+, simp add: finalise_tools_def ran_each_snoc, simp, simp,
      (simp only: append.simps append_assoc, (rule subseq_steps)+))
qed

subsection \<open>compact and finalise\<close>

lemma so_far_nil: "so_far [] [] events \<longleftrightarrow> unswapped events"
  by (simp add: so_far_def)

lemma chain_walk_keeps:
  assumes keeps: "\<And>current links w w' x. P w \<Longrightarrow> walk_round ports h rt current links w = (w', x) \<Longrightarrow> P w'"
    and "chain_walk ports h rt current links w = Some z" "P w"
  shows "P (fst z)"
proof (rule chain_walk.raw_induct [OF _ assms(2), where P = "\<lambda>ports' h' rt' current links w z.
      ports' = ports \<longrightarrow> h' = h \<longrightarrow> rt' = rt \<longrightarrow> P w \<longrightarrow> P (fst z)", rule_format, OF _ refl refl refl assms(3)], goal_cases)
  case (1 walk ports' h' rt' current links w z)
  obtain w1 x where r: "walk_round ports h rt current links w = (w1, x)" by (cases "walk_round ports h rt current links w")
  with keeps 1(6) have p: "P w1" by blast
  show ?case
  proof (cases "\<exists>link next_candidate. x = Inr (link, Some next_candidate)")
    case True
    then obtain link next_candidate where "x = Inr (link, Some next_candidate)" by blast
    with r 1(2-5) have "walk ports h rt next_candidate (links @ [link]) w1 = Some z" by simp
    from 1(1) [OF this refl refl refl p] show ?thesis .
  next
    case False
    with r 1(2-5) p show ?thesis by (auto split: sum.splits option.splits)
  qed
qed

lemma watched_round:
  "triple (log1 unswapped) (walk_round (watched ports) h rt current links) (\<lambda>_. log1 unswapped) (log1 unswapped)"
proof -
  let ?U = "log1 unswapped :: 'a \<times> image_event list \<Rightarrow> bool"
  have ran: "triple ?U (pp_run (hp_processes (watched ports)) a d l opts) (\<lambda>_. ?U) ?U" for a d l opts
    unfolding watched_simps by (rule triple_conseq [OF noting_logs [of unswapped]]) auto
  have described: "triple ?U (describe_link (watched ports) link) (\<lambda>_. ?U) ?U" for link
    unfolding describe_link_def by (intro triple_bind [OF ran] triple_if triple_raise triple_lift)
  have tested: "triple ?U (io_lift y) (\<lambda>_. ?U) ?U" for y :: "'c res" by (rule triple_lift)
  show ?thesis
    unfolding walk_round_def Let_def
    by (intro triple_bind [OF tested] triple_if triple_raise triple_bind [OF described] triple_return)
qed

lemma watched_inspection:
  "ptriple (log1 unswapped) (inspect_chain (watched ports) h candidate rt) (\<lambda>_. log1 unswapped) (log1 unswapped)"
proof -
  have "log1 unswapped w'" if "log1 unswapped w" "walk_round (watched ports) h rt current links w = (w', x)" for w w' x current links
    using tripleD [OF watched_round that(1)] that(2) by (cases x) auto
  then have "log1 unswapped (fst z)" if "chain_walk (watched ports) h rt candidate [] w = Some z" "log1 unswapped w" for w z
    using chain_walk_keeps [where P = "log1 unswapped", OF _ that] by blast
  then show ?thesis unfolding inspect_chain_def by (intro ptripleI) fastforce+
qed

definition builder_disk :: "host \<Rightarrow> runtime_root \<Rightarrow> safe_path res" where
  "builder_disk h rt = safe_regular_file h (path_join (root_path rt) BUILDER_DISK_NAME) rt"

lemma watched_guard:
  "ptriple (log1 unswapped) (guarded_source (watched ports) h rt)
     (\<lambda>source wl. builder_disk h rt = Inr source \<and> log1 unswapped wl) (log1 unswapped)"
proof -
  let ?U = "log1 unswapped :: 'a \<times> image_event list \<Rightarrow> bool"
  let ?Q = "\<lambda>source wl. builder_disk h rt = Inr source \<and> ?U wl"
  have lease: "triple ?U (current_lease (machine_part (watched ports)) h rt) (\<lambda>_. ?U) ?U"
    by (rule silentD [OF silent_current_lease])
  have asked: "triple (?Q source) (fp_identity (hp_files (watched ports)) p) (\<lambda>_. ?Q source) ?U" for source p
    unfolding watched_simps
    by (rule triple_const, rule triple_conseq [OF noting_logs [of unswapped]]) auto
  have first: "triple ?U (io_bind (current_lease (machine_part (watched ports)) h rt) (\<lambda>running.
      if running \<noteq> None then io_raise (Refusal MACHINE_RUNNING)
      else io_bind (io_lift (safe_regular_file h (path_join (root_path rt) BUILDER_DISK_NAME) rt)) (\<lambda>source.
           io_bind (fp_identity (hp_files (watched ports)) source) (\<lambda>i.
             if fid_links i \<noteq> 1 then io_raise (Refusal COMPACTION_INPUT_UNSAFE) else io_return source)))) ?Q ?U"
    by (intro triple_bind [OF lease] triple_if triple_raise triple_bind [OF triple_lift [where Q = ?Q]] triple_bind [OF asked] triple_return)
      (auto simp: builder_disk_def)
  have inspected: "ptriple (?Q source) (inspect_chain (watched ports) h (safe_path_str source) rt) (\<lambda>_. ?Q source) ?U" for source
    by (rule ptripleI) (use ptripleD [OF watched_inspection] in blast)+
  show ?thesis
    unfolding guarded_source_def
    by (rule ptriple_bind [OF ptriple_pio [OF first]], rule ptriple_bind [OF inspected], rule ptriple_pio, rule triple_return)
qed

lemma with_ledger_logs:
  assumes "triple (log2 P) body (\<lambda>x. log2 (Q x)) (log2 E)" "\<And>events. P events \<Longrightarrow> E events"
  shows "triple (log1 P) (with_ledger (watched ports) path document body) (\<lambda>x. log1 (Q x)) (log1 E)"
proof -
  have "triple (log2 P) (io_then (ledger_save (watched ports) path) body) (\<lambda>x. log2 (Q x)) (log2 E)"
    by (rule triple_then [OF triple_conseq [OF save_quiet [of P]] assms(1)]) (auto intro: assms(2))
  then show ?thesis by (fastforce simp: triple_def with_ledger_def split: prod.splits sum.splits)
qed

lemma locked_logs:
  assumes "ptriple (log1 P) body (\<lambda>x. log1 (Q x)) (log1 E)" "\<And>events. P events \<Longrightarrow> E events" "\<And>x events. Q x events \<Longrightarrow> E events"
  shows "ptriple (log1 P) (locked_pio (machine_part (watched ports)) scope pol body) (\<lambda>x. log1 (Q x)) (log1 E)"
proof -
  have k: "silent (lk_acquire (mp_locks (machine_part (watched ports))) scope pol)"
    "silent (lk_release (mp_locks (machine_part (watched ports))) lease)" for lease
    by (simp_all add: machine_part_def watched_simps silent_simps)
  have taken: "triple (log1 P) (lk_acquire (mp_locks (machine_part (watched ports))) scope pol) (\<lambda>_. log1 P) (log1 E)"
    by (rule triple_conseq [OF silentD [OF k(1), of P]]) (auto intro: assms(2))
  have left: "triple (log1 R) (lk_release (mp_locks (machine_part (watched ports))) lease) (\<lambda>_. log1 R) (log1 E)"
    if "\<And>events. R events \<Longrightarrow> E events" for R lease
    by (rule triple_conseq [OF silentD [OF k(2), of R]]) (auto intro: that)
  show ?thesis
    unfolding locked_pio_def
    by (rule ptriple_bind [OF ptriple_pio [OF taken]], rule ptriple_finally [OF assms(1)]) (auto intro: left assms(3))
qed

text \<open>The swap that a compaction may end with.\<close>

definition swaps_builder ::
  "host \<Rightarrow> settings \<Rightarrow> runtime_root \<Rightarrow> (safe_path \<Rightarrow> safe_path \<Rightarrow> safe_path list \<Rightarrow> argv list) \<Rightarrow> image_event list \<Rightarrow> bool" where
  "swaps_builder h s rt tools events \<longleftrightarrow>
     (\<exists>source target. builder_disk h rt = Inr source
        \<and> swapped_in source target (validated h rt s source target (tools source target)) events)"

lemma under_ledger:
  assumes "builder_disk h rt = Inr source"
    and "triple (log2 (so_far [] [])) body
      (\<lambda>_. log2 (swapped_in source target (validated h rt s source target (tools source target))))
      (log2 (safely_ended source target (validated h rt s source target (tools source target))))"
  shows "triple (log1 unswapped) (with_ledger (watched ports) path document body)
    (\<lambda>_. log1 (swaps_builder h s rt tools)) (log1 (\<lambda>events. unswapped events \<or> swaps_builder h s rt tools events))"
proof (rule with_ledger_logs)
  show "triple (log2 unswapped) body (\<lambda>_. log2 (swaps_builder h s rt tools))
      (log2 (\<lambda>events. unswapped events \<or> swaps_builder h s rt tools events))"
    by (rule triple_conseq [OF assms(2)]) (use assms(1) in \<open>auto simp: so_far_nil safely_ended_def swaps_builder_def\<close>)
qed simp

text \<open>What comes before the report is opened swaps nothing.\<close>

definition calm_io :: "('w \<times> image_event list, 'a) io \<Rightarrow> bool" where
  "calm_io m \<longleftrightarrow> triple (log1 unswapped) m (\<lambda>_. log1 unswapped) (log1 unswapped)"

lemma calm_silent: "silent m \<Longrightarrow> calm_io m"
  unfolding calm_io_def by (rule silentD)

lemma calm_identity: "calm_io (fp_identity (hp_files (watched ports)) p)"
  unfolding calm_io_def watched_simps by (rule triple_conseq [OF noting_logs [of unswapped]]) auto

lemma calm_bind: "calm_io m \<Longrightarrow> (\<And>x. calm_io (f x)) \<Longrightarrow> calm_io (io_bind m f)"
  unfolding calm_io_def by (rule triple_bind)

lemma calm_if: "calm_io m \<Longrightarrow> calm_io n \<Longrightarrow> calm_io (if b then m else n)"
  by simp

lemma calm_retained: "calm_io (retained (watched ports) source previous)"
  unfolding retained_def Let_def
  by (intro calm_bind calm_if calm_identity) (auto intro!: calm_silent silent_simps simp: watched_simps)

lemma calm_before:
  assumes "calm_io m" "\<And>x. triple (log1 unswapped) (f x) Q (log1 (\<lambda>events. unswapped events \<or> S events))"
  shows "triple (log1 unswapped) (io_bind m f) Q (log1 (\<lambda>events. unswapped events \<or> S events))"
  by (rule triple_bind [OF triple_conseq [OF assms(1) [unfolded calm_io_def]] assms(2)]) auto

lemma compact_logs:
  "ptriple (log1 unswapped) (compact (watched ports) h s rt) (\<lambda>_. log1 (swaps_builder h s rt compact_tools))
     (log1 (\<lambda>events. unswapped events \<or> swaps_builder h s rt compact_tools events))"
  unfolding compact_def
proof (rule locked_logs, rule ptriple_bind [OF ptriple_conseq [OF watched_guard,
      where Q' = "\<lambda>source wl. builder_disk h rt = Inr source \<and> log1 unswapped wl"]], goal_cases)
  case (4 source)
  show ?case
  proof (intro ptriple_pio triple_const)
    assume "builder_disk h rt = Inr source"
    from under_ledger [where tools = compact_tools, OF this compact_under_swaps]
    show "triple (log1 unswapped) (io_bind (ip_run_id (hp_identities (watched ports))) (\<lambda>run.
        io_bind (io_lift (root_child h rt (COMPACTIONS_DIRECTORY @ ''/'' @ identifier_value run))) (\<lambda>directory.
        io_bind (fp_make_directory (hp_files (watched ports)) directory PRIVATE_DIRECTORY_MODE) (\<lambda>_.
        io_bind (io_lift (safe_path_div directory COMPRESSED_DISK_NAME)) (\<lambda>target.
        io_bind (io_lift (safe_path_div directory ''result.json'')) (\<lambda>path.
          with_ledger (watched ports) path
            [(''status'', JStr FAIL), (''source'', JStr (safe_path_str source)), (''replacement'', JStr NOT_PERFORMED)]
            (compact_under (watched ports) h s rt path source target))))))) (\<lambda>_. log1 (swaps_builder h s rt compact_tools))
        (log1 (\<lambda>events. unswapped events \<or> swaps_builder h s rt compact_tools events))"
      unfolding watched_simps by (intro calm_before calm_silent silent_simps)
  qed
qed auto

lemma finalise_logs:
  "ptriple (log1 unswapped) (finalise (watched ports) h s rt compaction) (\<lambda>_. log1 (swaps_builder h s rt finalise_tools))
     (log1 (\<lambda>events. unswapped events \<or> swaps_builder h s rt finalise_tools events))"
  unfolding finalise_def
proof (rule locked_logs, rule ptriple_bind [OF ptriple_conseq [OF watched_guard,
      where Q' = "\<lambda>source wl. builder_disk h rt = Inr source \<and> log1 unswapped wl"]], goal_cases)
  case (4 source)
  show ?case
  proof (intro ptriple_pio triple_const calm_before calm_retained, goal_cases)
    case (2 previous kept)
    then obtain report target where kept: "kept = (report, target)" by (cases kept)
    from 2 have "builder_disk h rt = Inr source" by simp
    from under_ledger [where tools = finalise_tools, OF this finalise_under_swaps] show ?case
      unfolding kept prod.case watched_simps by (intro calm_before calm_silent silent_digest silent_simps)
  qed (rule calm_silent, rule silent_simps)
qed auto

text \<open>
  Whatever the ports answer: a compaction that succeeds has swapped a validated copy in, and one that raises has
  swapped nothing in or a validated copy.
\<close>

lemma compact_validates:
  assumes "compact (watched ports) h s rt (w, []) = Some ((w', events), r)"
  shows "case r of Inr c \<Rightarrow> swaps_builder h s rt compact_tools events
    | Inl e \<Rightarrow> unswapped events \<or> swaps_builder h s rt compact_tools events"
proof (cases r)
  case (Inl e)
  from ptripleD(2) [OF compact_logs _ assms [unfolded Inl]] Inl show ?thesis by simp
next
  case (Inr c)
  from ptripleD(1) [OF compact_logs _ assms [unfolded Inr]] Inr show ?thesis by simp
qed

lemma finalise_validates:
  assumes "finalise (watched ports) h s rt compaction (w, []) = Some ((w', events), r)"
  shows "case r of Inr c \<Rightarrow> swaps_builder h s rt finalise_tools events
    | Inl e \<Rightarrow> unswapped events \<or> swaps_builder h s rt finalise_tools events"
proof (cases r)
  case (Inl e)
  from ptripleD(2) [OF finalise_logs _ assms [unfolded Inl]] Inl show ?thesis by simp
next
  case (Inr c)
  from ptripleD(1) [OF finalise_logs _ assms [unfolded Inr]] Inr show ?thesis by simp
qed

end
