(* ===== verification/RunTheorems.thy ===== *)
theory RunTheorems
  imports FingerprintTrace Hotplug Swaps JsonBound
begin

section \<open>Properties of scripts, traces, settings and disks\<close>

text \<open>
  The properties of the parts a test run is prepared and observed with, and of the compaction of the builder's disk.
  The witnesses of the disks run on ports that answer the same to everything and log what was done.
\<close>

subsection \<open>Scripts\<close>

text \<open>
  C16. A shell that reads a rendered script and runs what it read does what the steps say: one after the other,
  up to the first that fails and is not tolerated, when the tolerated steps come first. The shell is the one of
  \<open>GuestShell\<close>, without assignments and reserved words.
\<close>

theorem script_runs_in_order:
  assumes "script_steps script \<noteq> []" "list_all step_ok (script_steps script)" "tolerated_first (script_steps script)"
    and "\<And>s. exec true_command s = (s, True)"
  shows "shell_runs exec (script_rendered script) s = Some (run_steps exec (script_steps script) s)"
  by (simp add: shell_runs_def sh_read_script [OF assms(1,2)] sh_run_steps [of exec, OF assms(4) assms(3)])

definition ex_step :: "str \<Rightarrow> bool \<Rightarrow> guest_step" where
  "ex_step word tolerated = \<lparr>st_argv = Argv [''echo'', word], st_quiet_errors = True, st_tolerated = tolerated\<rparr>"

text \<open>Commands that note their words; one that names \<open>bad\<close> fails.\<close>

definition ex_exec :: "sh_command \<Rightarrow> str list list \<Rightarrow> str list list \<times> bool" where
  "ex_exec c s = (if sc_words c = [''true''] then (s, True) else (s @ [sc_words c], sc_words c \<noteq> [''echo'', ''bad'']))"

theorem script_runs_in_order_witness:
  "shell_runs ex_exec (script_rendered (RemoteScript [ex_step ''bad'' True, ex_step ''it's'' False])) []
     = Some ([[''echo'', ''bad''], [''echo'', ''it's'']], True)"
proof -
  have "shell_runs ex_exec (script_rendered (RemoteScript [ex_step ''bad'' True, ex_step ''it's'' False])) []
     = Some (run_steps ex_exec [ex_step ''bad'' True, ex_step ''it's'' False] [])"
    using script_runs_in_order [of "RemoteScript [ex_step ''bad'' True, ex_step ''it's'' False]" ex_exec "[]"]
    by (simp add: tolerated_first_def ex_step_def step_ok_def ex_exec_def true_command_def)
  then show ?thesis by (simp add: ex_step_def ex_exec_def step_command_def)
qed

text \<open>
  C17. A tolerated step after one that is not makes the shell go on past the failure of the earlier step: \<open>a && b ||
  true && c\<close> runs \<open>c\<close> when \<open>a\<close> fails. What follows starts in the state the failed step left, with success.
\<close>

theorem tolerated_step_hides_failure:
  assumes "list_all step_ok (first # second # rest)" "\<not> st_tolerated first" "st_tolerated second"
    and "exec (step_command first) s = (s', False)" "\<And>s. exec true_command s = (s, True)"
  shows "run_steps exec (first # second # rest) s = (s', False)
    \<and> shell_runs exec (script_rendered (RemoteScript (first # second # rest))) s
      = (if rest = [] then Some (s', True) else shell_runs exec (script_rendered (RemoteScript rest)) s')"
  using assms sh_read_script [of "RemoteScript (first # second # rest)"] sh_read_script [of "RemoteScript rest"]
  by (simp add: shell_runs_def)

theorem tolerated_step_hides_failure_witness:
  "run_steps ex_exec [ex_step ''bad'' False, ex_step ''state'' True, ex_step ''next'' False] [] = ([[''echo'', ''bad'']], False)
   \<and> shell_runs ex_exec (script_rendered (RemoteScript [ex_step ''bad'' False, ex_step ''state'' True, ex_step ''next'' False])) []
     = Some ([[''echo'', ''bad''], [''echo'', ''next'']], True)"
proof -
  have next_runs: "shell_runs ex_exec (script_rendered (RemoteScript [ex_step ''next'' False])) [[''echo'', ''bad'']]
      = Some ([[''echo'', ''bad''], [''echo'', ''next'']], True)"
    using sh_read_script [of "RemoteScript [ex_step ''next'' False]"]
    by (simp add: shell_runs_def step_ok_def ex_step_def step_list_def step_command_def ex_exec_def)
  from tolerated_step_hides_failure [of "ex_step ''bad'' False" "ex_step ''state'' True" "[ex_step ''next'' False]" ex_exec "[]"
      "[[''echo'', ''bad'']]"]
  show ?thesis unfolding next_runs
    by (simp add: step_ok_def ex_step_def step_command_def ex_exec_def true_command_def)
qed

subsection \<open>Settings\<close>

text \<open>
  C19. Settings that load are consistent: the reserve is less than the memory, no size is negative, every variable of
  the environment in the program's namespace is a declared one, and each field, no other, is explained by a layer.
\<close>

theorem loaded_settings_are_consistent:
  assumes "load_settings h host_file environment = Inr s"
  shows "0 \<le> mib_value (bs_reserve (se_builder s)) \<and> mib_value (bs_reserve (se_builder s)) < mib_value (bs_memory (se_builder s))
    \<and> 0 \<le> gib_value (bs_disk (se_builder s)) \<and> 0 \<le> gib_value (bs_minimum_free (se_builder s))
    \<and> (\<forall>name value. (name, value) \<in> set environment \<longrightarrow> known_variable name)
    \<and> (\<forall>field. (\<exists>l. explain s field = Inr l) \<longleftrightarrow> field \<in> set SETTING_FIELDS)"
  by (rule load_settings_Inr [OF assms])

definition ex_plain_host :: host where
  "ex_plain_host = \<lparr>host_expand = id, host_resolve = id, host_is_symlink = (\<lambda>p. False),
     host_is_dir = (\<lambda>p. True), host_is_file = (\<lambda>p. p = ''/r/builder.qcow2''), host_mode = (\<lambda>p. 448)\<rparr>"

definition ex_table :: members where
  "ex_table = [(''builder'', JObj [(''memory_mib'', JInt 9000), (''minimum_free_gib'', JInt 0)])]"

theorem loaded_settings_are_consistent_witness:
  "\<exists>s. load_settings ex_plain_host (Some (Inr ex_table)) [(''APEX_STATE_DIR'', ''/r''), (''HOME'', ''/h'')] = Inr s
     \<and> mib_value (bs_reserve (se_builder s)) < 9000 \<and> (\<exists>l. explain s ''builder.memory'' = Inr l)"
proof -
  have env: "check_environment [(''APEX_STATE_DIR'', ''/r''), (''HOME'', ''/h'')] = Inr [(''runtime_root'', ''/r'')]"
    by (simp add: check_environment_def check_variable_def starts_with_def DECLARED_def NAMESPACE_def GUEST_VARIABLES_def
        TOOLING_VARIABLES_def)
  obtain s where s: "load_settings ex_plain_host (Some (Inr ex_table)) [(''APEX_STATE_DIR'', ''/r''), (''HOME'', ''/h'')] = Inr s"
    and m: "mib_value (bs_memory (se_builder s)) = 9000"
    by (simp add: load_settings_def builder_table_def ex_table_def BUILDER_FIELDS_def load_builder_def pick_def pick_path_def
        BUILDER_DEFAULTS_def mk_mib_def mk_gib_def env dict_get_def)
  from loaded_settings_are_consistent [OF s] s m show ?thesis by (auto simp: SETTING_FIELDS_def)
qed

subsection \<open>The record of a run\<close>

text \<open>C18. The record of a test run that is written beside its overlays is the record that is read from there.\<close>

theorem run_record_reads_back:
  assumes "memory_plain fs" "safe_path_div directory RUN_RECORD_NAME = Inr p" "run_fits r"
  shows "\<exists>fs'. write_run memory_port directory r fs = (fs', Inr ()) \<and> read_run memory_port directory fs' = (fs', Inr r)"
  by (rule mem.run_written_reads [OF assms])

definition ex_run_record :: run_record where
  "ex_run_record =
     \<lparr>rr_run = HexIdentifier (replicate 32 CHR ''a''),
      rr_disk = \<lparr>ly_source = ''/s/base.qcow2'', ly_overlay = ''/r/disk.qcow2''\<rparr>,
      rr_extras = [\<lparr>ly_source = ''/s/extra.qcow2'', ly_overlay = ''/r/extra.qcow2''\<rparr>], rr_iso = None,
      rr_medium = None, rr_guest_ssh = True, rr_serial_console = False, rr_usb_bus = True, rr_boot_usb = None\<rparr>"

theorem run_record_reads_back_witness:
  "\<exists>fs'. write_run memory_port (SafePath ''/r'') ex_run_record (memory_new None) = (fs', Inr ())
     \<and> read_run memory_port (SafePath ''/r'') fs' = (fs', Inr ex_run_record)"
proof (rule run_record_reads_back)
  show "memory_plain (memory_new None)" by (simp add: memory_plain_def memory_new_def)
  show "safe_path_div (SafePath ''/r'') RUN_RECORD_NAME = Inr (SafePath ''/r/run.json'')"
    by (simp add: safe_path_div_def RUN_RECORD_NAME_def mk_safe_path_def path_join_def starts_with_def ends_with_def
        suffix_to_prefix OPTION_SEPARATOR_def)
  have ok: "run_ok ex_run_record"
    by (simp add: run_ok_def ex_run_record_def layer_ok_def text_path_ok_def hex_identifier_ok_def is_ascii_def byte_of_def) code_simp
  have "weight (JObj (run_members ex_run_record)) \<le> 4000"
    by (simp add: ex_run_record_def run_members_def layer_members_def RUN_SCHEMA_def str_of_int_def str_of_nat.simps)
  with canonical_length [OF plain_run [OF ok]] have "length (canonical (JObj (run_members ex_run_record))) \<le> 4000" by simp
  with ok show "run_fits ex_run_record"
    by (simp add: run_fits_def document_bytes_def DOCUMENT_LIMIT_def)
qed

subsection \<open>Chains of disks\<close>

text \<open>
  C13. The walk of a chain of disks returns, whatever the image tool answers and however it changes its answers, when
  the regular files below the root are finitely many.
\<close>

theorem chain_inspection_returns:
  assumes "finite (files_below h rt)"
  shows "\<exists>z. inspect_chain ports h candidate rt w = Some z"
  by (rule inspect_returns [OF assms])

text \<open>
  C14. The chain it answers with, when the tool describes each file the same way every time, is exactly a list of
  distinct regular files below the root that follows the descriptions from the disk to one with no backing file.
\<close>

theorem chain_inspected_exactly:
  assumes "\<And>p w. describe_link ports p w = (w, info p)"
  shows "inspect_chain ports h candidate rt w = Some (w, Inr chain) \<longleftrightarrow>
    layered h rt info candidate (chain_links chain) \<and> distinct (chain_links chain)"
  by (rule inspect_iff [OF assms])

text \<open>Ports whose image tool answers the same to everything, and which answer for files that are always alone.\<close>

definition ex_info :: members where
  "ex_info = [(''filename'', JStr ''/r/builder.qcow2''), (''format'', JStr ''qcow2''), (''virtual-size'', JInt 1)]"

definition ex_disk_identity :: file_identity where
  "ex_disk_identity = \<lparr>fid_device = 1, fid_inode = 2, fid_size = 3, fid_modified_nanoseconds = 4, fid_links = 1, fid_allocated = 5\<rparr>"

definition ex_process :: "unit process_port" where
  "ex_process = \<lparr>pp_environment = SIMULATED,
     pp_run = (\<lambda>a d l opts w. (w, Inr \<lparr>run_exit_code = 0, run_stdout = canonical (JObj ex_info), run_stderr = [], run_truncated = False\<rparr>)),
     pp_locate = (\<lambda>s w. (w, Inr None))\<rparr>"

definition ex_ports :: "unit host_ports" where
  "ex_ports = for_planning\<lparr>hp_processes := ex_process\<rparr>"

lemma ex_info_plain: "plain_json (JObj ex_info)" "sort_json (JObj ex_info) = JObj ex_info"
  by (simp_all add: ex_info_def is_ascii_def byte_of_def)

lemma ex_info_read: "parse_document (canonical (JObj ex_info)) = Inr (JObj ex_info)"
  using read_value_canonical [OF ex_info_plain(1)] ex_info_plain(2) by simp

lemma ex_described: "describe_link ex_ports p w = (w, Inr ex_info)"
  by (simp add: describe_link_def ex_ports_def ex_process_def io_bind_def succeeded_def ex_info_read)

lemma ex_files_below: "files_below ex_plain_host (RuntimeRoot ''/r'') \<subseteq> {SafePath ''/r/builder.qcow2''}"
  by (auto simp: files_below_def safe_regular_file_def ex_plain_host_def mk_safe_path_def Let_def split: if_splits)

theorem chain_inspection_returns_witness:
  "\<exists>z. inspect_chain ex_ports ex_plain_host ''/r/builder.qcow2'' (RuntimeRoot ''/r'') () = Some z"
  by (rule chain_inspection_returns) (rule finite_subset [OF ex_files_below], simp)

theorem chain_inspected_exactly_witness:
  "inspect_chain ex_ports ex_plain_host ''/r/builder.qcow2'' (RuntimeRoot ''/r'') ()
     = Some ((), Inr (BackingChain [SafePath ''/r/builder.qcow2'']))"
  unfolding chain_inspected_exactly [where info = "\<lambda>_. Inr ex_info", OF ex_described]
  by (simp add: ex_plain_host_def safe_regular_file_def mk_safe_path_def is_relative_to_def starts_with_def ex_info_def
      dict_get_def FORMAT_KEY_def BACKING_KEY_def QCOW2_def OPTION_SEPARATOR_def)

subsection \<open>The builder's disk\<close>

text \<open>
  C9. Whatever the ports answer, a compaction that succeeds has put a copy in the place of the builder's disk once,
  and one that raises has replaced nothing or done just that. A copy is put there only after the tools, each with
  exit code zero, described the chain of the disk, checked every file that this description names, converted the
  disk into the copy, described and checked the copy, and compared the two: the description names regular files
  below the root, of images without snapshots, bitmaps, dirty or corrupt flags, and the copy is described as one
  that needs no other file and has the same capacity. Every file of the chain was identified before the comparison
  and again after it, as the same, and the free space with what the disk occupies makes the launch threshold.
\<close>

theorem compaction_swaps_validated:
  assumes "compact (watched ports) h s rt (w, []) = Some ((w', events), r)"
  shows "case r of Inr c \<Rightarrow> swaps_builder h s rt compact_tools events
    | Inl e \<Rightarrow> unswapped events \<or> swaps_builder h s rt compact_tools events"
  by (rule compact_validates [OF assms])

definition ex_answers :: "bytes \<Rightarrow> unit files_port" where
  "ex_answers document = planning_files\<lparr>
     fp_exists := (\<lambda>p w. (w, Inr (safe_path_str p \<noteq> ''/r/'' @ LEASE_NAME))),
     fp_read_bytes := (\<lambda>p n w. (w, Inr document)),
     fp_write_atomic := (\<lambda>p b m w. (w, Inr (Digest (replicate 64 CHR ''a'')))),
     fp_make_directory := (\<lambda>p m w. (w, Inr ())), fp_free_space := (\<lambda>p w. (w, Inr (ByteCount 10000000000))),
     fp_identity := (\<lambda>p w. (w, Inr ex_disk_identity)), fp_replace := (\<lambda>p q w. (w, Inr ()))\<rparr>"

definition ex_host_ports :: "bytes \<Rightarrow> unit host_ports" where
  "ex_host_ports document = for_planning\<lparr>
     hp_processes := ex_process, hp_files := ex_answers document,
     hp_identities := \<lparr>ip_environment = SIMULATED, ip_run_id = (\<lambda>w. (w, Inr (HexIdentifier (replicate 32 CHR ''b'')))),
        ip_token = (\<lambda>w. (w, Inr (HexIdentifier (replicate 32 CHR ''c''))))\<rparr>,
     hp_locks := \<lparr>lk_environment = SIMULATED, lk_acquire = (\<lambda>k pol w. (w, Inr \<lparr>ll_scope = k, ll_holder = ''me''\<rparr>)),
        lk_release = (\<lambda>k w. (w, Inr ())), lk_holder = (\<lambda>k w. (w, Inr None))\<rparr>,
     hp_digests := \<lparr>dp_environment = SIMULATED, dp_file = (\<lambda>p w. (w, Inr (Digest (replicate 64 CHR ''d'')))),
        dp_forget = (\<lambda>w. (w, Inr ()))\<rparr>\<rparr>"

text \<open>What each operation does on these ports.\<close>

abbreviation ex_watched :: "bytes \<Rightarrow> (unit \<times> image_event list) host_ports" where
  "ex_watched document \<equiv> watched (ex_host_ports document)"

abbreviation ex_disk :: safe_path where "ex_disk \<equiv> SafePath ''/r/builder.qcow2''"

lemma ex_safe_path: "mk_safe_path (CHR ''/'' # p) = (if CHR '','' \<in> set p then Inl (Refusal PATH_CONTAINS_OPTION_SEPARATOR) else Inr (SafePath (CHR ''/'' # p)))"
  by (simp add: mk_safe_path_def OPTION_SEPARATOR_def)

lemma ex_builder: "safe_regular_file ex_plain_host ''/r/builder.qcow2'' (RuntimeRoot ''/r'') = Inr ex_disk"
  by (simp add: safe_regular_file_def ex_plain_host_def ex_safe_path is_relative_to_def starts_with_def Let_def)

abbreviation ex_out :: bytes where "ex_out \<equiv> canonical (JObj ex_info)"

lemma ex_run: "pp_run (hp_processes (ex_watched document)) a d l opts (u, events) =
    ((u, events @ [Ran a 0 ex_out]), Inr \<lparr>run_exit_code = 0, run_stdout = canonical (JObj ex_info), run_stderr = [], run_truncated = False\<rparr>)"
  by (simp add: watched_simps ex_host_ports_def ex_process_def noting_def io_bind_def)

lemma ex_save: "ledger_save (ex_watched document) path (wl, d) = ((wl, d), Inr ())"
  by (cases wl) (simp add: ledger_save_def watched_simps ex_host_ports_def ex_answers_def io_bind_def)

lemma ex_note: "ledger_note (ex_watched document) path noted (wl, d) = ((wl, dict_update noted d), Inr ())"
  by (simp add: ledger_note_def io_then_def io_bind_def ex_save)

definition ex_entered :: "argv \<Rightarrow> members \<Rightarrow> members" where
  "ex_entered a = command_recorded (command_entry a
     \<lparr>run_exit_code = 0, run_stdout = canonical (JObj ex_info), run_stderr = [], run_truncated = False\<rparr>)"

lemma ex_command: "ledger_command (ex_watched document) path a transcript ((u, events), d) =
    (((u, events @ [Ran a 0 ex_out]), ex_entered a d), Inr (canonical (JObj ex_info)))"
  by (simp add: ledger_command_def io_bind_def ex_run ex_save succeeded_def ex_entered_def)

lemma ex_identity: "fp_identity (hp_files (ex_watched document)) p (u, events) = ((u, events @ [Identified p ex_disk_identity]), Inr ex_disk_identity)"
  by (simp add: watched_simps noting_def io_bind_def ex_host_ports_def ex_answers_def)

lemma ex_free: "free_now (ex_watched document) (RuntimeRoot ''/r'') (u, events) = ((u, events @ [Free 10000000000]), Inr 10000000000)"
  by (simp add: free_now_def watched_simps noting_def io_bind_def ex_host_ports_def ex_answers_def ex_safe_path)

lemma ex_fresh_digest: "fresh_digest (ex_watched document) p (u, events) = ((u, events), Inr (replicate 64 CHR ''d''))"
  by (simp add: fresh_digest_def watched_simps io_bind_def ex_host_ports_def)

lemma ex_no_lease: "current_lease (machine_part (ex_watched document)) ex_plain_host (RuntimeRoot ''/r'') (u, events) = ((u, events), Inr None)"
  by (simp add: current_lease_def read_lease_def read_object_def machine_part_def watched_simps ex_host_ports_def ex_answers_def
      io_bind_def root_child_def ex_plain_host_def path_join_def starts_with_def ends_with_def suffix_to_prefix is_relative_to_def
      LEASE_NAME_def ex_safe_path parsed_option_def Let_def)

lemma ex_information: "information (canonical (JObj ex_info)) = Inr [ex_info]"
  by (simp add: information_def ex_info_read)

lemma ex_is_plain: "require_plain (ex_watched document) path [ex_info] wld = (wld, Inr ())"
  by (simp add: require_plain_def ex_info_def dict_get_def QCOW2_def loses_def format_data_def)

lemma ex_alone: "require_alone (ex_watched document) path [ex_info] (dict_get ex_info ''virtual-size'' JNull) wld = (wld, Inr ())"
  by (simp add: require_alone_def ex_is_plain io_bind_def) (simp add: ex_info_def dict_get_def)

lemma ex_chain_paths: "chain_paths ex_plain_host (RuntimeRoot ''/r'') [ex_info] = Inr [ex_disk]"
  by (simp add: chain_paths_def ex_info_def path_text_def path_root_def starts_with_def ex_builder)

lemma ex_identified: "identified (ex_watched document) [ex_disk] (u, events) =
    ((u, events @ [Identified ex_disk ex_disk_identity]), Inr (identity_table [(ex_disk, ex_disk_identity)]))"
  by (simp add: identified_def io_bind_def ex_identity)

lemma ex_guarded: "guarded_source (ex_watched document) ex_plain_host (RuntimeRoot ''/r'') ((), []) =
    Some (((), [Identified ex_disk ex_disk_identity,
      Ran (Argv [QEMU_IMG, ''info'', ''--output=json'', ''/r/builder.qcow2'']) 0 ex_out]), Inr ex_disk)"
proof -
  have "walk_round (ex_watched document) ex_plain_host (RuntimeRoot ''/r'') ''/r/builder.qcow2'' [] ((), events) =
      (((), events @ [Ran (Argv [QEMU_IMG, ''info'', ''--output=json'', ''/r/builder.qcow2'']) 0 ex_out]), Inr (ex_disk, None))" for events
    by (simp add: walk_round_def io_bind_def describe_link_def ex_builder ex_run succeeded_def ex_info_read)
      (simp add: ex_info_def dict_get_def FORMAT_KEY_def BACKING_KEY_def QCOW2_def)
  then have "inspect_chain (ex_watched document) ex_plain_host ''/r/builder.qcow2'' (RuntimeRoot ''/r'') ((), events) =
      Some (((), events @ [Ran (Argv [QEMU_IMG, ''info'', ''--output=json'', ''/r/builder.qcow2'']) 0 ex_out]), Inr (BackingChain [ex_disk]))" for events
    unfolding inspect_chain_def by (subst chain_walk.simps) simp
  then show ?thesis
    by (simp add: guarded_source_def pio_bind_def pio_def io_bind_def ex_no_lease path_join_def starts_with_def ends_with_def
        suffix_to_prefix BUILDER_DISK_NAME_def ex_builder ex_identity ex_disk_identity_def)
qed

lemma ex_replace: "fp_replace (hp_files (ex_watched document)) p q (u, events) = ((u, events @ [Swapped p q]), Inr ())"
  by (simp add: watched_simps trying_def io_bind_def ex_host_ports_def ex_answers_def)

lemma ex_disk_fields: "fid_allocated ex_disk_identity = 5" "fid_links ex_disk_identity = 1"
  by (simp_all add: ex_disk_identity_def)

lemmas ex_steps = ex_disk_fields ex_note ex_information ex_is_plain ex_alone ex_chain_paths ex_identified ex_fresh_digest ex_free ex_identity
  ex_no_lease ex_replace io_bind_def on_port_apply

text \<open>The settings of the witnesses ask for no free space.\<close>

definition ex_settings :: settings where
  "ex_settings = \<lparr>se_builder = \<lparr>bs_processors = 4, bs_memory = Mib 9000, bs_reserve = Mib 1000, bs_disk = Gib 10,
      bs_minimum_free = Gib 0, bs_firmware_code = ''/c'', bs_firmware_variables = ''/v''\<rparr>,
    se_runtime_root = ''/r'', se_origins = []\<rparr>"

lemma ex_projected: "projected_free (ex_watched document) ex_settings (RuntimeRoot ''/r'') source path ((u, events), d) =
    (((u, events @ [Free 10000000000, Identified source ex_disk_identity]), d), Inr 10000000005)"
  by (simp add: projected_free_def ex_steps ex_disk_identity_def ex_settings_def gib_bytes_def)

lemma ex_unchanged:
  "require_unchanged (ex_watched document) ex_plain_host (RuntimeRoot ''/r'') path (identity_table [(ex_disk, ex_disk_identity)]) [ex_disk]
     ((u, events), d) = (((u, events @ [Identified ex_disk ex_disk_identity]), d), Inr ())"
  by (simp add: require_unchanged_def ex_steps)

definition ex_swapped :: "members \<Rightarrow> members" where
  "ex_swapped d = dict_update
     [(''replacement'', JStr COMPLETE), (''free_after'', JInt 10000000000), (''status'', JStr PASS), (''phase'', JStr ''complete'')]
     (dict_update [(''replacement'', JStr PENDING), (''phase'', JStr ''replacing validated builder file'')] d)"

lemma ex_swap: "swap_in (ex_watched document) (RuntimeRoot ''/r'') path source target ((u, events), d) =
    (((u, events @ [Swapped target source, Free 10000000000]), ex_swapped d), Inr ())"
  by (simp add: swap_in_def ex_steps ex_swapped_def)

lemma ex_identities: "identities (ex_watched document) ex_plain_host (RuntimeRoot ''/r'') [ex_info] (u, events) =
    ((u, events @ [Identified ex_disk ex_disk_identity]), Inr (identity_table [(ex_disk, ex_disk_identity)], [ex_disk]))"
  by (simp add: identities_def ex_steps)

lemma ex_compact_under:
  assumes "mk_safe_path (path_join (path_parent (safe_path_str path)) CONVERT_LOG_NAME) = Inr transcript"
  shows "\<exists>events d' c. compact_under (ex_watched document) ex_plain_host ex_settings (RuntimeRoot ''/r'')
    path ex_disk target ((u, before), d) = (((u, events), d'), Inr c)"
  unfolding compact_under_def
  by (simp add: assms ex_steps ex_command ex_identities ex_unchanged ex_projected ex_swap gib_bytes_def COMPACTION_RESERVE_def
      BYTES_PER_GIBIBYTE_def)

lemma ex_ledgered:
  assumes "\<And>d. \<exists>events d' c. body (((), before), d) = ((((), events), d'), Inr c)"
  shows "\<exists>events c. with_ledger (ex_watched document) path fresh body ((), before) = (((), events), Inr c)"
proof -
  let ?d = "if dict_has fresh ''commands'' then fresh else dict_set ''commands'' (JList []) fresh"
  obtain events d' c where "body (((), before), ?d) = ((((), events), d'), Inr c)" using assms [of ?d] by blast
  then show ?thesis by (simp add: with_ledger_def io_then_def io_bind_def ex_save)
qed

lemma ex_locked: "locked_pio (machine_part (ex_watched document)) MACHINE immediate body = body"
proof
  fix wl
  show "locked_pio (machine_part (ex_watched document)) MACHINE immediate body wl = body wl"
    by (cases wl; cases "body wl")
      (auto simp: locked_pio_def pio_bind_def pio_def pio_finally_def machine_part_def watched_simps ex_host_ports_def split: prod.splits sum.splits)
qed

lemma ex_opened:
  "ip_run_id (hp_identities (ex_watched document)) (u, events) = ((u, events), Inr (HexIdentifier (replicate 32 CHR ''b'')))"
  "ip_token (hp_identities (ex_watched document)) (u, events) = ((u, events), Inr (HexIdentifier (replicate 32 CHR ''c'')))"
  "fp_make_directory (hp_files (ex_watched document)) p m (u, events) = ((u, events), Inr ())"
  "fp_read_bytes (hp_files (ex_watched document)) p n (u, events) = ((u, events), Inr document)"
  "fp_exists (hp_files (ex_watched document)) p (u, events) = ((u, events), Inr (safe_path_str p \<noteq> ''/r/'' @ LEASE_NAME))"
  by (simp_all add: watched_simps ex_host_ports_def ex_answers_def)

lemmas ex_paths_simps = path_join_def starts_with_def ends_with_def suffix_to_prefix is_relative_to_def ex_safe_path

lemma ex_compacted: "\<exists>events c. compact (ex_watched document) ex_plain_host ex_settings (RuntimeRoot ''/r'') ((), []) = Some (((), events), Inr c)"
proof -
  let ?directory = "''/r/compactions/'' @ replicate 32 CHR ''b''"
  let ?path = "SafePath (?directory @ ''/result.json'')" and ?target = "SafePath (?directory @ ''/builder-compressed.qcow2'')"
  have child: "root_child ex_plain_host (RuntimeRoot ''/r'') (COMPACTIONS_DIRECTORY @ ''/'' @ replicate 32 CHR ''b'') = Inr (SafePath ?directory)"
    by (simp add: root_child_def ex_plain_host_def ex_paths_simps COMPACTIONS_DIRECTORY_def Let_def)
  have div: "safe_path_div (SafePath ?directory) COMPRESSED_DISK_NAME = Inr ?target"
    "safe_path_div (SafePath ?directory) ''result.json'' = Inr ?path"
    by (simp_all add: safe_path_div_def ex_paths_simps COMPRESSED_DISK_NAME_def numeral_eq_Suc)
  have transcript: "mk_safe_path (path_join (path_parent (safe_path_str ?path)) CONVERT_LOG_NAME) = Inr (SafePath (?directory @ ''/convert.log''))"
    by (simp add: path_parent_def ex_paths_simps CONVERT_LOG_NAME_def numeral_eq_Suc)
  let ?before = "[Identified ex_disk ex_disk_identity, Ran (Argv [QEMU_IMG, ''info'', ''--output=json'', ''/r/builder.qcow2'']) 0 ex_out]"
  obtain events c where "with_ledger (ex_watched document) ?path
      [(''status'', JStr FAIL), (''source'', JStr ''/r/builder.qcow2''), (''replacement'', JStr NOT_PERFORMED)]
      (compact_under (ex_watched document) ex_plain_host ex_settings (RuntimeRoot ''/r'') ?path ex_disk ?target) ((), ?before)
    = (((), events), Inr c)"
    using ex_ledgered [where body = "compact_under (ex_watched document) ex_plain_host ex_settings (RuntimeRoot ''/r'') ?path ex_disk ?target"]
      ex_compact_under [OF transcript] by blast
  then have "pio_bind (guarded_source (ex_watched document) ex_plain_host (RuntimeRoot ''/r'')) (\<lambda>source.
      pio (io_bind (ip_run_id (hp_identities (ex_watched document))) (\<lambda>run.
           io_bind (io_lift (root_child ex_plain_host (RuntimeRoot ''/r'') (COMPACTIONS_DIRECTORY @ ''/'' @ identifier_value run))) (\<lambda>directory.
           io_bind (fp_make_directory (hp_files (ex_watched document)) directory PRIVATE_DIRECTORY_MODE) (\<lambda>_.
           io_bind (io_lift (safe_path_div directory COMPRESSED_DISK_NAME)) (\<lambda>target.
           io_bind (io_lift (safe_path_div directory ''result.json'')) (\<lambda>path.
             with_ledger (ex_watched document) path
               [(''status'', JStr FAIL), (''source'', JStr (safe_path_str source)), (''replacement'', JStr NOT_PERFORMED)]
               (compact_under (ex_watched document) ex_plain_host ex_settings (RuntimeRoot ''/r'') path source target)))))))) ((), [])
    = Some (((), events), Inr c)"
    by (simp add: pio_bind_def ex_guarded pio_def io_bind_def ex_opened child [simplified] div [simplified])
  then show ?thesis unfolding compact_def ex_locked by blast
qed

theorem compaction_swaps_validated_witness:
  "\<exists>events c. compact (ex_watched []) ex_plain_host ex_settings (RuntimeRoot ''/r'') ((), []) = Some (((), events), Inr c)
     \<and> swaps_builder ex_plain_host ex_settings (RuntimeRoot ''/r'') compact_tools events"
proof -
  obtain events c where run: "compact (ex_watched []) ex_plain_host ex_settings (RuntimeRoot ''/r'') ((), []) = Some (((), events), Inr c)"
    using ex_compacted by blast
  from compaction_swaps_validated [OF run] run show ?thesis by auto
qed

text \<open>
  C10. The same of a retained copy that is finalised later: it is put in the place of the builder's disk only after
  the tools described the chain of the disk and the copy again, checked every file of the chain and the copy, and
  compared the two, whatever the earlier report says; with the same conditions on the descriptions, the identities
  and the space.
\<close>

theorem finalisation_swaps_validated:
  assumes "finalise (watched ports) h s rt compaction (w, []) = Some ((w', events), r)"
  shows "case r of Inr c \<Rightarrow> swaps_builder h s rt finalise_tools events
    | Inl e \<Rightarrow> unswapped events \<or> swaps_builder h s rt finalise_tools events"
  by (rule finalise_validates [OF assms])

abbreviation ex_copy :: safe_path where
  "ex_copy \<equiv> SafePath (''/r/compactions/'' @ replicate 32 CHR ''b'' @ ''/builder-compressed.qcow2'')"

text \<open>The report of a compaction that was short of space.\<close>

definition ex_report :: members where
  "ex_report =
     [(''before'', JObj [(''identity'', JObj [(''/r/builder.qcow2'', JObj
         [(''allocated'', JInt 5), (''device'', JInt 1), (''inode'', JInt 2), (''links'', JInt 1), (''modified_ns'', JInt 4),
          (''size'', JInt 3)])])]),
      (''commands'', JList [JObj
         [(''argv'', JList (map JStr (argv_arguments (on_paths COMPARE ex_disk ex_copy)))), (''returncode'', JInt 0)]]),
      (''compressed_sha256'', JStr (replicate 64 CHR ''d'')), (''error'', JStr SHORT_OF_SPACE),
      (''replacement'', JStr NOT_PERFORMED), (''source'', JStr ''/r/builder.qcow2''),
      (''source_sha256'', JStr (replicate 64 CHR ''d''))]"

lemma ex_report_read: "parse_object (canonical (JObj ex_report)) = Inr ex_report"
proof -
  have "plain_json (JObj ex_report)" "sort_json (JObj ex_report) = JObj ex_report"
    by (simp_all add: ex_report_def is_ascii_def byte_of_def argv_extended_def COMPARE_def QEMU_IMG_def QCOW2_def SHORT_OF_SPACE_def
        NOT_PERFORMED_def list_all_iff)
  with read_value_canonical [of "JObj ex_report"] show ?thesis by (simp add: parse_object_def)
qed

lemma ex_retained: "retained (ex_watched (canonical (JObj ex_report))) ex_disk (SafePath (''/r/compactions/'' @ replicate 32 CHR ''b'')) (u, events)
    = ((u, events @ [Identified ex_copy ex_disk_identity, Identified ex_disk ex_disk_identity]), Inr (ex_report, ex_copy))"
proof -
  have div: "safe_path_div (SafePath (''/r/compactions/'' @ replicate 32 CHR ''b'')) COMPRESSED_DISK_NAME = Inr ex_copy"
    "\<exists>p. safe_path_div (SafePath (''/r/compactions/'' @ replicate 32 CHR ''b'')) ''result.json'' = Inr p"
    by (simp_all add: safe_path_div_def ex_paths_simps COMPRESSED_DISK_NAME_def numeral_eq_Suc)
  then obtain p where path: "safe_path_div (SafePath (''/r/compactions/'' @ replicate 32 CHR ''b'')) ''result.json'' = Inr p" by blast
  have digest: "mk_digest (replicate 64 CHR ''d'') = Inr (Digest (replicate 64 CHR ''d''))"
    by (simp add: mk_digest_def) code_simp
  have fields: "dict_get ex_report ''source'' JNull = JStr ''/r/builder.qcow2''" "dict_get ex_report ''replacement'' JNull = JStr NOT_PERFORMED"
    "dict_get ex_report ''error'' JNull = JStr SHORT_OF_SPACE" "dict_get ex_report ''source_sha256'' (JStr []) = JStr (replicate 64 CHR ''d'')"
    "dict_get ex_report ''compressed_sha256'' (JStr []) = JStr (replicate 64 CHR ''d'')"
    by (simp_all add: ex_report_def dict_get_def)
  have compared: "length (compared_entries ex_report ex_disk ex_copy) = 1"
    by (simp add: compared_entries_def ex_report_def dict_get_def)
  show ?thesis
    unfolding retained_def Let_def path div(1)
    by (simp add: io_bind_def ex_opened ex_report_read fields digest compared [simplified] ex_identity ex_disk_fields LEASE_NAME_def)
qed

lemma ex_finalise_under: "\<exists>events d' c. finalise_under (ex_watched document) ex_plain_host ex_settings (RuntimeRoot ''/r'')
    path ex_report ex_disk target ((u, before), d) = (((u, events), d'), Inr c)"
proof -
  have digests: "dict_get ex_report ''source_sha256'' JNull = JStr (replicate 64 CHR ''d'')"
    "dict_get ex_report ''compressed_sha256'' JNull = JStr (replicate 64 CHR ''d'')"
    by (simp_all add: ex_report_def dict_get_def)
  have same: "case dict_get ex_report ''before'' JNull of
      JObj m \<Rightarrow> py_equal (dict_get m ''identity'' JNull) (JObj (identity_table [(ex_disk, ex_disk_identity)])) | _ \<Rightarrow> False"
    by (simp add: ex_report_def dict_get_def identity_table_def ex_disk_identity_def identity_document_def)
  then obtain m where m: "dict_get ex_report ''before'' JNull = JObj m"
    "py_equal (dict_get m ''identity'' JNull) (JObj (identity_table [(ex_disk, ex_disk_identity)]))"
    by (cases "dict_get ex_report ''before'' JNull") auto
  show ?thesis
    unfolding finalise_under_def m(1) json.case
    by (simp add: m(2) ex_steps ex_command ex_identities ex_unchanged ex_projected ex_swap require_digest_def digests)
qed

lemma ex_finalised: "\<exists>events c. finalise (ex_watched (canonical (JObj ex_report))) ex_plain_host ex_settings (RuntimeRoot ''/r'')
    (HexIdentifier (replicate 32 CHR ''b'')) ((), []) = Some (((), events), Inr c)"
proof -
  let ?ports = "ex_watched (canonical (JObj ex_report))" and ?previous = "''/r/compactions/'' @ replicate 32 CHR ''b''"
  let ?directory = "?previous @ ''/finalize-'' @ replicate 32 CHR ''c''"
  let ?path = "SafePath (?directory @ ''/result.json'')"
  have child: "root_child ex_plain_host (RuntimeRoot ''/r'') (COMPACTIONS_DIRECTORY @ ''/'' @ replicate 32 CHR ''b'') = Inr (SafePath ?previous)"
    by (simp add: root_child_def ex_plain_host_def ex_paths_simps COMPACTIONS_DIRECTORY_def Let_def)
  have div: "safe_path_div (SafePath ?previous) (FINALISE_PREFIX @ replicate 32 CHR ''c'') = Inr (SafePath ?directory)"
    "safe_path_div (SafePath ?directory) ''result.json'' = Inr ?path"
    "safe_path_div (SafePath ?previous) ''result.json'' = Inr (SafePath (?previous @ ''/result.json''))"
    by (simp_all add: safe_path_div_def ex_paths_simps FINALISE_PREFIX_def numeral_eq_Suc)
  let ?before = "[Identified ex_disk ex_disk_identity, Ran (Argv [QEMU_IMG, ''info'', ''--output=json'', ''/r/builder.qcow2'']) 0 ex_out,
    Identified ex_copy ex_disk_identity, Identified ex_disk ex_disk_identity]"
  let ?body = "finalise_under ?ports ex_plain_host ex_settings (RuntimeRoot ''/r'') ?path ex_report ex_disk ex_copy"
  let ?fresh = "[(''status'', JStr BLOCKED), (''phase'', JStr ''validating retained copy''),
    (''source'', JStr (safe_path_str ex_disk)), (''target'', JStr (safe_path_str ex_copy)), (''replacement'', JStr NOT_PERFORMED),
    (''previous_report_sha256'', JStr (replicate 64 CHR ''d'')), (''previous_run'', JStr (replicate 32 CHR ''b''))]"
  obtain events c where "with_ledger ?ports ?path ?fresh ?body ((), ?before) = (((), events), Inr c)"
    using ex_ledgered [where body = ?body] ex_finalise_under by blast
  then show ?thesis
    unfolding finalise_def ex_locked
    by (simp add: pio_bind_def ex_guarded pio_def io_bind_def ex_opened ex_fresh_digest ex_retained [simplified]
        child [simplified] div [simplified])
qed

theorem finalisation_swaps_validated_witness:
  "\<exists>events c. finalise (ex_watched (canonical (JObj ex_report))) ex_plain_host ex_settings (RuntimeRoot ''/r'')
       (HexIdentifier (replicate 32 CHR ''b'')) ((), []) = Some (((), events), Inr c)
     \<and> swaps_builder ex_plain_host ex_settings (RuntimeRoot ''/r'') finalise_tools events"
proof -
  obtain events c where run: "finalise (ex_watched (canonical (JObj ex_report))) ex_plain_host ex_settings (RuntimeRoot ''/r'')
       (HexIdentifier (replicate 32 CHR ''b'')) ((), []) = Some (((), events), Inr c)"
    using ex_finalised by blast
  from finalisation_swaps_validated [OF run] run show ?thesis by auto
qed

subsection \<open>A trace of fingerprint access\<close>

text \<open>
  C15. What a capture keeps of a transcript, whatever is in it: its lines are the events of the trace; every text in
  them is one of the trace's own words, a bus name, a device path or an error name; events and errors are bounded;
  and the owners it ends with are those the events say, when no line was refused.
\<close>

theorem capture_keeps_only_events:
  assumes "trace_of now lookup stream w = (w', Inr (lines, t))"
  shows "lines = map (\<lambda>e. canonical (JObj e)) (tc_events t) \<and> list_all clean_event (tc_events t)
    \<and> length (tc_events t) \<le> TRACE_EVENT_LIMIT \<and> length (tc_errors t) \<le> TRACE_ERROR_LIMIT + 1
    \<and> (tc_errors t = [] \<longrightarrow> tc_owners t = foldl replay_owner [] (tc_events t))"
  by (rule trace_of_faithful [OF assms])

definition ex_message :: members where
  "ex_message =
     [(''cookie'', JInt 7), (''destination'', JStr SERVICE), (''interface'', JStr INTERFACE), (''member'', JStr ''Claim''),
      (''path'', JStr ''/net/reactivated/Fprint/Device/0''), (''secret'', JStr ''a finger''), (''sender'', JStr '':1.5''),
      (''timestamp-realtime'', JInt 3), (''type'', JStr ''method_call'')]"

definition ex_now :: "(unit, instant) io" where
  "ex_now w = (w, Inr (Instant 2))"

lemma ex_message_read: "parse_document (canonical (JObj ex_message)) = Inr (JObj ex_message)" "plain_json (JObj ex_message)"
proof -
  have "plain_json (JObj ex_message)" "sort_json (JObj ex_message) = JObj ex_message"
    by (simp_all add: ex_message_def is_ascii_def byte_of_def SERVICE_def INTERFACE_def)
  with read_value_canonical [of "JObj ex_message"]
  show "parse_document (canonical (JObj ex_message)) = Inr (JObj ex_message)" "plain_json (JObj ex_message)" by simp_all
qed

lemma ex_call: "call_parts ex_message = Inr (Some ('':1.5'', 7, ''Claim'', ''/net/reactivated/Fprint/Device/0'', SERVICE))"
proof -
  have "fullmatch DEVICE_PATH ''/net/reactivated/Fprint/Device/0''" "unique_name '':1.5''"
    unfolding unique_name_def DEVICE_PATH_def UNIQUE_NAME_def by code_simp+
  then show ?thesis
    by (simp add: call_parts_def ex_message_def dict_get_def member_in_def METHODS_def)
qed

lemma ex_line: "\<exists>rest. canonical (JObj ex_message) = CHR ''{'' # rest"
  by (simp add: canonical_def ex_message_def)

lemma ex_fed: "\<exists>e t. trace_feed ex_now None (JObj ex_message) ((), trace_new) = (((), t), Inr (Some e)) \<and> tc_events t = [e] \<and> tc_errors t = []"
proof -
  have fields: "get ex_message ''type'' = JStr ''method_call''" "get ex_message ''timestamp-realtime'' = JInt 3"
    "dict_has ex_message ''payload'' = False"
    by (simp_all add: ex_message_def dict_get_def dict_has_def)
  show ?thesis
    by (simp add: trace_feed_def event_of_def io_bind_def fields trace_call_def ex_call known_client_def on_trace_def trace_new_def
        stamped_def ex_now_def dict_has_def [of "[]"] Let_def)
qed

theorem capture_keeps_only_events_witness:
  "\<exists>e t. trace_of ex_now None (canonical (JObj ex_message) @ [CHR 0x0A]) () = ((), Inr ([canonical (JObj e)], t))
     \<and> tc_events t = [e] \<and> clean_event e"
proof -
  let ?line = "canonical (JObj ex_message)"
  obtain rest where line: "?line = CHR ''{'' # rest" using ex_line by blast
  have "\<not> is_byte_space CHR ''{''" by (simp add: is_byte_space_def)
  then have kept: "strip_with is_byte_space ?line \<noteq> []" unfolding line by (simp add: strip_with_def)
  have "weight (JObj ex_message) \<le> 4000"
    by (simp add: ex_message_def SERVICE_def INTERFACE_def str_of_int_def str_of_nat.simps)
  with canonical_length [OF ex_message_read(2)] have short: "length ?line \<le> 4000" by simp
  obtain e t where fed: "trace_feed ex_now None (JObj ex_message) ((), trace_new) = (((), t), Inr (Some e))" "tc_events t = [e]" "tc_errors t = []"
    using ex_fed by blast
  have pieces: "split_on CHR 0x0A (?line @ [CHR 0x0A]) = [?line, []]"
    using split_on_append_sep [OF canonical_no_newline [OF ex_message_read(2)], of "[]"] by simp
  have "fed_line ex_now None ?line ((), trace_new) = (((), t), Inr (Some (Some e)))"
    using short by (simp add: fed_line_def trace_line_def TRACE_LINE_LIMIT_def ex_message_read(1) io_catch_def io_bind_def fed(1))
  with kept short fed(2) have "trace_consume ex_now None (?line @ [CHR 0x0A]) ((), trace_new) = (((), t), Inr [canonical (JObj e)])"
    by (simp add: trace_consume_def pieces TRACE_RAW_LIMIT_def io_bind_def TRACE_EVENT_LIMIT_def strip_with_def Let_def)
  then have run: "trace_of ex_now None (?line @ [CHR 0x0A]) () = ((), Inr ([canonical (JObj e)], t))"
    by (simp add: trace_of_def ends_partial_def ends_with_def suffix_to_prefix io_bind_def)
  from capture_keeps_only_events [OF run] run fed(2) show ?thesis by auto
qed

end
