(* ===== verification/Spec2Isabelle.thy ===== *)
theory Spec2Isabelle
  imports Refusals KernelValues Claims JsonProps Indented Runner Ledger RuntimeState StoreTheorems PlanTheorems
    WireTheorems ReadinessTheorems MachineTheorems ScreenTheorems Release Columns RunTheorems
begin

text \<open>
  apex-fedora: a verification development of the program under src/src/apex.

  \<^bold>\<open>The program.\<close> The tool builds an operating system image, runs it in virtual machines and
  files what it observed as evidence. Its core is: a kernel of validated values (kernel/); registries
  of declared units (registry/); plans of stages that run with finalisers (pipeline/); an evidence
  store, which is a hash-chained ledger beside a content-addressed store of proofs (attestation/);
  the evaluation that says whether a candidate is ready (attestation/readiness.py); the documents
  and wire formats the parts exchange (model/); and the machine the observations are made on
  (model/machines.py, provisioning/). Effects go through ports (ports/): a stage mints a result
  through the files port, the ledger reads the chain through it, a launch writes an intent, starts
  a process through the hypervisor port and writes a lease.

  \<^bold>\<open>How it is modelled.\<close> A class is a record, an enumeration a datatype, a dictionary an
  association list in insertion order. What raises gives \<open>exn + 'a\<close> (\<open>Errors\<close>, \<open>Refusals\<close>); what
  acts on a port takes and returns the port's state (\<open>PortIO\<close>), and what it did before it raised stays
  done. Python's strings, numbers, regular expressions, bytes and JSON are in \<open>PyText\<close>, \<open>PyCoerce\<close>,
  \<open>PyRegex\<close>, \<open>PyBytes\<close> and \<open>PyJson\<close>; SHA-256 over 32-bit words in \<open>Sha256\<close>, base 64 in \<open>Base64\<close>.
  A text is a list of characters below 256, so a character is a byte of the file it is written to; the
  round trips ask for ASCII where the program's encoder would escape. A \<open>float\<close> is a rational.

  \<^bold>\<open>Theories and sources.\<close>
  \<^item> \<open>KernelValues\<close>, \<open>Identifiers\<close>, \<open>Claims\<close>, \<open>Verdicts\<close>, \<open>SafePaths\<close>, \<open>Documents\<close>: kernel/.
    Each constructor is its \<open>__post_init__\<close>; the lemmas say what a value that exists satisfies.
  \<^item> \<open>Registry\<close>, \<open>Graph\<close>: registry/. A seal does not depend on the order of registration; an
    order of units exists exactly when no fact is written twice, unwritten or in a circle.
  \<^item> \<open>Pipeline\<close>, \<open>Runner\<close>: pipeline/. A plan's reads are written before; a run releases what its
    stages took, under the contract it states, and its outcome accounts for every check by the answers of
    the stages, which a relation of its own (\<open>stages_run\<close>) tells apart from the code.
  \<^item> \<open>FilesPort\<close>, \<open>MemoryFiles\<close>: ports/files.py with the locale \<open>file_store\<close>, and the in-memory tree
    that interprets it. \<open>Clock\<close>: ports/clock.py with the locale \<open>ticking\<close>, and the manual clock.
  \<^item> \<open>Ledger\<close>, \<open>Proofs\<close>, \<open>WriteOnce\<close>, \<open>Minting\<close>, \<open>Retracting\<close>, \<open>Locks\<close>, \<open>StoreMark\<close>,
    \<open>RuntimeState\<close>, \<open>StoreReaders\<close>, \<open>StoreProps\<close>, \<open>StoreCycle\<close>: the store. \<open>Catalogue\<close>, \<open>Readiness\<close>:
    what is asked of a candidate. The store refines an append-only list, what is minted is what is
    read, and a candidate is ready exactly when every check was earned.
  \<^item> \<open>SerialFrame\<close>, \<open>Builds\<close>, \<open>Extents\<close>, \<open>Indented\<close>, \<open>JsonProps\<close>, \<open>JsonBound\<close>: model/, wire and documents.
  \<^item> \<open>Screens\<close>: model/screens.py, with the scan by wide integers equal to a count of pixels.
  \<^item> \<open>Machines\<close>, \<open>Defaults\<close>, \<open>Leases\<close>, \<open>Hypervisor\<close>, \<open>Launching\<close>, \<open>MachineHost\<close>, \<open>Bench\<close>: model/machines.py,
    config/defaults.py, provisioning/ and the ports they call. \<open>CommandLine\<close> specifies the devices of a
    description and the rows of a command line apart from the code. \<open>Triples\<close> holds the rules the
    invariant of the machine is proved with.
  \<^item> \<open>GuestShell\<close>: ports/guestshell.py, with a model of the shell that reads what it renders,
    without assignments and reserved words. \<open>HostPorts\<close>: the
    other ports of the host, their bundle (ports/portset.py, planning.py) and three fakes. \<open>PyDecode\<close>: UTF-8
    decoding that replaces what is malformed.
  \<^item> \<open>Settings\<close>: config/, the layers of settings and the reviewed locks. \<open>Backing\<close>: provisioning/backingchain.py,
    whose walk returns and answers with exactly the chains described. \<open>TestRuns\<close>, \<open>Hotplug\<close>: a test run's record,
    preparing, resuming, comparing it, and the fixture plugged into it. \<open>Compacting\<close>: provisioning/compacting.py;
    \<open>Swaps\<close> follows a compaction by the log of what its ports did and what the tools answered.
  \<^item> \<open>FingerprintTrace\<close>: verification/fingerprinttrace.py; what is kept of a transcript is bounded and holds no
    text but the trace's own.
  \<^item> \<open>Release\<close>: model/release.py and targeting/. \<open>Columns\<close>: attestation/columns.py and selecting.py.
  \<^item> The theories named \<open>Theorems\<close> and this one state the properties, each with a witness on a
    concrete input where it has a hypothesis.

  \<^bold>\<open>Parameters.\<close> HMAC, the random source, the answers of the host's file system about links and
  modes, and the body of a stage are arguments of the definitions that use them; what the reader of TOML
  made of a settings file is the argument of \<open>load_settings\<close>. External tools (qemu-img, busctl) answer through
  the process port, which is any. What a port promises is a locale, interpreted on the fake of the test bundle.

  \<^bold>\<open>Bounds and fuel.\<close> Readers of text (\<open>read_value\<close>, the regular expression matcher) recurse on fuel
  that is the length of their input, with a lemma that it is enough. \<open>io_loop\<close>, the loop of
  ports/clock.py, is a partial function; that it returns is \<open>ticking.wait_returns\<close>. The walk of a chain of disks is a
  partial function too, which \<open>inspect_returns\<close> shows to return. Following links of
  the in-memory tree is bounded by their number, as in the source.

  \<^bold>\<open>Not modelled.\<close> The real adapters (subprocess, sockets, ssh), the command line, the agent's units,
  the stages and probes that call external tools in a guest, the text of generated files, the rules
  over a git tree, and the import of modules by registry/discovery.py. Messages of refusals are not
  kept: a refusal is its reason.
\<close>

section \<open>Properties\<close>

text \<open>C40. Reading a canonical rendering back gives the document with its keys sorted.\<close>

theorem canonical_roundtrip:
  "plain_json document \<Longrightarrow> parse_document (canonical document) = Inr (sort_json document)"
  by (rule read_value_canonical)

theorem canonical_roundtrip_witness:
  "parse_document (canonical (JObj [(''b'', JInt 4), (''a'', JStr ''x'')]))
     = Inr (JObj [(''a'', JStr ''x''), (''b'', JInt 4)])"
proof -
  have "plain_json (JObj [(''b'', JInt 4), (''a'', JStr ''x'')])"
    by (simp add: is_ascii_def byte_of_def)
  from canonical_roundtrip [OF this] show ?thesis by simp
qed

end
